(* ===== verification/Prelude.thy ===== *)
theory Prelude
  imports Main "HOL-Library.Multiset" "HOL-Library.List_Lexorder" "HOL-Library.Char_ord"
    "HOL-Library.Product_Lexorder"
begin

text \<open>
  What every component of the development shares.

  \<^item> Go strings are byte sequences compared byte by byte: \<^typ>\<open>string\<close> with the
    lexicographic order of \<open>List_Lexorder\<close> over \<open>Char_ord\<close>.
  \<^item> \<open>sort_slice\<close> is the sort that \<open>sort.Slice\<close> runs: the insertion sort of
    package \<open>sort\<close>, which it uses unchanged on short slices.  The locale
    \<open>keyed_less\<close> is the contract between a comparator of the program and the sort: the
    comparator compares a key drawn from a linear order.  In that locale the result is the
    stable sort by the key, and any other sorted permutation agrees with it as soon as the key
    separates the elements, so that the choice of algorithm does not matter.
  \<^item> A Go map whose values are slices grown by \<open>append\<close> is an association list in order
    of first insertion (\<open>alist_append\<close>, \<open>group_by\<close>).
\<close>

section \<open>Collections of rewrite rules\<close>

named_theorems go_simps \<open>unfolding rules of the small Go library functions\<close>
named_theorems key_simps \<open>each comparator of the program as a comparison of keys\<close>

section \<open>Strings\<close>

type_synonym gostring = string

fun join :: "string \<Rightarrow> string list \<Rightarrow> string" where
  "join sep [] = []"
| "join sep [x] = x"
| "join sep (x # y # ys) = x @ sep @ join sep (y # ys)"

lemma join_Cons: "ys \<noteq> [] \<Longrightarrow> join sep (y # ys) = y @ sep @ join sep ys"
  by (cases ys) auto

text \<open>Decimal printing of an \<open>int\<close>, as \<open>strconv.Itoa\<close> and the verb \<open>%d\<close> do it.\<close>

fun digits_of :: "nat \<Rightarrow> string" where
  "digits_of n =
     (if n < 10 then [char_of (48 + n)] else digits_of (n div 10) @ [char_of (48 + n mod 10)])"

declare digits_of.simps [simp del]

definition itoa :: "int \<Rightarrow> string" where
  "itoa n = (if n < 0 then CHR 0x2D # digits_of (nat (- n)) else digits_of (nat n))"

section \<open>Sorting\<close>

fun ins_desc :: "('a \<Rightarrow> 'a \<Rightarrow> bool) \<Rightarrow> 'a \<Rightarrow> 'a list \<Rightarrow> 'a list" where
  "ins_desc lt x [] = [x]"
| "ins_desc lt x (y # ys) = (if lt x y then y # ins_desc lt x ys else x # y # ys)"

text \<open>
  The sorted prefix is kept in reverse: the new element moves left past every element it is
  less than, as the inner loop \<open>for j := i; j > a && less(j, j-1); j--\<close> does.
\<close>

definition sort_slice :: "('a \<Rightarrow> 'a \<Rightarrow> bool) \<Rightarrow> 'a list \<Rightarrow> 'a list" where
  "sort_slice lt xs = rev (fold (ins_desc lt) xs [])"

lemma mset_ins_desc [simp]: "mset (ins_desc lt x ys) = add_mset x (mset ys)"
  by (induction ys) auto

lemma set_ins_desc [simp]: "set (ins_desc lt x ys) = insert x (set ys)"
  by (induction ys) auto

lemma mset_fold_ins_desc: "mset (fold (ins_desc lt) xs acc) = mset xs + mset acc"
  by (induction xs arbitrary: acc) auto

lemma mset_sort_slice [simp]: "mset (sort_slice lt xs) = mset xs"
  by (simp add: sort_slice_def mset_fold_ins_desc)

lemma set_sort_slice [simp]: "set (sort_slice lt xs) = set xs"
  using mset_sort_slice by (metis set_mset_mset)

lemma length_sort_slice [simp]: "length (sort_slice lt xs) = length xs"
  using mset_sort_slice by (metis size_mset)

lemma distinct_sort_slice [simp]: "distinct (sort_slice lt xs) = distinct xs"
  using mset_sort_slice by (metis distinct_count_atmost_1 set_mset_mset)

lemma sort_slice_Nil [simp]: "sort_slice lt [] = []"
  by (simp add: sort_slice_def)

lemma sort_slice_single [simp]: "sort_slice lt [x] = [x]"
  by (simp add: sort_slice_def)

lemma sort_slice_eq_Nil [simp]: "sort_slice lt xs = [] \<longleftrightarrow> xs = []"
  by (metis length_0_conv length_sort_slice)

lemma distinct_map_sort_slice [simp]:
  "distinct (map f (sort_slice lt xs)) = distinct (map f xs)"
proof -
  have "mset (map f (sort_slice lt xs)) = mset (map f xs)"
    by simp
  then show ?thesis
    by (metis distinct_count_atmost_1 set_mset_mset)
qed

locale keyed_less =
  fixes lt :: "'a \<Rightarrow> 'a \<Rightarrow> bool" and key :: "'a \<Rightarrow> 'k::linorder"
  assumes less_key: "lt x y \<longleftrightarrow> key x < key y"
begin

lemma ins_desc_sorted:
  "sorted_wrt (\<lambda>x y. key y \<le> key x) ys \<Longrightarrow> sorted_wrt (\<lambda>x y. key y \<le> key x) (ins_desc lt x ys)"
proof (induction ys)
  case (Cons y ys)
  then show ?case
    by (cases "lt x y") (auto simp: less_key)
qed simp

lemma ins_desc_filter:
  "sorted_wrt (\<lambda>x y. key y \<le> key x) ys \<Longrightarrow>
   filter (\<lambda>z. key z = k) (ins_desc lt x ys) = filter (\<lambda>z. key z = k) (x # ys)"
proof (induction ys)
  case (Cons y ys)
  then show ?case
    by (auto simp: less_key)
qed simp

lemma fold_ins_desc_sorted:
  "sorted_wrt (\<lambda>x y. key y \<le> key x) acc \<Longrightarrow>
   sorted_wrt (\<lambda>x y. key y \<le> key x) (fold (ins_desc lt) xs acc)"
  by (induction xs arbitrary: acc) (auto intro: ins_desc_sorted)

lemma fold_ins_desc_filter:
  "sorted_wrt (\<lambda>x y. key y \<le> key x) acc \<Longrightarrow>
   filter (\<lambda>z. key z = k) (fold (ins_desc lt) xs acc) =
     rev (filter (\<lambda>z. key z = k) xs) @ filter (\<lambda>z. key z = k) acc"
proof (induction xs arbitrary: acc)
  case (Cons x xs)
  then have "filter (\<lambda>z. key z = k) (fold (ins_desc lt) (x # xs) acc) =
     rev (filter (\<lambda>z. key z = k) xs) @ filter (\<lambda>z. key z = k) (ins_desc lt x acc)"
    by (simp add: ins_desc_sorted)
  with Cons.prems show ?case
    by (auto simp: ins_desc_filter)
qed simp

lemma sort_slice_keys_sorted: "sorted (map key (sort_slice lt xs))"
proof -
  have "sorted_wrt (\<lambda>x y. key y \<le> key x) (fold (ins_desc lt) xs [])"
    by (rule fold_ins_desc_sorted) simp
  then have "sorted_wrt (\<lambda>x y. key x \<le> key y) (sort_slice lt xs)"
    by (simp add: sort_slice_def sorted_wrt_rev)
  then show ?thesis
    by (simp add: sorted_map)
qed

lemma sort_slice_stable:
  "filter (\<lambda>z. key z = k) (sort_slice lt xs) = filter (\<lambda>z. key z = k) xs"
  using fold_ins_desc_filter [of "[]" k xs] by (simp add: sort_slice_def rev_filter [symmetric])

lemma sort_slice_sort_key: "sort_slice lt xs = sort_key key xs"
proof (rule properties_for_sort_key [symmetric])
  show "filter (\<lambda>x. key k = key x) (sort_slice lt xs) = filter (\<lambda>x. key k = key x) xs"
    if "k \<in> set (sort_slice lt xs)" for k
    using sort_slice_stable [of "key k" xs] by (simp add: eq_commute)
qed (simp_all add: sort_slice_keys_sorted)

lemma sort_slice_canonical:
  assumes "inj_on key (set xs)" and "mset ys = mset xs"
    and "sorted_wrt (\<lambda>x y. \<not> lt y x) ys"
  shows "ys = sort_slice lt xs"
proof -
  have "sorted (map key ys)"
    using assms(3) by (simp add: less_key sorted_map not_less)
  moreover have eq: "set ys = set xs"
    using assms(2) by (metis set_mset_mset)
  moreover have "mset (map key ys) = mset (map key (sort_slice lt xs))"
    using assms(2) by simp
  then have "map key ys = map key (sort_slice lt xs)"
    using calculation(1) sort_slice_keys_sorted by (metis sorted_sort_id properties_for_sort)
  ultimately show ?thesis
    using assms(1) eq inj_on_map_eq_map [of key ys "sort_slice lt xs"] by simp
qed

lemma sort_slice_perm_invariant:
  assumes "inj_on key (set xs)" and "mset ys = mset xs"
  shows "sort_slice lt ys = sort_slice lt xs"
proof (rule sort_slice_canonical [OF assms(1)])
  show "mset (sort_slice lt ys) = mset xs"
    using assms(2) by simp
  show "sorted_wrt (\<lambda>x y. \<not> lt y x) (sort_slice lt ys)"
    using sort_slice_keys_sorted [of ys] by (simp add: less_key sorted_map not_less)
qed

end

interpretation string_less: keyed_less "(<) :: string \<Rightarrow> string \<Rightarrow> bool" id
  by unfold_locales simp

text \<open>
  The three-way comparison that comparators of the program compute field by field.  A chain of
  field comparisons is one comparison of tuples.
\<close>

definition cmp3 :: "'a::linorder \<Rightarrow> 'a \<Rightarrow> int" where
  "cmp3 l r = (if l < r then -1 else if r < l then 1 else 0)"

lemma cmp3_iff [simp]:
  "cmp3 l r < 0 \<longleftrightarrow> l < r" "0 < cmp3 l r \<longleftrightarrow> r < l" "cmp3 l r = 0 \<longleftrightarrow> l = r"
  by (auto simp: cmp3_def)

lemma cmp3_refl: "cmp3 x x = 0"
  by (simp add: cmp3_def)

lemma cmp3_swap: "cmp3 r l = - cmp3 l r"
  by (auto simp: cmp3_def)

lemma cmp3_lex: "(if a \<noteq> b then cmp3 a b else cmp3 c d) = cmp3 (a, c) (b, d)"
  by (auto simp: cmp3_def less_le)

lemma cmp3_Cons:
  "cmp3 (x # xs) (y # ys) = (if x \<noteq> y then cmp3 x y else cmp3 xs ys)"
  by (auto simp: cmp3_def)

lemma cmp3_Nil [simp]:
  "cmp3 [] [] = 0" "cmp3 [] (y # ys) = -1" "cmp3 (y # ys) [] = 1"
  by (auto simp: cmp3_def)

section \<open>Lists\<close>

lemma sorted_wrt_last: "sorted_wrt P xs \<Longrightarrow> x \<in> set xs \<Longrightarrow> x \<noteq> last xs \<Longrightarrow> P x (last xs)"
  by (cases xs rule: rev_cases) (auto simp: sorted_wrt_append)

lemma map_filter_total: "(\<And>x. x \<in> set xs \<Longrightarrow> f x = Some (g x)) \<Longrightarrow> List.map_filter f xs = map g xs"
  by (induction xs) (auto simp: List.map_filter_simps)

lemma contiguous_union:
  fixes lo hi :: "'a \<Rightarrow> int"
  assumes "xs \<noteq> []" and "sorted (map lo xs)" and "sorted (map hi xs)"
    and "successively (\<lambda>p m. lo m \<le> hi p + 1) xs"
  shows "(\<Union>x\<in>set xs. {lo x..hi x}) = {lo (hd xs)..hi (last xs)}"
  using assms
proof (induction xs rule: rev_nonempty_induct)
  case (snoc x xs)
  have IH: "(\<Union>y\<in>set xs. {lo y..hi y}) = {lo (hd xs)..hi (last xs)}"
    using snoc by (auto simp: sorted_append successively_append_iff)
  have "lo x \<le> hi (last xs) + 1"
    using snoc.prems(3) snoc.hyps by (simp add: successively_append_iff)
  moreover have "hi (last xs) \<le> hi x" "lo (hd xs) \<le> lo x"
    using snoc.prems(1,2) snoc.hyps by (auto simp: sorted_append)
  ultimately have "{lo (hd xs)..hi (last xs)} \<union> {lo x..hi x} = {lo (hd xs)..hi x}"
    by auto
  with IH snoc.hyps show ?case
    by (simp add: Un_commute)
qed simp

lemma ex_pair_Cons:
  "(\<exists>i j. i < j \<and> j < length (x # xs) \<and> P ((x # xs) ! i) ((x # xs) ! j)) \<longleftrightarrow>
     (\<exists>y\<in>set xs. P x y) \<or> (\<exists>i j. i < j \<and> j < length xs \<and> P (xs ! i) (xs ! j))"
  (is "?L \<longleftrightarrow> ?A \<or> ?B")
proof
  assume ?L
  then obtain i j where ij: "i < j" "j < length (x # xs)" "P ((x # xs) ! i) ((x # xs) ! j)"
    by blast
  then obtain j' where j: "j = Suc j'"
    by (cases j) auto
  show "?A \<or> ?B"
  proof (cases i)
    case 0
    with ij j have ?A
      by (auto intro!: bexI [of _ "xs ! j'"])
    then show ?thesis ..
  next
    case (Suc i')
    with ij j have "i' < j' \<and> j' < length xs \<and> P (xs ! i') (xs ! j')"
      by simp
    then show ?thesis by blast
  qed
next
  assume "?A \<or> ?B"
  then show ?L
  proof
    assume ?A
    then obtain j where "j < length xs" "P x (xs ! j)"
      by (auto simp: in_set_conv_nth)
    then show ?L
      by (intro exI [of _ 0] exI [of _ "Suc j"]) auto
  next
    assume ?B
    then obtain i j where "i < j" "j < length xs" "P (xs ! i) (xs ! j)"
      by blast
    then show ?L
      by (intro exI [of _ "Suc i"] exI [of _ "Suc j"]) auto
  qed
qed

text \<open>A separator that does not occur in the first part determines the split.\<close>

lemma append_sep_inject:
  "\<lbrakk>c \<notin> set xs; c \<notin> set ys; xs @ c # as = ys @ c # bs\<rbrakk> \<Longrightarrow> xs = ys \<and> as = bs"
proof (induction xs arbitrary: ys)
  case Nil
  then show ?case by (cases ys) auto
next
  case (Cons x xs)
  then show ?case by (cases ys) auto
qed

section \<open>Maps whose values are slices\<close>

fun alist_append :: "'k \<Rightarrow> 'v \<Rightarrow> ('k \<times> 'v list) list \<Rightarrow> ('k \<times> 'v list) list" where
  "alist_append k v [] = [(k, [v])]"
| "alist_append k v ((k', vs) # m) =
     (if k = k' then (k', vs @ [v]) # m else (k', vs) # alist_append k v m)"

definition group_by :: "('a \<Rightarrow> 'k) \<Rightarrow> ('a \<Rightarrow> 'v) \<Rightarrow> 'a list \<Rightarrow> ('k \<times> 'v list) list" where
  "group_by f g xs = fold (\<lambda>x. alist_append (f x) (g x)) xs []"

definition lookup_list :: "('k \<times> 'v list) list \<Rightarrow> 'k \<Rightarrow> 'v list" where
  "lookup_list m k = (case map_of m k of None \<Rightarrow> [] | Some vs \<Rightarrow> vs)"

lemma keys_alist_append: "set (map fst (alist_append k v m)) = insert k (set (map fst m))"
  by (induction m rule: alist_append.induct [case_names Nil Cons]) auto

lemma distinct_alist_append: "distinct (map fst m) \<Longrightarrow> distinct (map fst (alist_append k v m))"
proof (induction k v m rule: alist_append.induct)
  case (2 k v k' vs m)
  then show ?case
    using keys_alist_append [of k v m] by auto
qed simp

lemma map_of_alist_append:
  "map_of (alist_append k v m) k' =
     (if k' = k then Some (lookup_list m k @ [v]) else map_of m k')"
  by (induction k v m rule: alist_append.induct) (auto simp: lookup_list_def)

lemma lookup_alist_append [simp]:
  "lookup_list (alist_append k v m) k' = (if k' = k then lookup_list m k @ [v] else lookup_list m k')"
  by (simp add: lookup_list_def map_of_alist_append)

lemma lookup_list_Nil [simp]: "lookup_list [] k = []"
  by (simp add: lookup_list_def)

lemma lookup_fold_append:
  "lookup_list (fold (\<lambda>x. alist_append (f x) (g x)) xs m) k =
     lookup_list m k @ map g (filter (\<lambda>x. f x = k) xs)"
  by (induction xs arbitrary: m) auto

lemma lookup_group_by [simp]: "lookup_list (group_by f g xs) k = map g (filter (\<lambda>x. f x = k) xs)"
  by (simp add: group_by_def lookup_fold_append)

lemma lookup_list_mem: "v \<in> set (lookup_list m k) \<Longrightarrow> \<exists>vs. (k, vs) \<in> set m \<and> v \<in> set vs"
  by (cases "map_of m k") (auto simp: lookup_list_def dest: map_of_SomeD)

lemma keys_fold_append:
  "set (map fst (fold (\<lambda>x. alist_append (f x) (g x)) xs m)) = set (map fst m) \<union> f ` set xs"
  by (induction xs arbitrary: m) (auto simp: keys_alist_append simp del: set_map)

lemma keys_group_by: "fst ` set (group_by f g xs) = f ` set xs"
  using keys_fold_append [of f g xs "[]"] by (simp add: group_by_def)

lemma distinct_fold_append:
  "distinct (map fst m) \<Longrightarrow> distinct (map fst (fold (\<lambda>x. alist_append (f x) (g x)) xs m))"
  by (induction xs arbitrary: m) (auto intro: distinct_alist_append)

lemma distinct_group_by [simp]: "distinct (map fst (group_by f g xs))"
  by (simp add: group_by_def distinct_fold_append)

lemma group_by_Nil [simp]: "group_by f g [] = []"
  by (simp add: group_by_def)

lemma group_by_eq_Nil [simp]: "group_by f g xs = [] \<longleftrightarrow> xs = []"
  using keys_group_by [of f g xs] by (metis group_by_Nil image_is_empty set_empty)

lemma group_by_entry: "(k, vs) \<in> set (group_by f g xs) \<Longrightarrow> vs = map g (filter (\<lambda>x. f x = k) xs)"
  using lookup_group_by [of f g xs k] by (auto simp: lookup_list_def)

lemma mset_group_by:
  "(\<Sum>k\<leftarrow>map fst (group_by f g xs). mset (lookup_list (group_by f g xs) k)) = mset (map g xs)"
proof -
  have "(\<Sum>k\<leftarrow>ks. mset (map g (filter (\<lambda>x. f x = k) xs))) = mset (map g (filter (\<lambda>x. f x \<in> set ks) xs))"
    if "distinct ks" for ks
    using that
  proof (induction ks)
    case (Cons k ks)
    have "mset (map g (filter (\<lambda>x. f x = k) xs)) + mset (map g (filter (\<lambda>x. f x \<in> set ks) xs)) =
          mset (map g (filter (\<lambda>x. f x = k \<or> f x \<in> set ks) xs))"
      using Cons.prems by (induction xs) auto
    with Cons show ?case
      by simp
  qed simp
  from this [of "map fst (group_by f g xs)"]
  have "(\<Sum>k\<leftarrow>map fst (group_by f g xs). mset (lookup_list (group_by f g xs) k)) =
      mset (map g (filter (\<lambda>x. f x \<in> f ` set xs) xs))"
    by (simp add: keys_group_by)
  also have "filter (\<lambda>x. f x \<in> f ` set xs) xs = xs"
    by (rule filter_True) simp
  finally show ?thesis .
qed

section \<open>Results\<close>

text \<open>
  A Go function that returns a value and an error, or panics, returns \<open>'e + 'a\<close>.
  \<open>bindE\<close> is the early return \<open>if err != nil { return err }\<close>; \<open>traverse\<close> is a loop that
  appends one result per element and returns at the first error; \<open>foldE\<close> is a loop over a
  state that may return early.
\<close>

definition bindE :: "'e + 'a \<Rightarrow> ('a \<Rightarrow> 'e + 'b) \<Rightarrow> 'e + 'b" where
  "bindE m f = (case m of Inl e \<Rightarrow> Inl e | Inr x \<Rightarrow> f x)"

lemma bindE_simps [simp]: "bindE (Inl e) f = Inl e" "bindE (Inr x) f = f x"
  by (simp_all add: bindE_def)

lemma bindE_eq_Inr: "bindE m f = Inr y \<longleftrightarrow> (\<exists>x. m = Inr x \<and> f x = Inr y)"
  by (cases m) auto

lemma bindE_eq_Inl: "bindE m f = Inl e \<longleftrightarrow> m = Inl e \<or> (\<exists>x. m = Inr x \<and> f x = Inl e)"
  by (cases m) auto

lemma bindE_assoc: "bindE (bindE m f) g = bindE m (\<lambda>x. bindE (f x) g)"
  by (cases m) auto

fun traverse :: "('a \<Rightarrow> 'e + 'b) \<Rightarrow> 'a list \<Rightarrow> 'e + 'b list" where
  "traverse f [] = Inr []"
| "traverse f (x # xs) = bindE (f x) (\<lambda>y. bindE (traverse f xs) (\<lambda>ys. Inr (y # ys)))"

fun foldE :: "('a \<Rightarrow> 's \<Rightarrow> 'e + 's) \<Rightarrow> 'a list \<Rightarrow> 's \<Rightarrow> 'e + 's" where
  "foldE f [] s = Inr s"
| "foldE f (x # xs) s = bindE (f x s) (foldE f xs)"

lemma traverse_eq_Inr: "traverse f xs = Inr ys \<longleftrightarrow> list_all2 (\<lambda>x y. f x = Inr y) xs ys"
  by (induction xs arbitrary: ys) (auto simp: bindE_eq_Inr list_all2_Cons1)

lemma traverse_mem: "traverse f xs = Inr ys \<Longrightarrow> y \<in> set ys \<Longrightarrow> \<exists>x\<in>set xs. f x = Inr y"
  unfolding traverse_eq_Inr by (induction xs ys rule: list_all2_induct) auto

lemma traverse_mem_input: "traverse f xs = Inr ys \<Longrightarrow> x \<in> set xs \<Longrightarrow> \<exists>y\<in>set ys. f x = Inr y"
  unfolding traverse_eq_Inr by (induction xs ys rule: list_all2_induct) auto

lemma traverse_total: "(\<And>x. x \<in> set xs \<Longrightarrow> f x = Inr (g x)) \<Longrightarrow> traverse f xs = Inr (map g xs)"
  by (induction xs) auto

lemma traverse_error: "traverse f xs = Inl e \<Longrightarrow> \<exists>x\<in>set xs. f x = Inl e"
  by (induction xs) (auto simp: bindE_eq_Inl)

lemma foldE_append: "foldE f (xs @ ys) s = bindE (foldE f xs s) (foldE f ys)"
proof (induction xs arbitrary: s)
  case (Cons x xs)
  then have "foldE f (xs @ ys) = (\<lambda>s. bindE (foldE f xs s) (foldE f ys))"
    by (rule ext)
  then show ?case
    by (simp add: bindE_assoc)
qed simp

lemma foldE_invariant:
  "foldE f xs s = Inr s' \<Longrightarrow> P s \<Longrightarrow> (\<And>x s s'. x \<in> set xs \<Longrightarrow> P s \<Longrightarrow> f x s = Inr s' \<Longrightarrow> P s') \<Longrightarrow> P s'"
  by (induction xs arbitrary: s) (auto simp: bindE_eq_Inr)

section \<open>Deduplication\<close>

text \<open>The loop over a \<open>seen\<close> map that keeps the first element of each key.\<close>

fun dedup_by :: "('a \<Rightarrow> 'k) \<Rightarrow> 'k list \<Rightarrow> 'a list \<Rightarrow> 'a list" where
  "dedup_by f seen [] = []"
| "dedup_by f seen (x # xs) =
     (if f x \<in> set seen then dedup_by f seen xs else x # dedup_by f (f x # seen) xs)"

lemma set_dedup_by: "set (dedup_by f seen xs) \<subseteq> set xs"
  by (induction f seen xs rule: dedup_by.induct) auto

lemma keys_dedup_by: "f ` set (dedup_by f seen xs) = f ` set xs - set seen"
  by (induction f seen xs rule: dedup_by.induct) auto

lemma distinct_dedup_by: "distinct (map f (dedup_by f seen xs))"
proof (induction f seen xs rule: dedup_by.induct)
  case (2 f seen x xs)
  then show ?case
    using keys_dedup_by [of f "f x # seen" xs] by auto
qed simp

lemma dedup_by_inj: "inj_on f (set xs) \<Longrightarrow> set (dedup_by f [] xs) = set xs"
  using set_dedup_by [of f "[]" xs] keys_dedup_by [of f "[]" xs]
  by (metis Diff_empty inj_on_image_eq_iff order_refl set_empty empty_set)

end
