(* ===== verification/Dup_Types.thy ===== *)
theory Dup_Types
  imports Prelude
begin

text \<open>
  The data of the duplicate-code detector (\<open>internal/factory/dupcode\<close>): its structs and the
  total orders on the structs it uses as map keys.  Go's \<open>int\<close> fields hold token positions and
  line numbers of one file and their differences, far below \<open>2 ^ 63\<close>; they are \<^typ>\<open>int\<close>
  here.  Structs that are only carried around are records; structs that are map keys are
  datatypes with an instance of \<open>linorder\<close>, which is the order their comparator defines.
\<close>

section \<open>Windows, ranges and matches\<close>

record rawWindow =
  w_Path :: string
  w_StartLine :: int
  w_EndLine :: int
  w_StartPos :: int
  w_EndPos :: int

record tokenRange =
  r_StartPos :: int
  r_EndPos :: int

record seedMatch =
  m_SeedFingerprint :: string
  m_Left :: rawWindow
  m_Right :: rawWindow
  m_Offset :: int

record cloneChain =
  ch_Matches :: "seedMatch list"
  ch_TokenSpan :: int
  ch_LineSpan :: int
  ch_PathSet :: string
  ch_LeftRange :: tokenRange
  ch_RightRange :: tokenRange
  ch_Offset :: int
  ch_ContentHash :: string

section \<open>Occurrences and findings\<close>

record Occurrence =
  o_Path :: string
  o_StartLine :: int
  o_EndLine :: int

record Finding =
  fi_Fingerprint :: string
  fi_StableFingerprint :: string
  fi_TokenCount :: int
  fi_LineCount :: int
  fi_Occurrences :: "Occurrence list"

record coalescedFinding =
  cf_Fingerprint :: string
  cf_StableFingerprint :: string
  cf_SeedFingerprint :: string
  cf_Occurrences :: "Occurrence list"
  cf_TokenCount :: int
  cf_LineCount :: int

record maximalOccurrence =
  mo_Path :: string
  mo_StartPos :: int
  mo_EndPos :: int
  mo_StartLine :: int
  mo_EndLine :: int

record v4InternalFinding =
  if_StableFingerprint :: string
  if_TokenCount :: int
  if_LineCount :: int
  if_Occurrences :: "maximalOccurrence list"

section \<open>Map keys\<close>

datatype v4SyntaxRegionID = RegionID (rid_Path: string) (rid_Ordinal: int)

datatype maximalOccurrenceKey =
  OccKey (ok_Path: string) (ok_StartPos: int) (ok_EndPos: int)

datatype v4ExactContentKey = ContentKey (ck_Digest: string) (ck_TokenCount: int)

datatype v4ChainPairKey =
  ChainPairKey (cp_LeftRegion: v4SyntaxRegionID) (cp_RightRegion: v4SyntaxRegionID) (cp_Offset: int)

datatype v4ShadowGroupKey =
  ShadowKey (sk_LeftPath: string) (sk_LeftRegion: int) (sk_RightPath: string) (sk_RightRegion: int)

datatype chainKey = ChainKey (ky_LeftPath: string) (ky_RightPath: string) (ky_Offset: int)

datatype mergeKey = MergeKey (mk_StableFingerprint: string) (mk_TokenCount: int)

text \<open>Each order is the lexicographic order on the fields in the order the comparator visits them.\<close>

definition rid_key :: "v4SyntaxRegionID \<Rightarrow> string \<times> int" where
  "rid_key r = (rid_Path r, rid_Ordinal r)"

definition ok_key :: "maximalOccurrenceKey \<Rightarrow> string \<times> int \<times> int" where
  "ok_key k = (ok_Path k, ok_StartPos k, ok_EndPos k)"

definition ck_key :: "v4ExactContentKey \<Rightarrow> string \<times> int" where
  "ck_key k = (ck_Digest k, ck_TokenCount k)"

definition cp_key :: "v4ChainPairKey \<Rightarrow> string \<times> int \<times> string \<times> int \<times> int" where
  "cp_key k = (rid_Path (cp_LeftRegion k), rid_Ordinal (cp_LeftRegion k),
     rid_Path (cp_RightRegion k), rid_Ordinal (cp_RightRegion k), cp_Offset k)"

definition sk_key :: "v4ShadowGroupKey \<Rightarrow> string \<times> int \<times> string \<times> int" where
  "sk_key k = (sk_LeftPath k, sk_LeftRegion k, sk_RightPath k, sk_RightRegion k)"

definition ky_key :: "chainKey \<Rightarrow> string \<times> string \<times> int" where
  "ky_key k = (ky_LeftPath k, ky_RightPath k, ky_Offset k)"

definition mk_key :: "mergeKey \<Rightarrow> string \<times> int" where
  "mk_key k = (mk_StableFingerprint k, mk_TokenCount k)"

lemma rid_key_inject [simp]: "rid_key a = rid_key b \<longleftrightarrow> a = b"
  by (auto simp: rid_key_def v4SyntaxRegionID.expand)

lemma ok_key_inject [simp]: "ok_key a = ok_key b \<longleftrightarrow> a = b"
  by (auto simp: ok_key_def maximalOccurrenceKey.expand)

lemma ck_key_inject [simp]: "ck_key a = ck_key b \<longleftrightarrow> a = b"
  by (auto simp: ck_key_def v4ExactContentKey.expand)

lemma cp_key_inject [simp]: "cp_key a = cp_key b \<longleftrightarrow> a = b"
  by (auto simp: cp_key_def v4ChainPairKey.expand v4SyntaxRegionID.expand)

lemma sk_key_inject [simp]: "sk_key a = sk_key b \<longleftrightarrow> a = b"
  by (auto simp: sk_key_def v4ShadowGroupKey.expand)

lemma ky_key_inject [simp]: "ky_key a = ky_key b \<longleftrightarrow> a = b"
  by (auto simp: ky_key_def chainKey.expand)

lemma mk_key_inject [simp]: "mk_key a = mk_key b \<longleftrightarrow> a = b"
  by (auto simp: mk_key_def mergeKey.expand)

instantiation v4SyntaxRegionID :: linorder
begin
definition less_v4SyntaxRegionID :: "v4SyntaxRegionID \<Rightarrow> v4SyntaxRegionID \<Rightarrow> bool" where
  "a < b \<longleftrightarrow> rid_key a < rid_key b"
definition less_eq_v4SyntaxRegionID :: "v4SyntaxRegionID \<Rightarrow> v4SyntaxRegionID \<Rightarrow> bool" where
  "a \<le> b \<longleftrightarrow> rid_key a \<le> rid_key b"
instance
  by standard (auto simp: less_v4SyntaxRegionID_def less_eq_v4SyntaxRegionID_def simp flip: rid_key_inject)
end

instantiation maximalOccurrenceKey :: linorder
begin
definition less_maximalOccurrenceKey :: "maximalOccurrenceKey \<Rightarrow> maximalOccurrenceKey \<Rightarrow> bool" where
  "a < b \<longleftrightarrow> ok_key a < ok_key b"
definition less_eq_maximalOccurrenceKey :: "maximalOccurrenceKey \<Rightarrow> maximalOccurrenceKey \<Rightarrow> bool" where
  "a \<le> b \<longleftrightarrow> ok_key a \<le> ok_key b"
instance
  by standard
    (auto simp: less_maximalOccurrenceKey_def less_eq_maximalOccurrenceKey_def simp flip: ok_key_inject)
end

instantiation v4ExactContentKey :: linorder
begin
definition less_v4ExactContentKey :: "v4ExactContentKey \<Rightarrow> v4ExactContentKey \<Rightarrow> bool" where
  "a < b \<longleftrightarrow> ck_key a < ck_key b"
definition less_eq_v4ExactContentKey :: "v4ExactContentKey \<Rightarrow> v4ExactContentKey \<Rightarrow> bool" where
  "a \<le> b \<longleftrightarrow> ck_key a \<le> ck_key b"
instance
  by standard
    (auto simp: less_v4ExactContentKey_def less_eq_v4ExactContentKey_def simp flip: ck_key_inject)
end

instantiation v4ChainPairKey :: linorder
begin
definition less_v4ChainPairKey :: "v4ChainPairKey \<Rightarrow> v4ChainPairKey \<Rightarrow> bool" where
  "a < b \<longleftrightarrow> cp_key a < cp_key b"
definition less_eq_v4ChainPairKey :: "v4ChainPairKey \<Rightarrow> v4ChainPairKey \<Rightarrow> bool" where
  "a \<le> b \<longleftrightarrow> cp_key a \<le> cp_key b"
instance
  by standard (auto simp: less_v4ChainPairKey_def less_eq_v4ChainPairKey_def simp flip: cp_key_inject)
end

section \<open>Three-way comparators\<close>

definition compareStrings :: "string \<Rightarrow> string \<Rightarrow> int" where
  "compareStrings left right = (if left < right then -1 else if left > right then 1 else 0)"

definition compareInts :: "int \<Rightarrow> int \<Rightarrow> int" where
  "compareInts left right = (if left < right then -1 else if left > right then 1 else 0)"

definition occurrenceKey :: "maximalOccurrence \<Rightarrow> maximalOccurrenceKey" where
  "occurrenceKey occ = OccKey (mo_Path occ) (mo_StartPos occ) (mo_EndPos occ)"

definition compareV4OccurrenceKeys :: "maximalOccurrenceKey \<Rightarrow> maximalOccurrenceKey \<Rightarrow> int" where
  "compareV4OccurrenceKeys left right =
     (if ok_Path left \<noteq> ok_Path right then compareStrings (ok_Path left) (ok_Path right)
      else if ok_StartPos left \<noteq> ok_StartPos right
      then compareInts (ok_StartPos left) (ok_StartPos right)
      else compareInts (ok_EndPos left) (ok_EndPos right))"

definition compareV4MaximalOccurrences :: "maximalOccurrence \<Rightarrow> maximalOccurrence \<Rightarrow> int" where
  "compareV4MaximalOccurrences left right =
     compareV4OccurrenceKeys (occurrenceKey left) (occurrenceKey right)"

definition compareV4ContentKeys :: "v4ExactContentKey \<Rightarrow> v4ExactContentKey \<Rightarrow> int" where
  "compareV4ContentKeys left right =
     (if ck_Digest left < ck_Digest right then -1
      else if ck_Digest left > ck_Digest right then 1
      else if ck_TokenCount left < ck_TokenCount right then -1
      else if ck_TokenCount left > ck_TokenCount right then 1
      else 0)"

definition compareV4ShadowGroupKeys :: "v4ShadowGroupKey \<Rightarrow> v4ShadowGroupKey \<Rightarrow> int" where
  "compareV4ShadowGroupKeys left right =
     (if sk_LeftPath left \<noteq> sk_LeftPath right
      then compareStrings (sk_LeftPath left) (sk_LeftPath right)
      else if sk_LeftRegion left \<noteq> sk_LeftRegion right
      then compareInts (sk_LeftRegion left) (sk_LeftRegion right)
      else if sk_RightPath left \<noteq> sk_RightPath right
      then compareStrings (sk_RightPath left) (sk_RightPath right)
      else compareInts (sk_RightRegion left) (sk_RightRegion right))"

lemma compareStrings_cmp3: "compareStrings l r = cmp3 l r"
  by (simp add: compareStrings_def cmp3_def)

lemma compareInts_cmp3: "compareInts l r = cmp3 l r"
  by (simp add: compareInts_def cmp3_def)

lemma compareV4OccurrenceKeys_cmp3 [key_simps]: "compareV4OccurrenceKeys l r = cmp3 l r"
proof -
  have "compareV4OccurrenceKeys l r = cmp3 (ok_key l) (ok_key r)"
    by (simp add: compareV4OccurrenceKeys_def compareStrings_cmp3 compareInts_cmp3 cmp3_lex ok_key_def
        flip: cmp3_lex)
  then show ?thesis
    by (simp add: cmp3_def less_maximalOccurrenceKey_def)
qed

lemma compareV4MaximalOccurrences_cmp3 [key_simps]:
  "compareV4MaximalOccurrences l r = cmp3 (occurrenceKey l) (occurrenceKey r)"
  by (simp add: compareV4MaximalOccurrences_def compareV4OccurrenceKeys_cmp3)

lemma compareV4ContentKeys_cmp3 [key_simps]: "compareV4ContentKeys l r = cmp3 l r"
  by (auto simp: compareV4ContentKeys_def cmp3_def less_v4ExactContentKey_def ck_key_def)

lemma compareV4ShadowGroupKeys_cmp3 [key_simps]:
  "compareV4ShadowGroupKeys l r = cmp3 (sk_key l) (sk_key r)"
  by (simp add: compareV4ShadowGroupKeys_def compareStrings_cmp3 compareInts_cmp3 sk_key_def
      flip: cmp3_lex)

section \<open>The publication order of findings\<close>

definition compareV4PublicationOccurrences :: "maximalOccurrence \<Rightarrow> maximalOccurrence \<Rightarrow> int" where
  "compareV4PublicationOccurrences left right =
     (if mo_Path left \<noteq> mo_Path right then compareStrings (mo_Path left) (mo_Path right)
      else if mo_StartLine left \<noteq> mo_StartLine right
      then compareInts (mo_StartLine left) (mo_StartLine right)
      else if mo_EndLine left \<noteq> mo_EndLine right
      then compareInts (mo_EndLine left) (mo_EndLine right)
      else if mo_StartPos left \<noteq> mo_StartPos right
      then compareInts (mo_StartPos left) (mo_StartPos right)
      else compareInts (mo_EndPos left) (mo_EndPos right))"

text \<open>The loop over the common prefix of the two sorted sequences, then the lengths.\<close>

fun compareSortedOccurrences :: "maximalOccurrence list \<Rightarrow> maximalOccurrence list \<Rightarrow> int" where
  "compareSortedOccurrences (l # ls) (r # rs) =
     (let order = compareV4PublicationOccurrences l r
      in if order \<noteq> 0 then order else compareSortedOccurrences ls rs)"
| "compareSortedOccurrences [] rs = compareInts 0 (int (length rs))"
| "compareSortedOccurrences (l # ls) [] = compareInts (int (length (l # ls))) 0"

definition publicationLess :: "maximalOccurrence \<Rightarrow> maximalOccurrence \<Rightarrow> bool" where
  "publicationLess l r = (compareV4PublicationOccurrences l r < 0)"

definition compareV4OccurrenceSequences :: "maximalOccurrence list \<Rightarrow> maximalOccurrence list \<Rightarrow> int" where
  "compareV4OccurrenceSequences left right =
     compareSortedOccurrences (sort_slice publicationLess left) (sort_slice publicationLess right)"

definition compareV4InternalFindings :: "v4InternalFinding \<Rightarrow> v4InternalFinding \<Rightarrow> int" where
  "compareV4InternalFindings left right =
     (if if_StableFingerprint left \<noteq> if_StableFingerprint right
      then compareStrings (if_StableFingerprint left) (if_StableFingerprint right)
      else if if_TokenCount left \<noteq> if_TokenCount right
      then compareInts (if_TokenCount left) (if_TokenCount right)
      else if if_LineCount left \<noteq> if_LineCount right
      then compareInts (if_LineCount left) (if_LineCount right)
      else compareV4OccurrenceSequences (if_Occurrences left) (if_Occurrences right))"

definition internalFindingLess :: "v4InternalFinding \<Rightarrow> v4InternalFinding \<Rightarrow> bool" where
  "internalFindingLess l r = (compareV4InternalFindings l r < 0)"

definition sortV4InternalFindings :: "v4InternalFinding list \<Rightarrow> v4InternalFinding list" where
  "sortV4InternalFindings findings = sort_slice internalFindingLess findings"

text \<open>The keys behind the two comparators.\<close>

definition pub_key :: "maximalOccurrence \<Rightarrow> string \<times> int \<times> int \<times> int \<times> int" where
  "pub_key occ = (mo_Path occ, mo_StartLine occ, mo_EndLine occ, mo_StartPos occ, mo_EndPos occ)"

definition finding_key ::
  "v4InternalFinding \<Rightarrow> string \<times> int \<times> int \<times> (string \<times> int \<times> int \<times> int \<times> int) list" where
  "finding_key f = (if_StableFingerprint f, if_TokenCount f, if_LineCount f,
     map pub_key (sort_slice publicationLess (if_Occurrences f)))"

lemma pub_key_inject [simp]: "pub_key a = pub_key b \<longleftrightarrow> a = b"
  by (cases a; cases b) (auto simp: pub_key_def)

lemma compareV4PublicationOccurrences_cmp3 [key_simps]:
  "compareV4PublicationOccurrences l r = cmp3 (pub_key l) (pub_key r)"
  by (simp add: compareV4PublicationOccurrences_def compareStrings_cmp3 compareInts_cmp3 pub_key_def
      flip: cmp3_lex)

lemma compareSortedOccurrences_cmp3:
  "compareSortedOccurrences ls rs = cmp3 (map pub_key ls) (map pub_key rs)"
proof (induction ls rs rule: compareSortedOccurrences.induct)
  case (1 l ls r rs)
  then show ?case
    by (auto simp: Let_def cmp3_Cons compareV4PublicationOccurrences_cmp3)
next
  case (2 rs)
  then show ?case
    by (cases rs) (auto simp: compareInts_def)
next
  case (3 l ls)
  then show ?case
    by (auto simp: compareInts_def)
qed

interpretation publication: keyed_less publicationLess pub_key
  by unfold_locales (simp add: publicationLess_def compareV4PublicationOccurrences_cmp3)

lemma compareV4InternalFindings_cmp3 [key_simps]:
  "compareV4InternalFindings l r = cmp3 (finding_key l) (finding_key r)"
  by (simp add: compareV4InternalFindings_def compareV4OccurrenceSequences_def compareStrings_cmp3
      compareInts_cmp3 compareSortedOccurrences_cmp3 finding_key_def flip: cmp3_lex)

interpretation finding_order: keyed_less internalFindingLess finding_key
  by unfold_locales (simp add: internalFindingLess_def compareV4InternalFindings_cmp3)

lemma finding_key_eq_iff:
  "finding_key f = finding_key g \<longleftrightarrow>
     if_StableFingerprint f = if_StableFingerprint g \<and> if_TokenCount f = if_TokenCount g \<and>
     if_LineCount f = if_LineCount g \<and> mset (if_Occurrences f) = mset (if_Occurrences g)"
proof -
  have "map pub_key (sort_slice publicationLess xs) = map pub_key (sort_slice publicationLess ys) \<longleftrightarrow>
      mset xs = mset ys" for xs ys
  proof
    assume "map pub_key (sort_slice publicationLess xs) = map pub_key (sort_slice publicationLess ys)"
    then have "sort_slice publicationLess xs = sort_slice publicationLess ys"
      by (simp add: inj_def map_injective)
    then show "mset xs = mset ys"
      by (metis mset_sort_slice)
  next
    assume "mset xs = mset ys"
    then show "map pub_key (sort_slice publicationLess xs) = map pub_key (sort_slice publicationLess ys)"
      using publication.sort_slice_perm_invariant [of ys xs] by (simp add: inj_on_def)
  qed
  then show ?thesis
    by (auto simp: finding_key_def)
qed

end
