(* ===== verification/Dup_Regions.thy ===== *)
theory Dup_Regions
  imports Dup_Types
begin

text \<open>
  Per-file analysis of the duplicate-code detector: \<open>v4_regions.go\<close> and
  \<open>v4_analysis.go\<close>.  The Go scanner and parser of the standard library enter as the value they
  return for one file (\<open>parsedSource\<close>): the scanned triples of position, token and line, and
  the declarations with their positions.  From it the code builds the normalized token stream, the
  inventory of executable regions and, for every token, its innermost owner.

  The lemmas show that the parallel slices stay aligned and that the owner of a token is the
  region recorded last among those that cover it, which for properly nested regions is the
  innermost one.
\<close>

section \<open>Tokens\<close>

text \<open>
  \<open>go/token\<close>: the literal classes the normalization looks at by name; every other token
  (operators and keywords) is identified by its spelling, the value of its \<open>String\<close> method.
\<close>

datatype gotoken =
    T_EOF | T_COMMENT | T_IDENT | T_INT | T_FLOAT | T_IMAG | T_CHAR | T_STRING
  | T_Spelled string

abbreviation T_SEMICOLON :: gotoken where
  "T_SEMICOLON \<equiv> T_Spelled '';''"

fun tokenString :: "gotoken \<Rightarrow> string" where
  "tokenString T_EOF = ''EOF''"
| "tokenString T_COMMENT = ''COMMENT''"
| "tokenString T_IDENT = ''IDENT''"
| "tokenString T_INT = ''INT''"
| "tokenString T_FLOAT = ''FLOAT''"
| "tokenString T_IMAG = ''IMAG''"
| "tokenString T_CHAR = ''CHAR''"
| "tokenString T_STRING = ''STRING''"
| "tokenString (T_Spelled s) = s"

fun normalizeV4Token :: "gotoken \<Rightarrow> string" where
  "normalizeV4Token T_IDENT = ''IDENT''"
| "normalizeV4Token T_STRING = ''STRING''"
| "normalizeV4Token T_CHAR = ''STRING''"
| "normalizeV4Token T_INT = ''NUMBER''"
| "normalizeV4Token T_FLOAT = ''NUMBER''"
| "normalizeV4Token T_IMAG = ''NUMBER''"
| "normalizeV4Token tok = tokenString tok"

section \<open>Analysis records\<close>

datatype v4SyntaxRegionKind = v4FunctionDeclarationRegion | v4FunctionLiteralRegion

record v4SyntaxRegion =
  rg_Path :: string
  rg_Kind :: v4SyntaxRegionKind
  rg_Ordinal :: int
  rg_StartPos :: int
  rg_EndPos :: int
  rg_StartLine :: int
  rg_EndLine :: int

record v4TokenEntry =
  e_Pos :: int
  e_Tok :: gotoken

record v4FileAnalysis =
  a_Path :: string
  a_Tokens :: "gotoken list"
  a_Lines :: "int list"
  a_Entries :: "v4TokenEntry list"
  a_Regions :: "v4SyntaxRegion list"
  a_TokenOwner :: "v4SyntaxRegionID list"
  a_NormalizedTokens :: "string list"

record fileTokens =
  ft_path :: string
  ft_tokens :: "gotoken list"
  ft_lines :: "int list"

record v4AnalyzedFile =
  af_FileTokens :: fileTokens
  af_Analysis :: v4FileAnalysis
  af_NormalizedTokens :: "string list"

text \<open>One constructor per error the package returns (and per panic it raises).\<close>

datatype dupError =
    ReadError string
  | ParseError string
  | FileTokenLineAlignment
  | AnalysisTokenAlignment
  | AnalysisGeometryAlignment
  | NormalizedTokenAlignment
  | TokenMismatch nat
  | NormalizedTokenMismatch nat
  | InvalidExactOccurrence string int int
  | EmptyCloneChain
  | MissingAnalyzedFile string
  | InvalidOccurrenceRange string int int
  | PairGeometryConflict
  | PairContentConflict
  | ContentGeometryConflict string int int
  | OccurrenceIdentityViolated string int int
  | InconsistentTokenCounts int int
  | IndexPanic
  | PanicWith dupError

definition zeroRegionID :: v4SyntaxRegionID where
  "zeroRegionID = RegionID '''' 0"

definition regionID :: "v4SyntaxRegion \<Rightarrow> v4SyntaxRegionID" where
  "regionID r = RegionID (rg_Path r) (rg_Ordinal r)"

section \<open>What the scanner and the parser return\<close>

datatype astNode =
    FuncLit (lit_Pos: int) (lit_End: int) (lit_hasBody: bool) (node_children: "astNode list")
  | OtherNode (node_children: "astNode list")

datatype astDecl =
    FuncDecl int int "astNode list option"
  | GenDecl "astNode list"
  | BadDecl

record parsedSource =
  ps_scan :: "(int \<times> gotoken \<times> int) list"
  ps_decls :: "astDecl list"

text \<open>
  \<open>ast.Inspect\<close> visits a node before its children; the callbacks of the package always
  descend and act on function literals only.
\<close>

fun inspectLits :: "astNode \<Rightarrow> (int \<times> int \<times> bool) list" where
  "inspectLits (FuncLit p e b cs) = (p, e, b) # concat (map inspectLits cs)"
| "inspectLits (OtherNode cs) = concat (map inspectLits cs)"

section \<open>Tokenization\<close>

fun untilEOF :: "(int \<times> gotoken \<times> int) list \<Rightarrow> (int \<times> gotoken \<times> int) list" where
  "untilEOF [] = []"
| "untilEOF ((pos, tok, line) # rest) =
     (if tok = T_EOF then []
      else if tok = T_COMMENT then untilEOF rest
      else (pos, tok, line) # untilEOF rest)"

definition scannerTokenize :: "(int \<times> gotoken \<times> int) list \<Rightarrow> v4FileAnalysis \<Rightarrow> v4FileAnalysis" where
  "scannerTokenize scanned a =
     (let kept = untilEOF scanned
      in a\<lparr>a_Entries := a_Entries a @ map (\<lambda>(pos, tok, line). \<lparr>e_Pos = pos, e_Tok = tok\<rparr>) kept,
           a_Tokens := a_Tokens a @ map (\<lambda>(pos, tok, line). tok) kept,
           a_Lines := a_Lines a @ map (\<lambda>(pos, tok, line). line) kept,
           a_NormalizedTokens :=
             a_NormalizedTokens a @ map (\<lambda>(pos, tok, line). normalizeV4Token tok) kept\<rparr>)"

section \<open>Regions\<close>

fun indexAtOrAfter_from :: "int \<Rightarrow> v4TokenEntry list \<Rightarrow> int \<Rightarrow> int" where
  "indexAtOrAfter_from i [] pos = -1"
| "indexAtOrAfter_from i (e # es) pos =
     (if e_Pos e \<ge> pos then i else indexAtOrAfter_from (i + 1) es pos)"

definition indexAtOrAfter :: "v4FileAnalysis \<Rightarrow> int \<Rightarrow> int" where
  "indexAtOrAfter a pos = indexAtOrAfter_from 0 (a_Entries a) pos"

fun indexAtOrBefore_from :: "int \<Rightarrow> int \<Rightarrow> v4TokenEntry list \<Rightarrow> int \<Rightarrow> int" where
  "indexAtOrBefore_from prev i [] pos = prev"
| "indexAtOrBefore_from prev i (e # es) pos =
     (if e_Pos e > pos then prev else indexAtOrBefore_from i (i + 1) es pos)"

definition indexAtOrBefore :: "v4FileAnalysis \<Rightarrow> int \<Rightarrow> int" where
  "indexAtOrBefore a pos = indexAtOrBefore_from (-1) 0 (a_Entries a) pos"

definition inclusiveRegionEnd :: "v4FileAnalysis \<Rightarrow> int \<Rightarrow> int \<Rightarrow> bool \<Rightarrow> int" where
  "inclusiveRegionEnd a startIdx endPos includeTrailingSemicolon =
     (let last = indexAtOrBefore a (endPos - 1)
      in if last < startIdx then startIdx
         else if includeTrailingSemicolon \<and> last + 1 < int (length (a_Tokens a)) \<and>
           a_Tokens a ! nat (last + 1) = T_SEMICOLON
         then last + 1
         else last)"

text \<open>The closure \<open>recordRegion\<close>: it appends to the inventory and counts the ordinal.\<close>

definition recordRegion ::
  "v4SyntaxRegionKind \<Rightarrow> int \<Rightarrow> int \<Rightarrow> bool \<Rightarrow> v4FileAnalysis \<times> int \<Rightarrow> v4FileAnalysis \<times> int" where
  "recordRegion kind pos end hasBody st =
     (let (a, ordinal) = st
      in if \<not> hasBody then st
         else let startIdx = indexAtOrAfter a pos
         in if startIdx < 0 then st
         else let endIdx = inclusiveRegionEnd a startIdx end (kind = v4FunctionDeclarationRegion)
         in if endIdx < startIdx then st
         else (a\<lparr>a_Regions := a_Regions a @
                 [\<lparr>rg_Path = a_Path a, rg_Kind = kind, rg_Ordinal = ordinal,
                   rg_StartPos = startIdx, rg_EndPos = endIdx,
                   rg_StartLine = a_Lines a ! nat startIdx,
                   rg_EndLine = a_Lines a ! nat endIdx\<rparr>]\<rparr>, ordinal + 1))"

definition recordLits :: "astNode list \<Rightarrow> v4FileAnalysis \<times> int \<Rightarrow> v4FileAnalysis \<times> int" where
  "recordLits nodes st =
     fold (\<lambda>(p, e, b). recordRegion v4FunctionLiteralRegion p e b) (concat (map inspectLits nodes)) st"

fun recordDecl :: "astDecl \<Rightarrow> v4FileAnalysis \<times> int \<Rightarrow> v4FileAnalysis \<times> int" where
  "recordDecl (FuncDecl p e body) st =
     (let st' = recordRegion v4FunctionDeclarationRegion p e (body \<noteq> None) st
      in case body of None \<Rightarrow> st' | Some stmts \<Rightarrow> recordLits stmts st')"
| "recordDecl (GenDecl specs) st = recordLits specs st"
| "recordDecl BadDecl st = st"

definition buildRegions :: "v4FileAnalysis \<Rightarrow> astDecl list \<Rightarrow> v4FileAnalysis" where
  "buildRegions a decls = fst (fold recordDecl decls (a, 0))"

section \<open>Ownership\<close>

definition assignOwner :: "v4SyntaxRegion \<Rightarrow> v4SyntaxRegionID list \<Rightarrow> v4SyntaxRegionID list" where
  "assignOwner r owners =
     map (\<lambda>(i, owner).
         if rg_StartPos r \<le> int i \<and> int i \<le> rg_EndPos r \<and> rid_Path owner = ''''
         then regionID r else owner)
       (enumerate 0 owners)"

definition buildTokenOwner :: "v4FileAnalysis \<Rightarrow> v4FileAnalysis" where
  "buildTokenOwner a =
     (let owners = replicate (length (a_Tokens a)) zeroRegionID
      in if a_Regions a = [] then a\<lparr>a_TokenOwner := owners\<rparr>
         else a\<lparr>a_TokenOwner := fold assignOwner (rev (a_Regions a)) owners\<rparr>)"

definition emptyAnalysis :: "string \<Rightarrow> v4FileAnalysis" where
  "emptyAnalysis path = \<lparr>a_Path = path, a_Tokens = [], a_Lines = [], a_Entries = [],
     a_Regions = [], a_TokenOwner = [], a_NormalizedTokens = []\<rparr>"

definition analyzeV4File :: "string \<Rightarrow> dupError + parsedSource \<Rightarrow> dupError + v4FileAnalysis" where
  "analyzeV4File path src =
     (case src of Inl err \<Rightarrow> Inl err
      | Inr ps \<Rightarrow>
         Inr (buildTokenOwner (buildRegions (scannerTokenize (ps_scan ps) (emptyAnalysis path))
           (ps_decls ps))))"

section \<open>Window validation\<close>

text \<open>
  \<open>None\<close> stands for the pair of the zero identity and \<open>false\<close>.  The owner slice is
  parallel to the token slice in every analysis the package builds (\<open>analyze_wf\<close> below), so the
  reads are in range.
\<close>

definition windowFitsRegion :: "v4FileAnalysis \<Rightarrow> int \<Rightarrow> int \<Rightarrow> v4SyntaxRegionID option" where
  "windowFitsRegion a start end =
     (if a_Regions a = [] \<or> a_TokenOwner a = [] then None
      else if start < 0 \<or> end \<ge> int (length (a_Tokens a)) \<or> start > end then None
      else let owner = a_TokenOwner a ! nat start
      in if rid_Path owner = '''' then None
      else if list_all (\<lambda>i. a_TokenOwner a ! nat i = owner) [start..end] then Some owner
      else None)"

type_synonym windowMap = "(string \<times> rawWindow list) list"
type_synonym analysisMap = "(string \<times> v4FileAnalysis) list"

definition windowKept :: "analysisMap \<Rightarrow> rawWindow \<Rightarrow> bool" where
  "windowKept analyses w =
     (case map_of analyses (w_Path w) of None \<Rightarrow> False
      | Some a \<Rightarrow> windowFitsRegion a (w_StartPos w) (w_EndPos w) \<noteq> None)"

definition filterWindowsToRegions :: "windowMap \<Rightarrow> analysisMap \<Rightarrow> windowMap" where
  "filterWindowsToRegions wm analyses =
     (if wm = [] \<or> analyses = [] then wm
      else filter (\<lambda>(fp, kept). kept \<noteq> [])
        (map (\<lambda>(fp, wins). (fp, filter (windowKept analyses) wins)) wm))"

section \<open>Validation and rebasing\<close>

fun firstMismatch :: "nat \<Rightarrow> (gotoken \<times> gotoken \<times> string \<times> string) list \<Rightarrow> dupError option" where
  "firstMismatch i [] = None"
| "firstMismatch i ((at, ft, an, fn) # rest) =
     (if at \<noteq> ft then Some (TokenMismatch i)
      else if an \<noteq> fn then Some (NormalizedTokenMismatch i)
      else firstMismatch (Suc i) rest)"

definition validateV4AnalyzedFile :: "v4AnalyzedFile \<Rightarrow> dupError option" where
  "validateV4AnalyzedFile file =
     (let n = length (ft_tokens (af_FileTokens file)); a = af_Analysis file
      in if length (ft_lines (af_FileTokens file)) \<noteq> n then Some FileTokenLineAlignment
         else if length (a_Tokens a) \<noteq> n \<or> length (a_Entries a) \<noteq> n then Some AnalysisTokenAlignment
         else if length (a_Lines a) \<noteq> n \<or> length (a_TokenOwner a) \<noteq> n
         then Some AnalysisGeometryAlignment
         else if length (a_NormalizedTokens a) \<noteq> n \<or> length (af_NormalizedTokens file) \<noteq> n
         then Some NormalizedTokenAlignment
         else firstMismatch 0 (zip (a_Tokens a) (zip (ft_tokens (af_FileTokens file))
           (zip (a_NormalizedTokens a) (af_NormalizedTokens file)))))"

definition analyzeV4AnalyzedFile :: "string \<Rightarrow> dupError + parsedSource \<Rightarrow> dupError + v4AnalyzedFile" where
  "analyzeV4AnalyzedFile path src =
     (case analyzeV4File path src of Inl err \<Rightarrow> Inl err
      | Inr a \<Rightarrow>
         let file = \<lparr>af_FileTokens = \<lparr>ft_path = path, ft_tokens = a_Tokens a, ft_lines = a_Lines a\<rparr>,
                     af_Analysis = a, af_NormalizedTokens = a_NormalizedTokens a\<rparr>
         in case validateV4AnalyzedFile file of Some err \<Rightarrow> Inl err | None \<Rightarrow> Inr file)"

definition rebaseV4AnalysisPath :: "string \<Rightarrow> v4FileAnalysis \<Rightarrow> v4FileAnalysis" where
  "rebaseV4AnalysisPath p a =
     a\<lparr>a_Path := p,
       a_Regions := map (\<lambda>r. r\<lparr>rg_Path := p\<rparr>) (a_Regions a),
       a_TokenOwner := map (\<lambda>rid. if rid_Path rid \<noteq> '''' then RegionID p (rid_Ordinal rid) else rid)
         (a_TokenOwner a)\<rparr>"

definition rebaseV4AnalyzedFilePath :: "string \<Rightarrow> v4AnalyzedFile \<Rightarrow> v4AnalyzedFile" where
  "rebaseV4AnalyzedFilePath p file =
     file\<lparr>af_Analysis := rebaseV4AnalysisPath p (af_Analysis file),
          af_FileTokens := (af_FileTokens file)\<lparr>ft_path := p\<rparr>\<rparr>"

section \<open>Well-formed analyses\<close>

definition regions_wf :: "v4FileAnalysis \<Rightarrow> bool" where
  "regions_wf a \<longleftrightarrow> (\<forall>k < length (a_Regions a). let r = a_Regions a ! k in
     rg_Ordinal r = int k \<and> rg_Path r = a_Path a \<and>
     0 \<le> rg_StartPos r \<and> rg_StartPos r \<le> rg_EndPos r \<and> rg_EndPos r < int (length (a_Tokens a)))"

definition slices_aligned :: "v4FileAnalysis \<Rightarrow> bool" where
  "slices_aligned a \<longleftrightarrow>
     length (a_Lines a) = length (a_Tokens a) \<and> length (a_Entries a) = length (a_Tokens a) \<and>
     a_NormalizedTokens a = map normalizeV4Token (a_Tokens a)"

definition analysis_wf :: "v4FileAnalysis \<Rightarrow> bool" where
  "analysis_wf a \<longleftrightarrow>
     slices_aligned a \<and> regions_wf a \<and> length (a_TokenOwner a) = length (a_Tokens a)"

lemma scannerTokenize_aligned: "slices_aligned (scannerTokenize scanned (emptyAnalysis path))"
  by (auto simp: slices_aligned_def scannerTokenize_def emptyAnalysis_def Let_def)

lemma indexAtOrAfter_from_range:
  "indexAtOrAfter_from i es pos = -1 \<or>
   i \<le> indexAtOrAfter_from i es pos \<and> indexAtOrAfter_from i es pos < i + int (length es)"
  by (induction i es pos rule: indexAtOrAfter_from.induct) auto

lemma indexAtOrBefore_from_range:
  "prev < i \<Longrightarrow> indexAtOrBefore_from prev i es pos < i + int (length es)"
  by (induction prev i es pos rule: indexAtOrBefore_from.induct) auto

lemma indexAtOrAfter_less: "0 \<le> i \<Longrightarrow> indexAtOrAfter a pos = i \<Longrightarrow> i < int (length (a_Entries a))"
  using indexAtOrAfter_from_range [of 0 "a_Entries a" pos] by (auto simp: indexAtOrAfter_def)

lemma inclusiveRegionEnd_less:
  assumes "slices_aligned a" and "startIdx < int (length (a_Tokens a))"
  shows "inclusiveRegionEnd a startIdx end b < int (length (a_Tokens a))"
  using assms indexAtOrBefore_from_range [of "-1" 0 "a_Entries a" "end - 1"]
  by (auto simp: inclusiveRegionEnd_def Let_def indexAtOrBefore_def slices_aligned_def)

text \<open>The invariant of the region walk: the ordinal counts the regions recorded so far.\<close>

definition walk_inv :: "v4FileAnalysis \<Rightarrow> v4FileAnalysis \<times> int \<Rightarrow> bool" where
  "walk_inv a0 st \<longleftrightarrow>
     (\<exists>rs. fst st = a0\<lparr>a_Regions := rs\<rparr>) \<and> regions_wf (fst st) \<and> snd st = int (length (a_Regions (fst st)))"

lemma recordRegion_inv:
  assumes "walk_inv a0 st" and "slices_aligned a0"
  shows "walk_inv a0 (recordRegion kind pos end hasBody st)"
proof -
  obtain a ord where st: "st = (a, ord)"
    by (cases st)
  with assms(1) obtain rs where a: "a = a0\<lparr>a_Regions := rs\<rparr>" and wf: "regions_wf a"
    and ord: "ord = int (length (a_Regions a))"
    by (auto simp: walk_inv_def)
  have al: "slices_aligned a"
    using assms(2) a by (simp add: slices_aligned_def)
  have *: "0 \<le> i \<Longrightarrow> indexAtOrAfter a pos = i \<Longrightarrow> i < int (length (a_Tokens a))" for i
    using al indexAtOrAfter_less [of i a pos] by (simp add: slices_aligned_def)
  show ?thesis
    using assms(1) wf * [of "indexAtOrAfter a pos"] inclusiveRegionEnd_less [OF al]
    by (auto simp: st a ord recordRegion_def walk_inv_def Let_def regions_wf_def nth_append less_Suc_eq)
qed

lemma recordLits_inv:
  "walk_inv a0 st \<Longrightarrow> slices_aligned a0 \<Longrightarrow> walk_inv a0 (recordLits nodes st)"
proof -
  have "walk_inv a0 st \<Longrightarrow> slices_aligned a0 \<Longrightarrow>
      walk_inv a0 (fold (\<lambda>(p, e, b). recordRegion v4FunctionLiteralRegion p e b) lits st)" for lits st
    by (induction lits arbitrary: st) (simp_all add: recordRegion_inv split_beta del: split_paired_All)
  then show "walk_inv a0 st \<Longrightarrow> slices_aligned a0 \<Longrightarrow> walk_inv a0 (recordLits nodes st)"
    by (simp add: recordLits_def)
qed

lemma recordDecl_inv: "walk_inv a0 st \<Longrightarrow> slices_aligned a0 \<Longrightarrow> walk_inv a0 (recordDecl d st)"
  by (cases d) (auto simp: Let_def intro: recordRegion_inv recordLits_inv split: option.split)

lemma fold_recordDecl_inv:
  "walk_inv a0 st \<Longrightarrow> slices_aligned a0 \<Longrightarrow> walk_inv a0 (fold recordDecl ds st)"
  by (induction ds arbitrary: st) (simp_all add: recordDecl_inv del: split_paired_All)

lemma buildRegions_wf:
  assumes "slices_aligned a" and "a_Regions a = []"
  shows "regions_wf (buildRegions a decls) \<and> (\<exists>rs. buildRegions a decls = a\<lparr>a_Regions := rs\<rparr>)"
proof -
  have "walk_inv a (a, 0)"
    using assms(2) by (auto simp: walk_inv_def regions_wf_def intro: exI [of _ "[]"])
  then have "walk_inv a (fold recordDecl decls (a, 0))"
    using assms(1) by (rule fold_recordDecl_inv)
  then show ?thesis
    by (auto simp: walk_inv_def buildRegions_def)
qed

lemma length_fold_assignOwner [simp]: "length (fold assignOwner rs owners) = length owners"
  by (induction rs arbitrary: owners) (auto simp: assignOwner_def)

lemma analyze_InrD:
  "analyzeV4File path src = Inr a \<Longrightarrow>
   \<exists>ps. src = Inr ps \<and>
     a = buildTokenOwner (buildRegions (scannerTokenize (ps_scan ps) (emptyAnalysis path)) (ps_decls ps))"
  by (cases src) (auto simp: analyzeV4File_def)

lemma analyze_wf: "analyzeV4File path src = Inr a \<Longrightarrow> analysis_wf a \<and> a_Path a = path"
proof -
  assume "analyzeV4File path src = Inr a"
  then obtain ps :: parsedSource where a: "a = buildTokenOwner (buildRegions
      (scannerTokenize (ps_scan ps) (emptyAnalysis path)) (ps_decls ps))"
    using analyze_InrD by blast
  let ?t = "scannerTokenize (ps_scan ps) (emptyAnalysis path)"
  have t: "slices_aligned ?t" "a_Regions ?t = []" "a_Path ?t = path"
    by (rule scannerTokenize_aligned) (simp_all add: scannerTokenize_def emptyAnalysis_def Let_def)
  from buildRegions_wf [OF t(1,2), of "ps_decls ps"] t
  show "analysis_wf a \<and> a_Path a = path"
    by (auto simp: a analysis_wf_def buildTokenOwner_def Let_def slices_aligned_def regions_wf_def)
qed

section \<open>Owners are innermost\<close>

definition covers :: "v4SyntaxRegion \<Rightarrow> int \<Rightarrow> bool" where
  "covers r i \<longleftrightarrow> rg_StartPos r \<le> i \<and> i \<le> rg_EndPos r"

definition lastCovering :: "v4SyntaxRegion list \<Rightarrow> int \<Rightarrow> v4SyntaxRegionID" where
  "lastCovering rs i =
     (let cs = filter (\<lambda>r. covers r i) rs in if cs = [] then zeroRegionID else regionID (last cs))"

lemma nth_assignOwner:
  "i < length owners \<Longrightarrow> assignOwner r owners ! i =
     (if covers r (int i) \<and> rid_Path (owners ! i) = '''' then regionID r else owners ! i)"
  by (simp add: assignOwner_def covers_def nth_enumerate_eq)

lemma length_assignOwner [simp]: "length (assignOwner r owners) = length owners"
  by (simp add: assignOwner_def)

lemma nth_fold_assignOwner:
  assumes "i < length owners" and "\<forall>r\<in>set rs. rg_Path r \<noteq> ''''"
  shows "fold assignOwner rs owners ! i =
    (if rid_Path (owners ! i) \<noteq> '''' then owners ! i
     else case filter (\<lambda>r. covers r (int i)) rs of [] \<Rightarrow> owners ! i | c # _ \<Rightarrow> regionID c)"
  using assms
proof (induction rs arbitrary: owners)
  case (Cons r rs)
  then show ?case
    by (auto simp: nth_assignOwner regionID_def split: list.split)
qed simp

lemma buildTokenOwner_last:
  assumes "i < length (a_Tokens a)" and "\<forall>r\<in>set (a_Regions a). rg_Path r \<noteq> ''''"
  shows "a_TokenOwner (buildTokenOwner a) ! i = lastCovering (a_Regions a) (int i)"
proof -
  let ?cs = "filter (\<lambda>r. covers r (int i)) (a_Regions a)"
  have "fold assignOwner (rev (a_Regions a)) (replicate (length (a_Tokens a)) zeroRegionID) ! i =
      (case rev ?cs of [] \<Rightarrow> zeroRegionID | c # _ \<Rightarrow> regionID c)"
    using assms nth_fold_assignOwner [of i "replicate (length (a_Tokens a)) zeroRegionID" "rev (a_Regions a)"]
    by (simp add: zeroRegionID_def rev_filter split: list.split)
  also have "\<dots> = lastCovering (a_Regions a) (int i)"
    by (cases ?cs rule: rev_cases) (auto simp: lastCovering_def)
  finally have "fold assignOwner (rev (a_Regions a)) (replicate (length (a_Tokens a)) zeroRegionID) ! i =
      lastCovering (a_Regions a) (int i)" .
  then show ?thesis
    using assms(1) by (auto simp: buildTokenOwner_def Let_def lastCovering_def zeroRegionID_def)
qed

text \<open>
  Regions are properly nested when a region recorded later is either disjoint from an earlier one
  or inside it: the walk visits a function before the literals in its body.
\<close>

definition regionInside :: "v4SyntaxRegion \<Rightarrow> v4SyntaxRegion \<Rightarrow> bool" where
  "regionInside r' r \<longleftrightarrow> rg_StartPos r \<le> rg_StartPos r' \<and> rg_EndPos r' \<le> rg_EndPos r"

definition properlyNested :: "v4SyntaxRegion list \<Rightarrow> bool" where
  "properlyNested rs =
     sorted_wrt (\<lambda>r r'. rg_EndPos r < rg_StartPos r' \<or> rg_EndPos r' < rg_StartPos r \<or> regionInside r' r) rs"

lemma lastCovering_innermost:
  assumes "properlyNested rs" and "r \<in> set rs" and "covers r i"
  shows "\<exists>r'\<in>set rs. lastCovering rs i = regionID r' \<and> covers r' i \<and> regionInside r' r"
proof -
  let ?cs = "filter (\<lambda>r. covers r i) rs"
  have r: "r \<in> set ?cs"
    using assms(2,3) by simp
  then have ne: "?cs \<noteq> []"
    by (metis empty_iff list.set(1))
  have srt: "sorted_wrt (\<lambda>r r'. rg_EndPos r < rg_StartPos r' \<or> rg_EndPos r' < rg_StartPos r \<or> regionInside r' r) ?cs"
    using assms(1) unfolding properlyNested_def by (rule sorted_wrt_filter)
  have last: "last ?cs \<in> set rs" "covers (last ?cs) i"
    using last_in_set [OF ne] by auto
  have "regionInside (last ?cs) r"
  proof (cases "r = last ?cs")
    case False
    then have "rg_EndPos r < rg_StartPos (last ?cs) \<or> rg_EndPos (last ?cs) < rg_StartPos r \<or>
        regionInside (last ?cs) r"
      using sorted_wrt_last [OF srt r] by simp
    with last(2) assms(3) show ?thesis
      by (auto simp: covers_def)
  qed (simp add: regionInside_def)
  moreover have "lastCovering rs i = regionID (last ?cs)"
    using ne by (simp add: lastCovering_def)
  ultimately show ?thesis
    using last by blast
qed

lemma lastCovering_zero: "\<forall>r\<in>set rs. \<not> covers r i \<Longrightarrow> lastCovering rs i = zeroRegionID"
  by (simp add: lastCovering_def filter_False)

lemma analyze_owner:
  assumes "analyzeV4File path src = Inr a" and "path \<noteq> ''''" and "i < length (a_Tokens a)"
  shows "a_TokenOwner a ! i = lastCovering (a_Regions a) (int i)"
proof -
  obtain ps :: parsedSource where a: "a = buildTokenOwner (buildRegions
      (scannerTokenize (ps_scan ps) (emptyAnalysis path)) (ps_decls ps))"
    using analyze_InrD [OF assms(1)] by blast
  let ?b = "buildRegions (scannerTokenize (ps_scan ps) (emptyAnalysis path)) (ps_decls ps)"
  have eq: "a_Tokens a = a_Tokens ?b" "a_Regions a = a_Regions ?b"
    by (simp_all add: a buildTokenOwner_def Let_def)
  have "regions_wf a" "a_Path a = path"
    using analyze_wf [OF assms(1)] by (simp_all add: analysis_wf_def)
  then have "\<forall>r\<in>set (a_Regions a). rg_Path r = path"
    by (auto simp: regions_wf_def in_set_conv_nth Let_def)
  then show ?thesis
    using buildTokenOwner_last [of i ?b, folded a] assms(2,3) unfolding eq by auto
qed

section \<open>Windows stay inside one region\<close>

lemma if_None_eq_Some:
  "(if A then None else if B then None else if C then None else if D then Some x else None) = Some y \<longleftrightarrow>
     \<not> A \<and> \<not> B \<and> \<not> C \<and> D \<and> x = y"
  by auto

lemma constant_on_interval:
  "start \<le> end \<Longrightarrow>
   (\<forall>i\<in>{start..end}. f i = f start) \<and> f start = v \<longleftrightarrow> (\<forall>i. start \<le> i \<and> i \<le> end \<longrightarrow> f i = v)"
  for f :: "int \<Rightarrow> 'a"
  by (metis atLeastAtMost_iff order_refl)

lemma windowFitsRegion_iff:
  "windowFitsRegion a start end = Some rid \<longleftrightarrow>
     a_Regions a \<noteq> [] \<and> a_TokenOwner a \<noteq> [] \<and> 0 \<le> start \<and> start \<le> end \<and> end < int (length (a_Tokens a)) \<and>
     rid_Path rid \<noteq> '''' \<and> (\<forall>i. start \<le> i \<and> i \<le> end \<longrightarrow> a_TokenOwner a ! nat i = rid)"
proof -
  let ?owner = "\<lambda>i. a_TokenOwner a ! nat i"
  have "windowFitsRegion a start end = Some rid \<longleftrightarrow>
     \<not> (a_Regions a = [] \<or> a_TokenOwner a = []) \<and>
     \<not> (start < 0 \<or> end \<ge> int (length (a_Tokens a)) \<or> start > end) \<and>
     rid_Path (?owner start) \<noteq> '''' \<and> (\<forall>i\<in>{start..end}. ?owner i = ?owner start) \<and> ?owner start = rid"
    unfolding windowFitsRegion_def Let_def list_all_iff set_upto by (rule if_None_eq_Some)
  also have "\<dots> \<longleftrightarrow> a_Regions a \<noteq> [] \<and> a_TokenOwner a \<noteq> [] \<and> 0 \<le> start \<and> start \<le> end \<and>
     end < int (length (a_Tokens a)) \<and> rid_Path rid \<noteq> '''' \<and> (\<forall>i. start \<le> i \<and> i \<le> end \<longrightarrow> ?owner i = rid)"
    using constant_on_interval [of start "end" ?owner rid] by (simp only: not_le not_less de_Morgan_disj) blast
  finally show ?thesis .
qed

lemma lastCovering_region:
  "lastCovering rs i = rid \<Longrightarrow> rid_Path rid \<noteq> '''' \<Longrightarrow> \<exists>r\<in>set rs. covers r i \<and> regionID r = rid"
proof -
  assume *: "lastCovering rs i = rid" "rid_Path rid \<noteq> ''''"
  let ?cs = "filter (\<lambda>r. covers r i) rs"
  have ne: "?cs \<noteq> []"
    using * by (auto simp: lastCovering_def zeroRegionID_def)
  then have "regionID (last ?cs) = rid"
    using * by (simp add: lastCovering_def)
  with last_in_set [OF ne] show ?thesis
    by (auto intro: bexI [of _ "last ?cs"])
qed

lemma analyze_regionID_inj:
  assumes "analyzeV4File path src = Inr a" and "r \<in> set (a_Regions a)" and "r' \<in> set (a_Regions a)"
    and "regionID r = regionID r'"
  shows "r = r'"
proof -
  have "regions_wf a"
    using analyze_wf [OF assms(1)] by (simp add: analysis_wf_def)
  with assms(2-4) show ?thesis
    by (auto simp: regions_wf_def in_set_conv_nth Let_def regionID_def)
qed

text \<open>
  a window the detector accepts lies inside exactly one executable region of its file, and
  every token of the window is owned by that region: no token of the window belongs to a literal
  nested in the region.
\<close>

theorem window_inside_one_region:
  assumes "analyzeV4File path src = Inr a" and "path \<noteq> ''''"
    and "properlyNested (a_Regions a)"
    and "windowFitsRegion a start end = Some rid"
  shows "\<exists>r\<in>set (a_Regions a). regionID r = rid \<and> rg_StartPos r \<le> start \<and> end \<le> rg_EndPos r \<and>
    (\<forall>r'\<in>set (a_Regions a). \<forall>i. start \<le> i \<and> i \<le> end \<and> covers r' i \<longrightarrow> regionInside r r')"
proof -
  note fits = assms(4) [unfolded windowFitsRegion_iff]
  have owner: "lastCovering (a_Regions a) i = rid" if "start \<le> i" "i \<le> end" for i
    using that fits analyze_owner [OF assms(1,2), of "nat i"] by auto
  obtain r where r: "r \<in> set (a_Regions a)" "covers r start" "regionID r = rid"
    using lastCovering_region [OF owner [of start]] fits by auto
  obtain r2 where r2: "r2 \<in> set (a_Regions a)" "covers r2 end" "regionID r2 = rid"
    using lastCovering_region [OF owner [of "end"]] fits by auto
  have "r2 = r"
    using analyze_regionID_inj [OF assms(1) r2(1) r(1)] r(3) r2(3) by simp
  moreover have "regionInside r r'"
    if h: "r' \<in> set (a_Regions a)" "start \<le> i" "i \<le> end" "covers r' i" for r' i
  proof -
    obtain q where "q \<in> set (a_Regions a)" "lastCovering (a_Regions a) i = regionID q" "regionInside q r'"
      using lastCovering_innermost [OF assms(3) h(1,4)] by auto
    moreover have "regionID q = regionID r"
      using calculation(2) owner [OF h(2,3)] r(3) by simp
    ultimately show ?thesis
      using analyze_regionID_inj [OF assms(1) _ r(1)] by auto
  qed
  ultimately show ?thesis
    using r r2 by (auto simp: covers_def intro!: bexI [of _ r])
qed

definition demoSource :: parsedSource where
  "demoSource = \<lparr>
     ps_scan = [(1, T_Spelled ''func'', 1), (6, T_IDENT, 1), (7, T_Spelled ''('', 1),
       (8, T_Spelled '')'', 1), (10, T_Spelled ''{'', 1), (11, T_COMMENT, 2), (13, T_IDENT, 3),
       (15, T_Spelled ''func'', 4), (19, T_Spelled ''{'', 4), (20, T_Spelled ''}'', 4),
       (21, T_SEMICOLON, 4), (22, T_Spelled ''}'', 5), (23, T_SEMICOLON, 5), (24, T_EOF, 5)],
     ps_decls = [FuncDecl 1 23 (Some [OtherNode [], OtherNode [FuncLit 15 21 True []]])]\<rparr>"

definition demoAnalysis :: v4FileAnalysis where
  "demoAnalysis = buildTokenOwner (buildRegions (scannerTokenize (ps_scan demoSource)
     (emptyAnalysis ''a.go'')) (ps_decls demoSource))"

lemma demoAnalysis_regions:
  "map (\<lambda>r. (rg_Ordinal r, rg_StartPos r, rg_EndPos r)) (a_Regions demoAnalysis) = [(0, 0, 11), (1, 6, 8)]"
  by code_simp

lemma demoAnalysis_facts:
  "properlyNested (a_Regions demoAnalysis)"
  "windowFitsRegion demoAnalysis 3 5 = Some (RegionID ''a.go'' 0)"
  "windowFitsRegion demoAnalysis 4 7 = None"
  by code_simp+

theorem window_inside_one_region_witness:
  "\<exists>r\<in>set (a_Regions demoAnalysis). regionID r = RegionID ''a.go'' 0 \<and>
    rg_StartPos r \<le> 3 \<and> 5 \<le> rg_EndPos r \<and>
    (\<forall>r'\<in>set (a_Regions demoAnalysis). \<forall>i. 3 \<le> i \<and> i \<le> 5 \<and> covers r' i \<longrightarrow> regionInside r r')"
  by (rule window_inside_one_region [where path = "''a.go''" and src = "Inr demoSource"])
    (simp_all add: demoAnalysis_facts, simp add: analyzeV4File_def demoAnalysis_def)

section \<open>Validation never fails on an analysis the package built\<close>

lemma firstMismatch_same: "firstMismatch k (zip xs (zip xs (zip ys ys))) = None"
proof (induction xs arbitrary: k ys)
  case (Cons x xs)
  then show ?case
    by (cases ys) auto
qed simp

text \<open>
  C40: analysing a file the parser accepts always succeeds: the token, line, entry, owner and
  normalized-token slices have one length, every region lies inside the token stream and carries
  its position in the inventory as ordinal, and the validation of the result reports nothing.
\<close>

theorem analysis_total_and_aligned:
  "\<exists>file. analyzeV4AnalyzedFile path (Inr ps) = Inr file \<and> validateV4AnalyzedFile file = None \<and>
     analysis_wf (af_Analysis file) \<and> a_Path (af_Analysis file) = path \<and> ft_path (af_FileTokens file) = path"
proof -
  obtain a where a: "analyzeV4File path (Inr ps) = Inr a"
    by (simp add: analyzeV4File_def)
  let ?file = "\<lparr>af_FileTokens = \<lparr>ft_path = path, ft_tokens = a_Tokens a, ft_lines = a_Lines a\<rparr>,
    af_Analysis = a, af_NormalizedTokens = a_NormalizedTokens a\<rparr>"
  have wf: "analysis_wf a" "a_Path a = path"
    using analyze_wf [OF a] by simp_all
  have "validateV4AnalyzedFile ?file = None"
    using wf(1) by (simp add: validateV4AnalyzedFile_def analysis_wf_def slices_aligned_def Let_def firstMismatch_same)
  then show ?thesis
    using a wf by (simp add: analyzeV4AnalyzedFile_def Let_def)
qed

section \<open>Rebasing\<close>

definition rebaseID :: "string \<Rightarrow> v4SyntaxRegionID \<Rightarrow> v4SyntaxRegionID" where
  "rebaseID p rid = RegionID p (rid_Ordinal rid)"

lemma analyze_owner_path:
  assumes "analyzeV4File path src = Inr a" and "path \<noteq> ''''" and "rid \<in> set (a_TokenOwner a)"
  shows "rid = zeroRegionID \<or> rid_Path rid = path"
proof -
  have wf: "analysis_wf a" "a_Path a = path"
    using analyze_wf [OF assms(1)] by simp_all
  obtain i where i: "i < length (a_Tokens a)" "rid = a_TokenOwner a ! i"
    using assms(3) wf(1) by (auto simp: in_set_conv_nth analysis_wf_def)
  then have rid: "rid = lastCovering (a_Regions a) (int i)"
    using analyze_owner [OF assms(1,2)] by simp
  have paths: "\<forall>r\<in>set (a_Regions a). rg_Path r = path"
    using wf by (auto simp: analysis_wf_def regions_wf_def in_set_conv_nth Let_def)
  show ?thesis
  proof (cases "rid_Path rid = ''''")
    case True
    have "rid = zeroRegionID \<or> (\<exists>r\<in>set (a_Regions a). rid = regionID r)"
      using last_in_set [of "filter (\<lambda>r. covers r (int i)) (a_Regions a)"]
      by (auto simp: rid lastCovering_def Let_def)
    then show ?thesis
      using True paths assms(2) by (auto simp: regionID_def)
  next
    case False
    then show ?thesis
      using lastCovering_region [OF rid [symmetric]] paths by (auto simp: regionID_def)
  qed
qed

text \<open>
  C19: rebasing an analysis onto another path renames regions and owners together: a window fits
  a region of the rebased analysis exactly when it fits the same region, by ordinal, of the
  original one.
\<close>

theorem rebase_preserves_window_fit:
  assumes "analyzeV4File path src = Inr a" and "path \<noteq> ''''" and "p \<noteq> ''''"
  shows "windowFitsRegion (rebaseV4AnalysisPath p a) start end =
    map_option (rebaseID p) (windowFitsRegion a start end)"
proof -
  let ?b = "rebaseV4AnalysisPath p a"
  let ?ren = "\<lambda>rid. if rid_Path rid \<noteq> '''' then RegionID p (rid_Ordinal rid) else rid"
  have n: "length (a_TokenOwner a) = length (a_Tokens a)"
    using analyze_wf [OF assms(1)] by (simp add: analysis_wf_def)
  have inj: "?ren x = ?ren y \<longleftrightarrow> x = y"
    if "x \<in> set (a_TokenOwner a)" "y \<in> set (a_TokenOwner a)" for x y
    using analyze_owner_path [OF assms(1,2) that(1)] analyze_owner_path [OF assms(1,2) that(2)] assms(2,3)
    by (cases x; cases y) (auto simp: zeroRegionID_def)
  have own: "a_TokenOwner ?b ! nat i = ?ren (a_TokenOwner a ! nat i)"
    "a_TokenOwner a ! nat i \<in> set (a_TokenOwner a)"
    if "0 \<le> i" "i < int (length (a_Tokens a))" for i
    using that n by (simp_all add: rebaseV4AnalysisPath_def)
  show ?thesis
  proof (cases "start < 0 \<or> end \<ge> int (length (a_Tokens a)) \<or> start > end")
    case True
    then show ?thesis
      by (auto simp: windowFitsRegion_def rebaseV4AnalysisPath_def)
  next
    case False
    then have rng: "0 \<le> i \<and> i < int (length (a_Tokens a))" if "i \<in> {start..end}" for i
      using that by auto
    have "list_all (\<lambda>i. a_TokenOwner ?b ! nat i = a_TokenOwner ?b ! nat start) [start..end] =
        list_all (\<lambda>i. a_TokenOwner a ! nat i = a_TokenOwner a ! nat start) [start..end]"
      unfolding list_all_iff set_upto
      by (rule ball_cong [OF refl]) (use rng False in \<open>simp add: own inj [OF own(2) own(2)]\<close>)
    moreover have "a_TokenOwner ?b ! nat start = ?ren (a_TokenOwner a ! nat start)"
      using own(1) [of start] False by simp
    moreover have "a_Regions ?b = [] \<longleftrightarrow> a_Regions a = []" "a_TokenOwner ?b = [] \<longleftrightarrow> a_TokenOwner a = []"
      "a_Tokens ?b = a_Tokens a"
      by (simp_all add: rebaseV4AnalysisPath_def)
    ultimately show ?thesis
      using False assms(3) by (simp add: windowFitsRegion_def Let_def rebaseID_def)
  qed
qed

theorem rebase_preserves_window_fit_witness:
  "windowFitsRegion (rebaseV4AnalysisPath ''pkg/a.go'' demoAnalysis) 3 5 = Some (RegionID ''pkg/a.go'' 0)"
proof -
  have "analyzeV4File ''a.go'' (Inr demoSource) = Inr demoAnalysis"
    by (simp add: analyzeV4File_def demoAnalysis_def)
  from rebase_preserves_window_fit [OF this, of "''pkg/a.go''" 3 5] show ?thesis
    by (simp add: demoAnalysis_facts rebaseID_def)
qed

end
