(* ===== verification/Sha256.thy ===== *)
theory Sha256
  imports Prelude "HOL-Library.Word"
begin

text \<open>
  SHA-256 and its hexadecimal rendering, the functions \<open>sha256.Sum256\<close> and
  \<open>hex.EncodeToString\<close> of the Go library that every fingerprint of the duplicate-code
  detector goes through.  Words are 32 bits wide and addition wraps around.  The definition is
  complete and executable; the lemmas of the development use the digest only as a function of its
  input, and the length and alphabet of its rendering (\<open>sha256_hex_length\<close>,
  \<open>sha256_hex_lower\<close>).
\<close>

unbundle bit_operations_syntax

type_synonym u32 = "32 word"

definition k256 :: "u32 list" where
  "k256 =
    [1116352408, 1899447441, 3049323471, 3921009573, 961987163, 1508970993, 2453635748,
     2870763221, 3624381080, 310598401, 607225278, 1426881987, 1925078388, 2162078206,
     2614888103, 3248222580, 3835390401, 4022224774, 264347078, 604807628, 770255983,
     1249150122, 1555081692, 1996064986, 2554220882, 2821834349, 2952996808, 3210313671,
     3336571891, 3584528711, 113926993, 338241895, 666307205, 773529912, 1294757372,
     1396182291, 1695183700, 1986661051, 2177026350, 2456956037, 2730485921, 2820302411,
     3259730800, 3345764771, 3516065817, 3600352804, 4094571909, 275423344, 430227734,
     506948616, 659060556, 883997877, 958139571, 1322822218, 1537002063, 1747873779,
     1955562222, 2024104815, 2227730452, 2361852424, 2428436474, 2756734187, 3204031479,
     3329325298]"

definition h256 :: "u32 list" where
  "h256 =
    [1779033703, 3144134277, 1013904242, 2773480762, 1359893119, 2600822924, 528734635,
     1541459225]"

section \<open>Padding\<close>

fun be_bytes :: "nat \<Rightarrow> nat \<Rightarrow> nat list" where
  "be_bytes 0 n = []"
| "be_bytes (Suc w) n = be_bytes w (n div 256) @ [n mod 256]"

definition pad256 :: "nat list \<Rightarrow> nat list" where
  "pad256 bs =
     (let n = length bs; z = (119 - n mod 64) mod 64
      in bs @ 128 # replicate z 0 @ be_bytes 8 (8 * n))"

fun words_be :: "nat list \<Rightarrow> u32 list" where
  "words_be (a # b # c # d # bs) =
     word_of_nat (((a * 256 + b) * 256 + c) * 256 + d) # words_be bs"
| "words_be _ = []"

section \<open>Compression\<close>

definition ssig0 :: "u32 \<Rightarrow> u32" where
  "ssig0 x = word_rotr 7 x XOR word_rotr 18 x XOR drop_bit 3 x"

definition ssig1 :: "u32 \<Rightarrow> u32" where
  "ssig1 x = word_rotr 17 x XOR word_rotr 19 x XOR drop_bit 10 x"

definition bsig0 :: "u32 \<Rightarrow> u32" where
  "bsig0 x = word_rotr 2 x XOR word_rotr 13 x XOR word_rotr 22 x"

definition bsig1 :: "u32 \<Rightarrow> u32" where
  "bsig1 x = word_rotr 6 x XOR word_rotr 11 x XOR word_rotr 25 x"

definition ch256 :: "u32 \<Rightarrow> u32 \<Rightarrow> u32 \<Rightarrow> u32" where
  "ch256 x y z = (x AND y) XOR (NOT x AND z)"

definition maj256 :: "u32 \<Rightarrow> u32 \<Rightarrow> u32 \<Rightarrow> u32" where
  "maj256 x y z = (x AND y) XOR (x AND z) XOR (y AND z)"

text \<open>The message schedule, newest word first.\<close>

fun schedule256 :: "nat \<Rightarrow> u32 list \<Rightarrow> u32 list" where
  "schedule256 0 ws = ws"
| "schedule256 (Suc n) ws =
     schedule256 n ((ssig1 (ws ! 1) + ws ! 6 + ssig0 (ws ! 14) + ws ! 15) # ws)"

fun rounds256 :: "(u32 \<times> u32) list \<Rightarrow> u32 list \<Rightarrow> u32 list" where
  "rounds256 ((k, w) # kws) [a, b, c, d, e, f, g, h] =
     (let t1 = h + bsig1 e + ch256 e f g + k + w; t2 = bsig0 a + maj256 a b c
      in rounds256 kws [t1 + t2, a, b, c, d + t1, e, f, g])"
| "rounds256 _ st = st"

definition block256 :: "u32 list \<Rightarrow> u32 list \<Rightarrow> u32 list" where
  "block256 block st =
     map2 (+) st (rounds256 (zip k256 (rev (schedule256 48 (rev block)))) st)"

fun blocks256 :: "nat \<Rightarrow> u32 list \<Rightarrow> u32 list \<Rightarrow> u32 list" where
  "blocks256 0 ws st = st"
| "blocks256 (Suc n) ws st = blocks256 n (drop 16 ws) (block256 (take 16 ws) st)"

definition sum256 :: "string \<Rightarrow> u32 list" where
  "sum256 s = (let ws = words_be (pad256 (map of_char s)) in blocks256 (length ws div 16) ws h256)"

section \<open>Hexadecimal rendering\<close>

definition hex_digit :: "nat \<Rightarrow> char" where
  "hex_digit n = char_of (if n < 10 then 48 + n else 87 + n)"

fun hex_word :: "nat \<Rightarrow> nat \<Rightarrow> string" where
  "hex_word 0 n = []"
| "hex_word (Suc w) n = hex_word w (n div 16) @ [hex_digit (n mod 16)]"

definition sha256_hex :: "string \<Rightarrow> string" where
  "sha256_hex s = concat (map (\<lambda>w. hex_word 8 (unat w)) (sum256 s))"

section \<open>Shape of the digest\<close>

lemma length_hex_word [simp]: "length (hex_word w n) = w"
  by (induction w arbitrary: n) auto

lemma length_rounds256: "length st = 8 \<Longrightarrow> length (rounds256 kws st) = 8"
  by (induction kws st rule: rounds256.induct) (auto simp: Let_def)

lemma length_block256: "length st = 8 \<Longrightarrow> length (block256 b st) = 8"
  by (simp add: block256_def length_rounds256)

lemma length_blocks256: "length st = 8 \<Longrightarrow> length (blocks256 n ws st) = 8"
  by (induction n arbitrary: ws st) (auto simp: length_block256)

lemma length_sum256: "length (sum256 s) = 8"
  by (simp add: sum256_def Let_def length_blocks256 h256_def)

lemma sha256_hex_length: "length (sha256_hex s) = 64"
proof -
  have "sum_list (map (\<lambda>w. length (hex_word 8 (unat w))) (sum256 s)) = 64"
    by (simp add: length_sum256 sum_list_triv)
  then show ?thesis
    by (simp add: sha256_hex_def length_concat o_def)
qed

lemma sha256_hex_nonempty [simp]: "sha256_hex s \<noteq> []"
  using sha256_hex_length [of s] by auto

definition lower_hex :: "char \<Rightarrow> bool" where
  "lower_hex c = (let n = of_char c :: nat in 48 \<le> n \<and> n \<le> 57 \<or> 97 \<le> n \<and> n \<le> 102)"

lemma hex_digit_lower: "n < 16 \<Longrightarrow> lower_hex (hex_digit n)"
  by (auto simp: lower_hex_def hex_digit_def Let_def)

lemma hex_word_lower: "c \<in> set (hex_word w n) \<Longrightarrow> lower_hex c"
  by (induction w arbitrary: n) (auto intro: hex_digit_lower)

lemma sha256_hex_lower: "list_all lower_hex (sha256_hex s)"
  by (auto simp: sha256_hex_def list_all_iff intro: hex_word_lower)

end
