(* ===== verification/Dup_Content.thy ===== *)
theory Dup_Content
  imports Dup_Regions Sha256
begin

text \<open>
  Content identity of clones: the window fingerprints of \<open>v4_legacy_helpers.go\<close>, the chain
  hash of \<open>v3_core.go\<close> and the exact digest of \<open>v4_content_identity.go\<close>.

  The central lemma is that the chain hash of a dense run of sliding windows and the digest
  computed from the token slice feed the same bytes to SHA-256, so the two identities agree.
\<close>

section \<open>Window fingerprints\<close>

text \<open>The \<open>switch\<close> inside \<open>normalizeFingerprint\<close>.\<close>

definition fingerprintToken :: "gotoken \<Rightarrow> string" where
  "fingerprintToken tok =
     (if tok = T_IDENT then ''IDENT''
      else if tok = T_STRING \<or> tok = T_CHAR then ''STRING''
      else if tok = T_INT \<or> tok = T_FLOAT \<or> tok = T_IMAG then ''NUMBER''
      else tokenString tok)"

fun normalizeFingerprint :: "gotoken list \<Rightarrow> string" where
  "normalizeFingerprint [] = []"
| "normalizeFingerprint (tok # rest) =
     fingerprintToken tok @ (if rest \<noteq> [] then '' '' else []) @ normalizeFingerprint rest"

definition truncateFingerprint :: "string \<Rightarrow> string" where
  "truncateFingerprint fp = (if length fp > 40 then take 40 fp @ ''...'' else fp)"

lemma fingerprintToken_normalize: "fingerprintToken tok = normalizeV4Token tok"
  by (cases tok) (auto simp: fingerprintToken_def)

lemma normalizeFingerprint_join: "normalizeFingerprint toks = join '' '' (map normalizeV4Token toks)"
  by (induction toks) (auto simp: fingerprintToken_normalize join_Cons)

section \<open>Stable fingerprints\<close>

definition AlgorithmVersion :: int where
  "AlgorithmVersion = 4"

definition algorithmDomain :: string where
  "algorithmDomain = ''leamas-dupcode-v'' @ itoa AlgorithmVersion"

definition v4SeedFingerprint :: "string \<Rightarrow> string" where
  "v4SeedFingerprint contentHash = sha256_hex (algorithmDomain @ '':'' @ contentHash)"

definition v3SeedFingerprint :: "string \<Rightarrow> string \<Rightarrow> string" where
  "v3SeedFingerprint tokenFP pathSet = sha256_hex (algorithmDomain @ '':'' @ tokenFP @ '':'' @ pathSet)"

definition hashTokens :: "string \<Rightarrow> string" where
  "hashTokens tokens = sha256_hex (algorithmDomain @ tokens)"

text \<open>The tuple written between two consecutive seeds of a chain.\<close>

definition seedGap :: "seedMatch \<Rightarrow> seedMatch \<Rightarrow> string" where
  "seedGap prev m =
     (let leftAdv = max 0 (w_StartPos (m_Left m) - w_EndPos (m_Left prev) - 1);
          rightAdv = max 0 (w_StartPos (m_Right m) - w_EndPos (m_Right prev) - 1);
          overlapLeft = max 0 (w_EndPos (m_Left prev) - w_StartPos (m_Left m) + 1);
          overlapRight = max 0 (w_EndPos (m_Right prev) - w_StartPos (m_Right m) + 1)
      in '':'' @ itoa leftAdv @ '':'' @ itoa rightAdv @ '':'' @ itoa overlapLeft @ '':'' @ itoa overlapRight)"

fun contentStream :: "seedMatch option \<Rightarrow> seedMatch list \<Rightarrow> string" where
  "contentStream prev [] = []"
| "contentStream prev (m # ms) =
     m_SeedFingerprint m @ (case prev of None \<Rightarrow> [] | Some p \<Rightarrow> seedGap p m) @ ''|'' @
     contentStream (Some m) ms"

definition computeContentHash :: "seedMatch list \<Rightarrow> string" where
  "computeContentHash matches =
     (if matches = [] then [] else sha256_hex (algorithmDomain @ contentStream None matches))"

section \<open>Exact content keys\<close>

definition v4ExactSeedWidth :: nat where
  "v4ExactSeedWidth = 400"

definition seedText :: "string list \<Rightarrow> nat \<Rightarrow> string" where
  "seedText tokens start =
     join '' '' (take v4ExactSeedWidth (drop start tokens)) @
     (if start > 0 then '':0:0:399:399'' else []) @ ''|''"

definition v4ExactNormalizedDigest :: "string list \<Rightarrow> string" where
  "v4ExactNormalizedDigest tokens =
     (if tokens = [] then []
      else if length tokens < v4ExactSeedWidth
      then sha256_hex (algorithmDomain @ join '' '' tokens @ ''|'')
      else sha256_hex (algorithmDomain @
        concat (map (seedText tokens) [0..<length tokens - v4ExactSeedWidth + 1])))"

definition v4StableFingerprintForContentKey :: "v4ExactContentKey \<Rightarrow> string" where
  "v4StableFingerprintForContentKey key = v4SeedFingerprint (ck_Digest key)"

text \<open>The tokens of an inclusive range of positions.\<close>

definition tokenSlice :: "'a list \<Rightarrow> int \<Rightarrow> int \<Rightarrow> 'a list" where
  "tokenSlice xs start end = take (nat (end + 1 - start)) (drop (nat start) xs)"

definition v4ExactContentKeyForOccurrence ::
  "v4AnalyzedFile \<Rightarrow> maximalOccurrence \<Rightarrow> dupError + v4ExactContentKey" where
  "v4ExactContentKeyForOccurrence file occ =
     (case validateV4AnalyzedFile file of Some err \<Rightarrow> Inl err
      | None \<Rightarrow>
         if ft_path (af_FileTokens file) \<noteq> mo_Path occ \<or> mo_StartPos occ < 0 \<or>
           mo_EndPos occ < mo_StartPos occ \<or> mo_EndPos occ \<ge> int (length (af_NormalizedTokens file))
         then Inl (InvalidExactOccurrence (mo_Path occ) (mo_StartPos occ) (mo_EndPos occ))
         else let tokens = tokenSlice (af_NormalizedTokens file) (mo_StartPos occ) (mo_EndPos occ)
         in Inr (ContentKey (v4ExactNormalizedDigest tokens) (int (length tokens))))"

lemma length_tokenSlice:
  "0 \<le> start \<Longrightarrow> start \<le> end + 1 \<Longrightarrow> end < int (length xs) \<Longrightarrow>
   int (length (tokenSlice xs start end)) = end - start + 1"
  by (auto simp: tokenSlice_def)

lemma content_key_iff:
  "v4ExactContentKeyForOccurrence file occ = Inr k \<longleftrightarrow>
     validateV4AnalyzedFile file = None \<and> ft_path (af_FileTokens file) = mo_Path occ \<and>
     0 \<le> mo_StartPos occ \<and> mo_StartPos occ \<le> mo_EndPos occ \<and>
     mo_EndPos occ < int (length (af_NormalizedTokens file)) \<and>
     k = ContentKey
       (v4ExactNormalizedDigest (tokenSlice (af_NormalizedTokens file) (mo_StartPos occ) (mo_EndPos occ)))
       (mo_EndPos occ - mo_StartPos occ + 1)"
  by (auto simp: v4ExactContentKeyForOccurrence_def Let_def length_tokenSlice split: option.splits)

section \<open>A dense chain and its token slice have one identity\<close>

text \<open>
  A dense run: the \<open>i\<close>-th match covers tokens \<open>i\<close> to \<open>i + 399\<close> of the clone body on
  both sides and carries the fingerprint of those tokens.
\<close>

definition denseMatches :: "string list \<Rightarrow> int \<Rightarrow> int \<Rightarrow> seedMatch list \<Rightarrow> bool" where
  "denseMatches body l r ms \<longleftrightarrow> ms \<noteq> [] \<and> length body = length ms + 399 \<and>
     (\<forall>i < length ms.
       m_SeedFingerprint (ms ! i) = join '' '' (take 400 (drop i body)) \<and>
       w_StartPos (m_Left (ms ! i)) = l + int i \<and> w_EndPos (m_Left (ms ! i)) = l + int i + 399 \<and>
       w_StartPos (m_Right (ms ! i)) = r + int i \<and> w_EndPos (m_Right (ms ! i)) = r + int i + 399)"

lemma itoa_0: "itoa 0 = ''0''"
  by code_simp

lemma itoa_399: "itoa 399 = ''399''"
  by code_simp

lemma dense_seedGap:
  assumes "denseMatches body l r ms" and "Suc i < length ms"
  shows "seedGap (ms ! i) (ms ! Suc i) = '':0:0:399:399''"
proof -
  have "w_StartPos (m_Left (ms ! Suc i)) = l + int i + 1" "w_EndPos (m_Left (ms ! i)) = l + int i + 399"
    "w_StartPos (m_Right (ms ! Suc i)) = r + int i + 1" "w_EndPos (m_Right (ms ! i)) = r + int i + 399"
    using assms by (auto simp: denseMatches_def)
  then show ?thesis
    by (simp add: seedGap_def itoa_0 itoa_399)
qed

lemma contentStream_dense:
  assumes "denseMatches body l r ms" and "k < length ms"
  shows "contentStream (Some (ms ! k)) (drop (Suc k) ms) =
    concat (map (seedText body) [Suc k..<length ms])"
  using assms(2)
proof (induction "length ms - k" arbitrary: k)
  case (Suc n)
  show ?case
  proof (cases "Suc k < length ms")
    case True
    then have "drop (Suc k) ms = ms ! Suc k # drop (Suc (Suc k)) ms"
      by (simp add: Cons_nth_drop_Suc)
    moreover have "m_SeedFingerprint (ms ! Suc k) = join '' '' (take 400 (drop (Suc k) body))"
      using assms(1) True by (simp add: denseMatches_def)
    ultimately have "contentStream (Some (ms ! k)) (drop (Suc k) ms) =
        seedText body (Suc k) @ contentStream (Some (ms ! Suc k)) (drop (Suc (Suc k)) ms)"
      using dense_seedGap [OF assms(1) True] by (simp add: seedText_def v4ExactSeedWidth_def)
    with True Suc show ?thesis
      by (simp add: upt_conv_Cons)
  qed simp
qed simp

text \<open>
  for a dense run of matches over a clone body, the hash computed from the chain and the
  digest computed from the token slice are equal, so the stable fingerprint of a clone does not
  depend on which of the two identities it is derived from.
\<close>

theorem dense_chain_hash_is_exact_digest:
  assumes "denseMatches body l r ms"
  shows "computeContentHash ms = v4ExactNormalizedDigest body"
proof -
  have ms: "0 < length ms" and len: "length body = length ms + 399"
    using assms by (auto simp: denseMatches_def)
  have "contentStream None ms = seedText body 0 @ contentStream (Some (ms ! 0)) (drop (Suc 0) ms)"
    using assms ms by (cases ms) (auto simp: seedText_def denseMatches_def v4ExactSeedWidth_def)
  also have "\<dots> = concat (map (seedText body) [0..<length ms])"
    using contentStream_dense [OF assms ms] ms by (simp add: upt_conv_Cons)
  finally show ?thesis
    using ms len by (auto simp: computeContentHash_def v4ExactNormalizedDigest_def v4ExactSeedWidth_def)
qed

definition demoBody :: "string list" where
  "demoBody = replicate 401 ''IDENT''"

definition demoDense :: "seedMatch list" where
  "demoDense = map (\<lambda>i. \<lparr>m_SeedFingerprint = join '' '' (take 400 (drop i demoBody)),
     m_Left = \<lparr>w_Path = ''a.go'', w_StartLine = 1, w_EndLine = 50,
       w_StartPos = 7 + int i, w_EndPos = 7 + int i + 399\<rparr>,
     m_Right = \<lparr>w_Path = ''b.go'', w_StartLine = 1, w_EndLine = 50,
       w_StartPos = 90 + int i, w_EndPos = 90 + int i + 399\<rparr>,
     m_Offset = 83\<rparr>) [0..<2]"

theorem dense_chain_hash_is_exact_digest_witness:
  "computeContentHash demoDense = v4ExactNormalizedDigest demoBody \<and> length demoDense = 2"
proof -
  have "denseMatches demoBody 7 90 demoDense"
    by (auto simp: denseMatches_def demoBody_def demoDense_def nth_append less_Suc_eq numeral_2_eq_2)
  from dense_chain_hash_is_exact_digest [OF this] show ?thesis
    by (simp add: demoDense_def)
qed

end
