(* ===== verification/Dup_Windows.thy ===== *)
theory Dup_Windows
  imports Dup_Content
begin

text \<open>
  Discovery of common windows between two files: \<open>findCommonWindows\<close> of
  \<open>v4_legacy_helpers.go\<close> and the pairing loop of \<open>CheckRepo\<close> in \<open>check.go\<close>.

  The lemmas show that the window map holds exactly the windows of the scanned files whose
  fingerprint also occurs in another file and whose line span reaches the threshold.
\<close>

section \<open>Configuration\<close>

record Config =
  c_Root :: string
  c_MinLines :: int
  c_MinTokens :: int
  c_ExcludeDirs :: "string list option"
  c_ExcludeFileSuffixes :: "string list option"
  c_IgnoreGenerated :: bool

definition DefaultConfig :: Config where
  "DefaultConfig = \<lparr>c_Root = '''', c_MinLines = 40, c_MinTokens = 400,
     c_ExcludeDirs = Some [''.git'', ''vendor'', ''node_modules'', ''dist'', ''build'', ''.factory'', ''bin'', ''testdata''],
     c_ExcludeFileSuffixes = Some [''_test.go'', ''.pb.go'', ''.gen.go''],
     c_IgnoreGenerated = True\<rparr>"

text \<open>The defaulting at the start of \<open>CheckRepo\<close>; a \<open>nil\<close> slice is \<open>None\<close>.\<close>

definition withDefaults :: "Config \<Rightarrow> Config" where
  "withDefaults cfg =
     (let cfg = (if c_MinLines cfg = 0 then cfg\<lparr>c_MinLines := c_MinLines DefaultConfig\<rparr> else cfg);
          cfg = (if c_MinTokens cfg = 0 then cfg\<lparr>c_MinTokens := c_MinTokens DefaultConfig\<rparr> else cfg);
          cfg = (if c_ExcludeDirs cfg = None then cfg\<lparr>c_ExcludeDirs := c_ExcludeDirs DefaultConfig\<rparr> else cfg)
      in if c_ExcludeFileSuffixes cfg = None
         then cfg\<lparr>c_ExcludeFileSuffixes := c_ExcludeFileSuffixes DefaultConfig\<rparr> else cfg)"

section \<open>Common windows of two files\<close>

definition windowAt :: "fileTokens \<Rightarrow> nat \<Rightarrow> nat \<Rightarrow> rawWindow" where
  "windowAt ft k start = \<lparr>w_Path = ft_path ft, w_StartLine = ft_lines ft ! start,
     w_EndLine = ft_lines ft ! (start + k - 1), w_StartPos = int start,
     w_EndPos = int start + int k - 1\<rparr>"

definition windowStarts :: "fileTokens \<Rightarrow> nat \<Rightarrow> nat list" where
  "windowStarts ft k = (if k \<le> length (ft_tokens ft) then [0..<length (ft_tokens ft) - k + 1] else [])"

definition windowFP :: "fileTokens \<Rightarrow> nat \<Rightarrow> nat \<Rightarrow> string" where
  "windowFP ft k start = normalizeFingerprint (take k (drop start (ft_tokens ft)))"

definition fingerprintPositions :: "fileTokens \<Rightarrow> nat \<Rightarrow> (string \<times> nat list) list" where
  "fingerprintPositions ft k = group_by (windowFP ft k) id (windowStarts ft k)"

definition addWindow :: "Config \<Rightarrow> string \<Rightarrow> fileTokens \<Rightarrow> nat \<Rightarrow> windowMap \<Rightarrow> windowMap" where
  "addWindow cfg fp ft start wm =
     (let w = windowAt ft (nat (c_MinTokens cfg)) start
      in if w_EndLine w - w_StartLine w + 1 \<ge> c_MinLines cfg then alist_append fp w wm else wm)"

text \<open>
  One fingerprint of the first file: skipped unless the second file has it too; the token count is
  recorded once; then the windows of both files are appended.
\<close>

definition addFingerprint ::
  "Config \<Rightarrow> fileTokens \<Rightarrow> fileTokens \<Rightarrow> string \<Rightarrow> windowMap \<times> (string \<times> int) list \<Rightarrow>
   windowMap \<times> (string \<times> int) list" where
  "addFingerprint cfg ft1 ft2 fp st =
     (let (wm, fpTokens) = st; k = nat (c_MinTokens cfg)
      in case map_of (fingerprintPositions ft2 k) fp of
        None \<Rightarrow> st
      | Some pos2 \<Rightarrow>
          (fold (addWindow cfg fp ft2) pos2
             (fold (addWindow cfg fp ft1) (lookup_list (fingerprintPositions ft1 k) fp) wm),
           if map_of fpTokens fp = None then fpTokens @ [(fp, c_MinTokens cfg)] else fpTokens))"

text \<open>
  With a threshold of zero or less the first window already slices or indexes out of range and the
  program panics.
\<close>

definition findCommonWindows ::
  "fileTokens \<Rightarrow> fileTokens \<Rightarrow> Config \<Rightarrow> windowMap \<times> (string \<times> int) list \<Rightarrow>
   dupError + windowMap \<times> (string \<times> int) list" where
  "findCommonWindows ft1 ft2 cfg st =
     (if c_MinTokens cfg \<le> 0 then Inl IndexPanic
      else Inr (fold (addFingerprint cfg ft1 ft2)
        (sort_slice (<) (map fst (fingerprintPositions ft1 (nat (c_MinTokens cfg))))) st))"

fun scanAgainst ::
  "Config \<Rightarrow> fileTokens \<Rightarrow> fileTokens list \<Rightarrow> windowMap \<times> (string \<times> int) list \<Rightarrow>
   dupError + windowMap \<times> (string \<times> int) list" where
  "scanAgainst cfg ft1 [] st = Inr st"
| "scanAgainst cfg ft1 (ft2 # fts) st =
     (if int (length (ft_tokens ft2)) < c_MinTokens cfg then scanAgainst cfg ft1 fts st
      else case findCommonWindows ft1 ft2 cfg st of
        Inl err \<Rightarrow> Inl err
      | Inr st' \<Rightarrow> scanAgainst cfg ft1 fts st')"

fun scanFiles ::
  "Config \<Rightarrow> fileTokens list \<Rightarrow> windowMap \<times> (string \<times> int) list \<Rightarrow>
   dupError + windowMap \<times> (string \<times> int) list" where
  "scanFiles cfg [] st = Inr st"
| "scanFiles cfg (ft1 # fts) st =
     (if int (length (ft_tokens ft1)) < c_MinTokens cfg then scanFiles cfg fts st
      else case scanAgainst cfg ft1 fts st of
        Inl err \<Rightarrow> Inl err
      | Inr st' \<Rightarrow> scanFiles cfg fts st')"

section \<open>What the window map holds\<close>

definition windowOf :: "Config \<Rightarrow> fileTokens \<Rightarrow> string \<Rightarrow> rawWindow \<Rightarrow> bool" where
  "windowOf cfg ft fp w \<longleftrightarrow>
     (\<exists>start. start + nat (c_MinTokens cfg) \<le> length (ft_tokens ft) \<and>
       w = windowAt ft (nat (c_MinTokens cfg)) start \<and> windowFP ft (nat (c_MinTokens cfg)) start = fp \<and>
       w_EndLine w - w_StartLine w + 1 \<ge> c_MinLines cfg)"

definition hasFP :: "Config \<Rightarrow> fileTokens \<Rightarrow> string \<Rightarrow> bool" where
  "hasFP cfg ft fp \<longleftrightarrow>
     (\<exists>start. start + nat (c_MinTokens cfg) \<le> length (ft_tokens ft) \<and>
       windowFP ft (nat (c_MinTokens cfg)) start = fp)"

lemma set_windowStarts: "set (windowStarts ft k) = {start. start + k \<le> length (ft_tokens ft)}"
  by (auto simp: windowStarts_def)

lemma lookup_addWindow:
  "set (lookup_list (addWindow cfg fp ft start wm) fp') =
     set (lookup_list wm fp') \<union>
     (if fp' = fp \<and> w_EndLine (windowAt ft (nat (c_MinTokens cfg)) start) -
           w_StartLine (windowAt ft (nat (c_MinTokens cfg)) start) + 1 \<ge> c_MinLines cfg
      then {windowAt ft (nat (c_MinTokens cfg)) start} else {})"
  by (auto simp: addWindow_def Let_def)

lemma lookup_fold_addWindow:
  "set (lookup_list (fold (addWindow cfg fp ft) ps wm) fp') =
     set (lookup_list wm fp') \<union>
     {w. fp' = fp \<and> (\<exists>p\<in>set ps. w = windowAt ft (nat (c_MinTokens cfg)) p \<and>
        w_EndLine w - w_StartLine w + 1 \<ge> c_MinLines cfg)}"
  by (induction ps arbitrary: wm) (auto simp: lookup_addWindow)

lemma set_fingerprintPositions:
  "set (lookup_list (fingerprintPositions ft k) fp) =
     {start. start + k \<le> length (ft_tokens ft) \<and> windowFP ft k start = fp}"
  by (auto simp: fingerprintPositions_def set_windowStarts)

lemma map_of_fingerprintPositions:
  "map_of (fingerprintPositions ft (nat (c_MinTokens cfg))) fp = Some ps \<Longrightarrow>
   hasFP cfg ft fp \<and> set ps = {start. start + nat (c_MinTokens cfg) \<le> length (ft_tokens ft) \<and>
     windowFP ft (nat (c_MinTokens cfg)) start = fp}"
  "map_of (fingerprintPositions ft (nat (c_MinTokens cfg))) fp = None \<Longrightarrow> \<not> hasFP cfg ft fp"
proof -
  let ?k = "nat (c_MinTokens cfg)"
  show "hasFP cfg ft fp \<and> set ps = {start. start + ?k \<le> length (ft_tokens ft) \<and> windowFP ft ?k start = fp}"
    if "map_of (fingerprintPositions ft ?k) fp = Some ps"
  proof -
    have ps: "set ps = {start. start + ?k \<le> length (ft_tokens ft) \<and> windowFP ft ?k start = fp}"
      using that set_fingerprintPositions [of ft ?k fp] by (simp add: lookup_list_def)
    have "fp \<in> fst ` set (fingerprintPositions ft ?k)"
      using that by (force dest: map_of_SomeD)
    then have "hasFP cfg ft fp"
      by (auto simp: fingerprintPositions_def keys_group_by set_windowStarts hasFP_def)
    with ps show ?thesis by simp
  qed
  show "\<not> hasFP cfg ft fp" if "map_of (fingerprintPositions ft ?k) fp = None"
    using that by (auto simp: map_of_eq_None_iff fingerprintPositions_def keys_group_by set_windowStarts hasFP_def)
qed

lemma lookup_addFingerprint:
  "set (lookup_list (fst (addFingerprint cfg ft1 ft2 fp st)) fp') =
     set (lookup_list (fst st) fp') \<union>
     {w. fp' = fp \<and> hasFP cfg ft2 fp \<and> (windowOf cfg ft1 fp w \<or> windowOf cfg ft2 fp w)}"
proof (cases "map_of (fingerprintPositions ft2 (nat (c_MinTokens cfg))) fp")
  case None
  then show ?thesis
    using map_of_fingerprintPositions(2) [OF None] by (cases st) (simp add: addFingerprint_def Let_def)
next
  case (Some ps)
  then show ?thesis
    using map_of_fingerprintPositions(1) [OF Some]
    by (cases st) (auto simp: addFingerprint_def lookup_fold_addWindow set_fingerprintPositions windowOf_def)
qed

lemma lookup_fold_addFingerprint:
  "set (lookup_list (fst (fold (addFingerprint cfg ft1 ft2) fps st)) fp') =
     set (lookup_list (fst st) fp') \<union>
     {w. fp' \<in> set fps \<and> hasFP cfg ft2 fp' \<and> (windowOf cfg ft1 fp' w \<or> windowOf cfg ft2 fp' w)}"
proof (induction fps arbitrary: st)
  case (Cons fp fps)
  then show ?case
    by (auto simp: lookup_addFingerprint simp del: split_paired_All)
qed simp

lemma findCommonWindows_lookup:
  assumes "findCommonWindows ft1 ft2 cfg st = Inr st'"
  shows "set (lookup_list (fst st') fp) = set (lookup_list (fst st) fp) \<union>
    {w. hasFP cfg ft1 fp \<and> hasFP cfg ft2 fp \<and> (windowOf cfg ft1 fp w \<or> windowOf cfg ft2 fp w)}"
proof -
  have "set (map fst (fingerprintPositions ft1 (nat (c_MinTokens cfg)))) = Collect (hasFP cfg ft1)"
    by (auto simp: fingerprintPositions_def keys_group_by set_windowStarts hasFP_def)
  then show ?thesis
    using assms by (auto simp: findCommonWindows_def lookup_fold_addFingerprint split: if_splits)
qed

lemma hasFP_length: "hasFP cfg ft fp \<Longrightarrow> \<not> int (length (ft_tokens ft)) < c_MinTokens cfg"
  by (auto simp: hasFP_def)

definition pairWindow :: "Config \<Rightarrow> fileTokens \<Rightarrow> fileTokens \<Rightarrow> string \<Rightarrow> rawWindow \<Rightarrow> bool" where
  "pairWindow cfg ft1 ft2 fp w \<longleftrightarrow>
     hasFP cfg ft1 fp \<and> hasFP cfg ft2 fp \<and> (windowOf cfg ft1 fp w \<or> windowOf cfg ft2 fp w)"

lemma scanAgainst_lookup:
  "scanAgainst cfg ft1 fts st = Inr st' \<Longrightarrow>
   set (lookup_list (fst st') fp) = set (lookup_list (fst st) fp) \<union> {w. \<exists>ft2\<in>set fts. pairWindow cfg ft1 ft2 fp w}"
proof (induction fts arbitrary: st)
  case (Cons ft2 fts)
  show ?case
  proof (cases "int (length (ft_tokens ft2)) < c_MinTokens cfg")
    case True
    then show ?thesis
      using Cons hasFP_length [of cfg ft2 fp] by (auto simp: pairWindow_def)
  next
    case False
    then obtain st2 where st2: "findCommonWindows ft1 ft2 cfg st = Inr st2" "scanAgainst cfg ft1 fts st2 = Inr st'"
      using Cons.prems by (auto split: sum.splits)
    show ?thesis
      using Cons.IH [OF st2(2)] findCommonWindows_lookup [OF st2(1), of fp] by (auto simp: pairWindow_def)
  qed
qed simp

lemma scanFiles_lookup:
  "scanFiles cfg fts st = Inr st' \<Longrightarrow>
   set (lookup_list (fst st') fp) = set (lookup_list (fst st) fp) \<union>
     {w. \<exists>i j. i < j \<and> j < length fts \<and> pairWindow cfg (fts ! i) (fts ! j) fp w}"
proof (induction fts arbitrary: st)
  case (Cons ft1 fts)
  note pair = ex_pair_Cons [where P = "\<lambda>a b. pairWindow cfg a b fp w" for w, of ft1 fts]
  show ?case
  proof (cases "int (length (ft_tokens ft1)) < c_MinTokens cfg")
    case True
    then show ?thesis
      using Cons hasFP_length [of cfg ft1 fp] unfolding pair by (auto simp: pairWindow_def)
  next
    case False
    then obtain st2 where st2: "scanAgainst cfg ft1 fts st = Inr st2" "scanFiles cfg fts st2 = Inr st'"
      using Cons.prems by (auto split: sum.splits)
    show ?thesis
      unfolding pair using Cons.IH [OF st2(2)] scanAgainst_lookup [OF st2(1), of fp] by auto
  qed
qed simp

lemma scanAgainst_total: "0 < c_MinTokens cfg \<Longrightarrow> \<exists>st'. scanAgainst cfg ft1 fts st = Inr st'"
  by (induction fts arbitrary: st) (auto simp: findCommonWindows_def simp del: split_paired_All split_paired_Ex)

lemma scanFiles_total: "0 < c_MinTokens cfg \<Longrightarrow> \<exists>st'. scanFiles cfg fts st = Inr st'"
proof (induction fts arbitrary: st)
  case (Cons ft1 fts)
  obtain st2 where "scanAgainst cfg ft1 fts st = Inr st2"
    using scanAgainst_total [OF Cons.prems] by blast
  then show ?case
    using Cons by simp
qed simp

lemma scanFiles_keys_distinct:
  "scanFiles cfg fts st = Inr st' \<Longrightarrow> distinct (map fst (fst st)) \<Longrightarrow> distinct (map fst (fst st'))"
proof -
  have add: "distinct (map fst wm) \<Longrightarrow> distinct (map fst (fold (addWindow cfg fp ft) ps wm))" for fp ft ps wm
    by (induction ps arbitrary: wm) (auto simp: addWindow_def Let_def intro: distinct_alist_append)
  have fpr: "distinct (map fst (fst st)) \<Longrightarrow> distinct (map fst (fst (addFingerprint cfg ft1 ft2 fp st)))"
    for ft1 ft2 fp st
    by (cases st) (auto simp: addFingerprint_def Let_def intro: add split: option.split)
  have fps: "distinct (map fst (fst st)) \<Longrightarrow> distinct (map fst (fst (fold (addFingerprint cfg ft1 ft2) fps st)))"
    for ft1 ft2 fps st
    by (induction fps arbitrary: st) (simp_all add: fpr del: split_paired_All)
  have against: "scanAgainst cfg ft1 fts st = Inr st' \<Longrightarrow> distinct (map fst (fst st)) \<Longrightarrow>
      distinct (map fst (fst st'))" for ft1 fts st st'
  proof (induction fts arbitrary: st)
    case (Cons ft2 fts)
    then show ?case
      by (simp add: findCommonWindows_def fps split: if_splits del: split_paired_All)
  qed simp
  show "scanFiles cfg fts st = Inr st' \<Longrightarrow> distinct (map fst (fst st)) \<Longrightarrow> distinct (map fst (fst st'))"
  proof (induction fts arbitrary: st)
    case (Cons ft1 fts)
    then show ?case
      by (simp split: if_splits sum.splits del: split_paired_All) (meson against)
  qed simp
qed

text \<open>
  scanning a list of files with a positive token threshold always succeeds, and the window
  map then holds under a fingerprint exactly those windows of a scanned file that have this
  fingerprint and reach the line threshold, provided some other file of the list has a window with
  the same fingerprint: nothing common to two files is missed and nothing else is recorded.
\<close>

theorem window_map_exact:
  assumes "0 < c_MinTokens cfg"
  shows "\<exists>wm fpTokens. scanFiles cfg fts ([], []) = Inr (wm, fpTokens) \<and>
    (\<forall>fp w. w \<in> set (lookup_list wm fp) \<longleftrightarrow>
      (\<exists>i j. i < length fts \<and> j < length fts \<and> i \<noteq> j \<and>
        windowOf cfg (fts ! i) fp w \<and> hasFP cfg (fts ! j) fp))"
proof -
  obtain wm fpTokens where st: "scanFiles cfg fts ([], []) = Inr (wm, fpTokens)"
    using scanFiles_total [OF assms, of fts "([], [])"] by auto
  have lk: "w \<in> set (lookup_list wm fp) \<longleftrightarrow>
      (\<exists>i j. i < j \<and> j < length fts \<and> pairWindow cfg (fts ! i) (fts ! j) fp w)" for fp w
    using scanFiles_lookup [OF st, of fp] by auto
  have fp: "windowOf cfg ft fp w \<Longrightarrow> hasFP cfg ft fp" for ft fp w
    by (auto simp: windowOf_def hasFP_def)
  have sw: "(\<exists>i j. i < j \<and> j < length fts \<and> pairWindow cfg (fts ! i) (fts ! j) fp w) \<longleftrightarrow>
      (\<exists>i j. i < length fts \<and> j < length fts \<and> i \<noteq> j \<and>
        windowOf cfg (fts ! i) fp w \<and> hasFP cfg (fts ! j) fp)" (is "?L \<longleftrightarrow> ?R") for fp w
  proof
    assume ?L
    then obtain i j where "i < j" "j < length fts" "pairWindow cfg (fts ! i) (fts ! j) fp w"
      by blast
    moreover from this have "i < length fts" "i \<noteq> j"
      by simp_all
    ultimately show ?R
      unfolding pairWindow_def by metis
  next
    assume ?R
    then obtain i j where ij: "i < length fts" "j < length fts" "i \<noteq> j"
      "windowOf cfg (fts ! i) fp w" "hasFP cfg (fts ! j) fp"
      by blast
    then have "pairWindow cfg (fts ! i) (fts ! j) fp w" "pairWindow cfg (fts ! j) (fts ! i) fp w"
      by (simp_all add: pairWindow_def fp)
    with ij(1-3) show ?L
      by (meson linorder_neqE_nat)
  qed
  show ?thesis
    by (intro exI conjI allI, rule st) (simp only: lk sw)
qed

definition demoCfg :: Config where
  "demoCfg = DefaultConfig\<lparr>c_MinTokens := 2, c_MinLines := 1\<rparr>"

definition demoTokens :: "string \<Rightarrow> fileTokens" where
  "demoTokens path = \<lparr>ft_path = path, ft_tokens = [T_IDENT, T_INT, T_SEMICOLON], ft_lines = [1, 1, 2]\<rparr>"

theorem window_map_exact_witness:
  "\<exists>wm fpTokens. scanFiles demoCfg [demoTokens ''a.go'', demoTokens ''b.go''] ([], []) = Inr (wm, fpTokens) \<and>
     windowAt (demoTokens ''a.go'') 2 1 \<in> set (lookup_list wm ''NUMBER ;'')"
proof -
  let ?fts = "[demoTokens ''a.go'', demoTokens ''b.go'']"
  have "windowOf demoCfg (?fts ! 0) ''NUMBER ;'' (windowAt (demoTokens ''a.go'') 2 1)"
    unfolding windowOf_def by (rule exI [of _ 1])
      (simp add: demoCfg_def demoTokens_def windowFP_def windowAt_def fingerprintToken_def)
  moreover have "hasFP demoCfg (?fts ! 1) ''NUMBER ;''"
    unfolding hasFP_def by (rule exI [of _ 1])
      (simp add: demoCfg_def demoTokens_def windowFP_def fingerprintToken_def)
  ultimately have "\<exists>i j. i < length ?fts \<and> j < length ?fts \<and> i \<noteq> j \<and>
      windowOf demoCfg (?fts ! i) ''NUMBER ;'' (windowAt (demoTokens ''a.go'') 2 1) \<and>
      hasFP demoCfg (?fts ! j) ''NUMBER ;''"
    by (intro exI [of _ 0] exI [of _ 1]) simp
  moreover have "0 < c_MinTokens demoCfg"
    by (simp add: demoCfg_def)
  ultimately show ?thesis
    using window_map_exact [of demoCfg ?fts] by blast
qed

end
