(* ===== verification/Dup_Chains.thy ===== *)
theory Dup_Chains
  imports Dup_Windows
begin

text \<open>
  Region-bounded chain construction: \<open>v4_chain_key.go\<close>, \<open>v4_chain_inputs.go\<close>,
  \<open>v4_chain_extensions.go\<close> and \<open>v4FinalizeChain\<close> of \<open>v4_coalesce.go\<close>.
  An index slice into the annotated windows is the list of the windows it points to.

  The lemmas show that a seed match always pairs two windows of the recorded regions, that the
  partition key separates regions and offsets, and that extending a partition loses no match.
\<close>

section \<open>Partition keys\<close>

definition canonicalChainPairKey :: "v4SyntaxRegionID \<Rightarrow> v4SyntaxRegionID \<Rightarrow> int \<Rightarrow> v4ChainPairKey" where
  "canonicalChainPairKey leftRegion rightRegion offset =
     (if rid_Path leftRegion < rid_Path rightRegion \<or>
         rid_Path leftRegion = rid_Path rightRegion \<and> rid_Ordinal leftRegion \<le> rid_Ordinal rightRegion
      then ChainPairKey leftRegion rightRegion offset
      else ChainPairKey rightRegion leftRegion (- offset))"

definition chainPairKeyLess :: "v4ChainPairKey \<Rightarrow> v4ChainPairKey \<Rightarrow> bool" where
  "chainPairKeyLess a b =
     (if rid_Path (cp_LeftRegion a) \<noteq> rid_Path (cp_LeftRegion b)
      then rid_Path (cp_LeftRegion a) < rid_Path (cp_LeftRegion b)
      else if rid_Ordinal (cp_LeftRegion a) \<noteq> rid_Ordinal (cp_LeftRegion b)
      then rid_Ordinal (cp_LeftRegion a) < rid_Ordinal (cp_LeftRegion b)
      else if rid_Path (cp_RightRegion a) \<noteq> rid_Path (cp_RightRegion b)
      then rid_Path (cp_RightRegion a) < rid_Path (cp_RightRegion b)
      else if rid_Ordinal (cp_RightRegion a) \<noteq> rid_Ordinal (cp_RightRegion b)
      then rid_Ordinal (cp_RightRegion a) < rid_Ordinal (cp_RightRegion b)
      else cp_Offset a < cp_Offset b)"

definition sortChainPairKeys :: "v4ChainPairKey list \<Rightarrow> v4ChainPairKey list" where
  "sortChainPairKeys keys = sort_slice chainPairKeyLess keys"

definition tokenRangesOverlap :: "int \<Rightarrow> int \<Rightarrow> int \<Rightarrow> int \<Rightarrow> bool" where
  "tokenRangesOverlap leftStart leftEnd rightStart rightEnd \<longleftrightarrow>
     max leftStart rightStart \<le> min leftEnd rightEnd"

abbreviation windowsOverlap :: "rawWindow \<Rightarrow> rawWindow \<Rightarrow> bool" where
  "windowsOverlap a b \<equiv> tokenRangesOverlap (w_StartPos a) (w_EndPos a) (w_StartPos b) (w_EndPos b)"

interpretation chain_pair_order: keyed_less chainPairKeyLess id
  by unfold_locales (auto simp: chainPairKeyLess_def less_v4ChainPairKey_def cp_key_def less_le)

section \<open>Seed matches of one fingerprint\<close>

record v4RegionSeedMatch =
  rs_Match :: seedMatch
  rs_LeftRegion :: v4SyntaxRegionID
  rs_RightRegion :: v4SyntaxRegionID

definition annotateRegion :: "analysisMap \<Rightarrow> rawWindow \<Rightarrow> v4SyntaxRegionID" where
  "annotateRegion analyses w =
     (case map_of analyses (w_Path w) of None \<Rightarrow> zeroRegionID
      | Some a \<Rightarrow> (case windowFitsRegion a (w_StartPos w) (w_EndPos w) of
          None \<Rightarrow> zeroRegionID | Some rid \<Rightarrow> rid))"

definition regionMatch ::
  "string \<Rightarrow> rawWindow \<Rightarrow> rawWindow \<Rightarrow> v4SyntaxRegionID \<Rightarrow> v4SyntaxRegionID \<Rightarrow> v4RegionSeedMatch" where
  "regionMatch fp left right leftRegion rightRegion =
     \<lparr>rs_Match = \<lparr>m_SeedFingerprint = fp, m_Left = left, m_Right = right,
        m_Offset = w_StartPos right - w_StartPos left\<rparr>,
      rs_LeftRegion = leftRegion, rs_RightRegion = rightRegion\<rparr>"

fun emitWithinRegionMatches :: "string \<Rightarrow> v4SyntaxRegionID \<Rightarrow> rawWindow list \<Rightarrow> v4RegionSeedMatch list" where
  "emitWithinRegionMatches fp rid [] = []"
| "emitWithinRegionMatches fp rid (a # ws) =
     map (\<lambda>b. if w_Path a > w_Path b \<or> w_Path a = w_Path b \<and> w_StartPos a > w_StartPos b
              then regionMatch fp b a rid rid else regionMatch fp a b rid rid)
       (filter (\<lambda>b. \<not> windowsOverlap a b) ws)
     @ emitWithinRegionMatches fp rid ws"

definition regionAfter :: "v4SyntaxRegionID \<Rightarrow> v4SyntaxRegionID \<Rightarrow> bool" where
  "regionAfter ridA ridB \<longleftrightarrow>
     rid_Path ridA > rid_Path ridB \<or> rid_Path ridA = rid_Path ridB \<and> rid_Ordinal ridA > rid_Ordinal ridB"

definition crossMatch ::
  "string \<Rightarrow> v4SyntaxRegionID \<Rightarrow> v4SyntaxRegionID \<Rightarrow> rawWindow \<Rightarrow> rawWindow \<Rightarrow> v4RegionSeedMatch" where
  "crossMatch fp ridA ridB wA wB =
     (if regionAfter ridA ridB then regionMatch fp wB wA ridB ridA else regionMatch fp wA wB ridA ridB)"

definition emitCrossRegionDiagonalMatches ::
  "string \<Rightarrow> v4SyntaxRegionID \<Rightarrow> v4SyntaxRegionID \<Rightarrow> rawWindow list \<Rightarrow> rawWindow list \<Rightarrow> v4RegionSeedMatch list" where
  "emitCrossRegionDiagonalMatches fp ridA ridB wsA wsB =
     map (\<lambda>(wA, wB). crossMatch fp ridA ridB wA wB) (zip wsA wsB)"

definition emitCrossRegionAllPairsMatches ::
  "string \<Rightarrow> v4SyntaxRegionID \<Rightarrow> v4SyntaxRegionID \<Rightarrow> rawWindow list \<Rightarrow> rawWindow list \<Rightarrow> v4RegionSeedMatch list" where
  "emitCrossRegionAllPairsMatches fp ridA ridB wsA wsB =
     concat (map (\<lambda>wA. map (crossMatch fp ridA ridB wA) wsB) wsA)"

definition regionsArePositionallyAligned :: "rawWindow list \<Rightarrow> rawWindow list \<Rightarrow> bool" where
  "regionsArePositionallyAligned wsA wsB =
     (if length wsA \<noteq> length wsB then False
      else case (wsA, wsB) of
        (a0 # restA, b0 # restB) \<Rightarrow>
          w_EndPos a0 - w_StartPos a0 = w_EndPos b0 - w_StartPos b0 \<and>
          list_all2 (\<lambda>a b. w_StartPos a - w_StartPos a0 = w_StartPos b - w_StartPos b0 \<and>
                          w_EndPos a - w_EndPos a0 = w_EndPos b - w_EndPos b0) restA restB
      | _ \<Rightarrow> True)"

fun orderedPairs :: "'a list \<Rightarrow> ('a \<times> 'a) list" where
  "orderedPairs [] = []"
| "orderedPairs (x # xs) = map (Pair x) xs @ orderedPairs xs"

definition startPosLess :: "rawWindow \<Rightarrow> rawWindow \<Rightarrow> bool" where
  "startPosLess a b \<longleftrightarrow> w_StartPos a < w_StartPos b"

definition regionIDLess :: "v4SyntaxRegionID \<Rightarrow> v4SyntaxRegionID \<Rightarrow> bool" where
  "regionIDLess a b =
     (if rid_Path a \<noteq> rid_Path b then rid_Path a < rid_Path b else rid_Ordinal a < rid_Ordinal b)"

definition windowsByRegion :: "analysisMap \<Rightarrow> rawWindow list \<Rightarrow> (v4SyntaxRegionID \<times> rawWindow list) list" where
  "windowsByRegion analyses windows =
     group_by (annotateRegion analyses) id
       (filter (\<lambda>w. rid_Path (annotateRegion analyses w) \<noteq> '''') windows)"

definition generateRegionAnnotatedMatches ::
  "string \<Rightarrow> rawWindow list \<Rightarrow> analysisMap \<Rightarrow> v4RegionSeedMatch list" where
  "generateRegionAnnotatedMatches fp windows analyses =
     (if length windows < 2 then []
      else let byRegion = windowsByRegion analyses windows
      in if byRegion = [] then []
      else let sorted = (\<lambda>rid. sort_slice startPosLess (lookup_list byRegion rid));
               regionOrder = sort_slice regionIDLess (map fst byRegion)
      in concat (map (\<lambda>rid. if length (sorted rid) < 2 then []
                             else emitWithinRegionMatches fp rid (sorted rid)) regionOrder)
         @ concat (map (\<lambda>(ridA, ridB).
             if regionsArePositionallyAligned (sorted ridA) (sorted ridB)
             then emitCrossRegionDiagonalMatches fp ridA ridB (sorted ridA) (sorted ridB)
             else emitCrossRegionAllPairsMatches fp ridA ridB (sorted ridA) (sorted ridB))
           (orderedPairs regionOrder)))"

section \<open>Partitions\<close>

definition regionSeedMatchLess :: "v4RegionSeedMatch \<Rightarrow> v4RegionSeedMatch \<Rightarrow> bool" where
  "regionSeedMatchLess a b =
     (let la = m_Left (rs_Match a); lb = m_Left (rs_Match b);
          ra = m_Right (rs_Match a); rb = m_Right (rs_Match b)
      in if w_Path la \<noteq> w_Path lb then w_Path la < w_Path lb
         else if w_StartPos la \<noteq> w_StartPos lb then w_StartPos la < w_StartPos lb
         else if w_EndPos la \<noteq> w_EndPos lb then w_EndPos la < w_EndPos lb
         else if w_Path ra \<noteq> w_Path rb then w_Path ra < w_Path rb
         else if w_StartPos ra \<noteq> w_StartPos rb then w_StartPos ra < w_StartPos rb
         else if w_EndPos ra \<noteq> w_EndPos rb then w_EndPos ra < w_EndPos rb
         else m_SeedFingerprint (rs_Match a) < m_SeedFingerprint (rs_Match b))"

definition sortRegionAnnotatedMatches :: "v4RegionSeedMatch list \<Rightarrow> v4RegionSeedMatch list" where
  "sortRegionAnnotatedMatches grp = sort_slice regionSeedMatchLess grp"

definition partitionKey :: "v4RegionSeedMatch \<Rightarrow> v4ChainPairKey" where
  "partitionKey m = canonicalChainPairKey (rs_LeftRegion m) (rs_RightRegion m)
     (w_StartPos (m_Right (rs_Match m)) - w_StartPos (m_Left (rs_Match m)))"

definition v4BuildRegionBoundedChainInputs ::
  "windowMap \<Rightarrow> analysisMap \<Rightarrow> v4RegionSeedMatch list \<times> (v4ChainPairKey \<times> v4RegionSeedMatch list) list" where
  "v4BuildRegionBoundedChainInputs wm analyses =
     (let combined = concat (map (\<lambda>fp. generateRegionAnnotatedMatches fp (lookup_list wm fp) analyses)
            (sort_slice (<) (map fst wm)))
      in (combined, map (\<lambda>(key, grp). (key, sortRegionAnnotatedMatches grp)) (group_by partitionKey id combined)))"

section \<open>Chains\<close>

definition v4FinalizeChain :: "seedMatch list \<Rightarrow> cloneChain option" where
  "v4FinalizeChain matches =
     (case matches of [] \<Rightarrow> None
      | m0 # _ \<Rightarrow>
        let lo = (\<lambda>f. fold (\<lambda>m acc. if f m < acc then f m else acc) matches (f m0));
            hi = (\<lambda>f. fold (\<lambda>m acc. if f m > acc then f m else acc) matches (f m0));
            leftMinStart = lo (\<lambda>m. w_StartPos (m_Left m));
            leftMaxEnd = hi (\<lambda>m. w_EndPos (m_Left m));
            rightMinStart = lo (\<lambda>m. w_StartPos (m_Right m));
            rightMaxEnd = hi (\<lambda>m. w_EndPos (m_Right m));
            maxLeftLine = hi (\<lambda>m. w_EndLine (m_Left m));
            maxRightLine = hi (\<lambda>m. w_EndLine (m_Right m));
            minLeftLine = lo (\<lambda>m. w_StartLine (m_Left m));
            minRightLine = lo (\<lambda>m. w_StartLine (m_Right m));
            leftSpan = leftMaxEnd - leftMinStart + 1;
            rightSpan = rightMaxEnd - rightMinStart + 1
        in if leftSpan \<noteq> rightSpan then None
           else let leftLines = maxLeftLine - minLeftLine + 1;
                    rightLines = maxRightLine - minRightLine + 1;
                    paths = sort_slice (<) (remdups (concat (map (\<lambda>m. [w_Path (m_Left m), w_Path (m_Right m)]) matches)))
           in Some \<lparr>ch_Matches = matches, ch_TokenSpan = leftSpan,
                ch_LineSpan = (if rightLines > leftLines then rightLines else leftLines),
                ch_PathSet = join ''|'' paths,
                ch_LeftRange = \<lparr>r_StartPos = leftMinStart, r_EndPos = leftMaxEnd\<rparr>,
                ch_RightRange = \<lparr>r_StartPos = rightMinStart, r_EndPos = rightMaxEnd\<rparr>,
                ch_Offset = m_Offset m0, ch_ContentHash = computeContentHash matches\<rparr>)"

definition canChain :: "seedMatch \<Rightarrow> seedMatch \<Rightarrow> bool" where
  "canChain prev m \<longleftrightarrow> w_StartPos (m_Left m) \<le> w_EndPos (m_Left prev) + 1 \<and>
     w_StartPos (m_Right m) \<le> w_EndPos (m_Right prev) + 1"

text \<open>\<open>current\<close> grows at its end; \<open>flush\<close> finalizes it.\<close>

fun chainRuns :: "seedMatch list \<Rightarrow> seedMatch list \<Rightarrow> seedMatch list list" where
  "chainRuns current [] = (if current = [] then [] else [current])"
| "chainRuns current (m # ms) =
     (if current = [] then chainRuns [m] ms
      else if canChain (last current) m then chainRuns (current @ [m]) ms
      else current # chainRuns [m] ms)"

definition extendRegionBoundedChain :: "v4RegionSeedMatch list \<Rightarrow> cloneChain list" where
  "extendRegionBoundedChain grp = List.map_filter v4FinalizeChain (chainRuns [] (map rs_Match grp))"

definition v4RegionBoundedChains :: "windowMap \<Rightarrow> analysisMap \<Rightarrow> cloneChain list" where
  "v4RegionBoundedChains wm analyses =
     (if wm = [] then []
      else let partitions = snd (v4BuildRegionBoundedChainInputs wm analyses)
      in concat (map (\<lambda>key. extendRegionBoundedChain (lookup_list partitions key))
           (sortChainPairKeys (map fst partitions))))"

section \<open>Matches are sound\<close>

interpretation start_pos_order: keyed_less startPosLess w_StartPos
  by unfold_locales (simp add: startPosLess_def)

interpretation region_id_order: keyed_less regionIDLess id
  by unfold_locales (auto simp: regionIDLess_def less_v4SyntaxRegionID_def rid_key_def less_le)

definition matchKey :: "v4RegionSeedMatch \<Rightarrow> string \<times> int \<times> int \<times> string \<times> int \<times> int \<times> string" where
  "matchKey m =
     (w_Path (m_Left (rs_Match m)), w_StartPos (m_Left (rs_Match m)), w_EndPos (m_Left (rs_Match m)),
      w_Path (m_Right (rs_Match m)), w_StartPos (m_Right (rs_Match m)), w_EndPos (m_Right (rs_Match m)),
      m_SeedFingerprint (rs_Match m))"

interpretation seed_match_order: keyed_less regionSeedMatchLess matchKey
  by unfold_locales (auto simp: regionSeedMatchLess_def matchKey_def Let_def less_le)

lemma regionAfter_iff: "regionAfter ridA ridB \<longleftrightarrow> ridB < ridA"
  by (auto simp: regionAfter_def less_v4SyntaxRegionID_def rid_key_def less_le)

lemma set_orderedPairs: "distinct xs \<Longrightarrow> sorted xs \<Longrightarrow> (a, b) \<in> set (orderedPairs xs) \<longleftrightarrow> a \<in> set xs \<and> b \<in> set xs \<and> a < b"
  for a b :: "'a::linorder"
  by (induction xs) (auto simp: less_le)

definition inRegion :: "analysisMap \<Rightarrow> rawWindow \<Rightarrow> v4SyntaxRegionID \<Rightarrow> bool" where
  "inRegion analyses w rid \<longleftrightarrow> annotateRegion analyses w = rid \<and> rid_Path rid \<noteq> ''''"

definition matchSound :: "analysisMap \<Rightarrow> string \<Rightarrow> rawWindow list \<Rightarrow> v4RegionSeedMatch \<Rightarrow> bool" where
  "matchSound analyses fp windows rm \<longleftrightarrow>
     (let m = rs_Match rm in
      m_SeedFingerprint m = fp \<and> m_Left m \<in> set windows \<and> m_Right m \<in> set windows \<and>
      m_Offset m = w_StartPos (m_Right m) - w_StartPos (m_Left m) \<and>
      inRegion analyses (m_Left m) (rs_LeftRegion rm) \<and> inRegion analyses (m_Right m) (rs_RightRegion rm) \<and>
      rs_LeftRegion rm \<le> rs_RightRegion rm \<and>
      (rs_LeftRegion rm = rs_RightRegion rm \<longrightarrow> \<not> windowsOverlap (m_Left m) (m_Right m)))"

lemma windowsOverlap_sym: "windowsOverlap a b = windowsOverlap b a"
  by (simp add: tokenRangesOverlap_def max.commute min.commute)

lemma emitWithin_sound:
  assumes "rm \<in> set (emitWithinRegionMatches fp rid ws)" and "\<forall>w\<in>set ws. w \<in> set windows \<and> inRegion analyses w rid"
  shows "matchSound analyses fp windows rm"
  using assms
proof (induction ws)
  case (Cons a ws)
  then show ?case
    by (auto simp: matchSound_def regionMatch_def Let_def windowsOverlap_sym split: if_splits)
qed simp

lemma crossMatch_sound:
  assumes "ridA < ridB" and "wA \<in> set windows" "inRegion analyses wA ridA"
    and "wB \<in> set windows" "inRegion analyses wB ridB"
  shows "matchSound analyses fp windows (crossMatch fp ridA ridB wA wB)"
  using assms by (auto simp: crossMatch_def regionAfter_iff matchSound_def regionMatch_def Let_def)

lemma windowsByRegion_entry:
  "w \<in> set (lookup_list (windowsByRegion analyses windows) rid) \<longleftrightarrow> w \<in> set windows \<and> inRegion analyses w rid"
  by (auto simp: windowsByRegion_def inRegion_def)

lemma generate_sound:
  assumes "rm \<in> set (generateRegionAnnotatedMatches fp windows analyses)"
  shows "matchSound analyses fp windows rm"
proof -
  let ?by = "windowsByRegion analyses windows"
  let ?sorted = "\<lambda>rid. sort_slice startPosLess (lookup_list ?by rid)"
  let ?order = "sort_slice regionIDLess (map fst ?by)"
  have ws: "\<forall>w\<in>set (?sorted rid). w \<in> set windows \<and> inRegion analyses w rid" for rid
    by (simp add: windowsByRegion_entry)
  have ord: "distinct ?order" "sorted ?order"
    using region_id_order.sort_slice_keys_sorted [of "map fst ?by"] by (simp_all add: windowsByRegion_def)
  from assms consider
      (within) rid where "rm \<in> set (emitWithinRegionMatches fp rid (?sorted rid))"
    | (diag) ridA ridB where "(ridA, ridB) \<in> set (orderedPairs ?order)"
        "rm \<in> set (emitCrossRegionDiagonalMatches fp ridA ridB (?sorted ridA) (?sorted ridB))"
    | (all) ridA ridB where "(ridA, ridB) \<in> set (orderedPairs ?order)"
        "rm \<in> set (emitCrossRegionAllPairsMatches fp ridA ridB (?sorted ridA) (?sorted ridB))"
    by (auto simp: generateRegionAnnotatedMatches_def Let_def split: if_splits)
  then show ?thesis
  proof cases
    case within
    then show ?thesis
      using emitWithin_sound ws by blast
  next
    case diag
    then show ?thesis
      using ws crossMatch_sound [of ridA ridB] set_orderedPairs [OF ord]
      by (auto simp: emitCrossRegionDiagonalMatches_def elim!: in_set_zipE)
  next
    case all
    then show ?thesis
      using ws crossMatch_sound [of ridA ridB] set_orderedPairs [OF ord]
      by (auto simp: emitCrossRegionAllPairsMatches_def)
  qed
qed

section \<open>Partitions separate regions and offsets\<close>

lemma canonicalChainPairKey_ordered:
  "l \<le> r \<Longrightarrow> canonicalChainPairKey l r offset = ChainPairKey l r offset"
  by (auto simp: canonicalChainPairKey_def less_eq_v4SyntaxRegionID_def rid_key_def)

lemma inputs_sound:
  assumes "rm \<in> set (fst (v4BuildRegionBoundedChainInputs wm analyses))"
  shows "\<exists>fp\<in>fst ` set wm. matchSound analyses fp (lookup_list wm fp) rm"
  using assms generate_sound by (fastforce simp: v4BuildRegionBoundedChainInputs_def Let_def)

lemma partition_members:
  assumes "(key, grp) \<in> set (snd (v4BuildRegionBoundedChainInputs wm analyses))" and "rm \<in> set grp"
  shows "rm \<in> set (fst (v4BuildRegionBoundedChainInputs wm analyses)) \<and>
    rs_LeftRegion rm = cp_LeftRegion key \<and> rs_RightRegion rm = cp_RightRegion key \<and>
    w_StartPos (m_Right (rs_Match rm)) = w_StartPos (m_Left (rs_Match rm)) + cp_Offset key"
proof -
  have mem: "rm \<in> set (fst (v4BuildRegionBoundedChainInputs wm analyses))" and key: "partitionKey rm = key"
    using assms by (auto simp: v4BuildRegionBoundedChainInputs_def Let_def sortRegionAnnotatedMatches_def
        dest!: group_by_entry)
  from inputs_sound [OF mem] have "rs_LeftRegion rm \<le> rs_RightRegion rm"
    by (auto simp: matchSound_def Let_def)
  then show ?thesis
    using mem key by (auto simp: partitionKey_def canonicalChainPairKey_ordered)
qed

lemma partition_sorted:
  assumes "(key, grp) \<in> set (snd (v4BuildRegionBoundedChainInputs wm analyses))"
  shows "sorted (map matchKey grp)"
  using assms seed_match_order.sort_slice_keys_sorted
  by (auto simp: v4BuildRegionBoundedChainInputs_def Let_def sortRegionAnnotatedMatches_def)

section \<open>Runs lose nothing\<close>

lemma concat_chainRuns: "concat (chainRuns current ms) = current @ ms"
  by (induction current ms rule: chainRuns.induct) auto

lemma chainRuns_nonempty: "run \<in> set (chainRuns current ms) \<Longrightarrow> run \<noteq> []"
  by (induction current ms rule: chainRuns.induct) (auto split: if_splits)

lemma chainRuns_successive:
  "successively canChain current \<Longrightarrow> run \<in> set (chainRuns current ms) \<Longrightarrow> successively canChain run"
proof (induction current ms rule: chainRuns.induct)
  case (2 current m ms)
  then show ?case
    by (auto simp: successively_append_iff split: if_splits)
qed (auto split: if_splits)

lemma fold_lo:
  "\<forall>m\<in>set ms. a \<le> f m \<Longrightarrow> fold (\<lambda>m acc. if f m < acc then f m else acc) ms (a::int) = a"
  by (induction ms) auto

lemma fold_hi:
  "sorted (a # map f ms) \<Longrightarrow> fold (\<lambda>m acc. if f m > acc then f m else acc) ms (a::int) = last (a # map f ms)"
  by (induction ms arbitrary: a) auto

text \<open>
  What a run of one partition looks like: windows of one width \<open>k + 1\<close>, one offset, left
  starts in ascending order, every match contiguous with the one before it.
\<close>

definition uniformMatch :: "int \<Rightarrow> int \<Rightarrow> seedMatch \<Rightarrow> bool" where
  "uniformMatch k offset m \<longleftrightarrow>
     w_EndPos (m_Left m) = w_StartPos (m_Left m) + k \<and>
     w_StartPos (m_Right m) = w_StartPos (m_Left m) + offset \<and>
     w_EndPos (m_Right m) = w_StartPos (m_Right m) + k"

definition uniformRun :: "int \<Rightarrow> int \<Rightarrow> seedMatch list \<Rightarrow> bool" where
  "uniformRun k offset ms \<longleftrightarrow> ms \<noteq> [] \<and> list_all (uniformMatch k offset) ms \<and>
     sorted (map (\<lambda>m. w_StartPos (m_Left m)) ms) \<and> successively canChain ms"

lemma finalize_uniform:
  assumes "uniformRun k offset ms"
  shows "\<exists>c. v4FinalizeChain ms = Some c \<and> ch_Matches c = ms \<and>
    r_StartPos (ch_LeftRange c) = w_StartPos (m_Left (hd ms)) \<and>
    r_EndPos (ch_LeftRange c) = w_EndPos (m_Left (last ms)) \<and>
    r_StartPos (ch_RightRange c) = r_StartPos (ch_LeftRange c) + offset \<and>
    r_EndPos (ch_RightRange c) = r_EndPos (ch_LeftRange c) + offset \<and>
    ch_TokenSpan c = r_EndPos (ch_LeftRange c) - r_StartPos (ch_LeftRange c) + 1 \<and>
    ch_ContentHash c = computeContentHash ms"
proof -
  obtain m0 rest where ms: "ms = m0 # rest"
    using assms by (cases ms) (auto simp: uniformRun_def)
  let ?ls = "\<lambda>m. w_StartPos (m_Left m)" and ?le = "\<lambda>m. w_EndPos (m_Left m)"
  let ?rs = "\<lambda>m. w_StartPos (m_Right m)" and ?re = "\<lambda>m. w_EndPos (m_Right m)"
  have u: "?le m = ?ls m + k" "?rs m = ?ls m + offset" "?re m = ?ls m + offset + k" if "m \<in> set ms" for m
    using assms that by (auto simp: uniformRun_def uniformMatch_def list_all_iff)
  have srt: "sorted (map ?ls ms)"
    using assms by (simp add: uniformRun_def)
  have srt': "sorted (map ?le ms)" "sorted (map ?rs ms)" "sorted (map ?re ms)"
    using srt by (auto simp: sorted_iff_nth_mono u)
  have lo: "fold (\<lambda>m acc. if f m < acc then f m else acc) ms (f m0) = f m0" if "sorted (map f ms)" for f :: "seedMatch \<Rightarrow> int"
    using that by (intro fold_lo) (auto simp: ms)
  have hi: "fold (\<lambda>m acc. if f m > acc then f m else acc) ms (f m0) = f (last ms)" if "sorted (map f ms)" for f :: "seedMatch \<Rightarrow> int"
    using that fold_hi [of "f m0" f ms] by (auto simp: ms last_map)
  have m0: "m0 \<in> set ms" "last ms \<in> set ms"
    by (simp_all add: ms)
  show ?thesis
    unfolding v4FinalizeChain_def ms list.case Let_def
    unfolding ms [symmetric] lo [OF srt] hi [OF srt'(1)] lo [OF srt'(2)] hi [OF srt'(3)]
    by (simp add: u [OF m0(1)] u [OF m0(2)]) (simp add: ms)
qed

section \<open>Chains stay inside their regions\<close>

definition wf_analyses :: "analysisMap \<Rightarrow> bool" where
  "wf_analyses analyses \<longleftrightarrow> (\<forall>(p, a)\<in>set analyses.
     length (a_TokenOwner a) = length (a_Tokens a) \<and>
     list_all (\<lambda>rid. rid_Path rid = '''' \<or> rid_Path rid = p) (a_TokenOwner a))"

definition windowWidth :: "int \<Rightarrow> windowMap \<Rightarrow> bool" where
  "windowWidth k wm \<longleftrightarrow> (\<forall>(fp, ws)\<in>set wm. \<forall>w\<in>set ws. w_EndPos w = w_StartPos w + k)"

definition rangeInRegion :: "analysisMap \<Rightarrow> tokenRange \<Rightarrow> v4SyntaxRegionID \<Rightarrow> bool" where
  "rangeInRegion analyses r rid \<longleftrightarrow>
     (case map_of analyses (rid_Path rid) of None \<Rightarrow> False
      | Some a \<Rightarrow> windowFitsRegion a (r_StartPos r) (r_EndPos r) = Some rid)"

lemma inRegion_fits:
  assumes "inRegion analyses w rid"
  obtains a where "map_of analyses (w_Path w) = Some a"
    and "windowFitsRegion a (w_StartPos w) (w_EndPos w) = Some rid"
  using assms by (auto simp: inRegion_def annotateRegion_def zeroRegionID_def split: option.splits)

lemma inRegion_path:
  assumes "inRegion analyses w rid" and "wf_analyses analyses"
  shows "w_Path w = rid_Path rid"
proof -
  obtain a where a: "map_of analyses (w_Path w) = Some a"
    and fit: "windowFitsRegion a (w_StartPos w) (w_EndPos w) = Some rid"
    using assms(1) by (rule inRegion_fits)
  have wf: "length (a_TokenOwner a) = length (a_Tokens a)"
    "\<forall>rid\<in>set (a_TokenOwner a). rid_Path rid = '''' \<or> rid_Path rid = w_Path w"
    using assms(2) map_of_SomeD [OF a] by (auto simp: wf_analyses_def list_all_iff)
  have "rid = a_TokenOwner a ! nat (w_StartPos w)" "nat (w_StartPos w) < length (a_TokenOwner a)"
    using fit wf(1) unfolding windowFitsRegion_iff by auto
  then have "rid \<in> set (a_TokenOwner a)"
    by simp
  with wf(2) fit show ?thesis
    unfolding windowFitsRegion_iff by auto
qed

lemma union_in_region:
  assumes "\<forall>w\<in>set ws. inRegion analyses w rid" and "wf_analyses analyses" and "ws \<noteq> []"
    and union: "(\<Union>w\<in>set ws. {w_StartPos w..w_EndPos w}) = {r_StartPos r..r_EndPos r}"
  shows "rangeInRegion analyses r rid"
proof -
  have path: "w_Path w = rid_Path rid" if "w \<in> set ws" for w
    using assms(1,2) that inRegion_path by blast
  obtain a where a: "map_of analyses (rid_Path rid) = Some a"
    using assms(1,3) path inRegion_fits by (metis list.set_intros(1) neq_Nil_conv)
  have fit: "windowFitsRegion a (w_StartPos w) (w_EndPos w) = Some rid" if "w \<in> set ws" for w
    using assms(1) that path [OF that] a by (metis inRegion_fits option.sel)
  have owner: "a_TokenOwner a ! nat i = rid \<and> 0 \<le> i \<and> i < int (length (a_Tokens a))"
    if i: "i \<in> {r_StartPos r..r_EndPos r}" for i
  proof -
    from i have "i \<in> (\<Union>w\<in>set ws. {w_StartPos w..w_EndPos w})"
      unfolding union .
    then obtain w where w: "w \<in> set ws" "w_StartPos w \<le> i" "i \<le> w_EndPos w"
      by auto
    with fit [OF w(1)] show ?thesis
      unfolding windowFitsRegion_iff by auto
  qed
  obtain w where w: "w \<in> set ws"
    using assms(3) by (meson list.set_sel(1))
  have "w_StartPos w \<in> {r_StartPos r..r_EndPos r}"
    using fit [OF w] union w unfolding windowFitsRegion_iff by force
  then have "r_StartPos r \<le> r_EndPos r"
    by auto
  with owner fit [OF w] have "windowFitsRegion a (r_StartPos r) (r_EndPos r) = Some rid"
    unfolding windowFitsRegion_iff by auto
  with a show ?thesis
    by (simp add: rangeInRegion_def)
qed

lemma partition_uniform:
  assumes "wf_analyses analyses" and "windowWidth k wm"
    and "(key, grp) \<in> set (snd (v4BuildRegionBoundedChainInputs wm analyses))"
  shows "list_all (uniformMatch k (cp_Offset key)) (map rs_Match grp) \<and>
    sorted (map (\<lambda>m. w_StartPos (m_Left m)) (map rs_Match grp)) \<and>
    (\<forall>m\<in>set (map rs_Match grp). inRegion analyses (m_Left m) (cp_LeftRegion key) \<and>
       inRegion analyses (m_Right m) (cp_RightRegion key))"
proof -
  have mem: "uniformMatch k (cp_Offset key) (rs_Match rm) \<and>
      inRegion analyses (m_Left (rs_Match rm)) (cp_LeftRegion key) \<and>
      inRegion analyses (m_Right (rs_Match rm)) (cp_RightRegion key)" if rm: "rm \<in> set grp" for rm
  proof -
    note pm = partition_members [OF assms(3) rm]
    from pm inputs_sound obtain fp where snd: "matchSound analyses fp (lookup_list wm fp) rm"
      by blast
    have "w_EndPos w = w_StartPos w + k" if "w \<in> set (lookup_list wm fp)" for w
      using lookup_list_mem [OF that] assms(2) by (auto simp: windowWidth_def)
    with snd pm show ?thesis
      by (auto simp: matchSound_def uniformMatch_def Let_def)
  qed
  have "w_Path (m_Left (rs_Match rm)) = rid_Path (cp_LeftRegion key)" if "rm \<in> set grp" for rm
    using mem [OF that] assms(1) inRegion_path by blast
  then have mono: "w_StartPos (m_Left (rs_Match a)) \<le> w_StartPos (m_Left (rs_Match b))"
    if "a \<in> set grp" "b \<in> set grp" "matchKey a \<le> matchKey b" for a b
    using that by (auto simp: matchKey_def)
  have "sorted (map (\<lambda>rm. w_StartPos (m_Left (rs_Match rm))) grp)"
    using partition_sorted [OF assms(3)] unfolding sorted_map by (rule sorted_wrt_mono_rel [rotated]) (rule mono)
  with mem show ?thesis
    by (auto simp: list_all_iff comp_def)
qed

lemma chainRuns_sorted_sublist:
  fixes f :: "seedMatch \<Rightarrow> int"
  assumes "run \<in> set (chainRuns [] ms)"
  shows "set run \<subseteq> set ms \<and> (sorted (map f ms) \<longrightarrow> sorted (map f run))"
proof -
  obtain xs ys where "chainRuns [] ms = xs @ run # ys"
    using assms by (meson split_list)
  then have "ms = concat xs @ run @ concat ys"
    using concat_chainRuns [of "[]" ms] by simp
  then show ?thesis
    by (auto simp: sorted_append)
qed

definition leftUnion :: "cloneChain \<Rightarrow> int set" where
  "leftUnion c = (\<Union>m\<in>set (ch_Matches c). {w_StartPos (m_Left m)..w_EndPos (m_Left m)})"

definition rightUnion :: "cloneChain \<Rightarrow> int set" where
  "rightUnion c = (\<Union>m\<in>set (ch_Matches c). {w_StartPos (m_Right m)..w_EndPos (m_Right m)})"

lemma finalize_run:
  assumes "uniformRun k offset run"
  shows "\<exists>c. v4FinalizeChain run = Some c \<and> ch_Matches c = run \<and>
    r_StartPos (ch_RightRange c) = r_StartPos (ch_LeftRange c) + offset \<and>
    r_EndPos (ch_RightRange c) = r_EndPos (ch_LeftRange c) + offset \<and>
    ch_TokenSpan c = r_EndPos (ch_LeftRange c) - r_StartPos (ch_LeftRange c) + 1 \<and>
    leftUnion c = {r_StartPos (ch_LeftRange c)..r_EndPos (ch_LeftRange c)} \<and>
    rightUnion c = {r_StartPos (ch_RightRange c)..r_EndPos (ch_RightRange c)}"
proof -
  from finalize_uniform [OF assms] obtain c where c: "v4FinalizeChain run = Some c" "ch_Matches c = run"
    "r_StartPos (ch_LeftRange c) = w_StartPos (m_Left (hd run))"
    "r_EndPos (ch_LeftRange c) = w_EndPos (m_Left (last run))"
    "r_StartPos (ch_RightRange c) = r_StartPos (ch_LeftRange c) + offset"
    "r_EndPos (ch_RightRange c) = r_EndPos (ch_LeftRange c) + offset"
    "ch_TokenSpan c = r_EndPos (ch_LeftRange c) - r_StartPos (ch_LeftRange c) + 1"
    by blast
  have ne: "run \<noteq> []" and srt: "sorted (map (\<lambda>m. w_StartPos (m_Left m)) run)"
    and u: "list_all (uniformMatch k offset) run" and ch: "successively canChain run"
    using assms by (simp_all add: uniformRun_def)
  have um: "w_EndPos (m_Left m) = w_StartPos (m_Left m) + k" "w_StartPos (m_Right m) = w_StartPos (m_Left m) + offset"
    "w_EndPos (m_Right m) = w_StartPos (m_Left m) + offset + k" if "m \<in> set run" for m
    using u that by (auto simp: list_all_iff uniformMatch_def)
  have srt': "sorted (map (\<lambda>m. w_EndPos (m_Left m)) run)" "sorted (map (\<lambda>m. w_StartPos (m_Right m)) run)"
    "sorted (map (\<lambda>m. w_EndPos (m_Right m)) run)"
    using srt by (auto simp: sorted_iff_nth_mono um)
  have suc: "successively (\<lambda>p m. w_StartPos (m_Left m) \<le> w_EndPos (m_Left p) + 1) run"
    "successively (\<lambda>p m. w_StartPos (m_Right m) \<le> w_EndPos (m_Right p) + 1) run"
    by (rule successively_mono [OF ch], simp add: canChain_def)+
  have "leftUnion c = {r_StartPos (ch_LeftRange c)..r_EndPos (ch_LeftRange c)}"
    using contiguous_union [OF ne srt srt'(1) suc(1)] c by (simp add: leftUnion_def)
  moreover have "rightUnion c = {r_StartPos (ch_RightRange c)..r_EndPos (ch_RightRange c)}"
    using contiguous_union [OF ne srt'(2,3) suc(2)] c um ne by (simp add: rightUnion_def)
  ultimately show ?thesis
    using c by blast
qed

text \<open>
  chain construction loses no seed match and respects regions.  For windows of one width,
  the chains built from a partition contain together exactly the matches of the partition, in order;
  each chain covers on both sides exactly the tokens of its windows, without gaps, the right range
  is the left range shifted by the offset of the partition, and each side lies inside the region the
  partition key names.
\<close>

theorem partition_chains_lossless:
  assumes "wf_analyses analyses" and "windowWidth k wm"
    and "(key, grp) \<in> set (snd (v4BuildRegionBoundedChainInputs wm analyses))"
  shows "concat (map ch_Matches (extendRegionBoundedChain grp)) = map rs_Match grp \<and>
    (\<forall>c\<in>set (extendRegionBoundedChain grp).
      leftUnion c = {r_StartPos (ch_LeftRange c)..r_EndPos (ch_LeftRange c)} \<and>
      rightUnion c = {r_StartPos (ch_RightRange c)..r_EndPos (ch_RightRange c)} \<and>
      r_StartPos (ch_RightRange c) = r_StartPos (ch_LeftRange c) + cp_Offset key \<and>
      r_EndPos (ch_RightRange c) = r_EndPos (ch_LeftRange c) + cp_Offset key \<and>
      rangeInRegion analyses (ch_LeftRange c) (cp_LeftRegion key) \<and>
      rangeInRegion analyses (ch_RightRange c) (cp_RightRegion key))"
proof -
  let ?ms = "map rs_Match grp"
  note pu = partition_uniform [OF assms]
  have run: "uniformRun k (cp_Offset key) run" if "run \<in> set (chainRuns [] ?ms)" for run
    using pu chainRuns_sorted_sublist [OF that, of "\<lambda>m. w_StartPos (m_Left m)"] chainRuns_nonempty [OF that]
      chainRuns_successive [OF _ that] by (auto simp: uniformRun_def list_all_iff)
  have fin: "v4FinalizeChain run = Some ((the \<circ> v4FinalizeChain) run)" if "run \<in> set (chainRuns [] ?ms)" for run
    using finalize_run [OF run [OF that]] by (auto simp del: split_paired_Ex)
  have fin': "(ch_Matches \<circ> (the \<circ> v4FinalizeChain)) run = run" if "run \<in> set (chainRuns [] ?ms)" for run
    using finalize_run [OF run [OF that]] by (auto simp del: split_paired_Ex)
  have ext: "extendRegionBoundedChain grp = map (the \<circ> v4FinalizeChain) (chainRuns [] ?ms)"
    unfolding extendRegionBoundedChain_def by (rule map_filter_total) (rule fin)
  have "map ch_Matches (extendRegionBoundedChain grp) = chainRuns [] ?ms"
    unfolding ext map_map by (rule map_idI) (rule fin')
  then have "concat (map ch_Matches (extendRegionBoundedChain grp)) = ?ms"
    by (simp add: concat_chainRuns)
  moreover have "leftUnion c = {r_StartPos (ch_LeftRange c)..r_EndPos (ch_LeftRange c)} \<and>
      rightUnion c = {r_StartPos (ch_RightRange c)..r_EndPos (ch_RightRange c)} \<and>
      r_StartPos (ch_RightRange c) = r_StartPos (ch_LeftRange c) + cp_Offset key \<and>
      r_EndPos (ch_RightRange c) = r_EndPos (ch_LeftRange c) + cp_Offset key \<and>
      rangeInRegion analyses (ch_LeftRange c) (cp_LeftRegion key) \<and>
      rangeInRegion analyses (ch_RightRange c) (cp_RightRegion key)"
    if c: "c \<in> set (extendRegionBoundedChain grp)" for c
  proof -
    obtain r where r: "r \<in> set (chainRuns [] ?ms)" "c = the (v4FinalizeChain r)"
      using c ext by auto
    from finalize_run [OF run [OF r(1)]] r(2) have fr: "ch_Matches c = r"
      "leftUnion c = {r_StartPos (ch_LeftRange c)..r_EndPos (ch_LeftRange c)}"
      "rightUnion c = {r_StartPos (ch_RightRange c)..r_EndPos (ch_RightRange c)}"
      "r_StartPos (ch_RightRange c) = r_StartPos (ch_LeftRange c) + cp_Offset key"
      "r_EndPos (ch_RightRange c) = r_EndPos (ch_LeftRange c) + cp_Offset key"
      by auto
    have sub: "set r \<subseteq> set ?ms" and ne: "r \<noteq> []"
      using chainRuns_sorted_sublist [OF r(1), of "\<lambda>m. 0"] chainRuns_nonempty [OF r(1)] by auto
    have "rangeInRegion analyses (ch_LeftRange c) (cp_LeftRegion key)"
      by (rule union_in_region [of "map m_Left r"])
        (use pu sub ne fr(1,2) assms(1) in \<open>auto simp: leftUnion_def\<close>)
    moreover have "rangeInRegion analyses (ch_RightRange c) (cp_RightRegion key)"
      by (rule union_in_region [of "map m_Right r"])
        (use pu sub ne fr(1,3) assms(1) in \<open>auto simp: rightUnion_def\<close>)
    ultimately show ?thesis
      using fr by blast
  qed
  ultimately show ?thesis
    by blast
qed

definition demoWindow :: "string \<Rightarrow> int \<Rightarrow> rawWindow" where
  "demoWindow path start = \<lparr>w_Path = path, w_StartLine = 1, w_EndLine = 3, w_StartPos = start, w_EndPos = start + 2\<rparr>"

definition demoWM :: windowMap where
  "demoWM = [(''y'', [demoWindow ''a.go'' 2, demoWindow ''b.go'' 2]),
             (''x'', [demoWindow ''a.go'' 1, demoWindow ''b.go'' 1])]"

definition demoAnalyses :: analysisMap where
  "demoAnalyses = [(''a.go'', demoAnalysis), (''b.go'', rebaseV4AnalysisPath ''b.go'' demoAnalysis)]"

definition demoKey :: v4ChainPairKey where
  "demoKey = ChainPairKey (RegionID ''a.go'' 0) (RegionID ''b.go'' 0) 0"

lemma demo_partition:
  "map (\<lambda>(key, grp). (key, length grp)) (snd (v4BuildRegionBoundedChainInputs demoWM demoAnalyses)) = [(demoKey, 2)]"
  by code_simp

lemma demo_wf: "wf_analyses demoAnalyses" "windowWidth 2 demoWM"
  by code_simp+

theorem partition_chains_lossless_witness:
  "\<exists>grp. (demoKey, grp) \<in> set (snd (v4BuildRegionBoundedChainInputs demoWM demoAnalyses)) \<and> length grp = 2 \<and>
     concat (map ch_Matches (extendRegionBoundedChain grp)) = map rs_Match grp"
proof -
  obtain grp where "(demoKey, grp) \<in> set (snd (v4BuildRegionBoundedChainInputs demoWM demoAnalyses))" "length grp = 2"
    using demo_partition by auto
  with partition_chains_lossless [OF demo_wf] show ?thesis
    by blast
qed

section \<open>The diagonal fast path\<close>

lemma aligned_positions:
  assumes "regionsArePositionallyAligned wsA wsB"
  shows "list_all2 (\<lambda>a b. w_StartPos b - w_StartPos a = w_StartPos (hd wsB) - w_StartPos (hd wsA) \<and>
    w_EndPos b - w_StartPos b = w_EndPos a - w_StartPos a) wsA wsB"
proof (cases wsA)
  case Nil
  with assms show ?thesis
    by (auto simp: regionsArePositionallyAligned_def split: if_splits)
next
  case (Cons a0 restA)
  with assms obtain b0 restB where "wsB = b0 # restB"
    by (cases wsB) (auto simp: regionsArePositionallyAligned_def)
  with Cons assms show ?thesis
    by (auto simp: regionsArePositionallyAligned_def split: if_splits elim!: list_all2_mono)
qed

text \<open>
  the diagonal fast path is a sound replacement of the all-pairs fallback.  When the guard
  accepts two regions, the diagonal matches are all-pairs matches, they share one offset and equal
  widths, so they fall into one partition, and every window of either region takes part in one.
\<close>

theorem diagonal_fast_path_sound:
  assumes "regionsArePositionallyAligned wsA wsB" and "ridA < ridB"
  shows "set (emitCrossRegionDiagonalMatches fp ridA ridB wsA wsB) \<subseteq>
      set (emitCrossRegionAllPairsMatches fp ridA ridB wsA wsB) \<and>
    (\<exists>key. \<forall>rm\<in>set (emitCrossRegionDiagonalMatches fp ridA ridB wsA wsB). partitionKey rm = key) \<and>
    map (\<lambda>rm. m_Left (rs_Match rm)) (emitCrossRegionDiagonalMatches fp ridA ridB wsA wsB) = wsA \<and>
    map (\<lambda>rm. m_Right (rs_Match rm)) (emitCrossRegionDiagonalMatches fp ridA ridB wsA wsB) = wsB"
proof -
  have len: "length wsA = length wsB"
    using aligned_positions [OF assms(1)] by (rule list_all2_lengthD)
  have cross: "crossMatch fp ridA ridB wA wB = regionMatch fp wA wB ridA ridB" for wA wB
    using assms(2) by (simp add: crossMatch_def regionAfter_iff)
  have diag: "emitCrossRegionDiagonalMatches fp ridA ridB wsA wsB =
      map (\<lambda>(wA, wB). regionMatch fp wA wB ridA ridB) (zip wsA wsB)"
    by (simp add: emitCrossRegionDiagonalMatches_def cross)
  have "partitionKey (regionMatch fp wA wB ridA ridB) =
      ChainPairKey ridA ridB (w_StartPos (hd wsB) - w_StartPos (hd wsA))" if "(wA, wB) \<in> set (zip wsA wsB)" for wA wB
    using that aligned_positions [OF assms(1)] assms(2)
    by (auto simp: partitionKey_def regionMatch_def canonicalChainPairKey_ordered list_all2_iff)
  then have "\<forall>rm\<in>set (emitCrossRegionDiagonalMatches fp ridA ridB wsA wsB).
      partitionKey rm = ChainPairKey ridA ridB (w_StartPos (hd wsB) - w_StartPos (hd wsA))"
    by (auto simp: diag)
  moreover have "set (emitCrossRegionDiagonalMatches fp ridA ridB wsA wsB) \<subseteq>
      set (emitCrossRegionAllPairsMatches fp ridA ridB wsA wsB)"
    by (auto simp: emitCrossRegionDiagonalMatches_def emitCrossRegionAllPairsMatches_def elim!: in_set_zipE)
  moreover have "map (\<lambda>rm. m_Left (rs_Match rm)) (emitCrossRegionDiagonalMatches fp ridA ridB wsA wsB) = wsA"
    "map (\<lambda>rm. m_Right (rs_Match rm)) (emitCrossRegionDiagonalMatches fp ridA ridB wsA wsB) = wsB"
    using len by (simp_all add: diag split_beta regionMatch_def comp_def map_fst_zip [unfolded comp_def])
  ultimately show ?thesis
    by blast
qed

theorem diagonal_fast_path_sound_witness:
  "map (\<lambda>rm. m_Right (rs_Match rm)) (emitCrossRegionDiagonalMatches ''x'' (RegionID ''a.go'' 0) (RegionID ''b.go'' 2)
      [demoWindow ''a.go'' 1, demoWindow ''a.go'' 9] [demoWindow ''b.go'' 5, demoWindow ''b.go'' 13]) =
    [demoWindow ''b.go'' 5, demoWindow ''b.go'' 13]"
proof -
  have "regionsArePositionallyAligned [demoWindow ''a.go'' 1, demoWindow ''a.go'' 9]
      [demoWindow ''b.go'' 5, demoWindow ''b.go'' 13]"
    by (simp add: regionsArePositionallyAligned_def demoWindow_def)
  moreover have "RegionID ''a.go'' 0 < RegionID ''b.go'' 2"
    by code_simp
  ultimately show ?thesis
    using diagonal_fast_path_sound by blast
qed

end
