(* ===== verification/Dup_Shadow.thy ===== *)
theory Dup_Shadow
  imports Dup_Chains "HOL-Library.Sublist"
begin

text \<open>
  Shadow suppression: \<open>v4_shadow_key.go\<close> and \<open>v4_shadow_suppression.go\<close>.  Inside one
  group of chains the code keeps a mutable \<open>shadow\<close> flag per member; here the flags are a
  \<open>bool list\<close> threaded through the three passes in the order the code runs them.

  The lemmas describe the flags after all passes: what survives is irreducible, and what is dropped
  lies inside a chain that survives or inside an overlapping self-match of one file.
\<close>

section \<open>Group keys\<close>

definition chainPaths :: "cloneChain \<Rightarrow> string \<times> string" where
  "chainPaths c =
     (case ch_Matches c of [] \<Rightarrow> ('''', '''')
      | m # _ \<Rightarrow>
        let leftPath = w_Path (m_Left m); rightPath = w_Path (m_Right m);
            leftStart = w_StartPos (m_Left m); rightStart = w_StartPos (m_Right m)
        in if leftPath > rightPath \<or> leftPath = rightPath \<and> leftStart > rightStart
           then (rightPath, leftPath) else (leftPath, rightPath))"

definition regionOrdinalOf :: "analysisMap option \<Rightarrow> string \<Rightarrow> tokenRange \<Rightarrow> int" where
  "regionOrdinalOf analyses path r =
     (case analyses of None \<Rightarrow> -1
      | Some m \<Rightarrow> (case map_of m path of None \<Rightarrow> -1
         | Some a \<Rightarrow> (case windowFitsRegion a (r_StartPos r) (r_EndPos r) of
             None \<Rightarrow> -1 | Some rid \<Rightarrow> rid_Ordinal rid)))"

definition chainPairKeyForChain :: "cloneChain \<Rightarrow> analysisMap option \<Rightarrow> v4ShadowGroupKey" where
  "chainPairKeyForChain c analyses =
     (let (leftPath, rightPath) = chainPaths c;
          leftStart = r_StartPos (ch_LeftRange c); rightStart = r_StartPos (ch_RightRange c);
          leftRegion = regionOrdinalOf analyses leftPath (ch_LeftRange c);
          rightRegion = regionOrdinalOf analyses rightPath (ch_RightRange c)
      in if leftPath > rightPath \<or> leftPath = rightPath \<and> leftStart > rightStart
         then ShadowKey rightPath rightRegion leftPath leftRegion
         else ShadowKey leftPath leftRegion rightPath rightRegion)"

definition isWithinFileChain :: "cloneChain \<Rightarrow> bool" where
  "isWithinFileChain c = (let (leftPath, rightPath) = chainPaths c in leftPath = rightPath)"

section \<open>Relations between chains\<close>

datatype chainRangeRelation =
  chainRangeUnrelated | chainRangeStrictlyContains | chainRangeEqual | chainRangeIncomparableOverlap

definition chainContainsRange :: "cloneChain \<Rightarrow> cloneChain \<Rightarrow> bool" where
  "chainContainsRange outer inner =
     (if r_StartPos (ch_LeftRange inner) < r_StartPos (ch_LeftRange outer) then False
      else if r_EndPos (ch_LeftRange inner) > r_EndPos (ch_LeftRange outer) then False
      else if r_StartPos (ch_RightRange inner) < r_StartPos (ch_RightRange outer) then False
      else if r_EndPos (ch_RightRange inner) > r_EndPos (ch_RightRange outer) then False
      else r_StartPos (ch_LeftRange inner) \<noteq> r_StartPos (ch_LeftRange outer) \<or>
        r_EndPos (ch_LeftRange inner) \<noteq> r_EndPos (ch_LeftRange outer) \<or>
        r_StartPos (ch_RightRange inner) \<noteq> r_StartPos (ch_RightRange outer) \<or>
        r_EndPos (ch_RightRange inner) \<noteq> r_EndPos (ch_RightRange outer))"

definition chainRangeRelationBetween :: "cloneChain \<Rightarrow> cloneChain \<Rightarrow> chainRangeRelation" where
  "chainRangeRelationBetween outer inner =
     (let ol = ch_LeftRange outer; il = ch_LeftRange inner;
          orr = ch_RightRange outer; irr = ch_RightRange inner;
          leftContainsStart = r_StartPos il \<ge> r_StartPos ol;
          leftContainsEnd = r_EndPos il \<le> r_EndPos ol;
          rightContainsStart = r_StartPos irr \<ge> r_StartPos orr;
          rightContainsEnd = r_EndPos irr \<le> r_EndPos orr;
          strictLeft = (r_StartPos il > r_StartPos ol \<or> r_EndPos il < r_EndPos ol);
          strictRight = (r_StartPos irr > r_StartPos orr \<or> r_EndPos irr < r_EndPos orr);
          leftEqual = (r_StartPos il = r_StartPos ol \<and> r_EndPos il = r_EndPos ol);
          rightEqual = (r_StartPos irr = r_StartPos orr \<and> r_EndPos irr = r_EndPos orr)
      in if leftEqual \<and> rightEqual then chainRangeEqual
         else if leftContainsStart \<and> leftContainsEnd \<and> rightContainsStart \<and> rightContainsEnd
         then (if strictLeft \<or> strictRight then chainRangeStrictlyContains else chainRangeUnrelated)
         else if tokenRangesOverlap (r_StartPos ol) (r_EndPos ol) (r_StartPos il) (r_EndPos il) \<or>
           tokenRangesOverlap (r_StartPos orr) (r_EndPos orr) (r_StartPos irr) (r_EndPos irr)
         then chainRangeIncomparableOverlap
         else chainRangeUnrelated)"

definition chainContentHash :: "cloneChain \<Rightarrow> string" where
  "chainContentHash c =
     (if ch_ContentHash c \<noteq> '''' then ch_ContentHash c else computeContentHash (ch_Matches c))"

definition canonicalChainString :: "cloneChain \<Rightarrow> string" where
  "canonicalChainString c =
     join ''|'' [ch_PathSet c,
       ''l='' @ itoa (r_StartPos (ch_LeftRange c)) @ ''-'' @ itoa (r_EndPos (ch_LeftRange c)),
       ''r='' @ itoa (r_StartPos (ch_RightRange c)) @ ''-'' @ itoa (r_EndPos (ch_RightRange c))]"

definition deterministicEqualTieBreak :: "cloneChain \<Rightarrow> cloneChain \<Rightarrow> nat \<Rightarrow> nat \<Rightarrow> bool" where
  "deterministicEqualTieBreak a b aOrdinal bOrdinal =
     (if ch_Offset a \<noteq> ch_Offset b then ch_Offset a < ch_Offset b
      else if ch_TokenSpan a \<noteq> ch_TokenSpan b then ch_TokenSpan a < ch_TokenSpan b
      else if ch_LineSpan a \<noteq> ch_LineSpan b then ch_LineSpan a < ch_LineSpan b
      else if chainContentHash a \<noteq> chainContentHash b then chainContentHash a < chainContentHash b
      else if aOrdinal \<noteq> bOrdinal then aOrdinal < bOrdinal
      else canonicalChainString a < canonicalChainString b)"

section \<open>The passes over one group\<close>

type_synonym shadowRef = "nat \<times> cloneChain"

definition memberLess :: "shadowRef \<Rightarrow> shadowRef \<Rightarrow> bool" where
  "memberLess a b =
     (if r_StartPos (ch_LeftRange (snd a)) \<noteq> r_StartPos (ch_LeftRange (snd b))
      then r_StartPos (ch_LeftRange (snd a)) < r_StartPos (ch_LeftRange (snd b))
      else if r_EndPos (ch_LeftRange (snd a)) \<noteq> r_EndPos (ch_LeftRange (snd b))
      then r_EndPos (ch_LeftRange (snd a)) < r_EndPos (ch_LeftRange (snd b))
      else fst a < fst b)"

definition equalPassInner :: "shadowRef list \<Rightarrow> nat \<Rightarrow> nat \<Rightarrow> bool list \<Rightarrow> bool list" where
  "equalPassInner ms i j sh =
     (if sh ! j then sh
      else case chainRangeRelationBetween (snd (ms ! i)) (snd (ms ! j)) of
        chainRangeEqual \<Rightarrow>
          if \<not> deterministicEqualTieBreak (snd (ms ! i)) (snd (ms ! j)) (fst (ms ! i)) (fst (ms ! j))
          then sh[i := True] else sh[j := True]
      | chainRangeStrictlyContains \<Rightarrow> sh[j := True]
      | _ \<Rightarrow> sh)"

definition equalPassOuter :: "shadowRef list \<Rightarrow> nat \<Rightarrow> bool list \<Rightarrow> bool list" where
  "equalPassOuter ms i sh = (if sh ! i then sh else fold (equalPassInner ms i) [Suc i..<length ms] sh)"

definition equalPass :: "shadowRef list \<Rightarrow> bool list \<Rightarrow> bool list" where
  "equalPass ms sh = fold (equalPassOuter ms) [0..<length ms] sh"

definition selfOverlap :: "cloneChain \<Rightarrow> bool" where
  "selfOverlap c = tokenRangesOverlap (r_StartPos (ch_LeftRange c)) (r_EndPos (ch_LeftRange c))
     (r_StartPos (ch_RightRange c)) (r_EndPos (ch_RightRange c))"

definition selfOverlapPass :: "shadowRef list \<Rightarrow> bool list \<Rightarrow> bool list" where
  "selfOverlapPass ms sh =
     (case ms of [] \<Rightarrow> sh
      | m0 # _ \<Rightarrow>
        if isWithinFileChain (snd m0)
        then map2 (\<lambda>m s. if s then s else selfOverlap (snd m)) ms sh else sh)"

definition containmentStep :: "shadowRef list \<Rightarrow> nat \<Rightarrow> bool list \<Rightarrow> bool list" where
  "containmentStep ms i sh =
     (if sh ! i then sh
      else if list_ex (\<lambda>j. j \<noteq> i \<and> \<not> sh ! j \<and> chainContainsRange (snd (ms ! j)) (snd (ms ! i))) [0..<length ms]
      then sh[i := True] else sh)"

definition containmentPass :: "shadowRef list \<Rightarrow> bool list \<Rightarrow> bool list" where
  "containmentPass ms sh = fold (containmentStep ms) [0..<length ms] sh"

definition groupShadows :: "shadowRef list \<Rightarrow> bool list" where
  "groupShadows ms =
     containmentPass ms (selfOverlapPass ms (equalPass ms (replicate (length ms) False)))"

definition sortedMembers :: "shadowRef list \<Rightarrow> shadowRef list" where
  "sortedMembers ms = sort_slice memberLess ms"

text \<open>The indexes of a group that survive.\<close>

definition groupSurvivors :: "shadowRef list \<Rightarrow> nat list" where
  "groupSurvivors ms =
     (let members = sortedMembers ms
      in map (fst \<circ> fst) (filter (\<lambda>(m, s). \<not> s) (zip members (groupShadows members))))"

definition v4SuppressShadowChainsRegionBounded :: "cloneChain list \<Rightarrow> analysisMap option \<Rightarrow> cloneChain list" where
  "v4SuppressShadowChainsRegionBounded cs analyses =
     (if cs = [] then []
      else let groups = group_by (\<lambda>(i, c). chainPairKeyForChain c analyses) id (enumerate 0 cs)
      in map snd (filter (\<lambda>(i, c).
           i \<in> set (groupSurvivors (lookup_list groups (chainPairKeyForChain c analyses))))
         (enumerate 0 cs)))"

definition v4SuppressShadowChains :: "cloneChain list \<Rightarrow> cloneChain list" where
  "v4SuppressShadowChains cs = v4SuppressShadowChainsRegionBounded cs None"

section \<open>Relations as orders on ranges\<close>

definition ranges :: "cloneChain \<Rightarrow> int \<times> int \<times> int \<times> int" where
  "ranges c = (r_StartPos (ch_LeftRange c), r_EndPos (ch_LeftRange c),
     r_StartPos (ch_RightRange c), r_EndPos (ch_RightRange c))"

definition within :: "cloneChain \<Rightarrow> cloneChain \<Rightarrow> bool" where
  "within inner outer \<longleftrightarrow>
     r_StartPos (ch_LeftRange outer) \<le> r_StartPos (ch_LeftRange inner) \<and>
     r_EndPos (ch_LeftRange inner) \<le> r_EndPos (ch_LeftRange outer) \<and>
     r_StartPos (ch_RightRange outer) \<le> r_StartPos (ch_RightRange inner) \<and>
     r_EndPos (ch_RightRange inner) \<le> r_EndPos (ch_RightRange outer)"

lemma within_refl [simp]: "within c c"
  by (simp add: within_def)

lemma within_trans: "within a b \<Longrightarrow> within b c \<Longrightarrow> within a c"
  by (auto simp: within_def)

lemma ranges_eq_within: "ranges a = ranges b \<Longrightarrow> within a b"
  by (simp add: ranges_def within_def)

lemma chainContainsRange_iff: "chainContainsRange outer inner \<longleftrightarrow> within inner outer \<and> ranges inner \<noteq> ranges outer"
  by (auto simp: chainContainsRange_def within_def ranges_def)

lemma relation_equal_iff: "chainRangeRelationBetween a b = chainRangeEqual \<longleftrightarrow> ranges a = ranges b"
  by (auto simp: chainRangeRelationBetween_def Let_def ranges_def)

lemma relation_contains_iff:
  "chainRangeRelationBetween a b = chainRangeStrictlyContains \<longleftrightarrow> chainContainsRange a b"
  unfolding chainContainsRange_iff
  by (auto simp: chainRangeRelationBetween_def Let_def ranges_def within_def)

section \<open>What the passes leave\<close>

text \<open>Flags only go up, and the passes never change the number of flags.\<close>

definition flagsUp :: "bool list \<Rightarrow> bool list \<Rightarrow> bool" where
  "flagsUp sh sh' \<longleftrightarrow> length sh' = length sh \<and> (\<forall>i < length sh. sh ! i \<longrightarrow> sh' ! i)"

lemma flagsUp_refl: "flagsUp sh sh"
  by (simp add: flagsUp_def)

lemma flagsUp_trans: "flagsUp a b \<Longrightarrow> flagsUp b c \<Longrightarrow> flagsUp a c"
  by (simp add: flagsUp_def)

lemma flagsUp_update: "flagsUp sh (sh[i := True])"
  by (simp add: flagsUp_def) (metis nth_list_update_eq nth_list_update_neq)

lemma flagsUp_fold: "(\<And>x sh. flagsUp sh (f x sh)) \<Longrightarrow> flagsUp sh (fold f xs sh)"
  by (induction xs arbitrary: sh) (auto intro: flagsUp_refl flagsUp_trans)

lemma flagsUp_equalPassInner: "flagsUp sh (equalPassInner ms i j sh)"
  by (auto simp: equalPassInner_def flagsUp_refl flagsUp_update split: chainRangeRelation.split)

lemma flagsUp_equalPassOuter: "flagsUp sh (equalPassOuter ms i sh)"
  by (auto simp: equalPassOuter_def flagsUp_refl intro: flagsUp_fold flagsUp_equalPassInner)

lemma flagsUp_containmentStep: "flagsUp sh (containmentStep ms i sh)"
  by (auto simp: containmentStep_def flagsUp_refl flagsUp_update)

lemma flagsUp_passes:
  "flagsUp sh (equalPass ms sh)" "flagsUp sh (containmentPass ms sh)"
  "length sh = length ms \<Longrightarrow> flagsUp sh (selfOverlapPass ms sh)"
  by (auto simp: equalPass_def containmentPass_def intro: flagsUp_fold flagsUp_equalPassOuter flagsUp_containmentStep)
    (auto simp: selfOverlapPass_def flagsUp_def split: list.split)

text \<open>
  A step that looks at position \<open>x\<close> leaves a fact about the final flags, because flags only
  go up: if the fact holds after the step whenever it is still open, it holds at the end.
\<close>

lemma fold_visits:
  assumes up: "\<And>y sh. flagsUp sh (f y sh)" and x: "x \<in> set xs"
    and step: "\<And>sh'. length sh' = length sh \<Longrightarrow> flagsUp (f x sh') (fold f xs sh) \<Longrightarrow> flagsUp sh' (fold f xs sh) \<Longrightarrow> P"
  shows P
proof -
  obtain as bs where xs: "xs = as @ x # bs"
    using x by (meson split_list)
  let ?s = "fold f as sh"
  have "fold f xs sh = fold f bs (f x ?s)"
    by (simp add: xs)
  moreover have "flagsUp (f x ?s) (fold f bs (f x ?s))" "flagsUp ?s (f x ?s)"
    by (rule flagsUp_fold [OF up], rule up)
  moreover have "length ?s = length sh"
    using flagsUp_fold [of f sh as] up by (simp add: flagsUp_def)
  ultimately show P
    using step [of ?s] flagsUp_trans by metis
qed

lemma equalPass_result:
  assumes "length sh = length ms" and "i < j" and "j < length ms"
    and "\<not> equalPass ms sh ! i" and "\<not> equalPass ms sh ! j"
  shows "ranges (snd (ms ! i)) \<noteq> ranges (snd (ms ! j)) \<and> \<not> chainContainsRange (snd (ms ! i)) (snd (ms ! j))"
proof (rule fold_visits [where f = "equalPassOuter ms" and x = i and xs = "[0..<length ms]" and sh = sh])
  show "flagsUp sh (equalPassOuter ms y sh)" for y sh
    by (rule flagsUp_equalPassOuter)
  show "i \<in> set [0..<length ms]"
    using assms(2,3) by simp
next
  fix sh1
  assume len: "length sh1 = length sh" and up: "flagsUp (equalPassOuter ms i sh1) (fold (equalPassOuter ms) [0..<length ms] sh)"
    "flagsUp sh1 (fold (equalPassOuter ms) [0..<length ms] sh)"
  note fin = assms(4,5) [unfolded equalPass_def]
  have i: "\<not> sh1 ! i"
    using up(2) fin(1) len assms by (auto simp: flagsUp_def)
  let ?e = "fold (equalPassInner ms i) [Suc i..<length ms] sh1"
  have outer: "equalPassOuter ms i sh1 = ?e"
    using i by (simp add: equalPassOuter_def)
  have e: "\<not> ?e ! i" "\<not> ?e ! j" "length ?e = length ms"
    using up(1) fin len assms flagsUp_fold [of "equalPassInner ms i" sh1 "[Suc i..<length ms]"] flagsUp_equalPassInner
    by (auto simp: outer flagsUp_def)
  show ?thesis
  proof (rule fold_visits [where f = "equalPassInner ms i" and x = j and xs = "[Suc i..<length ms]" and sh = sh1])
    show "flagsUp sh (equalPassInner ms i y sh)" for y sh
      by (rule flagsUp_equalPassInner)
    show "j \<in> set [Suc i..<length ms]"
      using assms(2,3) by simp
  next
    fix sh2
    assume "length sh2 = length sh1" and "flagsUp (equalPassInner ms i j sh2) ?e" and "flagsUp sh2 ?e"
    then have "\<not> equalPassInner ms i j sh2 ! i" "\<not> equalPassInner ms i j sh2 ! j" "\<not> sh2 ! j" "length sh2 = length ms"
      using e len assms flagsUp_equalPassInner [of sh2 ms i j] by (auto simp: flagsUp_def)
    then show ?thesis
      using assms(2,3) relation_equal_iff [of "snd (ms ! i)" "snd (ms ! j)"]
        relation_contains_iff [of "snd (ms ! i)" "snd (ms ! j)"]
      by (auto simp: equalPassInner_def split: chainRangeRelation.splits if_splits)
  qed
qed

lemma containmentPass_result:
  assumes "length sh = length ms" and "i < length ms" and "j < length ms" and "i \<noteq> j"
    and "\<not> containmentPass ms sh ! i" and "\<not> containmentPass ms sh ! j"
  shows "\<not> chainContainsRange (snd (ms ! j)) (snd (ms ! i))"
proof (rule fold_visits [where f = "containmentStep ms" and x = i and xs = "[0..<length ms]" and sh = sh])
  show "flagsUp sh (containmentStep ms y sh)" for y sh
    by (rule flagsUp_containmentStep)
  show "i \<in> set [0..<length ms]"
    using assms(2) by simp
next
  fix sh'
  assume "length sh' = length sh" and "flagsUp (containmentStep ms i sh') (fold (containmentStep ms) [0..<length ms] sh)"
    and "flagsUp sh' (fold (containmentStep ms) [0..<length ms] sh)"
  then have "\<not> sh' ! i" "\<not> sh' ! j" "\<not> containmentStep ms i sh' ! i" "length sh' = length ms"
    using assms flagsUp_containmentStep [of sh' ms i] by (auto simp: flagsUp_def containmentPass_def)
  then show ?thesis
    using assms(2-4) by (auto simp: containmentStep_def list_ex_iff split: if_splits)
qed

lemma selfOverlapPass_result:
  "length sh = length ms \<Longrightarrow> i < length ms \<Longrightarrow> isWithinFileChain (snd (hd ms)) \<Longrightarrow>
   \<not> selfOverlapPass ms sh ! i \<Longrightarrow> \<not> selfOverlap (snd (ms ! i))"
  by (cases ms) (auto simp: selfOverlapPass_def split: if_splits)

section \<open>Nothing is dropped without a cover\<close>

text \<open>Every member lies within a member that is not flagged or that is excused by \<open>E\<close>.\<close>

definition covered :: "(cloneChain \<Rightarrow> bool) \<Rightarrow> shadowRef list \<Rightarrow> bool list \<Rightarrow> bool" where
  "covered E ms sh \<longleftrightarrow> length sh = length ms \<and>
     (\<forall>x < length ms. \<exists>y < length ms. within (snd (ms ! x)) (snd (ms ! y)) \<and> (\<not> sh ! y \<or> E (snd (ms ! y))))"

lemma coveredD:
  "covered E ms sh \<Longrightarrow> x < length ms \<Longrightarrow>
   \<exists>y < length ms. within (snd (ms ! x)) (snd (ms ! y)) \<and> (\<not> sh ! y \<or> E (snd (ms ! y)))"
  by (simp add: covered_def)

lemma covered_update:
  assumes cov: "covered E ms sh" and y: "y < length ms" "y \<noteq> j" "\<not> sh ! y \<or> E (snd (ms ! y))"
    and w: "within (snd (ms ! j)) (snd (ms ! y))"
  shows "covered E ms (sh[j := True])"
  unfolding covered_def
proof (intro conjI allI impI)
  show "length (sh[j := True]) = length ms"
    using cov by (simp add: covered_def)
next
  fix x
  assume "x < length ms"
  then obtain z where z: "z < length ms" "within (snd (ms ! x)) (snd (ms ! z))" "\<not> sh ! z \<or> E (snd (ms ! z))"
    using coveredD [OF cov] by blast
  show "\<exists>z < length ms. within (snd (ms ! x)) (snd (ms ! z)) \<and> (\<not> sh[j := True] ! z \<or> E (snd (ms ! z)))"
  proof (cases "z = j")
    case True
    with z y w show ?thesis
      by (intro exI [of _ y]) (auto intro: within_trans)
  next
    case False
    with z show ?thesis
      by (intro exI [of _ z]) auto
  qed
qed

text \<open>
  While the inner loop of member \<open>i\<close> runs, \<open>i\<close> itself may become flagged and the loop goes
  on; what stays true is that some earlier member with the ranges of \<open>i\<close> is not flagged.
\<close>

definition innerInv :: "shadowRef list \<Rightarrow> nat \<Rightarrow> nat \<Rightarrow> bool list \<Rightarrow> bool" where
  "innerInv ms i j sh \<longleftrightarrow> covered (\<lambda>_. False) ms sh \<and>
     (\<exists>y < j. \<not> sh ! y \<and> ranges (snd (ms ! y)) = ranges (snd (ms ! i)))"

lemma equalPassInner_inv:
  assumes inv: "innerInv ms i j sh" and ij: "i < j" "j < length ms"
  shows "innerInv ms i (Suc j) (equalPassInner ms i j sh)"
proof -
  obtain y where y: "y < j" "\<not> sh ! y" "ranges (snd (ms ! y)) = ranges (snd (ms ! i))"
    using inv by (auto simp: innerInv_def)
  have cov: "covered (\<lambda>_. False) ms sh" and len: "length sh = length ms"
    using inv by (auto simp: innerInv_def covered_def)
  have same: "innerInv ms i (Suc j) sh"
    using cov y by (auto simp: innerInv_def intro: less_SucI)
  have flag_j: "innerInv ms i (Suc j) (sh[j := True])" if "within (snd (ms ! j)) (snd (ms ! i))"
  proof -
    have "within (snd (ms ! j)) (snd (ms ! y))"
      using that y(3) by (simp add: within_def ranges_def)
    then have "covered (\<lambda>_. False) ms (sh[j := True])"
      using cov y ij by (intro covered_update [where y = y]) auto
    then show ?thesis
      using y ij by (auto simp: innerInv_def intro!: exI [of _ y])
  qed
  have flag_i: "innerInv ms i (Suc j) (sh[i := True])"
    if "ranges (snd (ms ! i)) = ranges (snd (ms ! j))" "\<not> sh ! j"
  proof -
    have "covered (\<lambda>_. False) ms (sh[i := True])"
      using cov that ij by (intro covered_update [where y = j]) (auto intro: ranges_eq_within)
    then show ?thesis
      using that ij by (auto simp: innerInv_def intro!: exI [of _ j])
  qed
  show ?thesis
    using same flag_i flag_j relation_equal_iff [of "snd (ms ! i)" "snd (ms ! j)"]
      relation_contains_iff [of "snd (ms ! i)" "snd (ms ! j)"] chainContainsRange_iff [of "snd (ms ! i)" "snd (ms ! j)"]
    by (auto simp: equalPassInner_def ranges_eq_within split: chainRangeRelation.splits)
qed

lemma equalPassInner_fold_inv:
  assumes "Suc i \<le> n" and "innerInv ms i (Suc i) sh" and "n \<le> length ms"
  shows "innerInv ms i n (fold (equalPassInner ms i) [Suc i..<n] sh)"
  using assms
proof (induction n rule: dec_induct)
  case (step n)
  then have "innerInv ms i n (fold (equalPassInner ms i) [Suc i..<n] sh)"
    by simp
  from equalPassInner_inv [OF this] step show ?case
    by simp
qed simp

lemma equalPassOuter_covered:
  assumes cov: "covered (\<lambda>_. False) ms sh" and i: "i < length ms"
  shows "covered (\<lambda>_. False) ms (equalPassOuter ms i sh)"
proof (cases "sh ! i")
  case False
  then have "innerInv ms i (Suc i) sh"
    using cov by (auto simp: innerInv_def)
  from equalPassInner_fold_inv [OF _ this, of "length ms"] i False show ?thesis
    by (simp add: equalPassOuter_def innerInv_def)
qed (simp add: equalPassOuter_def cov)

lemma containmentStep_covered:
  "covered E ms sh \<Longrightarrow> i < length ms \<Longrightarrow> covered E ms (containmentStep ms i sh)"
  by (auto simp: containmentStep_def list_ex_iff chainContainsRange_iff intro: covered_update)

lemma fold_covered:
  "covered E ms sh \<Longrightarrow> (\<And>i sh. covered E ms sh \<Longrightarrow> i \<in> set xs \<Longrightarrow> covered E ms (f i sh)) \<Longrightarrow>
   covered E ms (fold f xs sh)"
  by (induction xs arbitrary: sh) auto

lemma covered_weaken:
  assumes "covered (\<lambda>_. False) ms sh" and "length sh' = length ms"
    and "\<And>y. y < length ms \<Longrightarrow> sh' ! y \<Longrightarrow> sh ! y \<or> E (snd (ms ! y))"
  shows "covered E ms sh'"
  unfolding covered_def
proof (intro conjI allI impI)
  fix x assume "x < length ms"
  then obtain y where y: "y < length ms" "within (snd (ms ! x)) (snd (ms ! y))" "\<not> sh ! y"
    using coveredD [OF assms(1)] by blast
  then show "\<exists>y < length ms. within (snd (ms ! x)) (snd (ms ! y)) \<and> (\<not> sh' ! y \<or> E (snd (ms ! y)))"
    using assms(3) [OF y(1)] by blast
qed (rule assms(2))

lemma selfOverlapPass_covered:
  assumes "covered (\<lambda>_. False) ms sh"
  shows "covered (\<lambda>c. isWithinFileChain (snd (hd ms)) \<and> selfOverlap c) ms (selfOverlapPass ms sh)"
proof (rule covered_weaken [OF assms])
  have len: "length sh = length ms"
    using assms by (simp add: covered_def)
  then show "length (selfOverlapPass ms sh) = length ms"
    by (simp add: selfOverlapPass_def split: list.split)
  show "sh ! y \<or> isWithinFileChain (snd (hd ms)) \<and> selfOverlap (snd (ms ! y))"
    if "y < length ms" "selfOverlapPass ms sh ! y" for y
    using that len by (cases ms) (auto simp: selfOverlapPass_def split: if_splits)
qed

lemma groupShadows_covered:
  "covered (\<lambda>c. isWithinFileChain (snd (hd ms)) \<and> selfOverlap c) ms (groupShadows ms)"
proof -
  have "covered (\<lambda>_. False) ms (replicate (length ms) False)"
    by (auto simp: covered_def)
  then have "covered (\<lambda>_. False) ms (equalPass ms (replicate (length ms) False))"
    by (auto simp: equalPass_def intro!: fold_covered equalPassOuter_covered)
  then show ?thesis
    unfolding groupShadows_def containmentPass_def
    by (intro fold_covered selfOverlapPass_covered containmentStep_covered) auto
qed

lemma groupShadows_length [simp]: "length (groupShadows ms) = length ms"
  using groupShadows_covered [of ms] by (simp add: covered_def)

text \<open>What two members that both survive look like.\<close>

lemma groupShadows_irreducible:
  assumes ij: "i < j" "j < length ms" and sh: "\<not> groupShadows ms ! i" "\<not> groupShadows ms ! j"
  shows "ranges (snd (ms ! i)) \<noteq> ranges (snd (ms ! j))"
    and "\<not> chainContainsRange (snd (ms ! i)) (snd (ms ! j))"
    and "\<not> chainContainsRange (snd (ms ! j)) (snd (ms ! i))"
proof -
  let ?e = "equalPass ms (replicate (length ms) False)"
  have e: "length ?e = length ms"
    using flagsUp_passes(1) [of "replicate (length ms) False" ms] by (simp add: flagsUp_def)
  let ?s = "selfOverlapPass ms ?e"
  have s: "flagsUp ?e ?s" "flagsUp ?s (groupShadows ms)"
    using e flagsUp_passes by (auto simp: groupShadows_def)
  then have "\<not> ?e ! i" "\<not> ?e ! j"
    using ij sh e by (auto simp: flagsUp_def)
  then show "ranges (snd (ms ! i)) \<noteq> ranges (snd (ms ! j))"
    using equalPass_result [of "replicate (length ms) False" ms i j] ij by auto
  have "length ?s = length ms"
    using s e by (simp add: flagsUp_def)
  from containmentPass_result [OF this, of i j] containmentPass_result [OF this, of j i]
  show "\<not> chainContainsRange (snd (ms ! i)) (snd (ms ! j))" "\<not> chainContainsRange (snd (ms ! j)) (snd (ms ! i))"
    using ij sh by (simp_all add: groupShadows_def)
qed

lemma groupShadows_selfOverlap:
  assumes i: "i < length ms" and sh: "\<not> groupShadows ms ! i" and wf: "isWithinFileChain (snd (hd ms))"
  shows "\<not> selfOverlap (snd (ms ! i))"
proof -
  let ?e = "equalPass ms (replicate (length ms) False)"
  have e: "length ?e = length ms"
    using flagsUp_passes(1) [of "replicate (length ms) False" ms] by (simp add: flagsUp_def)
  then have "flagsUp (selfOverlapPass ms ?e) (groupShadows ms)" "flagsUp ?e (selfOverlapPass ms ?e)"
    using flagsUp_passes by (auto simp: groupShadows_def)
  then have "\<not> selfOverlapPass ms ?e ! i"
    using i sh e by (auto simp: flagsUp_def)
  with selfOverlapPass_result [OF e i wf] show ?thesis by simp
qed

section \<open>The whole suppression\<close>

text \<open>The members of the group of a key, in input order.\<close>

definition groupMembers :: "cloneChain list \<Rightarrow> analysisMap option \<Rightarrow> v4ShadowGroupKey \<Rightarrow> shadowRef list" where
  "groupMembers cs analyses k = filter (\<lambda>(i, c). chainPairKeyForChain c analyses = k) (enumerate 0 cs)"

lemma suppress_filter:
  "v4SuppressShadowChainsRegionBounded cs analyses =
     map snd (filter (\<lambda>(i, c). i \<in> set (groupSurvivors (groupMembers cs analyses (chainPairKeyForChain c analyses))))
       (enumerate 0 cs))"
  by (simp add: v4SuppressShadowChainsRegionBounded_def Let_def groupMembers_def
      case_prod_unfold)

lemma groupSurvivors_iff:
  assumes d: "distinct (map fst ms)" and m: "(i, c) \<in> set ms"
  shows "i \<in> set (groupSurvivors ms) \<longleftrightarrow>
    (\<exists>p < length ms. sortedMembers ms ! p = (i, c) \<and> \<not> groupShadows (sortedMembers ms) ! p)"
proof -
  let ?s = "sortedMembers ms"
  have len: "length ?s = length ms" and set: "set ?s = set ms"
    by (simp_all add: sortedMembers_def)
  have "i \<in> set (groupSurvivors ms) \<longleftrightarrow> (\<exists>p < length ms. fst (?s ! p) = i \<and> \<not> groupShadows ?s ! p)"
    by (force simp: groupSurvivors_def Let_def len set_zip)
  moreover have "fst (?s ! p) = i \<longleftrightarrow> ?s ! p = (i, c)" if "p < length ms" for p
  proof
    assume f: "fst (?s ! p) = i"
    have "?s ! p \<in> set ms"
      using that len set by (metis nth_mem)
    with f have "(i, snd (?s ! p)) \<in> set ms"
      by (metis prod.collapse)
    with m d have "snd (?s ! p) = c"
      by (metis eq_key_imp_eq_value)
    with f show "?s ! p = (i, c)"
      by (metis prod.collapse)
  qed simp
  ultimately show ?thesis
    by auto
qed

lemma groupMembers_distinct: "distinct (map fst (groupMembers cs analyses k))"
proof -
  have "distinct (map fst (enumerate 0 cs))"
    by (simp add: enumerate_eq_zip)
  then show ?thesis
    unfolding groupMembers_def by (rule distinct_map_filter)
qed

lemma groupMembers_iff:
  "(i, c) \<in> set (groupMembers cs analyses k) \<longleftrightarrow> i < length cs \<and> cs ! i = c \<and> chainPairKeyForChain c analyses = k"
  by (auto simp: groupMembers_def in_set_enumerate_eq)

lemma within_file_of_key:
  "isWithinFileChain c \<longleftrightarrow> (case chainPairKeyForChain c analyses of ShadowKey lp lr rp rr \<Rightarrow> lp = rp)"
  by (auto simp: isWithinFileChain_def chainPairKeyForChain_def Let_def split: prod.splits)

lemma same_key_within_file:
  "chainPairKeyForChain c analyses = chainPairKeyForChain d analyses \<Longrightarrow> isWithinFileChain c \<longleftrightarrow> isWithinFileChain d"
  by (simp add: within_file_of_key [of _ analyses])

abbreviation survives :: "cloneChain list \<Rightarrow> analysisMap option \<Rightarrow> nat \<Rightarrow> bool" where
  "survives cs analyses i \<equiv>
     i \<in> set (groupSurvivors (groupMembers cs analyses (chainPairKeyForChain (cs ! i) analyses)))"

lemma survives_position:
  assumes "i < length cs" and "survives cs analyses i"
  defines "ms \<equiv> sortedMembers (groupMembers cs analyses (chainPairKeyForChain (cs ! i) analyses))"
  obtains p where "p < length ms" and "ms ! p = (i, cs ! i)" and "\<not> groupShadows ms ! p"
  using assms(1,2) groupSurvivors_iff [OF groupMembers_distinct, of i "cs ! i" cs analyses "chainPairKeyForChain (cs ! i) analyses"]
  by (auto simp: ms_def groupMembers_iff sortedMembers_def)

definition unrelated :: "cloneChain \<Rightarrow> cloneChain \<Rightarrow> bool" where
  "unrelated a b \<longleftrightarrow> ranges a \<noteq> ranges b \<and> \<not> chainContainsRange a b \<and> \<not> chainContainsRange b a"

lemma survivors_unrelated:
  assumes i: "i < length cs" "survives cs analyses i" and j: "j < length cs" "survives cs analyses j"
    and ij: "i \<noteq> j" and key: "chainPairKeyForChain (cs ! i) analyses = chainPairKeyForChain (cs ! j) analyses"
  shows "unrelated (cs ! i) (cs ! j)"
proof -
  let ?ms = "sortedMembers (groupMembers cs analyses (chainPairKeyForChain (cs ! i) analyses))"
  obtain p where p: "p < length ?ms" "?ms ! p = (i, cs ! i)" "\<not> groupShadows ?ms ! p"
    using survives_position [OF i] .
  obtain q where q: "q < length ?ms" "?ms ! q = (j, cs ! j)" "\<not> groupShadows ?ms ! q"
    using survives_position [OF j] unfolding key .
  have "p \<noteq> q"
    using p q ij by auto
  then show ?thesis
    using groupShadows_irreducible [of p q ?ms] groupShadows_irreducible [of q p ?ms] p q
    by (auto simp: unrelated_def neq_iff)
qed

lemma survivor_not_selfOverlap:
  assumes i: "i < length cs" "survives cs analyses i" and w: "isWithinFileChain (cs ! i)"
  shows "\<not> selfOverlap (cs ! i)"
proof -
  let ?ms = "sortedMembers (groupMembers cs analyses (chainPairKeyForChain (cs ! i) analyses))"
  obtain p where p: "p < length ?ms" "?ms ! p = (i, cs ! i)" "\<not> groupShadows ?ms ! p"
    using survives_position [OF i] .
  have "hd ?ms \<in> set ?ms"
    using p by (metis hd_in_set length_0_conv not_less_zero)
  then have "chainPairKeyForChain (snd (hd ?ms)) analyses = chainPairKeyForChain (cs ! i) analyses"
    using groupMembers_iff [of "fst (hd ?ms)" "snd (hd ?ms)"] by (simp add: sortedMembers_def)
  then have "isWithinFileChain (snd (hd ?ms))"
    using w same_key_within_file by blast
  from groupShadows_selfOverlap [OF p(1,3) this] p(2) show ?thesis by simp
qed

lemma suppress_mem:
  "c \<in> set (v4SuppressShadowChainsRegionBounded cs analyses) \<longleftrightarrow> (\<exists>i < length cs. cs ! i = c \<and> survives cs analyses i)"
  by (force simp: suppress_filter in_set_enumerate_eq image_iff)

lemma subseq_map_snd_filter_enumerate: "subseq (map snd (filter P (enumerate n xs))) xs"
  using subseq_map [OF subseq_filter_left, of snd P "enumerate n xs"] by simp

lemma sorted_wrt_filterI:
  assumes "\<And>i j. i < j \<Longrightarrow> j < length xs \<Longrightarrow> P (xs ! i) \<Longrightarrow> P (xs ! j) \<Longrightarrow> R (xs ! i) (xs ! j)"
  shows "sorted_wrt R (filter P xs)"
proof -
  have "sorted_wrt (\<lambda>x y. P x \<longrightarrow> P y \<longrightarrow> R x y) xs"
    using assms by (auto simp: sorted_wrt_iff_nth_less)
  then show ?thesis
    by (induction xs) auto
qed

text \<open>
   What shadow suppression keeps is irreducible.  The kept chains appear in input order; two
  kept chains of one shadow group (same file pair and same regions) neither have the same ranges nor
  contain one another; and no kept chain of a single file overlaps itself.
\<close>

theorem shadow_survivors_irreducible:
  fixes analyses :: "analysisMap option"
  shows "subseq (v4SuppressShadowChainsRegionBounded cs analyses) cs \<and>
    sorted_wrt (\<lambda>a b. chainPairKeyForChain a analyses = chainPairKeyForChain b analyses \<longrightarrow>
        ranges a \<noteq> ranges b \<and> \<not> chainContainsRange a b \<and> \<not> chainContainsRange b a) (v4SuppressShadowChainsRegionBounded cs analyses) \<and>
    (\<forall>c \<in> set (v4SuppressShadowChainsRegionBounded cs analyses). isWithinFileChain c \<longrightarrow> \<not> selfOverlap c)"
proof (intro conjI ballI impI)
  show "subseq (v4SuppressShadowChainsRegionBounded cs analyses) cs"
    unfolding suppress_filter by (rule subseq_map_snd_filter_enumerate)
  show "sorted_wrt (\<lambda>a b. chainPairKeyForChain a analyses = chainPairKeyForChain b analyses \<longrightarrow>
        ranges a \<noteq> ranges b \<and> \<not> chainContainsRange a b \<and> \<not> chainContainsRange b a) (v4SuppressShadowChainsRegionBounded cs analyses)"
    unfolding suppress_filter sorted_wrt_map
  proof (rule sorted_wrt_filterI, intro impI, goal_cases)
    case (1 i j)
    then have "unrelated (cs ! i) (cs ! j)"
      by (intro survivors_unrelated) (auto simp: nth_enumerate_eq)
    then show ?case
      using 1 by (simp add: nth_enumerate_eq unrelated_def)
  qed
  show "\<not> selfOverlap c" if "c \<in> set (v4SuppressShadowChainsRegionBounded cs analyses)" "isWithinFileChain c" for c
    using that survivor_not_selfOverlap by (auto simp: suppress_mem)
qed

text \<open>
  C33.  Suppression loses nothing but self-matches: every input chain lies, on both sides, within a
  chain of its own shadow group that is kept or that is an overlapping self-match of one file.
  For a chain between two files the covering chain is always a kept one.
\<close>

theorem shadow_suppression_covers:
  assumes "c \<in> set cs"
  shows "\<exists>d \<in> set cs. chainPairKeyForChain d analyses = chainPairKeyForChain c analyses \<and> within c d \<and>
    (d \<in> set (v4SuppressShadowChainsRegionBounded cs analyses) \<or> isWithinFileChain c \<and> selfOverlap d)"
proof -
  obtain i where i: "i < length cs" "cs ! i = c"
    using assms by (auto simp: in_set_conv_nth)
  let ?g = "groupMembers cs analyses (chainPairKeyForChain c analyses)"
  let ?ms = "sortedMembers ?g"
  have mem: "(k, d) \<in> set ?ms \<longleftrightarrow> k < length cs \<and> cs ! k = d \<and> chainPairKeyForChain d analyses = chainPairKeyForChain c analyses" for k d
    by (simp add: sortedMembers_def groupMembers_iff)
  obtain p where p: "p < length ?ms" "?ms ! p = (i, c)"
    using i mem [of i c] by (auto simp: in_set_conv_nth)
  obtain q where q: "q < length ?ms" "within c (snd (?ms ! q))"
      "\<not> groupShadows ?ms ! q \<or> isWithinFileChain (snd (hd ?ms)) \<and> selfOverlap (snd (?ms ! q))"
    using coveredD [OF groupShadows_covered p(1)] p(2) by auto
  obtain k d where kd: "?ms ! q = (k, d)"
    by (cases "?ms ! q")
  then have d: "k < length cs" "cs ! k = d" "chainPairKeyForChain d analyses = chainPairKeyForChain c analyses"
    using mem [of k d] q(1) nth_mem by metis+
  have "hd ?ms \<in> set ?ms"
    using p(1) by (metis hd_in_set length_0_conv not_less_zero)
  then have hd: "isWithinFileChain (snd (hd ?ms)) \<longleftrightarrow> isWithinFileChain c"
    using mem same_key_within_file by (metis prod.collapse)
  have "survives cs analyses k" if "\<not> groupShadows ?ms ! q"
    using that q(1) kd d groupSurvivors_iff [OF groupMembers_distinct, of k d cs analyses "chainPairKeyForChain c analyses"]
    by (auto simp: groupMembers_iff sortedMembers_def)
  with d q kd hd have "within c d" "d \<in> set (v4SuppressShadowChainsRegionBounded cs analyses) \<or> isWithinFileChain c \<and> selfOverlap d"
    by (auto simp: suppress_mem)
  then show ?thesis
    using d by (intro bexI [of _ d]) auto
qed

section \<open>Concrete chains\<close>

definition demoChain :: "string \<Rightarrow> string \<Rightarrow> int \<times> int \<Rightarrow> int \<times> int \<Rightarrow> cloneChain" where
  "demoChain lp rp l r =
     (let w = (\<lambda>p (s, e). \<lparr>w_Path = p, w_StartLine = s, w_EndLine = e, w_StartPos = s, w_EndPos = e\<rparr>);
          rg = (\<lambda>(s, e). \<lparr>r_StartPos = s, r_EndPos = e\<rparr>)
      in \<lparr>ch_Matches = [\<lparr>m_SeedFingerprint = ''f'', m_Left = w lp l, m_Right = w rp r, m_Offset = fst r - fst l\<rparr>],
          ch_TokenSpan = snd l - fst l + 1, ch_LineSpan = snd l - fst l + 1, ch_PathSet = lp,
          ch_LeftRange = rg l, ch_RightRange = rg r, ch_Offset = fst r - fst l, ch_ContentHash = ''h''\<rparr>)"

theorem shadow_survivors_irreducible_witness:
  "let cs = [demoChain ''a'' ''b'' (3, 9) (13, 19), demoChain ''a'' ''b'' (2, 9) (13, 20),
             demoChain ''a'' ''b'' (1, 8) (40, 47), demoChain ''c'' ''c'' (1, 9) (5, 13)];
       out = v4SuppressShadowChainsRegionBounded cs None
   in out = [demoChain ''a'' ''b'' (2, 9) (13, 20), demoChain ''a'' ''b'' (1, 8) (40, 47)] \<and>
     chainPairKeyForChain (out ! 0) None = chainPairKeyForChain (out ! 1) None \<and>
     subseq out cs \<and> ranges (out ! 0) \<noteq> ranges (out ! 1) \<and> \<not> chainContainsRange (out ! 1) (out ! 0)"
proof -
  define cs where "cs = [demoChain ''a'' ''b'' (3, 9) (13, 19), demoChain ''a'' ''b'' (2, 9) (13, 20),
    demoChain ''a'' ''b'' (1, 8) (40, 47), demoChain ''c'' ''c'' (1, 9) (5, 13)]"
  have out: "v4SuppressShadowChainsRegionBounded cs None =
      [demoChain ''a'' ''b'' (2, 9) (13, 20), demoChain ''a'' ''b'' (1, 8) (40, 47)]"
    unfolding cs_def by code_simp
  have key: "chainPairKeyForChain (demoChain ''a'' ''b'' (2, 9) (13, 20)) None =
      chainPairKeyForChain (demoChain ''a'' ''b'' (1, 8) (40, 47)) None"
    by code_simp
  show ?thesis
    using shadow_survivors_irreducible [of cs None] key
    unfolding cs_def [symmetric] Let_def out by simp
qed

theorem shadow_suppression_covers_witness:
  "let cs = [demoChain ''a'' ''b'' (3, 9) (13, 19), demoChain ''a'' ''b'' (2, 9) (13, 20)];
       c = demoChain ''a'' ''b'' (3, 9) (13, 19)
   in c \<in> set cs \<and> \<not> isWithinFileChain c \<and>
     (\<exists>d \<in> set cs. within c d \<and> d \<in> set (v4SuppressShadowChainsRegionBounded cs None))"
proof -
  have "\<not> isWithinFileChain (demoChain ''a'' ''b'' (3, 9) (13, 19))"
    by code_simp
  with shadow_suppression_covers [of "demoChain ''a'' ''b'' (3, 9) (13, 19)"
      "[demoChain ''a'' ''b'' (3, 9) (13, 19), demoChain ''a'' ''b'' (2, 9) (13, 20)]" None]
  show ?thesis
    unfolding Let_def by auto
qed

text \<open>
   The excuse in \<open>shadow_suppression_covers\<close> is needed: the equal-range pass runs before self-matches are removed, so a clone
  between two disjoint parts of one file is dropped as a shadow of an overlapping self-match, which
  is then dropped itself.  The file header says such chains survive.
\<close>

theorem within_file_clone_lost:
  "\<not> selfOverlap (demoChain ''a'' ''a'' (100, 499) (1550, 1949)) \<and>
   v4SuppressShadowChainsRegionBounded [demoChain ''a'' ''a'' (100, 499) (1550, 1949)] None =
     [demoChain ''a'' ''a'' (100, 499) (1550, 1949)] \<and>
   v4SuppressShadowChainsRegionBounded
     [demoChain ''a'' ''a'' (0, 1999) (1000, 2999), demoChain ''a'' ''a'' (100, 499) (1550, 1949)] None = []"
  by (intro conjI; code_simp)

end
