(* ===== verification/Dup_Occurrences.thy ===== *)
theory Dup_Occurrences
  imports Dup_Shadow
begin

text \<open>
  Occurrences and the merge of pair findings: \<open>v4_occurrences.go\<close>, \<open>v4_merge_checked.go\<close>
  and the chain projection of \<open>v4_coalesce.go\<close>.  A Go \<open>panic\<close> is the value
  \<open>Inl (PanicWith e)\<close>, an error return is \<open>Inl e\<close>.

  The lemmas show that the identity check decides exactly whether a token span has one line
  geometry, that coalescing windows keeps their union of positions as separated blocks, and that
  the checked merge never panics.
\<close>

section \<open>Identity of occurrences\<close>

definition canonicalStep ::
  "maximalOccurrence \<Rightarrow> (maximalOccurrenceKey \<rightharpoonup> maximalOccurrence) \<Rightarrow>
   dupError + (maximalOccurrenceKey \<rightharpoonup> maximalOccurrence)" where
  "canonicalStep occ canonical =
     (case canonical (occurrenceKey occ) of
        Some prev \<Rightarrow>
          if mo_StartLine prev \<noteq> mo_StartLine occ \<or> mo_EndLine prev \<noteq> mo_EndLine occ
          then Inl (OccurrenceIdentityViolated (mo_Path occ) (mo_StartPos occ) (mo_EndPos occ))
          else Inr canonical
      | None \<Rightarrow> Inr (canonical(occurrenceKey occ \<mapsto> occ)))"

definition validateOccurrenceIdentityInvariants :: "maximalOccurrence list \<Rightarrow> dupError + unit" where
  "validateOccurrenceIdentityInvariants occs =
     bindE (foldE canonicalStep occs Map.empty) (\<lambda>_. Inr ())"

definition panicOn :: "dupError + 'a \<Rightarrow> dupError + 'a" where
  "panicOn r = (case r of Inl err \<Rightarrow> Inl (PanicWith err) | Inr x \<Rightarrow> Inr x)"

definition assertOccurrenceIdentityInvariants :: "maximalOccurrence list \<Rightarrow> dupError + unit" where
  "assertOccurrenceIdentityInvariants occs = panicOn (validateOccurrenceIdentityInvariants occs)"

definition occLess :: "maximalOccurrence \<Rightarrow> maximalOccurrence \<Rightarrow> bool" where
  "occLess a b =
     (if mo_Path a \<noteq> mo_Path b then mo_Path a < mo_Path b
      else if mo_StartPos a \<noteq> mo_StartPos b then mo_StartPos a < mo_StartPos b
      else mo_EndPos a < mo_EndPos b)"

definition dedupOccurrences :: "maximalOccurrence list \<Rightarrow> maximalOccurrence list" where
  "dedupOccurrences occs = sort_slice occLess (dedup_by occurrenceKey [] occs)"

section \<open>Occurrences of one chain\<close>

text \<open>The block under construction is \<open>occurrenceWithLines\<close>; it becomes an occurrence of the path.\<close>

record occurrenceWithLines =
  ol_StartPos :: int
  ol_EndPos :: int
  ol_StartLine :: int
  ol_EndLine :: int

definition blockOf :: "rawWindow \<Rightarrow> occurrenceWithLines" where
  "blockOf w = \<lparr>ol_StartPos = w_StartPos w, ol_EndPos = w_EndPos w,
     ol_StartLine = w_StartLine w, ol_EndLine = w_EndLine w\<rparr>"

definition emitBlock :: "string \<Rightarrow> occurrenceWithLines \<Rightarrow> maximalOccurrence" where
  "emitBlock path b = \<lparr>mo_Path = path, mo_StartPos = ol_StartPos b, mo_EndPos = ol_EndPos b,
     mo_StartLine = ol_StartLine b, mo_EndLine = ol_EndLine b\<rparr>"

fun coalesceBlocks :: "string \<Rightarrow> occurrenceWithLines \<Rightarrow> rawWindow list \<Rightarrow> maximalOccurrence list" where
  "coalesceBlocks path current [] = [emitBlock path current]"
| "coalesceBlocks path current (w # ws) =
     (if w_StartPos w \<le> ol_EndPos current + 1
      then coalesceBlocks path
        (current\<lparr>ol_EndPos := (if w_EndPos w > ol_EndPos current then w_EndPos w else ol_EndPos current),
           ol_EndLine := (if w_EndLine w > ol_EndLine current then w_EndLine w else ol_EndLine current)\<rparr>) ws
      else emitBlock path current # coalesceBlocks path (blockOf w) ws)"

definition startLess :: "rawWindow \<Rightarrow> rawWindow \<Rightarrow> bool" where
  "startLess a b = (w_StartPos a < w_StartPos b)"

definition coalesceLeftRightWindows :: "string \<Rightarrow> rawWindow list \<Rightarrow> maximalOccurrence list" where
  "coalesceLeftRightWindows path windows =
     (case sort_slice startLess windows of [] \<Rightarrow> []
      | w # ws \<Rightarrow> coalesceBlocks path (blockOf w) ws)"

definition v4OccurrenceFromChain :: "cloneChain \<Rightarrow> dupError + maximalOccurrence list" where
  "v4OccurrenceFromChain chain =
     (let fileLeftWindows = group_by (\<lambda>m. w_Path (m_Left m)) m_Left (ch_Matches chain);
          fileRightWindows = group_by (\<lambda>m. w_Path (m_Right m)) m_Right (ch_Matches chain);
          coalesced = (\<lambda>(path, wins). coalesceLeftRightWindows path wins);
          allOccurrences = concat (map coalesced fileLeftWindows) @ concat (map coalesced fileRightWindows)
      in bindE (assertOccurrenceIdentityInvariants allOccurrences) (\<lambda>_. Inr (dedupOccurrences allOccurrences)))"

section \<open>Merging pair findings\<close>

definition v4MergeToNWayClone :: "v4InternalFinding list \<Rightarrow> dupError + v4InternalFinding" where
  "v4MergeToNWayClone grp =
     (case grp of
        [] \<Rightarrow> Inr \<lparr>if_StableFingerprint = '''', if_TokenCount = 0, if_LineCount = 0, if_Occurrences = []\<rparr>
      | [f] \<Rightarrow> Inr f
      | f # fs \<Rightarrow>
          bindE (case find (\<lambda>g. if_TokenCount g \<noteq> if_TokenCount f) fs of
              None \<Rightarrow> Inr ()
            | Some g \<Rightarrow> Inl (PanicWith (InconsistentTokenCounts (if_TokenCount f) (if_TokenCount g))))
          (\<lambda>_. let allOccs = concat (map if_Occurrences grp)
            in bindE (assertOccurrenceIdentityInvariants allOccs)
              (\<lambda>_. Inr (f\<lparr>if_LineCount := fold (\<lambda>g n. if if_LineCount g > n then if_LineCount g else n) fs (if_LineCount f),
                        if_Occurrences := dedupOccurrences allOccs\<rparr>))))"

definition v4MergeToNWayCloneChecked :: "v4InternalFinding list \<Rightarrow> dupError + v4InternalFinding" where
  "v4MergeToNWayCloneChecked grp =
     (case grp of
        [] \<Rightarrow> Inr \<lparr>if_StableFingerprint = '''', if_TokenCount = 0, if_LineCount = 0, if_Occurrences = []\<rparr>
      | f # _ \<Rightarrow>
          bindE (foldE (\<lambda>g flattened.
              if if_TokenCount g \<noteq> if_TokenCount f
              then Inl (InconsistentTokenCounts (if_TokenCount f) (if_TokenCount g))
              else Inr (flattened @ if_Occurrences g)) grp [])
          (\<lambda>flattened. bindE (validateOccurrenceIdentityInvariants flattened)
            (\<lambda>_. v4MergeToNWayClone grp)))"

text \<open>The canonicalising rewrite of the legacy merge, over the occurrences in order.\<close>

fun canonicalise ::
  "(maximalOccurrenceKey \<rightharpoonup> maximalOccurrence) \<Rightarrow> maximalOccurrence list \<Rightarrow>
   (maximalOccurrenceKey \<rightharpoonup> maximalOccurrence) \<times> maximalOccurrence list" where
  "canonicalise canonical [] = (canonical, [])"
| "canonicalise canonical (occ # occs) =
     (case canonical (occurrenceKey occ) of
        Some previous \<Rightarrow>
          let (c, rest) = canonicalise canonical occs
          in (c, occ\<lparr>mo_StartLine := mo_StartLine previous, mo_EndLine := mo_EndLine previous\<rparr> # rest)
      | None \<Rightarrow>
          let (c, rest) = canonicalise (canonical(occurrenceKey occ \<mapsto> occ)) occs
          in (c, occ # rest))"

fun canonicaliseGroup ::
  "(maximalOccurrenceKey \<rightharpoonup> maximalOccurrence) \<Rightarrow> v4InternalFinding list \<Rightarrow> v4InternalFinding list" where
  "canonicaliseGroup canonical [] = []"
| "canonicaliseGroup canonical (f # fs) =
     (let (c, occs) = canonicalise canonical (if_Occurrences f)
      in f\<lparr>if_Occurrences := occs\<rparr> # canonicaliseGroup c fs)"

definition v4MergeToNWayCloneLegacy :: "v4InternalFinding list \<Rightarrow> dupError + v4InternalFinding" where
  "v4MergeToNWayCloneLegacy grp = v4MergeToNWayClone (canonicaliseGroup Map.empty grp)"

definition mergeKeyOf :: "v4InternalFinding \<Rightarrow> mergeKey" where
  "mergeKeyOf f = MergeKey (if_StableFingerprint f) (if_TokenCount f)"

definition mergeKeyLess :: "mergeKey \<Rightarrow> mergeKey \<Rightarrow> bool" where
  "mergeKeyLess a b =
     (if mk_StableFingerprint a \<noteq> mk_StableFingerprint b
      then mk_StableFingerprint a < mk_StableFingerprint b
      else mk_TokenCount a < mk_TokenCount b)"

definition v4MergeFindings :: "v4InternalFinding list \<Rightarrow> dupError + v4InternalFinding list" where
  "v4MergeFindings findings =
     (if length findings \<le> 1 then Inr findings
      else let byKey = group_by mergeKeyOf id findings
      in traverse (\<lambda>key. case lookup_list byKey key of
             [f] \<Rightarrow> Inr f
           | grp \<Rightarrow> v4MergeToNWayCloneLegacy grp)
         (sort_slice mergeKeyLess (map fst byKey)))"

section \<open>Projections\<close>

definition projectToPublicOccurrence :: "maximalOccurrence \<Rightarrow> Occurrence" where
  "projectToPublicOccurrence mo =
     \<lparr>o_Path = mo_Path mo, o_StartLine = mo_StartLine mo, o_EndLine = mo_EndLine mo\<rparr>"

definition convertOccurrences :: "maximalOccurrence list \<Rightarrow> Occurrence list" where
  "convertOccurrences occs =
     map (\<lambda>occ. \<lparr>o_Path = mo_Path occ, o_StartLine = mo_StartLine occ, o_EndLine = mo_EndLine occ\<rparr>) occs"

definition convertV4FindingToFinding :: "v4InternalFinding \<Rightarrow> Finding" where
  "convertV4FindingToFinding f =
     \<lparr>fi_Fingerprint = truncateFingerprint (if_StableFingerprint f), fi_StableFingerprint = '''',
      fi_TokenCount = if_TokenCount f, fi_LineCount = if_LineCount f,
      fi_Occurrences = map projectToPublicOccurrence (if_Occurrences f)\<rparr>"

definition v4FingerprintFromChain :: "cloneChain \<Rightarrow> string" where
  "v4FingerprintFromChain chain =
     v4SeedFingerprint (if ch_ContentHash chain = '''' then computeContentHash (ch_Matches chain)
       else ch_ContentHash chain)"

definition v4ContentIdentityFromChain :: "cloneChain \<Rightarrow> string" where
  "v4ContentIdentityFromChain chain =
     (if ch_Matches chain = [] then '''' else v4SeedFingerprint (computeContentHash (ch_Matches chain)))"

definition v4InternalFindingsFromChains :: "cloneChain list \<Rightarrow> dupError + v4InternalFinding list" where
  "v4InternalFindingsFromChains chs =
     (if chs = [] then Inr []
      else bindE (traverse (\<lambda>chain. bindE (v4OccurrenceFromChain chain)
             (\<lambda>occs. Inr (if length occs < 2 then []
               else [\<lparr>if_StableFingerprint = v4FingerprintFromChain chain, if_TokenCount = ch_TokenSpan chain,
                      if_LineCount = ch_LineSpan chain, if_Occurrences = occs\<rparr>])))
           (v4SuppressShadowChains chs))
      (\<lambda>fss. bindE (v4MergeFindings (concat fss)) (\<lambda>merged. Inr (sortV4InternalFindings merged))))"

definition v4FindingsFromChains :: "cloneChain list \<Rightarrow> dupError + coalescedFinding list" where
  "v4FindingsFromChains chs =
     (if chs = [] then Inr []
      else bindE (v4InternalFindingsFromChains chs) (\<lambda>findings. Inr (map (\<lambda>f.
        \<lparr>cf_Fingerprint = truncateFingerprint (if_StableFingerprint f), cf_StableFingerprint = if_StableFingerprint f,
         cf_SeedFingerprint = '''', cf_Occurrences = convertOccurrences (if_Occurrences f),
         cf_TokenCount = if_TokenCount f, cf_LineCount = if_LineCount f\<rparr>) findings)))"

section \<open>The identity check is exact\<close>

lemma occurrence_eq_iff:
  "(a :: maximalOccurrence) = b \<longleftrightarrow>
     occurrenceKey a = occurrenceKey b \<and> mo_StartLine a = mo_StartLine b \<and> mo_EndLine a = mo_EndLine b"
  by (cases a; cases b) (auto simp: occurrenceKey_def)

interpretation occ_order: keyed_less occLess occurrenceKey
  by unfold_locales (auto simp: occLess_def occurrenceKey_def less_maximalOccurrenceKey_def ok_key_def)

definition keyed :: "(maximalOccurrenceKey \<rightharpoonup> maximalOccurrence) \<Rightarrow> bool" where
  "keyed m \<longleftrightarrow> (\<forall>k occ. m k = Some occ \<longrightarrow> occurrenceKey occ = k)"

lemma keyed_inj: "keyed m \<Longrightarrow> inj_on occurrenceKey (ran m)"
  by (auto simp: keyed_def inj_on_def ran_def)

lemma canonicalStep_cases:
  assumes "keyed m"
  shows "(\<exists>m'. canonicalStep occ m = Inr m' \<and> keyed m' \<and> ran m' = insert occ (ran m) \<and> inj_on occurrenceKey (insert occ (ran m))) \<or>
    (\<exists>err. canonicalStep occ m = Inl err \<and> \<not> inj_on occurrenceKey (insert occ (ran m)))"
proof (cases "m (occurrenceKey occ)")
  case None
  then have "occurrenceKey occ \<notin> occurrenceKey ` ran m"
    using assms by (auto simp: keyed_def ran_def)
  with None assms show ?thesis
    by (auto simp: canonicalStep_def keyed_def ran_map_upd inj_on_insert keyed_inj)
next
  case (Some prev)
  then have prev: "occurrenceKey prev = occurrenceKey occ" "prev \<in> ran m"
    using assms by (auto simp: keyed_def ran_def)
  show ?thesis
  proof (cases "prev = occ")
    case True
    with Some prev assms show ?thesis
      by (auto simp: canonicalStep_def insert_absorb keyed_inj)
  next
    case False
    then have "\<not> inj_on occurrenceKey (insert occ (ran m))"
      using prev by (auto simp: inj_on_def)
    with False Some prev show ?thesis
      by (auto simp: canonicalStep_def occurrence_eq_iff)
  qed
qed

lemma foldE_canonicalStep:
  "keyed m \<Longrightarrow> (\<exists>m'. foldE canonicalStep occs m = Inr m') \<longleftrightarrow> inj_on occurrenceKey (set occs \<union> ran m)"
proof (induction occs arbitrary: m)
  case Nil
  then show ?case by (simp add: keyed_inj)
next
  case (Cons occ occs)
  from canonicalStep_cases [OF Cons.prems, of occ] show ?case
  proof (elim disjE exE conjE)
    fix m' assume "canonicalStep occ m = Inr m'" "keyed m'" "ran m' = insert occ (ran m)"
    with Cons.IH [of m'] show ?thesis by simp
  next
    fix err assume "canonicalStep occ m = Inl err" "\<not> inj_on occurrenceKey (insert occ (ran m))"
    moreover have "insert occ (ran m) \<subseteq> set (occ # occs) \<union> ran m"
      by auto
    ultimately show ?thesis
      using inj_on_subset by fastforce
  qed
qed

text \<open>
  The identity check is exact: it succeeds precisely when no two occurrences share
  path and token range and differ in their lines.
\<close>

theorem identity_check_exact:
  "validateOccurrenceIdentityInvariants occs = Inr () \<longleftrightarrow> inj_on occurrenceKey (set occs)"
  using foldE_canonicalStep [of Map.empty occs]
  by (auto simp: validateOccurrenceIdentityInvariants_def bindE_eq_Inr keyed_def)

lemma validate_cases:
  "validateOccurrenceIdentityInvariants occs = (if inj_on occurrenceKey (set occs) then Inr ()
     else Inl (projl (validateOccurrenceIdentityInvariants occs)))"
  using foldE_canonicalStep [of Map.empty occs]
  by (cases "foldE canonicalStep occs Map.empty")
    (auto simp: validateOccurrenceIdentityInvariants_def bindE_eq_Inr keyed_def)

lemma assert_inj: "inj_on occurrenceKey (set occs) \<Longrightarrow> assertOccurrenceIdentityInvariants occs = Inr ()"
  using validate_cases [of occs] by (simp add: assertOccurrenceIdentityInvariants_def panicOn_def)

lemma assert_Inr_iff: "assertOccurrenceIdentityInvariants occs = Inr () \<longleftrightarrow> inj_on occurrenceKey (set occs)"
  using validate_cases [of occs]
  by (auto simp: assertOccurrenceIdentityInvariants_def panicOn_def split: sum.splits if_splits)

section \<open>Coalescing keeps the covered positions\<close>

interpretation start_order: keyed_less startLess w_StartPos
  by unfold_locales (simp add: startLess_def)

definition occPositions :: "maximalOccurrence list \<Rightarrow> int set" where
  "occPositions occs = (\<Union>occ \<in> set occs. {mo_StartPos occ..mo_EndPos occ})"

definition winPositions :: "rawWindow list \<Rightarrow> int set" where
  "winPositions ws = (\<Union>w \<in> set ws. {w_StartPos w..w_EndPos w})"

text \<open>Blocks in order, with a gap of at least one position between two blocks.\<close>

definition separated :: "maximalOccurrence list \<Rightarrow> bool" where
  "separated occs \<longleftrightarrow> sorted_wrt (\<lambda>a b. mo_EndPos a + 1 < mo_StartPos b) occs"

lemma coalesceBlocks_spec:
  assumes "sorted (map w_StartPos ws)" and "\<forall>w \<in> set ws. ol_StartPos b \<le> w_StartPos w \<and> w_StartPos w \<le> w_EndPos w"
    and "ol_StartPos b \<le> ol_EndPos b"
  shows "separated (coalesceBlocks path b ws) \<and>
    occPositions (coalesceBlocks path b ws) = {ol_StartPos b..ol_EndPos b} \<union> winPositions ws \<and>
    (\<forall>occ \<in> set (coalesceBlocks path b ws). mo_Path occ = path \<and> ol_StartPos b \<le> mo_StartPos occ \<and> mo_StartPos occ \<le> mo_EndPos occ)"
  using assms
proof (induction path b ws rule: coalesceBlocks.induct)
  case (1 path b)
  then show ?case
    by (simp add: separated_def occPositions_def winPositions_def emitBlock_def)
next
  case (2 path b w ws)
  show ?case
  proof (cases "w_StartPos w \<le> ol_EndPos b + 1")
    case True
    have w: "ol_StartPos b \<le> w_StartPos w" "w_StartPos w \<le> w_EndPos w"
      using "2.prems"(2) by auto
    have "{ol_StartPos b..if w_EndPos w > ol_EndPos b then w_EndPos w else ol_EndPos b} =
        {ol_StartPos b..ol_EndPos b} \<union> {w_StartPos w..w_EndPos w}"
      using True w by auto
    with "2.IH"(1) [OF True] "2.prems" True show ?thesis
      by (simp add: winPositions_def Un_assoc)
  next
    case False
    let ?rest = "coalesceBlocks path (blockOf w) ws"
    have IH: "separated ?rest \<and> occPositions ?rest = {w_StartPos w..w_EndPos w} \<union> winPositions ws \<and>
        (\<forall>occ \<in> set ?rest. mo_Path occ = path \<and> w_StartPos w \<le> mo_StartPos occ \<and> mo_StartPos occ \<le> mo_EndPos occ)"
      using "2.IH"(2) [OF False] "2.prems" by (auto simp: blockOf_def)
    with False "2.prems" show ?thesis
      by (auto simp: separated_def occPositions_def winPositions_def emitBlock_def)
  qed
qed

text \<open>
  Coalescing one side of a chain: for windows that are nonempty ranges, the blocks cover
  exactly the positions the windows cover, they are nonempty, carry the path, and are in order with a
  gap between any two, so distinct occurrences in one file stay distinct.
\<close>

theorem coalesce_exact_cover:
  assumes "\<forall>w \<in> set windows. w_StartPos w \<le> w_EndPos w"
  shows "occPositions (coalesceLeftRightWindows path windows) = winPositions windows \<and>
    separated (coalesceLeftRightWindows path windows) \<and>
    (\<forall>occ \<in> set (coalesceLeftRightWindows path windows). mo_Path occ = path \<and> mo_StartPos occ \<le> mo_EndPos occ)"
proof (cases "sort_slice startLess windows")
  case Nil
  then show ?thesis
    by (simp add: coalesceLeftRightWindows_def occPositions_def winPositions_def separated_def)
next
  case (Cons w ws)
  have "set windows = insert w (set ws)"
    using Cons by (metis list.simps(15) set_sort_slice)
  moreover have "sorted (map w_StartPos (w # ws))"
    using start_order.sort_slice_keys_sorted [of windows] Cons by simp
  ultimately show ?thesis
    using coalesceBlocks_spec [of ws "blockOf w" path] assms Cons
    by (auto simp: coalesceLeftRightWindows_def blockOf_def winPositions_def)
qed

definition demoWindow :: "string \<Rightarrow> int \<Rightarrow> int \<Rightarrow> rawWindow" where
  "demoWindow p s e = \<lparr>w_Path = p, w_StartLine = s, w_EndLine = e, w_StartPos = s, w_EndPos = e\<rparr>"

theorem coalesce_exact_cover_witness:
  "let ws = [demoWindow ''a'' 20 29, demoWindow ''a'' 1 5, demoWindow ''a'' 4 9, demoWindow ''a'' 10 12]
   in map (\<lambda>occ. (mo_StartPos occ, mo_EndPos occ)) (coalesceLeftRightWindows ''a'' ws) = [(1, 12), (20, 29)] \<and>
     occPositions (coalesceLeftRightWindows ''a'' ws) = winPositions ws"
proof -
  let ?ws = "[demoWindow ''a'' 20 29, demoWindow ''a'' 1 5, demoWindow ''a'' 4 9, demoWindow ''a'' 10 12]"
  have "\<forall>w \<in> set ?ws. w_StartPos w \<le> w_EndPos w"
    by (simp add: demoWindow_def)
  note cover = coalesce_exact_cover [OF this, of "''a''"]
  have "map (\<lambda>occ. (mo_StartPos occ, mo_EndPos occ)) (coalesceLeftRightWindows ''a'' ?ws) = [(1, 12), (20, 29)]"
    by code_simp
  with cover show ?thesis
    unfolding Let_def by blast
qed

section \<open>Merging\<close>

lemma set_dedupOccurrences: "inj_on occurrenceKey (set occs) \<Longrightarrow> set (dedupOccurrences occs) = set occs"
  by (simp add: dedupOccurrences_def dedup_by_inj)

lemma dedupOccurrences_sorted: "sorted_wrt (<) (map occurrenceKey (dedupOccurrences occs))"
  using occ_order.sort_slice_keys_sorted [of "dedup_by occurrenceKey [] occs"] distinct_dedup_by [of occurrenceKey "[]" occs]
  by (simp add: dedupOccurrences_def strict_sorted_iff)

lemma merge_ok:
  assumes "\<forall>g \<in> set grp. if_TokenCount g = if_TokenCount (hd grp)"
    and "inj_on occurrenceKey (set (concat (map if_Occurrences grp)))" and "2 \<le> length grp"
  shows "\<exists>f. v4MergeToNWayClone grp = Inr f \<and> if_TokenCount f = if_TokenCount (hd grp) \<and>
    if_StableFingerprint f = if_StableFingerprint (hd grp) \<and>
    if_Occurrences f = dedupOccurrences (concat (map if_Occurrences grp))"
proof -
  obtain f g fs where grp: "grp = f # g # fs"
    using assms(3) by (cases grp; cases "tl grp") auto
  have "find (\<lambda>h. if_TokenCount h \<noteq> if_TokenCount f) (g # fs) = None"
    using assms(1) grp by (simp only: find_None_iff) auto
  then show ?thesis
    using assert_inj [OF assms(2)] unfolding grp by (simp add: v4MergeToNWayClone_def Let_def)
qed

fun isPanic :: "dupError \<Rightarrow> bool" where
  "isPanic (PanicWith _) = True"
| "isPanic IndexPanic = True"
| "isPanic _ = False"

lemma canonicalStep_error: "canonicalStep occ m = Inl err \<Longrightarrow> \<not> isPanic err"
  by (auto simp: canonicalStep_def split: option.splits if_splits)

lemma foldE_canonicalStep_error: "foldE canonicalStep occs m = Inl err \<Longrightarrow> \<not> isPanic err"
  by (induction occs arbitrary: m) (auto simp: bindE_eq_Inl canonicalStep_error)

lemma validate_error: "validateOccurrenceIdentityInvariants occs = Inl err \<Longrightarrow> \<not> isPanic err"
  by (auto simp: validateOccurrenceIdentityInvariants_def bindE_eq_Inl foldE_canonicalStep_error)

lemma flatten_ok:
  "foldE (\<lambda>g flattened. if if_TokenCount g \<noteq> n then Inl (InconsistentTokenCounts n (if_TokenCount g))
      else Inr (flattened @ if_Occurrences g)) grp acc =
    (case find (\<lambda>g. if_TokenCount g \<noteq> n) grp of
       Some g \<Rightarrow> Inl (InconsistentTokenCounts n (if_TokenCount g))
     | None \<Rightarrow> Inr (acc @ concat (map if_Occurrences grp)))"
  by (induction grp arbitrary: acc) (auto split: option.split)

text \<open>
  The checked merge of a nonempty group never panics.  It succeeds precisely when all token
  counts agree and the flattened occurrences pass the identity check; then a merge of two or more
  findings has the group's token count and fingerprint, and its occurrences are exactly
  those of the group, each once, strictly sorted by path and token range.
\<close>

theorem checked_merge_total:
  assumes "grp \<noteq> []"
  shows "(\<forall>err. v4MergeToNWayCloneChecked grp = Inl err \<longrightarrow> \<not> isPanic err) \<and>
    ((\<exists>f. v4MergeToNWayCloneChecked grp = Inr f) \<longleftrightarrow>
       (\<forall>g \<in> set grp. if_TokenCount g = if_TokenCount (hd grp)) \<and>
       inj_on occurrenceKey (set (concat (map if_Occurrences grp)))) \<and>
    (\<forall>f. v4MergeToNWayCloneChecked grp = Inr f \<and> 2 \<le> length grp \<longrightarrow>
       if_TokenCount f = if_TokenCount (hd grp) \<and> if_StableFingerprint f = if_StableFingerprint (hd grp) \<and>
       set (if_Occurrences f) = set (concat (map if_Occurrences grp)) \<and>
       sorted_wrt (<) (map occurrenceKey (if_Occurrences f)))"
proof -
  let ?all = "concat (map if_Occurrences grp)"
  obtain h t where grp: "grp = h # t"
    using assms by (cases grp) auto
  note unf = v4MergeToNWayCloneChecked_def
  have eq: "v4MergeToNWayCloneChecked grp =
      (case find (\<lambda>g. if_TokenCount g \<noteq> if_TokenCount h) grp of
         Some g \<Rightarrow> Inl (InconsistentTokenCounts (if_TokenCount h) (if_TokenCount g))
       | None \<Rightarrow> bindE (validateOccurrenceIdentityInvariants ?all) (\<lambda>_. v4MergeToNWayClone grp))"
    using flatten_ok [of "if_TokenCount h" grp "[]"]
    by (simp only: unf) (simp add: grp split: option.splits)
  show ?thesis
  proof (cases "\<forall>g \<in> set grp. if_TokenCount g = if_TokenCount h")
    case False
    then obtain g where "find (\<lambda>g. if_TokenCount g \<noteq> if_TokenCount h) grp = Some g"
      by (metis (mono_tags, lifting) find_None_iff option.exhaust)
    with False eq show ?thesis
      unfolding grp by simp
  next
    case True
    then have "find (\<lambda>g. if_TokenCount g \<noteq> if_TokenCount h) grp = None"
      by (simp add: find_None_iff)
    with eq have eq': "v4MergeToNWayCloneChecked grp = bindE (validateOccurrenceIdentityInvariants ?all) (\<lambda>_. v4MergeToNWayClone grp)"
      by simp
    show ?thesis
    proof (cases "inj_on occurrenceKey (set ?all)")
      case False
      then obtain err where "validateOccurrenceIdentityInvariants ?all = Inl err"
        using validate_cases [of ?all] by metis
      with False eq' validate_error show ?thesis
        by auto
    next
      case inj: True
      then have "validateOccurrenceIdentityInvariants ?all = Inr ()"
        using validate_cases [of ?all] by simp
      with eq' have merged: "v4MergeToNWayCloneChecked grp = v4MergeToNWayClone grp"
        by simp
      have hd: "hd grp = h"
        by (simp add: grp)
      show ?thesis
      proof (cases "2 \<le> length grp")
        case long: True
        from merge_ok [OF True [folded hd] inj long] obtain f where
          f: "v4MergeToNWayClone grp = Inr f" "if_TokenCount f = if_TokenCount (hd grp)"
            "if_StableFingerprint f = if_StableFingerprint (hd grp)" "if_Occurrences f = dedupOccurrences ?all"
          by blast
        have "set (if_Occurrences f) = set ?all" "sorted_wrt (<) (map occurrenceKey (if_Occurrences f))"
          using set_dedupOccurrences [OF inj] dedupOccurrences_sorted [of ?all] by (simp_all only: f(4))
        with f merged True inj hd show ?thesis
          by simp
      next
        case False
        then have "grp = [h]"
          using grp by (cases t) auto
        then have "v4MergeToNWayClone grp = Inr h"
          by (simp add: v4MergeToNWayClone_def)
        with merged True inj hd False show ?thesis
          by simp
      qed
    qed
  qed
qed

definition demoOcc :: "string \<Rightarrow> int \<Rightarrow> int \<Rightarrow> maximalOccurrence" where
  "demoOcc p s e = \<lparr>mo_Path = p, mo_StartPos = s, mo_EndPos = e, mo_StartLine = s, mo_EndLine = e\<rparr>"

definition demoPair :: "maximalOccurrence list \<Rightarrow> v4InternalFinding" where
  "demoPair occs = \<lparr>if_StableFingerprint = ''v4:x'', if_TokenCount = 5, if_LineCount = 5, if_Occurrences = occs\<rparr>"

theorem checked_merge_total_witness:
  "let grp = [demoPair [demoOcc ''b'' 1 5, demoOcc ''a'' 1 5], demoPair [demoOcc ''a'' 1 5, demoOcc ''c'' 11 15]]
   in grp \<noteq> [] \<and> v4MergeToNWayCloneChecked grp =
       Inr (demoPair [demoOcc ''a'' 1 5, demoOcc ''b'' 1 5, demoOcc ''c'' 11 15]) \<and>
     inj_on occurrenceKey (set (concat (map if_Occurrences grp)))"
proof -
  let ?grp = "[demoPair [demoOcc ''b'' 1 5, demoOcc ''a'' 1 5], demoPair [demoOcc ''a'' 1 5, demoOcc ''c'' 11 15]]"
  have merged: "v4MergeToNWayCloneChecked ?grp =
      Inr (demoPair [demoOcc ''a'' 1 5, demoOcc ''b'' 1 5, demoOcc ''c'' 11 15])"
    by code_simp
  then have "\<exists>f. v4MergeToNWayCloneChecked ?grp = Inr f"
    by blast
  then have "inj_on occurrenceKey (set (concat (map if_Occurrences ?grp)))"
    using checked_merge_total [of ?grp] by blast
  with merged show ?thesis
    by simp
qed

section \<open>The legacy merge\<close>

lemma keyed_upd: "keyed m \<Longrightarrow> keyed (m(occurrenceKey occ \<mapsto> occ))"
  unfolding keyed_def by simp

lemma map_le_Some: "map_le m m' \<Longrightarrow> m k = Some x \<Longrightarrow> m' k = Some x"
  unfolding map_le_def by (metis domI)

lemma map_le_upd: "map_le (m(k \<mapsto> x)) m' \<Longrightarrow> m k = None \<Longrightarrow> map_le m m'"
  unfolding map_le_def by (metis domIff fun_upd_other map_upd_Some_unfold)

lemma canonicalise_spec:
  "keyed m \<Longrightarrow> canonicalise m occs = (m', occs') \<Longrightarrow>
   keyed m' \<and> map_le m m' \<and> set occs' \<subseteq> ran m' \<and> map occurrenceKey occs' = map occurrenceKey occs"
proof (induction m occs arbitrary: m' occs' rule: canonicalise.induct)
  case (2 m occ occs)
  show ?case
  proof (cases "m (occurrenceKey occ)")
    case None
    let ?m = "m(occurrenceKey occ \<mapsto> occ)"
    obtain rest where rest: "canonicalise ?m occs = (m', rest)" "occs' = occ # rest"
      using "2.prems"(2) None by (auto split: prod.splits)
    have IH: "keyed m' \<and> map_le ?m m' \<and> set rest \<subseteq> ran m' \<and> map occurrenceKey rest = map occurrenceKey occs"
      using "2.IH"(1) [OF None keyed_upd [OF "2.prems"(1)] rest(1)] .
    then have "m' (occurrenceKey occ) = Some occ"
      using map_le_Some [of ?m m' "occurrenceKey occ" occ] by simp
    moreover have "map_le m m'"
      using IH None map_le_upd [of m "occurrenceKey occ" occ m'] by simp
    ultimately show ?thesis
      using IH rest by (auto intro: ranI)
  next
    case (Some prev)
    obtain rest where rest: "canonicalise m occs = (m', rest)"
        "occs' = occ\<lparr>mo_StartLine := mo_StartLine prev, mo_EndLine := mo_EndLine prev\<rparr> # rest"
      using "2.prems"(2) Some by (auto split: prod.splits)
    have IH: "keyed m' \<and> map_le m m' \<and> set rest \<subseteq> ran m' \<and> map occurrenceKey rest = map occurrenceKey occs"
      using "2.IH"(2) [OF Some "2.prems"(1) rest(1)] .
    have "occurrenceKey prev = occurrenceKey occ"
      using "2.prems"(1) Some by (simp add: keyed_def)
    then have eq: "occ\<lparr>mo_StartLine := mo_StartLine prev, mo_EndLine := mo_EndLine prev\<rparr> = prev"
      by (simp add: occurrence_eq_iff) (simp add: occurrenceKey_def)
    have "m' (occurrenceKey occ) = Some prev"
      using IH Some map_le_Some [of m m'] by simp
    then show ?thesis
      using IH rest eq \<open>occurrenceKey prev = occurrenceKey occ\<close> by (auto intro: ranI)
  qed
qed simp

lemma map_le_ran:
  assumes le: "map_le m m'"
  shows "ran m \<subseteq> ran m'"
proof
  fix x assume "x \<in> ran m"
  then obtain k where "m k = Some x"
    by (auto simp: ran_def)
  with le have "m' k = Some x"
    by (simp add: map_le_Some)
  then show "x \<in> ran m'"
    by (rule ranI)
qed

lemma canonicaliseGroup_spec:
  "keyed m \<Longrightarrow> \<exists>m'. keyed m' \<and> map_le m m' \<and>
     set (concat (map if_Occurrences (canonicaliseGroup m grp))) \<subseteq> ran m' \<and>
     map if_TokenCount (canonicaliseGroup m grp) = map if_TokenCount grp \<and>
     map occurrenceKey (concat (map if_Occurrences (canonicaliseGroup m grp))) =
       map occurrenceKey (concat (map if_Occurrences grp))"
proof (induction grp arbitrary: m)
  case Nil
  then show ?case by auto
next
  case (Cons f fs)
  obtain m1 occs where c: "canonicalise m (if_Occurrences f) = (m1, occs)"
    by (cases "canonicalise m (if_Occurrences f)")
  from canonicalise_spec [OF Cons.prems c] have m1: "keyed m1" "map_le m m1" "set occs \<subseteq> ran m1"
      "map occurrenceKey occs = map occurrenceKey (if_Occurrences f)"
    by auto
  from Cons.IH [OF m1(1)] obtain m' where m': "keyed m'" "map_le m1 m'"
      "set (concat (map if_Occurrences (canonicaliseGroup m1 fs))) \<subseteq> ran m'"
      "map if_TokenCount (canonicaliseGroup m1 fs) = map if_TokenCount fs"
      "map occurrenceKey (concat (map if_Occurrences (canonicaliseGroup m1 fs))) =
       map occurrenceKey (concat (map if_Occurrences fs))"
    by blast
  have "map_le m m'" "set occs \<subseteq> ran m'"
    using m1 m' map_le_ran [OF m'(2)] map_le_trans by blast+
  with m1 m' c show ?case
    by (intro exI [of _ m']) (simp add: case_prod_unfold)
qed

text \<open>
   The legacy merge never panics on a group of one token count: rewriting conflicting lines to
  the first geometry seen makes the identity check succeed, and the merged occurrences have
  exactly the paths and token ranges of the group.
\<close>

theorem legacy_merge_never_panics:
  assumes "\<forall>g \<in> set grp. if_TokenCount g = n" and "2 \<le> length grp"
  shows "\<exists>f. v4MergeToNWayCloneLegacy grp = Inr f \<and> if_TokenCount f = n \<and>
    occurrenceKey ` set (if_Occurrences f) = occurrenceKey ` set (concat (map if_Occurrences grp))"
proof -
  let ?c = "canonicaliseGroup Map.empty grp"
  obtain m' where m': "keyed m'" "set (concat (map if_Occurrences ?c)) \<subseteq> ran m'"
      "map if_TokenCount ?c = map if_TokenCount grp"
      "map occurrenceKey (concat (map if_Occurrences ?c)) = map occurrenceKey (concat (map if_Occurrences grp))"
    using canonicaliseGroup_spec [of Map.empty grp] by (auto simp: keyed_def)
  have inj: "inj_on occurrenceKey (set (concat (map if_Occurrences ?c)))"
    using keyed_inj [OF m'(1)] m'(2) inj_on_subset by blast
  have len: "2 \<le> length ?c"
    using m'(3) assms(2) by (metis length_map)
  have "if_TokenCount ` set ?c = if_TokenCount ` set grp"
    using m'(3) by (metis set_map)
  with assms(1) have tc: "\<forall>g \<in> set ?c. if_TokenCount g = n"
    by (metis (no_types, lifting) imageE imageI)
  have hd: "if_TokenCount (hd ?c) = n"
    using tc len by (cases ?c) auto
  from merge_ok [of ?c] tc inj len hd obtain f where
    f: "v4MergeToNWayClone ?c = Inr f" "if_TokenCount f = n" "if_Occurrences f = dedupOccurrences (concat (map if_Occurrences ?c))"
    by auto
  have "occurrenceKey ` set (if_Occurrences f) = occurrenceKey ` set (concat (map if_Occurrences grp))"
    using set_dedupOccurrences [OF inj] m'(4) by (metis f(3) set_map)
  with f show ?thesis
    by (simp add: v4MergeToNWayCloneLegacy_def)
qed

theorem legacy_merge_never_panics_witness:
  "let grp = [demoPair [demoOcc ''a'' 1 5, demoOcc ''b'' 1 5], demoPair [(demoOcc ''a'' 1 5)\<lparr>mo_EndLine := 7\<rparr>]]
   in (\<exists>err. v4MergeToNWayCloneChecked grp = Inl err) \<and> (\<exists>f. v4MergeToNWayCloneLegacy grp = Inr f \<and> if_TokenCount f = 5)"
proof -
  let ?grp = "[demoPair [demoOcc ''a'' 1 5, demoOcc ''b'' 1 5], demoPair [(demoOcc ''a'' 1 5)\<lparr>mo_EndLine := 7\<rparr>]]"
  have "\<forall>g \<in> set ?grp. if_TokenCount g = 5"
    by (simp add: demoPair_def)
  from legacy_merge_never_panics [OF this] have "\<exists>f. v4MergeToNWayCloneLegacy ?grp = Inr f \<and> if_TokenCount f = 5"
    by fastforce
  moreover have "v4MergeToNWayCloneChecked ?grp = Inl (OccurrenceIdentityViolated ''a'' 1 5)"
    by code_simp
  ultimately show ?thesis
    unfolding Let_def by blast
qed

end
