(* ===== verification/Dup_Components.thy ===== *)
theory Dup_Components
  imports Dup_Occurrences "HOL-Library.AList"
begin

text \<open>
  Component materialisation and component shadows: \<open>v4_component_merge.go\<close>.  Every chain becomes
  an evidence edge between two occurrences with the same exact content key; per content key the
  depth-first search of the code yields the connected components.

  The locale \<open>symmetric_graph\<close> states what the search relies on, its interpretation is the
  adjacency map the code builds.  The main theorem is a refinement: the findings are exactly the
  connected components with two or more vertices of the evidence graph of each content key.
\<close>

type_synonym fileMap = "(string \<times> v4AnalyzedFile) list"

record v4PairCloneEvidence =
  pe_ContentKey :: v4ExactContentKey
  pe_Left :: maximalOccurrence
  pe_Right :: maximalOccurrence
  pe_LineCount :: int

section \<open>Evidence edges\<close>

definition v4OccurrenceForRange :: "string \<Rightarrow> tokenRange \<Rightarrow> fileMap \<Rightarrow> dupError + maximalOccurrence" where
  "v4OccurrenceForRange path span files =
     (case map_of files path of None \<Rightarrow> Inl (MissingAnalyzedFile path)
      | Some file \<Rightarrow>
         if r_StartPos span < 0 \<or> r_EndPos span < r_StartPos span \<or>
           r_EndPos span \<ge> int (length (a_Lines (af_Analysis file)))
         then Inl (InvalidOccurrenceRange path (r_StartPos span) (r_EndPos span))
         else Inr \<lparr>mo_Path = path, mo_StartPos = r_StartPos span, mo_EndPos = r_EndPos span,
           mo_StartLine = a_Lines (af_Analysis file) ! nat (r_StartPos span),
           mo_EndLine = a_Lines (af_Analysis file) ! nat (r_EndPos span)\<rparr>)"

definition lineSpan :: "maximalOccurrence \<Rightarrow> int" where
  "lineSpan occ = mo_EndLine occ - mo_StartLine occ + 1"

definition v4PairEvidenceFromChain :: "cloneChain \<Rightarrow> fileMap \<Rightarrow> dupError + v4PairCloneEvidence" where
  "v4PairEvidenceFromChain chain files =
     (case ch_Matches chain of [] \<Rightarrow> Inl EmptyCloneChain
      | m # _ \<Rightarrow>
        (let leftPath = w_Path (m_Left m); rightPath = w_Path (m_Right m)
         in bindE (v4OccurrenceForRange leftPath (ch_LeftRange chain) files) (\<lambda>left.
            bindE (v4OccurrenceForRange rightPath (ch_RightRange chain) files) (\<lambda>right.
            bindE (v4ExactContentKeyForOccurrence (the (map_of files leftPath)) left) (\<lambda>leftKey.
            bindE (v4ExactContentKeyForOccurrence (the (map_of files rightPath)) right) (\<lambda>rightKey.
              if ck_TokenCount leftKey \<noteq> ck_TokenCount rightKey then Inl PairGeometryConflict
              else if ck_Digest leftKey \<noteq> ck_Digest rightKey then Inl PairContentConflict
              else let (l, r) = (if compareV4MaximalOccurrences left right > 0 then (right, left) else (left, right))
                in Inr \<lparr>pe_ContentKey = leftKey, pe_Left = l, pe_Right = r,
                     pe_LineCount = (if lineSpan r > lineSpan l then lineSpan r else lineSpan l)\<rparr>))))))"

definition edgeLess :: "v4PairCloneEvidence \<Rightarrow> v4PairCloneEvidence \<Rightarrow> bool" where
  "edgeLess a b =
     (let order = compareV4ContentKeys (pe_ContentKey a) (pe_ContentKey b)
      in if order \<noteq> 0 then order < 0
         else let order = compareV4MaximalOccurrences (pe_Left a) (pe_Left b)
         in if order \<noteq> 0 then order < 0
            else compareV4MaximalOccurrences (pe_Right a) (pe_Right b) < 0)"

text \<open>The loop that fills \<open>byDigest\<close> and returns at the first digest with two token counts.\<close>

definition digestStep :: "v4PairCloneEvidence \<Rightarrow> (string \<rightharpoonup> int) \<Rightarrow> dupError + (string \<rightharpoonup> int)" where
  "digestStep edge byDigest =
     (let k = pe_ContentKey edge
      in case byDigest (ck_Digest k) of
           Some cnt \<Rightarrow>
             if cnt \<noteq> ck_TokenCount k then Inl (ContentGeometryConflict (ck_Digest k) cnt (ck_TokenCount k))
             else Inr (byDigest(ck_Digest k \<mapsto> ck_TokenCount k))
         | None \<Rightarrow> Inr (byDigest(ck_Digest k \<mapsto> ck_TokenCount k)))"

section \<open>Connected components\<close>

type_synonym adjacencyMap = "(maximalOccurrenceKey \<times> maximalOccurrenceKey list) list"

definition verticesOf :: "v4PairCloneEvidence list \<Rightarrow> (maximalOccurrenceKey \<times> maximalOccurrence) list" where
  "verticesOf edges =
     fold (\<lambda>e vs. AList.update (occurrenceKey (pe_Right e)) (pe_Right e)
       (AList.update (occurrenceKey (pe_Left e)) (pe_Left e) vs)) edges []"

definition adjacencyOf :: "v4PairCloneEvidence list \<Rightarrow> adjacencyMap" where
  "adjacencyOf edges =
     fold (\<lambda>e adj. alist_append (occurrenceKey (pe_Right e)) (occurrenceKey (pe_Left e))
       (alist_append (occurrenceKey (pe_Left e)) (occurrenceKey (pe_Right e)) adj)) edges []"

definition occKeyLess :: "maximalOccurrenceKey \<Rightarrow> maximalOccurrenceKey \<Rightarrow> bool" where
  "occKeyLess a b = (compareV4OccurrenceKeys a b < 0)"

definition sortedAdjacency :: "adjacencyMap \<Rightarrow> adjacencyMap" where
  "sortedAdjacency adj = map (\<lambda>(k, ks). (k, sort_slice occKeyLess ks)) adj"

text \<open>
  The recursive closure \<open>visit\<close>: the state is the visited keys and the component collected so
  far.  \<open>visitAll\<close> is the loop over neighbours that calls it.
\<close>

function (sequential) visitAll ::
  "('k \<times> 'k list) list \<Rightarrow> 'k list \<Rightarrow> 'k list \<times> 'k list \<Rightarrow> 'k list \<times> 'k list" where
  "visitAll adj [] st = st"
| "visitAll adj (k # ks) st =
     (if k \<in> set (fst st) then visitAll adj ks st
      else visitAll adj ks (visitAll adj (lookup_list adj k) (k # fst st, snd st @ [k])))"
  by pat_completeness auto

lemma visitAll_partial_mono: "visitAll_dom (adj, ks, st) \<Longrightarrow> set (fst st) \<subseteq> set (fst (visitAll adj ks st))"
  by (induction adj ks st rule: visitAll.pinduct) (auto simp: visitAll.psimps)

termination visitAll
proof (relation "inv_image (finite_psubset <*lex*> less_than)
    (\<lambda>(adj, ks, st). (set (map fst adj) - set (fst st), length ks))", goal_cases)
  case 1
  then show ?case by (intro wf_inv_image wf_lex_prod wf_finite_psubset wf_less_than)
next
  case (2 adj k ks st)
  then show ?case by simp
next
  case (3 adj k ks st)
  show ?case
  proof (cases "k \<in> set (map fst adj)")
    case True
    with 3 show ?thesis by (auto simp: finite_psubset_def)
  next
    case False
    then have "lookup_list adj k = []"
      using map_of_eq_None_iff [of adj k] by (simp add: lookup_list_def)
    moreover have "set (map fst adj) - set (fst (k # fst st, snd st @ [k])) = set (map fst adj) - set (fst st)"
      using False by auto
    ultimately show ?thesis by simp
  qed
next
  case (4 adj k ks st)
  from visitAll_partial_mono [OF 4(2)] have "set (fst st) \<subseteq> set (fst (visitAll adj (lookup_list adj k) (k # fst st, snd st @ [k])))"
    by auto
  then have "set (map fst adj) - set (fst (visitAll adj (lookup_list adj k) (k # fst st, snd st @ [k]))) \<subseteq> set (map fst adj) - set (fst st)"
    by blast
  then show ?case
    by (auto simp: finite_psubset_def)
qed

text \<open>The loop over the sorted vertices: a component for every start that is not visited yet.\<close>

fun componentsFrom :: "('k \<times> 'k list) list \<Rightarrow> 'k list \<Rightarrow> 'k list \<Rightarrow> 'k list list" where
  "componentsFrom adj visited [] = []"
| "componentsFrom adj visited (start # starts) =
     (if start \<in> set visited then componentsFrom adj visited starts
      else let (visited', component) = visitAll adj [start] (visited, [])
      in component # componentsFrom adj visited' starts)"

definition componentFinding ::
  "v4ExactContentKey \<Rightarrow> (maximalOccurrenceKey \<times> maximalOccurrence) list \<Rightarrow> maximalOccurrenceKey list \<Rightarrow> v4InternalFinding" where
  "componentFinding contentKey vertices component =
     (let occurrences = map (\<lambda>k. the (map_of vertices k)) (sort_slice occKeyLess component)
      in \<lparr>if_StableFingerprint = v4StableFingerprintForContentKey contentKey,
          if_TokenCount = ck_TokenCount contentKey,
          if_LineCount = fold (\<lambda>occ n. if lineSpan occ > n then lineSpan occ else n) occurrences 0,
          if_Occurrences = occurrences\<rparr>)"

definition materializeGroup :: "v4ExactContentKey \<Rightarrow> v4PairCloneEvidence list \<Rightarrow> dupError + v4InternalFinding list" where
  "materializeGroup contentKey grp =
     bindE (validateOccurrenceIdentityInvariants (concat (map (\<lambda>e. [pe_Left e, pe_Right e]) grp)))
       (\<lambda>_. let vertices = verticesOf grp;
              adjacency = sortedAdjacency (adjacencyOf grp);
              vertexKeys = sort_slice occKeyLess (map fst vertices)
          in Inr (map (componentFinding contentKey vertices)
               (filter (\<lambda>c. 2 \<le> length c) (componentsFrom adjacency [] vertexKeys))))"

definition contentKeyLess :: "v4ExactContentKey \<Rightarrow> v4ExactContentKey \<Rightarrow> bool" where
  "contentKeyLess a b = (compareV4ContentKeys a b < 0)"

definition v4MaterializeComponents :: "cloneChain list \<Rightarrow> fileMap \<Rightarrow> dupError + v4InternalFinding list" where
  "v4MaterializeComponents chs files =
     (if chs = [] then Inr []
      else bindE (traverse (\<lambda>chain. v4PairEvidenceFromChain chain files) chs) (\<lambda>evidence.
        let edges = sort_slice edgeLess evidence
        in bindE (foldE digestStep edges Map.empty) (\<lambda>_.
           let byKey = group_by pe_ContentKey id edges
           in bindE (traverse (\<lambda>contentKey. materializeGroup contentKey (lookup_list byKey contentKey))
                (sort_slice contentKeyLess (map fst byKey)))
              (\<lambda>fss. Inr (concat fss)))))"

section \<open>The search computes connected components\<close>

definition step :: "('k \<times> 'k list) list \<Rightarrow> ('k \<times> 'k) set" where
  "step adj = {(a, b). b \<in> set (lookup_list adj a)}"

text \<open>
  What one call leaves: it appends the same new keys to the visited keys and to the component, each
  once; all of them are reachable from the arguments; all arguments are visited; and every new key
  has its neighbours visited.
\<close>

lemma visitAll_spec:
  "\<exists>new. set (fst (visitAll adj ks st)) = set (fst st) \<union> set new \<and> snd (visitAll adj ks st) = snd st @ new \<and>
     distinct new \<and> set new \<inter> set (fst st) = {} \<and> set new \<subseteq> (step adj)\<^sup>* `` set ks \<and>
     set ks \<subseteq> set (fst st) \<union> set new \<and> step adj `` set new \<subseteq> set (fst st) \<union> set new"
proof (induction adj ks st rule: visitAll.induct)
  case (1 adj st)
  show ?case by (intro exI [of _ "[]"]) auto
next
  case (2 adj k ks st)
  show ?case
  proof (cases "k \<in> set (fst st)")
    case True
    from "2.IH"(1) [OF True] obtain new where new: "set (fst (visitAll adj ks st)) = set (fst st) \<union> set new"
        "snd (visitAll adj ks st) = snd st @ new" "distinct new" "set new \<inter> set (fst st) = {}"
        "set new \<subseteq> (step adj)\<^sup>* `` set ks" "set ks \<subseteq> set (fst st) \<union> set new"
        "step adj `` set new \<subseteq> set (fst st) \<union> set new"
      by blast
    have eq: "visitAll adj (k # ks) st = visitAll adj ks st"
      using True by simp
    show ?thesis
      unfolding eq using new True by (intro exI [of _ new]) auto
  next
    case False
    let ?inner = "visitAll adj (lookup_list adj k) (k # fst st, snd st @ [k])"
    from "2.IH"(2) [OF False] obtain n1 where n1: "set (fst ?inner) = insert k (set (fst st)) \<union> set n1"
        "snd ?inner = snd st @ [k] @ n1" "distinct n1" "set n1 \<inter> insert k (set (fst st)) = {}"
        "set n1 \<subseteq> (step adj)\<^sup>* `` set (lookup_list adj k)" "set (lookup_list adj k) \<subseteq> insert k (set (fst st)) \<union> set n1"
        "step adj `` set n1 \<subseteq> insert k (set (fst st)) \<union> set n1"
      by auto
    from "2.IH"(3) [OF False] obtain n2 where n2: "set (fst (visitAll adj ks ?inner)) = set (fst ?inner) \<union> set n2"
        "snd (visitAll adj ks ?inner) = snd ?inner @ n2" "distinct n2" "set n2 \<inter> set (fst ?inner) = {}"
        "set n2 \<subseteq> (step adj)\<^sup>* `` set ks" "set ks \<subseteq> set (fst ?inner) \<union> set n2"
        "step adj `` set n2 \<subseteq> set (fst ?inner) \<union> set n2"
      by blast
    have eq: "visitAll adj (k # ks) st = visitAll adj ks ?inner"
      using False by simp
    have "(step adj)\<^sup>* `` set (lookup_list adj k) \<subseteq> (step adj)\<^sup>* `` {k}"
      by (auto simp: step_def intro: converse_rtrancl_into_rtrancl)
    then have "set n1 \<subseteq> (step adj)\<^sup>* `` {k}"
      by (rule subset_trans [OF n1(5)])
    moreover have "(step adj)\<^sup>* `` set (k # ks) = (step adj)\<^sup>* `` {k} \<union> (step adj)\<^sup>* `` set ks"
      by auto
    ultimately have reach: "set (k # n1 @ n2) \<subseteq> (step adj)\<^sup>* `` set (k # ks)"
      using n2(5) by auto
    have "step adj `` {k} \<subseteq> insert k (set (fst st)) \<union> set n1"
      using n1(6) by (auto simp: step_def)
    moreover have "step adj `` set n2 \<subseteq> insert k (set (fst st)) \<union> set n1 \<union> set n2"
      using n2(7) unfolding n1(1) .
    moreover have "step adj `` set (k # n1 @ n2) = step adj `` {k} \<union> step adj `` set n1 \<union> step adj `` set n2"
      by auto
    ultimately have closed: "step adj `` set (k # n1 @ n2) \<subseteq> set (fst st) \<union> set (k # n1 @ n2)"
      using n1(7) by simp blast
    show ?thesis
      unfolding eq using n1(1-4) n2(1-4,6) False reach closed
      by (intro exI [of _ "k # n1 @ n2"]) auto
  qed
qed

locale symmetric_graph =
  fixes adj :: "('k \<times> 'k list) list"
  assumes sym: "b \<in> set (lookup_list adj a) \<Longrightarrow> a \<in> set (lookup_list adj b)"
begin

lemma sym_step: "sym ((step adj)\<^sup>*)"
  by (rule sym_rtrancl) (auto simp: sym_def step_def intro: sym)

lemma closed_rtrancl: "step adj `` V \<subseteq> V \<Longrightarrow> (step adj)\<^sup>* `` V \<subseteq> V"
  by (metis Image_closed_trancl equalityE)

text \<open>From a closed set of visited keys, one visit collects exactly the class of its start.\<close>

lemma visit_component:
  assumes closed: "step adj `` set visited \<subseteq> set visited" and start: "start \<notin> set visited"
    and visit: "visitAll adj [start] (visited, []) = (visited', component)"
  shows "set component = (step adj)\<^sup>* `` {start} \<and> distinct component \<and>
    set visited' = set visited \<union> set component \<and> step adj `` set visited' \<subseteq> set visited'"
proof -
  from visitAll_spec [of adj "[start]" "(visited, [])"] visit
  have v: "set visited' = set visited \<union> set component" "distinct component" "set component \<inter> set visited = {}"
      "set component \<subseteq> (step adj)\<^sup>* `` {start}" "{start} \<subseteq> set visited \<union> set component"
      "step adj `` set component \<subseteq> set visited \<union> set component"
    by auto
  have cl: "step adj `` set visited' \<subseteq> set visited'"
    using closed v(1,6) by (auto simp: Image_Un)
  have "(step adj)\<^sup>* `` {start} \<subseteq> set visited'"
    using closed_rtrancl [OF cl] v(1,5) by blast
  moreover have "(step adj)\<^sup>* `` {start} \<inter> set visited = {}"
    using closed_rtrancl [OF closed] start sym_step by (auto dest: symD)
  ultimately have "set component = (step adj)\<^sup>* `` {start}"
    using v(1,4) by blast
  with v(1,2) cl show ?thesis by blast
qed

lemma componentsFrom_spec:
  assumes "step adj `` set visited \<subseteq> set visited"
  shows "set ` set (componentsFrom adj visited starts) = (\<lambda>a. (step adj)\<^sup>* `` {a}) ` (set starts - set visited) \<and>
    (\<forall>c \<in> set (componentsFrom adj visited starts). distinct c \<and> c \<noteq> [] \<and> set c \<inter> set visited = {}) \<and>
    distinct (map set (componentsFrom adj visited starts))"
  using assms
proof (induction starts arbitrary: visited)
  case (Cons start starts)
  show ?case
  proof (cases "start \<in> set visited")
    case True
    then have "set (start # starts) - set visited = set starts - set visited"
      by auto
    with True Cons.IH [OF Cons.prems] show ?thesis
      by simp
  next
    case False
    obtain visited' component where visit: "visitAll adj [start] (visited, []) = (visited', component)"
      by (cases "visitAll adj [start] (visited, [])")
    note v = visit_component [OF Cons.prems False visit]
    let ?rest = "componentsFrom adj visited' starts"
    have eq: "componentsFrom adj visited (start # starts) = component # ?rest"
      using False visit by simp
    have IH: "set ` set ?rest = (\<lambda>a. (step adj)\<^sup>* `` {a}) ` (set starts - set visited')"
        "\<forall>c \<in> set ?rest. distinct c \<and> c \<noteq> [] \<and> set c \<inter> set visited' = {}" "distinct (map set ?rest)"
      using Cons.IH [of visited'] v by blast+
    have in_comp: "start \<in> set component"
      using v by auto
    have cls: "(step adj)\<^sup>* `` {a} = set component" if "a \<in> set component" for a
    proof -
      have "(start, a) \<in> (step adj)\<^sup>*"
        using that v by auto
      then have "(a, start) \<in> (step adj)\<^sup>*"
        using sym_step by (meson symD)
      with \<open>(start, a) \<in> (step adj)\<^sup>*\<close> have "(step adj)\<^sup>* `` {a} = (step adj)\<^sup>* `` {start}"
        by (auto intro: rtrancl_trans)
      then show ?thesis
        using v by simp
    qed
    have "(\<lambda>a. (step adj)\<^sup>* `` {a}) ` (set (start # starts) - set visited) =
        insert (set component) ((\<lambda>a. (step adj)\<^sup>* `` {a}) ` (set starts - set visited'))"
    proof -
      have "set (start # starts) - set visited = (set component \<inter> set (start # starts) - set visited) \<union> (set starts - set visited')"
        using v in_comp by auto
      moreover have "(\<lambda>a. (step adj)\<^sup>* `` {a}) ` (set component \<inter> set (start # starts) - set visited) = {set component}"
        using cls in_comp False by (auto simp: image_iff intro!: bexI [of _ start])
      ultimately show ?thesis
        by (simp add: image_Un)
    qed
    moreover have "set component \<notin> set ` set ?rest"
      using IH(2) v in_comp by auto
    moreover have "set component \<inter> set visited = {}"
    proof -
      have "set component \<subseteq> (step adj)\<^sup>* `` {start}"
        using v by simp
      moreover have "(step adj)\<^sup>* `` {start} \<inter> set visited = {}"
        using closed_rtrancl [OF Cons.prems] False sym_step by (auto dest: symD)
      ultimately show ?thesis by blast
    qed
    ultimately show ?thesis
      unfolding eq using IH v in_comp by (auto simp: image_iff)
  qed
qed simp

end

section \<open>The adjacency map of a group of edges\<close>

definition ends :: "v4PairCloneEvidence \<Rightarrow> maximalOccurrenceKey set" where
  "ends e = {occurrenceKey (pe_Left e), occurrenceKey (pe_Right e)}"

definition endOccurrences :: "v4PairCloneEvidence list \<Rightarrow> maximalOccurrence set" where
  "endOccurrences edges = (\<Union>e \<in> set edges. {pe_Left e, pe_Right e})"

definition linked :: "v4PairCloneEvidence list \<Rightarrow> (maximalOccurrenceKey \<times> maximalOccurrenceKey) set" where
  "linked edges = {(a, b). \<exists>e \<in> set edges. ends e = {a, b}}"

definition cloneComponents :: "v4PairCloneEvidence list \<Rightarrow> maximalOccurrenceKey set set" where
  "cloneComponents edges = {C. (\<exists>occ \<in> endOccurrences edges. C = (linked edges)\<^sup>* `` {occurrenceKey occ}) \<and> 2 \<le> card C}"

lemma linked_iff:
  "(a, b) \<in> linked edges \<longleftrightarrow> (\<exists>e \<in> set edges. a = occurrenceKey (pe_Left e) \<and> b = occurrenceKey (pe_Right e) \<or>
     a = occurrenceKey (pe_Right e) \<and> b = occurrenceKey (pe_Left e))"
  by (auto simp: linked_def ends_def doubleton_eq_iff)

lemma lookup_adjacency_fold:
  "set (lookup_list (fold (\<lambda>e adj. alist_append (occurrenceKey (pe_Right e)) (occurrenceKey (pe_Left e))
       (alist_append (occurrenceKey (pe_Left e)) (occurrenceKey (pe_Right e)) adj)) edges acc) a) =
   set (lookup_list acc a) \<union> {b. (a, b) \<in> linked edges}"
  by (induction edges arbitrary: acc) (auto simp: linked_iff)

lemma lookup_sortedAdjacency:
  "lookup_list (sortedAdjacency adj) a = sort_slice occKeyLess (lookup_list adj a)"
  by (induction adj) (auto simp: sortedAdjacency_def lookup_list_def)

lemma step_sortedAdjacency: "step (sortedAdjacency (adjacencyOf edges)) = linked edges"
  by (auto simp: step_def lookup_sortedAdjacency adjacencyOf_def lookup_adjacency_fold)

interpretation evidence_graph: symmetric_graph "sortedAdjacency (adjacencyOf edges)" for edges
proof unfold_locales
  fix a b
  assume "b \<in> set (lookup_list (sortedAdjacency (adjacencyOf edges)) a)"
  then have "(a, b) \<in> linked edges"
    using step_sortedAdjacency by (auto simp: step_def)
  then have "(b, a) \<in> step (sortedAdjacency (adjacencyOf edges))"
    unfolding step_sortedAdjacency by (auto simp: linked_iff)
  then show "a \<in> set (lookup_list (sortedAdjacency (adjacencyOf edges)) b)"
    by (simp add: step_def)
qed

interpretation occKey_order: keyed_less occKeyLess id
  by unfold_locales (simp add: occKeyLess_def compareV4OccurrenceKeys_cmp3)

lemma map_of_AList_update: "map_of (AList.update k v vs) = (map_of vs)(k \<mapsto> v)"
  by (rule ext) (simp add: update_conv)

lemma vertices_fold:
  assumes "inj_on occurrenceKey (endOccurrences edges \<union> ran (map_of acc))" and "keyed (map_of acc)"
    and "distinct (map fst acc)"
  defines "vs \<equiv> fold (\<lambda>e vs. AList.update (occurrenceKey (pe_Right e)) (pe_Right e)
       (AList.update (occurrenceKey (pe_Left e)) (pe_Left e) vs)) edges acc"
  shows "keyed (map_of vs) \<and> distinct (map fst vs) \<and> ran (map_of vs) \<subseteq> endOccurrences edges \<union> ran (map_of acc) \<and>
    fst ` set vs = fst ` set acc \<union> occurrenceKey ` endOccurrences edges"
  using assms(1-3) unfolding vs_def
proof (induction edges arbitrary: acc)
  case Nil
  then show ?case by (simp add: endOccurrences_def)
next
  case (Cons e edges)
  let ?acc = "AList.update (occurrenceKey (pe_Right e)) (pe_Right e) (AList.update (occurrenceKey (pe_Left e)) (pe_Left e) acc)"
  have m: "map_of ?acc = (map_of acc)(occurrenceKey (pe_Left e) \<mapsto> pe_Left e, occurrenceKey (pe_Right e) \<mapsto> pe_Right e)"
    by (simp add: map_of_AList_update)
  have ran: "ran (map_of ?acc) \<subseteq> {pe_Left e, pe_Right e} \<union> ran (map_of acc)"
    unfolding m by (auto simp: ran_def)
  have k: "keyed (map_of ?acc)"
    unfolding m by (intro keyed_upd Cons.prems(2))
  have d: "distinct (map fst ?acc)"
    by (intro distinct_update Cons.prems(3))
  have f: "fst ` set ?acc = fst ` set acc \<union> {occurrenceKey (pe_Left e), occurrenceKey (pe_Right e)}"
    using map_of_AList_update [of "occurrenceKey (pe_Right e)" "pe_Right e" "AList.update (occurrenceKey (pe_Left e)) (pe_Left e) acc"]
      map_of_AList_update [of "occurrenceKey (pe_Left e)" "pe_Left e" acc]
    by (auto simp flip: dom_map_of_conv_image_fst)
  have ends: "endOccurrences (e # edges) = {pe_Left e, pe_Right e} \<union> endOccurrences edges"
    by (simp add: endOccurrences_def)
  have inj: "inj_on occurrenceKey (endOccurrences edges \<union> ran (map_of ?acc))"
    using ran by (intro inj_on_subset [OF Cons.prems(1)]) (auto simp: ends)
  from Cons.IH [OF inj k d] ran f show ?case
    by (auto simp: ends)
qed

lemma verticesOf_spec:
  assumes "inj_on occurrenceKey (endOccurrences edges)"
  shows "distinct (map fst (verticesOf edges)) \<and> fst ` set (verticesOf edges) = occurrenceKey ` endOccurrences edges \<and>
    (\<forall>occ \<in> endOccurrences edges. map_of (verticesOf edges) (occurrenceKey occ) = Some occ)"
proof -
  note spec = vertices_fold [of edges "[]", folded verticesOf_def]
  have v: "keyed (map_of (verticesOf edges))" "distinct (map fst (verticesOf edges))"
      "ran (map_of (verticesOf edges)) \<subseteq> endOccurrences edges" "fst ` set (verticesOf edges) = occurrenceKey ` endOccurrences edges"
    using spec assms by (auto simp: keyed_def)
  have "map_of (verticesOf edges) (occurrenceKey occ) = Some occ" if occ: "occ \<in> endOccurrences edges" for occ
  proof -
    have "occurrenceKey occ \<in> dom (map_of (verticesOf edges))"
      using v(4) occ by (simp add: dom_map_of_conv_image_fst)
    then obtain occ' where occ': "map_of (verticesOf edges) (occurrenceKey occ) = Some occ'"
      by blast
    with v(1,3) have "occurrenceKey occ' = occurrenceKey occ" "occ' \<in> endOccurrences edges"
      by (auto simp: keyed_def ran_def)
    with assms occ have "occ' = occ"
      by (auto dest: inj_onD)
    with occ' show ?thesis by simp
  qed
  with v show ?thesis by blast
qed

section \<open>One content key\<close>

definition keySet :: "v4InternalFinding \<Rightarrow> maximalOccurrenceKey set" where
  "keySet f = occurrenceKey ` set (if_Occurrences f)"

lemma endOccurrences_concat: "set (concat (map (\<lambda>e. [pe_Left e, pe_Right e]) edges)) = endOccurrences edges"
  by (auto simp: endOccurrences_def)

lemma linked_closed: "linked edges `` (occurrenceKey ` endOccurrences edges) \<subseteq> occurrenceKey ` endOccurrences edges"
  by (auto simp: linked_iff endOccurrences_def intro!: imageI)

lemma component_subset:
  "a \<in> occurrenceKey ` endOccurrences edges \<Longrightarrow> (linked edges)\<^sup>* `` {a} \<subseteq> occurrenceKey ` endOccurrences edges"
  using Image_closed_trancl [OF linked_closed, of edges] by blast

lemma componentFinding_spec:
  fixes k :: v4ExactContentKey
  assumes inj: "inj_on occurrenceKey (endOccurrences grp)" and d: "distinct c"
    and sub: "set c \<subseteq> occurrenceKey ` endOccurrences grp"
  defines "f \<equiv> componentFinding k (verticesOf grp) c"
  shows "keySet f = set c \<and> set (if_Occurrences f) \<subseteq> endOccurrences grp \<and> length (if_Occurrences f) = length c \<and>
    sorted_wrt (<) (map occurrenceKey (if_Occurrences f)) \<and>
    if_StableFingerprint f = v4StableFingerprintForContentKey k \<and> if_TokenCount f = ck_TokenCount k"
proof -
  let ?g = "\<lambda>k. the (map_of (verticesOf grp) k)"
  have g: "occurrenceKey (?g a) = a \<and> ?g a \<in> endOccurrences grp" if "a \<in> set c" for a
    using verticesOf_spec [OF inj] sub that by fastforce
  have occs: "if_Occurrences f = map ?g (sort_slice occKeyLess c)"
    by (simp add: f_def componentFinding_def Let_def)
  have keys: "map occurrenceKey (if_Occurrences f) = sort_slice occKeyLess c"
    unfolding occs using g by (simp add: o_def) (rule map_idI, simp)
  have "sorted_wrt (<) (sort_slice occKeyLess c)"
    using occKey_order.sort_slice_keys_sorted [of c] d by (simp add: strict_sorted_iff)
  moreover have "keySet f = set c"
    using keys by (metis keySet_def set_map set_sort_slice)
  ultimately show ?thesis
    using g by (auto simp: keys) (auto simp: occs f_def componentFinding_def Let_def)
qed

lemma materializeGroup_spec:
  assumes res: "materializeGroup k grp = Inr fs"
  shows "inj_on occurrenceKey (endOccurrences grp) \<and> keySet ` set fs = cloneComponents grp \<and> distinct (map keySet fs) \<and>
    (\<forall>f \<in> set fs. set (if_Occurrences f) \<subseteq> endOccurrences grp \<and> 2 \<le> length (if_Occurrences f) \<and>
      sorted_wrt (<) (map occurrenceKey (if_Occurrences f)) \<and>
      if_StableFingerprint f = v4StableFingerprintForContentKey k \<and> if_TokenCount f = ck_TokenCount k)"
proof -
  let ?adj = "sortedAdjacency (adjacencyOf grp)"
  let ?cs = "componentsFrom ?adj [] (sort_slice occKeyLess (map fst (verticesOf grp)))"
  let ?big = "filter (\<lambda>c. 2 \<le> length c) ?cs"
  have valid: "validateOccurrenceIdentityInvariants (concat (map (\<lambda>e. [pe_Left e, pe_Right e]) grp)) = Inr ()"
    and fs: "fs = map (componentFinding k (verticesOf grp)) ?big"
    using res by (auto simp: materializeGroup_def bindE_eq_Inr Let_def)
  have inj: "inj_on occurrenceKey (endOccurrences grp)"
    using valid validate_cases [of "concat (map (\<lambda>e. [pe_Left e, pe_Right e]) grp)"]
    by (metis Inl_Inr_False endOccurrences_concat)
  have starts: "set (sort_slice occKeyLess (map fst (verticesOf grp))) = occurrenceKey ` endOccurrences grp"
    using verticesOf_spec [OF inj] by simp
  note spec = evidence_graph.componentsFrom_spec [where visited = "[]" and edges = grp
      and starts = "sort_slice occKeyLess (map fst (verticesOf grp))", unfolded step_sortedAdjacency starts, simplified]
  have comps: "set ` set ?cs = (\<lambda>a. (linked grp)\<^sup>* `` {occurrenceKey a}) ` endOccurrences grp"
    using spec by (simp add: image_image)
  have d: "distinct c" if "c \<in> set ?cs" for c
    using spec that by blast
  have sub: "set c \<subseteq> occurrenceKey ` endOccurrences grp" if "c \<in> set ?cs" for c
  proof -
    have "set c \<in> (\<lambda>a. (linked grp)\<^sup>* `` {occurrenceKey a}) ` endOccurrences grp"
      using comps that by blast
    then show ?thesis
      using component_subset by blast
  qed
  have cf: "keySet (componentFinding k (verticesOf grp) c) = set c" if "c \<in> set ?cs" for c
    using componentFinding_spec [OF inj d sub] that by blast
  have "set ` set ?big = {C \<in> set ` set ?cs. 2 \<le> card C}"
    using d by (auto simp: distinct_card)
  also have "\<dots> = cloneComponents grp"
    unfolding comps by (auto simp: cloneComponents_def)
  finally have "keySet ` set fs = cloneComponents grp"
    using cf by (simp add: fs image_image cong: image_cong_simp)
  moreover have "map keySet fs = map set ?big"
    using cf by (simp add: fs)
  moreover have "distinct (map set ?big)"
    using spec by (simp add: distinct_map_filter)
  moreover have "set (if_Occurrences f) \<subseteq> endOccurrences grp \<and> 2 \<le> length (if_Occurrences f) \<and>
      sorted_wrt (<) (map occurrenceKey (if_Occurrences f)) \<and>
      if_StableFingerprint f = v4StableFingerprintForContentKey k \<and> if_TokenCount f = ck_TokenCount k"
    if "f \<in> set fs" for f
    using that componentFinding_spec [OF inj d sub] by (auto simp: fs)
  ultimately show ?thesis
    using inj by auto
qed

section \<open>Evidence is exact\<close>

text \<open>An occurrence that was read off the analysed files under a content key.\<close>

definition exactOccurrence :: "fileMap \<Rightarrow> v4ExactContentKey \<Rightarrow> maximalOccurrence \<Rightarrow> bool" where
  "exactOccurrence files k occ \<longleftrightarrow>
     (\<exists>file. map_of files (mo_Path occ) = Some file \<and> v4ExactContentKeyForOccurrence file occ = Inr k \<and>
       mo_StartLine occ = a_Lines (af_Analysis file) ! nat (mo_StartPos occ) \<and>
       mo_EndLine occ = a_Lines (af_Analysis file) ! nat (mo_EndPos occ))"

lemma occurrenceForRange_iff:
  "v4OccurrenceForRange path span files = Inr occ \<longleftrightarrow>
     (\<exists>file. map_of files path = Some file \<and> 0 \<le> r_StartPos span \<and> r_StartPos span \<le> r_EndPos span \<and>
       r_EndPos span < int (length (a_Lines (af_Analysis file))) \<and>
       occ = \<lparr>mo_Path = path, mo_StartPos = r_StartPos span, mo_EndPos = r_EndPos span,
         mo_StartLine = a_Lines (af_Analysis file) ! nat (r_StartPos span),
         mo_EndLine = a_Lines (af_Analysis file) ! nat (r_EndPos span)\<rparr>)"
  by (auto simp: v4OccurrenceForRange_def split: option.splits)

lemma evidence_exact:
  assumes "v4PairEvidenceFromChain chain files = Inr e"
  shows "exactOccurrence files (pe_ContentKey e) (pe_Left e) \<and> exactOccurrence files (pe_ContentKey e) (pe_Right e)"
proof -
  obtain m ms where ms: "ch_Matches chain = m # ms"
    using assms by (cases "ch_Matches chain") (auto simp: v4PairEvidenceFromChain_def)
  obtain l r k k' where l: "v4OccurrenceForRange (w_Path (m_Left m)) (ch_LeftRange chain) files = Inr l"
      "v4ExactContentKeyForOccurrence (the (map_of files (w_Path (m_Left m)))) l = Inr k"
    and r: "v4OccurrenceForRange (w_Path (m_Right m)) (ch_RightRange chain) files = Inr r"
      "v4ExactContentKeyForOccurrence (the (map_of files (w_Path (m_Right m)))) r = Inr k'"
    and kk: "ck_TokenCount k = ck_TokenCount k'" "ck_Digest k = ck_Digest k'"
    and e: "pe_ContentKey e = k" "(pe_Left e, pe_Right e) = (l, r) \<or> (pe_Left e, pe_Right e) = (r, l)"
    using assms
    by (auto simp: v4PairEvidenceFromChain_def ms bindE_eq_Inr Let_def split: if_splits)
  have "k = k'"
    using kk by (simp add: v4ExactContentKey.expand)
  with l r have "exactOccurrence files k l" "exactOccurrence files k r"
    by (auto simp: exactOccurrence_def occurrenceForRange_iff)
  with e show ?thesis
    by auto
qed


text \<open>The content key is a function of path and token range.\<close>

lemma exactOccurrence_unique:
  assumes "exactOccurrence files k a" and "exactOccurrence files k' b" and "occurrenceKey a = occurrenceKey b"
  shows "k = k' \<and> a = b"
proof -
  have eq: "mo_Path a = mo_Path b" "mo_StartPos a = mo_StartPos b" "mo_EndPos a = mo_EndPos b"
    using assms(3) by (auto simp: occurrenceKey_def)
  have "v4ExactContentKeyForOccurrence af a = v4ExactContentKeyForOccurrence af b" for af
    unfolding v4ExactContentKeyForOccurrence_def eq ..
  with assms(1,2) eq have "k = k'" "mo_StartLine a = mo_StartLine b" "mo_EndLine a = mo_EndLine b"
    by (auto simp: exactOccurrence_def)
  with assms(3) show ?thesis
    by (simp add: occurrence_eq_iff)
qed

section \<open>All content keys\<close>

lemma cloneComponents_cong: "set a = set b \<Longrightarrow> cloneComponents a = cloneComponents b"
  by (simp add: cloneComponents_def endOccurrences_def linked_def)

lemma cloneComponents_disjoint:
  assumes "C \<in> cloneComponents edges" and "D \<in> cloneComponents edges" and "C \<noteq> D"
  shows "C \<inter> D = {}"
proof (rule ccontr)
  assume "C \<inter> D \<noteq> {}"
  then obtain x a b where *: "C = (linked edges)\<^sup>* `` {a}" "D = (linked edges)\<^sup>* `` {b}"
      "(a, x) \<in> (linked edges)\<^sup>*" "(b, x) \<in> (linked edges)\<^sup>*"
    using assms(1,2) by (auto simp: cloneComponents_def)
  have "sym ((linked edges)\<^sup>*)"
    using evidence_graph.sym_step [where edges = edges] by (simp add: step_sortedAdjacency)
  with *(3,4) have "(a, b) \<in> (linked edges)\<^sup>*" "(b, a) \<in> (linked edges)\<^sup>*"
    by (meson rtrancl_trans symD)+
  with *(1,2) have "C = D"
    by (auto intro: rtrancl_trans)
  with assms(3) show False ..
qed

lemma materialize_groups:
  assumes "v4MaterializeComponents chs files = Inr findings"
  obtains evidence where "traverse (\<lambda>chain. v4PairEvidenceFromChain chain files) chs = Inr evidence"
    and "\<exists>keys fss. distinct keys \<and> set keys = pe_ContentKey ` set evidence \<and> findings = concat fss \<and>
      list_all2 (\<lambda>k fs. materializeGroup k (filter (\<lambda>e. pe_ContentKey e = k) (sort_slice edgeLess evidence)) = Inr fs) keys fss"
proof (cases "chs = []")
  case True
  with assms have "findings = []"
    by (simp add: v4MaterializeComponents_def)
  with True show ?thesis
    by (intro that [of "[]"]) (auto intro!: exI [of _ "[]"])
next
  case False
  with assms obtain evidence where ev: "traverse (\<lambda>chain. v4PairEvidenceFromChain chain files) chs = Inr evidence"
    by (auto simp: v4MaterializeComponents_def bindE_eq_Inr)
  let ?edges = "sort_slice edgeLess evidence"
  let ?keys = "sort_slice contentKeyLess (map fst (group_by pe_ContentKey id ?edges))"
  from assms False ev obtain fss where fss: "findings = concat fss"
      "traverse (\<lambda>k. materializeGroup k (filter (\<lambda>e. pe_ContentKey e = k) ?edges)) ?keys = Inr fss"
    by (auto simp: v4MaterializeComponents_def bindE_eq_Inr Let_def)
  have "distinct ?keys" "set ?keys = pe_ContentKey ` set evidence"
    by (simp_all add: keys_group_by)
  with fss ev show ?thesis
    by (intro that [of evidence] exI [of _ ?keys] exI [of _ fss]) (auto simp: traverse_eq_Inr)
qed

text \<open>
  C27.  Materialisation refines the abstract specification of clone components.  When it
  succeeds, every chain gave an evidence edge, and the findings are precisely, for every content key,
  the connected components with at least two occurrences of the graph of that key's edges, with
  the stable fingerprint and token count of the key; the occurrences of a finding are strictly
  sorted by path and token range.
\<close>

theorem materialize_refines_components:
  assumes "v4MaterializeComponents chs files = Inr findings"
  shows "\<exists>edges. traverse (\<lambda>chain. v4PairEvidenceFromChain chain files) chs = Inr edges \<and>
    (\<lambda>f. (if_StableFingerprint f, if_TokenCount f, occurrenceKey ` set (if_Occurrences f))) ` set findings =
      {(v4StableFingerprintForContentKey k, ck_TokenCount k, C) | k C.
         C \<in> cloneComponents (filter (\<lambda>e. pe_ContentKey e = k) edges)} \<and>
    (\<forall>f \<in> set findings. 2 \<le> length (if_Occurrences f) \<and> sorted_wrt (<) (map occurrenceKey (if_Occurrences f)))"
proof -
  from materialize_groups [OF assms] obtain edges where
    ev: "traverse (\<lambda>chain. v4PairEvidenceFromChain chain files) chs = Inr edges" and
    "\<exists>keys fss. distinct keys \<and> set keys = pe_ContentKey ` set edges \<and> findings = concat fss \<and>
      list_all2 (\<lambda>k fs. materializeGroup k (filter (\<lambda>e. pe_ContentKey e = k) (sort_slice edgeLess edges)) = Inr fs) keys fss" .
  then obtain keys fss where keys: "set keys = pe_ContentKey ` set edges" and fss: "findings = concat fss"
    and grps: "list_all2 (\<lambda>k fs. materializeGroup k (filter (\<lambda>e. pe_ContentKey e = k) (sort_slice edgeLess edges)) = Inr fs) keys fss"
    by (elim exE conjE)
  let ?proj = "\<lambda>f. (if_StableFingerprint f, if_TokenCount f, keySet f)"
  let ?grp = "\<lambda>k. filter (\<lambda>e. pe_ContentKey e = k) edges"
  have comps: "cloneComponents (filter (\<lambda>e. pe_ContentKey e = k) (sort_slice edgeLess edges)) = cloneComponents (?grp k)" for k
    by (rule cloneComponents_cong) simp
  have "?proj ` set (concat fss) = (\<Union>k \<in> set keys. (\<lambda>C. (v4StableFingerprintForContentKey k, ck_TokenCount k, C)) ` cloneComponents (?grp k)) \<and>
      (\<forall>f \<in> set (concat fss). 2 \<le> length (if_Occurrences f) \<and> sorted_wrt (<) (map occurrenceKey (if_Occurrences f)))"
    using grps
  proof (induction keys fss rule: list_all2_induct)
    case (Cons k ks fs fss)
    from materializeGroup_spec [OF Cons.hyps(1)]
    have ks: "keySet ` set fs = cloneComponents (?grp k)"
      and each: "\<And>f. f \<in> set fs \<Longrightarrow> if_StableFingerprint f = v4StableFingerprintForContentKey k \<and> if_TokenCount f = ck_TokenCount k \<and>
        2 \<le> length (if_Occurrences f) \<and> sorted_wrt (<) (map occurrenceKey (if_Occurrences f))"
      by (auto simp: comps)
    have "?proj ` set fs = (\<lambda>C. (v4StableFingerprintForContentKey k, ck_TokenCount k, C)) ` cloneComponents (?grp k)"
      unfolding ks [symmetric] image_image using each by (intro image_cong) auto
    with Cons.IH each show ?case
      by (auto simp: image_Un)
  qed simp
  moreover have "cloneComponents (?grp k) = {}" if "k \<notin> set keys" for k
  proof -
    have "?grp k = []"
      using that keys by (auto simp: filter_empty_conv)
    then show ?thesis
      by (simp add: cloneComponents_def endOccurrences_def)
  qed
  then have "(\<Union>k \<in> set keys. (\<lambda>C. (v4StableFingerprintForContentKey k, ck_TokenCount k, C)) ` cloneComponents (?grp k)) =
      {(v4StableFingerprintForContentKey k, ck_TokenCount k, C) | k C. C \<in> cloneComponents (?grp k)}"
    by blast
  ultimately show ?thesis
    using ev by (auto simp: fss keySet_def)
qed

text \<open>
  A successful materialisation is consistent with the files: every occurrence of a finding was
  read from an analysed file under one exact content key, whose digest gives the
  finding's fingerprint and whose token count is both the finding's and the length of the
  occurrence, and no occurrence belongs to two findings.
\<close>

lemma findings_exact_and_disjoint:
  assumes "v4MaterializeComponents chs files = Inr findings"
  shows "(\<forall>f \<in> set findings. \<exists>k. if_StableFingerprint f = v4StableFingerprintForContentKey k \<and>
      if_TokenCount f = ck_TokenCount k \<and>
      2 \<le> length (if_Occurrences f) \<and> sorted_wrt (<) (map occurrenceKey (if_Occurrences f)) \<and>
      (\<forall>occ \<in> set (if_Occurrences f). exactOccurrence files k occ \<and> mo_EndPos occ - mo_StartPos occ + 1 = if_TokenCount f)) \<and>
    sorted_wrt (\<lambda>f g. occurrenceKey ` set (if_Occurrences f) \<inter> occurrenceKey ` set (if_Occurrences g) = {}) findings"
proof -
  from materialize_groups [OF assms] obtain edges where
    ev: "traverse (\<lambda>chain. v4PairEvidenceFromChain chain files) chs = Inr edges" and
    "\<exists>keys fss. distinct keys \<and> set keys = pe_ContentKey ` set edges \<and> findings = concat fss \<and>
      list_all2 (\<lambda>k fs. materializeGroup k (filter (\<lambda>e. pe_ContentKey e = k) (sort_slice edgeLess edges)) = Inr fs) keys fss" .
  then obtain keys fss where d: "distinct keys" and fss: "findings = concat fss"
    and grps: "list_all2 (\<lambda>k fs. materializeGroup k (filter (\<lambda>e. pe_ContentKey e = k) (sort_slice edgeLess edges)) = Inr fs) keys fss"
    by (elim exE conjE)
  have exact: "exactOccurrence files k occ" if "occ \<in> endOccurrences (filter (\<lambda>e. pe_ContentKey e = k) (sort_slice edgeLess edges))" for k occ
    using that traverse_mem [OF ev] evidence_exact by (fastforce simp: endOccurrences_def)
  define ok where "ok k f \<longleftrightarrow> if_StableFingerprint f = v4StableFingerprintForContentKey k \<and> if_TokenCount f = ck_TokenCount k \<and>
      2 \<le> length (if_Occurrences f) \<and> sorted_wrt (<) (map occurrenceKey (if_Occurrences f)) \<and>
      (\<forall>occ \<in> set (if_Occurrences f). exactOccurrence files k occ)" for k and f :: v4InternalFinding
  have grp: "(\<forall>f \<in> set fs. ok k f) \<and> sorted_wrt (\<lambda>f g. keySet f \<inter> keySet g = {}) fs"
    if "materializeGroup k (filter (\<lambda>e. pe_ContentKey e = k) (sort_slice edgeLess edges)) = Inr fs" for k fs
  proof -
    note spec = materializeGroup_spec [OF that]
    have "\<forall>f \<in> set fs. ok k f"
      using spec exact unfolding ok_def by blast
    moreover have "keySet (fs ! i) \<inter> keySet (fs ! j) = {}" if "i < j" "j < length fs" for i j
    proof (rule cloneComponents_disjoint)
      show "keySet (fs ! i) \<noteq> keySet (fs ! j)"
        using spec that by (auto simp: distinct_conv_nth)
    qed (use spec that in auto)
    ultimately show ?thesis
      by (simp add: sorted_wrt_iff_nth_less)
  qed
  have cross: "keySet f \<inter> keySet g = {}" if "ok k f" "ok k' g" "k \<noteq> k'" for k k' f g
    using that exactOccurrence_unique [of files k _ k'] by (fastforce simp: ok_def keySet_def)
  have "sorted_wrt (\<lambda>f g. keySet f \<inter> keySet g = {}) (concat fss) \<and> (\<forall>f \<in> set (concat fss). \<exists>k \<in> set keys. ok k f)"
    using grps d
  proof (induction keys fss rule: list_all2_induct)
    case (Cons k ks fs fss)
    from grp [OF Cons.hyps(1)] Cons.IH Cons.prems show ?case
      by (fastforce simp: sorted_wrt_append dest: cross)
  qed simp
  moreover have "mo_EndPos occ - mo_StartPos occ + 1 = ck_TokenCount k" if "exactOccurrence files k occ" for k occ
    using that by (auto simp: exactOccurrence_def content_key_iff)
  ultimately show ?thesis
    unfolding fss keySet_def ok_def by (metis (no_types, lifting))
qed

section \<open>Two one-token files\<close>

definition demoTokenFile :: "string \<Rightarrow> gotoken list \<Rightarrow> v4AnalyzedFile" where
  "demoTokenFile path toks =
     (let lines = map int [1..<Suc (length toks)]; norm = map normalizeV4Token toks
      in \<lparr>af_FileTokens = \<lparr>ft_path = path, ft_tokens = toks, ft_lines = lines\<rparr>,
          af_Analysis = \<lparr>a_Path = path, a_Tokens = toks, a_Lines = lines,
            a_Entries = map (\<lambda>t. \<lparr>e_Pos = 0, e_Tok = t\<rparr>) toks, a_Regions = [],
            a_TokenOwner = map (\<lambda>_. zeroRegionID) toks, a_NormalizedTokens = norm\<rparr>,
          af_NormalizedTokens = norm\<rparr>)"

definition demoFiles :: fileMap where
  "demoFiles = [(''a'', demoTokenFile ''a'' [T_IDENT]), (''b'', demoTokenFile ''b'' [T_IDENT])]"

definition demoContentKey :: v4ExactContentKey where
  "demoContentKey = ContentKey (v4ExactNormalizedDigest [''IDENT'']) 1"

lemma demo_evidence:
  "v4PairEvidenceFromChain (demoChain ''a'' ''b'' (0, 0) (0, 0)) demoFiles =
     Inr \<lparr>pe_ContentKey = demoContentKey, pe_Left = \<lparr>mo_Path = ''a'', mo_StartPos = 0, mo_EndPos = 0, mo_StartLine = 1, mo_EndLine = 1\<rparr>,
       pe_Right = \<lparr>mo_Path = ''b'', mo_StartPos = 0, mo_EndPos = 0, mo_StartLine = 1, mo_EndLine = 1\<rparr>, pe_LineCount = 1\<rparr>"
  by (simp add: v4PairEvidenceFromChain_def demoChain_def demoFiles_def demoTokenFile_def v4OccurrenceForRange_def
      v4ExactContentKeyForOccurrence_def validateV4AnalyzedFile_def demoContentKey_def tokenSlice_def
      compareV4MaximalOccurrences_def compareV4OccurrenceKeys_def occurrenceKey_def compareStrings_def lineSpan_def Let_def)

definition demoFinding :: v4InternalFinding where
  "demoFinding = \<lparr>if_StableFingerprint = v4StableFingerprintForContentKey demoContentKey, if_TokenCount = 1, if_LineCount = 1,
     if_Occurrences = [\<lparr>mo_Path = ''a'', mo_StartPos = 0, mo_EndPos = 0, mo_StartLine = 1, mo_EndLine = 1\<rparr>,
       \<lparr>mo_Path = ''b'', mo_StartPos = 0, mo_EndPos = 0, mo_StartLine = 1, mo_EndLine = 1\<rparr>]\<rparr>"

lemma demo_materialize:
  "v4MaterializeComponents [demoChain ''a'' ''b'' (0, 0) (0, 0)] demoFiles = Inr [demoFinding]"
  by (simp add: v4MaterializeComponents_def demo_evidence digestStep_def group_by_def lookup_list_def
      materializeGroup_def validateOccurrenceIdentityInvariants_def canonicalStep_def occurrenceKey_def
      verticesOf_def adjacencyOf_def sortedAdjacency_def sort_slice_def occKeyLess_def compareV4OccurrenceKeys_def
      compareStrings_def componentFinding_def lineSpan_def demoFinding_def demoContentKey_def Let_def)

theorem materialize_refines_components_witness:
  "v4MaterializeComponents [demoChain ''a'' ''b'' (0, 0) (0, 0)] demoFiles = Inr [demoFinding] \<and>
   (\<exists>edges. traverse (\<lambda>chain. v4PairEvidenceFromChain chain demoFiles) [demoChain ''a'' ''b'' (0, 0) (0, 0)] = Inr edges \<and>
     {OccKey ''a'' 0 0, OccKey ''b'' 0 0} \<in> (\<Union>k. cloneComponents (filter (\<lambda>e. pe_ContentKey e = k) edges)))"
proof -
  let ?proj = "\<lambda>f. (if_StableFingerprint f, if_TokenCount f, occurrenceKey ` set (if_Occurrences f))"
  from materialize_refines_components [OF demo_materialize] obtain edges where
    e: "traverse (\<lambda>chain. v4PairEvidenceFromChain chain demoFiles) [demoChain ''a'' ''b'' (0, 0) (0, 0)] = Inr edges"
    and p: "?proj ` set [demoFinding] = {(v4StableFingerprintForContentKey k, ck_TokenCount k, C) | k C.
         C \<in> cloneComponents (filter (\<lambda>e. pe_ContentKey e = k) edges)}"
    by blast
  have "?proj demoFinding \<in> ?proj ` set [demoFinding]"
    by simp
  then have "\<exists>k. occurrenceKey ` set (if_Occurrences demoFinding) \<in> cloneComponents (filter (\<lambda>e. pe_ContentKey e = k) edges)"
    unfolding p by blast
  moreover have "occurrenceKey ` set (if_Occurrences demoFinding) = {OccKey ''a'' 0 0, OccKey ''b'' 0 0}"
    by (simp add: demoFinding_def occurrenceKey_def)
  ultimately show ?thesis
    using e demo_materialize by auto
qed

end
