(* ===== verification/Dup_CompShadow.thy ===== *)
theory Dup_CompShadow
  imports Dup_Components "HOL-Library.Sublist"
begin

text \<open>
  Component shadows: the two suppression passes of \<open>v4_component_merge.go\<close> that run on materialised
  findings.  Both are instances of one loop, parameterised by the rule that decides whether a
  small finding is a shadow of a large one; the locale \<open>shadow_rule\<close> states what the loop needs
  of a rule, and both rules of the code interpret it.
\<close>

section \<open>Comparing slices\<close>

text \<open>
  A slice expression panics when its bounds are out of order or beyond the slice.  (Go checks
  the upper bound against the capacity; \<open>suppression_total\<close> shows that no bound is beyond the
  length for findings that were read off the files.)
\<close>

definition sliceExpr :: "'a list \<Rightarrow> int \<Rightarrow> int \<Rightarrow> dupError + 'a list" where
  "sliceExpr xs lo hi =
     (if 0 \<le> lo \<and> lo \<le> hi \<and> hi \<le> int (length xs) then Inr (take (nat (hi - lo)) (drop (nat lo) xs))
      else Inl IndexPanic)"

definition equalNormalizedSubslice ::
  "v4AnalyzedFile \<Rightarrow> maximalOccurrence \<Rightarrow> maximalOccurrence \<Rightarrow> dupError + bool" where
  "equalNormalizedSubslice file small large =
     (let relativeStart = mo_StartPos small - mo_StartPos large;
          relativeEnd = relativeStart + mo_EndPos small - mo_StartPos small;
          largeTokens = mo_EndPos large - mo_StartPos large + 1
      in if relativeStart < 0 \<or> relativeEnd \<ge> largeTokens then Inr False
         else bindE (sliceExpr (af_NormalizedTokens file) (mo_StartPos small) (mo_EndPos small + 1)) (\<lambda>actual.
              bindE (sliceExpr (af_NormalizedTokens file) (mo_StartPos large + relativeStart)
                (mo_StartPos large + relativeEnd + 1)) (\<lambda>wanted.
              if length actual \<noteq> length wanted then Inr False
              else Inr (list_all (\<lambda>i. actual ! i = wanted ! i) [0..<length actual]))))"

section \<open>Structural shadows\<close>

definition inOccurrence :: "maximalOccurrence \<Rightarrow> maximalOccurrence \<Rightarrow> bool" where
  "inOccurrence smallOcc largeOcc \<longleftrightarrow>
     \<not> (mo_Path largeOcc \<noteq> mo_Path smallOcc \<or> mo_StartPos smallOcc < mo_StartPos largeOcc \<or>
        mo_EndPos smallOcc > mo_EndPos largeOcc)"

text \<open>The loop over the small occurrences; it stops at a missing or a second candidate.\<close>

fun structuralLoop ::
  "fileMap \<Rightarrow> maximalOccurrence list \<Rightarrow> bool \<Rightarrow> int option \<Rightarrow> maximalOccurrence list \<Rightarrow> dupError + bool" where
  "structuralLoop files largeOccs strict expected [] = Inr strict"
| "structuralLoop files largeOccs strict expected (smallOcc # rest) =
     (case filter (inOccurrence smallOcc) largeOccs of
        [candidate] \<Rightarrow>
          (let offset = mo_StartPos smallOcc - mo_StartPos candidate
           in if expected \<noteq> None \<and> expected \<noteq> Some offset then Inr False
              else case map_of files (mo_Path smallOcc) of
                None \<Rightarrow> Inr False
              | Some file \<Rightarrow>
                  bindE (equalNormalizedSubslice file smallOcc candidate) (\<lambda>eq.
                    if \<not> eq then Inr False
                    else structuralLoop files largeOccs
                      (strict \<or> mo_StartPos smallOcc \<noteq> mo_StartPos candidate \<or> mo_EndPos smallOcc \<noteq> mo_EndPos candidate)
                      (Some offset) rest))
      | _ \<Rightarrow> Inr False)"

definition componentIsStructuralShadow ::
  "fileMap \<Rightarrow> v4InternalFinding \<Rightarrow> v4InternalFinding \<Rightarrow> dupError + bool" where
  "componentIsStructuralShadow files small large =
     (if if_TokenCount large \<le> if_TokenCount small then Inr False
      else structuralLoop files (if_Occurrences large) False None (if_Occurrences small))"

text \<open>The inner loop over the large findings with its \<open>break\<close>, and the outer loop.\<close>

fun existsE :: "('a \<Rightarrow> 'e + bool) \<Rightarrow> 'a list \<Rightarrow> 'e + bool" where
  "existsE f [] = Inr False"
| "existsE f (x # xs) = bindE (f x) (\<lambda>b. if b then Inr True else existsE f xs)"

definition suppressWhere ::
  "(v4InternalFinding \<Rightarrow> v4InternalFinding \<Rightarrow> dupError + bool) \<Rightarrow> v4InternalFinding list \<Rightarrow>
   dupError + v4InternalFinding list" where
  "suppressWhere rule findings =
     bindE (traverse (\<lambda>small. existsE (\<lambda>large.
         if small = large then Inr False else rule (findings ! small) (findings ! large))
         [0..<length findings]) [0..<length findings])
       (\<lambda>shadowed. Inr (map fst (filter (\<lambda>(f, s). \<not> s) (zip findings shadowed))))"

definition structuralRule :: "fileMap \<Rightarrow> v4InternalFinding \<Rightarrow> v4InternalFinding \<Rightarrow> dupError + bool" where
  "structuralRule files small large =
     (if length (if_Occurrences large) < length (if_Occurrences small) then Inr False
      else componentIsStructuralShadow files small large)"

definition v4SuppressComponentShadows ::
  "v4InternalFinding list \<Rightarrow> fileMap \<Rightarrow> dupError + v4InternalFinding list" where
  "v4SuppressComponentShadows findings files =
     (if length findings < 2 \<or> files = [] then Inr findings
      else suppressWhere (structuralRule files) findings)"

section \<open>Shadows inside one occurrence\<close>

definition allOccurrencesSharePath :: "maximalOccurrence list \<Rightarrow> bool" where
  "allOccurrencesSharePath occs =
     (case occs of [] \<Rightarrow> False | occ # rest \<Rightarrow> list_all (\<lambda>x. mo_Path x = mo_Path occ) rest)"

definition containsMultiplePaths :: "maximalOccurrence list \<Rightarrow> bool" where
  "containsMultiplePaths occs =
     (if length occs < 2 then False else mo_Path (occs ! 0) \<noteq> mo_Path (occs ! (length occs - 1)))"

definition strictlyInside :: "string \<Rightarrow> maximalOccurrence \<Rightarrow> maximalOccurrence \<Rightarrow> bool" where
  "strictlyInside path occ candidate \<longleftrightarrow>
     \<not> (mo_Path candidate \<noteq> path \<or> mo_StartPos occ \<le> mo_StartPos candidate \<or>
        mo_EndPos occ \<ge> mo_EndPos candidate)"

fun containedLoop ::
  "fileMap \<Rightarrow> string \<Rightarrow> maximalOccurrence list \<Rightarrow> maximalOccurrence list \<Rightarrow> dupError + bool" where
  "containedLoop files path largeOccs [] = Inr True"
| "containedLoop files path largeOccs (occ # rest) =
     (case filter (strictlyInside path occ) largeOccs of
        [outer] \<Rightarrow>
          (case map_of files path of
             None \<Rightarrow> Inr False
           | Some file \<Rightarrow>
               bindE (equalNormalizedSubslice file occ outer) (\<lambda>eq.
                 if \<not> eq then Inr False else containedLoop files path largeOccs rest))
      | _ \<Rightarrow> Inr False)"

definition containedInOneCrossFileOccurrence ::
  "fileMap \<Rightarrow> v4InternalFinding \<Rightarrow> v4InternalFinding \<Rightarrow> dupError + bool" where
  "containedInOneCrossFileOccurrence files small large =
     (case if_Occurrences small of [] \<Rightarrow> Inl IndexPanic
      | occ # _ \<Rightarrow> containedLoop files (mo_Path occ) (if_Occurrences large) (if_Occurrences small))"

definition sameFileRule :: "fileMap \<Rightarrow> v4InternalFinding \<Rightarrow> v4InternalFinding \<Rightarrow> dupError + bool" where
  "sameFileRule files small large =
     (if length (if_Occurrences small) < 2 \<or> \<not> allOccurrencesSharePath (if_Occurrences small) then Inr False
      else if length (if_Occurrences large) \<le> 1 \<or> if_TokenCount large \<le> if_TokenCount small \<or>
        \<not> containsMultiplePaths (if_Occurrences large) then Inr False
      else containedInOneCrossFileOccurrence files small large)"

definition v4SuppressContainedSameFileShadows ::
  "v4InternalFinding list \<Rightarrow> fileMap \<Rightarrow> dupError + v4InternalFinding list" where
  "v4SuppressContainedSameFileShadows findings files = suppressWhere (sameFileRule files) findings"

section \<open>The content comparison\<close>

text \<open>
   Both slices are taken from the same file and the second bound is recomputed from the first, so
  they are one slice: the comparison of contents never rejects anything the range check accepts.
\<close>

theorem content_comparison_vacuous:
  assumes "equalNormalizedSubslice file small large = Inr b"
  shows "b \<longleftrightarrow> mo_StartPos large \<le> mo_StartPos small \<and> mo_EndPos small \<le> mo_EndPos large"
  using assms
  by (auto simp: equalNormalizedSubslice_def Let_def bindE_eq_Inr list_all_iff split: if_splits)

theorem content_comparison_vacuous_witness:
  "equalNormalizedSubslice (demoTokenFile ''a'' [T_IDENT, T_INT, T_STRING]) (demoOcc ''a'' 1 2) (demoOcc ''a'' 0 2) = Inr True \<and>
   mo_StartPos (demoOcc ''a'' 0 2) \<le> mo_StartPos (demoOcc ''a'' 1 2)"
proof -
  have eq: "equalNormalizedSubslice (demoTokenFile ''a'' [T_IDENT, T_INT, T_STRING]) (demoOcc ''a'' 1 2) (demoOcc ''a'' 0 2) = Inr True"
    by code_simp
  with content_comparison_vacuous [OF eq] show ?thesis by blast
qed

lemma sliceExpr_ok: "0 \<le> lo \<Longrightarrow> lo \<le> hi \<Longrightarrow> hi \<le> int (length xs) \<Longrightarrow> \<exists>ys. sliceExpr xs lo hi = Inr ys"
  by (simp add: sliceExpr_def)

lemma equalNormalizedSubslice_total:
  "0 \<le> mo_StartPos small \<Longrightarrow> mo_StartPos small \<le> mo_EndPos small \<Longrightarrow>
   mo_EndPos small < int (length (af_NormalizedTokens file)) \<Longrightarrow> \<exists>b. equalNormalizedSubslice file small large = Inr b"
  by (auto simp: equalNormalizedSubslice_def Let_def sliceExpr_def)

lemma subseq_set_subset: "subseq xs ys \<Longrightarrow> set xs \<subseteq> set ys"
  by (auto simp: subseq_conv_nths dest: in_set_nthsD)

section \<open>Rules and what they guarantee\<close>

definition coveredBy :: "v4InternalFinding \<Rightarrow> v4InternalFinding \<Rightarrow> bool" where
  "coveredBy f g \<longleftrightarrow> (\<forall>occ \<in> set (if_Occurrences f). \<exists>occ' \<in> set (if_Occurrences g). inOccurrence occ occ')"

lemma inOccurrence_refl [simp]: "inOccurrence occ occ"
  by (simp add: inOccurrence_def)

lemma inOccurrence_trans: "inOccurrence a b \<Longrightarrow> inOccurrence b c \<Longrightarrow> inOccurrence a c"
  by (auto simp: inOccurrence_def)

lemma coveredBy_refl [simp]: "coveredBy f f"
  unfolding coveredBy_def using inOccurrence_refl by blast

lemma coveredBy_trans: "coveredBy f g \<Longrightarrow> coveredBy g h \<Longrightarrow> coveredBy f h"
  unfolding coveredBy_def by (meson inOccurrence_trans)

lemma existsE_Inr:
  "existsE f xs = Inr b \<Longrightarrow> b \<longleftrightarrow> (\<exists>x \<in> set xs. f x = Inr True)"
  by (induction xs) (auto simp: bindE_eq_Inr split: if_splits)

lemma existsE_total: "(\<And>x. x \<in> set xs \<Longrightarrow> \<exists>b. f x = Inr b) \<Longrightarrow> \<exists>b. existsE f xs = Inr b"
  by (induction xs) (auto simp: bindE_eq_Inr, metis bindE_simps(2))

lemma traverse_ex: "(\<And>x. x \<in> set xs \<Longrightarrow> \<exists>y. f x = Inr y) \<Longrightarrow> \<exists>ys. traverse f xs = Inr ys"
  by (induction xs) (auto, metis bindE_simps(2))

locale shadow_rule =
  fixes rule :: "v4InternalFinding \<Rightarrow> v4InternalFinding \<Rightarrow> dupError + bool"
  assumes rule_grows: "rule small large = Inr True \<Longrightarrow> if_TokenCount small < if_TokenCount large"
    and rule_covers: "rule small large = Inr True \<Longrightarrow> coveredBy small large"
begin

lemma suppressWhere_mem:
  assumes "suppressWhere rule findings = Inr out"
  shows "subseq out findings \<and> (\<forall>f. f \<in> set out \<longleftrightarrow> f \<in> set findings \<and> (\<forall>g \<in> set findings. rule f g \<noteq> Inr True))"
proof -
  let ?n = "[0..<length findings]"
  let ?f = "\<lambda>small. existsE (\<lambda>large. if small = large then Inr False else rule (findings ! small) (findings ! large)) ?n"
  obtain sh where sh: "traverse ?f ?n = Inr sh" and out: "out = map fst (filter (\<lambda>(f, s). \<not> s) (zip findings sh))"
    using assms by (auto simp: suppressWhere_def bindE_eq_Inr)
  have len: "length sh = length findings"
    using sh by (auto simp: traverse_eq_Inr dest: list_all2_lengthD)
  have flag: "sh ! i \<longleftrightarrow> (\<exists>g \<in> set findings. rule (findings ! i) g = Inr True)" if i: "i < length findings" for i
  proof -
    have n: "?n ! i = i" "i < length ?n"
      using i by simp_all
    have "?f i = Inr (sh ! i)"
      using list_all2_nthD [OF sh [unfolded traverse_eq_Inr] n(2)] unfolding n(1) .
    from existsE_Inr [OF this] have "sh ! i \<longleftrightarrow> (\<exists>j < length findings. i \<noteq> j \<and> rule (findings ! i) (findings ! j) = Inr True)"
      by (auto split: if_splits)
    moreover have "rule (findings ! i) (findings ! i) \<noteq> Inr True"
      using rule_grows [of "findings ! i" "findings ! i"] by blast
    ultimately show ?thesis
      by (metis in_set_conv_nth)
  qed
  have "subseq out (map fst (zip findings sh))"
    unfolding out by (intro subseq_map subseq_filter_left)
  then have "subseq out findings"
    using len by simp
  moreover have "f \<in> set out \<longleftrightarrow> (\<exists>i < length findings. f = findings ! i \<and> \<not> sh ! i)" for f
    unfolding out by (force simp: set_zip len image_iff)
  ultimately show ?thesis
    using flag by (auto simp: in_set_conv_nth)
qed

text \<open>A rule strictly increases the token count, so following it ends at a finding that is kept.\<close>

lemma suppressWhere_covers:
  assumes out: "suppressWhere rule findings = Inr out" and f: "f \<in> set findings"
  shows "\<exists>g \<in> set out. coveredBy f g"
  using f
proof (induction "card {g \<in> set findings. if_TokenCount f < if_TokenCount g}" arbitrary: f rule: less_induct)
  case less
  show ?case
  proof (cases "f \<in> set out")
    case True
    then show ?thesis by (intro bexI [of _ f]) simp_all
  next
    case False
    then obtain g where g: "g \<in> set findings" "rule f g = Inr True"
      using suppressWhere_mem [OF out] less.prems by blast
    have "{h \<in> set findings. if_TokenCount g < if_TokenCount h} \<subset> {h \<in> set findings. if_TokenCount f < if_TokenCount h}"
      using rule_grows [OF g(2)] g(1) by auto
    then have "card {h \<in> set findings. if_TokenCount g < if_TokenCount h} < card {h \<in> set findings. if_TokenCount f < if_TokenCount h}"
      by (intro psubset_card_mono) auto
    from less.hyps [OF this g(1)] obtain h where "h \<in> set out" "coveredBy g h"
      by blast
    with rule_covers [OF g(2)] show ?thesis
      by (auto intro: coveredBy_trans)
  qed
qed

end

section \<open>The two rules of the code\<close>

lemma structuralLoop_covers:
  "structuralLoop files largeOccs strict expected occs = Inr True \<Longrightarrow> occ \<in> set occs \<Longrightarrow>
   \<exists>occ' \<in> set largeOccs. inOccurrence occ occ'"
proof (induction files largeOccs strict expected occs rule: structuralLoop.induct)
  case (2 files largeOccs strict expected smallOcc rest)
  obtain candidate where c: "filter (inOccurrence smallOcc) largeOccs = [candidate]"
    using "2.prems"(1) by (auto split: list.splits)
  then have "candidate \<in> set (filter (inOccurrence smallOcc) largeOccs)"
    by simp
  then have cand: "candidate \<in> set largeOccs" "inOccurrence smallOcc candidate"
    by auto
  show ?case
  proof (cases "occ = smallOcc")
    case True
    with cand show ?thesis by blast
  next
    case False
    with "2.prems" c show ?thesis
      by (auto simp: bindE_eq_Inr Let_def split: if_splits option.splits intro: "2.IH")
  qed
qed simp

lemma containedLoop_covers:
  "containedLoop files path largeOccs occs = Inr True \<Longrightarrow> \<forall>occ \<in> set occs. mo_Path occ = path \<Longrightarrow> occ \<in> set occs \<Longrightarrow>
   \<exists>occ' \<in> set largeOccs. inOccurrence occ occ'"
proof (induction files path largeOccs occs rule: containedLoop.induct)
  case (2 files path largeOccs o1 rest)
  obtain outer where c: "filter (strictlyInside path o1) largeOccs = [outer]"
    using "2.prems"(1) by (auto split: list.splits)
  then have "outer \<in> set (filter (strictlyInside path o1) largeOccs)"
    by simp
  then have cand: "outer \<in> set largeOccs" "inOccurrence o1 outer"
    using "2.prems"(2) by (auto simp: strictlyInside_def inOccurrence_def)
  show ?case
  proof (cases "occ = o1")
    case True
    with cand show ?thesis by blast
  next
    case False
    with "2.prems" c show ?thesis
      by (auto simp: bindE_eq_Inr split: if_splits option.splits intro: "2.IH")
  qed
qed simp

interpretation structural: shadow_rule "structuralRule files" for files
  by unfold_locales
    (auto simp: structuralRule_def componentIsStructuralShadow_def coveredBy_def
      split: if_splits dest: structuralLoop_covers)

lemma sharePath_all: "allOccurrencesSharePath (occ # rest) \<Longrightarrow> \<forall>x \<in> set (occ # rest). mo_Path x = mo_Path occ"
  by (simp add: allOccurrencesSharePath_def list_all_iff)

interpretation same_file: shadow_rule "sameFileRule files" for files
proof unfold_locales
  fix small large
  assume r: "sameFileRule files small large = Inr True"
  then show "if_TokenCount small < if_TokenCount large"
    by (auto simp: sameFileRule_def split: if_splits)
  obtain occ rest where occs: "if_Occurrences small = occ # rest"
    using r by (cases "if_Occurrences small") (auto simp: sameFileRule_def)
  then have "allOccurrencesSharePath (occ # rest)"
      "containedLoop files (mo_Path occ) (if_Occurrences large) (occ # rest) = Inr True"
    using r by (auto simp: sameFileRule_def containedInOneCrossFileOccurrence_def split: if_splits)
  from containedLoop_covers [OF this(2) sharePath_all [OF this(1)]] show "coveredBy small large"
    by (simp add: coveredBy_def occs)
qed

section \<open>Totality\<close>

definition readable :: "fileMap \<Rightarrow> maximalOccurrence \<Rightarrow> bool" where
  "readable files occ \<longleftrightarrow> (\<exists>file. map_of files (mo_Path occ) = Some file \<and> 0 \<le> mo_StartPos occ \<and>
     mo_StartPos occ \<le> mo_EndPos occ \<and> mo_EndPos occ < int (length (af_NormalizedTokens file)))"

lemma exactOccurrence_readable: "exactOccurrence files k occ \<Longrightarrow> readable files occ"
  by (auto simp: exactOccurrence_def readable_def content_key_iff)

lemma readable_slice:
  "readable files occ \<Longrightarrow> map_of files (mo_Path occ) = Some file \<Longrightarrow> \<exists>b. equalNormalizedSubslice file occ large = Inr b"
  by (auto simp: readable_def intro: equalNormalizedSubslice_total)

lemma structuralLoop_total:
  "\<forall>occ \<in> set occs. readable files occ \<Longrightarrow> \<exists>b. structuralLoop files largeOccs strict expected occs = Inr b"
proof (induction files largeOccs strict expected occs rule: structuralLoop.induct)
  case (2 files largeOccs strict expected smallOcc rest)
  show ?case
  proof (cases "\<exists>c. filter (inOccurrence smallOcc) largeOccs = [c]")
    case False
    then show ?thesis by (auto split: list.split)
  next
    case True
    then obtain c where c: "filter (inOccurrence smallOcc) largeOccs = [c]" ..
    obtain af where af: "map_of files (mo_Path smallOcc) = Some af"
      using "2.prems" by (auto simp: readable_def)
    obtain b where b: "equalNormalizedSubslice af smallOcc c = Inr b"
      using readable_slice [OF _ af] "2.prems" by auto
    show ?thesis
      using "2.IH" "2.prems" by (auto simp: c af b Let_def)
  qed
qed simp

lemma containedLoop_total:
  "\<forall>occ \<in> set occs. readable files occ \<and> mo_Path occ = path \<Longrightarrow> \<exists>b. containedLoop files path largeOccs occs = Inr b"
proof (induction files path largeOccs occs rule: containedLoop.induct)
  case (2 files path largeOccs o1 rest)
  show ?case
  proof (cases "\<exists>c. filter (strictlyInside path o1) largeOccs = [c]")
    case False
    then show ?thesis by (auto split: list.split)
  next
    case True
    then obtain c where c: "filter (strictlyInside path o1) largeOccs = [c]" ..
    obtain af where af: "map_of files path = Some af"
      using "2.prems" by (auto simp: readable_def)
    obtain b where b: "equalNormalizedSubslice af o1 c = Inr b"
      using readable_slice [of files o1 af] "2.prems" af by auto
    show ?thesis
      using "2.IH" [OF c refl af] "2.prems" by (auto simp: c af b)
  qed
qed auto

lemma suppressWhere_total:
  "(\<And>f g. f \<in> set findings \<Longrightarrow> \<exists>b. rule f g = Inr b) \<Longrightarrow> \<exists>out. suppressWhere rule findings = Inr out"
proof -
  assume total: "\<And>f g. f \<in> set findings \<Longrightarrow> \<exists>b. rule f g = Inr b"
  have "\<exists>sh. traverse (\<lambda>small. existsE (\<lambda>large.
         if small = large then Inr False else rule (findings ! small) (findings ! large))
         [0..<length findings]) [0..<length findings] = Inr sh"
    by (intro traverse_ex existsE_total) (use total in auto)
  then show ?thesis
    by (auto simp: suppressWhere_def)
qed

lemma structuralRule_total:
  "\<forall>occ \<in> set (if_Occurrences f). readable files occ \<Longrightarrow> \<exists>b. structuralRule files f g = Inr b"
  by (auto simp: structuralRule_def componentIsStructuralShadow_def intro: structuralLoop_total)

lemma sameFileRule_total:
  assumes "\<forall>occ \<in> set (if_Occurrences f). readable files occ"
  shows "\<exists>b. sameFileRule files f g = Inr b"
proof (cases "if_Occurrences f")
  case Nil
  then show ?thesis by (auto simp: sameFileRule_def)
next
  case (Cons occ rest)
  then show ?thesis
    using assms sharePath_all [of occ rest] containedLoop_total [of "occ # rest" files "mo_Path occ" "if_Occurrences g"]
    by (auto simp: sameFileRule_def containedInOneCrossFileOccurrence_def)
qed

text \<open>
  C36.  Component suppression on findings read off the files: both passes run without a panic,
  they only remove findings, in order, and every finding, removed or not, is covered by one that
  is left: each of its occurrences lies inside an occurrence of that finding in the same file.
\<close>

theorem component_suppression_total_and_covering:
  assumes "\<forall>f \<in> set findings. \<forall>occ \<in> set (if_Occurrences f). readable files occ"
  shows "\<exists>kept out. v4SuppressComponentShadows findings files = Inr kept \<and>
    v4SuppressContainedSameFileShadows kept files = Inr out \<and> subseq out findings \<and>
    (\<forall>f \<in> set findings. \<exists>g \<in> set out. coveredBy f g)"
proof -
  have "\<exists>kept. v4SuppressComponentShadows findings files = Inr kept"
    using assms suppressWhere_total [of findings "structuralRule files"] structuralRule_total
    by (auto simp: v4SuppressComponentShadows_def)
  then obtain kept where kept: "v4SuppressComponentShadows findings files = Inr kept" ..
  have kept1: "subseq kept findings \<and> (\<forall>f \<in> set findings. \<exists>g \<in> set kept. coveredBy f g)"
    using kept structural.suppressWhere_mem [of files findings kept] structural.suppressWhere_covers [of files findings kept]
    by (auto simp: v4SuppressComponentShadows_def split: if_splits intro: coveredBy_refl)
  then have "set kept \<subseteq> set findings"
    using subseq_set_subset by blast
  then have "\<exists>b. sameFileRule files f g = Inr b" if "f \<in> set kept" for f g
    using that assms by (intro sameFileRule_total) blast
  then have "\<exists>out. v4SuppressContainedSameFileShadows kept files = Inr out"
    unfolding v4SuppressContainedSameFileShadows_def by (rule suppressWhere_total)
  then obtain out where out: "v4SuppressContainedSameFileShadows kept files = Inr out" ..
  have out1: "subseq out kept \<and> (\<forall>f \<in> set kept. \<exists>g \<in> set out. coveredBy f g)"
    using out same_file.suppressWhere_mem [of files kept out] same_file.suppressWhere_covers [of files kept out]
    by (simp add: v4SuppressContainedSameFileShadows_def)
  have "subseq out findings"
    using kept1 out1 subseq_order.trans by blast
  moreover have "\<forall>f \<in> set findings. \<exists>g \<in> set out. coveredBy f g"
    using kept1 out1 coveredBy_trans by meson
  ultimately show ?thesis
    using kept out by blast
qed

definition demoShadowFiles :: fileMap where
  "demoShadowFiles = [(''a'', demoTokenFile ''a'' (replicate 4 T_IDENT)), (''b'', demoTokenFile ''b'' (replicate 4 T_IDENT))]"

definition demoShadowFinding :: "int \<Rightarrow> int \<Rightarrow> v4InternalFinding" where
  "demoShadowFinding s e = \<lparr>if_StableFingerprint = ''v4:x'', if_TokenCount = e - s + 1, if_LineCount = 1,
     if_Occurrences = [demoOcc ''a'' s e, demoOcc ''b'' s e]\<rparr>"

theorem component_suppression_total_and_covering_witness:
  "v4SuppressComponentShadows [demoShadowFinding 1 2, demoShadowFinding 0 3] demoShadowFiles = Inr [demoShadowFinding 0 3] \<and>
   (\<exists>out. v4SuppressContainedSameFileShadows [demoShadowFinding 0 3] demoShadowFiles = Inr out \<and>
     (\<exists>g \<in> set out. coveredBy (demoShadowFinding 1 2) g))"
proof -
  have "\<forall>f \<in> set [demoShadowFinding 1 2, demoShadowFinding 0 3]. \<forall>occ \<in> set (if_Occurrences f). readable demoShadowFiles occ"
    by (simp add: demoShadowFinding_def readable_def demoOcc_def demoShadowFiles_def demoTokenFile_def Let_def)
  note res = component_suppression_total_and_covering [OF this]
  have kept: "v4SuppressComponentShadows [demoShadowFinding 1 2, demoShadowFinding 0 3] demoShadowFiles = Inr [demoShadowFinding 0 3]"
    by code_simp
  with res show ?thesis
    by auto
qed

end
