(* ===== verification/Go_Path.thy ===== *)
theory Go_Path
  imports Prelude
begin

text \<open>
  The lexical part of package \<open>path/filepath\<close> on platforms with the separator \<open>/\<close>.
\<close>

definition isAbs :: "string \<Rightarrow> bool" where
  "isAbs path = (take 1 path = ''/'')"

fun splitOn :: "char \<Rightarrow> string \<Rightarrow> string list" where
  "splitOn c [] = [[]]"
| "splitOn c (x # xs) =
     (if x = c then [] # splitOn c xs
      else case splitOn c xs of [] \<Rightarrow> [[x]] | p # ps \<Rightarrow> (x # p) # ps)"

text \<open>\<open>filepath.Clean\<close>: the kept elements are on a stack.\<close>

fun cleanElems :: "bool \<Rightarrow> string list \<Rightarrow> string list \<Rightarrow> string list" where
  "cleanElems rooted acc [] = rev acc"
| "cleanElems rooted acc (e # es) =
     (if e = '''' \<or> e = ''.'' then cleanElems rooted acc es
      else if e = ''..'' then
        (case acc of a # as \<Rightarrow> if a \<noteq> ''..'' then cleanElems rooted as es else cleanElems rooted (e # acc) es
         | [] \<Rightarrow> if rooted then cleanElems rooted [] es else cleanElems rooted [e] es)
      else cleanElems rooted (e # acc) es)"

definition cleanPath :: "string \<Rightarrow> string" where
  "cleanPath p =
     (if p = '''' then ''.''
      else let r = join ''/'' (cleanElems (isAbs p) [] (splitOn (CHR ''/'') p))
      in if isAbs p then ''/'' @ r else if r = '''' then ''.'' else r)"

text \<open>\<open>filepath.Join\<close> of two elements.\<close>

definition joinPath :: "string \<Rightarrow> string \<Rightarrow> string" where
  "joinPath a b =
     (if a \<noteq> '''' then cleanPath (a @ ''/'' @ b) else if b \<noteq> '''' then cleanPath b else '''')"

definition isLocal :: "string \<Rightarrow> bool" where
  "isLocal p =
     (if isAbs p \<or> p = '''' then False
      else let q = (if list_ex (\<lambda>e. e = ''.'' \<or> e = ''..'') (splitOn (CHR ''/'') p) then cleanPath p else p)
      in \<not> (q = ''..'' \<or> take 3 q = ''../''))"

text \<open>
  \<open>filepath.Rel\<close> on the elements of the cleaned paths; \<open>None\<close> is its error.
\<close>

fun dropCommon :: "string list \<Rightarrow> string list \<Rightarrow> string list \<times> string list" where
  "dropCommon (b # bs) (t # ts) = (if b = t then dropCommon bs ts else (b # bs, t # ts))"
| "dropCommon bs ts = (bs, ts)"

definition pathElems :: "string \<Rightarrow> string list" where
  "pathElems p = filter (\<lambda>e. e \<noteq> '''') (splitOn (CHR ''/'') p)"

definition filepathRel :: "string \<Rightarrow> string \<Rightarrow> string option" where
  "filepathRel basepath targpath =
     (let base0 = cleanPath basepath; targ = cleanPath targpath;
          base = (if base0 = ''.'' then '''' else base0)
      in if targ = base0 then Some ''.''
         else if isAbs base \<noteq> isAbs targ then None
         else case dropCommon (pathElems base) (pathElems targ) of (bs, ts) \<Rightarrow>
           if bs \<noteq> [] \<and> hd bs = ''..'' then None
           else Some (join ''/'' (replicate (length bs) ''..'' @ ts)))"

end
