(* ===== verification/Dup_Pipeline.thy ===== *)
theory Dup_Pipeline
  imports Dup_CompShadow Go_Path
begin

text \<open>
  The production pipeline: \<open>v4_internal_pipeline.go\<close> and \<open>CheckRepo\<close> of \<open>check.go\<close>.
  The directory walk and the Go parser enter as arguments: the list of Go files that
  \<open>listGoFiles\<close> returns, what the scanner and parser return for each of them, and
  \<open>filepath.Rel\<close> (\<open>None\<close> for its error).

  The theorems compose the components: the pipeline never panics, what it publishes is exact, and
  the order of publication does not depend on the order in which findings were produced.
\<close>

section \<open>From windows to findings\<close>

definition v4BuildInternalFindingsChecked ::
  "windowMap \<Rightarrow> analysisMap \<Rightarrow> fileMap \<Rightarrow> dupError + v4InternalFinding list" where
  "v4BuildInternalFindingsChecked wm analyses files =
     (if wm = [] \<or> analyses = [] \<or> files = [] then Inr []
      else let regionFiltered = filterWindowsToRegions wm analyses
      in if regionFiltered = [] then Inr []
      else let partitions = snd (v4BuildRegionBoundedChainInputs regionFiltered analyses)
      in if partitions = [] then Inr []
      else let chs = concat (map (\<lambda>key. extendRegionBoundedChain (lookup_list partitions key))
             (sortChainPairKeys (map fst partitions)))
      in bindE (v4MaterializeComponents (v4SuppressShadowChainsRegionBounded chs (Some analyses)) files) (\<lambda>findings.
         bindE (v4SuppressComponentShadows findings files) (\<lambda>findings.
         bindE (v4SuppressContainedSameFileShadows findings files) (\<lambda>findings.
         Inr (sortV4InternalFindings findings)))))"

definition v4AnalyzedFilesFromAnalyses :: "analysisMap \<Rightarrow> fileMap" where
  "v4AnalyzedFilesFromAnalyses analyses =
     map (\<lambda>(path, analysis). (path,
       \<lparr>af_FileTokens = \<lparr>ft_path = path, ft_tokens = a_Tokens analysis, ft_lines = a_Lines analysis\<rparr>,
        af_Analysis = analysis, af_NormalizedTokens = a_NormalizedTokens analysis\<rparr>)) analyses"

text \<open>A \<open>nil\<close> file map is \<open>None\<close>.\<close>

definition v4BuildInternalFindings ::
  "windowMap \<Rightarrow> analysisMap \<Rightarrow> fileMap option \<Rightarrow> dupError + v4InternalFinding list" where
  "v4BuildInternalFindings wm analyses files =
     v4BuildInternalFindingsChecked wm analyses
       (case files of None \<Rightarrow> v4AnalyzedFilesFromAnalyses analyses | Some fs \<Rightarrow> fs)"

section \<open>The scan of a repository\<close>

definition NormalizePathForBaseline :: "(string \<Rightarrow> string \<Rightarrow> string option) \<Rightarrow> string \<Rightarrow> string \<Rightarrow> string" where
  "NormalizePathForBaseline rel path root =
     (case rel root path of None \<Rightarrow> path
      | Some r \<Rightarrow> if isAbs r then path else r)"

definition normRoot :: "string \<Rightarrow> string" where
  "normRoot root = (if root \<noteq> '''' \<and> root \<noteq> ''.'' then root else ''.'')"

definition analyzeAll ::
  "(string \<Rightarrow> string \<Rightarrow> string option) \<Rightarrow> (string \<Rightarrow> dupError + parsedSource) \<Rightarrow> string \<Rightarrow> string list \<Rightarrow>
   dupError + v4AnalyzedFile list" where
  "analyzeAll rel src root files =
     traverse (\<lambda>f. bindE (analyzeV4AnalyzedFile f (src f)) (\<lambda>analyzed.
       Inr (rebaseV4AnalyzedFilePath
         (NormalizePathForBaseline rel (ft_path (af_FileTokens analyzed)) (normRoot root)) analyzed))) files"

text \<open>The maps are filled in inventory order; a later file with the same path replaces an earlier one.\<close>

definition inventoryMap :: "(v4AnalyzedFile \<Rightarrow> 'b) \<Rightarrow> v4AnalyzedFile list \<Rightarrow> (string \<times> 'b) list" where
  "inventoryMap g inventory = fold (\<lambda>file. AList.update (ft_path (af_FileTokens file)) (g file)) inventory []"

definition publishFinding :: "v4InternalFinding \<Rightarrow> Finding" where
  "publishFinding f =
     \<lparr>fi_Fingerprint = truncateFingerprint (if_StableFingerprint f), fi_StableFingerprint = if_StableFingerprint f,
      fi_TokenCount = if_TokenCount f, fi_LineCount = if_LineCount f,
      fi_Occurrences = convertOccurrences (if_Occurrences f)\<rparr>"

definition CheckRepo ::
  "(string \<Rightarrow> string \<Rightarrow> string option) \<Rightarrow> (string \<Rightarrow> dupError + parsedSource) \<Rightarrow> dupError + string list \<Rightarrow>
   string \<Rightarrow> Config \<Rightarrow> dupError + Finding list" where
  "CheckRepo rel src listed root cfg0 =
     (let cfg = withDefaults cfg0
      in bindE listed (\<lambda>files.
         bindE (analyzeAll rel src root files) (\<lambda>inventory.
         bindE (scanFiles cfg (map af_FileTokens inventory) ([], [])) (\<lambda>(wm, fingerprintTokens).
         bindE (v4BuildInternalFindingsChecked wm (inventoryMap af_Analysis inventory) (inventoryMap id inventory)) (\<lambda>internal.
         Inr (map publishFinding internal))))))"

section \<open>What the pipeline returns\<close>

lemma exactOccurrence_error: "v4ExactContentKeyForOccurrence file occ = Inl err \<Longrightarrow> \<not> isPanic err"
proof -
  have "firstMismatch n xs = Some err \<Longrightarrow> \<not> isPanic err" for n xs
    by (induction n xs rule: firstMismatch.induct) (auto split: if_splits)
  then show "v4ExactContentKeyForOccurrence file occ = Inl err \<Longrightarrow> \<not> isPanic err"
    by (auto simp: v4ExactContentKeyForOccurrence_def validateV4AnalyzedFile_def Let_def split: option.splits if_splits)
qed

lemma evidence_error: "v4PairEvidenceFromChain chain files = Inl err \<Longrightarrow> \<not> isPanic err"
  by (auto simp: v4PairEvidenceFromChain_def v4OccurrenceForRange_def bindE_eq_Inl Let_def exactOccurrence_error
      split: list.splits if_splits option.splits)

lemma digestStep_error: "foldE digestStep edges m = Inl err \<Longrightarrow> \<not> isPanic err"
  by (induction edges arbitrary: m)
    (auto simp: bindE_eq_Inl digestStep_def Let_def split: option.splits if_splits)

lemma materialize_error:
  assumes "v4MaterializeComponents chs files = Inl err"
  shows "\<not> isPanic err"
proof -
  have "materializeGroup k grp = Inl err \<Longrightarrow> \<not> isPanic err" for k grp
    by (auto simp: materializeGroup_def bindE_eq_Inl Let_def validate_error)
  with assms show ?thesis
    by (auto simp: v4MaterializeComponents_def bindE_eq_Inl Let_def digestStep_error evidence_error
        dest!: traverse_error split: if_splits)
qed

lemma sorted_wrt_subseq: "subseq xs ys \<Longrightarrow> sorted_wrt R ys \<Longrightarrow> sorted_wrt R xs"
  by (induction rule: list_emb.induct) (auto dest: subseq_set_subset)

lemma sorted_wrt_pairwise:
  "sorted_wrt R xs \<Longrightarrow> (\<And>x. x \<in> set xs \<Longrightarrow> \<not> R x x) \<Longrightarrow> (\<And>x y. R x y \<Longrightarrow> R y x) \<Longrightarrow>
   distinct xs \<and> (\<forall>x \<in> set xs. \<forall>y \<in> set xs. x \<noteq> y \<longrightarrow> R x y)"
  by (induction xs) auto

text \<open>
  What the pipeline established about the findings it sorts: they come from a materialisation and
  two suppressions, which on materialised findings cannot fail.
\<close>

lemma suppressions_of_materialized:
  assumes "v4MaterializeComponents chs files = Inr fs"
  shows "\<exists>kept out. v4SuppressComponentShadows fs files = Inr kept \<and>
    v4SuppressContainedSameFileShadows kept files = Inr out \<and> subseq out fs"
proof -
  have ok: "readable files occ" if "f \<in> set fs" "occ \<in> set (if_Occurrences f)" for f occ
    using findings_exact_and_disjoint [OF assms] that exactOccurrence_readable by blast
  have "\<exists>kept. v4SuppressComponentShadows fs files = Inr kept"
    using suppressWhere_total [of fs "structuralRule files"] structuralRule_total ok
    by (auto simp: v4SuppressComponentShadows_def)
  then obtain kept where kept: "v4SuppressComponentShadows fs files = Inr kept" ..
  have sub: "subseq kept fs"
    using kept structural.suppressWhere_mem [of files fs kept]
    by (auto simp: v4SuppressComponentShadows_def split: if_splits)
  then have "\<exists>b. sameFileRule files f g = Inr b" if "f \<in> set kept" for f g
    using that ok subseq_set_subset [OF sub] by (intro sameFileRule_total) blast
  then have "\<exists>out. v4SuppressContainedSameFileShadows kept files = Inr out"
    unfolding v4SuppressContainedSameFileShadows_def by (rule suppressWhere_total)
  then obtain out where out: "v4SuppressContainedSameFileShadows kept files = Inr out" ..
  then have "subseq out kept"
    using same_file.suppressWhere_mem [of files kept out] by (simp add: v4SuppressContainedSameFileShadows_def)
  with sub kept out show ?thesis
    using subseq_order.trans by blast
qed

lemma build_cases:
  obtains "v4BuildInternalFindingsChecked wm analyses files = Inr []"
  | chs err where "v4BuildInternalFindingsChecked wm analyses files = Inl err" "v4MaterializeComponents chs files = Inl err"
  | chs fs out where "v4BuildInternalFindingsChecked wm analyses files = Inr (sortV4InternalFindings out)"
      "v4MaterializeComponents chs files = Inr fs" "subseq out fs"
proof -
  let ?rf = "filterWindowsToRegions wm analyses"
  let ?ps = "snd (v4BuildRegionBoundedChainInputs ?rf analyses)"
  let ?chs = "v4SuppressShadowChainsRegionBounded (concat (map (\<lambda>key. extendRegionBoundedChain (lookup_list ?ps key))
    (sortChainPairKeys (map fst ?ps)))) (Some analyses)"
  show ?thesis
  proof (cases "wm = [] \<or> analyses = [] \<or> files = [] \<or> ?rf = [] \<or> ?ps = []")
    case True
    then have "v4BuildInternalFindingsChecked wm analyses files = Inr []"
      by (auto simp: v4BuildInternalFindingsChecked_def Let_def)
    then show ?thesis by (rule that(1))
  next
    case False
    then have eq: "v4BuildInternalFindingsChecked wm analyses files =
        bindE (v4MaterializeComponents ?chs files) (\<lambda>findings.
         bindE (v4SuppressComponentShadows findings files) (\<lambda>findings.
         bindE (v4SuppressContainedSameFileShadows findings files) (\<lambda>findings.
         Inr (sortV4InternalFindings findings))))"
      by (simp add: v4BuildInternalFindingsChecked_def Let_def)
    show ?thesis
    proof (cases "v4MaterializeComponents ?chs files")
      case (Inl err)
      with eq show ?thesis by (intro that(2)) auto
    next
      case (Inr fs)
      with suppressions_of_materialized [OF Inr] eq show ?thesis by (auto intro: that(3))
    qed
  qed
qed

text \<open>
  C1.  Everything the pipeline publishes is exact: each finding has at least two occurrences,
  strictly sorted by path and token range; all of them were read from the analysed files under
  one content key that gives the finding's fingerprint and token count; and no token range is
  published in two findings.
\<close>

theorem pipeline_findings_exact:
  assumes "v4BuildInternalFindingsChecked wm analyses files = Inr findings"
  shows "(\<forall>f \<in> set findings. 2 \<le> length (if_Occurrences f) \<and>
      sorted_wrt (<) (map occurrenceKey (if_Occurrences f)) \<and>
      (\<exists>k. if_StableFingerprint f = v4StableFingerprintForContentKey k \<and> if_TokenCount f = ck_TokenCount k \<and>
        (\<forall>occ \<in> set (if_Occurrences f). exactOccurrence files k occ \<and> mo_EndPos occ - mo_StartPos occ + 1 = if_TokenCount f))) \<and>
    distinct findings \<and>
    (\<forall>f \<in> set findings. \<forall>g \<in> set findings. f \<noteq> g \<longrightarrow>
      occurrenceKey ` set (if_Occurrences f) \<inter> occurrenceKey ` set (if_Occurrences g) = {})"
proof (cases rule: build_cases [of wm analyses files])
  case 1
  with assms show ?thesis by simp
next
  case (2 chs err)
  with assms show ?thesis by simp
next
  case (3 chs fs out)
  define disj where "disj f g \<longleftrightarrow> occurrenceKey ` set (if_Occurrences f) \<inter> occurrenceKey ` set (if_Occurrences g) = {}"
    for f g :: v4InternalFinding
  have fnd: "findings = sortV4InternalFindings out"
    using assms 3 by simp
  then have set: "set findings = set out" and dist: "distinct findings \<longleftrightarrow> distinct out"
    by (simp_all add: sortV4InternalFindings_def)
  note exact = findings_exact_and_disjoint [OF 3(2), folded disj_def]
  have sub: "set out \<subseteq> set fs"
    using subseq_set_subset [OF 3(3)] .
  have "\<not> disj f f" if "f \<in> set out" for f
  proof -
    have "2 \<le> length (if_Occurrences f)"
      using exact sub that by blast
    then show ?thesis
      by (cases "if_Occurrences f") (auto simp: disj_def)
  qed
  moreover have "sorted_wrt disj out"
    using exact sorted_wrt_subseq [OF 3(3)] by blast
  moreover have "disj f g \<Longrightarrow> disj g f" for f g
    by (simp add: disj_def Int_commute)
  ultimately have "distinct out \<and> (\<forall>f \<in> set out. \<forall>g \<in> set out. f \<noteq> g \<longrightarrow> disj f g)"
    by (intro sorted_wrt_pairwise)
  then show ?thesis
    using exact sub unfolding set dist disj_def by blast
qed

section \<open>The order of publication\<close>

lemma sorted_occurrences_determined:
  assumes "sorted_wrt (<) (map occurrenceKey xs)" and "sorted_wrt (<) (map occurrenceKey ys)" and "mset xs = mset ys"
  shows "xs = ys"
proof -
  have "distinct (map occurrenceKey ys)" "sorted (map occurrenceKey xs)" "sorted (map occurrenceKey ys)"
    using assms(1,2) by (simp_all add: strict_sorted_iff)
  moreover have "mset (map occurrenceKey xs) = mset (map occurrenceKey ys)"
    using assms(3) by simp
  ultimately have "map occurrenceKey xs = map occurrenceKey ys"
    by (metis properties_for_sort)
  moreover have "inj_on occurrenceKey (set xs \<union> set ys)"
    using \<open>distinct (map occurrenceKey ys)\<close> assms(3) by (metis distinct_map set_mset_mset sup.idem)
  ultimately show ?thesis
    by (metis inj_on_map_eq_map)
qed

lemma pipeline_occurrences_sorted:
  assumes "v4BuildInternalFindingsChecked wm analyses files = Inr findings" and "f \<in> set findings"
  shows "sorted_wrt (<) (map occurrenceKey (if_Occurrences f))"
proof (cases rule: build_cases [of wm analyses files])
  case (3 chs fs out)
  then have "f \<in> set fs"
    using assms subseq_set_subset [of out fs] by (auto simp: sortV4InternalFindings_def)
  then show ?thesis
    using findings_exact_and_disjoint [OF 3(2)] by blast
qed (use assms in auto)

lemma finding_key_inj:
  "(\<And>f. f \<in> S \<Longrightarrow> sorted_wrt (<) (map occurrenceKey (if_Occurrences f))) \<Longrightarrow> inj_on finding_key S"
  by (rule inj_onI) (auto simp: finding_key_eq_iff intro!: v4InternalFinding.equality sorted_occurrences_determined)

text \<open>
   The order of publication is canonical: whatever order the findings of a run are produced
  in, sorting them gives the published list, and it is sorted by the total order
  of \<open>compareV4InternalFindings\<close>.
\<close>

theorem publication_order_canonical:
  assumes "v4BuildInternalFindingsChecked wm analyses files = Inr findings" and "mset produced = mset findings"
  shows "sortV4InternalFindings produced = findings \<and>
    sorted_wrt (\<lambda>f g. compareV4InternalFindings f g \<le> 0) findings"
proof -
  have inj: "inj_on finding_key (set findings)"
    by (rule finding_key_inj) (rule pipeline_occurrences_sorted [OF assms(1)])
  obtain out where out: "findings = sortV4InternalFindings out"
    by (cases rule: build_cases [of wm analyses files])
      (use assms(1) in \<open>auto intro: that [of "[]"] simp: sortV4InternalFindings_def\<close>)
  then have sorted: "sorted (map finding_key findings)"
    using finding_order.sort_slice_keys_sorted by (simp add: sortV4InternalFindings_def)
  then have ord: "sorted_wrt (\<lambda>f g. \<not> internalFindingLess g f) findings"
    by (simp add: finding_order.less_key sorted_map not_less)
  have "inj_on finding_key (set produced)"
    using inj assms(2) by (metis set_mset_mset)
  then have "findings = sort_slice internalFindingLess produced"
    by (rule finding_order.sort_slice_canonical [OF _ assms(2) [symmetric] ord])
  moreover have "sorted_wrt (\<lambda>f g. compareV4InternalFindings f g \<le> 0) findings"
    using sorted unfolding sorted_map
    by (rule sorted_wrt_mono_rel [rotated]) (auto simp: compareV4InternalFindings_cmp3 cmp3_def)
  ultimately show ?thesis
    by (simp add: sortV4InternalFindings_def)
qed

section \<open>A scan never panics\<close>

lemma analyze_error:
  assumes "\<And>e. src = Inl e \<Longrightarrow> \<not> isPanic e" and "analyzeV4AnalyzedFile f src = Inl err"
  shows "\<not> isPanic err"
proof -
  have "firstMismatch n xs = Some err \<Longrightarrow> \<not> isPanic err" for n xs
    by (induction n xs rule: firstMismatch.induct) (auto split: if_splits)
  with assms show ?thesis
    by (auto simp: analyzeV4AnalyzedFile_def analyzeV4File_def validateV4AnalyzedFile_def Let_def
        split: sum.splits option.splits if_splits)
qed

lemma withDefaults_positive: "0 \<le> c_MinTokens cfg \<Longrightarrow> 0 < c_MinTokens (withDefaults cfg)"
  by (auto simp: withDefaults_def DefaultConfig_def)

text \<open>
   A scan of a repository with a token threshold that is not negative never panics, whatever
  the files hold: if it does not return findings it returns an error, and every error comes from
  the directory walk, from reading or parsing a file, or from a failed consistency check.
\<close>

theorem scan_never_panics:
  assumes "0 \<le> c_MinTokens cfg" and "\<And>e. listed = Inl e \<Longrightarrow> \<not> isPanic e" and "\<And>f e. src f = Inl e \<Longrightarrow> \<not> isPanic e"
    and failed: "CheckRepo rel src listed root cfg = Inl err"
  shows "\<not> isPanic err"
proof -
  have walk: "analyzeAll rel src root fs = Inl e \<Longrightarrow> \<not> isPanic e" for fs e
    using analyze_error [OF assms(3)]
    by (auto simp: analyzeAll_def bindE_eq_Inl dest!: traverse_error)
  have build: "v4BuildInternalFindingsChecked wm an fm = Inl e \<Longrightarrow> \<not> isPanic e" for wm an fm e
    by (rule build_cases [of wm an fm]) (auto dest: materialize_error)
  have scan: "scanFiles (withDefaults cfg) fts st \<noteq> Inl e" for fts st e
    using scanFiles_total [OF withDefaults_positive [OF assms(1)], of fts st] by auto
  show ?thesis
    using failed assms(2) walk build scan by (auto simp: CheckRepo_def Let_def bindE_eq_Inl split: prod.splits)
qed

theorem scan_never_panics_witness:
  "CheckRepo (\<lambda>_. Some) (\<lambda>f. Inl (ParseError f)) (Inr [''a.go'']) ''.'' DefaultConfig = Inl (ParseError ''a.go'') \<and>
   \<not> isPanic (ParseError ''a.go'')"
proof -
  have res: "CheckRepo (\<lambda>_. Some) (\<lambda>f. Inl (ParseError f)) (Inr [''a.go'']) ''.'' DefaultConfig = Inl (ParseError ''a.go'')"
    by (simp add: CheckRepo_def analyzeAll_def analyzeV4AnalyzedFile_def analyzeV4File_def)
  have "\<not> isPanic (ParseError ''a.go'')"
    by (rule scan_never_panics [OF _ _ _ res]) (auto simp: DefaultConfig_def)
  with res show ?thesis by simp
qed

section \<open>One clone through the whole pipeline\<close>

definition pipeFile :: "string \<Rightarrow> v4AnalyzedFile" where
  "pipeFile path = (let f = demoTokenFile path [T_IDENT] in f\<lparr>af_Analysis := (af_Analysis f)
     \<lparr>a_Regions := [\<lparr>rg_Path = path, rg_Kind = v4FunctionDeclarationRegion, rg_Ordinal = 0, rg_StartPos = 0, rg_EndPos = 0,
        rg_StartLine = 1, rg_EndLine = 1\<rparr>], a_TokenOwner := [RegionID path 0]\<rparr>\<rparr>)"

definition pipeFiles :: fileMap where
  "pipeFiles = [(''a'', pipeFile ''a''), (''b'', pipeFile ''b'')]"

definition pipeAnalyses :: analysisMap where
  "pipeAnalyses = map (\<lambda>(p, f). (p, af_Analysis f)) pipeFiles"

definition pipeWindow :: "string \<Rightarrow> rawWindow" where
  "pipeWindow p = \<lparr>w_Path = p, w_StartLine = 1, w_EndLine = 1, w_StartPos = 0, w_EndPos = 0\<rparr>"

definition pipeMatch :: seedMatch where
  "pipeMatch = \<lparr>m_SeedFingerprint = ''IDENT'', m_Left = pipeWindow ''a'', m_Right = pipeWindow ''b'', m_Offset = 0\<rparr>"

lemma pipe_filter:
  "filterWindowsToRegions [(''IDENT'', [pipeWindow ''a'', pipeWindow ''b''])] pipeAnalyses =
     [(''IDENT'', [pipeWindow ''a'', pipeWindow ''b''])]"
  by code_simp

lemma pipe_inputs:
  "map (\<lambda>(k, ms). (k, map rs_Match ms)) (snd (v4BuildRegionBoundedChainInputs [(''IDENT'', [pipeWindow ''a'', pipeWindow ''b''])] pipeAnalyses)) =
     [(ChainPairKey (RegionID ''a'' 0) (RegionID ''b'' 0) 0, [pipeMatch])]"
  by code_simp

definition pipeChain :: cloneChain where
  "pipeChain = \<lparr>ch_Matches = [pipeMatch], ch_TokenSpan = 1, ch_LineSpan = 1, ch_PathSet = ''a|b'',
     ch_LeftRange = \<lparr>r_StartPos = 0, r_EndPos = 0\<rparr>, ch_RightRange = \<lparr>r_StartPos = 0, r_EndPos = 0\<rparr>,
     ch_Offset = 0, ch_ContentHash = computeContentHash [pipeMatch]\<rparr>"

lemma pipe_finalize: "v4FinalizeChain [pipeMatch] = Some pipeChain"
  by (simp add: v4FinalizeChain_def pipeMatch_def pipeWindow_def pipeChain_def Let_def sort_slice_def)

lemma suppress_single:
  assumes "\<not> isWithinFileChain c"
  shows "v4SuppressShadowChainsRegionBounded [c] analyses = [c]"
proof -
  have "groupShadows [(0, c)] = [False]"
    using assms by (simp add: groupShadows_def equalPass_def equalPassOuter_def selfOverlapPass_def
        containmentPass_def containmentStep_def)
  then have "groupSurvivors [(0, c)] = [0]"
    by (simp add: groupSurvivors_def sortedMembers_def)
  then show ?thesis
    by (simp add: suppress_filter groupMembers_def enumerate_eq_zip)
qed

lemma pipe_suppress: "v4SuppressShadowChainsRegionBounded [pipeChain] (Some pipeAnalyses) = [pipeChain]"
  by (rule suppress_single) (simp add: isWithinFileChain_def chainPaths_def pipeChain_def pipeMatch_def pipeWindow_def)

lemma pipe_materialize: "v4MaterializeComponents [pipeChain] pipeFiles = Inr [demoFinding]"
proof -
  have "v4PairEvidenceFromChain pipeChain pipeFiles = v4PairEvidenceFromChain (demoChain ''a'' ''b'' (0, 0) (0, 0)) demoFiles"
    unfolding demo_evidence
    by (simp add: v4PairEvidenceFromChain_def pipeChain_def pipeMatch_def pipeWindow_def pipeFiles_def pipeFile_def
        demoTokenFile_def v4OccurrenceForRange_def v4ExactContentKeyForOccurrence_def validateV4AnalyzedFile_def
        demoContentKey_def tokenSlice_def compareV4MaximalOccurrences_def compareV4OccurrenceKeys_def occurrenceKey_def
        compareStrings_def lineSpan_def Let_def)
  then show ?thesis
    using demo_materialize by (simp add: v4MaterializeComponents_def)
qed

lemma pipe_shadows:
  "v4SuppressComponentShadows [demoFinding] pipeFiles = Inr [demoFinding]"
  "v4SuppressContainedSameFileShadows [demoFinding] pipeFiles = Inr [demoFinding]"
  by (simp_all add: v4SuppressComponentShadows_def v4SuppressContainedSameFileShadows_def suppressWhere_def)

lemma pipe_build:
  "v4BuildInternalFindingsChecked [(''IDENT'', [pipeWindow ''a'', pipeWindow ''b''])] pipeAnalyses pipeFiles = Inr [demoFinding]"
proof -
  let ?wm = "[(''IDENT'', [pipeWindow ''a'', pipeWindow ''b''])]"
  let ?ps = "snd (v4BuildRegionBoundedChainInputs ?wm pipeAnalyses)"
  obtain ms where ps: "?ps = [(ChainPairKey (RegionID ''a'' 0) (RegionID ''b'' 0) 0, ms)]" "map rs_Match ms = [pipeMatch]"
    using pipe_inputs by auto
  have "extendRegionBoundedChain ms = [pipeChain]"
    by (simp add: extendRegionBoundedChain_def ps(2) List.map_filter_simps pipe_finalize)
  then have "concat (map (\<lambda>key. extendRegionBoundedChain (lookup_list ?ps key)) (sortChainPairKeys (map fst ?ps))) = [pipeChain]"
    by (simp add: ps(1) sortChainPairKeys_def lookup_list_def)
  moreover have "pipeAnalyses \<noteq> []" "pipeFiles \<noteq> []"
    by (simp_all add: pipeAnalyses_def pipeFiles_def)
  ultimately show ?thesis
    using ps(1) by (simp add: v4BuildInternalFindingsChecked_def pipe_filter pipe_suppress pipe_materialize pipe_shadows
        sortV4InternalFindings_def Let_def)
qed

theorem pipeline_findings_exact_witness:
  "v4BuildInternalFindingsChecked [(''IDENT'', [pipeWindow ''a'', pipeWindow ''b''])] pipeAnalyses pipeFiles = Inr [demoFinding] \<and>
   (\<exists>k. if_StableFingerprint demoFinding = v4StableFingerprintForContentKey k \<and>
      (\<forall>occ \<in> set (if_Occurrences demoFinding). exactOccurrence pipeFiles k occ))"
  using pipeline_findings_exact [OF pipe_build] pipe_build by auto

theorem publication_order_canonical_witness:
  "v4BuildInternalFindingsChecked [(''IDENT'', [pipeWindow ''a'', pipeWindow ''b''])] pipeAnalyses pipeFiles = Inr [demoFinding] \<and>
   sortV4InternalFindings [demoFinding] = [demoFinding]"
  using publication_order_canonical [OF pipe_build, of "[demoFinding]"] pipe_build by simp

end
