(* ===== verification/Dup_Baseline.thy ===== *)
theory Dup_Baseline
  imports Dup_Pipeline
begin

text \<open>
  The committed baseline of duplicate code: \<open>baseline.go\<close>, \<open>baseline_utils.go\<close>,
  \<open>baseline_validate.go\<close> and \<open>baseline_verify.go\<close>.  JSON encoding, the file system and
  \<open>git ls-files\<close> enter as the values they return: the outcome of \<open>Lstat\<close>, of the tracking
  check and of decoding.  \<open>filepath.ToSlash\<close> is the identity on the platforms with
  \<open>/\<close> as separator.

  The lemmas characterise exactly what a comparison reports, when a report differs from the baseline
  written from it (findings of one fingerprint with different counts), and show that a canonical
  baseline passes the validators.
\<close>

section \<open>Data\<close>

record BaselineThresholds =
  bt_MinLines :: int
  bt_MinTokens :: int

record BaselineOccurrence =
  bo_Path :: string
  bo_StartLine :: int
  bo_EndLine :: int

record BaselineFinding =
  bf_Fingerprint :: string
  bf_TokenCount :: int
  bf_LineCount :: int
  bf_Occurrences :: "BaselineOccurrence list"

record Baseline =
  bl_SchemaVersion :: int
  bl_AlgorithmVersion :: int
  bl_GeneratedAt :: string
  bl_Tool :: string
  bl_Thresholds :: BaselineThresholds
  bl_Findings :: "BaselineFinding list"

record WorsenedFinding =
  wf_Fingerprint :: string
  wf_BaselineOccurrences :: "BaselineOccurrence list"
  wf_NewOccurrences :: "BaselineOccurrence list"
  wf_TotalNow :: int

text \<open>\<open>NewFinding\<close> has the fields of \<open>BaselineFinding\<close>.\<close>

type_synonym NewFinding = BaselineFinding

record CompareResult =
  cr_NewFindings :: "NewFinding list"
  cr_WorsenedFindings :: "WorsenedFinding list"
  cr_HasChanges :: bool

record Report =
  rp_Findings :: "Finding list"
  rp_Thresholds :: BaselineThresholds
  rp_Root :: string

definition PolicyMinLines :: int where
  "PolicyMinLines = 40"

definition PolicyMinTokens :: int where
  "PolicyMinTokens = 400"

section \<open>Reports\<close>

definition CheckReport ::
  "(string \<Rightarrow> string \<Rightarrow> string option) \<Rightarrow> (string \<Rightarrow> dupError + parsedSource) \<Rightarrow> dupError + string list \<Rightarrow>
   string \<Rightarrow> Config \<Rightarrow> dupError + Report" where
  "CheckReport rel src listed root cfg =
     bindE (CheckRepo rel src listed root cfg) (\<lambda>findings.
       Inr \<lparr>rp_Findings = findings,
         rp_Thresholds = \<lparr>bt_MinLines = c_MinLines cfg, bt_MinTokens = c_MinTokens cfg\<rparr>, rp_Root = root\<rparr>)"

section \<open>Writing a baseline\<close>

definition baselineFP :: "Finding \<Rightarrow> string" where
  "baselineFP f = (if fi_StableFingerprint f \<noteq> '''' then fi_StableFingerprint f else fi_Fingerprint f)"

definition toBaselineOccurrence :: "(string \<Rightarrow> string) \<Rightarrow> Occurrence \<Rightarrow> BaselineOccurrence" where
  "toBaselineOccurrence norm occ = \<lparr>bo_Path = norm (o_Path occ), bo_StartLine = o_StartLine occ, bo_EndLine = o_EndLine occ\<rparr>"

definition toBaselineFinding :: "(string \<Rightarrow> string) \<Rightarrow> Finding \<Rightarrow> BaselineFinding" where
  "toBaselineFinding norm f = \<lparr>bf_Fingerprint = baselineFP f, bf_TokenCount = fi_TokenCount f,
     bf_LineCount = fi_LineCount f, bf_Occurrences = map (toBaselineOccurrence norm) (fi_Occurrences f)\<rparr>"

definition bfLess :: "BaselineFinding \<Rightarrow> BaselineFinding \<Rightarrow> bool" where
  "bfLess a b = (bf_Fingerprint a < bf_Fingerprint b)"

definition boLess2 :: "BaselineOccurrence \<Rightarrow> BaselineOccurrence \<Rightarrow> bool" where
  "boLess2 a b = (if bo_Path a \<noteq> bo_Path b then bo_Path a < bo_Path b else bo_StartLine a < bo_StartLine b)"

definition boLess3 :: "BaselineOccurrence \<Rightarrow> BaselineOccurrence \<Rightarrow> bool" where
  "boLess3 a b =
     (if bo_Path a \<noteq> bo_Path b then bo_Path a < bo_Path b
      else if bo_StartLine a \<noteq> bo_StartLine b then bo_StartLine a < bo_StartLine b
      else bo_EndLine a < bo_EndLine b)"

definition sortOccs :: "(BaselineOccurrence \<Rightarrow> BaselineOccurrence \<Rightarrow> bool) \<Rightarrow> BaselineFinding \<Rightarrow> BaselineFinding" where
  "sortOccs lt f = f\<lparr>bf_Occurrences := sort_slice lt (bf_Occurrences f)\<rparr>"

text \<open>The baseline \<open>BaselineWriter.Write\<close> marshals; \<open>now\<close> is the formatted clock.\<close>

definition BaselineWriter_Write :: "string \<Rightarrow> Report \<Rightarrow> Baseline" where
  "BaselineWriter_Write now report =
     \<lparr>bl_SchemaVersion = 1, bl_AlgorithmVersion = AlgorithmVersion, bl_GeneratedAt = now, bl_Tool = ''leamas dupcode'',
      bl_Thresholds = rp_Thresholds report,
      bl_Findings = map (sortOccs boLess2) (sort_slice bfLess (map (toBaselineFinding id) (rp_Findings report)))\<rparr>"

section \<open>Paths\<close>

definition NormalizeOccurrencePath :: "(string \<Rightarrow> string \<Rightarrow> string option) \<Rightarrow> string \<Rightarrow> string \<Rightarrow> string" where
  "NormalizeOccurrencePath rel root p =
     (case rel root p of Some r \<Rightarrow> if isLocal r then r else p | None \<Rightarrow> p)"

section \<open>Canonical baselines and drift\<close>

definition GenerateCanonicalBaseline :: "(string \<Rightarrow> string \<Rightarrow> string option) \<Rightarrow> string \<Rightarrow> Report \<Rightarrow> Baseline" where
  "GenerateCanonicalBaseline rel root report =
     \<lparr>bl_SchemaVersion = 1, bl_AlgorithmVersion = AlgorithmVersion, bl_GeneratedAt = ''1970-01-01T00:00:00Z'',
      bl_Tool = ''leamas dupcode'', bl_Thresholds = rp_Thresholds report,
      bl_Findings = map (sortOccs boLess3)
        (sort_slice bfLess (map (toBaselineFinding (NormalizeOccurrencePath rel (normRoot root))) (rp_Findings report)))\<rparr>"

fun occurrencesEqual :: "BaselineOccurrence list \<Rightarrow> BaselineOccurrence list \<Rightarrow> bool" where
  "occurrencesEqual (a # as) (b # bs) = (if a \<noteq> b then False else occurrencesEqual as bs)"
| "occurrencesEqual _ _ = True"

definition findingEqual :: "BaselineFinding \<Rightarrow> BaselineFinding \<Rightarrow> bool" where
  "findingEqual a b =
     (if bf_Fingerprint a \<noteq> bf_Fingerprint b then False
      else if bf_TokenCount a \<noteq> bf_TokenCount b then False
      else if bf_LineCount a \<noteq> bf_LineCount b then False
      else if length (bf_Occurrences a) \<noteq> length (bf_Occurrences b) then False
      else occurrencesEqual (bf_Occurrences a) (bf_Occurrences b))"

definition baselinesEqual :: "Baseline \<Rightarrow> Baseline \<Rightarrow> bool" where
  "baselinesEqual a b =
     (if bl_SchemaVersion a \<noteq> bl_SchemaVersion b then False
      else if bl_AlgorithmVersion a \<noteq> bl_AlgorithmVersion b then False
      else if bl_Tool a \<noteq> bl_Tool b then False
      else if bt_MinLines (bl_Thresholds a) \<noteq> bt_MinLines (bl_Thresholds b) \<or>
        bt_MinTokens (bl_Thresholds a) \<noteq> bt_MinTokens (bl_Thresholds b) then False
      else if length (bl_Findings a) \<noteq> length (bl_Findings b) then False
      else list_all (\<lambda>(x, y). findingEqual x y) (zip (bl_Findings a) (bl_Findings b)))"

section \<open>Comparison with a baseline\<close>

definition occsOn :: "('a \<Rightarrow> string) \<Rightarrow> string \<Rightarrow> 'a list \<Rightarrow> 'a list" where
  "occsOn path p occs = filter (\<lambda>x. path x = p) occs"

text \<open>
  The loop over \<open>currentOccByPath\<close>.  Go iterates a map in no fixed order; the model takes the
  order in which the paths first occur, and the theorems do not depend on it.
\<close>

definition newOccurrencesOf :: "BaselineFinding \<Rightarrow> Finding \<Rightarrow> BaselineOccurrence list" where
  "newOccurrencesOf bf f =
     concat (map (\<lambda>(path, currentOccs).
       let baselineCount = length (lookup_list (group_by bo_Path id (bf_Occurrences bf)) path);
           currentCount = length currentOccs
       in if currentCount > baselineCount
          then map (\<lambda>occ. \<lparr>bo_Path = path, bo_StartLine = o_StartLine occ, bo_EndLine = o_EndLine occ\<rparr>)
            (take (currentCount - baselineCount) currentOccs)
          else []) (group_by o_Path id (fi_Occurrences f)))"

definition baselineByFP :: "BaselineFinding list \<Rightarrow> (string \<rightharpoonup> BaselineFinding)" where
  "baselineByFP fs = fold (\<lambda>bf m. m(bf_Fingerprint bf \<mapsto> bf)) fs Map.empty"

definition compareStep :: "(string \<rightharpoonup> BaselineFinding) \<Rightarrow> Finding \<Rightarrow> CompareResult \<Rightarrow> CompareResult" where
  "compareStep byFP f result =
     (case byFP (baselineFP f) of
        None \<Rightarrow> result\<lparr>cr_NewFindings := cr_NewFindings result @ [toBaselineFinding id f], cr_HasChanges := True\<rparr>
      | Some bf \<Rightarrow>
          (let new = newOccurrencesOf bf f
           in if new \<noteq> [] then
             result\<lparr>cr_WorsenedFindings := cr_WorsenedFindings result @
                [\<lparr>wf_Fingerprint = baselineFP f, wf_BaselineOccurrences = bf_Occurrences bf,
                  wf_NewOccurrences = new, wf_TotalNow = int (length (fi_Occurrences f))\<rparr>],
               cr_HasChanges := True\<rparr>
           else result))"

definition CompareToBaseline :: "Report \<Rightarrow> Baseline \<Rightarrow> CompareResult" where
  "CompareToBaseline report baseline =
     fold (compareStep (baselineByFP (bl_Findings baseline))) (rp_Findings report)
       \<lparr>cr_NewFindings = [], cr_WorsenedFindings = [], cr_HasChanges = False\<rparr>"

definition ExitCodeFromCompareResult :: "CompareResult \<Rightarrow> int" where
  "ExitCodeFromCompareResult result = (if cr_HasChanges result then 1 else 0)"

text \<open>What \<open>PrintCompareResult\<close> writes to standard output.\<close>

definition nl :: string where
  "nl = [CHR 0x0A]"

definition printOccs :: "string \<Rightarrow> BaselineOccurrence list \<Rightarrow> string" where
  "printOccs mark occs =
     concat (map (\<lambda>occ. mark @ bo_Path occ @ '':'' @ itoa (bo_StartLine occ) @ ''-'' @ itoa (bo_EndLine occ) @ nl) occs)"

definition PrintCompareResult :: "CompareResult \<Rightarrow> string" where
  "PrintCompareResult result =
     (if \<not> cr_HasChanges result then ''No new or worsened duplicate code detected.'' @ nl
      else
        (if cr_NewFindings result \<noteq> [] then
           nl @ ''New duplicate code blocks ('' @ itoa (int (length (cr_NewFindings result))) @ ''):'' @ nl @ nl @
           concat (map (\<lambda>(i, f).
             itoa (int i + 1) @ ''. New duplicate block ('' @ itoa (bf_TokenCount f) @ '' tokens, ~'' @ itoa (bf_LineCount f) @
             '' lines):'' @ nl @ printOccs ''   - '' (bf_Occurrences f) @ nl) (enumerate 0 (cr_NewFindings result)))
         else '''') @
        (if cr_WorsenedFindings result \<noteq> [] then
           nl @ ''Worsened duplicate code blocks ('' @ itoa (int (length (cr_WorsenedFindings result))) @ ''):'' @ nl @ nl @
           concat (map (\<lambda>(i, f).
             itoa (int i + 1) @ ''. Worsened fingerprint (now '' @ itoa (wf_TotalNow f) @ '' occurrences, was '' @
             itoa (int (length (wf_BaselineOccurrences f))) @ ''):'' @ nl @
             ''   Baseline locations ('' @ itoa (int (length (wf_BaselineOccurrences f))) @ ''):'' @ nl @
             printOccs ''     - '' (wf_BaselineOccurrences f) @
             ''   New locations ('' @ itoa (int (length (wf_NewOccurrences f))) @ ''):'' @ nl @
             printOccs ''     + '' (wf_NewOccurrences f) @ nl) (enumerate 0 (cr_WorsenedFindings result)))
         else ''''))"

definition StableFingerprintHash :: "string \<Rightarrow> string" where
  "StableFingerprintHash normalized = sha256_hex normalized"

definition NormalizeFingerprintForBaseline :: "string list \<Rightarrow> string" where
  "NormalizeFingerprintForBaseline tokens = StableFingerprintHash (join '' '' tokens)"

section \<open>Validation\<close>

record BaselineValidationFinding =
  bv_Path :: string
  bv_Kind :: string
  bv_Message :: string
  bv_Severity :: string

record BaselinePolicy =
  bp_Path :: string
  bp_MinLines :: int
  bp_MinTokens :: int

definition DefaultBaselinePolicy :: BaselinePolicy where
  "DefaultBaselinePolicy = \<lparr>bp_Path = ''.factory/dupcode-baseline.json'', bp_MinLines = 40, bp_MinTokens = 400\<rparr>"

definition occLabel :: "nat \<Rightarrow> nat \<Rightarrow> string" where
  "occLabel i j = ''finding['' @ itoa (int i) @ ''].occurrences['' @ itoa (int j) @ '']: ''"

definition pathChecks :: "nat \<Rightarrow> nat \<Rightarrow> BaselineOccurrence \<Rightarrow> BaselineValidationFinding list" where
  "pathChecks i j occ =
     (let path = bo_Path occ;
          report = (\<lambda>kind msg. \<lparr>bv_Path = path, bv_Kind = kind, bv_Message = occLabel i j @ msg, bv_Severity = ''error''\<rparr>)
      in (if isAbs path then [report ''absolute_path_in_baseline'' (''absolute paths not allowed: '' @ path)] else [])
       @ (if CHR 0x5C \<in> set path
          then [report ''os_specific_path_in_baseline'' (''OS-specific backslashes not allowed: '' @ path)] else [])
       @ (if ''..'' \<in> set (splitOn (CHR ''/'') path)
          then [\<lparr>bv_Path = path, bv_Kind = ''path_escapes_repo_root'',
                 bv_Message = occLabel i j @ ''path escapes repo root via '' @ [CHR 0x27] @ ''..'' @ [CHR 0x27] @ '': '' @ path,
                 bv_Severity = ''''\<rparr>] else [])
       @ (if path = '''' then [report ''empty_path_in_baseline'' ''empty path not allowed''] else [])
       @ (if bo_StartLine occ \<le> 0
          then [report ''invalid_start_line'' (''start_line must be > 0, got '' @ itoa (bo_StartLine occ))] else [])
       @ (if bo_EndLine occ \<le> 0
          then [report ''invalid_end_line'' (''end_line must be > 0, got '' @ itoa (bo_EndLine occ))] else [])
       @ (if bo_EndLine occ < bo_StartLine occ
          then [report ''end_line_before_start_line''
            (''end_line ('' @ itoa (bo_EndLine occ) @ '') < start_line ('' @ itoa (bo_StartLine occ) @ '')'')] else []))"

definition ValidateBaselinePaths :: "Baseline \<Rightarrow> BaselineValidationFinding list" where
  "ValidateBaselinePaths baseline =
     concat (map (\<lambda>(i, f). concat (map (\<lambda>(j, occ). pathChecks i j occ) (enumerate 0 (bf_Occurrences f))))
       (enumerate 0 (bl_Findings baseline)))"

text \<open>The verb \<open>%q\<close> of package \<open>fmt\<close> is an argument of the definitions that print with it.\<close>

definition isSha256Hex :: "string \<Rightarrow> bool" where
  "isSha256Hex fp \<longleftrightarrow> length fp = 64 \<and> list_all lower_hex fp"

fun fingerprintChecks ::
  "(string \<Rightarrow> string) \<Rightarrow> (string \<times> nat) list \<Rightarrow> (nat \<times> BaselineFinding) list \<Rightarrow> BaselineValidationFinding list" where
  "fingerprintChecks quote seen [] = []"
| "fingerprintChecks quote seen ((i, f) # rest) =
     (let fp = bf_Fingerprint f;
          report = (\<lambda>kind msg. \<lparr>bv_Path = '''', bv_Kind = kind,
            bv_Message = ''finding['' @ itoa (int i) @ '']: '' @ msg, bv_Severity = ''error''\<rparr>)
      in if fp = '''' then report ''empty_fingerprint'' ''fingerprint is empty'' # fingerprintChecks quote seen rest
         else (if isSha256Hex fp then []
           else [report ''invalid_fingerprint_format'' (''fingerprint must be SHA256 hex (64 chars), got '' @ quote fp @
             '' (len='' @ itoa (int (length fp)) @ '')'')])
           @ (case map_of seen fp of
                Some prevIdx \<Rightarrow> report ''duplicate_fingerprint'' (''duplicate fingerprint '' @ quote fp @
                  '' (first seen at index '' @ itoa (int prevIdx) @ '')'') # fingerprintChecks quote seen rest
              | None \<Rightarrow> fingerprintChecks quote ((fp, i) # seen) rest))"

definition ValidateBaselineFingerprints :: "(string \<Rightarrow> string) \<Rightarrow> Baseline \<Rightarrow> BaselineValidationFinding list" where
  "ValidateBaselineFingerprints quote baseline = fingerprintChecks quote [] (enumerate 0 (bl_Findings baseline))"

text \<open>Each loop reports its first issue and stops.\<close>

fun findingsOrder :: "(string \<Rightarrow> string) \<Rightarrow> nat \<Rightarrow> BaselineFinding list \<Rightarrow> BaselineValidationFinding list" where
  "findingsOrder quote i (p # f # rest) =
     (if bf_Fingerprint f \<le> bf_Fingerprint p
      then [\<lparr>bv_Path = '''', bv_Kind = ''findings_not_sorted'',
        bv_Message = ''findings not sorted by fingerprint: finding['' @ itoa (int (Suc i)) @ ''] ('' @ quote (bf_Fingerprint f) @
          '') <= finding['' @ itoa (int i) @ ''] ('' @ quote (bf_Fingerprint p) @ '')'', bv_Severity = ''error''\<rparr>]
      else findingsOrder quote (Suc i) (f # rest))"
| "findingsOrder quote i _ = []"

definition occurrenceBefore :: "BaselineOccurrence \<Rightarrow> BaselineOccurrence \<Rightarrow> bool" where
  "occurrenceBefore cur prev \<longleftrightarrow> bo_Path cur < bo_Path prev \<or>
     bo_Path cur = bo_Path prev \<and> bo_StartLine cur < bo_StartLine prev \<or>
     bo_Path cur = bo_Path prev \<and> bo_StartLine cur = bo_StartLine prev \<and> bo_EndLine cur < bo_EndLine prev"

definition showOcc :: "BaselineOccurrence \<Rightarrow> string" where
  "showOcc occ = ''('' @ bo_Path occ @ '':'' @ itoa (bo_StartLine occ) @ ''-'' @ itoa (bo_EndLine occ) @ '')''"

fun occurrencesOrder :: "nat \<Rightarrow> nat \<Rightarrow> BaselineOccurrence list \<Rightarrow> BaselineValidationFinding list" where
  "occurrencesOrder i j (prev # cur # rest) =
     (if occurrenceBefore cur prev
      then [\<lparr>bv_Path = bo_Path prev, bv_Kind = ''occurrences_not_sorted'',
        bv_Message = ''finding['' @ itoa (int i) @ ''].occurrences not sorted: occurrences['' @ itoa (int (Suc j)) @ ''] '' @ showOcc cur @
          '' should come before occurrences['' @ itoa (int j) @ ''] '' @ showOcc prev, bv_Severity = ''''\<rparr>]
      else occurrencesOrder i (Suc j) (cur # rest))"
| "occurrencesOrder i j _ = []"

definition ValidateBaselineOrdering :: "(string \<Rightarrow> string) \<Rightarrow> Baseline \<Rightarrow> BaselineValidationFinding list" where
  "ValidateBaselineOrdering quote baseline =
     findingsOrder quote 0 (bl_Findings baseline) @
     concat (map (\<lambda>(i, f). occurrencesOrder i 0 (bf_Occurrences f)) (enumerate 0 (bl_Findings baseline)))"

section \<open>The artifact\<close>

datatype baselineError =
    UnsupportedSchema int
  | MissingAlgorithmVersion
  | AlgorithmMismatch int
  | ThresholdMismatch int int
  | BaselineReadError string
  | BaselineParseError string

text \<open>\<open>Error()\<close>: every error but the read error is wrapped in \<open>ErrInvalidBaseline\<close>.\<close>

fun baselineErrorText :: "baselineError \<Rightarrow> string" where
  "baselineErrorText (BaselineReadError err) = ''loading baseline: '' @ err"
| "baselineErrorText (BaselineParseError err) = ''invalid baseline: parse error: '' @ err"
| "baselineErrorText (UnsupportedSchema v) = ''invalid baseline: unsupported schema version: '' @ itoa v"
| "baselineErrorText MissingAlgorithmVersion =
     ''invalid baseline: missing algorithm_version: old baseline format not supported; regenerate with '' @
     [CHR 0x27] @ ''make dupcode-baseline'' @ [CHR 0x27]"
| "baselineErrorText (AlgorithmMismatch v) =
     ''invalid baseline: algorithm_version mismatch: baseline has '' @ itoa v @ '', current detector uses '' @
     itoa AlgorithmVersion @ ''; regenerate with '' @ [CHR 0x27] @ ''make dupcode-baseline'' @ [CHR 0x27]"
| "baselineErrorText (ThresholdMismatch l t) =
     ''invalid baseline: threshold mismatch: got '' @ itoa l @ ''/'' @ itoa t @ '', expected '' @
     itoa PolicyMinLines @ ''/'' @ itoa PolicyMinTokens"

definition validateBaselineCompatibility :: "Baseline \<Rightarrow> baselineError option" where
  "validateBaselineCompatibility baseline =
     (if bl_SchemaVersion baseline \<noteq> 1 then Some (UnsupportedSchema (bl_SchemaVersion baseline))
      else if bl_AlgorithmVersion baseline = 0 then Some MissingAlgorithmVersion
      else if bl_AlgorithmVersion baseline \<noteq> AlgorithmVersion then Some (AlgorithmMismatch (bl_AlgorithmVersion baseline))
      else if bt_MinLines (bl_Thresholds baseline) \<noteq> PolicyMinLines \<or> bt_MinTokens (bl_Thresholds baseline) \<noteq> PolicyMinTokens
      then Some (ThresholdMismatch (bt_MinLines (bl_Thresholds baseline)) (bt_MinTokens (bl_Thresholds baseline)))
      else None)"

text \<open>
  What the file system and \<open>git\<close> say: the outcome of \<open>Lstat\<close> on a path, whether
  \<open>git ls-files\<close> in a directory knows a path, and the decoded file.
\<close>

datatype lstatResult = NotExist | StatError string | Symlink | NotRegular string | RegularFile

record baselineEnv =
  be_lstat :: "string \<Rightarrow> lstatResult"
  be_lsFiles :: "string \<Rightarrow> string \<Rightarrow> bool"
  be_decode :: "string \<Rightarrow> baselineError + Baseline"

definition LoadBaseline :: "baselineEnv \<Rightarrow> string \<Rightarrow> baselineError + Baseline" where
  "LoadBaseline env path =
     bindE (be_decode env path) (\<lambda>b. case validateBaselineCompatibility b of Some err \<Rightarrow> Inl err | None \<Rightarrow> Inr b)"

definition CheckBaselineTracked :: "baselineEnv \<Rightarrow> string \<Rightarrow> string \<Rightarrow> string option" where
  "CheckBaselineTracked env root baselinePath =
     (let workDir = (if root \<noteq> '''' \<and> root \<noteq> ''.'' then root else ''.'')
      in if \<not> be_lsFiles env workDir baselinePath
         then Some (''baseline not tracked by git; ensure '' @ baselinePath @ '' is committed'') else None)"

definition baselineFSPath :: "string \<Rightarrow> BaselinePolicy \<Rightarrow> string" where
  "baselineFSPath root policy =
     (if root \<noteq> '''' \<and> root \<noteq> ''.'' then joinPath root (bp_Path policy) else bp_Path policy)"

text \<open>\<open>checks.Finding\<close> has the fields path, kind, message and severity.\<close>

type_synonym checksFinding = BaselineValidationFinding

record BaselineArtifactValidation =
  av_Baseline :: "Baseline option"
  av_Findings :: "checksFinding list"
  av_UsableForDrift :: bool

definition artifactFinding :: "string \<Rightarrow> string \<Rightarrow> string \<Rightarrow> checksFinding" where
  "artifactFinding path kind msg = \<lparr>bv_Path = path, bv_Kind = kind, bv_Message = msg, bv_Severity = ''error''\<rparr>"

definition terminal :: "checksFinding \<Rightarrow> BaselineArtifactValidation" where
  "terminal f = \<lparr>av_Baseline = None, av_Findings = [f], av_UsableForDrift = False\<rparr>"

definition reframe :: "string \<Rightarrow> BaselineValidationFinding \<Rightarrow> checksFinding" where
  "reframe path f = artifactFinding path (bv_Kind f) (bv_Message f)"

definition ValidateBaselineArtifact ::
  "(string \<Rightarrow> string) \<Rightarrow> baselineEnv \<Rightarrow> string \<Rightarrow> BaselinePolicy \<Rightarrow> string + BaselineArtifactValidation" where
  "ValidateBaselineArtifact quote env root policy =
     (let fsPath = baselineFSPath root policy;
          gitPath = bp_Path policy
      in case be_lstat env fsPath of
        NotExist \<Rightarrow> Inr (terminal (artifactFinding fsPath ''missing_dupcode_baseline''
          (''baseline file not found; run '' @ [CHR 0x27] @ ''make dupcode-baseline'' @ [CHR 0x27] @ '' to create'')))
      | StatError err \<Rightarrow> Inl (''stat dupcode baseline '' @ quote fsPath @ '': '' @ err)
      | Symlink \<Rightarrow> Inr (terminal (artifactFinding fsPath ''symlink_not_allowed'' ''baseline path cannot be a symbolic link''))
      | NotRegular mode \<Rightarrow> Inr (terminal (artifactFinding fsPath ''invalid_baseline_type''
          (''baseline path is not a regular file: '' @ mode)))
      | RegularFile \<Rightarrow>
        (case CheckBaselineTracked env root gitPath of
           Some err \<Rightarrow> Inr (terminal (artifactFinding fsPath ''untracked_dupcode_baseline'' err))
         | None \<Rightarrow>
           (case be_decode env fsPath of
              Inl err \<Rightarrow> Inr (terminal (artifactFinding fsPath ''invalid_dupcode_baseline''
                (''failed to load baseline: '' @ baselineErrorText err)))
            | Inr baseline \<Rightarrow>
              (case validateBaselineCompatibility baseline of
                 Some err \<Rightarrow> Inr (terminal (artifactFinding fsPath ''invalid_dupcode_baseline''
                   (''failed to load baseline: '' @ baselineErrorText err)))
               | None \<Rightarrow>
                 let th = bl_Thresholds baseline;
                     mismatch = (if bt_MinLines th \<noteq> bp_MinLines policy \<or> bt_MinTokens th \<noteq> bp_MinTokens policy
                       then [artifactFinding fsPath ''threshold_policy_mismatch''
                         (''baseline thresholds '' @ itoa (bt_MinLines th) @ ''/'' @ itoa (bt_MinTokens th) @ '' do not match policy '' @
                          itoa (bp_MinLines policy) @ ''/'' @ itoa (bp_MinTokens policy))] else [])
                 in Inr \<lparr>av_Baseline = Some baseline,
                      av_Findings = mismatch @ map (reframe fsPath) (ValidateBaselinePaths baseline) @
                        map (reframe fsPath) (ValidateBaselineFingerprints quote baseline) @
                        map (reframe fsPath) (ValidateBaselineOrdering quote baseline),
                      av_UsableForDrift = True\<rparr>))))"

definition CheckBaselineDriftFromReport ::
  "(string \<Rightarrow> string \<Rightarrow> string option) \<Rightarrow> string \<Rightarrow> Baseline \<Rightarrow> Report \<Rightarrow> BaselinePolicy \<Rightarrow> BaselineValidationFinding list" where
  "CheckBaselineDriftFromReport rel root committed report policy =
     (if \<not> baselinesEqual committed (GenerateCanonicalBaseline rel root report)
      then [\<lparr>bv_Path = bp_Path policy, bv_Kind = ''dupcode_baseline_drift'',
        bv_Message = ''dupcode baseline is stale; run '' @ [CHR 0x27] @ ''make dupcode-baseline'' @ [CHR 0x27] @ '' and review the diff'',
        bv_Severity = ''error''\<rparr>]
      else [])"

text \<open>The scan runs with the policy thresholds; \<open>scan\<close> is \<open>CheckReport root\<close> and \<open>show\<close> prints its error.\<close>

definition CheckBaselineDrift ::
  "(string \<Rightarrow> string \<Rightarrow> string option) \<Rightarrow> (dupError \<Rightarrow> string) \<Rightarrow> (Config \<Rightarrow> dupError + Report) \<Rightarrow> string \<Rightarrow> Baseline \<Rightarrow>
   BaselinePolicy \<Rightarrow> BaselineValidationFinding list" where
  "CheckBaselineDrift rel show scan root committed policy =
     (case scan (DefaultConfig\<lparr>c_Root := root, c_MinLines := bp_MinLines policy, c_MinTokens := bp_MinTokens policy\<rparr>) of
        Inl err \<Rightarrow> [\<lparr>bv_Path = bp_Path policy, bv_Kind = ''drift_check_scanner_error'',
          bv_Message = ''failed to run scanner for drift check: '' @ show err, bv_Severity = ''error''\<rparr>]
      | Inr report \<Rightarrow> CheckBaselineDriftFromReport rel root committed report policy)"

text \<open>The findings, and the error that ends the verification early.\<close>

definition VerifyBaseline ::
  "(string \<Rightarrow> string \<Rightarrow> string option) \<Rightarrow> (string \<Rightarrow> string) \<Rightarrow> (dupError \<Rightarrow> string) \<Rightarrow>
   (Config \<Rightarrow> dupError + Report) \<Rightarrow> baselineEnv \<Rightarrow> string \<Rightarrow> BaselinePolicy \<Rightarrow> checksFinding list \<times> string option" where
  "VerifyBaseline rel quote showScan scan env root policy =
     (let fsPath = baselineFSPath root policy
      in case ValidateBaselineArtifact quote env root policy of
        Inl err \<Rightarrow> ([], Some err)
      | Inr v \<Rightarrow>
          (case av_Baseline v of
             Some baseline \<Rightarrow>
               (if av_UsableForDrift v
                then (av_Findings v @ map (reframe fsPath) (CheckBaselineDrift rel showScan scan root baseline policy), None)
                else (av_Findings v, None))
           | None \<Rightarrow> (av_Findings v, None)))"

definition PrintBaselineVerifyResultTo :: "string \<Rightarrow> checksFinding list \<Rightarrow> string \<times> int" where
  "PrintBaselineVerifyResultTo name findings =
     (if findings = [] then (name @ '': OK'' @ [CHR 0x0A], 0)
      else (name @ '': FAILED'' @ [CHR 0x0A] @
        concat (map (\<lambda>f. ''  '' @ bv_Path f @ '': '' @ bv_Kind f @ '': '' @ bv_Message f @ [CHR 0x0A]) findings), 1))"

section \<open>Orders\<close>

definition bo_key2 :: "BaselineOccurrence \<Rightarrow> string \<times> int" where
  "bo_key2 occ = (bo_Path occ, bo_StartLine occ)"

definition bo_key3 :: "BaselineOccurrence \<Rightarrow> string \<times> int \<times> int" where
  "bo_key3 occ = (bo_Path occ, bo_StartLine occ, bo_EndLine occ)"

lemma bo_key3_inject [simp]: "bo_key3 a = bo_key3 b \<longleftrightarrow> a = b"
  by (cases a; cases b) (auto simp: bo_key3_def)

interpretation finding_fp: keyed_less bfLess bf_Fingerprint
  by unfold_locales (simp add: bfLess_def)

interpretation occ2: keyed_less boLess2 bo_key2
  by unfold_locales (auto simp: boLess2_def bo_key2_def)

interpretation occ3: keyed_less boLess3 bo_key3
  by unfold_locales (auto simp: boLess3_def bo_key3_def)

lemma occurrenceBefore_key: "occurrenceBefore a b \<longleftrightarrow> bo_key3 a < bo_key3 b"
  by (auto simp: occurrenceBefore_def bo_key3_def)

text \<open>The writer's two-field order agrees with the canonical order when start lines separate the occurrences of a path.\<close>

lemma sort_occ2_occ3:
  assumes "inj_on bo_key2 (set xs)"
  shows "sort_slice boLess2 xs = sort_slice boLess3 xs"
proof (rule occ3.sort_slice_canonical)
  show "inj_on bo_key3 (set xs)"
    by (simp add: inj_on_def)
  have s: "sorted_wrt (\<lambda>x y. bo_key2 x \<le> bo_key2 y) (sort_slice boLess2 xs)"
    using occ2.sort_slice_keys_sorted [of xs] by (simp add: sorted_map)
  show "sorted_wrt (\<lambda>x y. \<not> boLess3 y x) (sort_slice boLess2 xs)"
  proof (rule sorted_wrt_mono_rel [OF _ s])
    fix x y
    assume xy: "x \<in> set (sort_slice boLess2 xs)" "y \<in> set (sort_slice boLess2 xs)" "bo_key2 x \<le> bo_key2 y"
    show "\<not> boLess3 y x"
    proof (cases "bo_key2 x = bo_key2 y")
      case True
      with assms xy have "x = y"
        by (auto dest: inj_onD)
      then show ?thesis by (simp add: occ3.less_key)
    next
      case False
      with xy(3) show ?thesis
        by (auto simp: boLess3_def bo_key2_def)
    qed
  qed
qed simp

section \<open>Comparison\<close>

lemma baselineByFP_fold:
  "fold (\<lambda>bf m. m(bf_Fingerprint bf \<mapsto> bf)) fs m = m ++ map_of (rev (map (\<lambda>bf. (bf_Fingerprint bf, bf)) fs))"
  by (induction fs arbitrary: m) (auto simp: map_add_upd_left intro!: ext simp: map_add_def split: option.splits)

text \<open>The entry that a baseline records for a fingerprint: the last one, should the file hold several.\<close>

definition recorded :: "Baseline \<Rightarrow> string \<Rightarrow> BaselineFinding option" where
  "recorded b k = find (\<lambda>bf. bf_Fingerprint bf = k) (rev (bl_Findings b))"

lemma map_of_find: "map_of (map (\<lambda>x. (f x, x)) xs) k = find (\<lambda>x. f x = k) xs"
  by (induction xs) auto

lemma baselineByFP_recorded: "baselineByFP (bl_Findings b) = recorded b"
  by (rule ext) (simp add: baselineByFP_def baselineByFP_fold recorded_def rev_map map_of_find)

lemma find_Some_in: "find P xs = Some x \<Longrightarrow> x \<in> set xs \<and> P x"
  by (induction xs) (auto split: if_splits)

lemma recorded_Some: "recorded b k = Some bf \<Longrightarrow> bf \<in> set (bl_Findings b) \<and> bf_Fingerprint bf = k"
  unfolding recorded_def by (drule find_Some_in) simp

lemma recorded_None: "recorded b k = None \<longleftrightarrow> k \<notin> bf_Fingerprint ` set (bl_Findings b)"
  by (auto simp: recorded_def find_None_iff)

definition countOn :: "('a \<Rightarrow> string) \<Rightarrow> string \<Rightarrow> 'a list \<Rightarrow> nat" where
  "countOn path p xs = length (filter (\<lambda>x. path x = p) xs)"

lemma filter_concat_group:
  assumes "distinct (map fst g)" and "\<And>k ys y. (k, ys) \<in> set g \<Longrightarrow> y \<in> set (h (k, ys)) \<Longrightarrow> path y = k"
  shows "filter (\<lambda>y. path y = p) (concat (map h g)) = (case map_of g p of None \<Rightarrow> [] | Some ys \<Rightarrow> h (p, ys))"
  using assms
proof (induction g)
  case (Cons e g)
  obtain k ys where e: "e = (k, ys)"
    by (cases e)
  have own: "path y = k" if "y \<in> set (h (k, ys))" for y
    using Cons.prems(2) [of k ys] that e by simp
  have IH: "filter (\<lambda>y. path y = p) (concat (map h g)) = (case map_of g p of None \<Rightarrow> [] | Some ys \<Rightarrow> h (p, ys))"
    using Cons by auto
  show ?case
  proof (cases "p = k")
    case True
    then have "filter (\<lambda>y. path y = p) (h e) = h e"
      using own e by (auto intro: filter_True)
    moreover have "map_of g p = None"
      using Cons.prems(1) True e by (auto simp: map_of_eq_None_iff)
    ultimately show ?thesis
      using IH True e by simp
  next
    case False
    then have "filter (\<lambda>y. path y = p) (h e) = []"
      using own e by (auto intro: filter_False)
    then show ?thesis
      using IH False e by simp
  qed
qed simp

lemma lookup_of_group: "map_of (group_by f id xs) k = (if k \<in> f ` set xs then Some (filter (\<lambda>x. f x = k) xs) else None)"
proof (cases "map_of (group_by f id xs) k")
  case None
  then have "k \<notin> f ` set xs"
    using keys_group_by [of f id xs] by (auto simp: map_of_eq_None_iff)
  with None show ?thesis by simp
next
  case (Some ys)
  then have "ys = filter (\<lambda>x. f x = k) xs" "k \<in> f ` set xs"
    using group_by_entry [of k ys f id xs] keys_group_by [of f id xs] map_of_SomeD [OF Some] by force+
  with Some show ?thesis by simp
qed

text \<open>
  On each file the new locations are the first of the current ones, as many as the count rose by.
\<close>

lemma newOccurrences_on:
  "occsOn bo_Path p (newOccurrencesOf bf f) =
     map (toBaselineOccurrence id)
       (take (countOn o_Path p (fi_Occurrences f) - countOn bo_Path p (bf_Occurrences bf)) (occsOn o_Path p (fi_Occurrences f)))"
proof -
  let ?g = "group_by o_Path id (fi_Occurrences f)"
  let ?h = "\<lambda>(path, currentOccs).
       let baselineCount = length (lookup_list (group_by bo_Path id (bf_Occurrences bf)) path);
           currentCount = length currentOccs
       in if currentCount > baselineCount
          then map (\<lambda>occ. \<lparr>bo_Path = path, bo_StartLine = o_StartLine occ, bo_EndLine = o_EndLine occ\<rparr>)
            (take (currentCount - baselineCount) currentOccs)
          else []"
  have "occsOn bo_Path p (newOccurrencesOf bf f) = (case map_of ?g p of None \<Rightarrow> [] | Some ys \<Rightarrow> ?h (p, ys))"
    unfolding occsOn_def newOccurrencesOf_def
    by (rule filter_concat_group) (auto simp: Let_def split: if_splits)
  moreover have "filter (\<lambda>x. o_Path x = p) (fi_Occurrences f) = []" if "p \<notin> o_Path ` set (fi_Occurrences f)"
    using that by (auto simp: filter_empty_conv)
  ultimately show ?thesis
    by (auto simp: lookup_of_group countOn_def occsOn_def Let_def toBaselineOccurrence_def dest!: in_set_takeD)
qed

lemma newOccurrences_count:
  "countOn bo_Path p (newOccurrencesOf bf f) =
     countOn o_Path p (fi_Occurrences f) - countOn bo_Path p (bf_Occurrences bf)"
  using arg_cong [OF newOccurrences_on, of length p bf f] by (simp add: countOn_def occsOn_def min_absorb2)

lemma newOccurrences_empty_iff:
  "newOccurrencesOf bf f = [] \<longleftrightarrow> (\<forall>p. countOn o_Path p (fi_Occurrences f) \<le> countOn bo_Path p (bf_Occurrences bf))"
proof -
  have "xs = [] \<longleftrightarrow> (\<forall>p. countOn bo_Path p xs = 0)" for xs
    by (auto simp: countOn_def filter_empty_conv) (cases xs; auto)
  from this [of "newOccurrencesOf bf f"] show ?thesis
    by (simp add: newOccurrences_count)
qed

text \<open>The comparison as a whole: which findings are new, and which worsened and by what.\<close>

definition worsenedBy :: "(string \<rightharpoonup> BaselineFinding) \<Rightarrow> Finding \<Rightarrow> WorsenedFinding list" where
  "worsenedBy byFP f =
     (case byFP (baselineFP f) of None \<Rightarrow> []
      | Some bf \<Rightarrow> if newOccurrencesOf bf f = [] then []
          else [\<lparr>wf_Fingerprint = baselineFP f, wf_BaselineOccurrences = bf_Occurrences bf,
                 wf_NewOccurrences = newOccurrencesOf bf f, wf_TotalNow = int (length (fi_Occurrences f))\<rparr>])"

definition unchanged :: "(string \<rightharpoonup> BaselineFinding) \<Rightarrow> Finding \<Rightarrow> bool" where
  "unchanged byFP f \<longleftrightarrow> (\<exists>bf. byFP (baselineFP f) = Some bf \<and>
     (\<forall>p. countOn o_Path p (fi_Occurrences f) \<le> countOn bo_Path p (bf_Occurrences bf)))"

lemma unchanged_iff: "unchanged byFP f \<longleftrightarrow> byFP (baselineFP f) \<noteq> None \<and> worsenedBy byFP f = []"
  by (auto simp: unchanged_def worsenedBy_def newOccurrences_empty_iff split: if_splits)

lemma compareStep_fields:
  "cr_NewFindings (compareStep byFP f r) =
     cr_NewFindings r @ (if byFP (baselineFP f) = None then [toBaselineFinding id f] else [])"
  "cr_WorsenedFindings (compareStep byFP f r) = cr_WorsenedFindings r @ worsenedBy byFP f"
  "cr_HasChanges (compareStep byFP f r) \<longleftrightarrow> cr_HasChanges r \<or> \<not> unchanged byFP f"
  by (cases "byFP (baselineFP f)"; auto simp: compareStep_def Let_def unchanged_iff worsenedBy_def)+

lemma fold_compare:
  "fold (compareStep byFP) fs r =
     \<lparr>cr_NewFindings = cr_NewFindings r @ map (toBaselineFinding id) (filter (\<lambda>f. byFP (baselineFP f) = None) fs),
      cr_WorsenedFindings = cr_WorsenedFindings r @ concat (map (worsenedBy byFP) fs),
      cr_HasChanges = (cr_HasChanges r \<or> (\<exists>f \<in> set fs. \<not> unchanged byFP f))\<rparr>"
proof (induction fs arbitrary: r)
  case (Cons f fs)
  show ?case
    by (simp add: Cons [of "compareStep byFP f r"] compareStep_fields disj_ac id_def)
qed simp

text \<open>A finding has risen if some file holds it more often than the recorded entry says.\<close>

definition risen :: "Baseline \<Rightarrow> Finding \<Rightarrow> bool" where
  "risen b f \<longleftrightarrow> (\<exists>bf p. recorded b (baselineFP f) = Some bf \<and>
     countOn bo_Path p (bf_Occurrences bf) < countOn o_Path p (fi_Occurrences f))"

text \<open>
  What a worsened finding says: the recorded locations, the total, and for each file the first
  locations of the current finding, as many as the count rose by.
\<close>

definition tellsRise :: "Baseline \<Rightarrow> Finding \<Rightarrow> WorsenedFinding \<Rightarrow> bool" where
  "tellsRise b f w \<longleftrightarrow> (\<exists>bf. recorded b (baselineFP f) = Some bf \<and>
     wf_Fingerprint w = baselineFP f \<and> wf_BaselineOccurrences w = bf_Occurrences bf \<and>
     wf_TotalNow w = int (length (fi_Occurrences f)) \<and>
     (\<forall>p. occsOn bo_Path p (wf_NewOccurrences w) = map (toBaselineOccurrence id)
        (take (countOn o_Path p (fi_Occurrences f) - countOn bo_Path p (bf_Occurrences bf)) (occsOn o_Path p (fi_Occurrences f)))))"

lemma worsenedBy_risen:
  "worsenedBy (recorded b) f = [] \<longleftrightarrow> \<not> risen b f"
  "risen b f \<Longrightarrow> \<exists>w. worsenedBy (recorded b) f = [w] \<and> tellsRise b f w"
proof -
  have le: "\<not> m < n" if "n \<le> m" for m n :: nat
    using that by simp
  show "worsenedBy (recorded b) f = [] \<longleftrightarrow> \<not> risen b f"
    by (cases "recorded b (baselineFP f)") (auto simp: worsenedBy_def risen_def newOccurrences_empty_iff le not_less)
  assume "risen b f"
  then obtain bf where bf: "recorded b (baselineFP f) = Some bf" "newOccurrencesOf bf f \<noteq> []"
    by (auto simp: risen_def newOccurrences_empty_iff not_le)
  then show "\<exists>w. worsenedBy (recorded b) f = [w] \<and> tellsRise b f w"
    by (simp add: worsenedBy_def tellsRise_def newOccurrences_on)
qed

lemma worsened_list:
  "list_all2 (tellsRise b) (filter (risen b) fs) (concat (map (worsenedBy (recorded b)) fs))"
proof (induction fs)
  case (Cons f fs)
  then show ?case
    using worsenedBy_risen [of b f] by (cases "risen b f") auto
qed simp

lemma unchanged_risen: "unchanged (recorded b) f \<longleftrightarrow> recorded b (baselineFP f) \<noteq> None \<and> \<not> risen b f"
  unfolding unchanged_iff worsenedBy_risen ..

text \<open>
  C38. The comparison reports exactly what changed, for every report and every baseline; should a
  baseline hold a fingerprint twice, its last entry is the one that counts (\<open>recorded\<close>).  The exit
  code is 0 if and only if every current finding is recorded and no file has more occurrences of
  it than the record says; the new findings are the unrecorded ones in report order; and the
  worsened findings are those whose count has risen in some file, one entry for each in report
  order, which names for each file exactly as many new locations as the count rose by, whatever the
  line numbers are.
\<close>

theorem compare_reports_exact_changes:
  "(ExitCodeFromCompareResult (CompareToBaseline r b) = 0 \<longleftrightarrow>
      (\<forall>f \<in> set (rp_Findings r). \<exists>bf. recorded b (baselineFP f) = Some bf \<and>
        (\<forall>p. countOn o_Path p (fi_Occurrences f) \<le> countOn bo_Path p (bf_Occurrences bf))))
    \<and> cr_NewFindings (CompareToBaseline r b) =
      map (toBaselineFinding id) (filter (\<lambda>f. baselineFP f \<notin> bf_Fingerprint ` set (bl_Findings b)) (rp_Findings r))
    \<and> list_all2 (tellsRise b) (filter (risen b) (rp_Findings r)) (cr_WorsenedFindings (CompareToBaseline r b))"
proof (intro conjI)
  note compare = CompareToBaseline_def baselineByFP_recorded fold_compare
  show "ExitCodeFromCompareResult (CompareToBaseline r b) = 0 \<longleftrightarrow>
      (\<forall>f \<in> set (rp_Findings r). \<exists>bf. recorded b (baselineFP f) = Some bf \<and>
        (\<forall>p. countOn o_Path p (fi_Occurrences f) \<le> countOn bo_Path p (bf_Occurrences bf)))"
    unfolding compare ExitCodeFromCompareResult_def by (simp add: unchanged_def)
  show "cr_NewFindings (CompareToBaseline r b) =
      map (toBaselineFinding id) (filter (\<lambda>f. baselineFP f \<notin> bf_Fingerprint ` set (bl_Findings b)) (rp_Findings r))"
    unfolding compare by (simp add: recorded_None)
  show "list_all2 (tellsRise b) (filter (risen b) (rp_Findings r)) (cr_WorsenedFindings (CompareToBaseline r b))"
    unfolding compare by (simp add: worsened_list)
qed

section \<open>Writing and comparing\<close>

lemma toBaselineFinding_fields [simp]:
  "bf_Fingerprint (toBaselineFinding norm f) = baselineFP f"
  "bf_Occurrences (toBaselineFinding norm f) = map (toBaselineOccurrence norm) (fi_Occurrences f)"
  by (simp_all add: toBaselineFinding_def)

lemma sortOccs_fields [simp]:
  "bf_Fingerprint (sortOccs lt f) = bf_Fingerprint f"
  "bf_Occurrences (sortOccs lt f) = sort_slice lt (bf_Occurrences f)"
  by (simp_all add: sortOccs_def)

lemma countOn_sort [simp]: "countOn path p (sort_slice lt xs) = countOn path p xs"
  unfolding countOn_def by (metis mset_filter mset_sort_slice size_mset)

lemma countOn_toBaseline [simp]: "countOn bo_Path p (map (toBaselineOccurrence id) occs) = countOn o_Path p occs"
  by (induction occs) (auto simp: countOn_def toBaselineOccurrence_def)

text \<open>
  What is recorded after writing: an entry for every finding, with the counts of some finding of the
  report that has the same fingerprint.
\<close>

lemma recorded_written:
  assumes "f \<in> set (rp_Findings r)"
  shows "\<exists>g \<in> set (rp_Findings r). \<exists>bf. baselineFP g = baselineFP f \<and>
    recorded (BaselineWriter_Write now r) (baselineFP f) = Some bf \<and>
    (\<forall>p. countOn bo_Path p (bf_Occurrences bf) = countOn o_Path p (fi_Occurrences g))"
proof -
  let ?b = "BaselineWriter_Write now r"
  have written: "set (bl_Findings ?b) = (\<lambda>f. sortOccs boLess2 (toBaselineFinding id f)) ` set (rp_Findings r)"
    by (simp add: BaselineWriter_Write_def image_image)
  have "recorded ?b (baselineFP f) \<noteq> None"
    unfolding recorded_None written using assms by (auto simp: image_iff)
  then obtain bf where bf: "recorded ?b (baselineFP f) = Some bf"
    by blast
  with recorded_Some [OF bf] obtain g where "g \<in> set (rp_Findings r)" "bf = sortOccs boLess2 (toBaselineFinding id g)"
    "bf_Fingerprint bf = baselineFP f"
    unfolding written by blast
  with bf show ?thesis
    by (intro bexI [of _ g] exI [of _ bf]) auto
qed

text \<open>Findings that share a fingerprint have the same number of occurrences in every file.\<close>

definition sharedAgree :: "Report \<Rightarrow> bool" where
  "sharedAgree r \<longleftrightarrow> (\<forall>f \<in> set (rp_Findings r). \<forall>g \<in> set (rp_Findings r). baselineFP f = baselineFP g \<longrightarrow>
     (\<forall>p. countOn o_Path p (fi_Occurrences f) = countOn o_Path p (fi_Occurrences g)))"

lemma sharedAgreeD:
  "sharedAgree r \<Longrightarrow> f \<in> set (rp_Findings r) \<Longrightarrow> g \<in> set (rp_Findings r) \<Longrightarrow> baselineFP f = baselineFP g \<Longrightarrow>
   countOn o_Path p (fi_Occurrences f) = countOn o_Path p (fi_Occurrences g)"
  unfolding sharedAgree_def by blast

lemma distinct_sharedAgree: "distinct (map baselineFP (rp_Findings r)) \<Longrightarrow> sharedAgree r"
  by (auto simp: sharedAgree_def distinct_map dest: inj_onD)

lemma written_risen:
  assumes "f \<in> set (rp_Findings r)" and "risen (BaselineWriter_Write now r) f"
  shows "\<exists>g \<in> set (rp_Findings r). baselineFP g = baselineFP f \<and>
    (\<exists>p. countOn o_Path p (fi_Occurrences g) < countOn o_Path p (fi_Occurrences f))"
proof -
  obtain g bf where g: "g \<in> set (rp_Findings r)" "baselineFP g = baselineFP f"
    and bf: "recorded (BaselineWriter_Write now r) (baselineFP f) = Some bf"
    and count: "\<And>p. countOn bo_Path p (bf_Occurrences bf) = countOn o_Path p (fi_Occurrences g)"
    using recorded_written [OF assms(1), of now] by blast
  obtain p where "countOn bo_Path p (bf_Occurrences bf) < countOn o_Path p (fi_Occurrences f)"
    using assms(2) by (auto simp: risen_def bf)
  with g show ?thesis
    unfolding count by blast
qed

text \<open>
  C37. Writing a report as a baseline and comparing the same report against it.  No finding is new.
  A finding is reported as worsened only because another finding of the report has the same
  fingerprint and fewer occurrences in some file, the baseline keeping one entry for each
  fingerprint.  So if the findings that share a fingerprint have the same number of occurrences in
  every file, in particular if the fingerprints are distinct, nothing is reported and the exit
  code is 0.
\<close>

theorem write_compare_roundtrip:
  shows "cr_NewFindings (CompareToBaseline r (BaselineWriter_Write now r)) = []
    \<and> (\<forall>w \<in> set (cr_WorsenedFindings (CompareToBaseline r (BaselineWriter_Write now r))).
        \<exists>f \<in> set (rp_Findings r). \<exists>g \<in> set (rp_Findings r). wf_Fingerprint w = baselineFP f \<and> baselineFP g = baselineFP f \<and>
          (\<exists>p. countOn o_Path p (fi_Occurrences g) < countOn o_Path p (fi_Occurrences f)))
    \<and> (sharedAgree r \<longrightarrow>
        CompareToBaseline r (BaselineWriter_Write now r) = \<lparr>cr_NewFindings = [], cr_WorsenedFindings = [], cr_HasChanges = False\<rparr> \<and>
        PrintCompareResult (CompareToBaseline r (BaselineWriter_Write now r)) =
          ''No new or worsened duplicate code detected.'' @ [CHR 0x0A])"
proof -
  let ?b = "BaselineWriter_Write now r"
  note compare = CompareToBaseline_def baselineByFP_recorded fold_compare
  have known: "recorded ?b (baselineFP f) \<noteq> None" if "f \<in> set (rp_Findings r)" for f
    using recorded_written [OF that, of now] by auto
  then have new: "cr_NewFindings (CompareToBaseline r ?b) = []"
    unfolding compare by (auto simp: filter_empty_conv)
  have worse: "\<exists>f \<in> set (rp_Findings r). wf_Fingerprint w = baselineFP f \<and> risen ?b f"
    if "w \<in> set (cr_WorsenedFindings (CompareToBaseline r ?b))" for w
  proof -
    have "w \<in> set (concat (map (worsenedBy (recorded ?b)) (rp_Findings r)))"
      using that unfolding compare by simp
    then obtain f where f: "f \<in> set (rp_Findings r)" "w \<in> set (worsenedBy (recorded ?b) f)"
      by auto
    then have "risen ?b f"
      using worsenedBy_risen(1) [of ?b f] by auto
    with f worsenedBy_risen(2) [OF this] show ?thesis
      by (auto simp: tellsRise_def)
  qed
  have agree: "\<not> risen ?b f" if s: "sharedAgree r" and f: "f \<in> set (rp_Findings r)" for f
  proof
    assume "risen ?b f"
    then obtain g p where "g \<in> set (rp_Findings r)" "baselineFP g = baselineFP f"
      "countOn o_Path p (fi_Occurrences g) < countOn o_Path p (fi_Occurrences f)"
      using written_risen [OF f, of now] by blast
    moreover have "countOn o_Path p (fi_Occurrences f) = countOn o_Path p (fi_Occurrences g)"
      by (rule sharedAgreeD [OF s f]) (use calculation in simp_all)
    ultimately show False
      by simp
  qed
  have clean: "CompareToBaseline r ?b = \<lparr>cr_NewFindings = [], cr_WorsenedFindings = [], cr_HasChanges = False\<rparr>" if "sharedAgree r"
    unfolding compare using known agree [OF that] by (auto simp: unchanged_risen worsenedBy_risen(1) filter_empty_conv)
  show ?thesis
  proof (intro conjI ballI impI)
    show "cr_NewFindings (CompareToBaseline r ?b) = []"
      by (rule new)
  next
    fix w assume "w \<in> set (cr_WorsenedFindings (CompareToBaseline r ?b))"
    then show "\<exists>f \<in> set (rp_Findings r). \<exists>g \<in> set (rp_Findings r). wf_Fingerprint w = baselineFP f \<and> baselineFP g = baselineFP f \<and>
          (\<exists>p. countOn o_Path p (fi_Occurrences g) < countOn o_Path p (fi_Occurrences f))"
      using worse written_risen by meson
  next
    assume "sharedAgree r"
    then show "CompareToBaseline r ?b = \<lparr>cr_NewFindings = [], cr_WorsenedFindings = [], cr_HasChanges = False\<rparr>"
      "PrintCompareResult (CompareToBaseline r ?b) = ''No new or worsened duplicate code detected.'' @ [CHR 0x0A]"
      by (simp_all add: clean PrintCompareResult_def nl_def)
  qed
qed

section \<open>Equality of baselines\<close>

lemma occurrencesEqual_iff: "length xs = length ys \<Longrightarrow> occurrencesEqual xs ys \<longleftrightarrow> xs = ys"
  by (induction xs ys rule: list_induct2) auto

lemma findingEqual_iff: "findingEqual a b \<longleftrightarrow> a = b"
  by (cases a; cases b) (auto simp: findingEqual_def occurrencesEqual_iff)

lemma list_all_zip_eq: "length xs = length ys \<Longrightarrow> list_all (\<lambda>(x, y). findingEqual x y) (zip xs ys) \<longleftrightarrow> xs = ys"
  by (induction xs ys rule: list_induct2) (auto simp: findingEqual_iff)

lemma baselinesEqual_iff: "baselinesEqual a b \<longleftrightarrow> a\<lparr>bl_GeneratedAt := t\<rparr> = b\<lparr>bl_GeneratedAt := t\<rparr>"
  by (cases a; cases b; cases "bl_Thresholds a"; cases "bl_Thresholds b") (auto simp: baselinesEqual_def list_all_zip_eq)

section \<open>Validators\<close>

lemma concat_enumerate_empty:
  "(\<forall>x \<in> set xs. \<forall>i. h i x = []) \<Longrightarrow> concat (map (\<lambda>(i, x). h i x) (enumerate n xs)) = []"
  by (induction xs arbitrary: n) auto

lemma findingsOrder_empty_iff: "findingsOrder quote i fs = [] \<longleftrightarrow> sorted_wrt (<) (map bf_Fingerprint fs)"
  by (induction quote i fs rule: findingsOrder.induct) (auto simp: sorted_wrt2 sorted_wrt1 not_le simp del: sorted_wrt.simps(2))

lemma occurrencesOrder_empty_iff: "occurrencesOrder i j occs = [] \<longleftrightarrow> sorted (map bo_key3 occs)"
  by (induction i j occs rule: occurrencesOrder.induct)
    (auto simp: occurrenceBefore_key not_less sorted_wrt2 sorted_wrt1 simp del: sorted_wrt.simps(2))

lemma pathChecks_empty_iff:
  "pathChecks i j occ = [] \<longleftrightarrow> \<not> isAbs (bo_Path occ) \<and> CHR 0x5C \<notin> set (bo_Path occ) \<and>
     ''..'' \<notin> set (splitOn (CHR ''/'') (bo_Path occ)) \<and> bo_Path occ \<noteq> '''' \<and> 0 < bo_StartLine occ \<and> bo_StartLine occ \<le> bo_EndLine occ"
  by (auto simp: pathChecks_def Let_def)

lemma fingerprintChecks_empty:
  assumes "\<forall>(i, f) \<in> set ifs. isSha256Hex (bf_Fingerprint f)" and "distinct (map (bf_Fingerprint \<circ> snd) ifs)"
    and "\<forall>(i, f) \<in> set ifs. bf_Fingerprint f \<notin> fst ` set seen"
  shows "fingerprintChecks quote seen ifs = []"
  using assms
proof (induction ifs arbitrary: seen)
  case (Cons e rest)
  obtain i f where e: "e = (i, f)"
    by (cases e)
  with Cons.prems have f: "bf_Fingerprint f \<noteq> ''''" "isSha256Hex (bf_Fingerprint f)" "map_of seen (bf_Fingerprint f) = None"
    by (auto simp: isSha256Hex_def map_of_eq_None_iff)
  have "fingerprintChecks quote ((bf_Fingerprint f, i) # seen) rest = []"
    using Cons.prems e by (intro Cons.IH) (auto simp: image_iff)
  with f e show ?case by (simp add: Let_def)
qed simp

lemma strict_sort_slice:
  assumes "distinct (map bf_Fingerprint fs)"
  shows "sorted_wrt (<) (map bf_Fingerprint (sort_slice bfLess fs))"
  using finding_fp.sort_slice_keys_sorted [of fs] assms distinct_map_sort_slice [of bf_Fingerprint bfLess fs]
  by (simp add: strict_sorted_iff)

lemma canonical_findings_set:
  "x \<in> set (bl_Findings (GenerateCanonicalBaseline rel root r)) \<longleftrightarrow>
     (\<exists>f \<in> set (rp_Findings r). x = sortOccs boLess3 (toBaselineFinding (NormalizeOccurrencePath rel (normRoot root)) f))"
  by (auto simp: GenerateCanonicalBaseline_def)

lemma canonical_fingerprints:
  "map bf_Fingerprint (bl_Findings (GenerateCanonicalBaseline rel root r)) =
     map bf_Fingerprint (sort_slice bfLess (map (toBaselineFinding (NormalizeOccurrencePath rel (normRoot root))) (rp_Findings r)))"
  by (simp add: GenerateCanonicalBaseline_def)

lemma canonical_ordered_iff:
  "ValidateBaselineOrdering quote (GenerateCanonicalBaseline rel root r) = [] \<longleftrightarrow> distinct (map baselineFP (rp_Findings r))"
proof -
  let ?b = "GenerateCanonicalBaseline rel root r"
  let ?fs = "map (toBaselineFinding (NormalizeOccurrencePath rel (normRoot root))) (rp_Findings r)"
  have "concat (map (\<lambda>(i, f). occurrencesOrder i 0 (bf_Occurrences f)) (enumerate 0 (bl_Findings ?b))) = []"
    by (rule concat_enumerate_empty) (auto simp: canonical_findings_set occurrencesOrder_empty_iff occ3.sort_slice_keys_sorted)
  then have "ValidateBaselineOrdering quote ?b = [] \<longleftrightarrow> sorted_wrt (<) (map bf_Fingerprint (sort_slice bfLess ?fs))"
    by (simp add: ValidateBaselineOrdering_def findingsOrder_empty_iff canonical_fingerprints)
  also have "\<dots> \<longleftrightarrow> distinct (map bf_Fingerprint ?fs)"
    using strict_sort_slice [of ?fs] distinct_map_sort_slice [of bf_Fingerprint bfLess ?fs] strict_sorted_iff by blast
  finally show ?thesis
    by (simp add: comp_def)
qed

text \<open>
  The canonical baseline satisfies the ordering validator exactly when the report's findings have
  distinct fingerprints: findings strictly ascending, occurrences sorted by path, start and end line.
\<close>

theorem canonical_baseline_ordered:
  "ValidateBaselineOrdering quote (GenerateCanonicalBaseline rel root r) = [] \<longleftrightarrow> distinct (map baselineFP (rp_Findings r))"
  by (rule canonical_ordered_iff)

section \<open>Verification\<close>

definition policyConfig :: "string \<Rightarrow> BaselinePolicy \<Rightarrow> Config" where
  "policyConfig root policy = DefaultConfig\<lparr>c_Root := root, c_MinLines := bp_MinLines policy, c_MinTokens := bp_MinTokens policy\<rparr>"

definition acceptable :: "(string \<Rightarrow> string) \<Rightarrow> BaselinePolicy \<Rightarrow> Baseline \<Rightarrow> bool" where
  "acceptable quote policy b \<longleftrightarrow> validateBaselineCompatibility b = None \<and>
     bl_Thresholds b = \<lparr>bt_MinLines = bp_MinLines policy, bt_MinTokens = bp_MinTokens policy\<rparr> \<and>
     ValidateBaselinePaths b = [] \<and> ValidateBaselineFingerprints quote b = [] \<and> ValidateBaselineOrdering quote b = []"

lemma thresholds_eq_iff: "t = \<lparr>bt_MinLines = l, bt_MinTokens = k\<rparr> \<longleftrightarrow> bt_MinLines t = l \<and> bt_MinTokens t = k"
  by (cases t) simp

lemma drift_clean_iff:
  "CheckBaselineDriftFromReport rel root b r policy = [] \<longleftrightarrow>
     b\<lparr>bl_GeneratedAt := ''1970-01-01T00:00:00Z''\<rparr> = GenerateCanonicalBaseline rel root r"
proof -
  have "GenerateCanonicalBaseline rel root r =
      (GenerateCanonicalBaseline rel root r)\<lparr>bl_GeneratedAt := ''1970-01-01T00:00:00Z''\<rparr>"
    by (simp add: GenerateCanonicalBaseline_def)
  then show ?thesis
    by (simp add: CheckBaselineDriftFromReport_def baselinesEqual_iff [of _ _ "''1970-01-01T00:00:00Z''"])
qed

lemma scan_drift_clean_iff:
  "CheckBaselineDrift rel showScan scan root b policy = [] \<longleftrightarrow>
     (\<exists>r. scan (policyConfig root policy) = Inr r \<and>
       b\<lparr>bl_GeneratedAt := ''1970-01-01T00:00:00Z''\<rparr> = GenerateCanonicalBaseline rel root r)"
  by (cases "scan (policyConfig root policy)") (auto simp: CheckBaselineDrift_def policyConfig_def drift_clean_iff)

lemma artifact_clean_iff:
  "(\<exists>b. ValidateBaselineArtifact quote env root policy = Inr \<lparr>av_Baseline = Some b, av_Findings = [], av_UsableForDrift = True\<rparr> \<and> P b) \<longleftrightarrow>
     be_lstat env (baselineFSPath root policy) = RegularFile \<and> CheckBaselineTracked env root (bp_Path policy) = None \<and>
     (\<exists>b. be_decode env (baselineFSPath root policy) = Inr b \<and> acceptable quote policy b \<and> P b)"
  by (cases "be_decode env (baselineFSPath root policy)")
    (auto simp: ValidateBaselineArtifact_def acceptable_def terminal_def Let_def thresholds_eq_iff
      split: lstatResult.splits option.splits if_splits)

lemma verify_clean_shape:
  "VerifyBaseline rel quote showScan scan env root policy = ([], None) \<longleftrightarrow>
     (\<exists>b. ValidateBaselineArtifact quote env root policy = Inr \<lparr>av_Baseline = Some b, av_Findings = [], av_UsableForDrift = True\<rparr> \<and>
       CheckBaselineDrift rel showScan scan root b policy = [])"
  by (auto simp: VerifyBaseline_def ValidateBaselineArtifact_def terminal_def Let_def
      split: lstatResult.splits option.splits sum.splits if_splits)

text \<open>
  C39. Baseline verification succeeds exactly when the committed file is a regular file tracked by git
  that decodes to a compatible baseline with the policy thresholds, passes the path, fingerprint and
  ordering validators, and equals, up to its timestamp, the canonical baseline of a fresh scan.
\<close>

theorem verify_baseline_exact:
  "VerifyBaseline rel quote showScan scan env root policy = ([], None) \<longleftrightarrow>
     be_lstat env (baselineFSPath root policy) = RegularFile \<and>
     be_lsFiles env (if root \<noteq> '''' \<and> root \<noteq> ''.'' then root else ''.'') (bp_Path policy) \<and>
     (\<exists>b r. be_decode env (baselineFSPath root policy) = Inr b \<and> acceptable quote policy b \<and>
       scan (policyConfig root policy) = Inr r \<and>
       b\<lparr>bl_GeneratedAt := ''1970-01-01T00:00:00Z''\<rparr> = GenerateCanonicalBaseline rel root r)"
  unfolding verify_clean_shape artifact_clean_iff scan_drift_clean_iff
  by (simp add: CheckBaselineTracked_def Let_def)

text \<open>
  A report fit to be committed: distinct SHA-256 fingerprints, local paths that normalisation leaves
  alone, valid line ranges, and start lines that separate the occurrences of a file.
\<close>

definition fitOccurrence :: "(string \<Rightarrow> string) \<Rightarrow> Occurrence \<Rightarrow> bool" where
  "fitOccurrence norm occ \<longleftrightarrow> norm (o_Path occ) = o_Path occ \<and> pathChecks 0 0 (toBaselineOccurrence id occ) = []"

definition fitReport :: "(string \<Rightarrow> string) \<Rightarrow> Report \<Rightarrow> bool" where
  "fitReport norm r \<longleftrightarrow> distinct (map baselineFP (rp_Findings r)) \<and>
     (\<forall>f \<in> set (rp_Findings r). isSha256Hex (baselineFP f) \<and> (\<forall>occ \<in> set (fi_Occurrences f). fitOccurrence norm occ) \<and>
       inj_on bo_key2 (set (map (toBaselineOccurrence id) (fi_Occurrences f))))"

lemma fit_write_canonical:
  assumes "fitReport (NormalizeOccurrencePath rel (normRoot root)) r"
  shows "(BaselineWriter_Write now r)\<lparr>bl_GeneratedAt := ''1970-01-01T00:00:00Z''\<rparr> = GenerateCanonicalBaseline rel root r"
proof -
  let ?norm = "NormalizeOccurrencePath rel (normRoot root)"
  have eq: "toBaselineFinding ?norm f = toBaselineFinding id f" if "f \<in> set (rp_Findings r)" for f
    using assms that by (auto simp: fitReport_def fitOccurrence_def toBaselineFinding_def toBaselineOccurrence_def)
  have srt: "sortOccs boLess2 x = sortOccs boLess3 x"
    if "x \<in> set (sort_slice bfLess (map (toBaselineFinding id) (rp_Findings r)))" for x
  proof -
    have "inj_on bo_key2 (set (bf_Occurrences x))"
      using assms that by (auto simp: fitReport_def)
    then show ?thesis
      by (simp add: sortOccs_def sort_occ2_occ3)
  qed
  have m: "map (toBaselineFinding ?norm) (rp_Findings r) = map (toBaselineFinding id) (rp_Findings r)"
    using eq by simp
  have "map (sortOccs boLess2) (sort_slice bfLess (map (toBaselineFinding id) (rp_Findings r))) =
      map (sortOccs boLess3) (sort_slice bfLess (map (toBaselineFinding id) (rp_Findings r)))"
    using srt by (intro map_cong) auto
  then show ?thesis
    unfolding BaselineWriter_Write_def GenerateCanonicalBaseline_def m by simp
qed

lemma fit_write_acceptable:
  assumes fit: "fitReport norm r" and th: "rp_Thresholds r = \<lparr>bt_MinLines = 40, bt_MinTokens = 400\<rparr>"
    and ord: "ValidateBaselineOrdering quote (BaselineWriter_Write now r) = []"
  shows "acceptable quote DefaultBaselinePolicy (BaselineWriter_Write now r)"
proof -
  let ?b = "BaselineWriter_Write now r"
  have mem: "x \<in> set (bl_Findings ?b) \<longleftrightarrow> (\<exists>f \<in> set (rp_Findings r). x = sortOccs boLess2 (toBaselineFinding id f))" for x
    by (auto simp: BaselineWriter_Write_def)
  have "pathChecks i j occ = []" if "x \<in> set (bl_Findings ?b)" "occ \<in> set (bf_Occurrences x)" for x occ i j
  proof -
    have "pathChecks 0 0 occ = []"
      using fit that by (auto simp: mem fitReport_def fitOccurrence_def)
    then show ?thesis by (simp add: pathChecks_empty_iff)
  qed
  then have paths: "ValidateBaselinePaths ?b = []"
    unfolding ValidateBaselinePaths_def by (intro concat_enumerate_empty) (simp add: concat_enumerate_empty)
  have "map bf_Fingerprint (bl_Findings ?b) = map bf_Fingerprint (sort_slice bfLess (map (toBaselineFinding id) (rp_Findings r)))"
    by (simp add: BaselineWriter_Write_def)
  moreover have "distinct (map bf_Fingerprint (map (toBaselineFinding id) (rp_Findings r)))"
    using fit by (simp add: fitReport_def comp_def)
  ultimately have "distinct (map bf_Fingerprint (bl_Findings ?b))"
    by (simp only: distinct_map_sort_slice)
  then have "distinct (map (bf_Fingerprint \<circ> snd) (enumerate 0 (bl_Findings ?b)))"
    by (metis map_map map_snd_enumerate)
  moreover have "\<forall>(i, f) \<in> set (enumerate 0 (bl_Findings ?b)). isSha256Hex (bf_Fingerprint f)"
    using fit by (auto simp: mem fitReport_def dest!: in_set_enumerate_eq [THEN iffD1] nth_mem)
  ultimately have "ValidateBaselineFingerprints quote ?b = []"
    unfolding ValidateBaselineFingerprints_def by (intro fingerprintChecks_empty) auto
  with paths ord show ?thesis
    by (simp add: acceptable_def th validateBaselineCompatibility_def BaselineWriter_Write_def DefaultBaselinePolicy_def
        PolicyMinLines_def PolicyMinTokens_def AlgorithmVersion_def)
qed

lemma ordering_ignores_time [simp]: "ValidateBaselineOrdering quote (b\<lparr>bl_GeneratedAt := t\<rparr>) = ValidateBaselineOrdering quote b"
  by (simp add: ValidateBaselineOrdering_def)

text \<open>
  A freshly generated baseline verifies: when the file read back is the baseline written from the
  report of the same scan, the report is fit to be committed and the file is regular and tracked,
  verification reports no finding and no error.
\<close>

theorem fresh_baseline_verifies:
  assumes fit: "fitReport (NormalizeOccurrencePath rel (normRoot root)) r"
    and th: "rp_Thresholds r = \<lparr>bt_MinLines = 40, bt_MinTokens = 400\<rparr>"
    and scan: "scan (policyConfig root DefaultBaselinePolicy) = Inr r"
    and "be_lstat env (baselineFSPath root DefaultBaselinePolicy) = RegularFile"
    and "CheckBaselineTracked env root (bp_Path DefaultBaselinePolicy) = None"
    and "be_decode env (baselineFSPath root DefaultBaselinePolicy) = Inr (BaselineWriter_Write now r)"
  shows "VerifyBaseline rel quote showScan scan env root DefaultBaselinePolicy = ([], None)"
proof -
  have can: "(BaselineWriter_Write now r)\<lparr>bl_GeneratedAt := ''1970-01-01T00:00:00Z''\<rparr> = GenerateCanonicalBaseline rel root r"
    by (rule fit_write_canonical [OF fit])
  have "ValidateBaselineOrdering quote (GenerateCanonicalBaseline rel root r) = []"
    using fit unfolding canonical_ordered_iff by (simp add: fitReport_def)
  then have "ValidateBaselineOrdering quote (BaselineWriter_Write now r) = []"
    by (simp flip: can)
  then have "acceptable quote DefaultBaselinePolicy (BaselineWriter_Write now r)"
    by (rule fit_write_acceptable [OF fit th])
  with can assms show ?thesis
    unfolding verify_clean_shape artifact_clean_iff scan_drift_clean_iff by auto
qed

section \<open>Witnesses\<close>

definition exFP :: string where
  "exFP = replicate 64 (CHR ''a'')"

definition exFinding :: Finding where
  "exFinding = \<lparr>fi_Fingerprint = take 12 exFP, fi_StableFingerprint = exFP, fi_TokenCount = 400, fi_LineCount = 41,
     fi_Occurrences = [\<lparr>o_Path = ''b.go'', o_StartLine = 1, o_EndLine = 41\<rparr>, \<lparr>o_Path = ''a.go'', o_StartLine = 9, o_EndLine = 49\<rparr>]\<rparr>"

definition exReport :: Report where
  "exReport = \<lparr>rp_Findings = [exFinding], rp_Thresholds = \<lparr>bt_MinLines = 40, bt_MinTokens = 400\<rparr>, rp_Root = ''.''\<rparr>"

definition exCommitted :: Baseline where
  "exCommitted = \<lparr>bl_SchemaVersion = 1, bl_AlgorithmVersion = AlgorithmVersion, bl_GeneratedAt = ''t'', bl_Tool = ''leamas dupcode'',
     bl_Thresholds = \<lparr>bt_MinLines = 40, bt_MinTokens = 400\<rparr>,
     bl_Findings = [\<lparr>bf_Fingerprint = exFP, bf_TokenCount = 400, bf_LineCount = 41,
       bf_Occurrences = [\<lparr>bo_Path = ''a.go'', bo_StartLine = 3, bo_EndLine = 43\<rparr>]\<rparr>]\<rparr>"

definition exEnv :: baselineEnv where
  "exEnv = \<lparr>be_lstat = (\<lambda>p. if p = ''.factory/dupcode-baseline.json'' then RegularFile else NotExist),
     be_lsFiles = (\<lambda>dir p. dir = ''.'' \<and> p = ''.factory/dupcode-baseline.json''),
     be_decode = (\<lambda>_. Inr (BaselineWriter_Write ''t'' exReport))\<rparr>"

lemma ex_baselineFP: "baselineFP exFinding = exFP"
  by (simp add: baselineFP_def exFinding_def exFP_def)

lemma ex_sha: "isSha256Hex exFP"
  by (simp add: isSha256Hex_def exFP_def list_all_iff lower_hex_def)

text \<open>
  Against the committed baseline, which knows one occurrence in \<open>a.go\<close>, the finding has risen by one
  in \<open>b.go\<close>.
\<close>

theorem compare_reports_exact_changes_witness:
  "ExitCodeFromCompareResult (CompareToBaseline exReport exCommitted) = 1 \<and> cr_NewFindings (CompareToBaseline exReport exCommitted) = []
   \<and> (\<exists>w. cr_WorsenedFindings (CompareToBaseline exReport exCommitted) = [w] \<and>
        occsOn bo_Path ''b.go'' (wf_NewOccurrences w) = [\<lparr>bo_Path = ''b.go'', bo_StartLine = 1, bo_EndLine = 41\<rparr>] \<and>
        occsOn bo_Path ''a.go'' (wf_NewOccurrences w) = [])"
proof -
  have rec: "recorded exCommitted exFP = Some (hd (bl_Findings exCommitted))"
    by (simp add: recorded_def exCommitted_def)
  have more: "countOn bo_Path ''b.go'' (bf_Occurrences (hd (bl_Findings exCommitted))) < countOn o_Path ''b.go'' (fi_Occurrences exFinding)"
    by (simp add: exFinding_def exCommitted_def countOn_def)
  then have "risen exCommitted exFinding"
    unfolding risen_def ex_baselineFP rec by blast
  then have all: "filter (risen exCommitted) (rp_Findings exReport) = [exFinding]"
    by (simp add: exReport_def)
  note c = compare_reports_exact_changes [of exReport exCommitted, unfolded all]
  from c have "list_all2 (tellsRise exCommitted) [exFinding] (cr_WorsenedFindings (CompareToBaseline exReport exCommitted))"
    by blast
  then obtain w where w: "cr_WorsenedFindings (CompareToBaseline exReport exCommitted) = [w]" "tellsRise exCommitted exFinding w"
    by (auto simp: list_all2_Cons1)
  have "occsOn bo_Path ''b.go'' (wf_NewOccurrences w) = [\<lparr>bo_Path = ''b.go'', bo_StartLine = 1, bo_EndLine = 41\<rparr>]"
    "occsOn bo_Path ''a.go'' (wf_NewOccurrences w) = []"
    using w(2) by (auto simp: tellsRise_def ex_baselineFP rec)
      (simp_all add: exFinding_def exCommitted_def countOn_def occsOn_def toBaselineOccurrence_def)
  moreover have "ExitCodeFromCompareResult (CompareToBaseline exReport exCommitted) = 1"
    using c more rec by (auto simp: exReport_def ex_baselineFP ExitCodeFromCompareResult_def not_less [symmetric] split: if_splits)
  moreover have "cr_NewFindings (CompareToBaseline exReport exCommitted) = []"
    using c by (simp add: exReport_def ex_baselineFP exCommitted_def)
  ultimately show ?thesis
    using w(1) by blast
qed

theorem write_compare_roundtrip_witness:
  "CompareToBaseline exReport (BaselineWriter_Write ''now'' exReport) =
      \<lparr>cr_NewFindings = [], cr_WorsenedFindings = [], cr_HasChanges = False\<rparr>"
proof -
  have "sharedAgree exReport"
    by (rule distinct_sharedAgree) (simp add: exReport_def)
  then show ?thesis
    using write_compare_roundtrip [of exReport "''now''"] by blast
qed

theorem fresh_baseline_verifies_witness:
  "VerifyBaseline (\<lambda>_. Some) id (\<lambda>_. '''') (\<lambda>_. Inr exReport) exEnv ''.'' DefaultBaselinePolicy = ([], None)"
proof (rule fresh_baseline_verifies [where r = exReport and now = "''t''"])
  show "fitReport (NormalizeOccurrencePath (\<lambda>_. Some) (normRoot ''.'')) exReport"
    by (simp add: fitReport_def exReport_def ex_baselineFP ex_sha)
      (simp add: exFinding_def fitOccurrence_def NormalizeOccurrencePath_def pathChecks_empty_iff toBaselineOccurrence_def isAbs_def
        bo_key2_def)
qed (simp_all add: exReport_def exEnv_def baselineFSPath_def CheckBaselineTracked_def DefaultBaselinePolicy_def Let_def)

section \<open>Where the code falls short\<close>

text \<open>
  Two findings of one report can have one fingerprint: the fingerprint is that of the token content,
  and a content forms several findings when its occurrences fall into several match components.
  The baseline written from such a report keeps one entry for both, so comparing the same report
  with it reports the other as worsened.
\<close>

definition splitReport :: Report where
  "splitReport = \<lparr>rp_Findings =
     [exFinding\<lparr>fi_Occurrences := [\<lparr>o_Path = ''a.go'', o_StartLine = 1, o_EndLine = 41\<rparr>, \<lparr>o_Path = ''b.go'', o_StartLine = 1, o_EndLine = 41\<rparr>]\<rparr>,
      exFinding\<lparr>fi_Occurrences := [\<lparr>o_Path = ''c.go'', o_StartLine = 1, o_EndLine = 41\<rparr>, \<lparr>o_Path = ''d.go'', o_StartLine = 1, o_EndLine = 41\<rparr>]\<rparr>],
     rp_Thresholds = \<lparr>bt_MinLines = 40, bt_MinTokens = 400\<rparr>, rp_Root = ''.''\<rparr>"

lemma shared_fingerprint_reported:
  "cr_HasChanges (CompareToBaseline splitReport (BaselineWriter_Write now splitReport))"
proof -
  let ?b = "BaselineWriter_Write now splitReport"
  have fp: "baselineFP f = exFP" if "f \<in> set (rp_Findings splitReport)" for f
    using that by (auto simp: splitReport_def baselineFP_def exFinding_def exFP_def)
  obtain f g where fg: "rp_Findings splitReport = [f, g]" "fi_Occurrences f = [\<lparr>o_Path = ''a.go'', o_StartLine = 1, o_EndLine = 41\<rparr>,
      \<lparr>o_Path = ''b.go'', o_StartLine = 1, o_EndLine = 41\<rparr>]"
    "fi_Occurrences g = [\<lparr>o_Path = ''c.go'', o_StartLine = 1, o_EndLine = 41\<rparr>, \<lparr>o_Path = ''d.go'', o_StartLine = 1, o_EndLine = 41\<rparr>]"
    by (simp add: splitReport_def)
  have "risen ?b f \<or> risen ?b g"
  proof -
    have "f \<in> set (rp_Findings splitReport)"
      by (simp add: fg)
    then obtain k bf where k: "k \<in> set (rp_Findings splitReport)" and rec: "recorded ?b exFP = Some bf"
      and counts: "\<And>p. countOn bo_Path p (bf_Occurrences bf) = countOn o_Path p (fi_Occurrences k)"
      using recorded_written [of f splitReport now] by (auto simp: fp)
    have "countOn o_Path ''a.go'' (fi_Occurrences f) = 1" "countOn o_Path ''c.go'' (fi_Occurrences g) = 1"
      "k = f \<longrightarrow> countOn bo_Path ''c.go'' (bf_Occurrences bf) = 0" "k = g \<longrightarrow> countOn bo_Path ''a.go'' (bf_Occurrences bf) = 0"
      unfolding counts by (auto simp: fg countOn_def)
    moreover have "k = f \<or> k = g"
      using k by (simp add: fg)
    moreover have "baselineFP f = exFP" "baselineFP g = exFP"
      by (simp_all add: fp fg)
    ultimately show ?thesis
      unfolding risen_def using rec by (metis zero_less_one)
  qed
  then have "\<exists>f \<in> set (rp_Findings splitReport). \<not> unchanged (recorded ?b) f"
    by (auto simp: fg unchanged_risen)
  then show ?thesis
    unfolding CompareToBaseline_def baselineByFP_recorded fold_compare by simp
qed

text \<open>
  \<open>CheckReport\<close> records the thresholds it was given, although \<open>CheckRepo\<close> scans with the
  defaults in place of zeros: with zero thresholds the findings are those of a scan at 40/400, yet
  the baseline written from the report is rejected as having thresholds 0/0.
\<close>

theorem default_thresholds_not_recorded:
  assumes "c_MinLines cfg = 0" and "c_MinTokens cfg = 0" and "CheckReport rel src listed root cfg = Inr r"
  shows "(\<exists>r'. CheckReport rel src listed root (cfg\<lparr>c_MinLines := 40, c_MinTokens := 400\<rparr>) = Inr r' \<and> rp_Findings r' = rp_Findings r)
    \<and> validateBaselineCompatibility (BaselineWriter_Write now r) = Some (ThresholdMismatch 0 0)"
proof -
  have "withDefaults (cfg\<lparr>c_MinLines := 40, c_MinTokens := 400\<rparr>) = withDefaults cfg"
    using assms(1,2) by (simp add: withDefaults_def DefaultConfig_def Let_def)
  then have "CheckRepo rel src listed root (cfg\<lparr>c_MinLines := 40, c_MinTokens := 400\<rparr>) = CheckRepo rel src listed root cfg"
    by (simp add: CheckRepo_def)
  with assms show ?thesis
    by (auto simp: CheckReport_def bindE_eq_Inr validateBaselineCompatibility_def BaselineWriter_Write_def
        PolicyMinLines_def AlgorithmVersion_def)
qed

theorem default_thresholds_not_recorded_witness:
  "CheckReport (\<lambda>_. Some) (\<lambda>_. Inl (ParseError '''')) (Inr []) ''.'' (DefaultConfig\<lparr>c_MinLines := 0, c_MinTokens := 0\<rparr>) =
     Inr \<lparr>rp_Findings = [], rp_Thresholds = \<lparr>bt_MinLines = 0, bt_MinTokens = 0\<rparr>, rp_Root = ''.''\<rparr> \<and>
   validateBaselineCompatibility (BaselineWriter_Write ''now''
     \<lparr>rp_Findings = [], rp_Thresholds = \<lparr>bt_MinLines = 0, bt_MinTokens = 0\<rparr>, rp_Root = ''.''\<rparr>) = Some (ThresholdMismatch 0 0)"
proof -
  have r: "CheckReport (\<lambda>_. Some) (\<lambda>_. Inl (ParseError '''')) (Inr []) ''.'' (DefaultConfig\<lparr>c_MinLines := 0, c_MinTokens := 0\<rparr>) =
     Inr \<lparr>rp_Findings = [], rp_Thresholds = \<lparr>bt_MinLines = 0, bt_MinTokens = 0\<rparr>, rp_Root = ''.''\<rparr>"
    by (simp add: CheckReport_def CheckRepo_def analyzeAll_def inventoryMap_def v4BuildInternalFindingsChecked_def Let_def)
  with default_thresholds_not_recorded [OF _ _ r, of "''now''"] show ?thesis by simp
qed

text \<open>
  The paths of a report are already relative to the root, but the canonical baseline normalises
  them against the root again.  With the relative root \<open>sub\<close>, a duplicate in \<open>sub/sub/x.go\<close> has the
  report path \<open>sub/x.go\<close> and the canonical path \<open>x.go\<close>: the drift check reports the baseline just
  written from the same report as stale.
\<close>

definition nestedReport :: Report where
  "nestedReport = \<lparr>rp_Findings = [exFinding\<lparr>fi_Occurrences := [\<lparr>o_Path = ''sub/x.go'', o_StartLine = 1, o_EndLine = 41\<rparr>]\<rparr>],
     rp_Thresholds = \<lparr>bt_MinLines = 40, bt_MinTokens = 400\<rparr>, rp_Root = ''sub''\<rparr>"

theorem canonical_paths_normalised_twice:
  "NormalizePathForBaseline filepathRel ''sub/sub/x.go'' ''sub'' = ''sub/x.go'' \<and>
   CheckBaselineDriftFromReport filepathRel ''sub'' (BaselineWriter_Write now nestedReport) nestedReport DefaultBaselinePolicy \<noteq> []"
proof -
  have n: "NormalizeOccurrencePath filepathRel ''sub'' ''sub/x.go'' = ''x.go''"
    "NormalizePathForBaseline filepathRel ''sub/sub/x.go'' ''sub'' = ''sub/x.go''"
    by code_simp+
  have "bl_Findings (BaselineWriter_Write now nestedReport) \<noteq> bl_Findings (GenerateCanonicalBaseline filepathRel ''sub'' nestedReport)"
    by (simp add: BaselineWriter_Write_def GenerateCanonicalBaseline_def nestedReport_def sort_slice_def toBaselineFinding_def
        sortOccs_def toBaselineOccurrence_def normRoot_def n)
  then show ?thesis
    using n by (auto simp: drift_clean_iff dest: arg_cong [of _ _ bl_Findings])
qed

end
