(* ===== verification/Exec_Base.thy ===== *)
theory Exec_Base
  imports Prelude "HOL-Library.Word"
begin

text \<open>
  The data of the execution gateway, package \<open>internal/execution\<close>: structured errors
  (\<open>errors.go\<close>), requests and results (\<open>command.go\<close>) and the budget with its
  validation (\<open>budget.go\<close>).

  Times are nanoseconds since the zero time of package \<open>time\<close>, so that \<open>IsZero\<close> is
  equality with 0, and durations are nanoseconds.  Unsigned counters keep their width.  A field of
  type \<open>interface{}\<close> holds one of the values the code puts there.  The cause of an error is
  its text.
\<close>

section \<open>Errors\<close>

datatype anyValue = NilValue | StringValue string | IntValue int | UintValue int

record ExecutionError =
  ee_Code :: string
  ee_Dimension :: string
  ee_Limit :: anyValue
  ee_Observed :: anyValue
  ee_RootExecutionID :: string
  ee_Command :: string
  ee_ElapsedMs :: int
  ee_Message :: string
  ee_Cause :: "string option"

definition executionError :: "string \<Rightarrow> string \<Rightarrow> string option \<Rightarrow> ExecutionError" where
  "executionError code msg cause =
     \<lparr>ee_Code = code, ee_Dimension = '''', ee_Limit = NilValue, ee_Observed = NilValue, ee_RootExecutionID = '''',
      ee_Command = '''', ee_ElapsedMs = 0, ee_Message = msg, ee_Cause = cause\<rparr>"

definition ExecutionError_Error :: "ExecutionError \<Rightarrow> string" where
  "ExecutionError_Error e =
     (if ee_Message e \<noteq> '''' then ee_Message e
      else ee_Code e @ '': '' @ (case ee_Cause e of Some c \<Rightarrow> c | None \<Rightarrow> ''<nil>''))"

definition NewExecutionError :: "string \<Rightarrow> string \<Rightarrow> string option \<Rightarrow> ExecutionError" where
  "NewExecutionError code msg cause = executionError code msg cause"

definition WithDimension :: "ExecutionError \<Rightarrow> string \<Rightarrow> anyValue \<Rightarrow> anyValue \<Rightarrow> ExecutionError" where
  "WithDimension e dim limit observed = e\<lparr>ee_Dimension := dim, ee_Limit := limit, ee_Observed := observed\<rparr>"

definition WithContext :: "ExecutionError \<Rightarrow> string \<Rightarrow> string \<Rightarrow> int \<Rightarrow> ExecutionError" where
  "WithContext e rootID command elapsedMs =
     e\<lparr>ee_RootExecutionID := rootID, ee_Command := command, ee_ElapsedMs := elapsedMs\<rparr>"

definition ErrNestedLeamasExecution :: ExecutionError where
  "ErrNestedLeamasExecution = executionError ''nested_leamas_execution''
     ''Leamas cannot be started from within a Leamas execution'' None"

definition ErrExecutionCycleDetected :: ExecutionError where
  "ErrExecutionCycleDetected = executionError ''execution_cycle_detected'' ''execution cycle detected'' None"

definition ErrStartBudgetExhausted :: "64 word \<Rightarrow> 64 word \<Rightarrow> ExecutionError" where
  "ErrStartBudgetExhausted limit observed =
     WithDimension (executionError ''execution_start_budget_exhausted''
       (''start budget exhausted: limit='' @ itoa (uint limit) @ '', observed='' @ itoa (uint observed)) None)
       ''total_starts'' (UintValue (uint limit)) (UintValue (uint observed))"

definition ErrConcurrencyExhausted :: "int \<Rightarrow> ExecutionError" where
  "ErrConcurrencyExhausted limit =
     WithDimension (executionError ''execution_concurrency_exhausted'' (''concurrency limit reached: '' @ itoa limit) None)
       ''concurrent'' (IntValue limit) (IntValue limit)"

definition ErrTaskDepthExceeded :: "16 word \<Rightarrow> 16 word \<Rightarrow> ExecutionError" where
  "ErrTaskDepthExceeded limit observed =
     WithDimension (executionError ''execution_task_depth_exceeded''
       (''task depth exceeded: limit='' @ itoa (uint limit) @ '', observed='' @ itoa (uint observed)) None)
       ''task_depth'' (UintValue (uint limit)) (UintValue (uint observed))"

definition ErrOutputLimitExceeded :: "int \<Rightarrow> int \<Rightarrow> string \<Rightarrow> string \<Rightarrow> ExecutionError" where
  "ErrOutputLimitExceeded limit observed rootID command =
     (WithDimension (executionError ''execution_output_limit_exceeded''
       (''output limit exceeded: limit='' @ itoa limit @ '' bytes, observed='' @ itoa observed @ '' bytes'') None)
       ''output_bytes'' (IntValue limit) (IntValue observed))
     \<lparr>ee_RootExecutionID := rootID, ee_Command := command\<rparr>"

definition ErrDeadlineExceeded :: ExecutionError where
  "ErrDeadlineExceeded = executionError ''execution_deadline_exceeded'' ''execution deadline exceeded'' None"

definition ErrTimeoutExceeded :: "string \<Rightarrow> ExecutionError" where
  "ErrTimeoutExceeded timeout = executionError ''execution_timeout_exceeded'' (''command timeout exceeded: '' @ timeout) None"

definition ErrUnboundedTimeout :: "string \<Rightarrow> ExecutionError" where
  "ErrUnboundedTimeout timeout = executionError ''execution_invalid_unbounded_timeout''
     (''timeout exceeds maximum permitted ('' @ timeout @ '')'') None"

definition ErrRetainedOutputPipe :: "string \<Rightarrow> ExecutionError" where
  "ErrRetainedOutputPipe cause = executionError ''execution_retained_output_pipe''
     ''direct process exited but retained output pipes exceeded WaitDelay'' (Some cause)"

definition ErrProcessTreeCleanupFailed :: "int \<Rightarrow> string \<Rightarrow> ExecutionError" where
  "ErrProcessTreeCleanupFailed pid detail = executionError ''execution_process_tree_cleanup_failed''
     (''failed to cleanup process tree (pid='' @ itoa pid @ ''): '' @ detail) None"

definition ErrCancelled :: ExecutionError where
  "ErrCancelled = executionError ''execution_cancelled'' ''execution was cancelled'' None"

definition ErrInvalidRequest :: "string \<Rightarrow> ExecutionError" where
  "ErrInvalidRequest msg = executionError ''execution_invalid_request'' msg None"

section \<open>Shared errors\<close>

text \<open>
  Three errors are package variables, so that results hold a pointer to the same object; every other
  error is allocated for the result that holds it.  The store has the current contents of the
  package variables.
\<close>

datatype errorRef = SharedNested | SharedDeadline | SharedCancelled | Allocated ExecutionError

record errorStore =
  es_nested :: ExecutionError
  es_deadline :: ExecutionError
  es_cancelled :: ExecutionError

definition initialStore :: errorStore where
  "initialStore = \<lparr>es_nested = ErrNestedLeamasExecution, es_deadline = ErrDeadlineExceeded, es_cancelled = ErrCancelled\<rparr>"

fun deref :: "errorStore \<Rightarrow> errorRef \<Rightarrow> ExecutionError" where
  "deref st SharedNested = es_nested st"
| "deref st SharedDeadline = es_deadline st"
| "deref st SharedCancelled = es_cancelled st"
| "deref st (Allocated e) = e"

text \<open>The assignments \<open>err.RootExecutionID = rootID\<close> and \<open>err.Command = command\<close>.\<close>

definition stamp :: "string \<Rightarrow> string \<Rightarrow> ExecutionError \<Rightarrow> ExecutionError" where
  "stamp rootID command e = e\<lparr>ee_RootExecutionID := rootID, ee_Command := command\<rparr>"

fun assignContext :: "string \<Rightarrow> string \<Rightarrow> errorRef \<Rightarrow> errorStore \<Rightarrow> errorRef \<times> errorStore" where
  "assignContext rootID command SharedNested st = (SharedNested, st\<lparr>es_nested := stamp rootID command (es_nested st)\<rparr>)"
| "assignContext rootID command SharedDeadline st = (SharedDeadline, st\<lparr>es_deadline := stamp rootID command (es_deadline st)\<rparr>)"
| "assignContext rootID command SharedCancelled st = (SharedCancelled, st\<lparr>es_cancelled := stamp rootID command (es_cancelled st)\<rparr>)"
| "assignContext rootID command (Allocated e) st = (Allocated (stamp rootID command e), st)"

section \<open>Requests and results\<close>

record Request =
  rq_Name :: string
  rq_Args :: "string list"
  rq_Dir :: string
  rq_Env :: "string list"
  rq_Timeout :: int
  rq_OutputCap :: int
  rq_Fingerprint :: string
  rq_TaskDepth :: "16 word"

record Result =
  rs_ExitCode :: int
  rs_Stdout :: string
  rs_Stderr :: string
  rs_OutputTruncated :: bool
  rs_OutputIncomplete :: bool
  rs_OutputBytesObserved :: int
  rs_OutputBytesRetained :: int
  rs_OutputLimit :: int
  rs_Error :: "errorRef option"

text \<open>The measured durations of a result are not modelled.\<close>

definition Result_Success :: "Result \<Rightarrow> bool" where
  "Result_Success r \<longleftrightarrow> rs_Error r = None \<and> rs_ExitCode r = 0"

definition Result_Failed :: "Result \<Rightarrow> bool" where
  "Result_Failed r \<longleftrightarrow> rs_Error r \<noteq> None \<or> rs_ExitCode r \<noteq> 0"

definition NewResult :: "int \<Rightarrow> string \<Rightarrow> string \<Rightarrow> bool \<Rightarrow> Result" where
  "NewResult exitCode stdout stderr truncated =
     \<lparr>rs_ExitCode = exitCode, rs_Stdout = stdout, rs_Stderr = stderr, rs_OutputTruncated = truncated,
      rs_OutputIncomplete = False, rs_OutputBytesObserved = int (length stdout + length stderr),
      rs_OutputBytesRetained = int (length stdout + length stderr), rs_OutputLimit = 0, rs_Error = None\<rparr>"

definition NewErrorResult :: "errorRef \<Rightarrow> Result" where
  "NewErrorResult err =
     \<lparr>rs_ExitCode = -1, rs_Stdout = '''', rs_Stderr = '''', rs_OutputTruncated = False, rs_OutputIncomplete = False,
      rs_OutputBytesObserved = 0, rs_OutputBytesRetained = 0, rs_OutputLimit = 0, rs_Error = Some err\<rparr>"

definition CommandName :: "Request \<Rightarrow> string" where
  "CommandName r = (if rq_Args r = [] then '''' else hd (rq_Args r))"

definition CommandLine :: "Request \<Rightarrow> string" where
  "CommandLine r =
     (case rq_Args r of [] \<Rightarrow> '''' | a # as \<Rightarrow> foldl (\<lambda>result arg. result @ '' '' @ arg) a as)"

section \<open>Budget\<close>

definition nsSecond :: int where
  "nsSecond = 1000000000"

definition DefaultTimeout :: int where
  "DefaultTimeout = 120 * nsSecond"

definition MaxPermittedTimeout :: int where
  "MaxPermittedTimeout = 600 * nsSecond"

definition MaxPermittedMaxConcurrent :: int where
  "MaxPermittedMaxConcurrent = 16"

definition MaxPermittedMaxStarts :: "64 word" where
  "MaxPermittedMaxStarts = 1024"

definition MaxPermittedMaxTaskDepth :: "16 word" where
  "MaxPermittedMaxTaskDepth = 32"

definition MaxPermittedMaxOutputBytes :: int where
  "MaxPermittedMaxOutputBytes = 64 * 1024 * 1024"

definition MaxPermittedTerminationGrace :: int where
  "MaxPermittedTerminationGrace = 10 * nsSecond"

definition MaxPermittedPostKillWait :: int where
  "MaxPermittedPostKillWait = 5 * nsSecond"

record Budget =
  bu_Deadline :: int
  bu_MaxConcurrent :: int
  bu_MaxStarts :: "64 word"
  bu_MaxTaskDepth :: "16 word"
  bu_MaxOutputBytes :: int
  bu_TerminationGrace :: int
  bu_PostKillWait :: int

definition DefaultBudget :: "int \<Rightarrow> Budget" where
  "DefaultBudget now = \<lparr>bu_Deadline = now + DefaultTimeout, bu_MaxConcurrent = 4, bu_MaxStarts = 64, bu_MaxTaskDepth = 8,
     bu_MaxOutputBytes = 8 * 1024 * 1024, bu_TerminationGrace = 2 * nsSecond, bu_PostKillWait = 1 * nsSecond\<rparr>"

text \<open>\<open>Validate\<close> may be called on a nil budget; the result is the text of the error.\<close>

definition Validate :: "Budget option \<Rightarrow> int \<Rightarrow> string option" where
  "Validate budget now =
     (case budget of None \<Rightarrow> Some ''budget is nil''
      | Some b \<Rightarrow>
        if bu_Deadline b \<noteq> 0 \<and> bu_Deadline b < now then Some ''deadline is in the past''
        else if bu_MaxConcurrent b \<le> 0 then Some ''MaxConcurrent must be positive''
        else if bu_MaxConcurrent b > MaxPermittedMaxConcurrent then Some ''MaxConcurrent exceeds hard maximum''
        else if bu_MaxStarts b = 0 then Some ''MaxStarts must be positive''
        else if bu_MaxStarts b > MaxPermittedMaxStarts then Some ''MaxStarts exceeds hard maximum''
        else if bu_MaxTaskDepth b = 0 then Some ''MaxTaskDepth must be positive''
        else if bu_MaxTaskDepth b > MaxPermittedMaxTaskDepth then Some ''MaxTaskDepth exceeds hard maximum''
        else if bu_MaxOutputBytes b \<le> 0 then Some ''MaxOutputBytes must be positive''
        else if bu_MaxOutputBytes b > MaxPermittedMaxOutputBytes then Some ''MaxOutputBytes exceeds hard maximum''
        else if bu_TerminationGrace b \<le> 0 then Some ''TerminationGrace must be positive''
        else if bu_TerminationGrace b > MaxPermittedTerminationGrace then Some ''TerminationGrace exceeds hard maximum''
        else if bu_PostKillWait b \<le> 0 then Some ''PostKillWait must be positive''
        else if bu_PostKillWait b > MaxPermittedPostKillWait then Some ''PostKillWait exceeds hard maximum''
        else None)"

definition WithDeadline :: "Budget \<Rightarrow> int \<Rightarrow> Budget" where
  "WithDeadline b d = b\<lparr>bu_Deadline := d\<rparr>"

definition WithTimeout :: "int \<Rightarrow> Budget \<Rightarrow> int \<Rightarrow> Budget" where
  "WithTimeout now b d = b\<lparr>bu_Deadline := now + d\<rparr>"

definition WithMaxConcurrent :: "Budget \<Rightarrow> int \<Rightarrow> Budget" where
  "WithMaxConcurrent b n = b\<lparr>bu_MaxConcurrent := n\<rparr>"

definition WithMaxStarts :: "Budget \<Rightarrow> 64 word \<Rightarrow> Budget" where
  "WithMaxStarts b n = b\<lparr>bu_MaxStarts := n\<rparr>"

definition WithMaxTaskDepth :: "Budget \<Rightarrow> 16 word \<Rightarrow> Budget" where
  "WithMaxTaskDepth b d = b\<lparr>bu_MaxTaskDepth := d\<rparr>"

definition WithMaxOutputBytes :: "Budget \<Rightarrow> int \<Rightarrow> Budget" where
  "WithMaxOutputBytes b n = b\<lparr>bu_MaxOutputBytes := n\<rparr>"

definition WithTerminationGrace :: "Budget \<Rightarrow> int \<Rightarrow> Budget" where
  "WithTerminationGrace b d = b\<lparr>bu_TerminationGrace := d\<rparr>"

section \<open>Bounds\<close>

text \<open>What a validated budget promises to the executor.\<close>

definition validBudget :: "Budget \<Rightarrow> bool" where
  "validBudget b \<longleftrightarrow> 0 < bu_MaxConcurrent b \<and> bu_MaxConcurrent b \<le> 16 \<and> 0 < bu_MaxStarts b \<and> bu_MaxStarts b \<le> 1024 \<and>
     0 < bu_MaxTaskDepth b \<and> bu_MaxTaskDepth b \<le> 32 \<and> 0 < bu_MaxOutputBytes b \<and> bu_MaxOutputBytes b \<le> 67108864 \<and>
     0 < bu_TerminationGrace b \<and> bu_TerminationGrace b \<le> 10 * nsSecond \<and> 0 < bu_PostKillWait b \<and> bu_PostKillWait b \<le> 5 * nsSecond"

lemma Validate_iff:
  "Validate (Some b) now = None \<longleftrightarrow> validBudget b \<and> (bu_Deadline b = 0 \<or> now \<le> bu_Deadline b)"
  by (auto simp: Validate_def validBudget_def MaxPermittedMaxConcurrent_def MaxPermittedMaxStarts_def
      MaxPermittedMaxTaskDepth_def MaxPermittedMaxOutputBytes_def MaxPermittedTerminationGrace_def
      MaxPermittedPostKillWait_def not_le not_less word_gt_0 split: if_splits)

lemma DefaultBudget_valid: "0 < now \<Longrightarrow> Validate (Some (DefaultBudget now)) now = None"
  by (simp add: Validate_iff validBudget_def DefaultBudget_def DefaultTimeout_def nsSecond_def word_less_nat_alt word_le_nat_alt)

lemma join_merge: "join sep ((x @ sep @ y) # zs) = x @ sep @ join sep (y # zs)"
  by (cases zs) simp_all

lemma foldl_join: "foldl (\<lambda>result arg. result @ '' '' @ arg) a as = join '' '' (a # as)"
proof (induction as arbitrary: a)
  case (Cons b as)
  show ?case
    unfolding foldl_Cons Cons by (simp only: join_merge) simp
qed simp

lemma CommandLine_join: "CommandLine r = join '' '' (rq_Args r)"
  by (cases "rq_Args r") (simp_all only: CommandLine_def list.case foldl_join join.simps(1))

lemma Success_not_Failed: "Result_Success r \<longleftrightarrow> \<not> Result_Failed r"
  by (simp add: Result_Success_def Result_Failed_def)

end
