(* ===== verification/Exec_Buffer.thy ===== *)
theory Exec_Buffer
  imports Exec_Base
begin

text \<open>
  Bounded capture of process output: the buffer that standard output and standard error share
  (\<open>output_buffer.go\<close>) and the per-stream writer of the git runner (\<open>git.go\<close>) with
  the classification of its outcome.

  The mutex makes every \<open>Write\<close> atomic, so a run is a sequence of writes.  Bytes are
  characters.  A panic (closing a closed channel, slicing out of range) is a value.  The abstract
  specification is the log of all bytes in the order in which they arrived, each tagged with its
  stream; the refinement says that the buffer keeps exactly its first \<open>cap\<close> entries.
\<close>

section \<open>The shared buffer\<close>

datatype goPanic = CloseOfClosedChannel | SliceBounds | NegativeCapacity

record sharedOutputBuffer =
  ob_stdoutBuf :: string
  ob_stderrBuf :: string
  ob_cap :: int
  ob_totalUsed :: int
  ob_written :: int
  ob_truncated :: bool
  ob_overflowed :: bool
  ob_overflowCh :: bool

text \<open>\<open>ob_overflowCh\<close> says whether the channel is closed.\<close>

definition newSharedOutputBuffer :: "int \<Rightarrow> goPanic + sharedOutputBuffer" where
  "newSharedOutputBuffer cap =
     (if cap < 0 then Inl NegativeCapacity
      else Inr \<lparr>ob_stdoutBuf = '''', ob_stderrBuf = '''', ob_cap = cap, ob_totalUsed = 0, ob_written = 0,
        ob_truncated = False, ob_overflowed = False, ob_overflowCh = False\<rparr>)"

definition closeOverflowCh :: "sharedOutputBuffer \<Rightarrow> goPanic + sharedOutputBuffer" where
  "closeOverflowCh b = (if ob_overflowCh b then Inl CloseOfClosedChannel else Inr (b\<lparr>ob_overflowCh := True\<rparr>))"

definition signalOverflow :: "sharedOutputBuffer \<Rightarrow> goPanic + sharedOutputBuffer" where
  "signalOverflow b = (if \<not> ob_overflowed b then closeOverflowCh (b\<lparr>ob_overflowed := True\<rparr>) else Inr b)"

definition sliceTo :: "string \<Rightarrow> int \<Rightarrow> goPanic + string" where
  "sliceTo p n = (if n < 0 \<or> n > int (length p) then Inl SliceBounds else Inr (take (nat n) p))"

text \<open>The two writers return the number of bytes; neither returns an error.\<close>

definition stdoutWriter_Write :: "string \<Rightarrow> sharedOutputBuffer \<Rightarrow> goPanic + (sharedOutputBuffer \<times> int)" where
  "stdoutWriter_Write p b0 =
     (let b = b0\<lparr>ob_written := ob_written b0 + int (length p)\<rparr>
      in if ob_totalUsed b + int (length p) > ob_cap b then
           let remaining = ob_cap b - ob_totalUsed b
           in bindE (if remaining > 0 then
                  bindE (sliceTo p remaining) (\<lambda>q. Inr (b\<lparr>ob_stdoutBuf := ob_stdoutBuf b @ q, ob_totalUsed := ob_cap b\<rparr>))
                else Inr b) (\<lambda>b.
              let b = b\<lparr>ob_truncated := True\<rparr>
              in bindE (if \<not> ob_overflowed b then closeOverflowCh (b\<lparr>ob_overflowed := True\<rparr>) else Inr b) (\<lambda>b.
                 Inr (b, int (length p))))
         else Inr (b\<lparr>ob_stdoutBuf := ob_stdoutBuf b @ p, ob_totalUsed := ob_totalUsed b + int (length p)\<rparr>, int (length p)))"

definition stderrWriter_Write :: "string \<Rightarrow> sharedOutputBuffer \<Rightarrow> goPanic + (sharedOutputBuffer \<times> int)" where
  "stderrWriter_Write p b0 =
     (let b = b0\<lparr>ob_written := ob_written b0 + int (length p)\<rparr>
      in if ob_totalUsed b + int (length p) > ob_cap b then
           let remaining = ob_cap b - ob_totalUsed b
           in bindE (if remaining > 0 then
                  bindE (sliceTo p remaining) (\<lambda>q. Inr (b\<lparr>ob_stderrBuf := ob_stderrBuf b @ q, ob_totalUsed := ob_cap b\<rparr>))
                else Inr b) (\<lambda>b.
              let b = b\<lparr>ob_truncated := True\<rparr>
              in bindE (if \<not> ob_overflowed b then closeOverflowCh (b\<lparr>ob_overflowed := True\<rparr>) else Inr b) (\<lambda>b.
                 Inr (b, int (length p))))
         else Inr (b\<lparr>ob_stderrBuf := ob_stderrBuf b @ p, ob_totalUsed := ob_totalUsed b + int (length p)\<rparr>, int (length p)))"

definition Stdout :: "sharedOutputBuffer \<Rightarrow> string" where
  "Stdout b = ob_stdoutBuf b"

definition Stderr :: "sharedOutputBuffer \<Rightarrow> string" where
  "Stderr b = ob_stderrBuf b"

definition Truncated :: "sharedOutputBuffer \<Rightarrow> bool" where
  "Truncated b = ob_truncated b"

definition BytesObserved :: "sharedOutputBuffer \<Rightarrow> int" where
  "BytesObserved b = ob_written b"

definition BytesRetained :: "sharedOutputBuffer \<Rightarrow> int" where
  "BytesRetained b = int (length (ob_stdoutBuf b)) + int (length (ob_stderrBuf b))"

section \<open>Runs of the shared buffer\<close>

datatype stream = OnStdout | OnStderr

fun writeChunk :: "stream \<times> string \<Rightarrow> sharedOutputBuffer \<Rightarrow> goPanic + sharedOutputBuffer" where
  "writeChunk (OnStdout, p) b = bindE (stdoutWriter_Write p b) (\<lambda>(b, n). Inr b)"
| "writeChunk (OnStderr, p) b = bindE (stderrWriter_Write p b) (\<lambda>(b, n). Inr b)"

text \<open>Any interleaving of writes to the two streams, on a fresh buffer.\<close>

definition captureRun :: "int \<Rightarrow> (stream \<times> string) list \<Rightarrow> goPanic + sharedOutputBuffer" where
  "captureRun cap writes = bindE (newSharedOutputBuffer cap) (foldE writeChunk writes)"

text \<open>The specification: the log of tagged bytes, cut at \<open>cap\<close>.\<close>

definition outputLog :: "(stream \<times> string) list \<Rightarrow> (stream \<times> char) list" where
  "outputLog writes = concat (map (\<lambda>(s, p). map (\<lambda>c. (s, c)) p) writes)"

definition onStream :: "stream \<Rightarrow> (stream \<times> char) list \<Rightarrow> string" where
  "onStream s xs = map snd (filter (\<lambda>(t, c). t = s) xs)"

definition specBuffer :: "int \<Rightarrow> (stream \<times> char) list \<Rightarrow> sharedOutputBuffer" where
  "specBuffer cap l =
     \<lparr>ob_stdoutBuf = onStream OnStdout (take (nat cap) l), ob_stderrBuf = onStream OnStderr (take (nat cap) l),
      ob_cap = cap, ob_totalUsed = min (int (length l)) cap, ob_written = int (length l),
      ob_truncated = (int (length l) > cap), ob_overflowed = (int (length l) > cap), ob_overflowCh = (int (length l) > cap)\<rparr>"

lemma onStream_append [simp]: "onStream s (xs @ ys) = onStream s xs @ onStream s ys"
  by (simp add: onStream_def)

lemma onStream_same [simp]: "onStream s (map (\<lambda>c. (s, c)) p) = p"
  by (induction p) (simp_all add: onStream_def)

lemma onStream_other [simp]: "t \<noteq> s \<Longrightarrow> onStream s (map (\<lambda>c. (t, c)) p) = ''''"
  by (induction p) (simp_all add: onStream_def)

lemma take_tagged [simp]: "take n (map (\<lambda>c. (s, c)) p) = map (\<lambda>c. (s, c)) (take n p)"
  by (rule take_map)

lemmas write_simps = stdoutWriter_Write_def stderrWriter_Write_def specBuffer_def Let_def sliceTo_def closeOverflowCh_def

lemma stdoutWriter_spec:
  assumes "0 \<le> cap"
  shows "stdoutWriter_Write p (specBuffer cap l) = Inr (specBuffer cap (l @ map (\<lambda>c. (OnStdout, c)) p), int (length p))"
proof (cases "int (length l) + int (length p) \<le> cap")
  case True
  then show ?thesis by (simp add: write_simps)
next
  case False
  then show ?thesis
    using assms by (cases "int (length l) < cap") (auto simp: write_simps nat_diff_distrib min_def)
qed

lemma stderrWriter_spec:
  assumes "0 \<le> cap"
  shows "stderrWriter_Write p (specBuffer cap l) = Inr (specBuffer cap (l @ map (\<lambda>c. (OnStderr, c)) p), int (length p))"
proof (cases "int (length l) + int (length p) \<le> cap")
  case True
  then show ?thesis by (simp add: write_simps)
next
  case False
  then show ?thesis
    using assms by (cases "int (length l) < cap") (auto simp: write_simps nat_diff_distrib min_def)
qed

lemma writeChunk_spec:
  "0 \<le> cap \<Longrightarrow> writeChunk (s, p) (specBuffer cap l) = Inr (specBuffer cap (l @ map (\<lambda>c. (s, c)) p))"
  by (cases s) (simp_all add: stdoutWriter_spec stderrWriter_spec)

lemma foldE_writeChunk:
  "0 \<le> cap \<Longrightarrow> foldE writeChunk ws (specBuffer cap l) = Inr (specBuffer cap (l @ outputLog ws))"
proof (induction ws arbitrary: l)
  case (Cons w ws)
  obtain s p where "w = (s, p)" by (cases w)
  with Cons show ?case
    by (simp only: foldE.simps writeChunk_spec bindE_simps) (simp add: outputLog_def)
qed (simp add: outputLog_def)

lemma captureRun_spec:
  assumes "0 \<le> cap"
  shows "captureRun cap ws = Inr (specBuffer cap (outputLog ws))"
proof -
  have "newSharedOutputBuffer cap = Inr (specBuffer cap [])"
    using assms by (simp add: newSharedOutputBuffer_def specBuffer_def onStream_def)
  then show ?thesis
    using foldE_writeChunk [OF assms, of ws "[]"] by (simp add: captureRun_def)
qed

lemma length_onStream_sum: "length (onStream OnStdout xs) + length (onStream OnStderr xs) = length xs"
proof (induction xs)
  case (Cons x xs)
  then show ?case by (cases x; cases "fst x") (simp_all add: onStream_def)
qed (simp add: onStream_def)

text \<open>
  C26. Any sequence of writes to the two streams runs without a panic, so the overflow channel is closed
  at most once, and the buffer then holds exactly the first \<open>cap\<close> bytes that arrived, split by
  stream.  It reports every byte as observed, and it is truncated, with the overflow channel
  closed, exactly when more than \<open>cap\<close> bytes arrived.
\<close>

theorem output_capture_exact:
  assumes "0 \<le> cap"
  shows "\<exists>b. captureRun cap ws = Inr b
    \<and> Stdout b = onStream OnStdout (take (nat cap) (outputLog ws))
    \<and> Stderr b = onStream OnStderr (take (nat cap) (outputLog ws))
    \<and> BytesObserved b = int (length (outputLog ws))
    \<and> BytesRetained b = min (int (length (outputLog ws))) cap
    \<and> (Truncated b \<longleftrightarrow> int (length (outputLog ws)) > cap) \<and> (ob_overflowCh b \<longleftrightarrow> Truncated b)"
proof -
  have "int (length (onStream OnStdout (take (nat cap) (outputLog ws)))) +
      int (length (onStream OnStderr (take (nat cap) (outputLog ws)))) = min (int (length (outputLog ws))) cap"
    using assms length_onStream_sum [of "take (nat cap) (outputLog ws)"] by simp
  then show ?thesis
    by (simp add: captureRun_spec [OF assms] specBuffer_def Stdout_def Stderr_def BytesObserved_def BytesRetained_def Truncated_def)
qed

theorem output_capture_exact_witness:
  "\<exists>b. captureRun 3 [(OnStdout, ''ab''), (OnStderr, ''xy''), (OnStdout, ''c'')] = Inr b \<and>
     Stdout b = ''ab'' \<and> Stderr b = ''x'' \<and> BytesObserved b = 5 \<and> Truncated b"
  using output_capture_exact [of 3 "[(OnStdout, ''ab''), (OnStderr, ''xy''), (OnStdout, ''c'')]"]
  by (auto simp: outputLog_def onStream_def eval_nat_numeral)

section \<open>The git runner\<close>

text \<open>
  \<open>boundedWriter\<close> over a \<open>bytes.Buffer\<close>, whose \<open>Write\<close> takes everything.
  \<open>bw_onOverflow\<close> counts the calls of the overflow handler.
\<close>

record boundedWriter =
  bw_w :: string
  bw_rem :: int
  bw_overflow :: bool
  bw_onOverflow :: nat

datatype writeError = ErrOutputLimit

definition boundedWriter_Write :: "string \<Rightarrow> boundedWriter \<Rightarrow> boundedWriter \<times> int \<times> writeError option" where
  "boundedWriter_Write p bw =
     (if p = '''' then (bw, 0, None)
      else if bw_overflow bw then (bw, 0, Some ErrOutputLimit)
      else if bw_rem bw = 0 then (bw\<lparr>bw_overflow := True, bw_onOverflow := bw_onOverflow bw + 1\<rparr>, 0, Some ErrOutputLimit)
      else if int (length p) > bw_rem bw then
        let n = bw_rem bw
        in (bw\<lparr>bw_w := bw_w bw @ take (nat n) p, bw_rem := bw_rem bw - n, bw_overflow := True,
              bw_onOverflow := bw_onOverflow bw + 1\<rparr>, n, Some ErrOutputLimit)
      else (bw\<lparr>bw_w := bw_w bw @ p, bw_rem := bw_rem bw - int (length p)\<rparr>, int (length p), None))"

definition newBoundedWriter :: "int \<Rightarrow> boundedWriter" where
  "newBoundedWriter limit = \<lparr>bw_w = '''', bw_rem = limit, bw_overflow = False, bw_onOverflow = 0\<rparr>"

definition drain :: "int \<Rightarrow> string list \<Rightarrow> boundedWriter" where
  "drain limit chunks = fold (\<lambda>p bw. fst (boundedWriter_Write p bw)) chunks (newBoundedWriter limit)"

definition specWriter :: "int \<Rightarrow> string \<Rightarrow> boundedWriter" where
  "specWriter limit l =
     \<lparr>bw_w = take (nat limit) l, bw_rem = limit - min (int (length l)) limit, bw_overflow = (int (length l) > limit),
      bw_onOverflow = (if int (length l) > limit then 1 else 0)\<rparr>"

lemma boundedWriter_spec:
  assumes "0 \<le> limit"
  shows "fst (boundedWriter_Write p (specWriter limit l)) = specWriter limit (l @ p)"
proof (cases "int (length l) + int (length p) \<le> limit")
  case True
  then show ?thesis by (auto simp: boundedWriter_Write_def specWriter_def Let_def)
next
  case False
  then show ?thesis
    using assms by (cases "int (length l) < limit"; cases "p = ''''")
      (auto simp: boundedWriter_Write_def specWriter_def Let_def nat_diff_distrib min_def)
qed

lemma drain_spec:
  assumes "0 \<le> limit"
  shows "drain limit chunks = specWriter limit (concat chunks)"
proof -
  have "fold (\<lambda>p bw. fst (boundedWriter_Write p bw)) chunks (specWriter limit l) = specWriter limit (l @ concat chunks)" for l
    by (induction chunks arbitrary: l) (simp_all add: boundedWriter_spec [OF assms])
  from this [of "''''"] show ?thesis
    using assms by (simp add: drain_def newBoundedWriter_def specWriter_def)
qed

text \<open>What the operating system and the context answer during a run.\<close>

datatype ctxState = CtxLive | CtxDeadlineExceeded | CtxCanceled

datatype waitResult = WaitOk | WaitDelayExpired | WaitExit int | WaitExitNoStatus | WaitOther string

record commandRun =
  cr_startErr :: "string option"
  cr_stdout :: "string list"
  cr_stderr :: "string list"
  cr_wait :: waitResult
  cr_ctx :: ctxState

record GitResult =
  gr_Stdout :: string
  gr_Stderr :: string
  gr_ExitCode :: int

datatype gitError =
    ErrNilContext
  | StartFailed string
  | CleanupTimeout
  | OutputLimit
  | DeadlineExceeded
  | Canceled
  | WaitFailed waitResult

text \<open>
  \<open>runCommandWithLimits\<close>.  \<open>cr_ctx\<close> is \<open>runCtx.Err()\<close> after the wait; the
  overflow handler cancels that context.
\<close>

definition runCommandWithLimits :: "bool \<Rightarrow> int \<Rightarrow> commandRun \<Rightarrow> GitResult \<times> gitError option" where
  "runCommandWithLimits ctxNil outputLimit run =
     (let empty = \<lparr>gr_Stdout = '''', gr_Stderr = '''', gr_ExitCode = 0\<rparr>
      in if ctxNil then (empty, Some ErrNilContext)
      else case cr_startErr run of Some e \<Rightarrow> (empty, Some (StartFailed e))
      | None \<Rightarrow>
        let stdoutBW = drain outputLimit (cr_stdout run);
            stderrBW = drain outputLimit (cr_stderr run);
            overflowOccurred = (bw_onOverflow stdoutBW > 0 \<or> bw_onOverflow stderrBW > 0);
            result = (\<lambda>code. \<lparr>gr_Stdout = bw_w stdoutBW, gr_Stderr = bw_w stderrBW, gr_ExitCode = code\<rparr>);
            exitCode = (case cr_wait run of WaitOk \<Rightarrow> 0 | WaitExit n \<Rightarrow> n | _ \<Rightarrow> -1)
        in if cr_wait run = WaitDelayExpired then (result (-1), Some CleanupTimeout)
           else if overflowOccurred then
             (\<lparr>gr_Stdout = take (nat (min (int (length (bw_w stdoutBW))) outputLimit)) (bw_w stdoutBW),
               gr_Stderr = take (nat (min (int (length (bw_w stderrBW))) outputLimit)) (bw_w stderrBW),
               gr_ExitCode = -1\<rparr>, Some OutputLimit)
           else if cr_wait run = WaitOk then (result 0, None)
           else if cr_ctx run = CtxDeadlineExceeded then (result exitCode, Some DeadlineExceeded)
           else if cr_ctx run = CtxCanceled then (result exitCode, Some Canceled)
           else (result exitCode, Some (WaitFailed (cr_wait run))))"

definition DefaultOutputLimit :: int where
  "DefaultOutputLimit = 8 * 1024 * 1024"

definition RunGit :: "bool \<Rightarrow> commandRun \<Rightarrow> GitResult \<times> gitError option" where
  "RunGit ctxNil run = runCommandWithLimits ctxNil DefaultOutputLimit run"

text \<open>
  C34. The git runner is fail-closed: it returns no error exactly when the context was given, the
  command started and the wait succeeded, and neither stream exceeded the limit.  Then the result
  has exit code 0 and the complete output.  In every case each captured stream is a prefix of what
  the process wrote, no longer than the limit.
\<close>

theorem git_runner_fail_closed:
  assumes "0 \<le> limit"
  shows "(snd (runCommandWithLimits ctxNil limit run) = None \<longleftrightarrow>
       \<not> ctxNil \<and> cr_startErr run = None \<and> cr_wait run = WaitOk \<and>
       int (length (concat (cr_stdout run))) \<le> limit \<and> int (length (concat (cr_stderr run))) \<le> limit)
    \<and> (snd (runCommandWithLimits ctxNil limit run) = None \<longrightarrow>
       fst (runCommandWithLimits ctxNil limit run) =
         \<lparr>gr_Stdout = concat (cr_stdout run), gr_Stderr = concat (cr_stderr run), gr_ExitCode = 0\<rparr>)
    \<and> (\<exists>n m. n \<le> nat limit \<and> m \<le> nat limit \<and>
       gr_Stdout (fst (runCommandWithLimits ctxNil limit run)) = take n (concat (cr_stdout run)) \<and>
       gr_Stderr (fst (runCommandWithLimits ctxNil limit run)) = take m (concat (cr_stderr run)))"
    (is "?iff \<and> ?complete \<and> ?prefix")
proof (intro conjI)
  note spec = runCommandWithLimits_def drain_spec [OF assms] specWriter_def Let_def
  show ?iff ?complete
    using assms by (auto simp: spec split: option.splits)
  show ?prefix
  proof (cases "ctxNil \<or> cr_startErr run \<noteq> None")
    case True
    then show ?thesis
      by (intro exI [of _ 0]) (auto simp: spec)
  next
    case False
    then show ?thesis
      using assms by (intro exI [of _ "nat limit"]) (auto simp: spec min_def)
  qed
qed

theorem git_runner_fail_closed_witness:
  "snd (runCommandWithLimits False 2 \<lparr>cr_startErr = None, cr_stdout = [''a'', ''bc''], cr_stderr = [], cr_wait = WaitOk, cr_ctx = CtxLive\<rparr>)
     \<noteq> None"
  using git_runner_fail_closed [of 2 False
      "\<lparr>cr_startErr = None, cr_stdout = [''a'', ''bc''], cr_stderr = [], cr_wait = WaitOk, cr_ctx = CtxLive\<rparr>"]
  by simp

end
