(* ===== verification/Exec_Guard.thy ===== *)
theory Exec_Guard
  imports Exec_Buffer Sha256 Go_Path "HOL-Library.AList"
begin

text \<open>
  The guards of the execution gateway: the cycle detector (\<open>cycle.go\<close>), the semaphore
  (\<open>semaphore.go\<close>), re-entry protection (\<open>reentry.go\<close>) and the environment a child
  process receives (\<open>executor_helpers.go\<close>, \<open>executor_utils.go\<close>).

  The process environment, the symlink resolution and the random identifier of a root execution
  are arguments.  Go iterates the map of \<open>mergeEnvironment\<close> in no fixed order; the model
  keeps the order of first insertion, and the theorems only speak of the value of each key.
\<close>

section \<open>Cycle detection\<close>

record CycleDetector =
  cd_active :: "string \<rightharpoonup> unit"
  cd_fingerprints :: "string \<rightharpoonup> string"

definition NewCycleDetector :: CycleDetector where
  "NewCycleDetector = \<lparr>cd_active = Map.empty, cd_fingerprints = Map.empty\<rparr>"

definition fingerprintInput :: "string \<Rightarrow> string list \<Rightarrow> string \<Rightarrow> string \<Rightarrow> string" where
  "fingerprintInput exec args dir action =
     ''exec:'' @ exec @ [CHR 0x0A] @
     ''args:'' @ concat (map (\<lambda>arg. arg @ [CHR 0x00]) args) @ [CHR 0x0A] @
     ''dir:'' @ dir @ [CHR 0x0A] @
     ''action:'' @ action @ [CHR 0x0A]"

definition ComputeFingerprint :: "string \<Rightarrow> string list \<Rightarrow> string \<Rightarrow> string \<Rightarrow> string" where
  "ComputeFingerprint exec args dir action = take 16 (sha256_hex (fingerprintInput exec args dir action))"

definition CheckAndTrack :: "string \<Rightarrow> string \<Rightarrow> CycleDetector \<Rightarrow> ExecutionError + CycleDetector" where
  "CheckAndTrack fingerprint name d =
     (case cd_active d fingerprint of
        Some _ \<Rightarrow> Inl (WithDimension ErrExecutionCycleDetected ''fingerprint'' (StringValue fingerprint) (StringValue name))
      | None \<Rightarrow> Inr \<lparr>cd_active = (cd_active d)(fingerprint \<mapsto> ()), cd_fingerprints = (cd_fingerprints d)(fingerprint \<mapsto> name)\<rparr>)"

definition Untrack :: "string \<Rightarrow> CycleDetector \<Rightarrow> CycleDetector" where
  "Untrack fingerprint d =
     \<lparr>cd_active = (cd_active d)(fingerprint := None), cd_fingerprints = (cd_fingerprints d)(fingerprint := None)\<rparr>"

definition ActiveCount :: "CycleDetector \<Rightarrow> nat" where
  "ActiveCount d = card (dom (cd_active d))"

definition IsActive :: "CycleDetector \<Rightarrow> string \<Rightarrow> bool" where
  "IsActive d fingerprint \<longleftrightarrow> cd_active d fingerprint \<noteq> None"

lemma CheckAndTrack_Inr_iff:
  "(\<exists>d'. CheckAndTrack fp name d = Inr d') \<longleftrightarrow> \<not> IsActive d fp"
  by (auto simp: CheckAndTrack_def IsActive_def split: option.splits)

lemma dom_CheckAndTrack: "CheckAndTrack fp name d = Inr d' \<Longrightarrow> dom (cd_active d') = insert fp (dom (cd_active d)) \<and> fp \<notin> dom (cd_active d)"
  by (auto simp: CheckAndTrack_def split: option.splits if_splits)

lemma dom_Untrack: "dom (cd_active (Untrack fp d)) = dom (cd_active d) - {fp}"
  by (auto simp: Untrack_def)

lemma track_untrack:
  assumes "CheckAndTrack fp name d = Inr d'" and "dom (cd_fingerprints d) \<subseteq> dom (cd_active d)"
  shows "Untrack fp d' = d"
proof -
  have act: "cd_active d fp = None"
    using dom_CheckAndTrack [OF assms(1)] by blast
  then have "cd_fingerprints d fp = None"
    using assms(2) by blast
  with act assms(1) show ?thesis
    by (cases d) (auto simp: CheckAndTrack_def Untrack_def fun_eq_iff)
qed

text \<open>The input of the hash determines the request, as long as no part holds a separator.\<close>

lemma args_inject:
  assumes "\<forall>a \<in> set as. CHR 0x00 \<notin> set a" and "\<forall>b \<in> set bs. CHR 0x00 \<notin> set b"
    and "\<forall>a \<in> set as. CHR 0x0A \<notin> set a" and "\<forall>b \<in> set bs. CHR 0x0A \<notin> set b"
    and "concat (map (\<lambda>arg. arg @ [CHR 0x00]) as) @ CHR 0x0A # xs = concat (map (\<lambda>arg. arg @ [CHR 0x00]) bs) @ CHR 0x0A # ys"
  shows "as = bs \<and> xs = ys"
  using assms
proof (induction as arbitrary: bs)
  case Nil
  then show ?case
    by (cases bs) (auto simp: append_eq_Cons_conv Cons_eq_append_conv)
next
  case (Cons a as)
  show ?case
  proof (cases bs)
    case Nil
    with Cons.prems show ?thesis
      by (auto simp: append_eq_Cons_conv)
  next
    case (Cons b bs')
    with Cons.prems have "a @ CHR 0x00 # (concat (map (\<lambda>arg. arg @ [CHR 0x00]) as) @ CHR 0x0A # xs) =
        b @ CHR 0x00 # (concat (map (\<lambda>arg. arg @ [CHR 0x00]) bs') @ CHR 0x0A # ys)"
      by simp
    from append_sep_inject [OF _ _ this] Cons Cons.prems
    have "a = b" "concat (map (\<lambda>arg. arg @ [CHR 0x00]) as) @ CHR 0x0A # xs =
        concat (map (\<lambda>arg. arg @ [CHR 0x00]) bs') @ CHR 0x0A # ys"
      by auto
    with Cons Cons.IH [of bs'] Cons.prems show ?thesis by auto
  qed
qed

definition plainText :: "string \<Rightarrow> bool" where
  "plainText s \<longleftrightarrow> CHR 0x00 \<notin> set s \<and> CHR 0x0A \<notin> set s"

lemma fingerprintInput_inject:
  assumes "plainText e" "plainText e'" "\<forall>a \<in> set as. plainText a" "\<forall>a \<in> set as'. plainText a" "plainText d" "plainText d'"
    and eq: "fingerprintInput e as d n = fingerprintInput e' as' d' n'"
  shows "e = e' \<and> as = as' \<and> d = d' \<and> n = n'"
proof -
  have "e @ CHR 0x0A # (''args:'' @ concat (map (\<lambda>arg. arg @ [CHR 0x00]) as) @ CHR 0x0A # (''dir:'' @ d @ CHR 0x0A # (''action:'' @ n))) =
    e' @ CHR 0x0A # (''args:'' @ concat (map (\<lambda>arg. arg @ [CHR 0x00]) as') @ CHR 0x0A # (''dir:'' @ d' @ CHR 0x0A # (''action:'' @ n')))"
    using eq by (simp add: fingerprintInput_def)
  from append_sep_inject [OF _ _ this] assms(1,2) have e: "e = e'"
    and "concat (map (\<lambda>arg. arg @ [CHR 0x00]) as) @ CHR 0x0A # (''dir:'' @ d @ CHR 0x0A # (''action:'' @ n)) =
      concat (map (\<lambda>arg. arg @ [CHR 0x00]) as') @ CHR 0x0A # (''dir:'' @ d' @ CHR 0x0A # (''action:'' @ n'))"
    by (auto simp: plainText_def)
  from args_inject [OF _ _ _ _ this(2)] assms(3,4) have as: "as = as'"
    and rest: "''dir:'' @ d @ CHR 0x0A # (''action:'' @ n) = ''dir:'' @ d' @ CHR 0x0A # (''action:'' @ n')"
    by (auto simp: plainText_def)
  from rest have "d @ CHR 0x0A # (''action:'' @ n) = d' @ CHR 0x0A # (''action:'' @ n')"
    by simp
  from append_sep_inject [OF _ _ this] assms(5,6) e as show ?thesis
    by (auto simp: plainText_def)
qed

section \<open>Semaphore\<close>

record contextSemaphore =
  sm_count :: int
  sm_limit :: int

definition newContextSemaphore :: "int \<Rightarrow> contextSemaphore" where
  "newContextSemaphore limit = \<lparr>sm_count = 0, sm_limit = limit\<rparr>"

text \<open>
  The choices of the \<open>select\<close> statements of one call, in order.  A send is possible while the
  channel has room; \<open>None\<close> is a call that is still blocked after the given choices.
\<close>

datatype selectChoice = CtxDone string | Sent

fun acquireLoop :: "selectChoice list \<Rightarrow> int \<Rightarrow> int \<Rightarrow> contextSemaphore \<Rightarrow> (contextSemaphore \<times> bool \<times> string option) option" where
  "acquireLoop cs i n s =
     (if i < n then
        (case cs of [] \<Rightarrow> None
         | CtxDone err # _ \<Rightarrow> Some (s\<lparr>sm_count := sm_count s - i\<rparr>, False, Some err)
         | Sent # cs \<Rightarrow> if sm_count s < sm_limit s then acquireLoop cs (i + 1) n (s\<lparr>sm_count := sm_count s + 1\<rparr>) else None)
      else Some (s, True, None))"

declare acquireLoop.simps [simp del]

definition Acquire :: "selectChoice list \<Rightarrow> int \<Rightarrow> contextSemaphore \<Rightarrow> (contextSemaphore \<times> bool \<times> string option) option" where
  "Acquire cs n s =
     (if n \<le> 0 \<or> n > sm_limit s then Some (s, False, Some (''invalid weight: '' @ itoa n)) else acquireLoop cs 0 n s)"

function releaseLoop :: "int \<Rightarrow> int \<Rightarrow> contextSemaphore \<Rightarrow> contextSemaphore" where
  "releaseLoop i n s =
     (if i < n then releaseLoop (i + 1) n (if sm_count s > 0 then s\<lparr>sm_count := sm_count s - 1\<rparr> else s) else s)"
  by pat_completeness auto
termination releaseLoop
  by (relation "measure (\<lambda>(i, n, s). nat (n - i))") auto

declare releaseLoop.simps [simp del]

definition Release :: "int \<Rightarrow> contextSemaphore \<Rightarrow> contextSemaphore" where
  "Release n s = releaseLoop 0 n s"

definition Count :: "contextSemaphore \<Rightarrow> int" where
  "Count s = sm_count s"

lemma acquireLoop_result:
  assumes "acquireLoop cs i n s = Some (s', ok, err)" and "0 \<le> i" "i \<le> n" "sm_count s \<le> sm_limit s"
  shows "sm_limit s' = sm_limit s \<and>
    (if ok then err = None \<and> sm_count s' = sm_count s + (n - i) \<and> sm_count s' \<le> sm_limit s
     else err \<noteq> None \<and> sm_count s' = sm_count s - i)"
  using assms
proof (induction cs i n s rule: acquireLoop.induct)
  case (1 cs i n s)
  show ?case
  proof (cases "i < n")
    case False
    with "1.prems" show ?thesis by (subst (asm) acquireLoop.simps) auto
  next
    case True
    with "1.prems" obtain c cs' where cs: "cs = c # cs'"
      by (subst (asm) acquireLoop.simps) (auto split: list.splits)
    show ?thesis
    proof (cases c)
      case (CtxDone e)
      with True cs "1.prems" show ?thesis
        by (subst (asm) acquireLoop.simps) auto
    next
      case Sent
      with True cs "1.prems" have room: "sm_count s < sm_limit s"
        and rec: "acquireLoop cs' (i + 1) n (s\<lparr>sm_count := sm_count s + 1\<rparr>) = Some (s', ok, err)"
        by (subst (asm) acquireLoop.simps, auto split: if_splits)+
      from "1.IH" [OF True cs Sent room rec] True "1.prems" room show ?thesis
        by (auto split: if_splits)
    qed
  qed
qed

lemma releaseLoop_count:
  assumes "0 \<le> sm_count s"
  shows "releaseLoop i n s = s\<lparr>sm_count := (if i < n then max 0 (sm_count s - (n - i)) else sm_count s)\<rparr>"
  using assms
proof (induction i n s rule: releaseLoop.induct)
  case (1 i n s)
  show ?case
  proof (cases "i < n")
    case True
    then show ?thesis
      using 1 by (subst releaseLoop.simps) (auto simp: max_def)
  qed (subst releaseLoop.simps, simp)
qed

lemma Release_count: "0 \<le> sm_count s \<Longrightarrow> 0 \<le> n \<Longrightarrow> Release n s = s\<lparr>sm_count := max 0 (sm_count s - n)\<rparr>"
  by (auto simp: Release_def releaseLoop_count)

lemma Acquire_result:
  assumes "Acquire cs n s = Some (s', ok, err)" and "0 \<le> sm_count s" "sm_count s \<le> sm_limit s"
  shows "(if ok then err = None \<and> 0 < n \<and> sm_count s' = sm_count s + n \<and> sm_count s' \<le> sm_limit s' \<and> Release n s' = s
     else err \<noteq> None \<and> s' = s)"
proof (cases "n \<le> 0 \<or> n > sm_limit s")
  case True
  with assms(1) show ?thesis by (auto simp: Acquire_def)
next
  case False
  with assms(1) have "acquireLoop cs 0 n s = Some (s', ok, err)"
    by (simp add: Acquire_def)
  from acquireLoop_result [OF this] False assms have *: "sm_limit s' = sm_limit s"
    "if ok then err = None \<and> sm_count s' = sm_count s + n \<and> sm_count s' \<le> sm_limit s else err \<noteq> None \<and> sm_count s' = sm_count s"
    by auto
  then have "\<not> ok \<Longrightarrow> s' = s"
    by (cases s; cases s') simp
  moreover have "ok \<Longrightarrow> Release n s' = s"
    using * assms False by (cases s; cases s') (simp add: Release_count)
  ultimately show ?thesis
    using * False by (auto split: if_splits)
qed

text \<open>
  Acquiring is all or nothing: a call that returns either holds all its permits, within the
  limit, or it reports an error and leaves the semaphore as it was; releasing what was acquired
  restores it.
\<close>

theorem semaphore_all_or_nothing:
  assumes "Acquire cs n s = Some (s', ok, err)" and "0 \<le> sm_count s" "sm_count s \<le> sm_limit s"
  shows "(if ok then err = None \<and> 0 < n \<and> sm_count s' = sm_count s + n \<and> sm_count s' \<le> sm_limit s' \<and> Release n s' = s
     else err \<noteq> None \<and> s' = s)"
  using assms by (rule Acquire_result)

theorem semaphore_all_or_nothing_witness:
  "Acquire [Sent, CtxDone ''canceled''] 2 (newContextSemaphore 4) = Some (newContextSemaphore 4, False, Some ''canceled'')"
proof -
  have "Acquire [Sent, CtxDone ''canceled''] 2 (newContextSemaphore 4) = Some (newContextSemaphore 4, False, Some ''canceled'')"
    by (simp add: Acquire_def newContextSemaphore_def acquireLoop.simps)
  with semaphore_all_or_nothing [OF this] show ?thesis
    by (simp add: newContextSemaphore_def)
qed

section \<open>Environments\<close>

text \<open>
  \<open>updateEnv\<close> indexes the byte after the key even when the entry ends there, which panics;
  \<open>None\<close> is that panic.
\<close>

fun updateEnv :: "string list \<Rightarrow> string \<Rightarrow> string \<Rightarrow> string list option" where
  "updateEnv [] key value = Some [key @ ''='' @ value]"
| "updateEnv (e # es) key value =
     (if length e \<ge> length key \<and> take (length key) e = key then
        if length e = length key then None
        else if e ! length key = CHR ''='' then Some ((key @ ''='' @ value) # es)
        else map_option ((#) e) (updateEnv es key value)
      else map_option ((#) e) (updateEnv es key value))"

text \<open>The key of an entry: what stands before its first \<open>=\<close>; \<open>None\<close> without one.\<close>

fun envKey :: "string \<Rightarrow> string option" where
  "envKey [] = None"
| "envKey (c # cs) = (if c = CHR ''='' then Some [] else map_option ((#) c) (envKey cs))"

definition addEntry :: "string \<Rightarrow> (string \<times> string) list \<Rightarrow> (string \<times> string) list" where
  "addEntry e m = (case envKey e of None \<Rightarrow> m | Some k \<Rightarrow> AList.update k e m)"

definition mergeEnvironment :: "string list \<Rightarrow> string list \<Rightarrow> string list" where
  "mergeEnvironment base overlay = map snd (fold addEntry overlay (fold addEntry base []))"

record ExecutionRoot =
  er_ID :: string
  er_ParentPID :: int
  er_Generation :: "32 word"
  er_SelfPath :: string

definition EnvRootID :: string where
  "EnvRootID = ''LEAMAS_EXEC_ROOT_ID''"

definition EnvParentPID :: string where
  "EnvParentPID = ''LEAMAS_EXEC_PARENT_PID''"

definition EnvGeneration :: string where
  "EnvGeneration = ''LEAMAS_EXEC_GENERATION''"

text \<open>\<open>environ\<close> and \<open>pid\<close> are what \<open>os.Environ\<close> and \<open>os.Getpid\<close> return.\<close>

definition buildEnv :: "string list \<Rightarrow> int \<Rightarrow> ExecutionRoot option \<Rightarrow> Request \<Rightarrow> string list option" where
  "buildEnv environ pid root req =
     (let env = (if length (rq_Env req) > 0 then mergeEnvironment environ (rq_Env req) else environ)
      in case root of None \<Rightarrow> Some env
         | Some r \<Rightarrow>
             Option.bind (updateEnv env EnvRootID (er_ID r)) (\<lambda>env.
             Option.bind (updateEnv env EnvParentPID (itoa pid)) (\<lambda>env.
             updateEnv env EnvGeneration (itoa (uint (er_Generation r + 1))))))"

section \<open>Re-entry\<close>

datatype ReentryPolicy = ReentryPolicyReject | ReentryPolicyAllow

text \<open>\<open>getenv\<close> returns the empty string for an unset variable, as \<open>os.Getenv\<close> does.\<close>

definition checkReentry :: "(string \<Rightarrow> string) \<Rightarrow> ReentryPolicy \<Rightarrow> string option" where
  "checkReentry getenv policy =
     (if policy = ReentryPolicyAllow then None
      else let rootID = getenv EnvRootID
      in if rootID \<noteq> '''' then
           Some (ExecutionError_Error ErrNestedLeamasExecution @ '': root_id='' @ rootID @ '', parent_pid='' @ getenv EnvParentPID @
             '', generation='' @ getenv EnvGeneration)
         else None)"

text \<open>
  \<open>abs\<close> is \<open>filepath.Abs\<close>, \<open>evalSymlinks\<close> is \<open>filepath.EvalSymlinks\<close>
  (\<open>None\<close> for their errors) and \<open>exe\<close> is \<open>os.Executable\<close>.
\<close>

definition resolveExecutable :: "(string \<Rightarrow> string option) \<Rightarrow> (string \<Rightarrow> string option) \<Rightarrow> string \<Rightarrow> string option" where
  "resolveExecutable absPath evalSymlinks path =
     (case absPath path of None \<Rightarrow> None
      | Some a \<Rightarrow> let clean = cleanPath a in Some (case evalSymlinks clean of None \<Rightarrow> clean | Some real \<Rightarrow> real))"

definition resolveSelfExecutable ::
  "(string \<Rightarrow> string option) \<Rightarrow> (string \<Rightarrow> string option) \<Rightarrow> string option \<Rightarrow> string option" where
  "resolveSelfExecutable absPath evalSymlinks exe =
     resolveExecutable absPath evalSymlinks (case exe of None \<Rightarrow> ''/proc/self/exe'' | Some p \<Rightarrow> p)"

definition IsSelfExecutable :: "(string \<Rightarrow> string option) \<Rightarrow> ExecutionRoot \<Rightarrow> string \<Rightarrow> bool" where
  "IsSelfExecutable resolve r path = (case resolve path of None \<Rightarrow> False | Some resolved \<Rightarrow> resolved = er_SelfPath r)"

text \<open>\<open>random\<close> is the hexadecimal text of the eight random bytes, \<open>None\<close> when reading them fails.\<close>

definition generateRootID :: "int \<Rightarrow> string option \<Rightarrow> string" where
  "generateRootID pid random =
     (case random of None \<Rightarrow> ''leamas-'' @ itoa pid @ ''-'' @ itoa pid | Some hex \<Rightarrow> ''leamas-'' @ itoa pid @ ''-'' @ hex)"

text \<open>The root, and the process environment after the three calls of \<open>os.Setenv\<close>.\<close>

definition NewExecutionRoot ::
  "(string \<Rightarrow> string) \<Rightarrow> string option \<Rightarrow> int \<Rightarrow> string option \<Rightarrow> string + (ExecutionRoot \<times> (string \<Rightarrow> string))" where
  "NewExecutionRoot getenv selfPath pid random =
     (case checkReentry getenv ReentryPolicyReject of Some err \<Rightarrow> Inl err
      | None \<Rightarrow>
        (case selfPath of None \<Rightarrow> Inl ''failed to resolve self executable''
         | Some p \<Rightarrow>
             let root = \<lparr>er_ID = generateRootID pid random, er_ParentPID = pid, er_Generation = 0, er_SelfPath = p\<rparr>
             in Inr (root, getenv(EnvRootID := er_ID root, EnvParentPID := itoa pid,
                  EnvGeneration := itoa (uint (er_Generation root))))))"

definition ForChild :: "ExecutionRoot \<Rightarrow> ExecutionRoot" where
  "ForChild r =
     (let gen = er_Generation r + 1;
          gen = (if gen < er_Generation r then NOT 0 else gen)
      in r\<lparr>er_Generation := gen\<rparr>)"

section \<open>What a child process sees\<close>

text \<open>The entries of a key in an environment.\<close>

definition entriesOf :: "string \<Rightarrow> string list \<Rightarrow> string list" where
  "entriesOf key env = filter (\<lambda>e. envKey e = Some key) env"

definition safeFor :: "string \<Rightarrow> string list \<Rightarrow> bool" where
  "safeFor key env \<longleftrightarrow> key \<notin> set env \<and> length (entriesOf key env) \<le> 1"

lemma envKey_iff:
  "CHR ''='' \<notin> set key \<Longrightarrow>
     envKey e = Some key \<longleftrightarrow> length key < length e \<and> take (length key) e = key \<and> e ! length key = CHR ''=''"
proof (induction key arbitrary: e)
  case Nil
  then show ?case by (cases e) auto
next
  case (Cons c key)
  then show ?case by (cases e) auto
qed

lemma envKey_own [simp]: "CHR ''='' \<notin> set key \<Longrightarrow> envKey (key @ CHR ''='' # value) = Some key"
  by (simp add: envKey_iff)

lemma envKey_plain: "CHR ''='' \<notin> set key \<Longrightarrow> envKey key = None"
  by (induction key) auto

lemma entriesOf_Nil [simp]: "entriesOf k [] = []"
  by (simp add: entriesOf_def)

lemma entriesOf_Cons: "entriesOf k (e # es) = (if envKey e = Some k then e # entriesOf k es else entriesOf k es)"
  by (simp add: entriesOf_def)

lemma updateEnv_spec:
  assumes "safeFor key env" and key: "CHR ''='' \<notin> set key"
  shows "\<exists>env'. updateEnv env key value = Some env' \<and> set env' \<subseteq> insert (key @ ''='' @ value) (set env) \<and>
    (\<forall>k. entriesOf k env' = (if k = key then [key @ ''='' @ value] else entriesOf k env))"
  using assms(1)
proof (induction env)
  case Nil
  then show ?case using key by (auto simp: entriesOf_Cons)
next
  case (Cons e es)
  show ?case
  proof (cases "envKey e = Some key")
    case True
    then have "updateEnv (e # es) key value = Some ((key @ ''='' @ value) # es)"
      using key by (simp add: envKey_iff)
    moreover have "entriesOf key es = []"
      using True Cons.prems by (simp add: safeFor_def entriesOf_Cons)
    ultimately show ?thesis
      using True key by (auto simp: entriesOf_Cons)
  next
    case False
    have "e \<noteq> key" "safeFor key es"
      using Cons.prems False by (auto simp: safeFor_def entriesOf_Cons split: if_splits)
    moreover from Cons.IH [OF this(2)] obtain env' where "updateEnv es key value = Some env'"
      "set env' \<subseteq> insert (key @ ''='' @ value) (set es)"
      "\<forall>k. entriesOf k env' = (if k = key then [key @ ''='' @ value] else entriesOf k es)"
      by blast
    moreover have "take (length key) e = key \<Longrightarrow> length e = length key \<Longrightarrow> e = key"
      by simp
    ultimately have "updateEnv (e # es) key value = Some (e # env')"
      using False key by (auto simp: envKey_iff)
    then show ?thesis
      using False \<open>set env' \<subseteq> _\<close> \<open>\<forall>k. entriesOf k env' = _ k\<close> by (auto simp: entriesOf_Cons)
  qed
qed

text \<open>A later entry of the same key replaces an earlier one.\<close>

lemma set_alist_update: "set (AList.update k v m) \<subseteq> insert (k, v) (set m)"
  by (induction m) auto

definition keyedEntries :: "(string \<times> string) list \<Rightarrow> bool" where
  "keyedEntries m \<longleftrightarrow> distinct (map fst m) \<and> (\<forall>x \<in> set m. envKey (snd x) = Some (fst x))"

lemma keyedEntries_addEntry: "keyedEntries m \<Longrightarrow> keyedEntries (addEntry e m)"
  using set_alist_update [of _ e m]
  by (force simp: keyedEntries_def addEntry_def distinct_update split: option.splits)

lemma keyedEntries_fold: "keyedEntries m \<Longrightarrow> keyedEntries (fold addEntry es m)"
  by (induction es arbitrary: m) (simp_all add: keyedEntries_addEntry)

lemma map_of_fold_addEntry:
  "map_of (fold addEntry es m) k = (case entriesOf k (rev es) of e # _ \<Rightarrow> Some e | [] \<Rightarrow> map_of m k)"
proof (induction es arbitrary: m)
  case (Cons e es)
  have "map_of (addEntry e m) k = (if envKey e = Some k then Some e else map_of m k)"
    by (auto simp: addEntry_def update_conv' split: option.splits)
  then show ?case
    by (auto simp: Cons entriesOf_def split: list.splits)
qed simp

lemma entriesOf_alist:
  assumes "keyedEntries m"
  shows "entriesOf k (map snd m) = (case map_of m k of None \<Rightarrow> [] | Some e \<Rightarrow> [e])"
  using assms
proof (induction m)
  case (Cons x m)
  obtain k' e where x: "x = (k', e)" by (cases x)
  have "k' = k \<Longrightarrow> map_of m k = None"
    using Cons.prems x by (auto simp: map_of_eq_None_iff keyedEntries_def)
  with Cons x show ?case
    by (auto simp: entriesOf_Cons keyedEntries_def split: option.splits)
qed simp

lemma entriesOf_merge:
  "entriesOf k (mergeEnvironment base overlay) = (case entriesOf k (rev (base @ overlay)) of e # _ \<Rightarrow> [e] | [] \<Rightarrow> [])"
proof -
  have "mergeEnvironment base overlay = map snd (fold addEntry (base @ overlay) [])"
    by (simp add: mergeEnvironment_def)
  then show ?thesis
    using keyedEntries_fold [of "[]" "base @ overlay"] entriesOf_alist [of "fold addEntry (base @ overlay) []" k]
      map_of_fold_addEntry [of "base @ overlay" "[]" k]
    by (auto simp: keyedEntries_def split: list.splits)
qed

lemma merge_keyed: "e \<in> set (mergeEnvironment base overlay) \<Longrightarrow> envKey e \<noteq> None"
  using keyedEntries_fold [of "[]" "base @ overlay"] by (auto simp: mergeEnvironment_def keyedEntries_def)

lemma merge_safe: "CHR ''='' \<notin> set key \<Longrightarrow> safeFor key (mergeEnvironment base overlay)"
  using merge_keyed [of key base overlay] envKey_plain [of key]
  by (auto simp: safeFor_def entriesOf_merge split: list.splits)

lemma updateEnv_keeps_safe:
  assumes "safeFor key env" "CHR ''='' \<notin> set key" "safeFor k env" "CHR ''='' \<notin> set k" "k \<noteq> key"
  shows "\<exists>env'. updateEnv env key value = Some env' \<and> safeFor k env' \<and>
    (\<forall>k. entriesOf k env' = (if k = key then [key @ ''='' @ value] else entriesOf k env))"
proof -
  obtain env' where env': "updateEnv env key value = Some env'" "set env' \<subseteq> insert (key @ ''='' @ value) (set env)"
    "\<forall>k. entriesOf k env' = (if k = key then [key @ ''='' @ value] else entriesOf k env)"
    using updateEnv_spec [OF assms(1,2)] by blast
  have "CHR ''='' \<in> set (key @ ''='' @ value)"
    by simp
  with assms(4) have "k \<noteq> key @ ''='' @ value"
    by metis
  with env' assms(3,5) have "safeFor k env'"
    by (auto simp: safeFor_def)
  with env' show ?thesis by blast
qed

definition protectedKeys :: "string list" where
  "protectedKeys = [EnvRootID, EnvParentPID, EnvGeneration]"

lemma protected_facts:
  "CHR ''='' \<notin> set EnvRootID" "CHR ''='' \<notin> set EnvParentPID" "CHR ''='' \<notin> set EnvGeneration"
  "EnvRootID \<noteq> EnvParentPID" "EnvRootID \<noteq> EnvGeneration" "EnvParentPID \<noteq> EnvGeneration"
  by (simp_all add: EnvRootID_def EnvParentPID_def EnvGeneration_def)

lemma three_updates:
  assumes "\<forall>k \<in> set protectedKeys. safeFor k env"
  shows "\<exists>env'. Option.bind (updateEnv env EnvRootID a) (\<lambda>env. Option.bind (updateEnv env EnvParentPID b) (\<lambda>env.
      updateEnv env EnvGeneration c)) = Some env' \<and>
    (\<forall>k. entriesOf k env' = (if k = EnvRootID then [EnvRootID @ ''='' @ a] else if k = EnvParentPID then [EnvParentPID @ ''='' @ b]
      else if k = EnvGeneration then [EnvGeneration @ ''='' @ c] else entriesOf k env))"
proof -
  have safe: "safeFor EnvRootID env" "safeFor EnvParentPID env" "safeFor EnvGeneration env"
    using assms by (auto simp: protectedKeys_def)
  obtain e1 where e1: "updateEnv env EnvRootID a = Some e1" "safeFor EnvParentPID e1"
    "\<forall>k. entriesOf k e1 = (if k = EnvRootID then [EnvRootID @ ''='' @ a] else entriesOf k env)"
    using updateEnv_keeps_safe [OF safe(1) protected_facts(1) safe(2) protected_facts(2)] protected_facts(4) by metis
  have "safeFor EnvGeneration e1"
    using updateEnv_keeps_safe [OF safe(1) protected_facts(1) safe(3) protected_facts(3), of a] protected_facts(5) e1(1)
    by auto
  then obtain e2 where e2: "updateEnv e1 EnvParentPID b = Some e2" "safeFor EnvGeneration e2"
    "\<forall>k. entriesOf k e2 = (if k = EnvParentPID then [EnvParentPID @ ''='' @ b] else entriesOf k e1)"
    using updateEnv_keeps_safe [OF e1(2) protected_facts(2) _ protected_facts(3)] protected_facts(6) by metis
  obtain e3 where e3: "updateEnv e2 EnvGeneration c = Some e3"
    "\<forall>k. entriesOf k e3 = (if k = EnvGeneration then [EnvGeneration @ ''='' @ c] else entriesOf k e2)"
    using updateEnv_spec [OF e2(2) protected_facts(3)] by metis
  show ?thesis
    using e1(1,3) e2(1,3) e3 protected_facts(4-6) by auto
qed

text \<open>
  A request cannot override the re-entry metadata: whatever environment it brings, the child's
  environment has exactly one entry for each of the three protected variables, with the values of
  this root execution, and every other variable has the request's last value or else the inherited one.
\<close>

theorem protected_environment:
  assumes "rq_Env req = [] \<longrightarrow> (\<forall>k \<in> set protectedKeys. safeFor k environ)"
  shows "\<exists>env. buildEnv environ pid (Some root) req = Some env
    \<and> entriesOf EnvRootID env = [EnvRootID @ ''='' @ er_ID root]
    \<and> entriesOf EnvParentPID env = [EnvParentPID @ ''='' @ itoa pid]
    \<and> entriesOf EnvGeneration env = [EnvGeneration @ ''='' @ itoa (uint (er_Generation root + 1))]
    \<and> (\<forall>k. k \<notin> set protectedKeys \<longrightarrow> entriesOf k env =
        (if rq_Env req = [] then entriesOf k environ
         else case entriesOf k (rev (environ @ rq_Env req)) of e # _ \<Rightarrow> [e] | [] \<Rightarrow> []))"
proof -
  let ?env = "if length (rq_Env req) > 0 then mergeEnvironment environ (rq_Env req) else environ"
  have "\<forall>k \<in> set protectedKeys. safeFor k ?env"
    using assms protected_facts(1-3) by (auto simp: merge_safe protectedKeys_def)
  from three_updates [OF this, of "er_ID root" "itoa pid" "itoa (uint (er_Generation root + 1))"]
  obtain env' where "buildEnv environ pid (Some root) req = Some env'"
    and "\<forall>k. entriesOf k env' = (if k = EnvRootID then [EnvRootID @ ''='' @ er_ID root]
      else if k = EnvParentPID then [EnvParentPID @ ''='' @ itoa pid]
      else if k = EnvGeneration then [EnvGeneration @ ''='' @ itoa (uint (er_Generation root + 1))] else entriesOf k ?env)"
    by (auto simp: buildEnv_def Let_def)
  then show ?thesis
    using protected_facts by (auto simp: protectedKeys_def entriesOf_merge)
qed

definition exRequest :: Request where
  "exRequest = \<lparr>rq_Name = ''build'', rq_Args = [''go'', ''build''], rq_Dir = '''', rq_Env = [''LEAMAS_EXEC_ROOT_ID='', ''A=2''],
     rq_Timeout = 0, rq_OutputCap = 0, rq_Fingerprint = '''', rq_TaskDepth = 0\<rparr>"

theorem protected_environment_witness:
  "\<exists>env. buildEnv [''A=1''] 7 (Some \<lparr>er_ID = ''leamas-7-ab'', er_ParentPID = 7, er_Generation = 0, er_SelfPath = ''/bin/leamas''\<rparr>) exRequest = Some env \<and>
     entriesOf EnvRootID env = [''LEAMAS_EXEC_ROOT_ID=leamas-7-ab''] \<and> entriesOf ''A'' env = [''A=2'']"
proof -
  have "\<forall>k \<in> set protectedKeys. k \<noteq> ''A''"
    by (simp add: protectedKeys_def EnvRootID_def EnvParentPID_def EnvGeneration_def)
  then show ?thesis
    using protected_environment [of exRequest "[''A=1'']" 7
        "\<lparr>er_ID = ''leamas-7-ab'', er_ParentPID = 7, er_Generation = 0, er_SelfPath = ''/bin/leamas''\<rparr>"]
    by (auto simp: exRequest_def EnvRootID_def entriesOf_def)
qed

text \<open>
  \<open>updateEnv\<close> reads the byte after the key without checking that there is one: it panics
  exactly when an entry equal to the bare key comes before the first entry that assigns the key.
\<close>

theorem updateEnv_panics_on_bare_key:
  assumes "CHR ''='' \<notin> set key"
  shows "updateEnv env key value = None \<longleftrightarrow> (\<exists>pre post. env = pre @ key # post \<and> entriesOf key pre = [])"
proof (induction env)
  case (Cons e es)
  have ex: "(\<exists>pre post. e # es = pre @ key # post \<and> entriesOf key pre = []) \<longleftrightarrow>
      e = key \<or> envKey e \<noteq> Some key \<and> (\<exists>pre post. es = pre @ key # post \<and> entriesOf key pre = [])" (is "?l \<longleftrightarrow> ?r")
  proof
    assume ?l
    then obtain pre post where "e # es = pre @ key # post" "entriesOf key pre = []"
      by blast
    then show ?r
      by (cases pre) (auto simp: entriesOf_Cons split: if_splits)
  next
    assume ?r
    then show ?l
    proof
      assume "e = key"
      then show ?l by (intro exI [of _ "[]"] exI [of _ es]) simp
    next
      assume "envKey e \<noteq> Some key \<and> (\<exists>pre post. es = pre @ key # post \<and> entriesOf key pre = [])"
      then obtain pre post where "envKey e \<noteq> Some key" "es = pre @ key # post" "entriesOf key pre = []"
        by blast
      then show ?l by (intro exI [of _ "e # pre"] exI [of _ post]) (simp add: entriesOf_Cons)
    qed
  qed
  have "updateEnv (e # es) key value = None \<longleftrightarrow> e = key \<or> envKey e \<noteq> Some key \<and> updateEnv es key value = None"
    using assms by (cases "e = key") (auto simp: envKey_iff)
  then show ?case
    unfolding ex Cons .
qed simp

theorem updateEnv_panics_on_bare_key_witness:
  "updateEnv [''PATH=/bin'', EnvRootID] EnvRootID ''x'' = None"
proof -
  have "\<exists>pre post. [''PATH=/bin'', EnvRootID] = pre @ EnvRootID # post \<and> entriesOf EnvRootID pre = []"
    by (intro exI [of _ "[''PATH=/bin'']"] exI [of _ "[]"]) (simp add: entriesOf_def EnvRootID_def)
  then show ?thesis
    using updateEnv_panics_on_bare_key [OF protected_facts(1)] by blast
qed

text \<open>
  The generation of child executions never wraps around: \<open>ForChild\<close> adds one until the
  largest 32-bit value and stays there.  The environment of a child process, however, is printed
  with plain wrapping addition, so that at the largest value it announces generation 0, the root's.
\<close>

theorem child_generation_saturates:
  "uint (er_Generation (ForChild r)) = min (uint (er_Generation r) + 1) (2 ^ 32 - 1)
    \<and> er_Generation r \<le> er_Generation (ForChild r) \<and> er_ID (ForChild r) = er_ID r
    \<and> (er_Generation r + 1 = 0 \<longleftrightarrow> er_Generation r = NOT 0)"
proof -
  let ?g = "er_Generation r"
  have lt: "uint ?g < 2 ^ 32"
    using uint_lt2p [of ?g] by simp
  have suc: "uint (?g + 1) = (uint ?g + 1) mod 2 ^ 32"
    by (simp add: uint_word_ariths)
  have m: "uint (NOT 0 :: 32 word) = 2 ^ 32 - 1"
    by (simp add: unsigned_minus_1_eq_mask mask_eq_exp_minus_1)
  have gen: "er_Generation (ForChild r) = (if ?g + 1 < ?g then NOT 0 else ?g + 1)"
    by (simp add: ForChild_def Let_def)
  have wrap: "?g + 1 = 0 \<longleftrightarrow> ?g = NOT 0"
    by (simp add: eq_neg_iff_add_eq_0)
  show ?thesis
  proof (cases "uint ?g + 1 < 2 ^ 32")
    case True
    then have "uint (?g + 1) = uint ?g + 1"
      using suc by simp
    then show ?thesis
      unfolding wrap using True m by (auto simp: gen word_less_def word_le_def ForChild_def Let_def)
  next
    case False
    then have top: "uint ?g = 2 ^ 32 - 1"
      using lt by simp
    then have "uint (?g + 1) = 0"
      unfolding suc by simp
    with top show ?thesis
      unfolding wrap using m by (auto simp: gen word_less_def word_le_def ForChild_def Let_def)
  qed
qed

text \<open>
  Nested executions are refused: once a root execution has been created, a process that
  inherits its environment cannot create another one, and the error names the root.
\<close>

lemma generateRootID_nonempty: "generateRootID pid random \<noteq> ''''"
  by (simp add: generateRootID_def split: option.splits)

theorem nested_root_refused:
  assumes "NewExecutionRoot getenv selfPath pid random = Inr (root, getenv')"
  shows "(\<exists>msg. NewExecutionRoot getenv' selfPath' pid' random' = Inl msg \<and>
      msg = ''Leamas cannot be started from within a Leamas execution: root_id='' @ er_ID root @ '', parent_pid='' @ itoa pid @ '', generation=0'')
    \<and> getenv EnvRootID = ''''"
proof -
  have root: "checkReentry getenv ReentryPolicyReject = None" "er_ID root = generateRootID pid random"
    "getenv' = getenv(EnvRootID := er_ID root, EnvParentPID := itoa pid, EnvGeneration := itoa 0)"
    using assms by (auto simp: NewExecutionRoot_def Let_def split: option.splits)
  have env: "getenv' EnvRootID = er_ID root" "getenv' EnvParentPID = itoa pid" "getenv' EnvGeneration = itoa 0"
    using protected_facts(4-6) by (simp_all add: root(3))
  have "er_ID root \<noteq> ''''"
    by (simp add: root(2) generateRootID_nonempty)
  moreover have "itoa 0 = ''0''"
    by code_simp
  ultimately have "checkReentry getenv' ReentryPolicyReject =
      Some (''Leamas cannot be started from within a Leamas execution: root_id='' @ er_ID root @ '', parent_pid='' @ itoa pid @ '', generation=0'')"
    by (simp add: checkReentry_def env Let_def ExecutionError_Error_def ErrNestedLeamasExecution_def executionError_def)
  then show ?thesis
    using root(1) by (auto simp: NewExecutionRoot_def checkReentry_def Let_def split: if_splits)
qed

theorem nested_root_refused_witness:
  "\<exists>root env. NewExecutionRoot (\<lambda>_. '''') (Some ''/bin/leamas'') 7 (Some ''ab'') = Inr (root, env) \<and>
     NewExecutionRoot env (Some ''/bin/leamas'') 8 (Some ''cd'') \<noteq> Inr (root, env)"
proof -
  obtain root env where r: "NewExecutionRoot (\<lambda>_. '''') (Some ''/bin/leamas'') 7 (Some ''ab'') = Inr (root, env)"
    by (simp add: NewExecutionRoot_def checkReentry_def Let_def)
  from nested_root_refused [OF r, of "Some ''/bin/leamas''" 8 "Some ''cd''"] r show ?thesis
    by auto
qed

end
