(* ===== verification/Exec_Process.thy ===== *)
theory Exec_Process
  imports Exec_Guard
begin

text \<open>
  Process group termination: \<open>process_unix.go\<close> and the two escalation levels of
  \<open>executor_helpers.go\<close>.

  The kernel and the clock are arguments: reading number \<open>i\<close> of \<open>time.Now\<close> and
  answer number \<open>i\<close> of \<open>kill\<close> with signal 0.  The polling loop need not end by itself,
  so it is a \<open>partial_function\<close> into \<open>option\<close>; it ends because every retry calls
  \<open>time.Sleep\<close>, which pauses for at least its argument: this is the hypothesis \<open>sleeps\<close>.
\<close>

section \<open>Polling\<close>

datatype killResult = KillOk | ESRCH | KillError string

record waitRun =
  wr_clock :: "nat \<Rightarrow> int"
  wr_probe :: "nat \<Rightarrow> killResult"

text \<open>The loop of \<open>waitForProcessGroup\<close>: whether the group is gone, and an error.\<close>

partial_function (option) waitLoop :: "waitRun \<Rightarrow> int \<Rightarrow> nat \<Rightarrow> (bool \<times> string option) option" where
  "waitLoop run deadline i =
     (if wr_clock run i < deadline then
        (case wr_probe run i of
           KillOk \<Rightarrow> waitLoop run deadline (Suc i)
         | ESRCH \<Rightarrow> Some (True, None)
         | KillError e \<Rightarrow> Some (False, Some e))
      else Some (False, None))"

definition waitForProcessGroup :: "waitRun \<Rightarrow> int \<Rightarrow> (bool \<times> string option) option" where
  "waitForProcessGroup run timeout = waitLoop run (wr_clock run 0 + timeout) 1"

text \<open>
  \<open>waitForProcessExit\<close> polls \<open>Wait4\<close>; after \<open>ECHILD\<close> it asks \<open>kill\<close> once.
  An interrupted call is retried at once.
\<close>

datatype wait4Result = Reaped | StillRunning | ECHILD killResult | EINTR | Wait4Error string

record exitRun =
  xr_clock :: "nat \<Rightarrow> int"
  xr_wait4 :: "nat \<Rightarrow> wait4Result"

partial_function (option) exitLoop :: "exitRun \<Rightarrow> int \<Rightarrow> nat \<Rightarrow> (bool \<times> string option) option" where
  "exitLoop run deadline i =
     (if xr_clock run i < deadline then
        (case xr_wait4 run i of
           ECHILD k \<Rightarrow> if k = ESRCH then Some (True, None) else Some (False, Some ''no child processes'')
         | EINTR \<Rightarrow> exitLoop run deadline (Suc i)
         | Wait4Error e \<Rightarrow> Some (False, Some e)
         | Reaped \<Rightarrow> Some (True, None)
         | StillRunning \<Rightarrow> exitLoop run deadline (Suc i))
      else Some (False, None))"

definition waitForProcessExit :: "exitRun \<Rightarrow> int \<Rightarrow> (bool \<times> string option) option" where
  "waitForProcessExit run timeout = exitLoop run (xr_clock run 0 + timeout) 1"

section \<open>Termination of a process tree\<close>

text \<open>One attempt: the first wait, the answer to \<open>SIGKILL\<close>, the wait after it.\<close>

record cleanupRun =
  cl_grace :: waitRun
  cl_kill :: killResult
  cl_postKill :: waitRun

definition escalateTermination :: "Budget \<Rightarrow> int \<Rightarrow> killResult \<Rightarrow> waitRun \<Rightarrow> ExecutionError option option" where
  "escalateTermination budget pid kill postKill =
     (case kill of
        ESRCH \<Rightarrow> Some None
      | KillError e \<Rightarrow> Some (Some (ErrProcessTreeCleanupFailed pid (''SIGKILL: '' @ e)))
      | KillOk \<Rightarrow>
          map_option (\<lambda>(terminated, err).
            case err of
              Some e \<Rightarrow> Some (ErrProcessTreeCleanupFailed pid (''post-kill wait: '' @ e))
            | None \<Rightarrow> if \<not> terminated then Some (ErrProcessTreeCleanupFailed pid ''process group survived SIGKILL'') else None)
          (waitForProcessGroup postKill (bu_PostKillWait budget)))"

text \<open>The answer to \<open>SIGTERM\<close> is ignored.\<close>

definition terminateProcessTree :: "Budget \<Rightarrow> int \<Rightarrow> cleanupRun \<Rightarrow> ExecutionError option option" where
  "terminateProcessTree budget pid run =
     Option.bind (waitForProcessGroup (cl_grace run) (bu_TerminationGrace budget)) (\<lambda>(terminated, err).
       if err \<noteq> None \<or> \<not> terminated then escalateTermination budget pid (cl_kill run) (cl_postKill run) else Some None)"

definition isESRCH :: "killResult option \<Rightarrow> bool" where
  "isESRCH err \<longleftrightarrow> err = None \<or> err = Some ESRCH"

section \<open>The polling loop ends\<close>

definition tenMs :: int where
  "tenMs = 10000000"

text \<open>
  Reading 0 computes the deadline and reading 1 is the first test of the loop: nothing sleeps
  between them, and the monotonic clock only does not run backwards.  Every later reading comes
  after the pause of a retry.
\<close>

definition sleeps :: "(nat \<Rightarrow> int) \<Rightarrow> bool" where
  "sleeps clock \<longleftrightarrow> clock 0 \<le> clock 1 \<and> (\<forall>i \<ge> 1. clock i + tenMs \<le> clock (Suc i))"

lemma sleeps_bound: "sleeps clock \<Longrightarrow> clock 0 + int n * tenMs \<le> clock (Suc n)"
proof (induction n)
  case (Suc n)
  from Suc.prems have "clock (Suc n) + tenMs \<le> clock (Suc (Suc n))"
    by (simp add: sleeps_def)
  with Suc show ?case by (simp add: algebra_simps)
qed (simp add: sleeps_def)

text \<open>A clock that reads the same twice in a row before the first pause.\<close>

definition pausingClock :: "nat \<Rightarrow> int" where
  "pausingClock i = int (i - 1) * tenMs"

lemma pausingClock_sleeps: "sleeps pausingClock" "pausingClock 0 = pausingClock 1"
  by (auto simp: sleeps_def pausingClock_def tenMs_def)

definition answer :: "waitRun \<Rightarrow> int \<Rightarrow> nat \<Rightarrow> bool \<times> string option" where
  "answer run deadline n =
     (if wr_clock run n < deadline
      then case wr_probe run n of ESRCH \<Rightarrow> (True, None) | KillError e \<Rightarrow> (False, Some e) | KillOk \<Rightarrow> (False, None)
      else (False, None))"

lemma waitLoop_answer:
  assumes "\<forall>j. i \<le> j \<longrightarrow> j < n \<longrightarrow> wr_clock run j < deadline \<and> wr_probe run j = KillOk" and "i \<le> n"
    and "wr_clock run n < deadline \<longrightarrow> wr_probe run n \<noteq> KillOk"
  shows "waitLoop run deadline i = Some (answer run deadline n)"
  using assms
proof (induction "n - i" arbitrary: i)
  case 0
  then have "i = n" by simp
  with 0 show ?case
    by (subst waitLoop.simps) (auto simp: answer_def split: killResult.splits)
next
  case (Suc d)
  then have "i < n" by simp
  with Suc have "waitLoop run deadline (Suc i) = Some (answer run deadline n)"
    by (intro Suc.hyps) auto
  with Suc.prems \<open>i < n\<close> show ?case
    by (subst waitLoop.simps) auto
qed

lemma waitForProcessGroup_returns:
  assumes "sleeps (wr_clock run)"
  shows "\<exists>n. 1 \<le> n \<and> int (n - 1) * tenMs < max tenMs (timeout + tenMs) \<and> (\<forall>j. 1 \<le> j \<longrightarrow> j < n \<longrightarrow> wr_probe run j = KillOk) \<and>
    waitForProcessGroup run timeout = Some (answer run (wr_clock run 0 + timeout) n)"
proof -
  let ?deadline = "wr_clock run 0 + timeout"
  let ?stop = "\<lambda>n. 1 \<le> n \<and> (wr_clock run n < ?deadline \<longrightarrow> wr_probe run n \<noteq> KillOk)"
  have "wr_clock run 0 + int (nat timeout) * tenMs \<le> wr_clock run (Suc (nat timeout))"
    by (rule sleeps_bound [OF assms])
  moreover have "timeout \<le> int (nat timeout) * tenMs"
    by (simp add: tenMs_def)
  ultimately have "?stop (Suc (nat timeout))"
    by auto
  then obtain n where n: "?stop n" and least: "\<forall>m < n. \<not> ?stop m"
    using exists_least_iff [of ?stop] by blast
  have before: "wr_clock run j < ?deadline \<and> wr_probe run j = KillOk" if "1 \<le> j" "j < n" for j
    using least that by auto
  have "int (n - 1) * tenMs < max tenMs (timeout + tenMs)"
  proof (cases "n = 1")
    case False
    with n obtain m where m: "n = Suc (Suc m)"
      by (cases n; cases "n - 1") auto
    then have "wr_clock run (Suc m) < ?deadline"
      using before [of "Suc m"] by auto
    with m show ?thesis
      using sleeps_bound [OF assms, of m] by (simp add: tenMs_def)
  qed (simp add: tenMs_def)
  with n before show ?thesis
    unfolding waitForProcessGroup_def by (intro exI [of _ n]) (auto intro!: waitLoop_answer)
qed

text \<open>
  Waiting for a process group ends: because every retry sleeps ten milliseconds, the loop returns
  after at most one probe more than fit into the timeout.  It answers that the group is gone
  only when its last probe, made before the deadline, said so; every earlier probe found it alive.
\<close>

theorem group_wait_terminates:
  assumes "sleeps (wr_clock run)" and "0 \<le> timeout"
  shows "\<exists>n terminated err. 1 \<le> n \<and> int (n - 1) * tenMs < timeout + tenMs
    \<and> waitForProcessGroup run timeout = Some (terminated, err)
    \<and> (\<forall>j. 1 \<le> j \<and> j < n \<longrightarrow> wr_probe run j = KillOk)
    \<and> (terminated \<longrightarrow> err = None \<and> wr_probe run n = ESRCH \<and> wr_clock run n < wr_clock run 0 + timeout)"
proof -
  obtain n where n: "1 \<le> n" "int (n - 1) * tenMs < max tenMs (timeout + tenMs)" "\<forall>j. 1 \<le> j \<longrightarrow> j < n \<longrightarrow> wr_probe run j = KillOk"
    "waitForProcessGroup run timeout = Some (answer run (wr_clock run 0 + timeout) n)"
    using waitForProcessGroup_returns [OF assms(1)] by blast
  obtain terminated err where a: "answer run (wr_clock run 0 + timeout) n = (terminated, err)"
    by fastforce
  then have "terminated \<longrightarrow> err = None \<and> wr_probe run n = ESRCH \<and> wr_clock run n < wr_clock run 0 + timeout"
    by (auto simp: answer_def split: if_splits killResult.splits)
  with n a assms(2) show ?thesis
    by (intro exI [of _ n] exI [of _ terminated] exI [of _ err]) auto
qed

theorem group_wait_terminates_witness:
  "\<exists>n terminated err. waitForProcessGroup
     \<lparr>wr_clock = pausingClock, wr_probe = (\<lambda>i. if i < 3 then KillOk else ESRCH)\<rparr> 100000000 = Some (terminated, err) \<and>
     int (n - 1) * tenMs < 100000000 + tenMs"
  using group_wait_terminates [of "\<lparr>wr_clock = pausingClock, wr_probe = (\<lambda>i. if i < 3 then KillOk else ESRCH)\<rparr>" 100000000]
    pausingClock_sleeps(1)
  by auto

section \<open>Cleanup is fail-closed\<close>

lemma waitForProcessGroup_gone:
  assumes "sleeps (wr_clock run)" and "waitForProcessGroup run timeout = Some (True, err)"
  shows "err = None \<and> (\<exists>n \<ge> 1. wr_probe run n = ESRCH)"
proof -
  obtain n where "1 \<le> n" "waitForProcessGroup run timeout = Some (answer run (wr_clock run 0 + timeout) n)"
    using waitForProcessGroup_returns [OF assms(1)] by blast
  with assms(2) show ?thesis
    by (auto simp: answer_def split: if_splits killResult.splits)
qed

lemma waitForProcessGroup_total: "sleeps (wr_clock run) \<Longrightarrow> \<exists>t err. waitForProcessGroup run timeout = Some (t, err)"
  using waitForProcessGroup_returns by (metis surj_pair)

definition cleanupSleeps :: "cleanupRun \<Rightarrow> bool" where
  "cleanupSleeps run \<longleftrightarrow> sleeps (wr_clock (cl_grace run)) \<and> sleeps (wr_clock (cl_postKill run))"

definition absenceConfirmed :: "cleanupRun \<Rightarrow> bool" where
  "absenceConfirmed run \<longleftrightarrow> (\<exists>n \<ge> 1. wr_probe (cl_grace run) n = ESRCH) \<or> cl_kill run = ESRCH \<or> (\<exists>n \<ge> 1. wr_probe (cl_postKill run) n = ESRCH)"

lemma escalate_total:
  assumes "sleeps (wr_clock postKill)"
  shows "\<exists>r. escalateTermination budget pid kill postKill = Some r \<and>
    (r = None \<longrightarrow> kill = ESRCH \<or> (\<exists>n \<ge> 1. wr_probe postKill n = ESRCH)) \<and>
    (\<forall>e. r = Some e \<longrightarrow> ee_Code e = ''execution_process_tree_cleanup_failed'')"
proof -
  obtain t err where w: "waitForProcessGroup postKill (bu_PostKillWait budget) = Some (t, err)"
    using waitForProcessGroup_total [OF assms] by blast
  show ?thesis
  proof (cases "kill = KillOk \<and> t \<and> err = None")
    case True
    with w waitForProcessGroup_gone [OF assms, of "bu_PostKillWait budget" err] show ?thesis
      by (simp add: escalateTermination_def)
  next
    case False
    with w show ?thesis
      by (cases kill; cases err)
        (auto simp: escalateTermination_def ErrProcessTreeCleanupFailed_def executionError_def)
  qed
qed

lemma terminate_total:
  assumes "cleanupSleeps run"
  shows "\<exists>r. terminateProcessTree budget pid run = Some r \<and> (r = None \<longrightarrow> absenceConfirmed run) \<and>
    (\<forall>e. r = Some e \<longrightarrow> ee_Code e = ''execution_process_tree_cleanup_failed'')"
proof -
  have s: "sleeps (wr_clock (cl_grace run))" "sleeps (wr_clock (cl_postKill run))"
    using assms by (simp_all add: cleanupSleeps_def)
  obtain t err where w: "waitForProcessGroup (cl_grace run) (bu_TerminationGrace budget) = Some (t, err)"
    using waitForProcessGroup_total [OF s(1)] by blast
  show ?thesis
  proof (cases "err \<noteq> None \<or> \<not> t")
    case True
    with w escalate_total [OF s(2), of budget pid "cl_kill run"] show ?thesis
      by (auto simp: terminateProcessTree_def absenceConfirmed_def)
  next
    case False
    with w waitForProcessGroup_gone [OF s(1), of "bu_TerminationGrace budget" err] show ?thesis
      by (simp add: terminateProcessTree_def absenceConfirmed_def)
  qed
qed

text \<open>
  Terminating a process tree always returns and is fail-closed: it reports success only when some
  call of \<open>kill\<close> has confirmed that the process group does not exist; otherwise it
  returns a cleanup error.
\<close>

theorem termination_fail_closed:
  assumes "cleanupSleeps run"
  shows "\<exists>r. terminateProcessTree budget pid run = Some r \<and> (r = None \<longrightarrow> absenceConfirmed run) \<and>
    (\<forall>e. r = Some e \<longrightarrow> ee_Code e = ''execution_process_tree_cleanup_failed'')"
  by (rule terminate_total [OF assms])

definition stubbornRun :: cleanupRun where
  "stubbornRun = (let w = \<lparr>wr_clock = pausingClock, wr_probe = (\<lambda>_. KillOk)\<rparr>
     in \<lparr>cl_grace = w, cl_kill = KillOk, cl_postKill = w\<rparr>)"

theorem termination_fail_closed_witness:
  "\<exists>e. terminateProcessTree (DefaultBudget 1) 42 stubbornRun = Some (Some e)"
proof -
  have "cleanupSleeps stubbornRun" "\<not> absenceConfirmed stubbornRun"
    by (simp_all add: cleanupSleeps_def absenceConfirmed_def stubbornRun_def pausingClock_sleeps Let_def)
  then show ?thesis
    using termination_fail_closed [of stubbornRun "DefaultBudget 1" 42] by auto
qed

end
