(* ===== verification/Exec_Executor.thy ===== *)
theory Exec_Executor
  imports Exec_Process
begin

text \<open>
  The executor: \<open>executor.go\<close>, \<open>executor_lifecycle.go\<close> and the request checks of
  \<open>executor_helpers.go\<close>.

  A call of \<open>Execute\<close> consists of the phases admission (deadline, validation, depth,
  self-execution, cycle check), semaphore, start counter, and the run of the process; the deferred
  calls release the slot and the fingerprint.  What the clock, the context, the scheduler and the
  operating system answer during a call is the record \<open>execEnv\<close>.  The result is an option:
  \<open>None\<close> stands for a call that does not return, because it is still blocked on the
  semaphore, because a cleanup wait does not end, or because of a panic.
\<close>

section \<open>State and environment\<close>

record Executor =
  ex_budget :: Budget
  ex_starts :: "64 word"
  ex_startsLimit :: "64 word"
  ex_sem :: contextSemaphore
  ex_maxTaskDepth :: "16 word"
  ex_cycleDetector :: CycleDetector
  ex_root :: "ExecutionRoot option"

definition NewExecutor :: "Budget option \<Rightarrow> ExecutionRoot option \<Rightarrow> int \<Rightarrow> string + Executor" where
  "NewExecutor budget root now =
     (case Validate budget now of Some err \<Rightarrow> Inl (''invalid budget: '' @ err)
      | None \<Rightarrow> let b = the budget in
          Inr \<lparr>ex_budget = b, ex_starts = 0, ex_startsLimit = bu_MaxStarts b, ex_sem = newContextSemaphore (bu_MaxConcurrent b),
            ex_maxTaskDepth = bu_MaxTaskDepth b, ex_cycleDetector = NewCycleDetector, ex_root = root\<rparr>)"

definition Stats :: "Executor \<Rightarrow> int \<times> int" where
  "Stats e = (sint (ex_starts e), Count (ex_sem e))"

text \<open>How a process ended, and what \<open>cmd.Wait\<close> returned.\<close>

datatype processStatus = Exited int | Signaled int | NoStatus

datatype waitEnd =
    EndOk processStatus
  | EndWaitDelay processStatus string
  | EndContext string
  | EndExit processStatus
  | EndOther string

datatype selected = ByOverflow | ByContext | ByWait waitEnd

text \<open>
  One run of a process: the outcome of \<open>cmd.Start\<close>, all writes to the two streams, the
  selected case, the end delivered while draining (\<open>None\<close> when the grace period expired),
  the state of the context at the end, and the cleanup attempts.
\<close>

record processRun =
  pr_startErr :: "string option"
  pr_pid :: int
  pr_writes :: "(stream \<times> string) list"
  pr_selected :: selected
  pr_drain :: "waitEnd option"
  pr_ctx :: ctxState
  pr_cleanup :: cleanupRun
  pr_escalation :: "killResult \<times> waitRun"
  pr_finalCleanup :: cleanupRun

record execEnv =
  xe_start :: int
  xe_now :: int
  xe_ctxDeadline :: "int option"
  xe_showTimeout :: string
  xe_resolve :: "string \<Rightarrow> string option"
  xe_choices :: "selectChoice list"
  xe_semCtx :: ctxState
  xe_environ :: "string list"
  xe_pid :: int
  xe_run :: processRun

section \<open>Admission\<close>

definition computeEffectiveDeadline :: "int \<Rightarrow> int option \<Rightarrow> Budget \<Rightarrow> Request \<Rightarrow> int" where
  "computeEffectiveDeadline now ctxDeadline budget req =
     (let deadline = (if rq_Timeout req > 0 then now + rq_Timeout req else now + DefaultTimeout);
          deadline = (if bu_Deadline budget \<noteq> 0 \<and> bu_Deadline budget < deadline then bu_Deadline budget else deadline)
      in case ctxDeadline of Some d \<Rightarrow> if d < deadline then d else deadline | None \<Rightarrow> deadline)"

definition validateRequest :: "string \<Rightarrow> Request \<Rightarrow> ExecutionError option" where
  "validateRequest showTimeout req =
     (if rq_Args req = [] then Some (ErrInvalidRequest ''no command specified'')
      else if rq_Timeout req < 0 then Some (ErrInvalidRequest ''negative timeout is invalid'')
      else if rq_Timeout req > MaxPermittedTimeout then Some (ErrUnboundedTimeout showTimeout)
      else if rq_OutputCap req < 0 then Some (ErrInvalidRequest ''negative output cap is invalid'')
      else if rq_OutputCap req > MaxPermittedMaxOutputBytes then Some (ErrInvalidRequest ''output cap exceeds hard maximum'')
      else None)"

definition checkTaskDepth :: "Executor \<Rightarrow> Request \<Rightarrow> ExecutionError option" where
  "checkTaskDepth e req =
     (let depth = (if rq_TaskDepth req = 0 then 1 else rq_TaskDepth req)
      in if depth > ex_maxTaskDepth e then Some (ErrTaskDepthExceeded (ex_maxTaskDepth e) depth) else None)"

definition checkSelfExecution :: "(string \<Rightarrow> string option) \<Rightarrow> Executor \<Rightarrow> Request \<Rightarrow> bool" where
  "checkSelfExecution resolve e req =
     (case ex_root e of None \<Rightarrow> False | Some root \<Rightarrow> IsSelfExecutable resolve root (hd (rq_Args req)))"

definition requestFingerprint :: "Request \<Rightarrow> string" where
  "requestFingerprint req =
     (if rq_Fingerprint req = ''''
      then ComputeFingerprint (hd (rq_Args req)) (tl (rq_Args req)) (rq_Dir req) (rq_Name req) else rq_Fingerprint req)"

definition admit :: "execEnv \<Rightarrow> Request \<Rightarrow> Executor \<Rightarrow> errorRef + (string \<times> Executor)" where
  "admit env req e =
     (let deadline = computeEffectiveDeadline (xe_now env) (xe_ctxDeadline env) (ex_budget e) req
      in if deadline \<noteq> 0 \<and> deadline < xe_start env then Inl SharedDeadline
      else case validateRequest (xe_showTimeout env) req of Some err \<Rightarrow> Inl (Allocated err)
      | None \<Rightarrow>
        (case checkTaskDepth e req of Some err \<Rightarrow> Inl (Allocated err)
         | None \<Rightarrow>
           if checkSelfExecution (xe_resolve env) e req then Inl SharedNested
           else let fingerprint = requestFingerprint req
           in case CheckAndTrack fingerprint (rq_Name req) (ex_cycleDetector e) of
                Inl err \<Rightarrow> Inl (Allocated err)
              | Inr d \<Rightarrow> Inr (fingerprint, e\<lparr>ex_cycleDetector := d\<rparr>)))"

section \<open>Slot and start counter\<close>

definition acquireSlot :: "execEnv \<Rightarrow> Executor \<Rightarrow> ((errorRef + unit) \<times> Executor) option" where
  "acquireSlot env e =
     map_option (\<lambda>(sem, acquired, err).
       (if \<not> acquired then
          Inl (if err \<noteq> None \<and> xe_semCtx env = CtxDeadlineExceeded then SharedDeadline
               else if err \<noteq> None \<and> xe_semCtx env = CtxCanceled then SharedCancelled
               else Allocated (ErrConcurrencyExhausted (bu_MaxConcurrent (ex_budget e))))
        else if err \<noteq> None then
          Inl (if xe_semCtx env = CtxCanceled then SharedCancelled
               else if xe_semCtx env = CtxDeadlineExceeded then SharedDeadline
               else Allocated (ErrConcurrencyExhausted (bu_MaxConcurrent (ex_budget e))))
        else Inr (), e\<lparr>ex_sem := sem\<rparr>)) (Acquire (xe_choices env) 1 (ex_sem e))"

definition countStart :: "Executor \<Rightarrow> ExecutionError + Executor" where
  "countStart e =
     (if ex_starts e \<ge> ex_startsLimit e then Inl (ErrStartBudgetExhausted (ex_startsLimit e) (ex_startsLimit e))
      else Inr (e\<lparr>ex_starts := ex_starts e + 1\<rparr>))"

definition releaseSlot :: "Executor \<Rightarrow> Executor" where
  "releaseSlot e = e\<lparr>ex_sem := Release 1 (ex_sem e)\<rparr>"

definition untrackCall :: "string \<Rightarrow> Executor \<Rightarrow> Executor" where
  "untrackCall fingerprint e = e\<lparr>ex_cycleDetector := Untrack fingerprint (ex_cycleDetector e)\<rparr>"

section \<open>The run of a process\<close>

definition rootID :: "Executor \<Rightarrow> string" where
  "rootID e = (case ex_root e of Some r \<Rightarrow> er_ID r | None \<Rightarrow> '''')"

definition statusCode :: "processStatus \<Rightarrow> int option" where
  "statusCode st = (case st of Exited n \<Rightarrow> Some n | Signaled s \<Rightarrow> Some (- s) | NoStatus \<Rightarrow> None)"

definition isWaitDelay :: "waitEnd \<Rightarrow> bool" where
  "isWaitDelay w = (case w of EndWaitDelay _ _ \<Rightarrow> True | _ \<Rightarrow> False)"

text \<open>The local variables of \<open>Execute\<close> that the \<open>select\<close> statement sets.\<close>

record runState =
  st_exitCode :: int
  st_exitStatusKnown :: bool
  st_outputIncomplete :: bool
  st_triggerErr :: "errorRef option"
  st_cleanupErr :: "ExecutionError option"

definition contextError :: "ctxState \<Rightarrow> errorRef option \<Rightarrow> errorRef option" where
  "contextError ctx old =
     (case ctx of CtxDeadlineExceeded \<Rightarrow> Some SharedDeadline | CtxCanceled \<Rightarrow> Some SharedCancelled | CtxLive \<Rightarrow> old)"

definition waitFailed :: "string \<Rightarrow> errorRef" where
  "waitFailed err = Allocated (NewExecutionError ''execution_unknown'' (''command wait failed: '' @ err) (Some err))"

text \<open>The overflow and the context case: terminate, drain, escalate when draining takes too long.\<close>

definition terminateAndDrain :: "Executor \<Rightarrow> processRun \<Rightarrow> (bool \<times> ExecutionError option) option" where
  "terminateAndDrain e run =
     Option.bind (terminateProcessTree (ex_budget e) (pr_pid run) (pr_cleanup run)) (\<lambda>cleanupErr.
       case pr_drain run of
         Some w \<Rightarrow> Some (isWaitDelay w, cleanupErr)
       | None \<Rightarrow>
           map_option (\<lambda>err. (False, if cleanupErr = None then err else cleanupErr))
             (escalateTermination (ex_budget e) (pr_pid run) (fst (pr_escalation run)) (snd (pr_escalation run))))"

definition completed :: "Executor \<Rightarrow> processRun \<Rightarrow> waitEnd \<Rightarrow> runState option" where
  "completed e run w =
     (let st = \<lparr>st_exitCode = 0, st_exitStatusKnown = False, st_outputIncomplete = False, st_triggerErr = None, st_cleanupErr = None\<rparr>
      in case w of
        EndOk s \<Rightarrow> Some (st\<lparr>st_exitCode := (case statusCode s of Some n \<Rightarrow> n | None \<Rightarrow> 0)\<rparr>)
      | EndWaitDelay s err \<Rightarrow>
          map_option (\<lambda>cleanupErr.
            st\<lparr>st_exitCode := (case statusCode s of Some n \<Rightarrow> n | None \<Rightarrow> 0), st_exitStatusKnown := (statusCode s \<noteq> None),
               st_outputIncomplete := True, st_cleanupErr := cleanupErr,
               st_triggerErr := (if cleanupErr = None then Some (Allocated (ErrRetainedOutputPipe err)) else None)\<rparr>)
            (terminateProcessTree (ex_budget e) (pr_pid run) (pr_cleanup run))
      | EndContext err \<Rightarrow> Some (st\<lparr>st_triggerErr := Some (waitFailed err)\<rparr>)
      | EndExit s \<Rightarrow> Some (st\<lparr>st_exitCode := (case statusCode s of Some n \<Rightarrow> n | None \<Rightarrow> -1)\<rparr>)
      | EndOther err \<Rightarrow> Some (st\<lparr>st_triggerErr := Some (waitFailed err)\<rparr>))"

definition awaitProcess :: "Executor \<Rightarrow> Request \<Rightarrow> processRun \<Rightarrow> int \<Rightarrow> int \<Rightarrow> runState option" where
  "awaitProcess e req run outputCap observed =
     (let st = \<lparr>st_exitCode = 0, st_exitStatusKnown = False, st_outputIncomplete = False, st_triggerErr = None, st_cleanupErr = None\<rparr>
      in case pr_selected run of
        ByOverflow \<Rightarrow>
          map_option (\<lambda>(incomplete, cleanupErr).
            st\<lparr>st_outputIncomplete := incomplete, st_cleanupErr := cleanupErr,
               st_triggerErr := Some (Allocated (ErrOutputLimitExceeded outputCap observed (rootID e) (CommandLine req)))\<rparr>)
            (terminateAndDrain e run)
      | ByContext \<Rightarrow>
          map_option (\<lambda>(incomplete, cleanupErr).
            st\<lparr>st_outputIncomplete := incomplete, st_cleanupErr := cleanupErr, st_triggerErr := contextError (pr_ctx run) None\<rparr>)
            (terminateAndDrain e run)
      | ByWait w \<Rightarrow> completed e run w)"

text \<open>The context invariant that runs after the \<open>select\<close>, whichever case was taken.\<close>

definition contextInvariant :: "Executor \<Rightarrow> processRun \<Rightarrow> runState \<Rightarrow> runState option" where
  "contextInvariant e run st =
     (if pr_ctx run \<noteq> CtxLive then
        map_option (\<lambda>err. st\<lparr>st_triggerErr := contextError (pr_ctx run) (st_triggerErr st),
            st_cleanupErr := (if err \<noteq> None \<and> st_cleanupErr st = None then err else st_cleanupErr st)\<rparr>)
          (terminateProcessTree (ex_budget e) (pr_pid run) (pr_finalCleanup run))
      else Some st)"

definition bufferResult :: "sharedOutputBuffer \<Rightarrow> int \<Rightarrow> int \<Rightarrow> bool \<Rightarrow> errorRef option \<Rightarrow> Result" where
  "bufferResult b outputCap exitCode incomplete err =
     \<lparr>rs_ExitCode = exitCode, rs_Stdout = Stdout b, rs_Stderr = Stderr b, rs_OutputTruncated = Truncated b,
      rs_OutputIncomplete = incomplete, rs_OutputBytesObserved = BytesObserved b, rs_OutputBytesRetained = BytesRetained b,
      rs_OutputLimit = outputCap, rs_Error = err\<rparr>"

definition finalResult :: "Executor \<Rightarrow> Request \<Rightarrow> sharedOutputBuffer \<Rightarrow> int \<Rightarrow> runState \<Rightarrow> errorStore \<Rightarrow> Result \<times> errorStore" where
  "finalResult e req b outputCap st store =
     (let reportedExitCode = (if st_exitStatusKnown st then st_exitCode st else -1);
          triggerErr = (if Truncated b
            then Some (Allocated (ErrOutputLimitExceeded outputCap (BytesObserved b) (rootID e) (CommandLine req))) else st_triggerErr st)
      in case st_cleanupErr st of
        Some err \<Rightarrow> (bufferResult b outputCap reportedExitCode (st_outputIncomplete st)
            (Some (Allocated (stamp (rootID e) (CommandLine req) err))), store)
      | None \<Rightarrow>
        (case triggerErr of
           Some ref \<Rightarrow>
             (let (ref', store') = assignContext (rootID e) (CommandLine req) ref store
              in (bufferResult b outputCap reportedExitCode (st_outputIncomplete st) (Some ref'), store'))
         | None \<Rightarrow> (bufferResult b outputCap (st_exitCode st) (st_outputIncomplete st) None, store)))"

definition effectiveCap :: "Executor \<Rightarrow> Request \<Rightarrow> int" where
  "effectiveCap e req = (if rq_OutputCap req = 0 then bu_MaxOutputBytes (ex_budget e) else rq_OutputCap req)"

definition runProcess :: "execEnv \<Rightarrow> Request \<Rightarrow> Executor \<Rightarrow> errorStore \<Rightarrow> Result option \<times> errorStore" where
  "runProcess env req e store =
     (case buildEnv (xe_environ env) (xe_pid env) (ex_root e) req of None \<Rightarrow> (None, store)
      | Some _ \<Rightarrow>
        let run = xe_run env; outputCap = effectiveCap e req
        in case pr_startErr run of
          Some err \<Rightarrow>
            (case newSharedOutputBuffer outputCap of Inl _ \<Rightarrow> (None, store)
             | Inr b \<Rightarrow> (Some (bufferResult b outputCap (-1) False (Some (Allocated (NewExecutionError ''execution_command_not_found''
                 (''failed to start '' @ hd (rq_Args req) @ '': '' @ err) (Some err))))), store))
        | None \<Rightarrow>
            (case captureRun outputCap (pr_writes run) of Inl _ \<Rightarrow> (None, store)
             | Inr b \<Rightarrow>
                 (case Option.bind (awaitProcess e req run outputCap (BytesObserved b)) (contextInvariant e run) of
                    None \<Rightarrow> (None, store)
                  | Some st \<Rightarrow> (let (r, store') = finalResult e req b outputCap st store in (Some r, store')))))"

section \<open>Execute\<close>

definition Execute :: "execEnv \<Rightarrow> Request \<Rightarrow> Executor \<Rightarrow> errorStore \<Rightarrow> Result option \<times> Executor \<times> errorStore" where
  "Execute env req e store =
     (case admit env req e of Inl err \<Rightarrow> (Some (NewErrorResult err), e, store)
      | Inr (fingerprint, e1) \<Rightarrow>
        (case acquireSlot env e1 of None \<Rightarrow> (None, e1, store)
         | Some (Inl err, e2) \<Rightarrow> (Some (NewErrorResult err), untrackCall fingerprint e2, store)
         | Some (Inr _, e2) \<Rightarrow>
           (case countStart e2 of
              Inl err \<Rightarrow> (Some (NewErrorResult (Allocated err)), untrackCall fingerprint (releaseSlot e2), store)
            | Inr e3 \<Rightarrow>
                (let (r, store') = runProcess env req e3 store
                 in (r, untrackCall fingerprint (releaseSlot e3), store')))))"

section \<open>The guards are restored\<close>

definition executorInv :: "Executor \<Rightarrow> bool" where
  "executorInv e \<longleftrightarrow> 0 \<le> sm_count (ex_sem e) \<and> sm_count (ex_sem e) \<le> sm_limit (ex_sem e) \<and>
     dom (cd_fingerprints (ex_cycleDetector e)) \<subseteq> dom (cd_active (ex_cycleDetector e)) \<and> ex_starts e \<le> ex_startsLimit e"

lemma admit_Inr:
  assumes "admit env req e = Inr (fp, e1)"
  shows "fp = requestFingerprint req" and "validateRequest (xe_showTimeout env) req = None"
    and "\<exists>d. CheckAndTrack fp (rq_Name req) (ex_cycleDetector e) = Inr d \<and> e1 = e\<lparr>ex_cycleDetector := d\<rparr>"
  using assms by (auto simp: admit_def Let_def split: if_splits option.splits sum.splits)

lemma CheckAndTrack_fingerprints:
  "CheckAndTrack fp name d = Inr d' \<Longrightarrow> dom (cd_fingerprints d) \<subseteq> dom (cd_active d) \<Longrightarrow> dom (cd_fingerprints d') \<subseteq> dom (cd_active d')"
  by (cases "cd_active d fp") (force simp: CheckAndTrack_def subset_iff domIff)+

lemma acquireSlot_cases:
  assumes "acquireSlot env e = Some (r, e')" and "0 \<le> sm_count (ex_sem e)" "sm_count (ex_sem e) \<le> sm_limit (ex_sem e)"
  shows "\<exists>sem. e' = e\<lparr>ex_sem := sem\<rparr> \<and> (case r of Inl _ \<Rightarrow> sem = ex_sem e
    | Inr _ \<Rightarrow> sm_count sem = sm_count (ex_sem e) + 1 \<and> sm_count sem \<le> sm_limit sem \<and> Release 1 sem = ex_sem e)"
proof -
  obtain sem acquired err where acq: "Acquire (xe_choices env) 1 (ex_sem e) = Some (sem, acquired, err)"
    and e': "e' = e\<lparr>ex_sem := sem\<rparr>" and r: "isl r \<longleftrightarrow> \<not> acquired \<or> err \<noteq> None"
    using assms(1) by (auto simp: acquireSlot_def split: if_splits)
  from Acquire_result [OF acq assms(2,3)] e' r show ?thesis
    by (cases r) (auto split: if_splits)
qed

lemma acquireSlot_sem:
  assumes "acquireSlot env e = Some (r, e')" and "executorInv e"
  shows "\<exists>sem. e' = e\<lparr>ex_sem := sem\<rparr> \<and> (case r of Inl _ \<Rightarrow> sem = ex_sem e
    | Inr _ \<Rightarrow> sm_count sem = sm_count (ex_sem e) + 1 \<and> sm_count sem \<le> sm_limit sem \<and> Release 1 sem = ex_sem e)"
  using acquireSlot_cases [OF assms(1)] assms(2) by (simp add: executorInv_def)

lemma admit_inv: "admit env req e = Inr (fp, e1) \<Longrightarrow> executorInv e \<Longrightarrow> executorInv e1"
  using admit_Inr [of env req e fp e1] CheckAndTrack_fingerprints by (fastforce simp: executorInv_def)

lemma admit_untrack:
  assumes "admit env req e = Inr (fp, e1)" and "executorInv e"
  shows "untrackCall fp (e1\<lparr>ex_starts := n, ex_sem := sem\<rparr>) = e\<lparr>ex_starts := n, ex_sem := sem\<rparr>"
proof -
  obtain d where d: "CheckAndTrack fp (rq_Name req) (ex_cycleDetector e) = Inr d" "e1 = e\<lparr>ex_cycleDetector := d\<rparr>"
    using admit_Inr(3) [OF assms(1)] by blast
  then have "Untrack fp d = ex_cycleDetector e"
    using track_untrack assms(2) by (auto simp: executorInv_def)
  with d show ?thesis
    by (simp add: untrackCall_def)
qed

lemma word_suc_below:
  fixes x y :: "64 word"
  assumes "x < y"
  shows "x + 1 \<le> y \<and> uint (x + 1) = uint x + 1"
proof -
  have "uint x + 1 \<le> uint y" "uint y < 2 ^ 64" "0 \<le> uint x"
    using assms uint_lt2p [of y] by (simp_all add: word_less_def)
  moreover have "uint (x + 1) = (uint x + 1) mod 2 ^ 64"
    by (simp add: uint_word_ariths)
  ultimately show ?thesis
    by (simp add: word_le_def)
qed

lemma countStart_Inr:
  "countStart e = Inr e' \<Longrightarrow>
     e' = e\<lparr>ex_starts := ex_starts e + 1\<rparr> \<and> ex_starts e + 1 \<le> ex_startsLimit e \<and> uint (ex_starts e + 1) = uint (ex_starts e) + 1"
  using word_suc_below [of "ex_starts e" "ex_startsLimit e"] by (auto simp: countStart_def not_le split: if_splits)

text \<open>
  C24. Every call of \<open>Execute\<close> that returns, on whatever path, gives restored its slot and its
  fingerprint: the semaphore and the cycle detector are as before, and the start counter has grown
  by at most one and is within its limit.
\<close>

theorem execute_restores_guards:
  assumes inv: "executorInv e" and ret: "Execute env req e store = (Some r, e', store')"
  shows "e' = e\<lparr>ex_starts := ex_starts e'\<rparr> \<and> executorInv e' \<and>
    (ex_starts e' = ex_starts e \<or> uint (ex_starts e') = uint (ex_starts e) + 1)"
proof (cases "admit env req e")
  case (Inl err)
  with inv ret show ?thesis by (simp add: Execute_def)
next
  case (Inr a)
  then obtain fp e1 where ad: "admit env req e = Inr (fp, e1)"
    by (cases a) auto
  have restored: "untrackCall fp (e1\<lparr>ex_starts := n, ex_sem := ex_sem e\<rparr>) = e\<lparr>ex_starts := n\<rparr>" for n
    using admit_untrack [OF ad inv, where sem = "ex_sem e" and n = n] by simp
  have restored0: "untrackCall fp (e1\<lparr>ex_sem := ex_sem e\<rparr>) = e"
    using restored [of "ex_starts e"] admit_Inr(3) [OF ad] by auto
  have same: "ex_sem e1 = ex_sem e" "ex_starts e1 = ex_starts e" "ex_startsLimit e1 = ex_startsLimit e"
    using admit_Inr(3) [OF ad] by auto
  from ret ad obtain q e2 where acq: "acquireSlot env e1 = Some (q, e2)"
    by (cases "acquireSlot env e1") (auto simp: Execute_def)
  then obtain sem where sem: "e2 = e1\<lparr>ex_sem := sem\<rparr>" "case q of Inl _ \<Rightarrow> sem = ex_sem e | Inr _ \<Rightarrow> Release 1 sem = ex_sem e"
    using acquireSlot_sem [OF acq admit_inv [OF ad inv]] same by (cases q) auto
  show ?thesis
  proof (cases q)
    case (Inl err)
    then have "e' = e"
      using ret ad acq sem same restored0 by (simp add: Execute_def)
    with inv show ?thesis by simp
  next
    case (Inr u)
    show ?thesis
    proof (cases "countStart e2")
      case (Inl err)
      then have "e' = e"
        using ret ad acq Inr sem same restored0 by (simp add: Execute_def releaseSlot_def)
      with inv show ?thesis by simp
    next
      case (Inr e3)
      note cs = countStart_Inr [OF this]
      have "e' = e\<lparr>ex_starts := ex_starts e + 1\<rparr>"
        using ret ad acq \<open>q = Inr u\<close> Inr cs sem same restored [of "ex_starts e + 1"]
        by (auto simp: Execute_def releaseSlot_def split: prod.splits)
      with cs sem same inv show ?thesis by (simp add: executorInv_def)
    qed
  qed
qed

section \<open>Results\<close>

lemma validateRequest_None:
  "validateRequest s req = None \<longleftrightarrow> rq_Args req \<noteq> [] \<and> 0 \<le> rq_Timeout req \<and> rq_Timeout req \<le> MaxPermittedTimeout \<and>
     0 \<le> rq_OutputCap req \<and> rq_OutputCap req \<le> MaxPermittedMaxOutputBytes"
  by (auto simp: validateRequest_def)

lemma effectiveCap_bounds:
  "\<lbrakk>validateRequest s req = None; validBudget (ex_budget e)\<rbrakk> \<Longrightarrow> 0 < effectiveCap e req \<and> effectiveCap e req \<le> 67108864"
  by (auto simp: validateRequest_None effectiveCap_def validBudget_def MaxPermittedMaxOutputBytes_def)

lemma finalResult_cases:
  assumes "finalResult e req b cap st store = (r, store')"
  shows "rs_OutputLimit r = cap \<and> rs_Stdout r = Stdout b \<and> rs_Stderr r = Stderr b \<and> rs_OutputTruncated r = Truncated b \<and>
    (rs_Error r = None \<longrightarrow> st_cleanupErr st = None \<and> st_triggerErr st = None \<and> \<not> Truncated b \<and> rs_ExitCode r = st_exitCode st) \<and>
    (rs_Error r = Some SharedDeadline \<longrightarrow> ee_Command (es_deadline store') = CommandLine req)"
proof (cases "st_cleanupErr st")
  case (Some err)
  then show ?thesis
    using assms by (auto simp: finalResult_def Let_def bufferResult_def)
next
  case None
  have "fst (assignContext (rootID e) (CommandLine req) ref store) = SharedDeadline \<Longrightarrow>
      ee_Command (es_deadline (snd (assignContext (rootID e) (CommandLine req) ref store))) = CommandLine req" for ref
    by (cases ref) (auto simp: stamp_def)
  then show ?thesis
    using assms None
    by (auto simp: finalResult_def Let_def bufferResult_def case_prod_beta split: option.splits if_splits)
qed

lemma contextInvariant_clean:
  "\<lbrakk>contextInvariant e run st = Some st'; st_triggerErr st' = None\<rbrakk> \<Longrightarrow> pr_ctx run = CtxLive \<and> st' = st"
  by (auto simp: contextInvariant_def contextError_def split: if_splits ctxState.splits)

text \<open>The context case is selected only after the context is done.\<close>

definition consistentRun :: "processRun \<Rightarrow> bool" where
  "consistentRun run \<longleftrightarrow> (pr_selected run = ByContext \<longrightarrow> pr_ctx run \<noteq> CtxLive)"

lemma awaitProcess_clean:
  assumes "awaitProcess e req run cap n = Some st" "st_triggerErr st = None" "st_cleanupErr st = None"
    and "consistentRun run" "pr_ctx run = CtxLive"
  shows "\<exists>s. (pr_selected run = ByWait (EndOk s) \<and> st_exitCode st = (case statusCode s of Some n \<Rightarrow> n | None \<Rightarrow> 0)
    \<or> pr_selected run = ByWait (EndExit s) \<and> st_exitCode st = (case statusCode s of Some n \<Rightarrow> n | None \<Rightarrow> -1))"
proof (cases "pr_selected run")
  case (ByWait w)
  with assms show ?thesis
    by (cases w) (auto simp: awaitProcess_def completed_def Let_def)
qed (use assms in \<open>auto simp: awaitProcess_def consistentRun_def contextError_def Let_def\<close>)

lemma captured_bytes:
  assumes "captureRun cap ws = Inr b" "0 \<le> cap" "\<not> Truncated b"
  shows "Stdout b = onStream OnStdout (outputLog ws) \<and> Stderr b = onStream OnStderr (outputLog ws) \<and> int (length (outputLog ws)) \<le> cap"
  using assms captureRun_spec [of cap ws] by (auto simp: specBuffer_def Stdout_def Stderr_def Truncated_def)

lemma Execute_ran:
  assumes "Execute env req e store = (Some r, e', store')"
  shows "(\<exists>err. r = NewErrorResult err) \<or>
    (\<exists>e3. ex_budget e3 = ex_budget e \<and> ex_root e3 = ex_root e \<and> validateRequest (xe_showTimeout env) req = None \<and>
      runProcess env req e3 store = (Some r, store'))"
proof (cases "admit env req e")
  case (Inr a)
  then obtain fp e1 where ad: "admit env req e = Inr (fp, e1)"
    by (cases a) auto
  then have e1: "ex_budget e1 = ex_budget e" "ex_root e1 = ex_root e" "validateRequest (xe_showTimeout env) req = None"
    using admit_Inr by fastforce+
  from assms ad obtain q e2 where acq: "acquireSlot env e1 = Some (q, e2)"
    by (cases "acquireSlot env e1") (auto simp: Execute_def)
  then have e2: "ex_budget e2 = ex_budget e1" "ex_root e2 = ex_root e1"
    by (auto simp: acquireSlot_def)
  show ?thesis
    using assms ad acq e1 e2 countStart_Inr [of e2]
    by (cases q; cases "countStart e2") (auto simp: Execute_def split: prod.splits)
qed (use assms in \<open>auto simp: Execute_def\<close>)

text \<open>
  C23. A successful result is genuine: when \<open>Execute\<close> reports success, the process was started and
  ended by itself with status 0, the context was still alive, no cleanup failed, and the
  captured output is everything the process wrote, at most 64 MiB.
\<close>

theorem execute_success_genuine:
  assumes budget: "validBudget (ex_budget e)" and consistent: "consistentRun (xe_run env)"
    and ret: "Execute env req e store = (Some r, e', store')" and ok: "Result_Success r"
  shows "pr_startErr (xe_run env) = None \<and> pr_ctx (xe_run env) = CtxLive
    \<and> (\<exists>s. pr_selected (xe_run env) \<in> {ByWait (EndOk s), ByWait (EndExit s)} \<and> statusCode s \<in> {None, Some 0})
    \<and> rs_Stdout r = onStream OnStdout (outputLog (pr_writes (xe_run env)))
    \<and> rs_Stderr r = onStream OnStderr (outputLog (pr_writes (xe_run env)))
    \<and> \<not> rs_OutputTruncated r \<and> length (outputLog (pr_writes (xe_run env))) \<le> 67108864"
proof -
  let ?run = "xe_run env"
  have err: "rs_Error r = None" "rs_ExitCode r = 0"
    using ok by (simp_all add: Result_Success_def)
  then obtain e3 where e3: "ex_budget e3 = ex_budget e" "validateRequest (xe_showTimeout env) req = None"
    "runProcess env req e3 store = (Some r, store')"
    using Execute_ran [OF ret] by (auto simp: NewErrorResult_def)
  let ?cap = "effectiveCap e3 req"
  have cap: "0 < ?cap" "?cap \<le> 67108864"
    using effectiveCap_bounds e3(1,2) budget by metis+
  have start: "pr_startErr ?run = None"
    using e3(3) err by (auto simp: runProcess_def Let_def bufferResult_def split: option.splits sum.splits)
  then obtain b st0 st where b: "captureRun ?cap (pr_writes ?run) = Inr b"
    and st: "awaitProcess e3 req ?run ?cap (BytesObserved b) = Some st0" "contextInvariant e3 ?run st0 = Some st"
    and fin: "finalResult e3 req b ?cap st store = (r, store')"
    using e3(3) by (auto simp: runProcess_def Let_def bind_eq_Some_conv split: option.splits sum.splits prod.splits)
  note final = finalResult_cases [OF fin]
  have clean: "pr_ctx ?run = CtxLive" "st = st0" "st_triggerErr st0 = None" "st_cleanupErr st0 = None" "st_exitCode st0 = 0"
    using contextInvariant_clean [OF st(2)] final err by auto
  obtain s where "pr_selected ?run = ByWait (EndOk s) \<and> (case statusCode s of Some n \<Rightarrow> n | None \<Rightarrow> 0) = 0
      \<or> pr_selected ?run = ByWait (EndExit s) \<and> (case statusCode s of Some n \<Rightarrow> n | None \<Rightarrow> -1) = 0"
    using awaitProcess_clean [OF st(1) clean(3,4) consistent clean(1)] clean(5) by auto
  then have "pr_selected ?run \<in> {ByWait (EndOk s), ByWait (EndExit s)} \<and> statusCode s \<in> {None, Some 0}"
    by (auto split: option.splits)
  moreover have "\<not> Truncated b"
    using final err by simp
  ultimately show ?thesis
    using captured_bytes [OF b] cap start clean final by auto
qed

section \<open>Deadlines\<close>

text \<open>
  C35. The effective deadline of an admitted request is never later than ten minutes from now, the
  deadline of the budget, or the deadline of the calling context, and it is one of these, the request's own
  timeout or the default timeout.
\<close>

theorem effective_deadline_bounded:
  assumes "validateRequest s req = None"
  shows "let d = computeEffectiveDeadline now ctx b req in
      d \<le> now + MaxPermittedTimeout \<and> (bu_Deadline b \<noteq> 0 \<longrightarrow> d \<le> bu_Deadline b) \<and> (\<forall>c. ctx = Some c \<longrightarrow> d \<le> c) \<and>
      (d = now + (if rq_Timeout req > 0 then rq_Timeout req else DefaultTimeout) \<or> d = bu_Deadline b \<or> ctx = Some d)"
  using assms
  by (auto simp: computeEffectiveDeadline_def validateRequest_None Let_def DefaultTimeout_def MaxPermittedTimeout_def
      nsSecond_def split: option.splits)

section \<open>Every call returns\<close>

lemma terminateAndDrain_total:
  assumes "cleanupSleeps (pr_cleanup run)" and "sleeps (wr_clock (snd (pr_escalation run)))"
  shows "terminateAndDrain e run \<noteq> None"
  using terminate_total [OF assms(1), of "ex_budget e" "pr_pid run"]
    escalate_total [OF assms(2), of "ex_budget e" "pr_pid run" "fst (pr_escalation run)"]
  by (auto simp: terminateAndDrain_def split: option.splits)

lemma awaitProcess_total:
  assumes "cleanupSleeps (pr_cleanup run)" and "sleeps (wr_clock (snd (pr_escalation run)))"
  shows "awaitProcess e req run cap n \<noteq> None"
  using terminateAndDrain_total [OF assms, of e] terminate_total [OF assms(1), of "ex_budget e" "pr_pid run"]
  by (auto simp: awaitProcess_def completed_def Let_def split: selected.splits waitEnd.splits)

definition runSleeps :: "processRun \<Rightarrow> bool" where
  "runSleeps run \<longleftrightarrow> cleanupSleeps (pr_cleanup run) \<and> sleeps (wr_clock (snd (pr_escalation run))) \<and> cleanupSleeps (pr_finalCleanup run)"

lemma contextInvariant_total: "cleanupSleeps (pr_finalCleanup run) \<Longrightarrow> contextInvariant e run st \<noteq> None"
  using terminate_total [of "pr_finalCleanup run" "ex_budget e" "pr_pid run"] by (auto simp: contextInvariant_def)

lemma runProcess_total:
  assumes "runSleeps (xe_run env)" and "0 \<le> effectiveCap e req"
    and "buildEnv (xe_environ env) (xe_pid env) (ex_root e) req \<noteq> None"
  shows "\<exists>r store'. runProcess env req e store = (Some r, store')"
proof -
  obtain b where b: "captureRun (effectiveCap e req) (pr_writes (xe_run env)) = Inr b"
    using captureRun_spec [OF assms(2)] by blast
  obtain st0 where st0: "awaitProcess e req (xe_run env) (effectiveCap e req) (BytesObserved b) = Some st0"
    using awaitProcess_total assms(1) unfolding runSleeps_def by (metis not_None_eq)
  obtain st where "contextInvariant e (xe_run env) st0 = Some st"
    using contextInvariant_total assms(1) unfolding runSleeps_def by (metis not_None_eq)
  moreover obtain nb where "newSharedOutputBuffer (effectiveCap e req) = Inr nb"
    using assms(2) by (auto simp: newSharedOutputBuffer_def)
  ultimately show ?thesis
    using b st0 assms(3) by (auto simp: runProcess_def Let_def split: option.splits prod.splits)
qed

text \<open>
  C25. Every call returns a result, whatever the process does, under three conditions on its environment: the
  scheduler serves the call, so that it either takes a free slot or sees the end of its context; the inherited
  environment is well formed where it is rewritten; and \<open>time.Sleep\<close> pauses for its ten
  milliseconds between two polls of the process group (the first two readings of the clock may agree, for nothing
  sleeps between them).  The budget is validated and the semaphore has its capacity, as \<open>NewExecutor\<close> builds it.
\<close>

theorem execute_returns:
  assumes "validBudget (ex_budget e)" and "executorInv e" and "sm_limit (ex_sem e) = bu_MaxConcurrent (ex_budget e)"
    and choice: "xe_choices env = c # cs" "c = Sent \<longrightarrow> sm_count (ex_sem e) < sm_limit (ex_sem e)"
    and environ: "ex_root e = None \<or> rq_Env req \<noteq> [] \<or> (\<forall>k \<in> set protectedKeys. safeFor k (xe_environ env))"
    and sleep: "runSleeps (xe_run env)"
  shows "\<exists>r e' store'. Execute env req e store = (Some r, e', store')"
proof (cases "admit env req e")
  case (Inr a)
  then obtain fp e1 where ad: "admit env req e = Inr (fp, e1)"
    by (cases a) auto
  then have e1: "ex_budget e1 = ex_budget e" "ex_root e1 = ex_root e" "ex_sem e1 = ex_sem e" "validateRequest (xe_showTimeout env) req = None"
    using admit_Inr by fastforce+
  have "1 \<le> sm_limit (ex_sem e)"
    using assms(1,3) by (simp add: validBudget_def)
  then obtain q e2 where acq: "acquireSlot env e1 = Some (q, e2)"
    using choice e1(3) by (cases c) (auto simp: acquireSlot_def Acquire_def acquireLoop.simps)
  then have e2: "ex_budget e2 = ex_budget e" "ex_root e2 = ex_root e"
    using e1 by (auto simp: acquireSlot_def)
  have run: "\<exists>r store'. runProcess env req e3 store = (Some r, store')" if "countStart e2 = Inr e3" for e3
  proof (rule runProcess_total [OF sleep])
    have e3: "ex_budget e3 = ex_budget e" "ex_root e3 = ex_root e"
      using countStart_Inr [OF that] e2 by auto
    show "0 \<le> effectiveCap e3 req"
      using effectiveCap_bounds [OF e1(4), of e3] assms(1) e3 by simp
    show "buildEnv (xe_environ env) (xe_pid env) (ex_root e3) req \<noteq> None"
      using environ three_updates [of "if length (rq_Env req) > 0 then mergeEnvironment (xe_environ env) (rq_Env req) else xe_environ env"]
        protected_facts(1-3)
      by (fastforce simp: buildEnv_def e3 Let_def merge_safe protectedKeys_def split: option.splits)
  qed
  show ?thesis
    using ad acq run by (cases q; cases "countStart e2") (auto simp: Execute_def split: prod.splits)
qed (simp add: Execute_def)

section \<open>Shared error values\<close>

text \<open>
  \<open>ErrDeadlineExceeded\<close> is one shared object that \<open>Execute\<close> stamps with the command of the
  current call.  When two started commands run into their deadlines one after the other, the error held by the
  result of the first names the command of the second.
\<close>

theorem deadline_error_overwritten:
  assumes "Execute env1 req1 e s0 = (Some r1, e1, s1)" and "rs_Error r1 = Some SharedDeadline"
    and second: "Execute env2 req2 e1 s1 = (Some r2, e2, s2)" and "rs_Error r2 = Some SharedDeadline" and "rs_OutputLimit r2 \<noteq> 0"
  shows "ee_Command (deref s2 (the (rs_Error r1))) = CommandLine req2"
proof -
  obtain e3 where run: "runProcess env2 req2 e3 s1 = (Some r2, s2)"
    using Execute_ran [OF second] assms(5) by (auto simp: NewErrorResult_def)
  then obtain b cap st where "finalResult e3 req2 b cap st s1 = (r2, s2)"
    using assms(4) by (auto simp: runProcess_def Let_def bufferResult_def split: option.splits sum.splits prod.splits)
  from finalResult_cases [OF this] assms(2,4) show ?thesis by simp
qed

section \<open>Witnesses\<close>

definition goneRun :: cleanupRun where
  "goneRun = (let w = \<lparr>wr_clock = pausingClock, wr_probe = (\<lambda>_. ESRCH)\<rparr>
     in \<lparr>cl_grace = w, cl_kill = ESRCH, cl_postKill = w\<rparr>)"

definition demoExecutor :: Executor where
  "demoExecutor = \<lparr>ex_budget = DefaultBudget 1, ex_starts = 0, ex_startsLimit = 64, ex_sem = newContextSemaphore 4,
     ex_maxTaskDepth = 8, ex_cycleDetector = NewCycleDetector, ex_root = None\<rparr>"

definition demoRequest :: "string \<Rightarrow> Request" where
  "demoRequest name = \<lparr>rq_Name = name, rq_Args = [name], rq_Dir = '''', rq_Env = [], rq_Timeout = 0, rq_OutputCap = 0,
     rq_Fingerprint = name, rq_TaskDepth = 0\<rparr>"

definition demoEnv :: "selected \<Rightarrow> ctxState \<Rightarrow> execEnv" where
  "demoEnv sel ctx = \<lparr>xe_start = 1, xe_now = 1, xe_ctxDeadline = None, xe_showTimeout = '''', xe_resolve = (\<lambda>_. None),
     xe_choices = [Sent], xe_semCtx = CtxLive, xe_environ = [], xe_pid = 7,
     xe_run = \<lparr>pr_startErr = None, pr_pid = 42, pr_writes = [(OnStdout, ''ok'')], pr_selected = sel,
       pr_drain = Some (EndContext ''signal: terminated''), pr_ctx = ctx, pr_cleanup = goneRun,
       pr_escalation = (ESRCH, cl_postKill goneRun), pr_finalCleanup = goneRun\<rparr>\<rparr>"

lemma goneRun_terminates: "terminateProcessTree (DefaultBudget 1) pid goneRun = Some None"
  by (simp add: terminateProcessTree_def waitForProcessGroup_def waitLoop.simps goneRun_def Let_def DefaultBudget_def nsSecond_def
      pausingClock_def)

lemma demo_capture: "captureRun 8388608 [(OnStdout, ''ok'')] = Inr (specBuffer 8388608 (outputLog [(OnStdout, ''ok'')]))"
  by (rule captureRun_spec) simp

lemma demo_admit:
  "\<not> IsActive (ex_cycleDetector (demoExecutor\<lparr>ex_starts := n\<rparr>)) name \<Longrightarrow> name \<noteq> '''' \<Longrightarrow>
   admit (demoEnv sel ctx) (demoRequest name) (demoExecutor\<lparr>ex_starts := n\<rparr>) =
     Inr (name, demoExecutor\<lparr>ex_starts := n,
       ex_cycleDetector := \<lparr>cd_active = [name \<mapsto> ()], cd_fingerprints = [name \<mapsto> name]\<rparr>\<rparr>)"
  by (simp add: admit_def demoEnv_def demoRequest_def demoExecutor_def computeEffectiveDeadline_def DefaultBudget_def DefaultTimeout_def
      nsSecond_def validateRequest_def MaxPermittedTimeout_def MaxPermittedMaxOutputBytes_def checkTaskDepth_def checkSelfExecution_def
      requestFingerprint_def CheckAndTrack_def NewCycleDetector_def Let_def)

lemma demo_execute:
  assumes "name \<noteq> ''''" and "n < 64"
  shows "Execute (demoEnv sel ctx) (demoRequest name) (demoExecutor\<lparr>ex_starts := n\<rparr>) store =
    (let (r, store') = runProcess (demoEnv sel ctx) (demoRequest name)
       (demoExecutor\<lparr>ex_starts := n + 1, ex_sem := \<lparr>sm_count = 1, sm_limit = 4\<rparr>,
         ex_cycleDetector := \<lparr>cd_active = [name \<mapsto> ()], cd_fingerprints = [name \<mapsto> name]\<rparr>\<rparr>) store
     in (r, demoExecutor\<lparr>ex_starts := n + 1\<rparr>, store'))"
proof -
  have "\<not> IsActive (ex_cycleDetector (demoExecutor\<lparr>ex_starts := n\<rparr>)) name"
    by (simp add: IsActive_def demoExecutor_def NewCycleDetector_def)
  note ad = demo_admit [OF this assms(1)]
  have "\<not> 64 \<le> n"
    using assms(2) by (simp add: not_le)
  then show ?thesis
    by (simp add: Execute_def ad)
      (simp add: demoExecutor_def acquireSlot_def demoEnv_def newContextSemaphore_def Acquire_def acquireLoop.simps countStart_def
        releaseSlot_def untrackCall_def Release_def releaseLoop.simps Untrack_def NewCycleDetector_def)
qed

lemma demo_run_ok:
  "runProcess (demoEnv (ByWait (EndOk (Exited 0))) CtxLive) (demoRequest name) (demoExecutor\<lparr>ex_starts := n, ex_sem := sem, ex_cycleDetector := d\<rparr>) store =
    (Some (bufferResult (specBuffer 8388608 (outputLog [(OnStdout, ''ok'')])) 8388608 0 False None), store)"
  by (simp add: runProcess_def buildEnv_def demoExecutor_def demoEnv_def demoRequest_def effectiveCap_def DefaultBudget_def demo_capture
      awaitProcess_def completed_def contextInvariant_def statusCode_def finalResult_def Let_def)
    (simp add: specBuffer_def Truncated_def outputLog_def)

lemma demo_run_deadline:
  "runProcess (demoEnv ByContext CtxDeadlineExceeded) (demoRequest name) (demoExecutor\<lparr>ex_starts := n, ex_sem := sem, ex_cycleDetector := d\<rparr>) store =
    (Some (bufferResult (specBuffer 8388608 (outputLog [(OnStdout, ''ok'')])) 8388608 (-1) False (Some SharedDeadline)),
     store\<lparr>es_deadline := stamp '''' name (es_deadline store)\<rparr>)"
proof -
  have "\<not> Truncated (specBuffer 8388608 (outputLog [(OnStdout, ''ok'')]))"
    by (simp add: specBuffer_def Truncated_def outputLog_def)
  moreover have "bu_MaxOutputBytes (DefaultBudget 1) = 8388608"
    by (simp add: DefaultBudget_def)
  ultimately show ?thesis
    by (simp add: runProcess_def buildEnv_def demoExecutor_def demoEnv_def demoRequest_def effectiveCap_def demo_capture
        awaitProcess_def terminateAndDrain_def goneRun_terminates isWaitDelay_def contextError_def contextInvariant_def
        finalResult_def rootID_def CommandLine_def Let_def)
qed

lemma demo_sleeps: "runSleeps (xe_run (demoEnv sel ctx))"
  by (simp add: runSleeps_def cleanupSleeps_def demoEnv_def goneRun_def pausingClock_sleeps Let_def)

lemma demo_budget: "validBudget (ex_budget (demoExecutor\<lparr>ex_starts := n\<rparr>))"
  by (simp add: demoExecutor_def validBudget_def DefaultBudget_def nsSecond_def word_less_nat_alt word_le_nat_alt)

lemma demo_inv: "n \<le> 64 \<Longrightarrow> executorInv (demoExecutor\<lparr>ex_starts := n\<rparr>)"
  by (simp add: executorInv_def demoExecutor_def newContextSemaphore_def NewCycleDetector_def)

theorem execute_restores_guards_witness:
  "\<exists>r e' store'. Execute (demoEnv (ByWait (EndOk (Exited 0))) CtxLive) (demoRequest ''ls'') (demoExecutor\<lparr>ex_starts := 0\<rparr>) initialStore = (Some r, e', store')
    \<and> executorInv e' \<and> ex_sem e' = ex_sem demoExecutor"
proof -
  obtain r e' store' where r: "Execute (demoEnv (ByWait (EndOk (Exited 0))) CtxLive) (demoRequest ''ls'') (demoExecutor\<lparr>ex_starts := 0\<rparr>) initialStore = (Some r, e', store')"
    by (simp add: demo_execute demo_run_ok)
  have "executorInv (demoExecutor\<lparr>ex_starts := 0\<rparr>)"
    by (rule demo_inv) simp
  from execute_restores_guards [OF this r] have "e' = demoExecutor\<lparr>ex_starts := ex_starts e'\<rparr>" "executorInv e'"
    by simp_all
  then have "executorInv e' \<and> ex_sem e' = ex_sem demoExecutor"
    by (metis Executor.select_convs(4) Executor.surjective Executor.update_convs(2))
  with r show ?thesis by blast
qed

theorem execute_success_genuine_witness:
  "\<exists>r e' store'. Execute (demoEnv (ByWait (EndOk (Exited 0))) CtxLive) (demoRequest ''ls'') (demoExecutor\<lparr>ex_starts := 0\<rparr>) initialStore = (Some r, e', store')
    \<and> Result_Success r \<and> rs_Stdout r = ''ok''"
proof -
  obtain r e' store' where r: "Execute (demoEnv (ByWait (EndOk (Exited 0))) CtxLive) (demoRequest ''ls'') (demoExecutor\<lparr>ex_starts := 0\<rparr>) initialStore = (Some r, e', store')"
    and ok: "Result_Success r"
    by (simp add: demo_execute demo_run_ok bufferResult_def Result_Success_def)
  have "consistentRun (xe_run (demoEnv (ByWait (EndOk (Exited 0))) CtxLive))"
    by (simp add: consistentRun_def demoEnv_def)
  from execute_success_genuine [OF demo_budget this r ok] r ok show ?thesis
    by (auto simp: demoEnv_def outputLog_def onStream_def)
qed

theorem effective_deadline_bounded_witness:
  "computeEffectiveDeadline 5 (Some 9) (DefaultBudget 1) (demoRequest ''ls'') \<le> 9"
proof -
  have "validateRequest '''' (demoRequest ''ls'') = None"
    by (simp add: validateRequest_None demoRequest_def MaxPermittedTimeout_def MaxPermittedMaxOutputBytes_def nsSecond_def)
  from effective_deadline_bounded [OF this, of 5 "Some 9" "DefaultBudget 1"] show ?thesis
    by (simp add: Let_def)
qed

theorem execute_returns_witness:
  "\<exists>r e' store'. Execute (demoEnv ByContext CtxDeadlineExceeded) (demoRequest ''ls'') (demoExecutor\<lparr>ex_starts := 0\<rparr>) initialStore = (Some r, e', store')"
proof (rule execute_returns [OF demo_budget])
  show "executorInv (demoExecutor\<lparr>ex_starts := 0\<rparr>)"
    by (rule demo_inv) simp
  show "xe_choices (demoEnv ByContext CtxDeadlineExceeded) = Sent # []"
    by (simp add: demoEnv_def)
  show "runSleeps (xe_run (demoEnv ByContext CtxDeadlineExceeded))"
    by (rule demo_sleeps)
qed (simp_all add: demoExecutor_def newContextSemaphore_def DefaultBudget_def)

theorem deadline_error_overwritten_witness:
  "\<exists>r1 e1 s1 r2 e2 s2. Execute (demoEnv ByContext CtxDeadlineExceeded) (demoRequest ''ls'') (demoExecutor\<lparr>ex_starts := 0\<rparr>) initialStore = (Some r1, e1, s1)
    \<and> ee_Command (deref s1 (the (rs_Error r1))) = ''ls''
    \<and> Execute (demoEnv ByContext CtxDeadlineExceeded) (demoRequest ''go'') e1 s1 = (Some r2, e2, s2)
    \<and> ee_Command (deref s2 (the (rs_Error r1))) = ''go''"
proof -
  let ?s1 = "initialStore\<lparr>es_deadline := stamp '''' ''ls'' (es_deadline initialStore)\<rparr>"
  let ?r = "bufferResult (specBuffer 8388608 (outputLog [(OnStdout, ''ok'')])) 8388608 (-1) False (Some SharedDeadline)"
  have first: "Execute (demoEnv ByContext CtxDeadlineExceeded) (demoRequest ''ls'') (demoExecutor\<lparr>ex_starts := 0\<rparr>) initialStore =
      (Some ?r, demoExecutor\<lparr>ex_starts := 1\<rparr>, ?s1)"
    by (simp add: demo_execute demo_run_deadline)
  obtain e2 s2 where second: "Execute (demoEnv ByContext CtxDeadlineExceeded) (demoRequest ''go'') (demoExecutor\<lparr>ex_starts := 1\<rparr>) ?s1 = (Some ?r, e2, s2)"
    by (simp add: demo_execute demo_run_deadline)
  have "ee_Command (deref s2 (the (rs_Error ?r))) = ''go''"
    using deadline_error_overwritten [OF first _ second] by (simp add: bufferResult_def CommandLine_def demoRequest_def)
  moreover have "ee_Command (deref ?s1 (the (rs_Error ?r))) = ''ls''"
    by (simp add: bufferResult_def stamp_def)
  ultimately show ?thesis
    using first second by blast
qed

end
