(* ===== verification/Exec_Concurrency.thy ===== *)
theory Exec_Concurrency
  imports Exec_Executor
begin

text \<open>
  Calls of \<open>Execute\<close> that run at the same time on one executor.  The mutexes and the channel of
  the semaphore make each phase of a call atomic, so a concurrent run is an interleaving of phases
  of the calls in flight.  The step relation uses the phase functions of
  \<open>Exec_Executor\<close> unchanged; \<open>progress\<close> is the part of it in which calls go on
  without any of them giving up.

  The lemmas are an invariant by rule induction and that calls in flight can always finish.
\<close>

section \<open>Interleavings\<close>

datatype phase = Queued string | Slotted string | Running string

primrec phaseFP :: "phase \<Rightarrow> string" where
  "phaseFP (Queued fp) = fp"
| "phaseFP (Slotted fp) = fp"
| "phaseFP (Running fp) = fp"

type_synonym config = "Executor \<times> (nat \<rightharpoonup> phase)"

inductive progress :: "config \<Rightarrow> config \<Rightarrow> bool" where
  takeSlot: "\<lbrakk>calls c = Some (Queued fp); acquireSlot env e = Some (Inr u, e')\<rbrakk> \<Longrightarrow>
     progress (e, calls) (e', calls(c \<mapsto> Slotted fp))"
| start: "\<lbrakk>calls c = Some (Slotted fp); countStart e = Inr e'\<rbrakk> \<Longrightarrow> progress (e, calls) (e', calls(c \<mapsto> Running fp))"
| refuseStart: "\<lbrakk>calls c = Some (Slotted fp); countStart e = Inl err\<rbrakk> \<Longrightarrow>
     progress (e, calls) (untrackCall fp (releaseSlot e), calls(c := None))"
| finish: "calls c = Some (Running fp) \<Longrightarrow> progress (e, calls) (untrackCall fp (releaseSlot e), calls(c := None))"

inductive estep :: "config \<Rightarrow> config \<Rightarrow> bool" where
  advance: "progress x y \<Longrightarrow> estep x y"
| call: "\<lbrakk>calls c = None; admit env req e = Inr (fp, e')\<rbrakk> \<Longrightarrow> estep (e, calls) (e', calls(c \<mapsto> Queued fp))"
| refuse: "admit env req e = Inl err \<Longrightarrow> estep (e, calls) (e, calls)"
| giveUp: "\<lbrakk>calls c = Some (Queued fp); acquireSlot env e = Some (Inl err, e')\<rbrakk> \<Longrightarrow>
     estep (e, calls) (untrackCall fp e', calls(c := None))"

inductive_cases progressE: "progress (e, calls) y"
inductive_cases estepE: "estep (e, calls) y"

section \<open>The invariant\<close>

definition holders :: "(nat \<rightharpoonup> phase) \<Rightarrow> nat set" where
  "holders calls = {c. \<exists>fp. calls c = Some (Slotted fp) \<or> calls c = Some (Running fp)}"

definition runners :: "(nat \<rightharpoonup> phase) \<Rightarrow> nat set" where
  "runners calls = {c. \<exists>fp. calls c = Some (Running fp)}"

definition inFlight :: "(nat \<rightharpoonup> phase) \<Rightarrow> nat \<Rightarrow> string" where
  "inFlight calls c = phaseFP (the (calls c))"

definition concInv :: "Executor \<Rightarrow> config \<Rightarrow> bool" where
  "concInv e0 x \<longleftrightarrow> (case x of (e, calls) \<Rightarrow>
     executorInv e \<and> finite (dom calls) \<and> sm_limit (ex_sem e) = sm_limit (ex_sem e0) \<and> ex_startsLimit e = ex_startsLimit e0 \<and>
     sm_count (ex_sem e) = int (card (holders calls)) \<and>
     dom (cd_active (ex_cycleDetector e)) = inFlight calls ` dom calls \<and> inj_on (inFlight calls) (dom calls) \<and>
     int (card (runners calls)) \<le> uint (ex_starts e))"

lemma holders_finite: "finite (dom calls) \<Longrightarrow> finite (holders calls)"
  by (rule finite_subset [of _ "dom calls"]) (auto simp: holders_def)

lemma runners_finite: "finite (dom calls) \<Longrightarrow> finite (runners calls)"
  by (rule finite_subset [of _ "dom calls"]) (auto simp: runners_def)

lemma runners_holders: "runners calls \<subseteq> holders calls"
  by (auto simp: runners_def holders_def)

lemma holders_upd:
  "holders (calls(c \<mapsto> Queued fp)) = holders calls - {c}" "holders (calls(c \<mapsto> Slotted fp)) = insert c (holders calls)"
  "holders (calls(c \<mapsto> Running fp)) = insert c (holders calls)" "holders (calls(c := None)) = holders calls - {c}"
  by (auto simp: holders_def)

lemma runners_upd:
  "runners (calls(c \<mapsto> Queued fp)) = runners calls - {c}" "runners (calls(c \<mapsto> Slotted fp)) = runners calls - {c}"
  "runners (calls(c \<mapsto> Running fp)) = insert c (runners calls)" "runners (calls(c := None)) = runners calls - {c}"
  by (auto simp: runners_def)

text \<open>Moving on inside a call keeps the fingerprints, ending a call removes one.\<close>

lemma fingerprints_move:
  assumes "calls c = Some p" and "phaseFP q = phaseFP p"
  shows "dom (calls(c \<mapsto> q)) = dom calls" and "inFlight (calls(c \<mapsto> q)) = inFlight calls"
  using assms by (auto simp: inFlight_def fun_eq_iff)

lemma fingerprints_end:
  assumes "calls c = Some p" and "inj_on (inFlight calls) (dom calls)"
  shows "inFlight (calls(c := None)) ` dom (calls(c := None)) = inFlight calls ` dom calls - {phaseFP p}"
    and "inj_on (inFlight (calls(c := None))) (dom (calls(c := None)))"
proof -
  have same: "inFlight (calls(c := None)) d = inFlight calls d" if "d \<noteq> c" for d
    using that by (simp add: inFlight_def)
  have "inFlight calls c = phaseFP p" "c \<in> dom calls"
    using assms(1) by (auto simp: inFlight_def)
  then have "inFlight calls ` (dom calls - {c}) = inFlight calls ` dom calls - {phaseFP p}"
    using inj_on_image_set_diff [OF assms(2), of "dom calls" "{c}"] by auto
  moreover have "inFlight (calls(c := None)) ` dom (calls(c := None)) = inFlight calls ` (dom calls - {c})"
    using same by (auto simp: image_iff)
  ultimately show "inFlight (calls(c := None)) ` dom (calls(c := None)) = inFlight calls ` dom calls - {phaseFP p}"
    by simp
  show "inj_on (inFlight (calls(c := None))) (dom (calls(c := None)))"
    using assms(2) same by (auto simp: inj_on_def)
qed

lemma release_guards:
  assumes "executorInv e" "0 < sm_count (ex_sem e)"
  shows "executorInv (untrackCall fp (releaseSlot e))" "sm_count (ex_sem (untrackCall fp (releaseSlot e))) = sm_count (ex_sem e) - 1"
    "sm_limit (ex_sem (untrackCall fp (releaseSlot e))) = sm_limit (ex_sem e)"
    "dom (cd_active (ex_cycleDetector (untrackCall fp (releaseSlot e)))) = dom (cd_active (ex_cycleDetector e)) - {fp}"
    "ex_starts (untrackCall fp (releaseSlot e)) = ex_starts e" "ex_startsLimit (untrackCall fp (releaseSlot e)) = ex_startsLimit e"
  using assms by (auto simp: executorInv_def untrackCall_def releaseSlot_def Release_count Untrack_def)

text \<open>The two ways a call that holds a slot ends.\<close>

lemma end_call_inv:
  assumes inv: "concInv e0 (e, calls)" and c: "calls c = Some p" "c \<in> holders calls"
  shows "concInv e0 (untrackCall (phaseFP p) (releaseSlot e), calls(c := None))"
proof -
  have e: "executorInv e" and fin: "finite (dom calls)" and cnt: "sm_count (ex_sem e) = int (card (holders calls))"
    and run: "int (card (runners calls)) \<le> uint (ex_starts e)" and inj: "inj_on (inFlight calls) (dom calls)"
    using inv by (auto simp: concInv_def)
  have pos: "card (holders calls) > 0"
    using c(2) holders_finite [OF fin] card_gt_0_iff by blast
  have "card (runners calls - {c}) \<le> card (runners calls)"
    by (rule card_mono) (use runners_finite [OF fin] in auto)
  then show ?thesis
    using inv pos cnt run release_guards [OF e, of "phaseFP p"] fingerprints_end [OF c(1) inj] holders_finite [OF fin] c
    by (auto simp: concInv_def holders_upd runners_upd card_Diff_singleton_if)
qed

section \<open>Preservation\<close>

lemma takeSlot_inv:
  assumes inv: "concInv e0 (e, calls)" and c: "calls c = Some (Queued fp)" and acq: "acquireSlot env e = Some (Inr u, e')"
  shows "concInv e0 (e', calls(c \<mapsto> Slotted fp))"
proof -
  have e: "executorInv e" and fin: "finite (dom calls)"
    using inv by (auto simp: concInv_def)
  obtain sem where sem: "e' = e\<lparr>ex_sem := sem\<rparr>" "sm_count sem = sm_count (ex_sem e) + 1" "sm_count sem \<le> sm_limit sem"
    "Release 1 sem = ex_sem e"
    using acquireSlot_sem [OF acq e] by auto
  have "sm_limit sem = sm_limit (ex_sem e)"
    using arg_cong [OF sem(4), of sm_limit] sem(2) e Release_count [of sem 1] by (simp add: executorInv_def)
  moreover have "c \<notin> holders calls" "c \<notin> runners calls"
    using c by (auto simp: holders_def runners_def)
  moreover have "executorInv e'"
    using e sem by (simp add: executorInv_def)
  ultimately show ?thesis
    using inv sem holders_finite [OF fin] fingerprints_move [of calls c "Queued fp" "Slotted fp"] c
    by (simp add: concInv_def holders_upd runners_upd)
qed

lemma start_inv:
  assumes inv: "concInv e0 (e, calls)" and c: "calls c = Some (Slotted fp)" and cs: "countStart e = Inr e'"
  shows "concInv e0 (e', calls(c \<mapsto> Running fp))"
proof -
  have fin: "finite (dom calls)"
    using inv by (auto simp: concInv_def)
  have "executorInv e"
    using inv by (simp add: concInv_def)
  then have "executorInv e'"
    using countStart_Inr [OF cs] by (simp add: executorInv_def)
  moreover have "c \<in> holders calls" "c \<notin> runners calls"
    using c by (auto simp: holders_def runners_def)
  ultimately show ?thesis
    using inv countStart_Inr [OF cs] runners_finite [OF fin] fingerprints_move [of calls c "Slotted fp" "Running fp"] c
    by (simp add: concInv_def holders_upd runners_upd insert_absorb)
qed

lemma progress_inv: "progress x y \<Longrightarrow> concInv e0 x \<Longrightarrow> concInv e0 y"
proof (induction rule: progress.induct)
  case (takeSlot calls c fp env e u e')
  then show ?case by (intro takeSlot_inv)
next
  case (start calls c fp e e')
  then show ?case by (intro start_inv)
next
  case (refuseStart calls c fp e err)
  then have "c \<in> holders calls"
    by (auto simp: holders_def)
  with refuseStart end_call_inv [of e0 e calls c "Slotted fp"] show ?case by simp
next
  case (finish calls c fp e)
  then have "c \<in> holders calls"
    by (auto simp: holders_def)
  with finish end_call_inv [of e0 e calls c "Running fp"] show ?case by simp
qed

lemma call_inv:
  assumes inv: "concInv e0 (e, calls)" and c: "calls c = None" and ad: "admit env req e = Inr (fp, e')"
  shows "concInv e0 (e', calls(c \<mapsto> Queued fp))"
proof -
  obtain d where d: "CheckAndTrack fp (rq_Name req) (ex_cycleDetector e) = Inr d" "e' = e\<lparr>ex_cycleDetector := d\<rparr>"
    using admit_Inr(3) [OF ad] by blast
  have e: "executorInv e" and act: "dom (cd_active (ex_cycleDetector e)) = inFlight calls ` dom calls"
    and inj: "inj_on (inFlight calls) (dom calls)"
    using inv by (auto simp: concInv_def)
  have new: "dom (cd_active d) = insert fp (inFlight calls ` dom calls)" "fp \<notin> inFlight calls ` dom calls"
    using dom_CheckAndTrack [OF d(1)] act by auto
  have same: "inFlight (calls(c \<mapsto> Queued fp)) d = (if d = c then fp else inFlight calls d)" for d
    by (simp add: inFlight_def)
  have "inFlight (calls(c \<mapsto> Queued fp)) ` dom (calls(c \<mapsto> Queued fp)) = insert fp (inFlight calls ` dom calls)"
    using c by (auto simp: same image_iff)
  moreover have "inj_on (inFlight (calls(c \<mapsto> Queued fp))) (dom (calls(c \<mapsto> Queued fp)))"
    using inj new(2) c by (auto simp: inj_on_def same)
  moreover have "c \<notin> holders calls" "c \<notin> runners calls"
    using c by (auto simp: holders_def runners_def)
  ultimately show ?thesis
    using inv admit_inv [OF ad e] new(1) d by (auto simp: concInv_def holders_upd runners_upd)
qed

lemma giveUp_inv:
  assumes inv: "concInv e0 (e, calls)" and c: "calls c = Some (Queued fp)" and acq: "acquireSlot env e = Some (Inl err, e')"
  shows "concInv e0 (untrackCall fp e', calls(c := None))"
proof -
  have e: "executorInv e" and inj: "inj_on (inFlight calls) (dom calls)"
    using inv by (auto simp: concInv_def)
  have "e' = e"
    using acquireSlot_sem [OF acq e] by (cases e) auto
  moreover have "c \<notin> holders calls" "c \<notin> runners calls"
    using c by (auto simp: holders_def runners_def)
  moreover have "executorInv (untrackCall fp e)"
    using e by (auto simp: executorInv_def untrackCall_def Untrack_def)
  ultimately show ?thesis
    using inv fingerprints_end [OF c inj] by (auto simp: concInv_def holders_upd runners_upd untrackCall_def dom_Untrack)
qed

lemma estep_inv: "estep x y \<Longrightarrow> concInv e0 x \<Longrightarrow> concInv e0 y"
proof (induction rule: estep.induct)
  case (advance x y)
  then show ?case by (rule progress_inv)
next
  case (call calls c env req e fp e')
  then show ?case by (intro call_inv)
next
  case (refuse env req e err calls)
  then show ?case by simp
next
  case (giveUp calls c fp env e err e')
  then show ?case by (intro giveUp_inv)
qed

lemma estep_rtranclp_inv: "estep\<^sup>*\<^sup>* x y \<Longrightarrow> concInv e0 x \<Longrightarrow> concInv e0 y"
  by (induction rule: rtranclp_induct) (auto intro: estep_inv)

lemma progress_rtranclp_inv: "progress\<^sup>*\<^sup>* x y \<Longrightarrow> concInv e0 x \<Longrightarrow> concInv e0 y"
  by (induction rule: rtranclp_induct) (auto intro: progress_inv)

lemma NewExecutor_Inr:
  assumes "NewExecutor (Some b) root now = Inr e0"
  shows "validBudget b" "ex_budget e0 = b" "ex_sem e0 = \<lparr>sm_count = 0, sm_limit = bu_MaxConcurrent b\<rparr>" "ex_starts e0 = 0"
    "ex_startsLimit e0 = bu_MaxStarts b" "ex_cycleDetector e0 = NewCycleDetector" "ex_root e0 = root"
proof -
  have "Validate (Some b) now = None"
    using assms by (auto simp: NewExecutor_def split: option.splits)
  then show "validBudget b" "ex_budget e0 = b" "ex_sem e0 = \<lparr>sm_count = 0, sm_limit = bu_MaxConcurrent b\<rparr>" "ex_starts e0 = 0"
    "ex_startsLimit e0 = bu_MaxStarts b" "ex_cycleDetector e0 = NewCycleDetector" "ex_root e0 = root"
    using assms Validate_iff [of b now] by (auto simp: NewExecutor_def newContextSemaphore_def Let_def)
qed

lemma initial_inv:
  assumes "NewExecutor (Some b) root now = Inr e0"
  shows "concInv e0 (e0, Map.empty)"
  using NewExecutor_Inr [OF assms]
  by (auto simp: concInv_def executorInv_def validBudget_def NewCycleDetector_def holders_def runners_def)

text \<open>
  C2. On an executor with a validated budget, in every interleaving of concurrent calls: the slots taken
  are those of the calls past the semaphore, never more than \<open>MaxConcurrent\<close> and so at most 16
  processes run; no more than \<open>MaxStarts\<close>, at most 1024, processes are ever started; and the
  active fingerprints are exactly those of the calls in flight, no two of which share one.
\<close>

theorem concurrent_calls_bounded:
  assumes "NewExecutor (Some b) root now = Inr e0" and "estep\<^sup>*\<^sup>* (e0, Map.empty) (e, calls)"
  shows "Count (ex_sem e) = int (card (holders calls)) \<and> int (card (holders calls)) \<le> bu_MaxConcurrent b \<and> card (runners calls) \<le> 16
    \<and> ex_starts e \<le> bu_MaxStarts b \<and> uint (ex_starts e) \<le> 1024
    \<and> (\<forall>fp. IsActive (ex_cycleDetector e) fp \<longleftrightarrow> (\<exists>c \<in> dom calls. inFlight calls c = fp))
    \<and> inj_on (inFlight calls) (dom calls)"
proof -
  note new = NewExecutor_Inr [OF assms(1)]
  have inv: "concInv e0 (e, calls)"
    by (rule estep_rtranclp_inv [OF assms(2) initial_inv [OF assms(1)]])
  then have e: "executorInv e" "finite (dom calls)" "sm_count (ex_sem e) = int (card (holders calls))"
    "sm_limit (ex_sem e) = bu_MaxConcurrent b" "ex_startsLimit e = bu_MaxStarts b"
    "dom (cd_active (ex_cycleDetector e)) = inFlight calls ` dom calls" "inj_on (inFlight calls) (dom calls)"
    using new by (auto simp: concInv_def)
  have slots: "int (card (holders calls)) \<le> bu_MaxConcurrent b" "ex_starts e \<le> bu_MaxStarts b"
    using e by (auto simp: executorInv_def)
  moreover have "card (runners calls) \<le> 16"
    using card_mono [OF holders_finite [OF e(2)] runners_holders] slots(1) new(1) by (auto simp: validBudget_def)
  moreover have "uint (ex_starts e) \<le> 1024"
    using slots(2) new(1) by (auto simp: validBudget_def word_le_def)
  moreover have "IsActive (ex_cycleDetector e) fp \<longleftrightarrow> (\<exists>c \<in> dom calls. inFlight calls c = fp)" for fp
    unfolding IsActive_def domIff [symmetric] e(6) by (auto simp: image_iff)
  ultimately show ?thesis
    using e by (simp add: Count_def)
qed

section \<open>Calls in flight can finish\<close>

lemma slotFree_acquires:
  assumes "executorInv e" "sm_count (ex_sem e) < sm_limit (ex_sem e)"
  shows "\<exists>e'. acquireSlot (demoEnv ByOverflow CtxLive) e = Some (Inr (), e')"
  using assms by (simp add: acquireSlot_def Acquire_def acquireLoop.simps demoEnv_def executorInv_def)

lemma complete_slotted:
  assumes "calls c = Some (Slotted fp)"
  shows "\<exists>e'. progress\<^sup>*\<^sup>* (e, calls) (e', calls(c := None))"
proof (cases "countStart e")
  case (Inl err)
  with assms show ?thesis
    using progress.refuseStart by blast
next
  case (Inr e1)
  then have "progress (e, calls) (e1, calls(c \<mapsto> Running fp))"
    using assms by (rule progress.start [rotated])
  moreover have "progress (e1, calls(c \<mapsto> Running fp)) (untrackCall fp (releaseSlot e1), (calls(c \<mapsto> Running fp))(c := None))"
    by (rule progress.finish) simp
  ultimately show ?thesis
    by (metis (no_types, lifting) fun_upd_upd r_into_rtranclp rtranclp.rtrancl_into_rtrancl)
qed

lemma complete_one:
  assumes inv: "concInv e0 (e, calls)" and c: "calls c = Some p"
    and room: "c \<in> holders calls \<or> sm_count (ex_sem e) < sm_limit (ex_sem e)"
  shows "\<exists>e'. progress\<^sup>*\<^sup>* (e, calls) (e', calls(c := None))"
proof (cases p)
  case (Queued fp)
  with c room have "sm_count (ex_sem e) < sm_limit (ex_sem e)"
    by (auto simp: holders_def)
  then obtain e1 where "acquireSlot (demoEnv ByOverflow CtxLive) e = Some (Inr (), e1)"
    using slotFree_acquires [of e] inv unfolding concInv_def by blast
  then have "progress (e, calls) (e1, calls(c \<mapsto> Slotted fp))"
    using c Queued by (intro progress.takeSlot) auto
  moreover obtain e2 where "progress\<^sup>*\<^sup>* (e1, calls(c \<mapsto> Slotted fp)) (e2, (calls(c \<mapsto> Slotted fp))(c := None))"
    using complete_slotted [of "calls(c \<mapsto> Slotted fp)" c fp e1] by auto
  ultimately show ?thesis
    by (metis converse_rtranclp_into_rtranclp fun_upd_upd)
next
  case (Slotted fp)
  with c show ?thesis by (intro complete_slotted) simp
next
  case (Running fp)
  with c have "progress (e, calls) (untrackCall fp (releaseSlot e), calls(c := None))"
    by (intro progress.finish) simp
  then show ?thesis by blast
qed

lemma drain_from:
  assumes "concInv e0 (e, calls)" and "0 < sm_limit (ex_sem e0)"
  shows "\<exists>e'. progress\<^sup>*\<^sup>* (e, calls) (e', Map.empty)"
  using assms
proof (induction "card (dom calls)" arbitrary: e calls)
  case 0
  then have "calls = Map.empty"
    by (simp add: concInv_def)
  then show ?case by blast
next
  case (Suc n)
  have fin: "finite (dom calls)" and cnt: "sm_count (ex_sem e) = int (card (holders calls))" and lim: "sm_limit (ex_sem e) = sm_limit (ex_sem e0)"
    using Suc.prems(1) by (auto simp: concInv_def)
  obtain c p where c: "calls c = Some p" "c \<in> holders calls \<or> sm_count (ex_sem e) < sm_limit (ex_sem e)"
  proof (cases "holders calls = {}")
    case True
    then have "sm_count (ex_sem e) < sm_limit (ex_sem e)"
      using cnt lim Suc.prems(2) by simp
    moreover have "dom calls \<noteq> {}"
      using Suc.hyps(2) by auto
    ultimately show ?thesis
      using that by blast
  next
    case False
    then show ?thesis
      using that by (auto simp: holders_def)
  qed
  obtain e1 where step: "progress\<^sup>*\<^sup>* (e, calls) (e1, calls(c := None))"
    using complete_one [OF Suc.prems(1) c] by blast
  have "n = card (dom (calls(c := None)))"
    using Suc.hyps(2) fin c(1) by (simp add: card_Diff_singleton_if domI)
  from Suc.hyps(1) [OF this progress_rtranclp_inv [OF step Suc.prems(1)] Suc.prems(2)] step show ?case
    by (meson rtranclp_trans)
qed

lemma empty_config: "concInv e0 (e, Map.empty) \<Longrightarrow> Count (ex_sem e) = 0 \<and> ActiveCount (ex_cycleDetector e) = 0"
  by (simp add: concInv_def Count_def ActiveCount_def holders_def)

text \<open>
  C22. No deadlock and no leak: from every reachable state the calls in flight can all finish without
  any of them being cancelled, and then every slot is free and no fingerprint is active.
\<close>

theorem executor_drains:
  assumes "NewExecutor (Some b) root now = Inr e0" and "estep\<^sup>*\<^sup>* (e0, Map.empty) (e, calls)"
  shows "\<exists>e'. progress\<^sup>*\<^sup>* (e, calls) (e', Map.empty) \<and> Count (ex_sem e') = 0 \<and> ActiveCount (ex_cycleDetector e') = 0"
proof -
  have inv: "concInv e0 (e, calls)"
    by (rule estep_rtranclp_inv [OF assms(2) initial_inv [OF assms(1)]])
  moreover have "0 < sm_limit (ex_sem e0)"
    using NewExecutor_Inr [OF assms(1)] by (simp add: validBudget_def)
  ultimately obtain e' where "progress\<^sup>*\<^sup>* (e, calls) (e', Map.empty)"
    using drain_from by blast
  with progress_rtranclp_inv [OF this inv] empty_config show ?thesis
    by blast
qed

section \<open>Witnesses\<close>

definition demoQueued :: Executor where
  "demoQueued = demoExecutor\<lparr>ex_cycleDetector := \<lparr>cd_active = [''ls'' \<mapsto> ()], cd_fingerprints = [''ls'' \<mapsto> ''ls'']\<rparr>\<rparr>"

lemma demo_new: "NewExecutor (Some (DefaultBudget 1)) None 1 = Inr demoExecutor"
  by (simp add: NewExecutor_def DefaultBudget_valid demoExecutor_def) (simp add: DefaultBudget_def)

lemma demo_reach: "estep\<^sup>*\<^sup>* (demoExecutor, Map.empty) (demoQueued, [0 \<mapsto> Queued ''ls''])"
proof -
  have start: "demoExecutor\<lparr>ex_starts := 0\<rparr> = demoExecutor"
    by (simp add: demoExecutor_def)
  have "\<not> IsActive (ex_cycleDetector (demoExecutor\<lparr>ex_starts := 0\<rparr>)) ''ls''"
    by (simp add: IsActive_def demoExecutor_def NewCycleDetector_def)
  from demo_admit [OF this, of ByOverflow CtxLive]
  have "admit (demoEnv ByOverflow CtxLive) (demoRequest ''ls'') demoExecutor = Inr (''ls'', demoQueued)"
    by (simp add: start demoQueued_def)
  then have "estep (demoExecutor, Map.empty) (demoQueued, Map.empty(0 \<mapsto> Queued ''ls''))"
    by (intro estep.call) auto
  then show ?thesis by blast
qed

theorem concurrent_calls_bounded_witness:
  "Count (ex_sem demoQueued) = int (card (holders [0 \<mapsto> Queued ''ls''])) \<and> ex_starts demoQueued \<le> 64"
  using concurrent_calls_bounded [OF demo_new demo_reach] by (simp add: DefaultBudget_def)

theorem executor_drains_witness:
  "\<exists>e'. progress\<^sup>*\<^sup>* (demoQueued, [0 \<mapsto> Queued ''ls'']) (e', Map.empty) \<and> Count (ex_sem e') = 0"
  using executor_drains [OF demo_new demo_reach] by blast

end
