(* ===== verification/Gate_Diag.thy ===== *)
theory Gate_Diag
  imports Prelude Go_Path
begin

text \<open>
  Diagnostics of the gate-summary reader (\<open>internal/gatesummary/diagnostic.go\<close>) and the JSON
  pointers they carry (\<open>escapePointer\<close>, and from \<open>schema_error_identity.go\<close>
  \<open>instanceLocationToPointer\<close> and the decoder of pointer fragments).

  The set of diagnostics is the list of added diagnostics with their encounter index; emitting
  it removes later diagnostics with the code and path of an earlier one and sorts by precedence,
  path and encounter index.
\<close>

section \<open>Diagnostics\<close>

record Diagnostic =
  dg_Code :: string
  dg_Path :: string
  dg_Expected :: string
  dg_Observed :: string
  dg_Message :: string

definition codePrecedence :: "(string \<times> nat) list" where
  "codePrecedence =
    [(''GS_DOCUMENT_TOO_LARGE'', 1), (''GS_MALFORMED_JSON'', 2), (''GS_TRAILING_JSON'', 3),
     (''GS_DUPLICATE_KEY'', 4), (''GS_VERSION_MISSING'', 5), (''GS_INVALID_VERSION_TYPE'', 6),
     (''GS_UNSUPPORTED_VERSION'', 7), (''GS_UNKNOWN_FIELD'', 8), (''GS_REQUIRED_FIELD_MISSING'', 9),
     (''GS_SCHEMA_VIOLATION'', 10), (''GS_INVALID_TIMESTAMP'', 11), (''GS_INVALID_STATUS'', 12),
     (''GS_INVALID_OID'', 13), (''GS_COLLECTION_LIMIT'', 14), (''GS_DUPLICATE_CHECK_NAME'', 15),
     (''GS_PASS_EXIT_CODE_MISMATCH'', 16), (''GS_FAIL_EXIT_CODE_MISMATCH'', 17),
     (''GS_SKIP_EXIT_CODE_MISMATCH'', 18), (''GS_UNAVAILABLE_EXIT_CODE_MISMATCH'', 19),
     (''GS_INVALID_DURATION'', 20), (''GS_INVALID_OUTPUT_HASH'', 21), (''GS_PARTIAL_TEST_TOTALS'', 22),
     (''GS_TEST_TOTAL_MISMATCH'', 23), (''GS_OVERALL_STATUS_MISMATCH'', 24),
     (''GS_SCOPE_CLOSED_DIRTY_WORKTREE'', 25), (''GS_NORMALIZATION_FAILURE'', 26), (''GS_INTERNAL'', 27)]"

definition precedence :: "string \<Rightarrow> nat" where
  "precedence code = (case map_of codePrecedence code of Some v \<Rightarrow> v | None \<Rightarrow> 2 ^ 20)"

definition newDiagnostic :: "string \<Rightarrow> string \<Rightarrow> string \<Rightarrow> Diagnostic" where
  "newDiagnostic code path message =
     \<lparr>dg_Code = code, dg_Path = path, dg_Expected = '''', dg_Observed = '''', dg_Message = message\<rparr>"

record encounteredDiag =
  ed_index :: nat
  ed_d :: Diagnostic

record diagnosticSet =
  ds_items :: "encounteredDiag list"
  ds_encounter :: nat

definition emptyDiagnostics :: diagnosticSet where
  "emptyDiagnostics = \<lparr>ds_items = [], ds_encounter = 0\<rparr>"

definition ds_add :: "Diagnostic \<Rightarrow> diagnosticSet \<Rightarrow> diagnosticSet" where
  "ds_add d s =
     s\<lparr>ds_encounter := ds_encounter s + 1,
       ds_items := ds_items s @ [\<lparr>ed_index = ds_encounter s + 1, ed_d = d\<rparr>]\<rparr>"

definition diagKey :: "Diagnostic \<Rightarrow> string" where
  "diagKey d = dg_Code d @ [CHR 0x00] @ dg_Path d"

definition diagLess :: "encounteredDiag \<Rightarrow> encounteredDiag \<Rightarrow> bool" where
  "diagLess a b =
     (let pa = precedence (dg_Code (ed_d a)); pb = precedence (dg_Code (ed_d b))
      in if pa \<noteq> pb then pa < pb
         else if dg_Path (ed_d a) \<noteq> dg_Path (ed_d b) then dg_Path (ed_d a) < dg_Path (ed_d b)
         else ed_index a < ed_index b)"

definition ds_emit :: "diagnosticSet \<Rightarrow> Diagnostic list" where
  "ds_emit s = map ed_d (sort_slice diagLess (dedup_by (diagKey \<circ> ed_d) [] (ds_items s)))"

text \<open>The loop \<open>for _, d := range ds { s.add(d) }\<close>.\<close>

definition ds_addAll :: "Diagnostic list \<Rightarrow> diagnosticSet \<Rightarrow> diagnosticSet" where
  "ds_addAll ds s = fold ds_add ds s"

text \<open>
  Diagnostics added to an empty set are numbered from one, so the encounter index never has to
  be mentioned again: emitting is a stable sort by precedence and path of the first diagnostics.
\<close>

definition dgKey :: "Diagnostic \<Rightarrow> nat \<times> string" where
  "dgKey d = (precedence (dg_Code d), dg_Path d)"

definition emitOf :: "Diagnostic list \<Rightarrow> Diagnostic list" where
  "emitOf ds = sort_key dgKey (dedup_by diagKey [] ds)"

interpretation diag_less: keyed_less diagLess "\<lambda>e. (dgKey (ed_d e), ed_index e)"
  by unfold_locales (auto simp: diagLess_def dgKey_def Let_def)

fun numberFrom :: "nat \<Rightarrow> Diagnostic list \<Rightarrow> encounteredDiag list" where
  "numberFrom n [] = []"
| "numberFrom n (d # ds) = \<lparr>ed_index = n, ed_d = d\<rparr> # numberFrom (Suc n) ds"

lemma numberFrom_append: "numberFrom n (xs @ ys) = numberFrom n xs @ numberFrom (n + length xs) ys"
  by (induction xs arbitrary: n) auto

lemma ds_addAll_items:
  "ds_items (ds_addAll ds s) = ds_items s @ numberFrom (Suc (ds_encounter s)) ds"
  "ds_encounter (ds_addAll ds s) = ds_encounter s + length ds"
  by (induction ds arbitrary: s) (auto simp: ds_addAll_def ds_add_def)

lemma ds_addAll_append: "ds_addAll (xs @ ys) s = ds_addAll ys (ds_addAll xs s)"
  by (simp add: ds_addAll_def)

lemma dedup_numberFrom:
  "map ed_d (dedup_by (diagKey \<circ> ed_d) seen (numberFrom n ds)) = dedup_by diagKey seen ds"
  by (induction ds arbitrary: seen n) auto

lemma numberFrom_index: "e \<in> set (numberFrom n ds) \<Longrightarrow> n \<le> ed_index e"
  by (induction ds arbitrary: n) (auto dest: Suc_leD)

lemma dedup_sorted_index:
  "sorted_wrt (\<lambda>x y. ed_index x < ed_index y) (dedup_by f seen (numberFrom n ds))"
proof (induction ds arbitrary: seen n)
  case (Cons d ds)
  have "n < ed_index e" if "e \<in> set (dedup_by f seen' (numberFrom (Suc n) ds))" for e seen'
    using that set_dedup_by [of f seen' "numberFrom (Suc n) ds"] numberFrom_index [of e "Suc n" ds]
    by auto
  with Cons show ?case
    by auto
qed simp

lemma sort_key_tiebreak:
  assumes "sorted_wrt (\<lambda>x y. (i x :: 'b::linorder) < i y) xs"
  shows "sort_key (\<lambda>x. (f x, i x)) xs = sort_key f xs"
proof (rule properties_for_sort_key)
  show "mset (sort_key f xs) = mset xs"
    by simp
  show "filter (\<lambda>x. (f k, i k) = (f x, i x)) (sort_key f xs) = filter (\<lambda>x. (f k, i k) = (f x, i x)) xs"
    if "k \<in> set (sort_key f xs)" for k
  proof -
    have "filter (\<lambda>x. (f k, i k) = (f x, i x)) ys = filter (\<lambda>x. i k = i x) (filter (\<lambda>x. f x = f k) ys)" for ys
      by (induction ys) auto
    from this [of "sort_key f xs"] this [of xs] show ?thesis
      by (simp only: sort_key_stable)
  qed
  have "sorted_wrt (\<lambda>x y. (f x, i x) \<le> (f y, i y)) (sort_key f xs)"
    using assms
  proof (induction xs)
    case (Cons x xs)
    then have s: "sorted_wrt (\<lambda>x y. (f x, i x) \<le> (f y, i y)) (sort_key f xs)" and
      lt: "\<forall>y\<in>set (sort_key f xs). i x < i y"
      by auto
    have "sorted_wrt (\<lambda>x y. (f x, i x) \<le> (f y, i y)) (insort_key f x ys)"
      if "sorted_wrt (\<lambda>x y. (f x, i x) \<le> (f y, i y)) ys" "\<forall>y\<in>set ys. i x < i y" for ys
      using that
    proof (induction ys)
      case (Cons y ys)
      then show ?case
        by (cases "f x \<le> f y") (force simp: set_insort_key less_eq_prod_def)+
    qed simp
    with s lt show ?case
      by simp
  qed simp
  then show "sorted (map (\<lambda>x. (f x, i x)) (sort_key f xs))"
    by (simp add: sorted_map)
qed

lemma map_sort_key_comp: "map g (sort_key (\<lambda>x. f (g x)) xs) = sort_key f (map g xs)"
proof (induction xs)
  case (Cons x xs)
  have "map g (insort_key (\<lambda>x. f (g x)) x ys) = insort_key f (g x) (map g ys)" for ys
    by (induction ys) auto
  with Cons show ?case
    by simp
qed simp

lemma ds_emit_addAll: "ds_emit (ds_addAll ds emptyDiagnostics) = emitOf ds"
proof -
  let ?xs = "dedup_by (diagKey \<circ> ed_d) [] (numberFrom 1 ds)"
  have "sort_slice diagLess ?xs = sort_key (\<lambda>e. dgKey (ed_d e)) ?xs"
    unfolding diag_less.sort_slice_sort_key by (rule sort_key_tiebreak [OF dedup_sorted_index])
  then have "map ed_d (sort_slice diagLess ?xs) = sort_key dgKey (dedup_by diagKey [] ds)"
    by (simp only: map_sort_key_comp dedup_numberFrom)
  then show ?thesis
    by (simp add: ds_emit_def emitOf_def ds_addAll_items emptyDiagnostics_def)
qed

lemma diagKey_inject:
  assumes "CHR 0x00 \<notin> set (dg_Code d)" and "CHR 0x00 \<notin> set (dg_Code e)"
  shows "diagKey d = diagKey e \<longleftrightarrow> dg_Code d = dg_Code e \<and> dg_Path d = dg_Path e"
  using append_sep_inject [OF assms] by (auto simp: diagKey_def)

lemma set_dedup_by_find:
  "set (dedup_by f seen xs) = {x. f x \<notin> set seen \<and> find (\<lambda>y. f y = f x) xs = Some x}"
proof (induction f seen xs rule: dedup_by.induct)
  case (2 f seen z zs)
  show ?case
  proof (cases "f z \<in> set seen")
    case True
    with 2(1) show ?thesis
      by (intro set_eqI) (simp, metis)
  next
    case False
    with 2(2) show ?thesis
      by (intro set_eqI) (simp, metis option.inject)
  qed
qed simp

lemma distinct_map_sort_key: "distinct (map g (sort_key f xs)) = distinct (map g xs)"
proof -
  have "mset (map g (sort_key f xs)) = mset (map g xs)"
    by simp
  then show ?thesis
    by (metis distinct_count_atmost_1 set_mset_mset)
qed

text \<open>
  Emitting a set of diagnostics (whose codes are the registry's, or at least hold no NUL byte)
  yields exactly one diagnostic for every code and path that was added, namely the first one
  added, in an order sorted by precedence rank and then by path.
\<close>

theorem emit_first_per_code_and_path:
  assumes "\<forall>d\<in>set ds. CHR 0x00 \<notin> set (dg_Code d)"
  shows "set (ds_emit (ds_addAll ds emptyDiagnostics)) =
           {d. find (\<lambda>e. (dg_Code e, dg_Path e) = (dg_Code d, dg_Path d)) ds = Some d} \<and>
         distinct (map (\<lambda>d. (dg_Code d, dg_Path d)) (ds_emit (ds_addAll ds emptyDiagnostics))) \<and>
         sorted (map (\<lambda>d. (precedence (dg_Code d), dg_Path d)) (ds_emit (ds_addAll ds emptyDiagnostics)))"
proof -
  let ?code = "\<lambda>d. (dg_Code d, dg_Path d)"
  have key: "find (\<lambda>e. diagKey e = diagKey d) ds = find (\<lambda>e. ?code e = ?code d) ds"
    if "d \<in> set ds" for d
    using that assms by (intro find_cong refl) (simp add: diagKey_inject)
  have sub: "set (dedup_by diagKey [] ds) \<subseteq> set ds"
    by (rule set_dedup_by)
  have mem: "d \<in> set ds" if "find P ds = Some d" for P d
    using that by (auto simp: find_Some_iff)
  have "find (\<lambda>e. diagKey e = diagKey d) ds = Some d \<longleftrightarrow> find (\<lambda>e. ?code e = ?code d) ds = Some d" for d
    using key [of d] mem [of _ d] by metis
  then have "set (ds_emit (ds_addAll ds emptyDiagnostics)) = {d. find (\<lambda>e. ?code e = ?code d) ds = Some d}"
    by (simp add: ds_emit_addAll emitOf_def set_dedup_by_find)
  moreover have "inj_on ?code (set (dedup_by diagKey [] ds))"
    using distinct_dedup_by [of diagKey "[]" ds] by (auto simp: distinct_map inj_on_def diagKey_def)
  then have "distinct (map ?code (dedup_by diagKey [] ds))"
    using distinct_dedup_by [of diagKey "[]" ds] by (simp add: distinct_map)
  then have "distinct (map ?code (ds_emit (ds_addAll ds emptyDiagnostics)))"
    unfolding ds_emit_addAll emitOf_def by (simp only: distinct_map_sort_key)
  moreover have "sorted (map (\<lambda>d. (precedence (dg_Code d), dg_Path d)) (ds_emit (ds_addAll ds emptyDiagnostics)))"
    using sorted_sort_key [of dgKey "dedup_by diagKey [] ds"]
    by (simp add: ds_emit_addAll emitOf_def dgKey_def [abs_def])
  ultimately show ?thesis
    by simp
qed

lemma emit_first_per_code_and_path_witness:
  "ds_emit (ds_addAll
     [newDiagnostic ''GS_INTERNAL'' ''/b'' ''first'', newDiagnostic ''GS_MALFORMED_JSON'' '''' ''m'',
      newDiagnostic ''GS_INTERNAL'' ''/a'' ''x'', newDiagnostic ''GS_INTERNAL'' ''/b'' ''second''] emptyDiagnostics) =
     [newDiagnostic ''GS_MALFORMED_JSON'' '''' ''m'', newDiagnostic ''GS_INTERNAL'' ''/a'' ''x'',
      newDiagnostic ''GS_INTERNAL'' ''/b'' ''first''] \<and>
   distinct (map (\<lambda>d. (dg_Code d, dg_Path d)) (ds_emit (ds_addAll
     [newDiagnostic ''GS_INTERNAL'' ''/b'' ''first'', newDiagnostic ''GS_MALFORMED_JSON'' '''' ''m'',
      newDiagnostic ''GS_INTERNAL'' ''/a'' ''x'', newDiagnostic ''GS_INTERNAL'' ''/b'' ''second''] emptyDiagnostics)))"
  (is "ds_emit (ds_addAll ?ds emptyDiagnostics) = ?out \<and> ?distinct")
proof
  show "ds_emit (ds_addAll ?ds emptyDiagnostics) = ?out"
    by code_simp
  show ?distinct
    using emit_first_per_code_and_path [of ?ds] by (simp add: newDiagnostic_def)
qed

lemma emitOf_eq_Nil [simp]: "emitOf ds = [] \<longleftrightarrow> ds = []"
proof -
  have "dedup_by f [] xs = [] \<longleftrightarrow> xs = []" for f :: "Diagnostic \<Rightarrow> string" and xs
    by (cases xs) auto
  moreover have "sort_key dgKey xs = [] \<longleftrightarrow> xs = []" for xs
    by (metis length_0_conv length_sort)
  ultimately show ?thesis
    by (simp add: emitOf_def)
qed

lemma set_emitOf: "set (emitOf ds) \<subseteq> set ds"
  using set_dedup_by [of diagKey "[]" ds] by (simp add: emitOf_def)

section \<open>JSON pointers\<close>

text \<open>\<open>strings.ReplaceAll\<close> of a one-byte string.\<close>

definition replaceAllByte :: "char \<Rightarrow> string \<Rightarrow> string \<Rightarrow> string" where
  "replaceAllByte c new s = concat (map (\<lambda>x. if x = c then new else [x]) s)"

definition escapePointer :: "string \<Rightarrow> string" where
  "escapePointer token =
     (let token = replaceAllByte (CHR ''~'') ''~0'' token
      in replaceAllByte (CHR ''/'') ''~1'' token)"

definition instanceLocationToPointer :: "string list \<Rightarrow> string" where
  "instanceLocationToPointer location =
     (if location = [] then '''' else concat (map (\<lambda>token. ''/'' @ escapePointer token) location))"

definition appendPointer :: "string \<Rightarrow> string \<Rightarrow> string" where
  "appendPointer base token = base @ ''/'' @ escapePointer token"

text \<open>The loop of \<open>decodePointerToken\<close>; \<open>None\<close> is the result \<open>("", false)\<close>.\<close>

fun decodePointerLoop :: "string \<Rightarrow> string option" where
  "decodePointerLoop [] = Some []"
| "decodePointerLoop [c] = (if c \<noteq> CHR ''~'' then Some [c] else None)"
| "decodePointerLoop (c # d # cs) =
     (if c \<noteq> CHR ''~'' then map_option (Cons c) (decodePointerLoop (d # cs))
      else if d = CHR ''0'' then map_option (Cons (CHR ''~'')) (decodePointerLoop cs)
      else if d = CHR ''1'' then map_option (Cons (CHR ''/'')) (decodePointerLoop cs)
      else None)"

definition decodePointerToken :: "string \<Rightarrow> string option" where
  "decodePointerToken token = (if CHR ''~'' \<notin> set token then Some token else decodePointerLoop token)"

fun decodeAll :: "string list \<Rightarrow> string list option" where
  "decodeAll [] = Some []"
| "decodeAll (raw # raws) =
     (case decodePointerToken raw of None \<Rightarrow> None
      | Some decoded \<Rightarrow> map_option (Cons decoded) (decodeAll raws))"

definition decodePointerFragment :: "string \<Rightarrow> string list option" where
  "decodePointerFragment fragment =
     (if fragment = '''' then Some []
      else if hd fragment \<noteq> CHR ''/'' then None
      else decodeAll (splitOn (CHR ''/'') (tl fragment)))"

lemma escapePointer_simps [simp]:
  "escapePointer [] = []"
  "escapePointer (c # s) =
     (if c = CHR ''~'' then ''~0'' else if c = CHR ''/'' then ''~1'' else [c]) @ escapePointer s"
  by (auto simp: escapePointer_def replaceAllByte_def)

lemma escapePointer_no_slash: "CHR ''/'' \<notin> set (escapePointer s)"
  by (induction s) auto

lemma decodePointerLoop_plain: "CHR ''~'' \<notin> set s \<Longrightarrow> decodePointerLoop s = Some s"
  by (induction s rule: decodePointerLoop.induct) auto

lemma decodePointerLoop_Cons: "c \<noteq> CHR ''~'' \<Longrightarrow> decodePointerLoop (c # s) = map_option (Cons c) (decodePointerLoop s)"
  by (cases s) auto

lemma decodePointerLoop_escape: "decodePointerLoop (escapePointer s) = Some s"
  by (induction s) (auto simp: decodePointerLoop_Cons)

lemma decode_escapePointer: "decodePointerToken (escapePointer s) = Some s"
  using decodePointerLoop_escape [of s] decodePointerLoop_plain [of "escapePointer s"]
  by (auto simp: decodePointerToken_def)

lemma escapePointer_inject: "escapePointer s = escapePointer t \<longleftrightarrow> s = t"
  by (metis decode_escapePointer option.inject)

lemma splitOn_append_sep: "c \<notin> set xs \<Longrightarrow> splitOn c (xs @ c # ys) = xs # splitOn c ys"
  by (induction xs) auto

lemma splitOn_no_sep: "c \<notin> set xs \<Longrightarrow> splitOn c xs = [xs]"
  by (induction xs) auto

lemma decodeAll_pointer:
  "decodeAll (splitOn (CHR ''/'') (escapePointer t @ concat (map (\<lambda>token. CHR ''/'' # escapePointer token) ts))) = Some (t # ts)"
proof (induction ts arbitrary: t)
  case Nil
  then show ?case
    by (simp add: splitOn_no_sep escapePointer_no_slash decode_escapePointer)
next
  case (Cons u us)
  then show ?case
    by (simp add: splitOn_append_sep escapePointer_no_slash decode_escapePointer)
qed

text \<open>
  Every instance location survives a trip through its JSON pointer: splitting and unescaping
  the rendered pointer gives the same list of tokens, whatever bytes the tokens hold, so two
  different locations never share a pointer.
\<close>

theorem pointer_roundtrip: "decodePointerFragment (instanceLocationToPointer location) = Some location"
  by (cases location) (auto simp: decodePointerFragment_def instanceLocationToPointer_def decodeAll_pointer)

end
