(* ===== verification/Gate_Json.thy ===== *)
theory Gate_Json
  imports Gate_Diag "HOL-Library.Sublist"
begin

text \<open>
  The scans of the gate-summary reader that work on JSON tokens: duplicate member names
  (\<open>duplicate_keys.go\<close>), the envelope with the version probe (\<open>envelope.go\<close>) and the
  classification of the version (\<open>version.go\<close>).

  The scans see the document only through \<open>json.Decoder\<close>: a document enters as the tokens
  that \<open>Token\<close> returns one after the other and whether it then reports \<open>io.EOF\<close> or a
  syntax error.  Commas and colons are not tokens.  Member names and strings are the decoded Go
  strings, numbers their spelling (\<open>UseNumber\<close>).

  The reference for both scans is the tree \<open>json\<close>, whose token sequence is \<open>toks\<close>.
\<close>

section \<open>Tokens and trees\<close>

datatype Delim = ObjOpen | ObjClose | ArrOpen | ArrClose

datatype jsonToken = TDelim Delim | TString string | TNumber string | TBool bool | TNull

record tokenSource =
  src_tokens :: "jsonToken list"
  src_eof :: bool

datatype json =
    JObject "(string \<times> json) list"
  | JArray "json list"
  | JString string
  | JNumber string
  | JBool bool
  | JNull

fun toks :: "json \<Rightarrow> jsonToken list" where
  "toks (JObject ms) = TDelim ObjOpen # concat (map (\<lambda>(k, v). TString k # toks v) ms) @ [TDelim ObjClose]"
| "toks (JArray vs) = TDelim ArrOpen # concat (map toks vs) @ [TDelim ArrClose]"
| "toks (JString s) = [TString s]"
| "toks (JNumber s) = [TNumber s]"
| "toks (JBool b) = [TBool b]"
| "toks JNull = [TNull]"

definition memberToks :: "(string \<times> json) list \<Rightarrow> jsonToken list" where
  "memberToks ms = concat (map (\<lambda>(k, v). TString k # toks v) ms)"

lemma memberToks_simps [simp]:
  "memberToks [] = []"
  "memberToks ((k, v) # ms) = TString k # toks v @ memberToks ms"
  by (simp_all add: memberToks_def)

lemma toks_JObject [simp]: "toks (JObject ms) = TDelim ObjOpen # memberToks ms @ [TDelim ObjClose]"
  by (simp add: memberToks_def)

declare toks.simps(1) [simp del]

lemma toks_neq_Nil [simp]: "toks v \<noteq> []"
  by (cases v) auto

section \<open>Duplicate member names\<close>

record duplicateHit =
  dh_path :: string
  dh_key :: string

text \<open>
  A path is the list of its raw tokens from the leaf to the root, as the links of
  \<open>duplicatePath\<close> give them; the nil pointer is the empty list.
\<close>

type_synonym duplicatePath = "string list"

record duplicateFrame =
  df_kind :: Delim
  df_path :: duplicatePath
  df_keys :: "string list"
  df_arrayIndex :: nat
  df_pendingKey :: string
  df_hasPendingKey :: bool

definition newDuplicateFrame :: "Delim \<Rightarrow> duplicatePath \<Rightarrow> duplicateFrame" where
  "newDuplicateFrame kind path =
     \<lparr>df_kind = kind, df_path = path, df_keys = [], df_arrayIndex = 0, df_pendingKey = '''',
      df_hasPendingKey = False\<rparr>"

definition closedDuplicateFrame :: "duplicateFrame \<Rightarrow> jsonToken \<Rightarrow> bool" where
  "closedDuplicateFrame frame token =
     (case token of
        TDelim delim \<Rightarrow> \<not> df_hasPendingKey frame \<and>
          ((df_kind frame = ObjOpen \<and> delim = ObjClose) \<or> (df_kind frame = ArrOpen \<and> delim = ArrClose))
      | _ \<Rightarrow> False)"

definition pushDuplicateFrame ::
  "duplicateFrame list \<Rightarrow> jsonToken \<Rightarrow> duplicatePath \<Rightarrow> string \<Rightarrow> duplicateFrame list" where
  "pushDuplicateFrame frames token parent pathToken =
     (case token of
        TDelim delim \<Rightarrow>
          if delim = ObjOpen \<or> delim = ArrOpen then newDuplicateFrame delim (pathToken # parent) # frames
          else frames
      | _ \<Rightarrow> frames)"

definition renderDuplicatePath :: "duplicatePath \<Rightarrow> string \<Rightarrow> string" where
  "renderDuplicatePath parent leaf =
     concat (map (\<lambda>token. ''/'' @ escapePointer token) (rev (leaf # parent)))"

text \<open>\<open>itoa\<close>: the digits are written from the right end of a buffer of 20 bytes.\<close>

fun itoaDigits :: "nat \<Rightarrow> string \<Rightarrow> string" where
  "itoaDigits i b = (if i = 0 then b else itoaDigits (i div 10) (char_of (48 + i mod 10) # b))"

declare itoaDigits.simps [simp del]

definition gs_itoa :: "nat \<Rightarrow> string" where
  "gs_itoa i = (if i = 0 then ''0'' else itoaDigits i [])"

definition dupHitLess :: "duplicateHit \<Rightarrow> duplicateHit \<Rightarrow> bool" where
  "dupHitLess a b = (if dh_path a \<noteq> dh_path b then dh_path a < dh_path b else dh_key a < dh_key b)"

definition sortedDuplicateHits :: "duplicateHit list \<Rightarrow> duplicateHit list" where
  "sortedDuplicateHits hits = sort_slice dupHitLess hits"

text \<open>The frames are a stack with its top first.\<close>

fun duplicateLoop :: "jsonToken list \<Rightarrow> duplicateFrame list \<Rightarrow> duplicateHit list \<Rightarrow> duplicateHit list" where
  "duplicateLoop ts [] hits = hits"
| "duplicateLoop [] (frame # frames) hits = hits"
| "duplicateLoop (token # ts) (frame # frames) hits =
     (if closedDuplicateFrame frame token then duplicateLoop ts frames hits
      else if df_kind frame = ObjOpen then
        (if \<not> df_hasPendingKey frame then
           (case token of
              TString key \<Rightarrow>
                duplicateLoop ts
                  (frame\<lparr>df_keys := key # df_keys frame, df_pendingKey := key, df_hasPendingKey := True\<rparr> # frames)
                  (if key \<in> set (df_keys frame)
                   then hits @ [\<lparr>dh_path = renderDuplicatePath (df_path frame) key, dh_key = key\<rparr>] else hits)
            | _ \<Rightarrow> hits)
         else
           let key = df_pendingKey frame;
               frame' = frame\<lparr>df_pendingKey := '''', df_hasPendingKey := False\<rparr>
           in duplicateLoop ts (pushDuplicateFrame (frame' # frames) token (df_path frame) key) hits)
      else
        let index = df_arrayIndex frame;
            frame' = frame\<lparr>df_arrayIndex := index + 1\<rparr>
        in duplicateLoop ts (pushDuplicateFrame (frame' # frames) token (df_path frame) (gs_itoa index)) hits)"

definition detectDuplicateKeys :: "tokenSource \<Rightarrow> duplicateHit list" where
  "detectDuplicateKeys data =
     (case src_tokens data of
        [] \<Rightarrow> []
      | first # rest \<Rightarrow>
          (case first of
             TDelim openDelim \<Rightarrow>
               if openDelim = ObjOpen \<or> openDelim = ArrOpen
               then sortedDuplicateHits (duplicateLoop rest [newDuplicateFrame openDelim []] [])
               else []
           | _ \<Rightarrow> []))"

text \<open>
  The reference: the objects of a tree with their locations, and the member names of each that
  were seen before in the same object.
\<close>

fun objectsAt :: "string list \<Rightarrow> json \<Rightarrow> (string list \<times> string list) list"
  and objectsIn :: "string list \<Rightarrow> nat \<Rightarrow> json list \<Rightarrow> (string list \<times> string list) list" where
  "objectsAt loc (JObject ms) =
     (loc, map fst ms) # concat (map (\<lambda>(k, v). objectsAt (loc @ [k]) v) ms)"
| "objectsAt loc (JArray vs) = objectsIn loc 0 vs"
| "objectsAt loc (JString s) = []"
| "objectsAt loc (JNumber s) = []"
| "objectsAt loc (JBool b) = []"
| "objectsAt loc JNull = []"
| "objectsIn loc i [] = []"
| "objectsIn loc i (v # vs) = objectsAt (loc @ [itoa (int i)]) v @ objectsIn loc (Suc i) vs"

fun repeats :: "string list \<Rightarrow> string list \<Rightarrow> string list" where
  "repeats seen [] = []"
| "repeats seen (k # ks) = (if k \<in> set seen then [k] else []) @ repeats (k # seen) ks"

definition duplicateSpec :: "json \<Rightarrow> duplicateHit list" where
  "duplicateSpec v =
     concat (map (\<lambda>(loc, names).
       map (\<lambda>k. \<lparr>dh_path = instanceLocationToPointer (loc @ [k]), dh_key = k\<rparr>) (repeats [] names))
       (objectsAt [] v))"

definition objectHits :: "string list \<Rightarrow> string list \<Rightarrow> string list \<Rightarrow> duplicateHit list" where
  "objectHits loc seen names =
     map (\<lambda>k. \<lparr>dh_path = instanceLocationToPointer (loc @ [k]), dh_key = k\<rparr>) (repeats seen names)"

lemma objectHits_simps [simp]:
  "objectHits loc seen [] = []"
  "objectHits loc seen (k # ks) =
     (if k \<in> set seen then [\<lparr>dh_path = instanceLocationToPointer (loc @ [k]), dh_key = k\<rparr>] else []) @
     objectHits loc (k # seen) ks"
  by (simp_all add: objectHits_def)

text \<open>The hits in the order in which the scanner meets them.\<close>

fun scanHits :: "duplicatePath \<Rightarrow> json \<Rightarrow> duplicateHit list"
  and scanMembers :: "duplicatePath \<Rightarrow> string list \<Rightarrow> (string \<times> json) list \<Rightarrow> duplicateHit list"
  and scanItems :: "duplicatePath \<Rightarrow> nat \<Rightarrow> json list \<Rightarrow> duplicateHit list" where
  "scanHits path (JObject ms) = scanMembers path [] ms"
| "scanHits path (JArray vs) = scanItems path 0 vs"
| "scanHits path (JString s) = []"
| "scanHits path (JNumber s) = []"
| "scanHits path (JBool b) = []"
| "scanHits path JNull = []"
| "scanMembers path seen [] = []"
| "scanMembers path seen ((k, v) # ms) =
     (if k \<in> set seen then [\<lparr>dh_path = renderDuplicatePath path k, dh_key = k\<rparr>] else []) @
     scanHits (k # path) v @ scanMembers path (k # seen) ms"
| "scanItems path i [] = []"
| "scanItems path i (v # vs) = scanHits (gs_itoa i # path) v @ scanItems path (Suc i) vs"

lemma renderDuplicatePath_pointer:
  "renderDuplicatePath path k = instanceLocationToPointer (rev path @ [k])"
  by (simp add: renderDuplicatePath_def instanceLocationToPointer_def)

lemma itoaDigits_0 [simp]: "itoaDigits 0 b = b"
  by (simp add: itoaDigits.simps)

lemma itoaDigits_step: "0 < i \<Longrightarrow> itoaDigits i b = itoaDigits (i div 10) (char_of (48 + i mod 10) # b)"
  by (subst itoaDigits.simps) simp

lemma itoaDigits_append: "itoaDigits i (b @ c) = itoaDigits i b @ c"
proof (induction i arbitrary: b rule: less_induct)
  case (less i)
  show ?case
  proof (cases "i = 0")
    case False
    then show ?thesis
      using less [of "i div 10" "char_of (48 + i mod 10) # b"] by (simp add: itoaDigits_step)
  qed simp
qed

lemma itoaDigits_digits_of: "0 < i \<Longrightarrow> itoaDigits i [] = digits_of i"
proof (induction i rule: less_induct)
  case (less i)
  have snoc: "itoaDigits i [] = itoaDigits (i div 10) [] @ [char_of (48 + i mod 10)]"
    using less.prems itoaDigits_append [of "i div 10" "[]" "[char_of (48 + i mod 10)]"]
    by (simp add: itoaDigits_step)
  show ?case
  proof (cases "i < 10")
    case True
    then show ?thesis
      using snoc by (simp add: digits_of.simps [of i])
  next
    case False
    then have "itoaDigits (i div 10) [] = digits_of (i div 10)"
      using less.IH [of "i div 10"] by simp
    then show ?thesis
      using False snoc by (simp add: digits_of.simps [of i])
  qed
qed

lemma gs_itoa_itoa: "gs_itoa i = itoa (int i)"
proof (cases "i = 0")
  case True
  have "digits_of 0 = ''0''"
    by code_simp
  with True show ?thesis
    by (simp add: gs_itoa_def itoa_def)
qed (simp add: gs_itoa_def itoa_def itoaDigits_digits_of)

lemma length_digits_of: "i < 10 ^ Suc n \<Longrightarrow> length (digits_of i) \<le> Suc n"
proof (induction n arbitrary: i)
  case (Suc n)
  then show ?case
    using Suc.IH [of "i div 10"] by (simp add: digits_of.simps [of i])
qed (simp add: digits_of.simps)

text \<open>The digits of every non-negative 64-bit \<open>int\<close> fit the 20 bytes of the buffer.\<close>

lemma itoa_buffer_suffices: "i < 2 ^ 63 \<Longrightarrow> length (gs_itoa i) \<le> 20"
  using length_digits_of [of i 18] by (auto simp: gs_itoa_def itoaDigits_digits_of)

text \<open>
  The scanner against the tree.  Inside a container, the tokens of one value advance the frame
  on top and add the hits inside the value (\<open>scan_value\<close>); the rest of a container's tokens
  pops its frame.
\<close>

definition openOf :: "json \<Rightarrow> Delim" where
  "openOf v = (case v of JObject _ \<Rightarrow> ObjOpen | _ \<Rightarrow> ArrOpen)"

definition isContainer :: "json \<Rightarrow> bool" where
  "isContainer v = (case v of JObject _ \<Rightarrow> True | JArray _ \<Rightarrow> True | _ \<Rightarrow> False)"

definition scansAs :: "json \<Rightarrow> bool" where
  "scansAs v \<longleftrightarrow> (isContainer v \<longrightarrow> (\<forall>ts path frames hits.
     duplicateLoop (tl (toks v) @ ts) (newDuplicateFrame (openOf v) path # frames) hits =
     duplicateLoop ts frames (hits @ scanHits path v)))"

definition advance :: "duplicateFrame \<Rightarrow> duplicateFrame" where
  "advance f = (if df_kind f = ObjOpen then f\<lparr>df_pendingKey := '''', df_hasPendingKey := False\<rparr>
                else f\<lparr>df_arrayIndex := df_arrayIndex f + 1\<rparr>)"

definition slot :: "duplicateFrame \<Rightarrow> string" where
  "slot f = (if df_kind f = ObjOpen then df_pendingKey f else gs_itoa (df_arrayIndex f))"

lemma first_token:
  "(isContainer v \<and> toks v = TDelim (openOf v) # tl (toks v)) \<or>
   (\<not> isContainer v \<and> (\<exists>t. toks v = [t] \<and> (\<forall>d. t \<noteq> TDelim d)) \<and> (\<forall>path. scanHits path v = []))"
  by (cases v) (auto simp: isContainer_def openOf_def)

lemma openOf_cases: "openOf v = ObjOpen \<or> openOf v = ArrOpen"
  by (cases v) (auto simp: openOf_def)

lemma duplicateLoop_slot:
  assumes "df_hasPendingKey f \<longleftrightarrow> df_kind f = ObjOpen" and "\<not> closedDuplicateFrame f t"
  shows "duplicateLoop (t # ts) (f # frames) hits =
           duplicateLoop ts (pushDuplicateFrame (advance f # frames) t (df_path f) (slot f)) hits"
  using assms by (simp add: advance_def slot_def Let_def)

lemma scan_value:
  assumes "scansAs v" and "df_hasPendingKey f \<longleftrightarrow> df_kind f = ObjOpen"
  shows "duplicateLoop (toks v @ ts) (f # frames) hits =
           duplicateLoop ts (advance f # frames) (hits @ scanHits (slot f # df_path f) v)"
  using first_token [of v]
proof
  assume c: "isContainer v \<and> toks v = TDelim (openOf v) # tl (toks v)"
  have "\<not> closedDuplicateFrame f (TDelim (openOf v))"
    using openOf_cases [of v] by (auto simp: closedDuplicateFrame_def)
  moreover have "pushDuplicateFrame (advance f # frames) (TDelim (openOf v)) (df_path f) (slot f) =
      newDuplicateFrame (openOf v) (slot f # df_path f) # advance f # frames"
    using openOf_cases [of v] by (auto simp: pushDuplicateFrame_def)
  ultimately have "duplicateLoop ((TDelim (openOf v) # tl (toks v)) @ ts) (f # frames) hits =
      duplicateLoop (tl (toks v) @ ts) (newDuplicateFrame (openOf v) (slot f # df_path f) # advance f # frames) hits"
    using duplicateLoop_slot [OF assms(2)] by simp
  with c assms(1) show ?thesis
    by (simp add: scansAs_def)
next
  assume c: "\<not> isContainer v \<and> (\<exists>t. toks v = [t] \<and> (\<forall>d. t \<noteq> TDelim d)) \<and> (\<forall>path. scanHits path v = [])"
  then obtain t where t: "toks v = [t]" "\<forall>d. t \<noteq> TDelim d"
    by blast
  then have "\<not> closedDuplicateFrame f t" and "pushDuplicateFrame fs t p s = fs" for fs p s
    by (cases t; simp add: closedDuplicateFrame_def pushDuplicateFrame_def)+
  then show ?thesis
    using t c duplicateLoop_slot [OF assms(2)] by simp
qed

lemma scan_members:
  assumes "\<forall>(k, v)\<in>set ms. scansAs v" and "df_kind f = ObjOpen" and "\<not> df_hasPendingKey f" and "df_pendingKey f = ''''"
  shows "duplicateLoop (memberToks ms @ TDelim ObjClose # ts) (f # frames) hits =
           duplicateLoop ts frames (hits @ scanMembers (df_path f) (df_keys f) ms)"
  using assms
proof (induction ms arbitrary: f hits)
  case Nil
  then show ?case
    by (simp add: closedDuplicateFrame_def)
next
  case (Cons m ms)
  obtain k v where m: "m = (k, v)"
    by (cases m)
  define g where "g = f\<lparr>df_keys := k # df_keys f, df_pendingKey := k, df_hasPendingKey := True\<rparr>"
  define hits' where "hits' = (if k \<in> set (df_keys f)
    then hits @ [\<lparr>dh_path = renderDuplicatePath (df_path f) k, dh_key = k\<rparr>] else hits)"
  have "duplicateLoop (memberToks (m # ms) @ TDelim ObjClose # ts) (f # frames) hits =
        duplicateLoop (toks v @ memberToks ms @ TDelim ObjClose # ts) (g # frames) hits'"
    using Cons.prems by (simp add: m g_def hits'_def closedDuplicateFrame_def)
  also have "\<dots> = duplicateLoop (memberToks ms @ TDelim ObjClose # ts) (advance g # frames)
      (hits' @ scanHits (k # df_path f) v)"
    using Cons.prems scan_value [of v g "memberToks ms @ TDelim ObjClose # ts" frames hits']
    by (simp add: m g_def slot_def)
  also have "\<dots> = duplicateLoop ts frames
      (hits' @ scanHits (k # df_path f) v @ scanMembers (df_path f) (k # df_keys f) ms)"
    using Cons.prems Cons.IH [of "advance g" "hits' @ scanHits (k # df_path f) v"]
    by (simp add: g_def advance_def)
  finally show ?case
    by (simp add: m hits'_def)
qed

lemma scan_items:
  assumes "\<forall>v\<in>set vs. scansAs v" and "df_kind f = ArrOpen" and "\<not> df_hasPendingKey f"
  shows "duplicateLoop (concat (map toks vs) @ TDelim ArrClose # ts) (f # frames) hits =
           duplicateLoop ts frames (hits @ scanItems (df_path f) (df_arrayIndex f) vs)"
  using assms
proof (induction vs arbitrary: f hits)
  case Nil
  then show ?case
    by (simp add: closedDuplicateFrame_def)
next
  case (Cons v vs)
  have "duplicateLoop (concat (map toks (v # vs)) @ TDelim ArrClose # ts) (f # frames) hits =
        duplicateLoop (concat (map toks vs) @ TDelim ArrClose # ts) (advance f # frames)
          (hits @ scanHits (slot f # df_path f) v)"
    using Cons.prems scan_value [of v f "concat (map toks vs) @ TDelim ArrClose # ts" frames hits] by simp
  also have "\<dots> = duplicateLoop ts frames (hits @ scanHits (slot f # df_path f) v @
      scanItems (df_path f) (Suc (df_arrayIndex f)) vs)"
    using Cons.prems Cons.IH [of "advance f"] by (simp add: advance_def)
  finally show ?case
    using Cons.prems by (simp add: slot_def)
qed

lemma scansAs_all: "scansAs v"
proof (induction v)
  case (JObject ms)
  have "\<forall>(k, v)\<in>set ms. scansAs v"
    using JObject by (auto simp: snds.simps)
  then show ?case
    using scan_members [of ms "newDuplicateFrame ObjOpen _"]
    by (auto simp: scansAs_def openOf_def newDuplicateFrame_def)
next
  case (JArray vs)
  then show ?case
    using scan_items [of vs "newDuplicateFrame ArrOpen _"]
    by (auto simp: scansAs_def openOf_def newDuplicateFrame_def)
qed (auto simp: scansAs_def isContainer_def)

definition hitsOf :: "(string list \<times> string list) list \<Rightarrow> duplicateHit list" where
  "hitsOf objs = concat (map (\<lambda>(loc, names). objectHits loc [] names) objs)"

lemma hitsOf_simps [simp]:
  "hitsOf [] = []" "hitsOf ((loc, names) # objs) = objectHits loc [] names @ hitsOf objs"
  "hitsOf (xs @ ys) = hitsOf xs @ hitsOf ys"
  by (simp_all add: hitsOf_def)

lemma duplicateSpec_hitsOf: "duplicateSpec v = hitsOf (objectsAt [] v)"
  by (simp add: duplicateSpec_def hitsOf_def objectHits_def [abs_def])

lemma scanHits_mset:
  "mset (scanHits path v) = mset (hitsOf (objectsAt (rev path) v))"
  "mset (scanMembers path seen ms) =
     mset (objectHits (rev path) seen (map fst ms)) +
     mset (hitsOf (concat (map (\<lambda>(k, v). objectsAt (rev path @ [k]) v) ms)))"
  "mset (scanItems path i vs) = mset (hitsOf (objectsIn (rev path) i vs))"
  by (induction path v and path seen ms and path i vs rule: scanHits_scanMembers_scanItems.induct)
    (auto simp: renderDuplicatePath_pointer gs_itoa_itoa)

interpretation dup_hit: keyed_less dupHitLess "\<lambda>h. (dh_path h, dh_key h)"
  by unfold_locales (auto simp: dupHitLess_def)

lemma sortedDuplicateHits_cong: "mset xs = mset ys \<Longrightarrow> sortedDuplicateHits xs = sortedDuplicateHits ys"
  unfolding sortedDuplicateHits_def
  by (rule dup_hit.sort_slice_perm_invariant) (auto simp: inj_on_def)

lemma detectDuplicateKeys_container:
  assumes "isContainer v"
  shows "detectDuplicateKeys \<lparr>src_tokens = toks v @ rest, src_eof = e\<rparr> = sortedDuplicateHits (duplicateSpec v)"
proof -
  have "toks v = TDelim (openOf v) # tl (toks v)"
    using first_token [of v] assms by blast
  then have "detectDuplicateKeys \<lparr>src_tokens = toks v @ rest, src_eof = e\<rparr> =
      sortedDuplicateHits (duplicateLoop (tl (toks v) @ rest) [newDuplicateFrame (openOf v) []] [])"
    using openOf_cases [of v] by (cases "toks v") (auto simp: detectDuplicateKeys_def)
  also have "\<dots> = sortedDuplicateHits (scanHits [] v)"
    using scansAs_all [of v] assms by (simp add: scansAs_def)
  also have "\<dots> = sortedDuplicateHits (duplicateSpec v)"
    using scanHits_mset(1) [of "[]" v] by (intro sortedDuplicateHits_cong) (simp add: duplicateSpec_hitsOf)
  finally show ?thesis .
qed

lemma objectsAt_scalar: "\<not> isContainer v \<Longrightarrow> objectsAt loc v = []"
  by (cases v) (auto simp: isContainer_def)

lemma detectDuplicateKeys_exact:
  "detectDuplicateKeys \<lparr>src_tokens = toks v @ rest, src_eof = e\<rparr> = sortedDuplicateHits (duplicateSpec v)"
proof (cases "isContainer v")
  case False
  then have "detectDuplicateKeys \<lparr>src_tokens = toks v @ rest, src_eof = e\<rparr> = []"
    by (cases v) (auto simp: detectDuplicateKeys_def isContainer_def)
  with False show ?thesis
    by (simp add: duplicateSpec_hitsOf objectsAt_scalar sortedDuplicateHits_def)
qed (rule detectDuplicateKeys_container)

lemma repeats_Nil_iff: "repeats seen ks = [] \<longleftrightarrow> distinct ks \<and> set ks \<inter> set seen = {}"
  by (induction ks arbitrary: seen) auto

definition distinctNames :: "json \<Rightarrow> bool" where
  "distinctNames v \<longleftrightarrow> (\<forall>(loc, names)\<in>set (objectsAt [] v). distinct names)"

lemma duplicateSpec_Nil_iff: "duplicateSpec v = [] \<longleftrightarrow> distinctNames v"
  by (auto simp: duplicateSpec_def distinctNames_def repeats_Nil_iff split: prod.splits)

text \<open>
  C28. The iterative duplicate-name scanner with its stack of frames finds exactly what the
  recursive reading of the document finds: for the tokens of any JSON value (and whatever
  follows it), its result is the list, sorted by path and name, of one hit for every member of
  every object, at any depth, whose name an earlier member of that object has, each with the
  JSON pointer of the member; it is empty exactly if all objects have distinct member names.
\<close>

theorem duplicate_scan_exact:
  "detectDuplicateKeys \<lparr>src_tokens = toks v @ rest, src_eof = e\<rparr> = sortedDuplicateHits (duplicateSpec v) \<and>
   (detectDuplicateKeys \<lparr>src_tokens = toks v @ rest, src_eof = e\<rparr> = [] \<longleftrightarrow> distinctNames v)"
  unfolding detectDuplicateKeys_exact duplicateSpec_Nil_iff [symmetric] by (simp add: sortedDuplicateHits_def)

section \<open>The envelope\<close>

record envelopeResult =
  er_versionPresent :: bool
  er_versionToken :: jsonToken
  er_diagnostics :: "Diagnostic list"
  er_malformed :: bool
  er_trailing :: bool

text \<open>The zero value; the nil \<open>json.Token\<close> is also what the literal \<open>null\<close> is read as.\<close>

definition zeroEnvelope :: envelopeResult where
  "zeroEnvelope = \<lparr>er_versionPresent = False, er_versionToken = TNull, er_diagnostics = [],
     er_malformed = False, er_trailing = False\<rparr>"

text \<open>
  \<open>jsonErrorMessage\<close> gives the same text for every error, so the error of \<open>Token\<close> is not
  kept: \<open>None\<close> stands for it.
\<close>

definition jsonErrorMessage :: string where
  "jsonErrorMessage = ''malformed JSON''"

definition malformedEnvelope :: "envelopeResult \<Rightarrow> string \<Rightarrow> envelopeResult" where
  "malformedEnvelope res path =
     res\<lparr>er_malformed := True,
         er_diagnostics := er_diagnostics res @ [newDiagnostic ''GS_MALFORMED_JSON'' path jsonErrorMessage]\<rparr>"

fun consumeDepth :: "nat \<Rightarrow> jsonToken list \<Rightarrow> jsonToken list option" where
  "consumeDepth 0 ts = Some ts"
| "consumeDepth (Suc n) [] = None"
| "consumeDepth (Suc n) (tok # ts) =
     (case tok of
        TDelim d \<Rightarrow> if d = ObjOpen \<or> d = ArrOpen then consumeDepth (Suc (Suc n)) ts else consumeDepth n ts
      | _ \<Rightarrow> consumeDepth (Suc n) ts)"

definition consumeValue :: "jsonToken list \<Rightarrow> (jsonToken \<times> jsonToken list) option" where
  "consumeValue ts =
     (case ts of
        [] \<Rightarrow> None
      | first # rest \<Rightarrow>
          if first = TDelim ObjOpen \<or> first = TDelim ArrOpen
          then map_option (Pair first) (consumeDepth 1 rest)
          else Some (first, rest))"

text \<open>
  \<open>More\<close> looks at the next byte; where the next token is an error it may answer either way,
  and the scan reports the same malformed document.
\<close>

definition more :: "jsonToken list \<Rightarrow> bool" where
  "more ts = (case ts of [] \<Rightarrow> False | t # _ \<Rightarrow> t \<noteq> TDelim ObjClose \<and> t \<noteq> TDelim ArrClose)"

lemma consumeDepth_length: "consumeDepth n ts = Some rest \<Longrightarrow> length rest \<le> length ts"
  by (induction n ts rule: consumeDepth.induct) (auto split: jsonToken.splits if_splits dest: le_SucI)

lemma consumeValue_length: "consumeValue ts = Some (t, rest) \<Longrightarrow> length rest < length ts"
  by (cases ts) (auto simp: consumeValue_def less_Suc_eq_le dest: consumeDepth_length split: if_splits)

text \<open>The loop over the members: \<open>Inl\<close> is an early return.\<close>

function envelopeLoop :: "jsonToken list \<Rightarrow> envelopeResult \<Rightarrow> envelopeResult + jsonToken list \<times> envelopeResult" where
  "envelopeLoop ts res =
     (if \<not> more ts then Inr (ts, res)
      else case hd ts of
        TString key \<Rightarrow>
          (case consumeValue (tl ts) of
             None \<Rightarrow> Inl (malformedEnvelope res (''/'' @ escapePointer key))
           | Some (valueToken, rest) \<Rightarrow>
               envelopeLoop rest
                 (if key = ''schema_version''
                  then res\<lparr>er_versionPresent := True, er_versionToken := valueToken\<rparr> else res))
      | _ \<Rightarrow> Inl (res\<lparr>er_malformed := True, er_diagnostics := er_diagnostics res @
               [newDiagnostic ''GS_MALFORMED_JSON'' ''/'' ''object member name is not a string'']\<rparr>))"
  by pat_completeness auto

termination envelopeLoop
proof (relation "measure (length \<circ> fst)", goal_cases)
  case (2 ts res key p valueToken rest)
  then show ?case
    using consumeValue_length [of "tl ts" valueToken rest] by (cases ts) (auto simp: more_def)
qed simp

declare envelopeLoop.simps [simp del]

definition scanEnvelope :: "tokenSource \<Rightarrow> envelopeResult" where
  "scanEnvelope data =
     (let res = zeroEnvelope in
      case src_tokens data of
        [] \<Rightarrow> malformedEnvelope res ''''
      | tok # ts \<Rightarrow>
          if tok \<noteq> TDelim ObjOpen then
            res\<lparr>er_malformed := True, er_diagnostics := er_diagnostics res @
              [newDiagnostic ''GS_MALFORMED_JSON'' '''' ''top-level JSON value is not an object'']\<rparr>
          else case envelopeLoop ts res of
            Inl r \<Rightarrow> r
          | Inr (ts, res) \<Rightarrow>
              (case ts of
                 [] \<Rightarrow> malformedEnvelope res ''''
               | closing # ts \<Rightarrow>
                   if closing \<noteq> TDelim ObjClose then malformedEnvelope res ''''
                   else case ts of
                     [] \<Rightarrow> if src_eof data then res else malformedEnvelope res ''''
                   | _ # _ \<Rightarrow>
                       res\<lparr>er_trailing := True, er_diagnostics := er_diagnostics res @
                         [newDiagnostic ''GS_TRAILING_JSON'' '''' ''second JSON value follows the document'']\<rparr>))"

text \<open>What the decoder guarantees: the tokens are those of a sequence of values, possibly cut short.\<close>

definition decoderStream :: "tokenSource \<Rightarrow> bool" where
  "decoderStream data \<longleftrightarrow> (\<exists>vs. prefix (src_tokens data) (concat (map toks vs)))"

text \<open>The version a document states: the last member of that name decides.\<close>

definition firstToken :: "json \<Rightarrow> jsonToken" where
  "firstToken v = hd (toks v)"

definition versionProbe :: "(string \<times> json) list \<Rightarrow> envelopeResult" where
  "versionProbe ms =
     (case map_of (rev ms) ''schema_version'' of
        None \<Rightarrow> zeroEnvelope
      | Some v \<Rightarrow> zeroEnvelope\<lparr>er_versionPresent := True, er_versionToken := firstToken v\<rparr>)"

lemma consumeDepth_toks: "consumeDepth (Suc n) (toks v @ ts) = consumeDepth (Suc n) ts"
proof (induction v arbitrary: n ts)
  case (JObject ms)
  have "consumeDepth (Suc n) (memberToks ms @ ts) = consumeDepth (Suc n) ts"
    if "\<forall>(k, v)\<in>set ms. \<forall>n ts. consumeDepth (Suc n) (toks v @ ts) = consumeDepth (Suc n) ts" for ms n ts
    using that by (induction ms) auto
  from this [of ms] JObject show ?case
    by (force simp: snds.simps)
next
  case (JArray vs)
  have "consumeDepth (Suc n) (concat (map toks vs) @ ts) = consumeDepth (Suc n) ts"
    if "\<forall>v\<in>set vs. \<forall>n ts. consumeDepth (Suc n) (toks v @ ts) = consumeDepth (Suc n) ts" for vs n ts
    using that by (induction vs) auto
  from this [of vs] JArray show ?case
    by auto
qed auto

lemma consumeValue_toks: "consumeValue (toks v @ ts) = Some (firstToken v, ts)"
proof (cases v)
  case (JObject ms)
  have "consumeDepth 1 (memberToks ms @ TDelim ObjClose # ts) = Some ts" for ms ts
    by (induction ms) (auto simp: consumeDepth_toks)
  with JObject show ?thesis
    by (simp add: consumeValue_def firstToken_def)
next
  case (JArray vs)
  have "consumeDepth 1 (concat (map toks vs) @ TDelim ArrClose # ts) = Some ts" for vs ts
    by (induction vs) (auto simp: consumeDepth_toks)
  with JArray show ?thesis
    by (simp add: consumeValue_def firstToken_def)
qed (auto simp: consumeValue_def firstToken_def)

definition probeStep :: "string \<times> json \<Rightarrow> envelopeResult \<Rightarrow> envelopeResult" where
  "probeStep m res = (if fst m = ''schema_version''
     then res\<lparr>er_versionPresent := True, er_versionToken := firstToken (snd m)\<rparr> else res)"

lemma envelopeLoop_members:
  "envelopeLoop (memberToks ms @ TDelim ObjClose # ts) res = Inr (TDelim ObjClose # ts, fold probeStep ms res)"
proof (induction ms arbitrary: res)
  case Nil
  then show ?case
    by (simp add: envelopeLoop.simps more_def)
next
  case (Cons m ms)
  then show ?case
    by (cases m) (simp add: envelopeLoop.simps [of "TString k # l" for k l] more_def consumeValue_toks probeStep_def)
qed

lemma fold_probeStep: "fold probeStep ms zeroEnvelope = versionProbe ms"
proof (induction ms rule: rev_induct)
  case (snoc m ms)
  then show ?case
    by (cases m) (auto simp: probeStep_def versionProbe_def split: option.splits)
qed (simp add: versionProbe_def)

lemma scanEnvelope_object:
  "scanEnvelope \<lparr>src_tokens = toks (JObject ms) @ rest, src_eof = e\<rparr> =
     (if rest \<noteq> [] then (versionProbe ms)\<lparr>er_trailing := True, er_diagnostics :=
        [newDiagnostic ''GS_TRAILING_JSON'' '''' ''second JSON value follows the document'']\<rparr>
      else if e then versionProbe ms else malformedEnvelope (versionProbe ms) '''')"
proof -
  have "er_diagnostics (versionProbe ms) = []"
    by (simp add: versionProbe_def zeroEnvelope_def split: option.splits)
  then show ?thesis
    by (simp add: scanEnvelope_def envelopeLoop_members fold_probeStep split: list.splits)
qed

lemma consumeDepth_mono: "consumeDepth n ts = Some rest \<Longrightarrow> consumeDepth n (ts @ xs) = Some (rest @ xs)"
  by (induction n ts rule: consumeDepth.induct) (auto split: jsonToken.splits if_splits)

lemma consumeValue_mono: "consumeValue ts = Some (t, rest) \<Longrightarrow> consumeValue (ts @ xs) = Some (t, rest @ xs)"
  by (cases ts) (auto simp: consumeValue_def consumeDepth_mono split: if_splits)

lemma envelopeLoop_mono:
  "envelopeLoop ts res = Inr (c # rest, r) \<Longrightarrow> envelopeLoop (ts @ xs) res = Inr (c # rest @ xs, r)"
proof (induction ts res rule: envelopeLoop.induct)
  case (1 ts res)
  show ?case
  proof (cases "more ts")
    case False
    with "1.prems" have "ts = c # rest"
      by (simp add: envelopeLoop.simps [of ts])
    with False "1.prems" show ?thesis
      by (simp add: envelopeLoop.simps [of "_ # _"] more_def)
  next
    case True
    then obtain key valueToken rest' where k: "hd ts = TString key" and
      v: "consumeValue (tl ts) = Some (valueToken, rest')"
      using "1.prems" by (auto simp: envelopeLoop.simps [of ts] split: jsonToken.splits option.splits)
    have ne: "ts \<noteq> []"
      using True by (auto simp: more_def)
    have "more (ts @ xs)"
      using True by (auto simp: more_def split: list.splits)
    moreover have "hd (ts @ xs) = TString key" "consumeValue (tl (ts @ xs)) = Some (valueToken, rest' @ xs)"
      using k v ne by (auto simp: consumeValue_mono)
    ultimately show ?thesis
      using "1.IH" [OF _ k v] True k v "1.prems"
      by (simp add: envelopeLoop.simps [of ts] envelopeLoop.simps [of "ts @ xs"])
  qed
qed

definition envelopeAccepted :: "tokenSource \<Rightarrow> bool" where
  "envelopeAccepted data \<longleftrightarrow> \<not> er_malformed (scanEnvelope data) \<and> \<not> er_trailing (scanEnvelope data)"

lemma envelopeLoop_step:
  obtains (exit) "envelopeLoop ts res = Inr (ts, res)"
  | (refuse) r where "envelopeLoop ts res = Inl r" "er_malformed r" "er_diagnostics r \<noteq> []"
  | (member) key v rest where "more ts" "hd ts = TString key" "consumeValue (tl ts) = Some (v, rest)"
      "envelopeLoop ts res = envelopeLoop rest
         (if key = ''schema_version'' then res\<lparr>er_versionPresent := True, er_versionToken := v\<rparr> else res)"
proof (cases "more ts")
  case False
  then show thesis
    using exit by (simp add: envelopeLoop.simps [of ts])
next
  case True
  show thesis
  proof (cases "hd ts")
    case (TString key)
    with True show thesis
      using member refuse
      by (cases "consumeValue (tl ts)") (auto simp: envelopeLoop.simps [of ts] malformedEnvelope_def)
  qed (use True refuse in \<open>auto simp: envelopeLoop.simps [of ts]\<close>)
qed

lemma envelopeLoop_result:
  "case envelopeLoop ts res of
     Inl r \<Rightarrow> er_malformed r \<and> er_diagnostics r \<noteq> []
   | Inr (ts', r) \<Rightarrow> er_malformed r = er_malformed res \<and> er_trailing r = er_trailing res"
proof (induction ts res rule: envelopeLoop.induct)
  case (1 ts res)
  show ?case
  proof (cases rule: envelopeLoop_step [of ts res])
    case (member key v rest)
    then show ?thesis
      using "1.IH" [OF _ member(2,3) refl]
      by (cases "key = ''schema_version''") (auto split: sum.splits prod.splits)
  qed auto
qed

lemma scanEnvelope_refused: "\<not> envelopeAccepted data \<Longrightarrow> er_diagnostics (scanEnvelope data) \<noteq> []"
proof (cases "src_tokens data")
  case (Cons tok ts)
  assume "\<not> envelopeAccepted data"
  then show ?thesis
    using Cons envelopeLoop_result [where ts = ts and res = zeroEnvelope]
    by (auto simp: envelopeAccepted_def scanEnvelope_def malformedEnvelope_def Let_def zeroEnvelope_def
        split: list.splits if_splits sum.splits prod.splits)
qed (simp add: scanEnvelope_def malformedEnvelope_def Let_def)

lemma envelopeAccepted_loop:
  assumes "envelopeAccepted data"
  obtains ts r where "src_tokens data = TDelim ObjOpen # ts"
    and "envelopeLoop ts zeroEnvelope = Inr ([TDelim ObjClose], r)" and "src_eof data"
proof (cases "src_tokens data")
  case Nil
  with assms show thesis
    by (simp add: envelopeAccepted_def scanEnvelope_def malformedEnvelope_def)
next
  case (Cons tok ts)
  with assms that show thesis
    using envelopeLoop_result [where ts = ts and res = zeroEnvelope]
    by (auto simp: envelopeAccepted_def scanEnvelope_def malformedEnvelope_def Let_def
        split: list.splits if_splits sum.splits prod.splits)
qed

lemma toks_ObjOpen: "toks v = TDelim ObjOpen # ts \<Longrightarrow> \<exists>ms. v = JObject ms"
  by (cases v) auto

lemma envelopeAccepted_object:
  assumes acc: "envelopeAccepted data" and dec: "decoderStream data"
  shows "\<exists>ms. src_tokens data = toks (JObject ms) \<and> src_eof data"
proof -
  from acc obtain ts r where d: "src_tokens data = TDelim ObjOpen # ts"
    and l: "envelopeLoop ts zeroEnvelope = Inr ([TDelim ObjClose], r)" and e: "src_eof data"
    by (rule envelopeAccepted_loop)
  from dec obtain vs xs where "concat (map toks vs) = src_tokens data @ xs"
    by (auto simp: decoderStream_def prefix_def)
  then obtain v vs' where vs: "toks v @ concat (map toks vs') = TDelim ObjOpen # ts @ xs"
    using d by (cases vs) auto
  then obtain ms where v: "v = JObject ms"
    using toks_ObjOpen by (cases "toks v") auto
  let ?rest = "concat (map toks vs')"
  have "ts @ xs = memberToks ms @ TDelim ObjClose # ?rest"
    using vs v by simp
  moreover have "envelopeLoop (ts @ xs) zeroEnvelope = Inr (TDelim ObjClose # xs, r)"
    using envelopeLoop_mono [OF l, of xs] by simp
  ultimately have "xs = ?rest"
    by (simp add: envelopeLoop_members)
  with vs v d e show ?thesis
    by auto
qed

lemma scanEnvelope_probe:
  "src_tokens data = toks (JObject ms) \<Longrightarrow> src_eof data \<Longrightarrow> scanEnvelope data = versionProbe ms"
  using scanEnvelope_object [of ms "[]" True] by (cases data) simp

lemma versionProbe_clean [simp]:
  "\<not> er_malformed (versionProbe ms)" "\<not> er_trailing (versionProbe ms)" "er_diagnostics (versionProbe ms) = []"
  by (simp_all add: versionProbe_def zeroEnvelope_def split: option.splits)

lemma envelopeAccepted_iff:
  "decoderStream data \<Longrightarrow> envelopeAccepted data \<longleftrightarrow> (\<exists>ms. src_tokens data = toks (JObject ms) \<and> src_eof data)"
  using envelopeAccepted_object scanEnvelope_probe versionProbe_clean by (metis envelopeAccepted_def)

text \<open>
  C31. On every token sequence that the JSON decoder can deliver (the tokens of a sequence of values,
  complete or cut short at any point), the envelope scan accepts exactly the single complete
  objects followed by the end of input, and then reports the value of the last top-level member
  named \<open>schema_version\<close>, whatever nested objects hold; every document it refuses carries a
  diagnostic.
\<close>

theorem envelope_accepts_exactly_objects:
  assumes "decoderStream data"
  shows "(envelopeAccepted data \<longleftrightarrow> (\<exists>ms. src_tokens data = toks (JObject ms) \<and> src_eof data)) \<and>
         (\<forall>ms. src_tokens data = toks (JObject ms) \<longrightarrow> src_eof data \<longrightarrow> scanEnvelope data = versionProbe ms) \<and>
         (envelopeAccepted data \<longleftrightarrow> er_diagnostics (scanEnvelope data) = [])"
  using envelopeAccepted_iff [OF assms] scanEnvelope_probe scanEnvelope_refused versionProbe_clean(3) by metis

lemma envelope_accepts_exactly_objects_witness:
  "\<not> envelopeAccepted \<lparr>src_tokens = [TDelim ObjOpen, TString ''schema_version'', TNumber ''1''], src_eof = True\<rparr>"
proof -
  let ?v = "JObject [(''schema_version'', JNumber ''1'')]"
  let ?data = "\<lparr>src_tokens = [TDelim ObjOpen, TString ''schema_version'', TNumber ''1''], src_eof = True\<rparr>"
  have "decoderStream ?data"
    unfolding decoderStream_def by (rule exI [of _ "[?v]"]) simp
  moreover have "src_tokens ?data \<noteq> toks (JObject ms)" for ms
  proof -
    have "last (toks (JObject ms)) = TDelim ObjClose"
      by simp
    moreover have "last (src_tokens ?data) \<noteq> TDelim ObjClose"
      by simp
    ultimately show ?thesis
      by metis
  qed
  ultimately show ?thesis
    using envelope_accepts_exactly_objects [of ?data] by blast
qed

section \<open>The schema version\<close>

text \<open>\<open>VersionZero\<close> is the zero value of the \<open>uint8\<close>, which no document has.\<close>

datatype Version = VersionZero | Version1 | Version2 | Version3

definition versionString :: "Version \<Rightarrow> string" where
  "versionString v = (case v of Version1 \<Rightarrow> ''v1'' | Version2 \<Rightarrow> ''v2'' | Version3 \<Rightarrow> ''v3'' | VersionZero \<Rightarrow> ''v?'')"

definition isDigit :: "char \<Rightarrow> bool" where
  "isDigit c \<longleftrightarrow> CHR ''0'' \<le> c \<and> c \<le> CHR ''9''"

text \<open>The regular expression \<open>^-?(0|[1-9][0-9]*)$\<close>.\<close>

definition isNaturalSpelling :: "string \<Rightarrow> bool" where
  "isNaturalSpelling s \<longleftrightarrow>
     s = ''0'' \<or> (s \<noteq> [] \<and> CHR ''1'' \<le> hd s \<and> hd s \<le> CHR ''9'' \<and> list_all isDigit (tl s))"

definition integerLexicalRe :: "string \<Rightarrow> bool" where
  "integerLexicalRe s \<longleftrightarrow> isNaturalSpelling (if s \<noteq> [] \<and> hd s = CHR ''-'' then tl s else s)"

record versionDecision =
  vd_version :: Version
  vd_raw :: string
  vd_code :: string

definition encodeTokenAsString :: "jsonToken \<Rightarrow> string" where
  "encodeTokenAsString tok =
     (case tok of
        TNumber v \<Rightarrow> v
      | TString v \<Rightarrow> v
      | TBool v \<Rightarrow> if v then ''true'' else ''false''
      | TNull \<Rightarrow> ''null''
      | TDelim v \<Rightarrow> if v = ObjOpen then ''{'' else ''['')"

definition classifyVersion :: "jsonToken \<Rightarrow> versionDecision" where
  "classifyVersion tok =
     (case tok of
        TNull \<Rightarrow> \<lparr>vd_version = VersionZero, vd_raw = ''null'', vd_code = ''GS_INVALID_VERSION_TYPE''\<rparr>
      | TNumber s \<Rightarrow>
          if \<not> integerLexicalRe s
          then \<lparr>vd_version = VersionZero, vd_raw = s, vd_code = ''GS_INVALID_VERSION_TYPE''\<rparr>
          else if s = ''1'' then \<lparr>vd_version = Version1, vd_raw = s, vd_code = ''''\<rparr>
          else if s = ''2'' then \<lparr>vd_version = Version2, vd_raw = s, vd_code = ''''\<rparr>
          else if s = ''3'' then \<lparr>vd_version = Version3, vd_raw = s, vd_code = ''''\<rparr>
          else \<lparr>vd_version = VersionZero, vd_raw = s, vd_code = ''GS_UNSUPPORTED_VERSION''\<rparr>
      | v \<Rightarrow> \<lparr>vd_version = VersionZero, vd_raw = encodeTokenAsString v, vd_code = ''GS_INVALID_VERSION_TYPE''\<rparr>)"

text \<open>
  The version is dispatched exactly for the spellings 1, 2 and 3; an integer of any size is
  unsupported, any other token of the wrong type.
\<close>

lemma classifyVersion_dispatch:
  "vd_code (classifyVersion tok) = '''' \<longleftrightarrow> (\<exists>s. tok = TNumber s \<and> s \<in> {''1'', ''2'', ''3''})"
  "vd_code (classifyVersion tok) = '''' \<longleftrightarrow> vd_version (classifyVersion tok) \<noteq> VersionZero"
  by (auto simp: classifyVersion_def integerLexicalRe_def isNaturalSpelling_def split: jsonToken.splits if_splits)

text \<open>A valid spelling is that of exactly one integer, and every integer has one.\<close>

fun digitsValue :: "nat \<Rightarrow> string \<Rightarrow> nat" where
  "digitsValue acc [] = acc"
| "digitsValue acc (c # cs) = digitsValue (10 * acc + (of_char c - 48)) cs"

definition integerValue :: "string \<Rightarrow> int" where
  "integerValue s =
     (if s \<noteq> [] \<and> hd s = CHR ''-'' then - int (digitsValue 0 (tl s)) else int (digitsValue 0 s))"

lemma digitsValue_append: "digitsValue acc (xs @ ys) = digitsValue (digitsValue acc xs) ys"
  by (induction xs arbitrary: acc) auto

lemma digitsValue_digits_of: "digitsValue 0 (digits_of n) = n"
proof (induction n rule: digits_of.induct)
  case (1 n)
  have c: "of_char (char_of (48 + m) :: char) = 48 + m" if "m < 10" for m :: nat
    using that by simp
  show ?case
  proof (cases "n < 10")
    case True
    then show ?thesis
      using c [of n] by (simp add: digits_of.simps [of n])
  next
    case False
    then show ?thesis
      using 1 c [of "n mod 10"] by (simp add: digits_of.simps [of n] digitsValue_append)
  qed
qed

end
