(* ===== verification/Gate_Schema.thy ===== *)
theory Gate_Schema
  imports Gate_Json
begin

text \<open>
  The translation of schema validation errors into diagnostics
  (\<open>schema_error_identity.go\<close>, \<open>schema_error_translate.go\<close>).

  The tree of errors comes from the validator \<open>jsonschema/v6\<close>, which is not part of the
  repository; the model has the fields the translator reads.  A nil node and a nil error kind are
  \<open>None\<close>.  The keyword path of an error kind is a field of the node, and \<open>urlParse\<close> is
  what \<open>url.Parse\<close> returns for a schema URL: the URL without fragment and the decoded
  fragment, or \<open>None\<close> for an error.
\<close>

section \<open>Error trees\<close>

datatype errorKind =
    KRequired "string list"
  | KAdditionalProperties "string list"
  | KAnyOf
  | KType
  | KConst
  | KEnum
  | KPattern
  | KMinimum
  | KFormat
  | KMinLength
  | KMaxItems int int
  | KMaxLength int int
  | KNot
  | KSchema
  | KGroup
  | KReference
  | KOther

datatype validationError =
  ValidationError (ve_SchemaURL: string) (ve_InstanceLocation: "string list") (ve_ErrorKind: "errorKind option")
    (ve_KeywordPath: "string list") (ve_Causes: "validationError option list")

section \<open>Identity of keywords and locations\<close>

definition v2SchemaID :: string where
  "v2SchemaID = ''urn:leamas:gate-summary:v2''"

definition testTotalAnyOfTokens :: "string list" where
  "testTotalAnyOfTokens = [''$defs'', ''check'', ''anyOf'']"

definition parseSchemaURL :: "(string \<Rightarrow> (string \<times> string) option) \<Rightarrow> string \<Rightarrow> string \<times> string list" where
  "parseSchemaURL urlParse raw =
     (case urlParse raw of
        None \<Rightarrow> (raw, [])
      | Some (base, fragment) \<Rightarrow>
          (case decodePointerFragment fragment of None \<Rightarrow> (base, []) | Some tokens \<Rightarrow> (base, tokens)))"

definition keywordIdentity ::
  "(string \<Rightarrow> (string \<times> string) option) \<Rightarrow> validationError \<Rightarrow> string \<times> string list" where
  "keywordIdentity urlParse node =
     (case ve_ErrorKind node of
        None \<Rightarrow> ('''', [])
      | Some k \<Rightarrow>
          (case parseSchemaURL urlParse (ve_SchemaURL node) of
             (base, fragmentTokens) \<Rightarrow>
               (base, fragmentTokens @ (if k = KNot then [''not''] else ve_KeywordPath node))))"

definition isTestTotalAnyOf :: "string \<Rightarrow> string list \<Rightarrow> bool" where
  "isTestTotalAnyOf baseURL tokens \<longleftrightarrow> baseURL = v2SchemaID \<and> tokens = testTotalAnyOfTokens"

definition isArrayIndexToken :: "string \<Rightarrow> bool" where
  "isArrayIndexToken token \<longleftrightarrow>
     (if token = ''0'' then True
      else if token = '''' \<or> hd token < CHR ''1'' \<or> hd token > CHR ''9'' then False
      else list_all (\<lambda>c. \<not> (c < CHR ''0'' \<or> c > CHR ''9'')) (tl token))"

definition isSchemaVersionLocation :: "string list \<Rightarrow> bool" where
  "isSchemaVersionLocation location \<longleftrightarrow> location = [''schema_version'']"

definition isGeneratedAtLocation :: "string list \<Rightarrow> bool" where
  "isGeneratedAtLocation location \<longleftrightarrow> location = [''generated_at'']"

definition isStatusLocation :: "string list \<Rightarrow> bool" where
  "isStatusLocation location \<longleftrightarrow>
     (case location of
        [a] \<Rightarrow> a \<in> {''overall_status'', ''scope_status'', ''parent_status''}
      | [a, b, c] \<Rightarrow> a = ''checks'' \<and> isArrayIndexToken b \<and> c = ''status''
      | _ \<Rightarrow> False)"

definition isOIDLocation :: "string list \<Rightarrow> bool" where
  "isOIDLocation location \<longleftrightarrow>
     (case location of
        [a] \<Rightarrow> a \<in> {''execution_head_oid'', ''execution_tree_oid'', ''subject_tree_oid''}
      | _ \<Rightarrow> False)"

definition isOutputHashLocation :: "string list \<Rightarrow> bool" where
  "isOutputHashLocation location \<longleftrightarrow>
     (case location of
        [a, b, c, d] \<Rightarrow> a = ''checks'' \<and> isArrayIndexToken b \<and> c = ''extras'' \<and> d \<in> {''stdout_sha256'', ''stderr_sha256''}
      | _ \<Rightarrow> False)"

definition isDurationLocation :: "string list \<Rightarrow> bool" where
  "isDurationLocation location \<longleftrightarrow>
     (case location of
        [a, b, c, d] \<Rightarrow> a = ''checks'' \<and> isArrayIndexToken b \<and> c = ''extras'' \<and> d = ''duration_ms''
      | _ \<Rightarrow> False)"

section \<open>Translation\<close>

definition fanoutMissing :: "string \<Rightarrow> string list \<Rightarrow> Diagnostic list" where
  "fanoutMissing instancePath missing =
     map (\<lambda>name. newDiagnostic ''GS_REQUIRED_FIELD_MISSING'' (appendPointer instancePath name) ''required field is missing'')
       (sort_slice (<) missing)"

definition fanoutAdditional :: "string \<Rightarrow> string list \<Rightarrow> Diagnostic list" where
  "fanoutAdditional instancePath properties =
     map (\<lambda>name. newDiagnostic ''GS_UNKNOWN_FIELD'' (appendPointer instancePath name)
         ''unknown field rejected by additionalProperties:false'')
       (sort_slice (<) properties)"

definition emitEnum :: "string list \<Rightarrow> string \<Rightarrow> Diagnostic" where
  "emitEnum location path =
     (if isStatusLocation location then newDiagnostic ''GS_INVALID_STATUS'' path ''invalid status value''
      else newDiagnostic ''GS_SCHEMA_VIOLATION'' path ''enum mismatch'')"

definition emitType :: "string list \<Rightarrow> string \<Rightarrow> Diagnostic" where
  "emitType location path =
     (if isOIDLocation location then newDiagnostic ''GS_INVALID_OID'' path ''invalid execution OID''
      else newDiagnostic ''GS_SCHEMA_VIOLATION'' path ''type mismatch'')"

definition emitPattern :: "string list \<Rightarrow> string \<Rightarrow> Diagnostic" where
  "emitPattern location path =
     (if isOIDLocation location then newDiagnostic ''GS_INVALID_OID'' path ''invalid execution OID''
      else if isOutputHashLocation location
      then newDiagnostic ''GS_INVALID_OUTPUT_HASH'' path ''output hash is not 64 lowercase hex''
      else newDiagnostic ''GS_SCHEMA_VIOLATION'' path ''pattern mismatch'')"

definition emitMaxItems :: "string \<Rightarrow> string \<Rightarrow> int \<Rightarrow> int \<Rightarrow> Diagnostic" where
  "emitMaxItems baseURL path got want =
     (if baseURL \<noteq> v2SchemaID then newDiagnostic ''GS_SCHEMA_VIOLATION'' path ''max-items violation''
      else (newDiagnostic ''GS_COLLECTION_LIMIT'' path ''collection exceeds schema-defined maximum'')
        \<lparr>dg_Expected := itoa want, dg_Observed := itoa got\<rparr>)"

definition emitMaxLength :: "string \<Rightarrow> string \<Rightarrow> int \<Rightarrow> int \<Rightarrow> Diagnostic" where
  "emitMaxLength baseURL path got want =
     (if baseURL \<noteq> v2SchemaID then newDiagnostic ''GS_SCHEMA_VIOLATION'' path ''max-length violation''
      else (newDiagnostic ''GS_COLLECTION_LIMIT'' path ''string exceeds schema-defined maximum'')
        \<lparr>dg_Expected := itoa want, dg_Observed := itoa got\<rparr>)"

text \<open>The diagnostics \<open>translateNode\<close> adds, in order.\<close>

definition translateNode :: "(string \<Rightarrow> (string \<times> string) option) \<Rightarrow> validationError \<Rightarrow> errorKind \<Rightarrow> Diagnostic list" where
  "translateNode urlParse node k =
     (let location = ve_InstanceLocation node;
          path = instanceLocationToPointer location;
          (baseURL, keywordTokens) = keywordIdentity urlParse node
      in case k of
           KRequired missing \<Rightarrow>
             if ''schema_version'' \<in> set missing
             then [newDiagnostic ''GS_INTERNAL'' ''/schema_version'' ''schema_version missing after dispatch'']
             else fanoutMissing path missing
         | KAdditionalProperties properties \<Rightarrow> fanoutAdditional path properties
         | _ \<Rightarrow>
             if k = KAnyOf \<and> isTestTotalAnyOf baseURL keywordTokens
             then [newDiagnostic ''GS_PARTIAL_TEST_TOTALS'' path ''test totals must all be present or all be absent'']
             else if isSchemaVersionLocation location \<and> (k = KType \<or> k = KConst)
             then [newDiagnostic ''GS_INTERNAL'' ''/schema_version'' ''schema_version mismatch after dispatch'']
             else
               (case k of
                  KEnum \<Rightarrow> [emitEnum location path]
                | KType \<Rightarrow> [emitType location path]
                | KPattern \<Rightarrow> [emitPattern location path]
                | KMinimum \<Rightarrow>
                    if isDurationLocation location
                    then [newDiagnostic ''GS_INVALID_DURATION'' path ''duration_ms is negative'']
                    else [newDiagnostic ''GS_SCHEMA_VIOLATION'' path ''minimum violation'']
                | KMaxItems got want \<Rightarrow> [emitMaxItems baseURL path got want]
                | KMaxLength got want \<Rightarrow> [emitMaxLength baseURL path got want]
                | _ \<Rightarrow>
                    if k = KFormat \<or> k = KMinLength
                    then if isGeneratedAtLocation location
                      then [newDiagnostic ''GS_INVALID_TIMESTAMP'' ''/generated_at''
                              ''generated_at must be a valid RFC 3339 timestamp'']
                      else [newDiagnostic ''GS_SCHEMA_VIOLATION'' path ''format or min-length violation'']
                    else [newDiagnostic ''GS_SCHEMA_VIOLATION'' path ''unmapped selected-schema leaf'']))"

definition isWrapperKind :: "errorKind \<Rightarrow> bool" where
  "isWrapperKind k \<longleftrightarrow> k = KSchema \<or> k = KGroup \<or> k = KReference"

definition validRootWrapper :: "validationError option \<Rightarrow> bool" where
  "validRootWrapper root \<longleftrightarrow>
     (case root of None \<Rightarrow> False | Some node \<Rightarrow> ve_Causes node \<noteq> [] \<and> ve_ErrorKind node = Some KSchema)"

text \<open>The loop of \<open>walkCauses\<close>; the stack has its top first, so pushing in reverse prepends.\<close>

function (sequential) walkLoop ::
  "(string \<Rightarrow> (string \<times> string) option) \<Rightarrow> validationError option list \<Rightarrow> diagnosticSet \<Rightarrow> diagnosticSet" where
  "walkLoop urlParse [] ds = ds"
| "walkLoop urlParse (None # stack) ds =
     walkLoop urlParse stack (ds_add (newDiagnostic ''GS_INTERNAL'' ''/'' ''malformed schema validation cause'') ds)"
| "walkLoop urlParse (Some node # stack) ds =
     (case ve_ErrorKind node of
        None \<Rightarrow> walkLoop urlParse stack (ds_add (newDiagnostic ''GS_INTERNAL'' ''/'' ''malformed schema validation cause'') ds)
      | Some k \<Rightarrow>
          if isWrapperKind k then
            if ve_Causes node = [] then
              walkLoop urlParse stack (ds_add (newDiagnostic ''GS_SCHEMA_VIOLATION''
                (instanceLocationToPointer (ve_InstanceLocation node)) ''empty wrapper'') ds)
            else walkLoop urlParse (ve_Causes node @ stack) ds
          else walkLoop urlParse stack (ds_addAll (translateNode urlParse node k) ds))"
  by pat_completeness auto

lemma size_causes: "size_list (size_option size) (ve_Causes node) < size node"
  by (cases node) simp

termination walkLoop
  by (relation "measure (\<lambda>(urlParse, stack, ds). size_list (size_option size) stack)")
    (auto intro: less_SucI [OF less_SucI [OF size_causes]])

definition walkCauses ::
  "(string \<Rightarrow> (string \<times> string) option) \<Rightarrow> validationError option list \<Rightarrow> diagnosticSet \<Rightarrow> diagnosticSet" where
  "walkCauses urlParse causes ds = walkLoop urlParse causes ds"

definition translate :: "(string \<Rightarrow> (string \<times> string) option) \<Rightarrow> validationError option \<Rightarrow> Diagnostic list" where
  "translate urlParse root =
     (case root of
        Some node \<Rightarrow>
          if \<not> validRootWrapper root
          then ds_emit (ds_add (newDiagnostic ''GS_INTERNAL'' ''/'' ''malformed schema validation root'') emptyDiagnostics)
          else ds_emit (walkCauses urlParse (ve_Causes node) emptyDiagnostics)
      | None \<Rightarrow> ds_emit (ds_add (newDiagnostic ''GS_INTERNAL'' ''/'' ''malformed schema validation root'') emptyDiagnostics))"

text \<open>The reference: a recursive walk that lists the diagnostics in the order of the tree.\<close>

fun causeDiagnostics :: "(string \<Rightarrow> (string \<times> string) option) \<Rightarrow> validationError option \<Rightarrow> Diagnostic list" where
  "causeDiagnostics urlParse None = [newDiagnostic ''GS_INTERNAL'' ''/'' ''malformed schema validation cause'']"
| "causeDiagnostics urlParse (Some (ValidationError url location kind path causes)) =
     (case kind of
        None \<Rightarrow> [newDiagnostic ''GS_INTERNAL'' ''/'' ''malformed schema validation cause'']
      | Some k \<Rightarrow>
          if \<not> isWrapperKind k then translateNode urlParse (ValidationError url location kind path causes) k
          else if causes = []
          then [newDiagnostic ''GS_SCHEMA_VIOLATION'' (instanceLocationToPointer location) ''empty wrapper'']
          else concat (map (causeDiagnostics urlParse) causes))"

lemma walkLoop_reference:
  "walkLoop urlParse stack ds = ds_addAll (concat (map (causeDiagnostics urlParse) stack)) ds"
proof (induction urlParse stack ds rule: walkLoop.induct)
  case (1 urlParse ds)
  then show ?case
    by (simp add: ds_addAll_def)
next
  case (2 urlParse stack ds)
  then show ?case
    by (simp add: ds_addAll_def)
next
  case (3 urlParse node stack ds)
  then show ?case
    by (cases node) (auto simp: ds_addAll_append ds_addAll_def split: option.splits)
qed

text \<open>
  The iterative walk over the validator's error tree terminates on every tree and reports the
  diagnostics of the recursive walk: translating a well-formed root emits, once per code and path
  and ordered by precedence and path, what the leaves of the tree translate to in tree order.
\<close>

theorem translate_recursive:
  assumes "validRootWrapper (Some node)"
  shows "translate urlParse (Some node) = emitOf (concat (map (causeDiagnostics urlParse) (ve_Causes node)))"
  using assms by (simp add: translate_def walkCauses_def walkLoop_reference ds_emit_addAll)

lemma translate_recursive_witness:
  "map dg_Code (translate (\<lambda>u. None) (Some (ValidationError '''' [] (Some KSchema) []
     [Some (ValidationError '''' [''schema_version''] (Some KConst) [] []),
      Some (ValidationError '''' [] (Some KGroup) []
        [Some (ValidationError '''' [''generated_at''] (Some KFormat) [] []), None])]))) =
     [''GS_INVALID_TIMESTAMP'', ''GS_INTERNAL'', ''GS_INTERNAL'']"
proof -
  let ?causes = "[Some (ValidationError '''' [''schema_version''] (Some KConst) [] []),
      Some (ValidationError '''' [] (Some KGroup) []
        [Some (ValidationError '''' [''generated_at''] (Some KFormat) [] []), None])]"
  have "validRootWrapper (Some (ValidationError '''' [] (Some KSchema) [] ?causes))"
    by (simp add: validRootWrapper_def)
  from translate_recursive [OF this, of "\<lambda>u. None"] show ?thesis
    by (simp only: validationError.sel) code_simp
qed

lemma translateNode_nonempty: "k \<noteq> KRequired [] \<Longrightarrow> k \<noteq> KAdditionalProperties [] \<Longrightarrow> translateNode urlParse node k \<noteq> []"
proof -
  have m: "sort_slice (<) xs = [] \<longleftrightarrow> xs = []" for xs :: "string list"
    by simp
  show "k \<noteq> KRequired [] \<Longrightarrow> k \<noteq> KAdditionalProperties [] \<Longrightarrow> translateNode urlParse node k \<noteq> []"
    by (cases "keywordIdentity urlParse node"; cases k)
      (auto simp: translateNode_def Let_def fanoutMissing_def fanoutAdditional_def)
qed

text \<open>A location token is an array index exactly if it is the decimal spelling of a number.\<close>

lemma isArrayIndexToken_natural: "isArrayIndexToken t \<longleftrightarrow> isNaturalSpelling t"
  by (auto simp: isArrayIndexToken_def isNaturalSpelling_def isDigit_def list_all_iff not_less)

text \<open>
  The validator names at least one property in every error about missing or additional
  properties; then every rejection has a diagnostic.
\<close>

fun namesProperties :: "validationError option \<Rightarrow> bool" where
  "namesProperties None = True"
| "namesProperties (Some (ValidationError url location kind path causes)) \<longleftrightarrow>
     kind \<noteq> Some (KRequired []) \<and> kind \<noteq> Some (KAdditionalProperties []) \<and> list_all namesProperties causes"

lemma causeDiagnostics_nonempty: "namesProperties ve \<Longrightarrow> causeDiagnostics urlParse ve \<noteq> []"
proof (induction urlParse ve rule: causeDiagnostics.induct)
  case (2 urlParse url location kind path causes)
  show ?case
  proof (cases kind)
    case (Some k)
    show ?thesis
    proof (cases "isWrapperKind k \<and> causes \<noteq> []")
      case True
      then obtain c cs where "causes = c # cs"
        by (cases causes) auto
      with 2 Some True show ?thesis
        by simp
    next
      case False
      with 2(2) Some show ?thesis
        by (auto simp: translateNode_nonempty)
    qed
  qed simp
qed simp

lemma translate_nonempty: "namesProperties ve \<Longrightarrow> translate urlParse ve \<noteq> []"
proof (cases "validRootWrapper ve")
  case True
  assume n: "namesProperties ve"
  from True obtain node where ve: "ve = Some node" "ve_Causes node \<noteq> []"
    by (cases ve) (auto simp: validRootWrapper_def)
  have "c \<in> set (ve_Causes node) \<Longrightarrow> causeDiagnostics urlParse c \<noteq> []" for c
    using n causeDiagnostics_nonempty by (cases node) (auto simp: ve list_all_iff)
  then show ?thesis
    using ve True by (cases "ve_Causes node") (auto simp: translate_def walkCauses_def walkLoop_reference ds_emit_addAll)
next
  case False
  then show ?thesis
    using ds_emit_addAll [of "[newDiagnostic ''GS_INTERNAL'' ''/'' ''malformed schema validation root'']"]
    by (auto simp: translate_def ds_addAll_def split: option.splits)
qed

end
