(* ===== verification/Gate_Summary.thy ===== *)
theory Gate_Summary
  imports Gate_Json
begin

text \<open>
  The data of the gate-summary package: the wire records of the
  three schema versions (\<open>wire_v1.go\<close>, \<open>wire_v2.go\<close>, \<open>wire_v3.go\<close>,
  \<open>wire_integer.go\<close>), the sealed document (\<open>document.go\<close>), the normalized model
  (\<open>normalized_types.go\<close>, \<open>normalized_integer.go\<close>).


  A pointer that may be nil is an option; a nil and an empty slice are the same list.
\<close>

section \<open>Wire integers\<close>

record WireInteger =
  wi_raw :: string

text \<open>
  \<open>big.Rat.SetString\<close> on the spelling of a JSON number: the decimal mantissa and the power
  of ten it is scaled by.  The exponent is read as an \<open>int64\<close>.  The wire integers of the
  program come from the JSON decoder, so their spelling is empty or a JSON number; on other
  strings the result is \<open>None\<close>.
\<close>

definition exponentPart :: "string \<Rightarrow> int option" where
  "exponentPart s =
     (if s = [] then Some 0
      else if hd s = CHR ''e'' \<or> hd s = CHR ''E'' then
        let r = tl s;
            d = (if r \<noteq> [] \<and> (hd r = CHR ''+'' \<or> hd r = CHR ''-'') then tl r else r);
            v = (if r \<noteq> [] \<and> hd r = CHR ''-'' then - int (digitsValue 0 d) else int (digitsValue 0 d))
        in if d \<noteq> [] \<and> list_all isDigit d \<and> - (2 ^ 63) \<le> v \<and> v < 2 ^ 63 then Some v else None
      else None)"

definition jsonNumber :: "string \<Rightarrow> (int \<times> int) option" where
  "jsonNumber s =
     (let neg = (s \<noteq> [] \<and> hd s = CHR ''-'');
          u = (if neg then tl s else s);
          ip = takeWhile isDigit u; r = dropWhile isDigit u;
          point = (r \<noteq> [] \<and> hd r = CHR ''.'');
          fp = (if point then takeWhile isDigit (tl r) else []);
          r' = (if point then dropWhile isDigit (tl r) else r);
          m = int (digitsValue 0 (ip @ fp))
      in if \<not> isNaturalSpelling ip \<or> (point \<and> fp = []) then None
         else map_option (\<lambda>ex. (if neg then - m else m, ex - int (length fp))) (exponentPart r'))"

text \<open>\<open>SetString\<close> refuses a non-zero mantissa with a scale beyond a million.\<close>

definition exactBigInt :: "string \<Rightarrow> int option" where
  "exactBigInt number =
     (case jsonNumber number of
        None \<Rightarrow> None
      | Some (m, scale) \<Rightarrow>
          if m = 0 then Some 0
          else if \<bar>scale\<bar> > 1000000 then None
          else if 0 \<le> scale then Some (m * 10 ^ nat scale)
          else if 10 ^ nat (- scale) dvd m then Some (m div 10 ^ nat (- scale))
          else None)"

definition wire_String :: "WireInteger \<Rightarrow> string" where
  "wire_String n = wi_raw n"

definition wire_BigInt :: "WireInteger \<Rightarrow> int option" where
  "wire_BigInt n = (if wi_raw n = '''' then None else exactBigInt (wi_raw n))"

definition isInt64 :: "int \<Rightarrow> bool" where
  "isInt64 v \<longleftrightarrow> - (2 ^ 63) \<le> v \<and> v < 2 ^ 63"

definition wire_Int64 :: "WireInteger \<Rightarrow> int option" where
  "wire_Int64 n = (case wire_BigInt n of None \<Rightarrow> None | Some v \<Rightarrow> if isInt64 v then Some v else None)"

datatype wireError = WireDecode | WireNotNumber | WireNotIntegral | WireExtra

text \<open>\<open>UnmarshalJSON\<close> on the tokens of the bytes it is given.\<close>

definition UnmarshalWireInteger :: "tokenSource \<Rightarrow> wireError + WireInteger" where
  "UnmarshalWireInteger data =
     (case src_tokens data of
        [] \<Rightarrow> Inl WireDecode
      | token # rest \<Rightarrow>
          (case token of
             TNumber number \<Rightarrow>
               if exactBigInt number = None then Inl WireNotIntegral
               else if rest \<noteq> [] then Inl WireExtra
               else if \<not> src_eof data then Inl WireDecode
               else Inr \<lparr>wi_raw = number\<rparr>
           | _ \<Rightarrow> Inl WireNotNumber))"

section \<open>Normalized integers\<close>

record Integer =
  gi_raw :: string

datatype normError =
    InvalidSealedDocument
  | EmptyWireInteger
  | NotJSONInteger string
  | InvalidInteger string
  | ImpossibleVersion
  | InjectedFault
  | InjectedInternalFailure

text \<open>\<open>big.Int.SetString\<close> in base ten.\<close>

definition bigIntSetString :: "string \<Rightarrow> int option" where
  "bigIntSetString s =
     (let signed = (s \<noteq> [] \<and> (hd s = CHR ''+'' \<or> hd s = CHR ''-''));
          d = (if signed then tl s else s)
      in if d \<noteq> [] \<and> list_all isDigit d
         then Some (if signed \<and> hd s = CHR ''-'' then - int (digitsValue 0 d) else int (digitsValue 0 d))
         else None)"

definition newIntegerFromWire :: "WireInteger \<Rightarrow> normError + Integer" where
  "newIntegerFromWire w =
     (let raw = wire_String w
      in if raw = '''' then Inl EmptyWireInteger
         else if \<not> integerLexicalRe raw then Inl (NotJSONInteger raw)
         else if bigIntSetString raw = None then Inl (InvalidInteger raw)
         else Inr \<lparr>gi_raw = raw\<rparr>)"

definition gi_String :: "Integer \<Rightarrow> string" where
  "gi_String i = gi_raw i"

definition gi_BigInt :: "Integer \<Rightarrow> int option" where
  "gi_BigInt i = (if gi_raw i = '''' then None else exactBigInt (gi_raw i))"

definition gi_Int64 :: "Integer \<Rightarrow> int option" where
  "gi_Int64 i = (case gi_BigInt i of None \<Rightarrow> None | Some v \<Rightarrow> if isInt64 v then Some v else None)"

definition gi_Sign :: "Integer \<Rightarrow> int" where
  "gi_Sign i = (case gi_BigInt i of None \<Rightarrow> 0 | Some v \<Rightarrow> sgn v)"

definition gi_IsZero :: "Integer \<Rightarrow> bool" where
  "gi_IsZero i \<longleftrightarrow> gi_Sign i = 0"

lemma isDigit_minus [simp]: "\<not> isDigit (CHR ''-'')" "\<not> isDigit (CHR ''+'')"
  by (simp_all add: isDigit_def)

lemma isNaturalSpelling_digits: "isNaturalSpelling s \<Longrightarrow> s \<noteq> [] \<and> list_all isDigit s"
proof -
  have le: "CHR ''0'' \<le> CHR ''1''"
    by code_simp
  have "isDigit c" if "CHR ''1'' \<le> c" "c \<le> CHR ''9''" for c
    using order_trans [OF le that(1)] that(2) by (simp add: isDigit_def)
  moreover have "isDigit (CHR ''0'')"
    by code_simp
  ultimately show "isNaturalSpelling s \<Longrightarrow> s \<noteq> [] \<and> list_all isDigit s"
    by (cases s) (auto simp: isNaturalSpelling_def)
qed

lemma takeWhile_digits: "list_all isDigit s \<Longrightarrow> takeWhile isDigit s = s \<and> dropWhile isDigit s = []"
  by (simp add: list_all_iff takeWhile_eq_all_conv dropWhile_eq_Nil_conv)

text \<open>On the spellings of the JSON integer grammar both conversions give the decimal value.\<close>

lemma jsonNumber_natural:
  assumes "isNaturalSpelling u"
  shows "jsonNumber u = Some (int (digitsValue 0 u), 0)"
    and "jsonNumber (CHR ''-'' # u) = Some (- int (digitsValue 0 u), 0)"
proof -
  have d: "list_all isDigit u" "u \<noteq> []"
    using isNaturalSpelling_digits [OF assms] by simp_all
  have w: "takeWhile isDigit u = u" "dropWhile isDigit u = []"
    using takeWhile_digits [OF d(1)] by simp_all
  have "hd u \<noteq> CHR ''-''"
    using d by (cases u) auto
  then show "jsonNumber u = Some (int (digitsValue 0 u), 0)"
    "jsonNumber (CHR ''-'' # u) = Some (- int (digitsValue 0 u), 0)"
    using assms d(1) by (auto simp: jsonNumber_def Let_def w exponentPart_def list_all_iff)
qed

lemma exactBigInt_integer: "integerLexicalRe s \<Longrightarrow> exactBigInt s = Some (integerValue s)"
  using jsonNumber_natural [of s] jsonNumber_natural [of "tl s"]
  by (cases s) (auto simp: exactBigInt_def integerLexicalRe_def integerValue_def split: if_splits)

lemma bigIntSetString_integer: "integerLexicalRe s \<Longrightarrow> bigIntSetString s = Some (integerValue s)"
proof -
  assume "integerLexicalRe s"
  then have d: "(if s \<noteq> [] \<and> hd s = CHR ''-'' then tl s else s) \<noteq> []"
    "list_all isDigit (if s \<noteq> [] \<and> hd s = CHR ''-'' then tl s else s)"
    using isNaturalSpelling_digits unfolding integerLexicalRe_def by blast+
  then have "s \<noteq> [] \<Longrightarrow> hd s \<noteq> CHR ''+''"
    by (cases s) (auto split: if_splits)
  with d show ?thesis
    by (auto simp: bigIntSetString_def integerValue_def Let_def split: if_splits)
qed

lemma integerLexicalRe_Nil [simp]: "\<not> integerLexicalRe []"
  by (simp add: integerLexicalRe_def isNaturalSpelling_def)

lemma newIntegerFromWire_Inr:
  "newIntegerFromWire w = Inr i \<longleftrightarrow> integerLexicalRe (wi_raw w) \<and> gi_raw i = wi_raw w"
  by (cases i) (auto simp: newIntegerFromWire_def wire_String_def bigIntSetString_integer Let_def split: if_splits)

lemma newIntegerFromWire_Inl:
  "newIntegerFromWire w = Inl e \<longleftrightarrow>
     e = (if wi_raw w = [] then EmptyWireInteger else NotJSONInteger (wi_raw w)) \<and> \<not> integerLexicalRe (wi_raw w)"
  by (auto simp: newIntegerFromWire_def wire_String_def bigIntSetString_integer Let_def split: if_splits)

section \<open>Wire documents\<close>

record V1Check =
  c1_Name :: string
  c1_Status :: string
  c1_DurationMs :: "WireInteger option"
  c1_Evidence :: "string option"

record V1Summary =
  s1_SchemaVersion :: int
  s1_GeneratedAt :: string
  s1_Tool :: "string option"
  s1_OverallStatus :: string
  s1_Checks :: "V1Check list"

record V2Extras =
  x2_Argv :: "string list"
  x2_ExitCode :: "WireInteger option"
  x2_DurationMs :: WireInteger
  x2_StdoutSHA256 :: string
  x2_StderrSHA256 :: string

record V2Check =
  c2_Name :: string
  c2_Scope :: string
  c2_Status :: string
  c2_Evidence :: string
  c2_Detail :: string
  c2_Extras :: V2Extras
  c2_Total :: "WireInteger option"
  c2_PassCount :: "WireInteger option"
  c2_FailCount :: "WireInteger option"
  c2_SkipCount :: "WireInteger option"
  c2_UnavailableCount :: "WireInteger option"

record V2Summary =
  s2_SchemaVersion :: int
  s2_GeneratedAt :: string
  s2_ScopeID :: string
  s2_ScopeStatus :: string
  s2_ScopeDisposition :: string
  s2_ParentAct :: string
  s2_ParentStatus :: string
  s2_ParentDisposition :: string
  s2_OverallStatus :: string
  s2_OverallDisposition :: string
  s2_ExecutionHeadOID :: string
  s2_ExecutionTreeOID :: string
  s2_SubjectTreeOID :: string
  s2_WorktreeCleanBefore :: bool
  s2_WorktreeCleanAfter :: bool
  s2_Checks :: "V2Check list"

record V3Counts =
  n3_Total :: int
  n3_Pass :: int
  n3_Fail :: int
  n3_Timeout :: int
  n3_Skip :: int
  n3_Unavailable :: int

record V3Check =
  c3_ID :: string
  c3_Name :: string
  c3_Scope :: string
  c3_Order :: WireInteger
  c3_ExecutionClass :: string
  c3_Status :: string
  c3_Detail :: string
  c3_Argv :: "string list"
  c3_Implementation :: string
  c3_DurationMs :: WireInteger
  c3_DeadlineExceeded :: bool
  c3_CanonicalExitCode :: "WireInteger option"
  c3_RawProcessExit :: "WireInteger option"
  c3_TerminationSignal :: "string option"
  c3_StdoutSHA256 :: string
  c3_StderrSHA256 :: string
  c3_StdoutBytes :: int
  c3_StderrBytes :: int
  c3_StdoutTruncated :: bool
  c3_StderrTruncated :: bool

record V3Summary =
  s3_SchemaVersion :: int
  s3_GeneratedAt :: string
  s3_ScopeID :: string
  s3_ScopeStatus :: string
  s3_ScopeDisposition :: string
  s3_ParentAct :: string
  s3_ParentStatus :: string
  s3_ParentDisposition :: string
  s3_OverallStatus :: string
  s3_OverallDisposition :: string
  s3_ExecutionHeadOID :: string
  s3_ExecutionTreeOID :: string
  s3_SubjectTreeOID :: string
  s3_WorktreeCleanBefore :: bool
  s3_WorktreeCleanAfter :: bool
  s3_RegistrySHA256 :: string
  s3_EventsSHA256 :: string
  s3_TranscriptSHA256 :: string
  s3_Counts :: V3Counts
  s3_FailedNames :: "string list"
  s3_TimeoutNames :: "string list"
  s3_SkippedNames :: "string list"
  s3_UnavailableNames :: "string list"
  s3_Checks :: "V3Check list"

record Document =
  doc_v1 :: "V1Summary option"
  doc_v2 :: "V2Summary option"
  doc_v3 :: "V3Summary option"

definition docVersion :: "Document \<Rightarrow> Version" where
  "docVersion d =
     (if doc_v1 d \<noteq> None then Version1
      else if doc_v2 d \<noteq> None then Version2
      else if doc_v3 d \<noteq> None then Version3
      else VersionZero)"

definition newDocumentV1 :: "V1Summary \<Rightarrow> Document" where
  "newDocumentV1 s = \<lparr>doc_v1 = Some s, doc_v2 = None, doc_v3 = None\<rparr>"

definition newDocumentV2 :: "V2Summary \<Rightarrow> Document" where
  "newDocumentV2 s = \<lparr>doc_v1 = None, doc_v2 = Some s, doc_v3 = None\<rparr>"

definition newDocumentV3 :: "V3Summary \<Rightarrow> Document" where
  "newDocumentV3 s = \<lparr>doc_v1 = None, doc_v2 = None, doc_v3 = Some s\<rparr>"

definition validateSealed :: "Document \<Rightarrow> normError option" where
  "validateSealed d =
     (let populated = (0::nat);
          populated = (if doc_v1 d \<noteq> None then populated + 1 else populated);
          populated = (if doc_v2 d \<noteq> None then populated + 1 else populated);
          populated = (if doc_v3 d \<noteq> None then populated + 1 else populated)
      in if populated \<noteq> 1 then Some InvalidSealedDocument else None)"

lemma validateSealed_iff:
  "validateSealed d = None \<longleftrightarrow>
     (\<exists>s. d = newDocumentV1 s) \<or> (\<exists>s. d = newDocumentV2 s) \<or> (\<exists>s. d = newDocumentV3 s)"
  by (cases d) (auto simp: validateSealed_def newDocumentV1_def newDocumentV2_def newDocumentV3_def)

section \<open>The normalized model\<close>

text \<open>
  Statuses are Go strings; \<open>GateNone\<close> and \<open>LifecycleNone\<close> are the empty string, which the
  conversions give for a value outside the vocabulary.
\<close>

datatype GateStatus = GateNone | GatePass | GateFail | GateSkip | GateUnavailable | GateTimeout

datatype LifecycleStatus = LifecycleNone | LifecycleOpen | LifecyclePartial | LifecycleClosed

definition gateString :: "GateStatus \<Rightarrow> string" where
  "gateString s = (case s of GateNone \<Rightarrow> '''' | GatePass \<Rightarrow> ''pass'' | GateFail \<Rightarrow> ''fail'' | GateSkip \<Rightarrow> ''skip''
     | GateUnavailable \<Rightarrow> ''unavailable'' | GateTimeout \<Rightarrow> ''timeout'')"

definition normalizeLifecycle :: "string \<Rightarrow> LifecycleStatus" where
  "normalizeLifecycle wire =
     (if wire = ''OPEN'' then LifecycleOpen
      else if wire = ''PARTIAL'' then LifecyclePartial
      else if wire = ''CLOSED'' then LifecycleClosed
      else LifecycleNone)"

definition wireToGateStatus :: "string \<Rightarrow> GateStatus" where
  "wireToGateStatus wire =
     (if wire = ''pass'' then GatePass
      else if wire = ''fail'' then GateFail
      else if wire = ''timeout'' then GateTimeout
      else if wire = ''skip'' then GateSkip
      else if wire = ''unavailable'' then GateUnavailable
      else GateNone)"

record Scope =
  sc_ID :: string
  sc_Status :: LifecycleStatus
  sc_Disposition :: string

record Parent =
  pa_Act :: string
  pa_Status :: LifecycleStatus
  pa_Disposition :: string
  pa_Root :: bool

record Overall =
  ov_Status :: GateStatus
  ov_Disposition :: "string option"

record ExecutionBinding =
  eb_HeadOID :: string
  eb_TreeOID :: string
  eb_SubjectOID :: string

record WorktreeState =
  wt_CleanBefore :: bool
  wt_CleanAfter :: bool

record EvidenceHashes =
  eh_RegistrySHA256 :: string
  eh_EventsSHA256 :: string
  eh_TranscriptSHA256 :: string

record Counts =
  cn_Total :: int
  cn_Pass :: int
  cn_Fail :: int
  cn_Timeout :: int
  cn_Skip :: int
  cn_Unavailable :: int

record CheckExecution =
  ce_Argv :: "string list"
  ce_ExitCode :: "Integer option"
  ce_RawExitCode :: "Integer option"
  ce_StdoutSHA256 :: string
  ce_StderrSHA256 :: string
  ce_StdoutBytes :: int
  ce_StderrBytes :: int
  ce_StdoutTruncated :: bool
  ce_StderrTruncated :: bool
  ce_DeadlineExceeded :: bool
  ce_TerminationSignal :: "string option"
  ce_Implementation :: string

record TestTotals =
  tt_Total :: Integer
  tt_Pass :: Integer
  tt_Fail :: Integer
  tt_Skip :: Integer
  tt_Unavailable :: Integer

record Check =
  ck_ID :: "string option"
  ck_Name :: string
  ck_Scope :: "string option"
  ck_Order :: "Integer option"
  ck_ExecutionClass :: "string option"
  ck_Status :: GateStatus
  ck_Evidence :: "string option"
  ck_Detail :: "string option"
  ck_DurationMs :: "Integer option"
  ck_Execution :: "CheckExecution option"
  ck_Totals :: "TestTotals option"

record Summary =
  sm_SchemaVersion :: Version
  sm_GeneratedAt :: string
  sm_Tool :: "string option"
  sm_Scope :: "Scope option"
  sm_Parent :: "Parent option"
  sm_Overall :: Overall
  sm_Execution :: "ExecutionBinding option"
  sm_Worktree :: "WorktreeState option"
  sm_EvidenceHashes :: "EvidenceHashes option"
  sm_Counts :: Counts
  sm_FailedNames :: "string list"
  sm_TimeoutNames :: "string list"
  sm_SkippedNames :: "string list"
  sm_UnavailableNames :: "string list"
  sm_Checks :: "Check list"

definition summaryValid :: "Summary \<Rightarrow> bool" where
  "summaryValid s \<longleftrightarrow>
     sm_SchemaVersion s = Version1 \<or> sm_SchemaVersion s = Version2 \<or> sm_SchemaVersion s = Version3"

end
