(* ===== verification/Gate_Project.thy ===== *)
theory Gate_Project
  imports Gate_Summary
begin

text \<open>
  The projections of the wire documents into the normalized summary and the deep copies
  (\<open>normalize_v1.go\<close>, \<open>normalize_v2.go\<close>, \<open>normalize_v3.go\<close>).

  A projection fails at the first integer whose spelling is not that of a JSON integer, in the
  order in which the code converts them.  The model has values and no references, so a copy is
  compared with the original field by field; that copies share no memory is not expressed.
\<close>

section \<open>Zero values\<close>

definition zeroInteger :: Integer where
  "zeroInteger = \<lparr>gi_raw = ''''\<rparr>"

definition zeroCounts :: Counts where
  "zeroCounts = \<lparr>cn_Total = 0, cn_Pass = 0, cn_Fail = 0, cn_Timeout = 0, cn_Skip = 0, cn_Unavailable = 0\<rparr>"

definition zeroExecution :: CheckExecution where
  "zeroExecution =
     \<lparr>ce_Argv = [], ce_ExitCode = None, ce_RawExitCode = None, ce_StdoutSHA256 = '''', ce_StderrSHA256 = '''',
      ce_StdoutBytes = 0, ce_StderrBytes = 0, ce_StdoutTruncated = False, ce_StderrTruncated = False,
      ce_DeadlineExceeded = False, ce_TerminationSignal = None, ce_Implementation = ''''\<rparr>"

definition zeroCheck :: Check where
  "zeroCheck =
     \<lparr>ck_ID = None, ck_Name = '''', ck_Scope = None, ck_Order = None, ck_ExecutionClass = None,
      ck_Status = GateNone, ck_Evidence = None, ck_Detail = None, ck_DurationMs = None,
      ck_Execution = None, ck_Totals = None\<rparr>"

definition zeroSummary :: Summary where
  "zeroSummary =
     \<lparr>sm_SchemaVersion = VersionZero, sm_GeneratedAt = '''', sm_Tool = None, sm_Scope = None, sm_Parent = None,
      sm_Overall = \<lparr>ov_Status = GateNone, ov_Disposition = None\<rparr>, sm_Execution = None, sm_Worktree = None,
      sm_EvidenceHashes = None, sm_Counts = zeroCounts, sm_FailedNames = [], sm_TimeoutNames = [],
      sm_SkippedNames = [], sm_UnavailableNames = [], sm_Checks = []\<rparr>"

text \<open>The pointer to a copy of a string, unless it is empty.\<close>

definition nonEmpty :: "string \<Rightarrow> string option" where
  "nonEmpty s = (if s \<noteq> '''' then Some s else None)"

text \<open>The conversion of an integer behind a pointer.\<close>

definition optInteger :: "WireInteger option \<Rightarrow> normError + Integer option" where
  "optInteger w = (case w of None \<Rightarrow> Inr None | Some n \<Rightarrow> bindE (newIntegerFromWire n) (\<lambda>i. Inr (Some i)))"

section \<open>Version 1\<close>

definition projectV1Check :: "V1Check \<Rightarrow> normError + Check" where
  "projectV1Check wc =
     bindE (optInteger (c1_DurationMs wc)) (\<lambda>dur.
     Inr (zeroCheck\<lparr>ck_Name := c1_Name wc, ck_Status := wireToGateStatus (c1_Status wc),
       ck_DurationMs := dur, ck_Evidence := c1_Evidence wc\<rparr>))"

definition projectV1 :: "V1Summary \<Rightarrow> normError + Summary" where
  "projectV1 wire =
     bindE (traverse projectV1Check (s1_Checks wire)) (\<lambda>checks.
     Inr (zeroSummary\<lparr>sm_SchemaVersion := Version1, sm_GeneratedAt := s1_GeneratedAt wire,
       sm_Overall := \<lparr>ov_Status = wireToGateStatus (s1_OverallStatus wire), ov_Disposition = None\<rparr>,
       sm_Tool := s1_Tool wire, sm_Checks := checks\<rparr>))"

section \<open>Version 2\<close>

definition projectTotals :: "V2Check \<Rightarrow> normError + TestTotals option" where
  "projectTotals wc =
     (case c2_Total wc of
        None \<Rightarrow> Inr None
      | Some wt \<Rightarrow>
          bindE (newIntegerFromWire wt) (\<lambda>tot.
          bindE (optInteger (c2_PassCount wc)) (\<lambda>pc.
          bindE (optInteger (c2_FailCount wc)) (\<lambda>fc.
          bindE (optInteger (c2_SkipCount wc)) (\<lambda>sc.
          bindE (optInteger (c2_UnavailableCount wc)) (\<lambda>uc.
          Inr (Some \<lparr>tt_Total = tot, tt_Pass = case_option zeroInteger id pc, tt_Fail = case_option zeroInteger id fc,
            tt_Skip = case_option zeroInteger id sc, tt_Unavailable = case_option zeroInteger id uc\<rparr>)))))))"

definition projectV2Check :: "V2Check \<Rightarrow> normError + Check" where
  "projectV2Check wc =
     bindE (newIntegerFromWire (x2_DurationMs (c2_Extras wc))) (\<lambda>dur.
     bindE (optInteger (x2_ExitCode (c2_Extras wc))) (\<lambda>ec.
     bindE (projectTotals wc) (\<lambda>totals.
     Inr (zeroCheck\<lparr>ck_Name := c2_Name wc, ck_Status := wireToGateStatus (c2_Status wc),
       ck_Scope := nonEmpty (c2_Scope wc), ck_Evidence := nonEmpty (c2_Evidence wc), ck_Detail := nonEmpty (c2_Detail wc),
       ck_DurationMs := Some dur,
       ck_Execution := Some (zeroExecution\<lparr>ce_StdoutSHA256 := x2_StdoutSHA256 (c2_Extras wc),
         ce_StderrSHA256 := x2_StderrSHA256 (c2_Extras wc), ce_Argv := x2_Argv (c2_Extras wc), ce_ExitCode := ec\<rparr>),
       ck_Totals := totals\<rparr>))))"

definition projectV2 :: "V2Summary \<Rightarrow> normError + Summary" where
  "projectV2 wire =
     bindE (traverse projectV2Check (s2_Checks wire)) (\<lambda>checks.
     Inr (zeroSummary\<lparr>sm_SchemaVersion := Version2, sm_GeneratedAt := s2_GeneratedAt wire,
       sm_Overall := \<lparr>ov_Status = wireToGateStatus (s2_OverallStatus wire),
         ov_Disposition = nonEmpty (s2_OverallDisposition wire)\<rparr>,
       sm_Scope := Some \<lparr>sc_ID = s2_ScopeID wire, sc_Status = normalizeLifecycle (s2_ScopeStatus wire),
         sc_Disposition = s2_ScopeDisposition wire\<rparr>,
       sm_Parent := Some \<lparr>pa_Act = s2_ParentAct wire, pa_Status = normalizeLifecycle (s2_ParentStatus wire),
         pa_Disposition = s2_ParentDisposition wire, pa_Root = (s2_ParentAct wire = '''')\<rparr>,
       sm_Execution := Some \<lparr>eb_HeadOID = s2_ExecutionHeadOID wire, eb_TreeOID = s2_ExecutionTreeOID wire,
         eb_SubjectOID = s2_SubjectTreeOID wire\<rparr>,
       sm_Worktree := Some \<lparr>wt_CleanBefore = s2_WorktreeCleanBefore wire, wt_CleanAfter = s2_WorktreeCleanAfter wire\<rparr>,
       sm_Checks := checks\<rparr>))"

section \<open>Version 3\<close>

definition projectV3Check :: "V3Check \<Rightarrow> normError + Check" where
  "projectV3Check wc =
     bindE (newIntegerFromWire (c3_DurationMs wc)) (\<lambda>dur.
     bindE (optInteger (c3_CanonicalExitCode wc)) (\<lambda>ec.
     bindE (optInteger (c3_RawProcessExit wc)) (\<lambda>rpe.
     Inr (zeroCheck\<lparr>ck_Name := c3_Name wc, ck_Status := wireToGateStatus (c3_Status wc),
       ck_Scope := nonEmpty (c3_Scope wc), ck_Evidence := nonEmpty (c3_Detail wc), ck_DurationMs := Some dur,
       ck_ID := nonEmpty (c3_ID wc),
       ck_Order := (case newIntegerFromWire (c3_Order wc) of Inl _ \<Rightarrow> None | Inr order \<Rightarrow> Some order),
       ck_ExecutionClass := nonEmpty (c3_ExecutionClass wc),
       ck_Execution := Some \<lparr>ce_Argv = c3_Argv wc, ce_ExitCode = ec, ce_RawExitCode = rpe,
         ce_StdoutSHA256 = c3_StdoutSHA256 wc, ce_StderrSHA256 = c3_StderrSHA256 wc,
         ce_StdoutBytes = c3_StdoutBytes wc, ce_StderrBytes = c3_StderrBytes wc,
         ce_StdoutTruncated = c3_StdoutTruncated wc, ce_StderrTruncated = c3_StderrTruncated wc,
         ce_DeadlineExceeded = c3_DeadlineExceeded wc, ce_TerminationSignal = c3_TerminationSignal wc,
         ce_Implementation = c3_Implementation wc\<rparr>\<rparr>))))"

definition projectV3 :: "V3Summary \<Rightarrow> normError + Summary" where
  "projectV3 wire =
     bindE (traverse projectV3Check (s3_Checks wire)) (\<lambda>checks.
     Inr (zeroSummary\<lparr>sm_SchemaVersion := Version3, sm_GeneratedAt := s3_GeneratedAt wire,
       sm_Overall := \<lparr>ov_Status = wireToGateStatus (s3_OverallStatus wire),
         ov_Disposition = nonEmpty (s3_OverallDisposition wire)\<rparr>,
       sm_Scope := Some \<lparr>sc_ID = s3_ScopeID wire, sc_Status = normalizeLifecycle (s3_ScopeStatus wire),
         sc_Disposition = s3_ScopeDisposition wire\<rparr>,
       sm_Parent := Some \<lparr>pa_Act = s3_ParentAct wire, pa_Status = normalizeLifecycle (s3_ParentStatus wire),
         pa_Disposition = s3_ParentDisposition wire, pa_Root = (s3_ParentAct wire = '''')\<rparr>,
       sm_Execution := Some \<lparr>eb_HeadOID = s3_ExecutionHeadOID wire, eb_TreeOID = s3_ExecutionTreeOID wire,
         eb_SubjectOID = s3_SubjectTreeOID wire\<rparr>,
       sm_Worktree := Some \<lparr>wt_CleanBefore = s3_WorktreeCleanBefore wire, wt_CleanAfter = s3_WorktreeCleanAfter wire\<rparr>,
       sm_EvidenceHashes := Some \<lparr>eh_RegistrySHA256 = s3_RegistrySHA256 wire,
         eh_EventsSHA256 = s3_EventsSHA256 wire, eh_TranscriptSHA256 = s3_TranscriptSHA256 wire\<rparr>,
       sm_Counts := \<lparr>cn_Total = n3_Total (s3_Counts wire), cn_Pass = n3_Pass (s3_Counts wire),
         cn_Fail = n3_Fail (s3_Counts wire), cn_Timeout = n3_Timeout (s3_Counts wire),
         cn_Skip = n3_Skip (s3_Counts wire), cn_Unavailable = n3_Unavailable (s3_Counts wire)\<rparr>,
       sm_FailedNames := s3_FailedNames wire, sm_TimeoutNames := s3_TimeoutNames wire,
       sm_SkippedNames := s3_SkippedNames wire, sm_UnavailableNames := s3_UnavailableNames wire,
       sm_Checks := checks\<rparr>))"

section \<open>Copies\<close>

definition cloneCheck :: "Check \<Rightarrow> Check" where
  "cloneCheck c =
     zeroCheck\<lparr>ck_Name := ck_Name c, ck_Status := ck_Status c, ck_Scope := ck_Scope c, ck_Evidence := ck_Evidence c,
       ck_Detail := ck_Detail c, ck_DurationMs := ck_DurationMs c,
       ck_Execution := (case ck_Execution c of None \<Rightarrow> None
         | Some e \<Rightarrow> Some (zeroExecution\<lparr>ce_StdoutSHA256 := ce_StdoutSHA256 e, ce_StderrSHA256 := ce_StderrSHA256 e,
             ce_Argv := ce_Argv e, ce_ExitCode := ce_ExitCode e\<rparr>)),
       ck_Totals := ck_Totals c\<rparr>"

definition cloneV1Check :: "V1Check \<Rightarrow> V1Check" where
  "cloneV1Check c = \<lparr>c1_Name = c1_Name c, c1_Status = c1_Status c, c1_DurationMs = c1_DurationMs c,
     c1_Evidence = c1_Evidence c\<rparr>"

definition cloneV1Wire :: "V1Summary \<Rightarrow> V1Summary" where
  "cloneV1Wire w = \<lparr>s1_SchemaVersion = s1_SchemaVersion w, s1_GeneratedAt = s1_GeneratedAt w, s1_Tool = s1_Tool w,
     s1_OverallStatus = s1_OverallStatus w, s1_Checks = map cloneV1Check (s1_Checks w)\<rparr>"

definition cloneV2Check :: "V2Check \<Rightarrow> V2Check" where
  "cloneV2Check c =
     \<lparr>c2_Name = c2_Name c, c2_Scope = c2_Scope c, c2_Status = c2_Status c, c2_Evidence = c2_Evidence c,
      c2_Detail = c2_Detail c,
      c2_Extras = \<lparr>x2_Argv = x2_Argv (c2_Extras c), x2_ExitCode = x2_ExitCode (c2_Extras c),
        x2_DurationMs = x2_DurationMs (c2_Extras c), x2_StdoutSHA256 = x2_StdoutSHA256 (c2_Extras c),
        x2_StderrSHA256 = x2_StderrSHA256 (c2_Extras c)\<rparr>,
      c2_Total = c2_Total c, c2_PassCount = c2_PassCount c, c2_FailCount = c2_FailCount c,
      c2_SkipCount = c2_SkipCount c, c2_UnavailableCount = c2_UnavailableCount c\<rparr>"

definition cloneV2Wire :: "V2Summary \<Rightarrow> V2Summary" where
  "cloneV2Wire w =
     \<lparr>s2_SchemaVersion = s2_SchemaVersion w, s2_GeneratedAt = s2_GeneratedAt w, s2_ScopeID = s2_ScopeID w,
      s2_ScopeStatus = s2_ScopeStatus w, s2_ScopeDisposition = s2_ScopeDisposition w, s2_ParentAct = s2_ParentAct w,
      s2_ParentStatus = s2_ParentStatus w, s2_ParentDisposition = s2_ParentDisposition w,
      s2_OverallStatus = s2_OverallStatus w, s2_OverallDisposition = s2_OverallDisposition w,
      s2_ExecutionHeadOID = s2_ExecutionHeadOID w, s2_ExecutionTreeOID = s2_ExecutionTreeOID w,
      s2_SubjectTreeOID = s2_SubjectTreeOID w, s2_WorktreeCleanBefore = s2_WorktreeCleanBefore w,
      s2_WorktreeCleanAfter = s2_WorktreeCleanAfter w, s2_Checks = map cloneV2Check (s2_Checks w)\<rparr>"

definition cloneV3Check :: "V3Check \<Rightarrow> V3Check" where
  "cloneV3Check c =
     \<lparr>c3_ID = c3_ID c, c3_Name = c3_Name c, c3_Scope = c3_Scope c, c3_Order = c3_Order c,
      c3_ExecutionClass = c3_ExecutionClass c, c3_Status = c3_Status c, c3_Detail = c3_Detail c,
      c3_Argv = c3_Argv c, c3_Implementation = c3_Implementation c, c3_DurationMs = c3_DurationMs c,
      c3_DeadlineExceeded = c3_DeadlineExceeded c, c3_CanonicalExitCode = c3_CanonicalExitCode c,
      c3_RawProcessExit = c3_RawProcessExit c, c3_TerminationSignal = c3_TerminationSignal c,
      c3_StdoutSHA256 = c3_StdoutSHA256 c, c3_StderrSHA256 = c3_StderrSHA256 c,
      c3_StdoutBytes = c3_StdoutBytes c, c3_StderrBytes = c3_StderrBytes c,
      c3_StdoutTruncated = c3_StdoutTruncated c, c3_StderrTruncated = c3_StderrTruncated c\<rparr>"

definition cloneV3Wire :: "V3Summary \<Rightarrow> V3Summary" where
  "cloneV3Wire w =
     \<lparr>s3_SchemaVersion = s3_SchemaVersion w, s3_GeneratedAt = s3_GeneratedAt w, s3_ScopeID = s3_ScopeID w,
      s3_ScopeStatus = s3_ScopeStatus w, s3_ScopeDisposition = s3_ScopeDisposition w, s3_ParentAct = s3_ParentAct w,
      s3_ParentStatus = s3_ParentStatus w, s3_ParentDisposition = s3_ParentDisposition w,
      s3_OverallStatus = s3_OverallStatus w, s3_OverallDisposition = s3_OverallDisposition w,
      s3_ExecutionHeadOID = s3_ExecutionHeadOID w, s3_ExecutionTreeOID = s3_ExecutionTreeOID w,
      s3_SubjectTreeOID = s3_SubjectTreeOID w, s3_WorktreeCleanBefore = s3_WorktreeCleanBefore w,
      s3_WorktreeCleanAfter = s3_WorktreeCleanAfter w, s3_RegistrySHA256 = s3_RegistrySHA256 w,
      s3_EventsSHA256 = s3_EventsSHA256 w, s3_TranscriptSHA256 = s3_TranscriptSHA256 w, s3_Counts = s3_Counts w,
      s3_FailedNames = s3_FailedNames w, s3_TimeoutNames = s3_TimeoutNames w, s3_SkippedNames = s3_SkippedNames w,
      s3_UnavailableNames = s3_UnavailableNames w, s3_Checks = map cloneV3Check (s3_Checks w)\<rparr>"

text \<open>
  What a projection succeeds on: exactly the documents whose integers all are spelled as JSON
  integers (the order of a version 3 check may be anything).
\<close>

definition integral :: "WireInteger \<Rightarrow> bool" where
  "integral w \<longleftrightarrow> integerLexicalRe (wi_raw w)"

definition optIntegral :: "WireInteger option \<Rightarrow> bool" where
  "optIntegral w \<longleftrightarrow> (case w of None \<Rightarrow> True | Some n \<Rightarrow> integral n)"

definition integralV1 :: "V1Summary \<Rightarrow> bool" where
  "integralV1 w \<longleftrightarrow> list_all (\<lambda>c. optIntegral (c1_DurationMs c)) (s1_Checks w)"

definition integralV2Check :: "V2Check \<Rightarrow> bool" where
  "integralV2Check c \<longleftrightarrow>
     integral (x2_DurationMs (c2_Extras c)) \<and> optIntegral (x2_ExitCode (c2_Extras c)) \<and>
     (c2_Total c \<noteq> None \<longrightarrow> optIntegral (c2_Total c) \<and> optIntegral (c2_PassCount c) \<and> optIntegral (c2_FailCount c) \<and>
        optIntegral (c2_SkipCount c) \<and> optIntegral (c2_UnavailableCount c))"

definition integralV2 :: "V2Summary \<Rightarrow> bool" where
  "integralV2 w \<longleftrightarrow> list_all integralV2Check (s2_Checks w)"

definition integralV3 :: "V3Summary \<Rightarrow> bool" where
  "integralV3 w \<longleftrightarrow> list_all (\<lambda>c. integral (c3_DurationMs c) \<and> optIntegral (c3_CanonicalExitCode c) \<and>
     optIntegral (c3_RawProcessExit c)) (s3_Checks w)"

lemma newInteger_ex: "(\<exists>i. newIntegerFromWire w = Inr i) \<longleftrightarrow> integral w"
  by (auto simp: newIntegerFromWire_Inr integral_def intro: exI [of _ "\<lparr>gi_raw = wi_raw w\<rparr>"])

lemma optInteger_ex: "(\<exists>i. optInteger w = Inr i) \<longleftrightarrow> optIntegral w"
  by (cases w) (auto simp: optInteger_def optIntegral_def bindE_eq_Inr newInteger_ex [symmetric])

lemma bindE_ex: "(\<exists>y. bindE m f = Inr y) \<longleftrightarrow> (\<exists>x. m = Inr x \<and> (\<exists>y. f x = Inr y))"
  by (auto simp: bindE_eq_Inr)

lemma bindE_ex_const: "(\<And>x. (\<exists>y. f x = Inr y) \<longleftrightarrow> P) \<Longrightarrow> (\<exists>y. bindE m f = Inr y) \<longleftrightarrow> (\<exists>x. m = Inr x) \<and> P"
  by (simp add: bindE_ex)

lemma clone_traverse_ex: "(\<exists>ys. traverse f xs = Inr ys) \<longleftrightarrow> list_all (\<lambda>x. \<exists>y. f x = Inr y) xs"
  by (induction xs) (auto simp: bindE_ex)

lemma projectTotals_ex:
  "(\<exists>t. projectTotals c = Inr t) \<longleftrightarrow>
     (c2_Total c \<noteq> None \<longrightarrow> optIntegral (c2_Total c) \<and> optIntegral (c2_PassCount c) \<and> optIntegral (c2_FailCount c) \<and>
        optIntegral (c2_SkipCount c) \<and> optIntegral (c2_UnavailableCount c))"
proof (cases "c2_Total c")
  case (Some n)
  then show ?thesis
    by (simp add: projectTotals_def bindE_ex newInteger_ex optInteger_ex optIntegral_def [of "Some n"])
qed (simp add: projectTotals_def)

lemma projectV1_ex: "(\<exists>s. projectV1 w = Inr s) \<longleftrightarrow> integralV1 w"
  by (simp add: projectV1_def projectV1Check_def bindE_ex clone_traverse_ex optInteger_ex integralV1_def)

lemma projectV2_ex: "(\<exists>s. projectV2 w = Inr s) \<longleftrightarrow> integralV2 w"
  by (simp add: projectV2_def projectV2Check_def bindE_ex clone_traverse_ex optInteger_ex newInteger_ex
      projectTotals_ex integralV2_def integralV2Check_def [abs_def])

lemma projectV3_ex: "(\<exists>s. projectV3 w = Inr s) \<longleftrightarrow> integralV3 w"
  by (simp add: projectV3_def projectV3Check_def bindE_ex clone_traverse_ex optInteger_ex newInteger_ex integralV3_def)

text \<open>The copies of the wire documents keep every field.\<close>

lemma wire_clones:
  "cloneV1Wire w1 = w1" "cloneV2Wire w2 = w2" "cloneV3Wire w3 = w3"
proof -
  have "cloneV1Check c1 = c1" "cloneV2Check c2 = c2" "cloneV3Check c3 = c3" for c1 c2 c3
    by (simp_all add: cloneV1Check_def cloneV2Check_def cloneV3Check_def)
  then have "map cloneV1Check xs = xs" "map cloneV2Check ys = ys" "map cloneV3Check zs = zs" for xs ys zs
    by (simp_all add: map_idI)
  then show "cloneV1Wire w1 = w1" "cloneV2Wire w2 = w2" "cloneV3Wire w3 = w3"
    by (simp_all add: cloneV1Wire_def cloneV2Wire_def cloneV3Wire_def)
qed

text \<open>
  The deep copy of a normalized check is faithful exactly for the checks that carry none of
  the fields version 3 added: it drops the identifier, the order and the execution class, and of
  the execution evidence the raw exit code, the byte counts, the truncation and deadline flags,
  the termination signal and the implementation binding.
\<close>

theorem cloneCheck_faithful_iff:
  "cloneCheck c = c \<longleftrightarrow>
     ck_ID c = None \<and> ck_Order c = None \<and> ck_ExecutionClass c = None \<and>
     (case ck_Execution c of None \<Rightarrow> True | Some e \<Rightarrow>
        ce_RawExitCode e = None \<and> ce_StdoutBytes e = 0 \<and> ce_StderrBytes e = 0 \<and>
        \<not> ce_StdoutTruncated e \<and> \<not> ce_StderrTruncated e \<and> \<not> ce_DeadlineExceeded e \<and>
        ce_TerminationSignal e = None \<and> ce_Implementation e = [])"
proof (cases "ck_Execution c")
  case None
  then show ?thesis
    by (cases c) (auto simp: cloneCheck_def zeroCheck_def)
next
  case (Some e)
  then show ?thesis
    by (cases c; cases e) (auto simp: cloneCheck_def zeroCheck_def zeroExecution_def)
qed

end
