(* ===== verification/Gate_Semantics.thy ===== *)
theory Gate_Semantics
  imports Gate_Project
begin

text \<open>
  The semantic validators of normalized summaries (\<open>semantic_check_names.go\<close>,
  \<open>semantic_exit_codes.go\<close>, \<open>semantic_totals.go\<close>, \<open>semantic_overall.go\<close>,
  \<open>semantic_cleanliness.go\<close>, \<open>semantic_v3.go\<close>) and \<open>Normalize\<close>
  (\<open>normalize.go\<close>, \<open>normalization_result.go\<close>).

  Two things outside the program are arguments: \<open>quote\<close> is the quoting of the format verb
  \<open>%q\<close>, and \<open>order\<close> the order in which Go happens to iterate the keys of a map.  The
  counts of a version 3 document are machine integers and their sum wraps around.
\<close>

section \<open>Check names\<close>

fun checkNameLoop :: "nat \<Rightarrow> string list \<Rightarrow> Check list \<Rightarrow> Diagnostic list" where
  "checkNameLoop i seen [] = []"
| "checkNameLoop i seen (c # cs) =
     (if ck_Name c \<in> set seen then
        \<lparr>dg_Code = ''GS_DUPLICATE_CHECK_NAME'', dg_Path = ''/checks/'' @ gs_itoa i @ ''/name'',
         dg_Expected = ''unique check name'', dg_Observed = ck_Name c,
         dg_Message = ''duplicate check name: '' @ ck_Name c\<rparr> # checkNameLoop (Suc i) seen cs
      else checkNameLoop (Suc i) (ck_Name c # seen) cs)"

definition validateCheckNames :: "Check list \<Rightarrow> Diagnostic list" where
  "validateCheckNames checks = (if length checks < 2 then [] else checkNameLoop 0 [] checks)"

section \<open>Exit codes\<close>

definition exitCodeDiagnostic :: "nat \<Rightarrow> string \<Rightarrow> string \<Rightarrow> string \<Rightarrow> string \<Rightarrow> Diagnostic" where
  "exitCodeDiagnostic i code expected observed message =
     \<lparr>dg_Code = code, dg_Path = ''/checks/'' @ itoa (int i) @ ''/extras/exit_code'', dg_Expected = expected,
      dg_Observed = observed, dg_Message = message\<rparr>"

definition exitCodeCheck :: "nat \<Rightarrow> Check \<Rightarrow> Diagnostic list" where
  "exitCodeCheck i c =
     (case Option.bind (ck_Execution c) ce_ExitCode of
        None \<Rightarrow>
          (case ck_Status c of
             GatePass \<Rightarrow> [exitCodeDiagnostic i ''GS_PASS_EXIT_CODE_MISMATCH'' ''0'' ''null'' ''pass requires exit_code 0'']
           | _ \<Rightarrow> [])
      | Some ec \<Rightarrow>
          (case ck_Status c of
             GatePass \<Rightarrow>
               if gi_Sign ec \<noteq> 0
               then [exitCodeDiagnostic i ''GS_PASS_EXIT_CODE_MISMATCH'' ''0'' (gi_String ec) ''pass requires exit_code 0'']
               else []
           | GateFail \<Rightarrow>
               if gi_Sign ec = 0
               then [exitCodeDiagnostic i ''GS_FAIL_EXIT_CODE_MISMATCH'' ''non-zero integer or null'' (gi_String ec)
                 ''fail requires non-zero exit_code or null'']
               else []
           | GateSkip \<Rightarrow>
               [exitCodeDiagnostic i ''GS_SKIP_EXIT_CODE_MISMATCH'' ''null'' (gi_String ec) ''skip requires exit_code null'']
           | GateUnavailable \<Rightarrow>
               [exitCodeDiagnostic i ''GS_UNAVAILABLE_EXIT_CODE_MISMATCH'' ''null'' (gi_String ec)
                 ''unavailable requires exit_code null'']
           | _ \<Rightarrow> []))"

text \<open>The loop \<open>for i, c := range checks\<close>, with the diagnostics of each check.\<close>

fun forChecks :: "(nat \<Rightarrow> Check \<Rightarrow> Diagnostic list) \<Rightarrow> nat \<Rightarrow> Check list \<Rightarrow> Diagnostic list" where
  "forChecks f i [] = []"
| "forChecks f i (c # cs) = f i c @ forChecks f (Suc i) cs"

definition validateExitCodes :: "Check list \<Rightarrow> Diagnostic list" where
  "validateExitCodes checks = forChecks exitCodeCheck 0 checks"

section \<open>Test totals\<close>

definition sumTestCounts :: "TestTotals \<Rightarrow> int" where
  "sumTestCounts t =
     (let add = \<lambda>i s. (case gi_BigInt i of Some bi \<Rightarrow> s + bi | None \<Rightarrow> s)
      in add (tt_Unavailable t) (add (tt_Skip t) (add (tt_Fail t) (add (tt_Pass t) 0))))"

definition totalsCheck :: "nat \<Rightarrow> Check \<Rightarrow> Diagnostic list" where
  "totalsCheck i c =
     (case ck_Totals c of
        None \<Rightarrow> []
      | Some t \<Rightarrow>
          (case gi_BigInt (tt_Total t) of
             None \<Rightarrow> []
           | Some observed \<Rightarrow>
               if sumTestCounts t \<noteq> observed
               then [\<lparr>dg_Code = ''GS_TEST_TOTAL_MISMATCH'', dg_Path = ''/checks/'' @ itoa (int i),
                      dg_Expected = itoa (sumTestCounts t), dg_Observed = gi_String (tt_Total t),
                      dg_Message = ''test total mismatch''\<rparr>]
               else []))"

definition validateTestTotals :: "Check list \<Rightarrow> Diagnostic list" where
  "validateTestTotals checks = forChecks totalsCheck 0 checks"

section \<open>Overall status\<close>

text \<open>The three flags the loop over the statuses sets.\<close>

definition overallFlags :: "GateStatus \<Rightarrow> bool \<times> bool \<times> bool \<Rightarrow> bool \<times> bool \<times> bool" where
  "overallFlags s = (\<lambda>(hasFail, hasUnavailable, hasPass).
     (case s of
        GateFail \<Rightarrow> (True, hasUnavailable, hasPass)
      | GateUnavailable \<Rightarrow> (hasFail, True, hasPass)
      | GatePass \<Rightarrow> (hasFail, hasUnavailable, True)
      | _ \<Rightarrow> (hasFail, hasUnavailable, hasPass)))"

definition overallOf :: "bool \<times> bool \<times> bool \<Rightarrow> GateStatus" where
  "overallOf = (\<lambda>(hasFail, hasUnavailable, hasPass).
     if hasFail then GateFail
     else if hasUnavailable then GateUnavailable
     else if hasPass then GatePass
     else GateUnavailable)"

definition deriveOverallStatus :: "Check list \<Rightarrow> GateStatus" where
  "deriveOverallStatus checks = overallOf (fold (\<lambda>c. overallFlags (ck_Status c)) checks (False, False, False))"

definition validateOverallStatus :: "Check list \<Rightarrow> GateStatus \<Rightarrow> Diagnostic list" where
  "validateOverallStatus checks recordedOverall =
     (let derived = deriveOverallStatus checks
      in if derived \<noteq> recordedOverall
         then [\<lparr>dg_Code = ''GS_OVERALL_STATUS_MISMATCH'', dg_Path = ''/overall_status'',
                dg_Expected = gateString derived, dg_Observed = gateString recordedOverall,
                dg_Message = ''overall_status mismatch: derived '' @ gateString derived @ '', recorded '' @
                  gateString recordedOverall\<rparr>]
         else [])"

section \<open>Cleanliness\<close>

definition dirtyDiagnostic :: "string \<Rightarrow> string \<Rightarrow> Diagnostic" where
  "dirtyDiagnostic path when' =
     \<lparr>dg_Code = ''GS_SCOPE_CLOSED_DIRTY_WORKTREE'', dg_Path = path, dg_Expected = ''true'', dg_Observed = ''false'',
      dg_Message = ''closed scope requires clean worktree '' @ when'\<rparr>"

definition validateCleanliness :: "LifecycleStatus \<Rightarrow> bool \<Rightarrow> bool \<Rightarrow> Diagnostic list" where
  "validateCleanliness scopeStatus cleanBefore cleanAfter =
     (if scopeStatus \<noteq> LifecycleClosed then []
      else (if \<not> cleanBefore then [dirtyDiagnostic ''/worktree_clean_before'' ''before''] else []) @
           (if \<not> cleanAfter then [dirtyDiagnostic ''/worktree_clean_after'' ''after''] else []))"

section \<open>Version 3\<close>

text \<open>Addition of Go's 64-bit \<open>int\<close>.\<close>

definition wrap64 :: "int \<Rightarrow> int" where
  "wrap64 x = (x + 2 ^ 63) mod 2 ^ 64 - 2 ^ 63"

definition add64 :: "int \<Rightarrow> int \<Rightarrow> int" where
  "add64 x y = wrap64 (x + y)"

definition validateV3Counts :: "Summary \<Rightarrow> Diagnostic list" where
  "validateV3Counts s =
     (let wantTotal = int (length (sm_Checks s)); total' = cn_Total (sm_Counts s);
          wantSum = add64 (add64 (add64 (add64 (cn_Pass (sm_Counts s)) (cn_Fail (sm_Counts s)))
            (cn_Timeout (sm_Counts s))) (cn_Skip (sm_Counts s))) (cn_Unavailable (sm_Counts s))
      in (if total' \<noteq> wantTotal
          then [\<lparr>dg_Code = ''GS_TEST_TOTAL_MISMATCH'', dg_Path = ''/counts/total'', dg_Expected = itoa wantTotal,
                 dg_Observed = itoa total', dg_Message = ''counts.total='' @ itoa total' @
                   '' disagrees with len(checks)='' @ itoa wantTotal\<rparr>] else []) @
         (if wantSum \<noteq> total'
          then [\<lparr>dg_Code = ''GS_TEST_TOTAL_MISMATCH'', dg_Path = ''/counts/total'', dg_Expected = itoa wantSum,
                 dg_Observed = itoa total', dg_Message = ''counts.total='' @ itoa total' @
                   '' disagrees with pass+fail+timeout+skip+unavailable='' @ itoa wantSum\<rparr>] else []))"

definition collectNamesByStatus :: "Check list \<Rightarrow> GateStatus \<Rightarrow> string list" where
  "collectNamesByStatus checks want =
     sort_slice (<) (map ck_Name (filter (\<lambda>c. ck_Status c = want \<and> ck_Name c \<noteq> '''') checks))"

definition nameDiagnostic :: "string \<Rightarrow> string \<Rightarrow> Diagnostic" where
  "nameDiagnostic path message = newDiagnostic ''GS_DUPLICATE_CHECK_NAME'' path message"

definition compareNameList ::
  "(string \<Rightarrow> string) \<Rightarrow> (string list \<Rightarrow> string list) \<Rightarrow> string list \<Rightarrow> string list \<Rightarrow> string \<Rightarrow> string \<Rightarrow> Diagnostic list" where
  "compareNameList quote order recorded derived path statusLabel =
     map (\<lambda>n. nameDiagnostic path (statusLabel @ '' name '' @ quote n @ '' appears '' @
            itoa (int (count_list recorded n)) @ '' times''))
       (filter (\<lambda>n. count_list recorded n > 1) (order (remdups recorded))) @
     map (\<lambda>n. nameDiagnostic path (statusLabel @ ''_name '' @ quote n @ '' in '' @ path @
            '' but no check with status '' @ quote statusLabel))
       (filter (\<lambda>n. n \<notin> set derived) recorded) @
     map (\<lambda>n. nameDiagnostic path (''check '' @ quote n @ '' has status '' @ quote statusLabel @
            '' but is missing from '' @ path))
       (filter (\<lambda>n. n \<notin> set recorded) derived)"

definition validateV3NameLists ::
  "(string \<Rightarrow> string) \<Rightarrow> (string list \<Rightarrow> string list) \<Rightarrow> Summary \<Rightarrow> Diagnostic list" where
  "validateV3NameLists quote order s =
     (let failed = collectNamesByStatus (sm_Checks s) GateFail;
          timeout = collectNamesByStatus (sm_Checks s) GateTimeout;
          skipped = collectNamesByStatus (sm_Checks s) GateSkip;
          unavailable = collectNamesByStatus (sm_Checks s) GateUnavailable
      in compareNameList quote order (sm_FailedNames s) failed ''/failed_names'' ''fail'' @
         compareNameList quote order (sm_TimeoutNames s) timeout ''/timeout_names'' ''timeout'' @
         compareNameList quote order (sm_SkippedNames s) skipped ''/skipped_names'' ''skip'' @
         compareNameList quote order (sm_UnavailableNames s) unavailable ''/unavailable_names'' ''unavailable'')"

section \<open>Normalize\<close>

record NormalizationResult =
  nr_Summary :: Summary
  nr_Diagnostics :: "Diagnostic list"
  nr_Err :: "normError option"

definition normSuccess :: "NormalizationResult \<Rightarrow> bool" where
  "normSuccess r \<longleftrightarrow> nr_Err r = None \<and> length (nr_Diagnostics r) = 0 \<and> summaryValid (nr_Summary r)"

definition failedWith :: "normError \<Rightarrow> NormalizationResult" where
  "failedWith e = \<lparr>nr_Summary = zeroSummary, nr_Diagnostics = [], nr_Err = Some e\<rparr>"

text \<open>
  Both projections that set a scope set the worktree as well, so the code never follows a nil
  worktree pointer.
\<close>

definition cleanlinessOf :: "Summary \<Rightarrow> Diagnostic list" where
  "cleanlinessOf candidate =
     (case (sm_Scope candidate, sm_Worktree candidate) of
        (Some scope, Some worktree) \<Rightarrow>
          validateCleanliness (sc_Status scope) (wt_CleanBefore worktree) (wt_CleanAfter worktree)
      | _ \<Rightarrow> [])"

definition semanticDiagnostics ::
  "(string \<Rightarrow> string) \<Rightarrow> (string list \<Rightarrow> string list) \<Rightarrow> Version \<Rightarrow> Summary \<Rightarrow> Diagnostic list" where
  "semanticDiagnostics quote order v candidate =
     (case v of
        Version2 \<Rightarrow>
          ds_emit
            (ds_addAll (cleanlinessOf candidate)
            (ds_addAll (validateOverallStatus (sm_Checks candidate) (ov_Status (sm_Overall candidate)))
            (ds_addAll (validateTestTotals (sm_Checks candidate))
            (ds_addAll (validateExitCodes (sm_Checks candidate))
            (ds_addAll (validateCheckNames (sm_Checks candidate)) emptyDiagnostics)))))
      | Version3 \<Rightarrow>
          ds_emit
            (ds_addAll (cleanlinessOf candidate)
            (ds_addAll (validateOverallStatus (sm_Checks candidate) (ov_Status (sm_Overall candidate)))
            (ds_addAll (validateV3NameLists quote order candidate)
            (ds_addAll (validateV3Counts candidate) emptyDiagnostics))))
      | _ \<Rightarrow> [])"

definition projectDocument :: "Document \<Rightarrow> normError + Summary" where
  "projectDocument doc =
     (case docVersion doc of
        Version1 \<Rightarrow> (case doc_v1 doc of Some v1 \<Rightarrow> projectV1 v1 | None \<Rightarrow> Inl ImpossibleVersion)
      | Version2 \<Rightarrow> (case doc_v2 doc of Some v2 \<Rightarrow> projectV2 v2 | None \<Rightarrow> Inl ImpossibleVersion)
      | Version3 \<Rightarrow> (case doc_v3 doc of Some v3 \<Rightarrow> projectV3 v3 | None \<Rightarrow> Inl ImpossibleVersion)
      | VersionZero \<Rightarrow> Inl ImpossibleVersion)"

definition Normalize ::
  "(string \<Rightarrow> string) \<Rightarrow> (string list \<Rightarrow> string list) \<Rightarrow> Document \<Rightarrow> NormalizationResult" where
  "Normalize quote order doc =
     (case validateSealed doc of
        Some err \<Rightarrow> failedWith err
      | None \<Rightarrow>
          (case projectDocument doc of
             Inl err \<Rightarrow> failedWith err
           | Inr candidate \<Rightarrow>
               (let diagnostics = semanticDiagnostics quote order (docVersion doc) candidate
                in if length diagnostics > 0
                   then \<lparr>nr_Summary = zeroSummary, nr_Diagnostics = diagnostics, nr_Err = None\<rparr>
                   else \<lparr>nr_Summary = candidate, nr_Diagnostics = [], nr_Err = None\<rparr>)))"

definition normalizeWithFault ::
  "(string \<Rightarrow> string) \<Rightarrow> (string list \<Rightarrow> string list) \<Rightarrow> Document \<Rightarrow> int \<Rightarrow> NormalizationResult" where
  "normalizeWithFault quote order doc faultStage =
     (if faultStage = 1 then
        \<lparr>nr_Summary = zeroSummary, nr_Diagnostics =
           [newDiagnostic ''GS_NORMALIZATION_FAILURE'' ''/'' ''injected normalization failure''],
         nr_Err = Some InjectedFault\<rparr>
      else if faultStage = 2 then
        \<lparr>nr_Summary = zeroSummary, nr_Diagnostics = [newDiagnostic ''GS_INTERNAL'' ''/'' ''impossible schema version''],
         nr_Err = Some InjectedInternalFailure\<rparr>
      else Normalize quote order doc)"

section \<open>The helpers on wire values\<close>

text \<open>
  The package also has the same checks on single wire values; a diagnostic with empty code stands
  for no diagnostic.
\<close>

definition noDiagnostic :: Diagnostic where
  "noDiagnostic = newDiagnostic '''' '''' ''''"

definition checkExitCodeForWire :: "nat \<Rightarrow> string \<Rightarrow> WireInteger option \<Rightarrow> Diagnostic" where
  "checkExitCodeForWire index status exitCode =
     (case exitCode of
        None \<Rightarrow>
          if status = ''pass''
          then exitCodeDiagnostic index ''GS_PASS_EXIT_CODE_MISMATCH'' ''0'' ''null'' ''pass requires exit_code 0''
          else noDiagnostic
      | Some ec \<Rightarrow>
          (case wire_BigInt ec of
             None \<Rightarrow> noDiagnostic
           | Some bi \<Rightarrow>
               if status = ''pass'' then
                 (if sgn bi \<noteq> 0
                  then exitCodeDiagnostic index ''GS_PASS_EXIT_CODE_MISMATCH'' ''0'' (wire_String ec) ''pass requires exit_code 0''
                  else noDiagnostic)
               else if status = ''fail'' then
                 (if sgn bi = 0
                  then exitCodeDiagnostic index ''GS_FAIL_EXIT_CODE_MISMATCH'' ''non-zero integer or null'' (wire_String ec)
                    ''fail requires non-zero exit_code or null''
                  else noDiagnostic)
               else if status = ''skip'' then
                 exitCodeDiagnostic index ''GS_SKIP_EXIT_CODE_MISMATCH'' ''null'' (wire_String ec) ''skip requires exit_code null''
               else if status = ''unavailable'' then
                 exitCodeDiagnostic index ''GS_UNAVAILABLE_EXIT_CODE_MISMATCH'' ''null'' (wire_String ec)
                   ''unavailable requires exit_code null''
               else noDiagnostic))"

definition newBigIntFromWire :: "WireInteger option \<Rightarrow> int" where
  "newBigIntFromWire w = (case w of None \<Rightarrow> 0 | Some n \<Rightarrow> (case wire_BigInt n of None \<Rightarrow> 0 | Some bi \<Rightarrow> bi))"

definition isNonZero :: "WireInteger option \<Rightarrow> bool" where
  "isNonZero w = (case w of None \<Rightarrow> False | Some n \<Rightarrow> (case wire_BigInt n of None \<Rightarrow> False | Some bi \<Rightarrow> sgn bi \<noteq> 0))"

definition bigIntSign :: "WireInteger option \<Rightarrow> int" where
  "bigIntSign w = (case w of None \<Rightarrow> 0 | Some n \<Rightarrow> (case wire_BigInt n of None \<Rightarrow> 0 | Some bi \<Rightarrow> sgn bi))"

definition addToSum :: "WireInteger option \<Rightarrow> int \<Rightarrow> int" where
  "addToSum w s = (case w of None \<Rightarrow> s | Some n \<Rightarrow> (case wire_BigInt n of None \<Rightarrow> s | Some bi \<Rightarrow> s + bi))"

definition checkTotalsArithmetic ::
  "nat \<Rightarrow> WireInteger option \<Rightarrow> WireInteger option \<Rightarrow> WireInteger option \<Rightarrow> WireInteger option \<Rightarrow>
   WireInteger option \<Rightarrow> Diagnostic" where
  "checkTotalsArithmetic index tot pass fail skip unavailable =
     (if tot = None \<or> pass = None \<or> fail = None \<or> skip = None \<or> unavailable = None then noDiagnostic
      else
        let s = addToSum unavailable (addToSum skip (addToSum fail (addToSum pass 0)))
        in case Option.bind tot wire_BigInt of
          None \<Rightarrow> noDiagnostic
        | Some totalBi \<Rightarrow>
            if s \<noteq> totalBi
            then \<lparr>dg_Code = ''GS_TEST_TOTAL_MISMATCH'', dg_Path = ''/checks/'' @ itoa (int index),
                   dg_Expected = itoa s, dg_Observed = (case tot of None \<Rightarrow> [] | Some n \<Rightarrow> wire_String n),
                   dg_Message = ''test total mismatch''\<rparr>
            else noDiagnostic)"

definition wireFlags :: "string \<Rightarrow> bool \<times> bool \<times> bool \<Rightarrow> bool \<times> bool \<times> bool" where
  "wireFlags s = (\<lambda>(hasFail, hasUnavailable, hasPass).
     if s = ''fail'' then (True, hasUnavailable, hasPass)
     else if s = ''unavailable'' then (hasFail, True, hasPass)
     else if s = ''pass'' then (hasFail, hasUnavailable, True)
     else (hasFail, hasUnavailable, hasPass))"

definition deriveOverallFromWire :: "string list \<Rightarrow> GateStatus" where
  "deriveOverallFromWire statuses = overallOf (fold wireFlags statuses (False, False, False))"

section \<open>What the validators accept\<close>

definition wireValue :: "WireInteger \<Rightarrow> int" where
  "wireValue w = integerValue (wi_raw w)"

definition exitConsistent :: "string \<Rightarrow> WireInteger option \<Rightarrow> bool" where
  "exitConsistent status ec \<longleftrightarrow>
     (status = ''pass'' \<longrightarrow> map_option wireValue ec = Some 0) \<and>
     (status = ''fail'' \<longrightarrow> map_option wireValue ec \<noteq> Some 0) \<and>
     (status \<in> {''skip'', ''unavailable''} \<longrightarrow> ec = None)"

definition totalsConsistent :: "V2Check \<Rightarrow> bool" where
  "totalsConsistent c \<longleftrightarrow>
     (case c2_Total c of
        None \<Rightarrow> True
      | Some t \<Rightarrow>
          wireValue t = case_option 0 wireValue (c2_PassCount c) + case_option 0 wireValue (c2_FailCount c) +
            case_option 0 wireValue (c2_SkipCount c) + case_option 0 wireValue (c2_UnavailableCount c))"

text \<open>Fail dominates, then unavailable, then pass; no status that counts is unavailable.\<close>

definition overallSpec :: "string list \<Rightarrow> GateStatus" where
  "overallSpec statuses =
     (if ''fail'' \<in> set statuses then GateFail
      else if ''unavailable'' \<in> set statuses then GateUnavailable
      else if ''pass'' \<in> set statuses then GatePass
      else GateUnavailable)"

definition consistentV2 :: "V2Summary \<Rightarrow> bool" where
  "consistentV2 w \<longleftrightarrow>
     distinct (map c2_Name (s2_Checks w)) \<and>
     (\<forall>c\<in>set (s2_Checks w). exitConsistent (c2_Status c) (x2_ExitCode (c2_Extras c)) \<and> totalsConsistent c) \<and>
     wireToGateStatus (s2_OverallStatus w) = overallSpec (map c2_Status (s2_Checks w)) \<and>
     (s2_ScopeStatus w = ''CLOSED'' \<longrightarrow> s2_WorktreeCleanBefore w \<and> s2_WorktreeCleanAfter w)"

lemma checkNameLoop_Nil_iff:
  "checkNameLoop i seen cs = [] \<longleftrightarrow> distinct (map ck_Name cs) \<and> ck_Name ` set cs \<inter> set seen = {}"
  by (induction i seen cs rule: checkNameLoop.induct) auto

lemma validateCheckNames_Nil_iff: "validateCheckNames cs = [] \<longleftrightarrow> distinct (map ck_Name cs)"
proof (cases "length cs < 2")
  case True
  then have "distinct (map ck_Name cs)"
    by (cases cs; cases "tl cs") auto
  with True show ?thesis
    by (simp add: validateCheckNames_def)
qed (simp add: validateCheckNames_def checkNameLoop_Nil_iff)

lemma forChecks_Nil_iff:
  "(\<And>i j c. f i c = [] \<longleftrightarrow> f j c = []) \<Longrightarrow> forChecks f i cs = [] \<longleftrightarrow> (\<forall>c\<in>set cs. f 0 c = [])"
proof (induction cs arbitrary: i)
  case (Cons c cs)
  have "f i c = [] \<longleftrightarrow> f 0 c = []"
    by (rule Cons.prems)
  moreover have "forChecks f (Suc i) cs = [] \<longleftrightarrow> (\<forall>c\<in>set cs. f 0 c = [])"
    using Cons.prems by (rule Cons.IH)
  ultimately show ?case
    by simp
qed simp

lemma forChecks_exit: "validateExitCodes cs = [] \<longleftrightarrow> (\<forall>c\<in>set cs. exitCodeCheck 0 c = [])"
  unfolding validateExitCodes_def
  by (rule forChecks_Nil_iff) (auto simp: exitCodeCheck_def split: option.splits GateStatus.splits)

lemma forChecks_totals: "validateTestTotals cs = [] \<longleftrightarrow> (\<forall>c\<in>set cs. totalsCheck 0 c = [])"
  unfolding validateTestTotals_def
  by (rule forChecks_Nil_iff) (auto simp: totalsCheck_def split: option.splits)

lemma fold_overallFlags:
  "fold (\<lambda>c. overallFlags (f c)) cs (a, b, d) =
     (a \<or> GateFail \<in> f ` set cs, b \<or> GateUnavailable \<in> f ` set cs, d \<or> GatePass \<in> f ` set cs)"
  by (induction cs arbitrary: a b d) (auto simp: overallFlags_def image_iff split: GateStatus.splits)

lemma deriveOverallStatus_spec:
  "deriveOverallStatus cs =
     (if GateFail \<in> ck_Status ` set cs then GateFail
      else if GateUnavailable \<in> ck_Status ` set cs then GateUnavailable
      else if GatePass \<in> ck_Status ` set cs then GatePass
      else GateUnavailable)"
  by (simp add: deriveOverallStatus_def fold_overallFlags overallOf_def)

lemma wireToGateStatus_inject [simp]:
  "wireToGateStatus s = GatePass \<longleftrightarrow> s = ''pass''" "wireToGateStatus s = GateFail \<longleftrightarrow> s = ''fail''"
  "wireToGateStatus s = GateSkip \<longleftrightarrow> s = ''skip''" "wireToGateStatus s = GateTimeout \<longleftrightarrow> s = ''timeout''"
  "wireToGateStatus s = GateUnavailable \<longleftrightarrow> s = ''unavailable''"
  "GatePass = wireToGateStatus s \<longleftrightarrow> s = ''pass''" "GateFail = wireToGateStatus s \<longleftrightarrow> s = ''fail''"
  "GateSkip = wireToGateStatus s \<longleftrightarrow> s = ''skip''" "GateTimeout = wireToGateStatus s \<longleftrightarrow> s = ''timeout''"
  "GateUnavailable = wireToGateStatus s \<longleftrightarrow> s = ''unavailable''"
  "GateNone = wireToGateStatus s \<longleftrightarrow> s \<notin> {''pass'', ''fail'', ''skip'', ''timeout'', ''unavailable''}"
  "wireToGateStatus s = GateNone \<longleftrightarrow> s \<notin> {''pass'', ''fail'', ''skip'', ''timeout'', ''unavailable''}"
  by (auto simp: wireToGateStatus_def)

lemma overallSpec_status:
  "deriveOverallStatus cs = overallSpec ss" if "map ck_Status cs = map wireToGateStatus ss"
proof -
  have "ck_Status ` set cs = wireToGateStatus ` set ss"
    using that by (metis list.set_map)
  then show ?thesis
    by (simp add: deriveOverallStatus_spec overallSpec_def image_iff)
qed

lemma fold_wireFlags: "fold wireFlags ss z = fold (\<lambda>s. overallFlags (wireToGateStatus s)) ss z"
proof (induction ss arbitrary: z)
  case (Cons s ss)
  have "wireFlags s z = overallFlags (wireToGateStatus s) z"
    by (cases z) (simp add: wireFlags_def overallFlags_def wireToGateStatus_def)
  with Cons show ?case
    by simp
qed simp

lemma deriveOverallFromWire_spec: "deriveOverallFromWire ss = overallSpec ss"
  by (simp add: deriveOverallFromWire_def fold_wireFlags fold_overallFlags overallOf_def overallSpec_def image_iff)

lemma newInteger_value: "newIntegerFromWire w = Inr i \<Longrightarrow> gi_BigInt i = Some (wireValue w) \<and> gi_raw i = wi_raw w \<and> gi_Sign i = sgn (wireValue w)"
  by (auto simp: newIntegerFromWire_Inr gi_BigInt_def gi_Sign_def exactBigInt_integer wireValue_def)

lemma optInteger_value:
  "optInteger w = Inr i \<Longrightarrow>
     (case w of None \<Rightarrow> i = None
      | Some n \<Rightarrow> \<exists>k. i = Some k \<and> gi_BigInt k = Some (wireValue n) \<and> gi_raw k = wi_raw n \<and> gi_Sign k = sgn (wireValue n))"
  using newInteger_value by (fastforce simp: optInteger_def bindE_eq_Inr split: option.splits)

lemma projectV2Check_fields:
  assumes "projectV2Check wc = Inr c"
  shows "ck_Name c = c2_Name wc" "ck_Status c = wireToGateStatus (c2_Status wc)"
    "\<exists>e. ck_Execution c = Some e \<and> optInteger (x2_ExitCode (c2_Extras wc)) = Inr (ce_ExitCode e)"
    "projectTotals wc = Inr (ck_Totals c)"
  using assms by (auto simp: projectV2Check_def bindE_eq_Inr)

lemma exitCodeCheck_project:
  assumes "projectV2Check wc = Inr c"
  shows "exitCodeCheck 0 c = [] \<longleftrightarrow> exitConsistent (c2_Status wc) (x2_ExitCode (c2_Extras wc))"
proof -
  obtain e where e: "ck_Execution c = Some e" "optInteger (x2_ExitCode (c2_Extras wc)) = Inr (ce_ExitCode e)"
    using projectV2Check_fields(3) [OF assms] by blast
  show ?thesis
    using e(1) optInteger_value [OF e(2)] projectV2Check_fields(2) [OF assms]
    by (cases "x2_ExitCode (c2_Extras wc)"; cases "ck_Status c")
      (auto simp: exitCodeCheck_def exitConsistent_def sgn_0_0 dest: sym [of "ck_Status c"] split: if_splits)
qed

lemma gi_BigInt_zero [simp]: "gi_BigInt zeroInteger = None"
  by (simp add: gi_BigInt_def zeroInteger_def)

lemma sum_counts:
  "optInteger w = Inr i \<Longrightarrow> (case gi_BigInt (case_option zeroInteger id i) of Some bi \<Rightarrow> s + bi | None \<Rightarrow> s) =
     s + case_option 0 wireValue w"
  using optInteger_value [of w i]
  by (auto split: option.splits)

lemma totalsCheck_project:
  assumes "projectTotals wc = Inr (ck_Totals c)"
  shows "totalsCheck 0 c = [] \<longleftrightarrow> totalsConsistent wc"
proof (cases "c2_Total wc")
  case None
  then show ?thesis
    using assms by (simp add: projectTotals_def totalsCheck_def totalsConsistent_def)
next
  case (Some n)
  then obtain tot pc fc sc uc where t: "newIntegerFromWire n = Inr tot"
    "optInteger (c2_PassCount wc) = Inr pc" "optInteger (c2_FailCount wc) = Inr fc"
    "optInteger (c2_SkipCount wc) = Inr sc" "optInteger (c2_UnavailableCount wc) = Inr uc"
    and c: "ck_Totals c = Some \<lparr>tt_Total = tot, tt_Pass = case_option zeroInteger id pc, tt_Fail = case_option zeroInteger id fc,
      tt_Skip = case_option zeroInteger id sc, tt_Unavailable = case_option zeroInteger id uc\<rparr>"
    using assms by (auto simp: projectTotals_def bindE_eq_Inr)
  show ?thesis
    using Some newInteger_value [OF t(1)]
    by (simp add: totalsCheck_def c sumTestCounts_def Let_def sum_counts [OF t(2)] sum_counts [OF t(3)]
        sum_counts [OF t(4)] sum_counts [OF t(5)] totalsConsistent_def eq_commute)
qed

lemma semanticDiagnostics_Nil:
  "semanticDiagnostics quote order Version2 s = [] \<longleftrightarrow>
     validateCheckNames (sm_Checks s) = [] \<and> validateExitCodes (sm_Checks s) = [] \<and> validateTestTotals (sm_Checks s) = [] \<and>
     validateOverallStatus (sm_Checks s) (ov_Status (sm_Overall s)) = [] \<and> cleanlinessOf s = []"
  "semanticDiagnostics quote order Version3 s = [] \<longleftrightarrow>
     validateV3Counts s = [] \<and> validateV3NameLists quote order s = [] \<and>
     validateOverallStatus (sm_Checks s) (ov_Status (sm_Overall s)) = [] \<and> cleanlinessOf s = []"
  by (simp_all add: semanticDiagnostics_def ds_addAll_append [symmetric] ds_emit_addAll)

lemma validateOverallStatus_Nil: "validateOverallStatus cs r = [] \<longleftrightarrow> r = deriveOverallStatus cs"
  by (auto simp: validateOverallStatus_def Let_def)

lemma validateCleanliness_Nil: "validateCleanliness s b a = [] \<longleftrightarrow> (s = LifecycleClosed \<longrightarrow> b \<and> a)"
  by (simp add: validateCleanliness_def)

lemma normalizeLifecycle_closed [simp]: "normalizeLifecycle s = LifecycleClosed \<longleftrightarrow> s = ''CLOSED''"
  by (simp add: normalizeLifecycle_def)

lemma projectV2_Inr:
  assumes "projectV2 w = Inr s"
  shows "list_all2 (\<lambda>wc c. projectV2Check wc = Inr c) (s2_Checks w) (sm_Checks s)"
    and "semanticDiagnostics quote order Version2 s = [] \<longleftrightarrow> consistentV2 w"
proof -
  show a: "list_all2 (\<lambda>wc c. projectV2Check wc = Inr c) (s2_Checks w) (sm_Checks s)"
    using assms by (auto simp: projectV2_def bindE_eq_Inr traverse_eq_Inr)
  then have "map ck_Name (sm_Checks s) = map c2_Name (s2_Checks w)"
    and st: "map ck_Status (sm_Checks s) = map wireToGateStatus (map c2_Status (s2_Checks w))"
    and "(\<forall>c\<in>set (sm_Checks s). exitCodeCheck 0 c = []) \<longleftrightarrow>
      (\<forall>c\<in>set (s2_Checks w). exitConsistent (c2_Status c) (x2_ExitCode (c2_Extras c)))"
    and "(\<forall>c\<in>set (sm_Checks s). totalsCheck 0 c = []) \<longleftrightarrow> (\<forall>c\<in>set (s2_Checks w). totalsConsistent c)"
    by (induction rule: list_all2_induct)
      (simp_all add: projectV2Check_fields exitCodeCheck_project totalsCheck_project [OF projectV2Check_fields(4)])
  moreover have "cleanlinessOf s = [] \<longleftrightarrow> (s2_ScopeStatus w = ''CLOSED'' \<longrightarrow> s2_WorktreeCleanBefore w \<and> s2_WorktreeCleanAfter w)"
    and "ov_Status (sm_Overall s) = wireToGateStatus (s2_OverallStatus w)"
    using assms by (auto simp: projectV2_def bindE_eq_Inr cleanlinessOf_def validateCleanliness_Nil)
  ultimately show "semanticDiagnostics quote order Version2 s = [] \<longleftrightarrow> consistentV2 w"
    by (auto simp: semanticDiagnostics_Nil validateCheckNames_Nil_iff forChecks_exit forChecks_totals
        validateOverallStatus_Nil overallSpec_status [OF st] consistentV2_def)
qed

lemma sealed_simps [simp]:
  "validateSealed (newDocumentV1 a) = None" "validateSealed (newDocumentV2 b) = None" "validateSealed (newDocumentV3 c) = None"
  "docVersion (newDocumentV1 a) = Version1" "docVersion (newDocumentV2 b) = Version2" "docVersion (newDocumentV3 c) = Version3"
  "projectDocument (newDocumentV1 a) = projectV1 a" "projectDocument (newDocumentV2 b) = projectV2 b"
  "projectDocument (newDocumentV3 c) = projectV3 c"
  by (auto simp: validateSealed_iff projectDocument_def docVersion_def newDocumentV1_def newDocumentV2_def newDocumentV3_def)

lemma normSuccess_iff:
  assumes "validateSealed d = None"
  shows "normSuccess (Normalize quote order d) \<longleftrightarrow>
    (\<exists>s. projectDocument d = Inr s \<and> semanticDiagnostics quote order (docVersion d) s = [] \<and> summaryValid s)"
  using assms
  by (auto simp: Normalize_def normSuccess_def failedWith_def Let_def split: sum.splits)

text \<open>
  C29. \<open>Normalize\<close> succeeds on a version 2 document exactly if every integer it converts is
  spelled as a JSON integer and the document is consistent: check names are distinct, every exit
  code agrees with its status, every test total is the sum of its counts, the overall status is the
  derived one, and a closed scope has a clean worktree before and after.  The result then is the
  projection of the document.
\<close>

theorem normalize_v2_exact:
  "(normSuccess (Normalize quote order (newDocumentV2 w)) \<longleftrightarrow> integralV2 w \<and> consistentV2 w) \<and>
   (normSuccess (Normalize quote order (newDocumentV2 w)) \<longleftrightarrow>
      projectV2 w = Inr (nr_Summary (Normalize quote order (newDocumentV2 w))))"
proof -
  let ?r = "Normalize quote order (newDocumentV2 w)"
  have valid: "summaryValid s" "s \<noteq> zeroSummary" if "projectV2 w = Inr s" for s
    using that by (auto simp: projectV2_def bindE_eq_Inr summaryValid_def zeroSummary_def)
  have "normSuccess ?r \<longleftrightarrow> (\<exists>s. projectV2 w = Inr s \<and> semanticDiagnostics quote order Version2 s = [])"
    using valid(1) by (auto simp: normSuccess_iff)
  also have "\<dots> \<longleftrightarrow> integralV2 w \<and> consistentV2 w"
    using projectV2_Inr(2) projectV2_ex by metis
  finally have "normSuccess ?r \<longleftrightarrow> integralV2 w \<and> consistentV2 w" .
  moreover have "normSuccess ?r \<longleftrightarrow> projectV2 w = Inr (nr_Summary ?r)"
    using valid by (auto simp: Normalize_def normSuccess_def failedWith_def Let_def split: sum.splits)
  ultimately show ?thesis
    by simp
qed

section \<open>Version 3 documents\<close>

definition namesWith :: "string \<Rightarrow> V3Check list \<Rightarrow> string set" where
  "namesWith status cs = set (map c3_Name (filter (\<lambda>c. c3_Status c = status \<and> c3_Name c \<noteq> '''') cs))"

definition countsConsistent :: "V3Counts \<Rightarrow> nat \<Rightarrow> bool" where
  "countsConsistent n k \<longleftrightarrow>
     n3_Total n = int k \<and>
     wrap64 (n3_Pass n + n3_Fail n + n3_Timeout n + n3_Skip n + n3_Unavailable n) = n3_Total n"

definition consistentV3 :: "V3Summary \<Rightarrow> bool" where
  "consistentV3 w \<longleftrightarrow>
     countsConsistent (s3_Counts w) (length (s3_Checks w)) \<and>
     (\<forall>(names, status)\<in>{(s3_FailedNames w, ''fail''), (s3_TimeoutNames w, ''timeout''),
         (s3_SkippedNames w, ''skip''), (s3_UnavailableNames w, ''unavailable'')}.
        distinct names \<and> set names = namesWith status (s3_Checks w)) \<and>
     wireToGateStatus (s3_OverallStatus w) = overallSpec (map c3_Status (s3_Checks w)) \<and>
     (s3_ScopeStatus w = ''CLOSED'' \<longrightarrow> s3_WorktreeCleanBefore w \<and> s3_WorktreeCleanAfter w)"

lemma wrap64_add [simp]: "wrap64 (wrap64 x + y) = wrap64 (x + y)"
proof -
  have "((x + 2 ^ 63) mod 2 ^ 64 + y) mod 2 ^ 64 = (x + 2 ^ 63 + y) mod (2 ^ 64 :: int)"
    by (rule mod_add_left_eq)
  then show ?thesis
    by (simp add: wrap64_def ac_simps)
qed

lemma validateV3Counts_Nil:
  "validateV3Counts s = [] \<longleftrightarrow>
     cn_Total (sm_Counts s) = int (length (sm_Checks s)) \<and>
     wrap64 (cn_Pass (sm_Counts s) + cn_Fail (sm_Counts s) + cn_Timeout (sm_Counts s) + cn_Skip (sm_Counts s) +
       cn_Unavailable (sm_Counts s)) = cn_Total (sm_Counts s)"
  by (simp add: validateV3Counts_def Let_def add64_def)

lemma filter_count_distinct: "filter (\<lambda>n. Suc 0 < count_list xs n) ys = [] \<longleftrightarrow> (\<forall>n\<in>set ys. count_list xs n \<le> 1)"
  by (auto simp: filter_empty_conv not_less)

lemma count_list_distinct: "(\<forall>n\<in>set xs. count_list xs n \<le> 1) \<longleftrightarrow> distinct xs"
proof (induction xs)
  case (Cons x xs)
  have "(\<forall>n\<in>set (x # xs). count_list (x # xs) n \<le> 1) \<longleftrightarrow> x \<notin> set xs \<and> (\<forall>n\<in>set xs. count_list xs n \<le> 1)"
    by (auto simp: count_list_0_iff)
  with Cons show ?case
    by simp
qed simp

lemma compareNameList_Nil:
  assumes "\<And>xs. mset (order xs) = mset xs"
  shows "compareNameList quote order recorded derived path label = [] \<longleftrightarrow>
           distinct recorded \<and> set recorded = set derived"
proof -
  have "set (order xs) = set xs" for xs
    using assms by (metis set_mset_mset)
  then have "filter (\<lambda>n. count_list recorded n > 1) (order (remdups recorded)) = [] \<longleftrightarrow> distinct recorded"
    using count_list_distinct [of recorded] by (simp add: filter_count_distinct)
  then show ?thesis
    by (auto simp: compareNameList_def filter_empty_conv)
qed

lemma projectV3Check_fields:
  assumes "projectV3Check wc = Inr c"
  shows "ck_Name c = c3_Name wc" "ck_Status c = wireToGateStatus (c3_Status wc)"
  using assms by (auto simp: projectV3Check_def bindE_eq_Inr)

lemma set_collectNames:
  assumes "list_all2 (\<lambda>wc c. projectV3Check wc = Inr c) ws cs" and "\<And>s. wireToGateStatus s = want \<longleftrightarrow> s = status"
  shows "set (collectNamesByStatus cs want) = namesWith status ws"
proof -
  have "set (map ck_Name (filter (\<lambda>c. ck_Status c = want \<and> ck_Name c \<noteq> '''') cs)) = namesWith status ws"
    using assms(1)
  proof (induction rule: list_all2_induct)
    case (Cons w ws c cs)
    moreover have "namesWith status (w # ws) =
        (if c3_Status w = status \<and> c3_Name w \<noteq> '''' then {c3_Name w} else {}) \<union> namesWith status ws"
      by (auto simp: namesWith_def)
    ultimately show ?case
      using assms(2) projectV3Check_fields [OF Cons(1)] by simp
  qed (simp add: namesWith_def)
  then show ?thesis
    by (simp add: collectNamesByStatus_def)
qed

lemma projectV3_Inr:
  assumes "projectV3 w = Inr s" and "\<And>xs. mset (order xs) = mset xs"
  shows "semanticDiagnostics quote order Version3 s = [] \<longleftrightarrow> consistentV3 w"
proof -
  have a: "list_all2 (\<lambda>wc c. projectV3Check wc = Inr c) (s3_Checks w) (sm_Checks s)"
    using assms(1) by (auto simp: projectV3_def bindE_eq_Inr traverse_eq_Inr)
  then have st: "map ck_Status (sm_Checks s) = map wireToGateStatus (map c3_Status (s3_Checks w))"
    by (induction rule: list_all2_induct) (simp_all add: projectV3Check_fields)
  have f: "sm_Counts s = \<lparr>cn_Total = n3_Total (s3_Counts w), cn_Pass = n3_Pass (s3_Counts w),
        cn_Fail = n3_Fail (s3_Counts w), cn_Timeout = n3_Timeout (s3_Counts w),
        cn_Skip = n3_Skip (s3_Counts w), cn_Unavailable = n3_Unavailable (s3_Counts w)\<rparr>"
    "sm_FailedNames s = s3_FailedNames w" "sm_TimeoutNames s = s3_TimeoutNames w"
    "sm_SkippedNames s = s3_SkippedNames w" "sm_UnavailableNames s = s3_UnavailableNames w"
    "ov_Status (sm_Overall s) = wireToGateStatus (s3_OverallStatus w)"
    and cl: "cleanlinessOf s = [] \<longleftrightarrow> (s3_ScopeStatus w = ''CLOSED'' \<longrightarrow> s3_WorktreeCleanBefore w \<and> s3_WorktreeCleanAfter w)"
    using assms(1) by (auto simp: projectV3_def bindE_eq_Inr cleanlinessOf_def validateCleanliness_Nil)
  have len: "length (sm_Checks s) = length (s3_Checks w)"
    using a by (simp add: list_all2_lengthD)
  have c: "validateV3Counts s = [] \<longleftrightarrow> countsConsistent (s3_Counts w) (length (s3_Checks w))"
    by (simp add: validateV3Counts_Nil f len countsConsistent_def)
  have n: "validateV3NameLists quote order s = [] \<longleftrightarrow>
     (\<forall>(names, status)\<in>{(s3_FailedNames w, ''fail''), (s3_TimeoutNames w, ''timeout''),
         (s3_SkippedNames w, ''skip''), (s3_UnavailableNames w, ''unavailable'')}.
        distinct names \<and> set names = namesWith status (s3_Checks w))"
    by (simp add: validateV3NameLists_def Let_def compareNameList_Nil [OF assms(2)] f
        set_collectNames [OF a])
  show ?thesis
    unfolding semanticDiagnostics_Nil c n cl validateOverallStatus_Nil overallSpec_status [OF st] consistentV3_def f ..
qed

text \<open>
  C30. \<open>Normalize\<close> succeeds on a version 3 document exactly if the integers it converts are
  spelled as JSON integers and the document is consistent: the total is the number of checks and,
  in 64-bit arithmetic, the sum of the five counts; each of the four name lists has no repetition
  and holds exactly the non-empty names of the checks of its status; the overall status is the
  derived one; a closed scope has a clean worktree.  The order in which Go iterates a map does not
  matter for it.
\<close>

theorem normalize_v3_exact:
  assumes "\<And>xs. mset (order xs) = mset xs"
  shows "(normSuccess (Normalize quote order (newDocumentV3 w)) \<longleftrightarrow> integralV3 w \<and> consistentV3 w) \<and>
   (normSuccess (Normalize quote order (newDocumentV3 w)) \<longleftrightarrow>
      projectV3 w = Inr (nr_Summary (Normalize quote order (newDocumentV3 w))))"
proof -
  let ?r = "Normalize quote order (newDocumentV3 w)"
  have valid: "summaryValid s" "s \<noteq> zeroSummary" if "projectV3 w = Inr s" for s
    using that by (auto simp: projectV3_def bindE_eq_Inr summaryValid_def zeroSummary_def)
  have "normSuccess ?r \<longleftrightarrow> (\<exists>s. projectV3 w = Inr s \<and> semanticDiagnostics quote order Version3 s = [])"
    using valid(1) by (auto simp: normSuccess_iff)
  also have "\<dots> \<longleftrightarrow> integralV3 w \<and> consistentV3 w"
    using projectV3_Inr [OF _ assms] projectV3_ex by metis
  finally have "normSuccess ?r \<longleftrightarrow> integralV3 w \<and> consistentV3 w" .
  moreover have "normSuccess ?r \<longleftrightarrow> projectV3 w = Inr (nr_Summary ?r)"
    using valid by (auto simp: Normalize_def normSuccess_def failedWith_def Let_def split: sum.splits)
  ultimately show ?thesis
    by simp
qed

text \<open>A version 3 document with one passing check and one that timed out.\<close>

definition sampleV3Check :: "string \<Rightarrow> string \<Rightarrow> V3Check" where
  "sampleV3Check name status =
     \<lparr>c3_ID = name, c3_Name = name, c3_Scope = ''ROOT'', c3_Order = \<lparr>wi_raw = ''0''\<rparr>, c3_ExecutionClass = '''',
      c3_Status = status, c3_Detail = '''', c3_Argv = [], c3_Implementation = '''', c3_DurationMs = \<lparr>wi_raw = ''12''\<rparr>,
      c3_DeadlineExceeded = (status = ''timeout''), c3_CanonicalExitCode = None, c3_RawProcessExit = None,
      c3_TerminationSignal = None, c3_StdoutSHA256 = '''', c3_StderrSHA256 = '''', c3_StdoutBytes = 0,
      c3_StderrBytes = 0, c3_StdoutTruncated = False, c3_StderrTruncated = False\<rparr>"

definition sampleV3 :: V3Summary where
  "sampleV3 =
     \<lparr>s3_SchemaVersion = 3, s3_GeneratedAt = ''2026-07-19T08:43:26Z'', s3_ScopeID = ''ACT-X'', s3_ScopeStatus = ''CLOSED'',
      s3_ScopeDisposition = ''d'', s3_ParentAct = '''', s3_ParentStatus = ''CLOSED'', s3_ParentDisposition = ''d'',
      s3_OverallStatus = ''pass'', s3_OverallDisposition = ''d'', s3_ExecutionHeadOID = '''', s3_ExecutionTreeOID = '''',
      s3_SubjectTreeOID = '''', s3_WorktreeCleanBefore = True, s3_WorktreeCleanAfter = True, s3_RegistrySHA256 = '''',
      s3_EventsSHA256 = '''', s3_TranscriptSHA256 = '''',
      s3_Counts = \<lparr>n3_Total = 2, n3_Pass = 1, n3_Fail = 0, n3_Timeout = 1, n3_Skip = 0, n3_Unavailable = 0\<rparr>,
      s3_FailedNames = [], s3_TimeoutNames = [''b''], s3_SkippedNames = [], s3_UnavailableNames = [],
      s3_Checks = [sampleV3Check ''a'' ''pass'', sampleV3Check ''b'' ''timeout'']\<rparr>"

lemma sampleV3_consistent: "integralV3 sampleV3" "consistentV3 sampleV3"
proof -
  have "integerLexicalRe ''12''"
    by code_simp
  then show "integralV3 sampleV3"
    by (simp add: integralV3_def sampleV3_def sampleV3Check_def integral_def optIntegral_def)
  show "consistentV3 sampleV3"
    by (auto simp: consistentV3_def sampleV3_def sampleV3Check_def countsConsistent_def wrap64_def
        namesWith_def overallSpec_def)
qed

lemma normalize_v3_exact_witness:
  "normSuccess (Normalize (\<lambda>s. s) (\<lambda>xs. xs) (newDocumentV3 sampleV3))"
  using normalize_v3_exact [of "\<lambda>xs. xs" "\<lambda>s. s" sampleV3] sampleV3_consistent by simp

text \<open>
  A timed-out check never influences the overall status: adding one anywhere leaves the derived
  status as it was, so a document with passing and timed-out checks is accepted only if it states
  that the gate passed.
\<close>

theorem timeout_never_counts:
  assumes "ck_Status c = GateTimeout"
  shows "deriveOverallStatus (xs @ c # ys) = deriveOverallStatus (xs @ ys)"
  using assms by (auto simp: deriveOverallStatus_spec)

lemma timeout_never_counts_witness:
  "deriveOverallStatus ([zeroCheck\<lparr>ck_Status := GatePass\<rparr>] @ zeroCheck\<lparr>ck_Status := GateTimeout\<rparr> # []) = GatePass"
  using timeout_never_counts [of "zeroCheck\<lparr>ck_Status := GateTimeout\<rparr>" "[zeroCheck\<lparr>ck_Status := GatePass\<rparr>]" "[]"]
  by (simp add: deriveOverallStatus_spec)

text \<open>
  The counts of a version 3 document are not compared with the statuses of its checks: any other
  counts with the same total whose 64-bit sum is that total are accepted in their place, among them
  counts whose true sum exceeds the number of checks by a multiple of \<open>2 ^ 64\<close>.
\<close>

theorem v3_counts_not_rederived:
  assumes "consistentV3 w" and "n3_Total n = n3_Total (s3_Counts w)"
    and "wrap64 (n3_Pass n + n3_Fail n + n3_Timeout n + n3_Skip n + n3_Unavailable n) = n3_Total n"
  shows "consistentV3 (w\<lparr>s3_Counts := n\<rparr>)"
  using assms by (simp add: consistentV3_def countsConsistent_def)

lemma v3_counts_not_rederived_witness:
  "consistentV3 (sampleV3\<lparr>s3_Counts :=
     \<lparr>n3_Total = 2, n3_Pass = 2 ^ 63 - 1, n3_Fail = 2 ^ 63 - 1, n3_Timeout = 0, n3_Skip = 0, n3_Unavailable = 4\<rparr>\<rparr>)"
  using v3_counts_not_rederived [of sampleV3
      "\<lparr>n3_Total = 2, n3_Pass = 2 ^ 63 - 1, n3_Fail = 2 ^ 63 - 1, n3_Timeout = 0, n3_Skip = 0, n3_Unavailable = 4\<rparr>"]
    sampleV3_consistent(2)
  by (simp add: sampleV3_def wrap64_def)

text \<open>
  The helpers on wire values agree with the validators on the projected check: the same
  diagnostics on the same inputs.
\<close>

definition asList :: "Diagnostic \<Rightarrow> Diagnostic list" where
  "asList d = (if dg_Code d = '''' then [] else [d])"

lemma checkExitCodeForWire_agrees:
  assumes "projectV2Check wc = Inr c"
  shows "asList (checkExitCodeForWire i (c2_Status wc) (x2_ExitCode (c2_Extras wc))) = exitCodeCheck i c"
proof -
  obtain e where e: "ck_Execution c = Some e" "optInteger (x2_ExitCode (c2_Extras wc)) = Inr (ce_ExitCode e)"
    using projectV2Check_fields(3) [OF assms] by blast
  show ?thesis
  proof (cases "x2_ExitCode (c2_Extras wc)")
    case None
    then show ?thesis
      using e projectV2Check_fields(2) [OF assms]
      by (auto simp: optInteger_def exitCodeCheck_def checkExitCodeForWire_def asList_def noDiagnostic_def newDiagnostic_def
          exitCodeDiagnostic_def wireToGateStatus_def)
  next
    case (Some n)
    then obtain k where k: "ce_ExitCode e = Some k" "newIntegerFromWire n = Inr k"
      using e(2) by (cases "newIntegerFromWire n") (auto simp: optInteger_def dest: sym [of "Some _"])
    have "wire_BigInt n = Some (wireValue n)"
      using k(2) by (auto simp: newIntegerFromWire_Inr wire_BigInt_def wireValue_def exactBigInt_integer)
    then show ?thesis
      using Some k e(1) newInteger_value [OF k(2)] projectV2Check_fields(2) [OF assms]
      by (auto simp: exitCodeCheck_def checkExitCodeForWire_def asList_def noDiagnostic_def newDiagnostic_def
          exitCodeDiagnostic_def wireToGateStatus_def gi_String_def wire_String_def)
  qed
qed

lemma wire_BigInt_project: "newIntegerFromWire n = Inr k \<Longrightarrow> wire_BigInt n = Some (wireValue n)"
  by (auto simp: newIntegerFromWire_Inr wire_BigInt_def wireValue_def exactBigInt_integer)

lemma addToSum_project: "optInteger w = Inr i \<Longrightarrow> addToSum w s = s + case_option 0 wireValue w"
  by (auto simp: addToSum_def optInteger_def bindE_eq_Inr wire_BigInt_project split: option.splits)

lemma checkTotalsArithmetic_agrees:
  assumes "projectTotals wc = Inr (ck_Totals c)"
    and "c2_PassCount wc \<noteq> None" "c2_FailCount wc \<noteq> None" "c2_SkipCount wc \<noteq> None" "c2_UnavailableCount wc \<noteq> None"
  shows "asList (checkTotalsArithmetic i (c2_Total wc) (c2_PassCount wc) (c2_FailCount wc) (c2_SkipCount wc)
           (c2_UnavailableCount wc)) = totalsCheck i c"
proof (cases "c2_Total wc")
  case None
  then show ?thesis
    using assms(1) by (simp add: checkTotalsArithmetic_def asList_def noDiagnostic_def newDiagnostic_def
        projectTotals_def totalsCheck_def)
next
  case (Some n)
  then obtain tot pc fc sc uc where t: "newIntegerFromWire n = Inr tot"
    "optInteger (c2_PassCount wc) = Inr pc" "optInteger (c2_FailCount wc) = Inr fc"
    "optInteger (c2_SkipCount wc) = Inr sc" "optInteger (c2_UnavailableCount wc) = Inr uc"
    and c: "ck_Totals c = Some \<lparr>tt_Total = tot, tt_Pass = case_option zeroInteger id pc, tt_Fail = case_option zeroInteger id fc,
      tt_Skip = case_option zeroInteger id sc, tt_Unavailable = case_option zeroInteger id uc\<rparr>"
    using assms(1) by (auto simp: projectTotals_def bindE_eq_Inr)
  show ?thesis
    using Some assms(2-5) newInteger_value [OF t(1)] wire_BigInt_project [OF t(1)]
    by (auto simp: totalsCheck_def c sumTestCounts_def Let_def sum_counts [OF t(2)] sum_counts [OF t(3)]
        sum_counts [OF t(4)] sum_counts [OF t(5)] checkTotalsArithmetic_def asList_def noDiagnostic_def newDiagnostic_def
        addToSum_project [OF t(2)] addToSum_project [OF t(3)] addToSum_project [OF t(4)] addToSum_project [OF t(5)]
        gi_String_def wire_String_def)
qed

text \<open>
  The wire accepts more integers than the normalizer: whatever number a wire integer was decoded
  from, its conversion succeeds exactly if the spelling is that of a JSON integer; a spelling such
  as 1.0 or 1e3 denotes an integer, is decoded, and then makes normalization fail with an
  operational error instead of a diagnostic.
\<close>

theorem integer_spelling_gap:
  assumes "UnmarshalWireInteger data = Inr w"
  shows "wire_BigInt w \<noteq> None \<and> (newIntegerFromWire w = Inl (NotJSONInteger (wi_raw w)) \<or> integerLexicalRe (wi_raw w))"
proof -
  have ex: "exactBigInt (wi_raw w) \<noteq> None"
    using assms by (auto simp: UnmarshalWireInteger_def split: list.splits jsonToken.splits if_splits)
  then have "wi_raw w \<noteq> []"
    by (auto simp: exactBigInt_def jsonNumber_def isNaturalSpelling_def)
  with ex show ?thesis
    by (auto simp: wire_BigInt_def newIntegerFromWire_Inl)
qed

lemma integer_spelling_gap_witness:
  "UnmarshalWireInteger \<lparr>src_tokens = [TNumber ''1e3''], src_eof = True\<rparr> = Inr \<lparr>wi_raw = ''1e3''\<rparr> \<and>
   wire_BigInt \<lparr>wi_raw = ''1e3''\<rparr> = Some 1000 \<and>
   newIntegerFromWire \<lparr>wi_raw = ''1e3''\<rparr> = Inl (NotJSONInteger ''1e3'')"
proof -
  have u: "UnmarshalWireInteger \<lparr>src_tokens = [TNumber ''1e3''], src_eof = True\<rparr> = Inr \<lparr>wi_raw = ''1e3''\<rparr>"
    "wire_BigInt \<lparr>wi_raw = ''1e3''\<rparr> = Some 1000" "\<not> integerLexicalRe ''1e3''"
    by code_simp+
  with integer_spelling_gap [OF u(1)] show ?thesis
    by simp
qed

end
