(* ===== verification/Gate_Decode.thy ===== *)
theory Gate_Decode
  imports Gate_Schema Gate_Semantics
begin

text \<open>
  The reader pipeline of gate summaries: the bounded read (\<open>reader.go\<close>), the stages of
  \<open>decodeWithDependencies\<close> (\<open>decoder.go\<close>) with the trace of stage ownership
  (\<open>decode_trace.go\<close>), and the strict wire decode with its end-of-input check
  (\<open>strict_decode.go\<close>).

  The dependencies the code injects are arguments: the compiled schemas, the validation of the
  bytes against one of them, and the strict decoder; so are \<open>tokenize\<close>, the tokens that
  \<open>json.Decoder\<close> reads from the bytes, and \<open>urlParse\<close>.
\<close>

section \<open>Bounded read\<close>

definition MaxDocumentBytes :: nat where
  "MaxDocumentBytes = 4 * 1024 * 1024"

text \<open>A reader is the bytes it delivers and the error that ends them, if it is not the end of input.\<close>

record reader =
  rd_bytes :: string
  rd_err :: "string option"

datatype readError = NilReader | UnderlyingError string | Oversize

text \<open>
  \<open>io.ReadAll(io.LimitReader(r, n))\<close>: at the limit the reader ends without asking \<open>r\<close>
  again, so an error behind the limit is not seen.
\<close>

definition readAllLimited :: "reader \<Rightarrow> nat \<Rightarrow> string + string" where
  "readAllLimited r n =
     (if n \<le> length (rd_bytes r) then Inr (take n (rd_bytes r))
      else case rd_err r of Some e \<Rightarrow> Inl e | None \<Rightarrow> Inr (rd_bytes r))"

definition readBounded :: "reader option \<Rightarrow> readError + string" where
  "readBounded r =
     (case r of
        None \<Rightarrow> Inl NilReader
      | Some r \<Rightarrow>
          (case readAllLimited r (MaxDocumentBytes + 1) of
             Inl e \<Rightarrow> Inl (UnderlyingError e)
           | Inr data \<Rightarrow> if length data > MaxDocumentBytes then Inl Oversize else Inr data))"

lemma readBounded_Inr:
  "readBounded r = Inr data \<longleftrightarrow>
     r = Some \<lparr>rd_bytes = data, rd_err = None\<rparr> \<and> length data \<le> MaxDocumentBytes"
  by (cases "the r") (auto simp: readBounded_def readAllLimited_def split: option.splits if_splits sum.splits)

lemma readBounded_Oversize:
  "readBounded (Some r) = Inl Oversize \<longleftrightarrow> MaxDocumentBytes < length (rd_bytes r)"
  by (auto simp: readBounded_def readAllLimited_def split: option.splits if_splits sum.splits)

section \<open>Strict decode\<close>

text \<open>
  \<open>requireEOF\<close> on the tokens left after the document; \<open>wireDecode\<close> stands for
  \<open>json.Decoder.Decode\<close> into the version's struct: an error, or the struct and the rest.
\<close>

datatype strictError = StrictDecode string | StrictSyntax | StrictExtraJSON | StrictUnsupportedVersion

definition requireEOF :: "tokenSource \<Rightarrow> strictError option" where
  "requireEOF rest =
     (if src_tokens rest \<noteq> [] then Some StrictExtraJSON
      else if src_eof rest then None else Some StrictSyntax)"

record wireDecoders =
  wd_v1 :: "string \<Rightarrow> string + V1Summary \<times> tokenSource"
  wd_v2 :: "string \<Rightarrow> string + V2Summary \<times> tokenSource"
  wd_v3 :: "string \<Rightarrow> string + V3Summary \<times> tokenSource"

definition strictAs :: "(string + 's \<times> tokenSource) \<Rightarrow> ('s \<Rightarrow> Document) \<Rightarrow> strictError + Document" where
  "strictAs r seal =
     (case r of
        Inl e \<Rightarrow> Inl (StrictDecode e)
      | Inr (s, rest) \<Rightarrow> (case requireEOF rest of Some e \<Rightarrow> Inl e | None \<Rightarrow> Inr (seal s)))"

definition decodeStrict :: "wireDecoders \<Rightarrow> string \<Rightarrow> Version \<Rightarrow> strictError + Document" where
  "decodeStrict wd data version =
     (case version of
        Version1 \<Rightarrow> strictAs (wd_v1 wd data) newDocumentV1
      | Version2 \<Rightarrow> strictAs (wd_v2 wd data) newDocumentV2
      | Version3 \<Rightarrow> strictAs (wd_v3 wd data) newDocumentV3
      | VersionZero \<Rightarrow> Inl StrictUnsupportedVersion)"

lemma decodeStrict_version: "decodeStrict wd data v = Inr doc \<Longrightarrow> docVersion doc = v \<and> validateSealed doc = None"
  by (auto simp: decodeStrict_def strictAs_def split: Version.splits sum.splits prod.splits option.splits)

section \<open>The pipeline\<close>

datatype stage = StageNone | StageBoundedRead | StageSyntaxScan | StageDuplicateKeyScan | StageVersionProbe
  | StageVersionDispatch | StageSchemaValidation | StageWireDecode

record decodeTrace =
  tr_Stage :: stage
  tr_SchemaSelected :: Version
  tr_SchemaInvoked :: bool
  tr_WireDecoded :: bool

definition resetTrace :: decodeTrace where
  "resetTrace = \<lparr>tr_Stage = StageNone, tr_SchemaSelected = VersionZero, tr_SchemaInvoked = False, tr_WireDecoded = False\<rparr>"

record 'sch compiledSchemas =
  cs_v1 :: 'sch
  cs_v2 :: 'sch
  cs_v3 :: 'sch

datatype validationOutcome = ValidationPassed | ValidationRejected "validationError option" | ValidationFailed string

record 'sch decodeDependencies =
  dep_schemas :: "string + 'sch compiledSchemas"
  dep_validate :: "'sch \<Rightarrow> string \<Rightarrow> validationOutcome"
  dep_decodeStrict :: "string \<Rightarrow> Version \<Rightarrow> strictError + Document"

datatype decodeError = BoundedReadError readError | SchemaBootstrapError string | SchemaDriftValidation string
  | SchemaDriftImpossible | SchemaDriftDecode strictError

record decodeResult =
  rs_Document :: Document
  rs_Diagnostics :: "Diagnostic list"
  rs_Err :: "decodeError option"

definition zeroDocument :: Document where
  "zeroDocument = \<lparr>doc_v1 = None, doc_v2 = None, doc_v3 = None\<rparr>"

definition zeroResult :: decodeResult where
  "zeroResult = \<lparr>rs_Document = zeroDocument, rs_Diagnostics = [], rs_Err = None\<rparr>"

definition resultSuccess :: "decodeResult \<Rightarrow> bool" where
  "resultSuccess r \<longleftrightarrow> rs_Err r = None \<and> length (rs_Diagnostics r) = 0 \<and> docVersion (rs_Document r) \<noteq> VersionZero"

definition diagnosticsContain :: "Diagnostic list \<Rightarrow> string \<Rightarrow> bool" where
  "diagnosticsContain diagnostics code = list_ex (\<lambda>d. dg_Code d = code) diagnostics"

definition selectSchema :: "'sch compiledSchemas \<Rightarrow> Version \<Rightarrow> 'sch option" where
  "selectSchema schemaSet v =
     (case v of Version1 \<Rightarrow> Some (cs_v1 schemaSet) | Version2 \<Rightarrow> Some (cs_v2 schemaSet) | Version3 \<Rightarrow> Some (cs_v3 schemaSet) | VersionZero \<Rightarrow> None)"

text \<open>Stages 9 and 10.\<close>

definition decodeWire :: "'sch decodeDependencies \<Rightarrow> string \<Rightarrow> Version \<Rightarrow> diagnosticSet \<Rightarrow> decodeTrace \<Rightarrow> decodeResult \<times> decodeTrace" where
  "decodeWire deps data version ds trace =
     (let trace = trace\<lparr>tr_Stage := StageWireDecode, tr_WireDecoded := True\<rparr>
      in case dep_decodeStrict deps data version of
           Inl wireErr \<Rightarrow>
             (zeroResult\<lparr>rs_Err := Some (SchemaDriftDecode wireErr), rs_Diagnostics := ds_emit
                (ds_add (newDiagnostic ''GS_INTERNAL'' ''/'' ''strict wire decode disagreed with schema'') ds)\<rparr>, trace)
         | Inr doc \<Rightarrow> (zeroResult\<lparr>rs_Document := doc\<rparr>, trace))"

text \<open>Stages 6 to 8.  The version is one of the three, so the schema is never the nil pointer.\<close>

definition decodeSchema ::
  "(string \<Rightarrow> (string \<times> string) option) \<Rightarrow> 'sch decodeDependencies \<Rightarrow> string \<Rightarrow> Version \<Rightarrow> diagnosticSet \<Rightarrow> decodeTrace \<Rightarrow>
   decodeResult \<times> decodeTrace" where
  "decodeSchema urlParse deps data version ds trace =
     (let trace = trace\<lparr>tr_Stage := StageSchemaValidation\<rparr>
      in case dep_schemas deps of
           Inl bootErr \<Rightarrow> (zeroResult\<lparr>rs_Err := Some (SchemaBootstrapError bootErr)\<rparr>, trace)
         | Inr schemaSet \<Rightarrow>
             (let trace = trace\<lparr>tr_SchemaInvoked := True\<rparr>
              in case (case selectSchema schemaSet version of None \<Rightarrow> ValidationFailed ''nil schema'' | Some sch \<Rightarrow> dep_validate deps sch data) of
                   ValidationRejected ve \<Rightarrow>
                     (let diagnostics = translate urlParse ve
                      in (zeroResult\<lparr>rs_Diagnostics := diagnostics,
                            rs_Err := (if diagnosticsContain diagnostics ''GS_INTERNAL'' then Some SchemaDriftImpossible else None)\<rparr>,
                          trace))
                 | ValidationFailed e \<Rightarrow>
                     (zeroResult\<lparr>rs_Err := Some (SchemaDriftValidation e), rs_Diagnostics := ds_emit
                        (ds_add (newDiagnostic ''GS_INTERNAL'' ''/'' ''selected schema validation failed operationally'') ds)\<rparr>, trace)
                 | ValidationPassed \<Rightarrow> decodeWire deps data version ds trace))"

text \<open>Stages 4 and 5.\<close>

definition decodeVersion ::
  "(string \<Rightarrow> (string \<times> string) option) \<Rightarrow> 'sch decodeDependencies \<Rightarrow> string \<Rightarrow> envelopeResult \<Rightarrow> diagnosticSet \<Rightarrow> decodeTrace \<Rightarrow>
   decodeResult \<times> decodeTrace" where
  "decodeVersion urlParse deps data env ds trace =
     (let trace = trace\<lparr>tr_Stage := StageVersionProbe\<rparr>
      in if \<not> er_versionPresent env then
           (zeroResult\<lparr>rs_Diagnostics := ds_emit
              (ds_add (newDiagnostic ''GS_VERSION_MISSING'' ''/schema_version'' ''schema_version field is absent'') ds)\<rparr>, trace)
         else
           let decision = classifyVersion (er_versionToken env)
           in if vd_code decision \<noteq> '''' then
                (zeroResult\<lparr>rs_Diagnostics := ds_emit
                   (ds_add (newDiagnostic (vd_code decision) ''/schema_version'' (''schema_version='' @ vd_raw decision)) ds)\<rparr>,
                 if vd_code decision = ''GS_UNSUPPORTED_VERSION'' then trace\<lparr>tr_Stage := StageVersionDispatch\<rparr> else trace)
              else decodeSchema urlParse deps data (vd_version decision) ds
                (trace\<lparr>tr_Stage := StageVersionDispatch, tr_SchemaSelected := vd_version decision\<rparr>))"

definition decodeWithDependencies ::
  "(string \<Rightarrow> tokenSource) \<Rightarrow> (string \<Rightarrow> (string \<times> string) option) \<Rightarrow> 'sch decodeDependencies \<Rightarrow> reader option \<Rightarrow>
   decodeResult \<times> decodeTrace" where
  "decodeWithDependencies tokenize urlParse deps r =
     (let trace = resetTrace\<lparr>tr_Stage := StageBoundedRead\<rparr>
      in case readBounded r of
           Inl err \<Rightarrow>
             if err = Oversize then
               (zeroResult\<lparr>rs_Diagnostics := ds_emit
                  (ds_add (newDiagnostic ''GS_DOCUMENT_TOO_LARGE'' '''' ''document exceeds 4 MiB cap'') emptyDiagnostics)\<rparr>, trace)
             else (zeroResult\<lparr>rs_Err := Some (BoundedReadError err)\<rparr>, trace)
         | Inr data \<Rightarrow>
             let trace = trace\<lparr>tr_Stage := StageSyntaxScan\<rparr>; env = scanEnvelope (tokenize data)
             in if er_malformed env then
                  (zeroResult\<lparr>rs_Diagnostics := ds_emit (ds_addAll (er_diagnostics env) emptyDiagnostics)\<rparr>, trace)
                else if er_trailing env then
                  (zeroResult\<lparr>rs_Diagnostics := ds_emit (ds_add
                     (case er_diagnostics env of d # _ \<Rightarrow> d
                      | [] \<Rightarrow> newDiagnostic ''GS_TRAILING_JSON'' '''' ''second JSON value follows the document'') emptyDiagnostics)\<rparr>, trace)
                else
                  let trace = trace\<lparr>tr_Stage := StageDuplicateKeyScan\<rparr>;
                      ds = ds_addAll (map (\<lambda>hit. newDiagnostic ''GS_DUPLICATE_KEY'' (dh_path hit) ''duplicate object member name'')
                        (detectDuplicateKeys (tokenize data))) emptyDiagnostics
                  in if length (ds_items ds) > 0 then (zeroResult\<lparr>rs_Diagnostics := ds_emit ds\<rparr>, trace)
                     else decodeVersion urlParse deps data env ds trace)"

definition productionDecodeDependencies ::
  "(string + 'sch compiledSchemas) \<Rightarrow> ('sch \<Rightarrow> string \<Rightarrow> validationOutcome) \<Rightarrow> wireDecoders \<Rightarrow> 'sch decodeDependencies" where
  "productionDecodeDependencies schemas validateAgainstSchema wd =
     \<lparr>dep_schemas = schemas, dep_validate = validateAgainstSchema, dep_decodeStrict = decodeStrict wd\<rparr>"

text \<open>
  The shape of every stage: what a successful result needs, and what the trace may then hold.
\<close>

lemma decodeWire_success:
  "resultSuccess (fst (decodeWire deps data v ds tr)) \<longleftrightarrow>
     (\<exists>doc. dep_decodeStrict deps data v = Inr doc \<and> docVersion doc \<noteq> VersionZero)"
  by (auto simp: decodeWire_def resultSuccess_def zeroResult_def Let_def split: sum.splits)

lemma zeroDocument_version [simp]: "docVersion zeroDocument = VersionZero"
  by (simp add: docVersion_def zeroDocument_def)

lemma failed_results [simp]:
  "\<not> resultSuccess (zeroResult\<lparr>rs_Diagnostics := ds\<rparr>)"
  "\<not> resultSuccess (zeroResult\<lparr>rs_Err := e\<rparr>)"
  "\<not> resultSuccess (zeroResult\<lparr>rs_Err := e, rs_Diagnostics := ds\<rparr>)"
  "\<not> resultSuccess (zeroResult\<lparr>rs_Diagnostics := ds, rs_Err := e\<rparr>)"
  by (simp_all add: resultSuccess_def zeroResult_def)

lemma decodeSchema_success:
  assumes "v \<noteq> VersionZero"
  shows "resultSuccess (fst (decodeSchema urlParse deps data v ds tr)) \<longleftrightarrow>
     (\<exists>schemas sch doc. dep_schemas deps = Inr schemas \<and> selectSchema schemas v = Some sch \<and>
        dep_validate deps sch data = ValidationPassed \<and> dep_decodeStrict deps data v = Inr doc \<and> docVersion doc \<noteq> VersionZero)"
  using assms
  by (auto simp: decodeSchema_def Let_def decodeWire_success split: sum.splits validationOutcome.splits option.splits)

lemma decodeVersion_success:
  "resultSuccess (fst (decodeVersion urlParse deps data env ds tr)) \<longleftrightarrow>
     (let v = vd_version (classifyVersion (er_versionToken env)) in
      er_versionPresent env \<and> v \<noteq> VersionZero \<and>
      (\<exists>schemas sch doc. dep_schemas deps = Inr schemas \<and> selectSchema schemas v = Some sch \<and>
        dep_validate deps sch data = ValidationPassed \<and> dep_decodeStrict deps data v = Inr doc \<and> docVersion doc \<noteq> VersionZero))"
  using classifyVersion_dispatch(2) [of "er_versionToken env"]
  by (auto simp: decodeVersion_def Let_def decodeSchema_success)

text \<open>The conditions under which a document is read.\<close>

definition readable ::
  "(string \<Rightarrow> tokenSource) \<Rightarrow> 'sch decodeDependencies \<Rightarrow> string \<Rightarrow> (string \<times> json) list \<Rightarrow> Version \<Rightarrow> Document \<Rightarrow> bool" where
  "readable tokenize deps data ms v doc \<longleftrightarrow>
     length data \<le> MaxDocumentBytes \<and>
     tokenize data = \<lparr>src_tokens = toks (JObject ms), src_eof = True\<rparr> \<and>
     distinctNames (JObject ms) \<and>
     (v, map_of ms ''schema_version'') \<in>
        {(Version1, Some (JNumber ''1'')), (Version2, Some (JNumber ''2'')), (Version3, Some (JNumber ''3''))} \<and>
     (\<exists>schemas sch. dep_schemas deps = Inr schemas \<and> selectSchema schemas v = Some sch \<and>
        dep_validate deps sch data = ValidationPassed) \<and>
     dep_decodeStrict deps data v = Inr doc \<and> docVersion doc \<noteq> VersionZero"

lemma map_of_rev_distinct: "distinct (map fst ms) \<Longrightarrow> map_of (rev ms) = map_of ms"
proof (induction ms)
  case (Cons m ms)
  then have "map_of ms (fst m) = None"
    by (simp add: map_of_eq_None_iff)
  with Cons show ?case
    by (auto simp: map_of_append map_add_def fun_eq_iff split: option.splits)
qed simp

lemma firstToken_number: "firstToken v = TNumber s \<longleftrightarrow> v = JNumber s"
  by (cases v) (auto simp: firstToken_def)

lemma classifyVersion_version:
  "vd_version (classifyVersion t) = v \<and> v \<noteq> VersionZero \<longleftrightarrow>
     (v, t) \<in> {(Version1, TNumber ''1''), (Version2, TNumber ''2''), (Version3, TNumber ''3'')}"
proof -
  have "integerLexicalRe ''1''" "integerLexicalRe ''2''" "integerLexicalRe ''3''"
    by code_simp+
  then show ?thesis
    by (cases t) (auto simp: classifyVersion_def split: if_splits)
qed

lemma versionProbe_selects:
  assumes "distinct (map fst ms)"
  shows "er_versionPresent (versionProbe ms) \<and> vd_version (classifyVersion (er_versionToken (versionProbe ms))) = v \<and>
      v \<noteq> VersionZero \<longleftrightarrow>
    (v, map_of ms ''schema_version'') \<in>
      {(Version1, Some (JNumber ''1'')), (Version2, Some (JNumber ''2'')), (Version3, Some (JNumber ''3''))}"
proof (cases "map_of ms ''schema_version''")
  case None
  then show ?thesis
    using assms by (simp add: versionProbe_def map_of_rev_distinct zeroEnvelope_def)
next
  case (Some j)
  then show ?thesis
    using assms classifyVersion_version [of "firstToken j" v]
    by (auto simp: versionProbe_def map_of_rev_distinct firstToken_number eq_commute [of "TNumber _"])
qed

lemma ds_addAll_nonempty [simp]: "ds_items (ds_addAll ds emptyDiagnostics) = [] \<longleftrightarrow> ds = []"
proof -
  have "numberFrom n ds = [] \<longleftrightarrow> ds = []" for n
    by (cases ds) auto
  then show ?thesis
    by (simp add: ds_addAll_items emptyDiagnostics_def)
qed

lemma decodeVersion_document:
  assumes "resultSuccess (fst (decodeVersion urlParse deps data env ds tr))"
  shows "dep_decodeStrict deps data (vd_version (classifyVersion (er_versionToken env))) =
    Inr (rs_Document (fst (decodeVersion urlParse deps data env ds tr)))"
  using assms
  by (auto simp: decodeVersion_def decodeSchema_def decodeWire_def zeroResult_def Let_def resultSuccess_def
      split: sum.splits validationOutcome.splits option.splits if_splits)

lemma decode_dispatch:
  assumes "readBounded r = Inr data" and t: "tokenize data = \<lparr>src_tokens = toks (JObject ms), src_eof = True\<rparr>"
    and "distinctNames (JObject ms)"
  shows "decodeWithDependencies tokenize urlParse deps r =
    decodeVersion urlParse deps data (versionProbe ms) (ds_addAll [] emptyDiagnostics) (resetTrace\<lparr>tr_Stage := StageDuplicateKeyScan\<rparr>)"
proof -
  have "detectDuplicateKeys (tokenize data) = []"
    using detectDuplicateKeys_exact [of "JObject ms" "[]" True] assms(3)
    by (simp add: t duplicateSpec_Nil_iff [symmetric] sortedDuplicateHits_def)
  moreover have "scanEnvelope (tokenize data) = versionProbe ms"
    by (rule scanEnvelope_probe) (simp_all add: t)
  ultimately show ?thesis
    by (simp add: decodeWithDependencies_def assms(1) Let_def)
qed

lemma decode_object:
  assumes "readBounded r = Inr data" and t: "tokenize data = \<lparr>src_tokens = toks (JObject ms), src_eof = True\<rparr>"
  shows "resultSuccess (fst (decodeWithDependencies tokenize urlParse deps r)) \<and>
           rs_Document (fst (decodeWithDependencies tokenize urlParse deps r)) = doc \<longleftrightarrow>
         (\<exists>v. readable tokenize deps data ms v doc)"
proof -
  have len: "length data \<le> MaxDocumentBytes"
    using assms(1) by (simp add: readBounded_Inr)
  have dup: "detectDuplicateKeys (tokenize data) = [] \<longleftrightarrow> distinctNames (JObject ms)"
    using detectDuplicateKeys_exact [of "JObject ms" "[]" True]
    by (simp add: t duplicateSpec_Nil_iff [symmetric] sortedDuplicateHits_def)
  have env: "scanEnvelope (tokenize data) = versionProbe ms"
    by (rule scanEnvelope_probe) (simp_all add: t)
  show ?thesis
  proof (cases "distinctNames (JObject ms)")
    case False
    with dup have "\<not> resultSuccess (fst (decodeWithDependencies tokenize urlParse deps r))"
      by (simp add: decodeWithDependencies_def assms(1) env Let_def)
    with False show ?thesis
      by (simp add: readable_def)
  next
    case True
    then have keys: "distinct (map fst ms)"
      by (simp add: distinctNames_def)
    let ?v = "vd_version (classifyVersion (er_versionToken (versionProbe ms)))"
    let ?dv = "decodeVersion urlParse deps data (versionProbe ms) (ds_addAll [] emptyDiagnostics)
      (resetTrace\<lparr>tr_Stage := StageDuplicateKeyScan\<rparr>)"
    let ?P = "\<lambda>v. (\<exists>schemas sch. dep_schemas deps = Inr schemas \<and> selectSchema schemas v = Some sch \<and>
        dep_validate deps sch data = ValidationPassed) \<and> dep_decodeStrict deps data v = Inr doc \<and> docVersion doc \<noteq> VersionZero"
    note d = decode_dispatch [where tokenize = tokenize, OF assms True, of urlParse deps]
    have "resultSuccess (fst ?dv) \<and> rs_Document (fst ?dv) = doc \<longleftrightarrow>
        resultSuccess (fst ?dv) \<and> dep_decodeStrict deps data ?v = Inr doc"
      using decodeVersion_document [of urlParse deps data "versionProbe ms"] by auto
    also have "\<dots> \<longleftrightarrow> er_versionPresent (versionProbe ms) \<and> ?v \<noteq> VersionZero \<and> ?P ?v"
      unfolding decodeVersion_success Let_def by auto
    also have "\<dots> \<longleftrightarrow> (\<exists>v. readable tokenize deps data ms v doc)"
      unfolding readable_def versionProbe_selects [OF keys, symmetric] using True len t by blast
    finally show ?thesis
      by (simp only: d)
  qed
qed

text \<open>
  C20. Decoding succeeds exactly on the documents that every stage accepts: the reader delivers at
  most 4 MiB without error, the bytes are one JSON object and nothing else, no object in it
  repeats a member name, its member \<open>schema_version\<close> is spelled 1, 2 or 3, the schema of that
  version accepts the bytes, and the strict decoder returns a document; that document is the
  result.  (The documents of the repository list only the versions 1 and 2 as supported:
  \<open>version_three_dispatched\<close>.)
\<close>

theorem decode_success_exact:
  assumes "\<And>data. decoderStream (tokenize data)"
  shows "resultSuccess (fst (decodeWithDependencies tokenize urlParse deps r)) \<and>
           rs_Document (fst (decodeWithDependencies tokenize urlParse deps r)) = doc \<longleftrightarrow>
         (\<exists>data ms v. r = Some \<lparr>rd_bytes = data, rd_err = None\<rparr> \<and> readable tokenize deps data ms v doc)"
  (is "?success \<longleftrightarrow> ?readable")
proof
  assume s: ?success
  then obtain data where r: "readBounded r = Inr data"
    by (cases "readBounded r") (auto simp: decodeWithDependencies_def Let_def split: if_splits)
  with s have "envelopeAccepted (tokenize data)"
    by (auto simp: decodeWithDependencies_def Let_def envelopeAccepted_def split: if_splits)
  then obtain ms where "tokenize data = \<lparr>src_tokens = toks (JObject ms), src_eof = True\<rparr>"
    using envelopeAccepted_iff [OF assms, of data] by (cases "tokenize data") auto
  from decode_object [where tokenize = tokenize, OF r this, of urlParse deps doc] s have "\<exists>v. readable tokenize deps data ms v doc"
    by simp
  moreover have "r = Some \<lparr>rd_bytes = data, rd_err = None\<rparr>"
    using r by (simp add: readBounded_Inr)
  ultimately show ?readable
    by blast
next
  assume ?readable
  then obtain data ms v where *: "r = Some \<lparr>rd_bytes = data, rd_err = None\<rparr>" "readable tokenize deps data ms v doc"
    by blast
  then have "readBounded r = Inr data" "tokenize data = \<lparr>src_tokens = toks (JObject ms), src_eof = True\<rparr>"
    by (simp_all add: readBounded_Inr readable_def)
  from decode_object [where tokenize = tokenize, OF this, of urlParse deps doc] *(2) show ?success
    by blast
qed

lemma decode_success_exact_witness:
  "resultSuccess (fst (decodeWithDependencies
     (\<lambda>data. \<lparr>src_tokens = toks (JObject [(''schema_version'', JNumber ''3'')]), src_eof = True\<rparr>) (\<lambda>u. None)
     \<lparr>dep_schemas = Inr \<lparr>cs_v1 = 1::nat, cs_v2 = 2, cs_v3 = 3\<rparr>, dep_validate = (\<lambda>sch data. ValidationPassed),
      dep_decodeStrict = (\<lambda>data v. Inr (newDocumentV3 sampleV3))\<rparr>
     (Some \<lparr>rd_bytes = ''{...}'', rd_err = None\<rparr>)))"
proof -
  let ?ms = "[(''schema_version'', JNumber ''3'')]"
  let ?tokenize = "\<lambda>data :: string. \<lparr>src_tokens = toks (JObject ?ms), src_eof = True\<rparr>"
  let ?deps = "\<lparr>dep_schemas = Inr \<lparr>cs_v1 = 1::nat, cs_v2 = 2, cs_v3 = 3\<rparr>, dep_validate = (\<lambda>sch data. ValidationPassed),
      dep_decodeStrict = (\<lambda>data v. Inr (newDocumentV3 sampleV3))\<rparr>"
  have "decoderStream (?tokenize data)" for data
    unfolding decoderStream_def by (rule exI [of _ "[JObject ?ms]"]) simp
  moreover have "readable ?tokenize ?deps ''{...}'' ?ms Version3 (newDocumentV3 sampleV3)"
    by (simp add: readable_def MaxDocumentBytes_def distinctNames_def selectSchema_def)
  ultimately show ?thesis
    using decode_success_exact [of ?tokenize "\<lambda>u. None" ?deps "Some \<lparr>rd_bytes = ''{...}'', rd_err = None\<rparr>"
        "newDocumentV3 sampleV3"]
    by blast
qed

text \<open>
  \<open>gate-summary-compatibility-matrix.md\<close> and \<open>gate-summary-schema-version-translation.md\<close> fix the
  supported versions to 1 and 2 and list 3 as unsupported.  The code dispatches 3 to its own
  schema and decoder.
\<close>

lemma version_three_dispatched:
  "classifyVersion (TNumber ''3'') = \<lparr>vd_version = Version3, vd_raw = ''3'', vd_code = ''''\<rparr>"
  by code_simp

section \<open>Refusals and stages\<close>

text \<open>What a result and its trace always satisfy, whichever stage made it.\<close>

definition explained :: "decodeResult \<times> decodeTrace \<Rightarrow> bool" where
  "explained rt \<longleftrightarrow>
     (case rt of (r, t) \<Rightarrow>
        (resultSuccess r \<or> (rs_Document r = zeroDocument \<and> (rs_Diagnostics r \<noteq> [] \<or> rs_Err r \<noteq> None))) \<and>
        (tr_WireDecoded t \<longrightarrow> tr_SchemaInvoked t \<and> tr_Stage t = StageWireDecode) \<and>
        (tr_SchemaInvoked t \<longrightarrow> tr_SchemaSelected t \<noteq> VersionZero) \<and>
        (resultSuccess r \<longrightarrow> tr_WireDecoded t \<and> docVersion (rs_Document r) = tr_SchemaSelected t))"

locale decoder_contract =
  fixes deps :: "'sch decodeDependencies"
  assumes strict_version: "dep_decodeStrict deps data v = Inr doc \<Longrightarrow> docVersion doc = v"
begin

lemma explained_wire:
  assumes "v \<noteq> VersionZero" and "tr_SchemaInvoked tr" and "tr_SchemaSelected tr = v"
  shows "explained (decodeWire deps data v ds tr)"
  using assms strict_version [of data v]
  by (auto simp: explained_def decodeWire_def Let_def resultSuccess_def zeroResult_def zeroDocument_def split: sum.splits)

lemma explained_schema:
  assumes "v \<noteq> VersionZero" and "tr_SchemaSelected tr = v" and "\<not> tr_WireDecoded tr" and "\<not> tr_SchemaInvoked tr"
    and loud: "\<And>sch ve. dep_validate deps sch data = ValidationRejected ve \<Longrightarrow> namesProperties ve"
  shows "explained (decodeSchema urlParse deps data v ds tr)"
proof (cases "dep_schemas deps")
  case (Inl e)
  with assms show ?thesis
    by (simp add: explained_def decodeSchema_def zeroResult_def resultSuccess_def Let_def)
next
  case (Inr schemas)
  obtain sch where sch: "selectSchema schemas v = Some sch"
    using assms(1) by (cases v) (auto simp: selectSchema_def)
  show ?thesis
  proof (cases "dep_validate deps sch data")
    case ValidationPassed
    with Inr sch assms show ?thesis
      by (simp add: decodeSchema_def explained_wire)
  next
    case (ValidationRejected ve)
    with Inr sch assms translate_nonempty [OF loud [OF ValidationRejected], of urlParse] show ?thesis
      by (simp add: decodeSchema_def explained_def zeroResult_def resultSuccess_def Let_def)
  next
    case (ValidationFailed e)
    with Inr sch assms show ?thesis
      by (simp add: decodeSchema_def explained_def zeroResult_def resultSuccess_def Let_def)
  qed
qed

lemma explained_refusal:
  assumes "\<not> tr_WireDecoded tr" and "\<not> tr_SchemaInvoked tr"
  shows "ds \<noteq> [] \<Longrightarrow> explained (zeroResult\<lparr>rs_Diagnostics := ds\<rparr>, tr)"
    and "explained (zeroResult\<lparr>rs_Err := Some e\<rparr>, tr)"
  using assms by (simp_all add: explained_def zeroResult_def resultSuccess_def)

lemma explained_version:
  assumes "\<not> tr_WireDecoded tr" and "\<not> tr_SchemaInvoked tr"
    and "\<And>sch ve. dep_validate deps sch data = ValidationRejected ve \<Longrightarrow> namesProperties ve"
  shows "explained (decodeVersion urlParse deps data env (ds_addAll [] emptyDiagnostics) tr)"
proof -
  have one: "ds_emit (ds_add d (ds_addAll [] emptyDiagnostics)) \<noteq> []" for d
    using ds_emit_addAll [of "[d]"] by (simp add: ds_addAll_def)
  let ?d = "classifyVersion (er_versionToken env)"
  show ?thesis
  proof (cases "er_versionPresent env \<and> vd_code ?d = ''''")
    case True
    then have "vd_version ?d \<noteq> VersionZero"
      using classifyVersion_dispatch(2) by blast
    with True assms show ?thesis
      by (simp add: decodeVersion_def Let_def explained_schema)
  next
    case False
    with assms one show ?thesis
      by (auto simp: decodeVersion_def Let_def intro!: explained_refusal)
  qed
qed

lemma explained_decode:
  assumes "\<And>sch data ve. dep_validate deps sch data = ValidationRejected ve \<Longrightarrow> namesProperties ve"
  shows "explained (decodeWithDependencies tokenize urlParse deps r)"
proof (cases "readBounded r")
  case (Inl err)
  have "ds_emit (ds_add d emptyDiagnostics) \<noteq> []" for d
    using ds_emit_addAll [of "[d]"] by (simp add: ds_addAll_def)
  with Inl show ?thesis
    by (auto simp: decodeWithDependencies_def resetTrace_def Let_def intro!: explained_refusal)
next
  case (Inr data)
  let ?env = "scanEnvelope (tokenize data)"
  have env: "er_malformed ?env \<or> er_trailing ?env \<Longrightarrow> er_diagnostics ?env \<noteq> []"
    using scanEnvelope_refused [of "tokenize data"] by (auto simp: envelopeAccepted_def)
  have one: "ds_emit (ds_add d emptyDiagnostics) \<noteq> []" "ds_emit (ds_addAll ds emptyDiagnostics) = [] \<longleftrightarrow> ds = []" for d ds
    using ds_emit_addAll [of "[d]"] by (simp_all add: ds_addAll_def [of "[d]"] ds_emit_addAll)
  show ?thesis
  proof (cases "\<not> er_malformed ?env \<and> \<not> er_trailing ?env \<and> detectDuplicateKeys (tokenize data) = []")
    case True
    with Inr show ?thesis
      using assms by (simp add: decodeWithDependencies_def Let_def resetTrace_def explained_version)
  next
    case False
    with Inr env one show ?thesis
      by (auto simp: decodeWithDependencies_def Let_def resetTrace_def intro!: explained_refusal)
  qed
qed

end

interpretation production: decoder_contract "productionDecodeDependencies schemas validate wd" for schemas validate wd
  by unfold_locales (auto simp: productionDecodeDependencies_def dest: decodeStrict_version)

text \<open>
  C21. The production decoder fails closed and in order, provided that the schema validator names
  at least one property in every error about missing or additional properties
  (\<open>namesProperties\<close>: an error with an empty list of names would be translated to no diagnostic).
  Whatever the schemas, such a validator and the wire decoders return, a result that is not a
  success has no document and carries a diagnostic or an error; the wire decoder runs only after
  the schema of the dispatched version was invoked; and a success means that it ran and produced
  a document of exactly that version.
\<close>

theorem decode_fails_closed:
  assumes "\<And>sch data ve. validate sch data = ValidationRejected ve \<Longrightarrow> namesProperties ve"
  shows "case decodeWithDependencies tokenize urlParse (productionDecodeDependencies schemas validate wd) r of (res, trace) \<Rightarrow>
     (resultSuccess res \<or> rs_Document res = zeroDocument \<and> (rs_Diagnostics res \<noteq> [] \<or> rs_Err res \<noteq> None)) \<and>
     (tr_WireDecoded trace \<longrightarrow> tr_SchemaInvoked trace \<and> tr_Stage trace = StageWireDecode) \<and>
     (tr_SchemaInvoked trace \<longrightarrow> tr_SchemaSelected trace \<noteq> VersionZero) \<and>
     (resultSuccess res \<longrightarrow> tr_WireDecoded trace \<and> docVersion (rs_Document res) = tr_SchemaSelected trace)"
proof -
  have "explained (decodeWithDependencies tokenize urlParse (productionDecodeDependencies schemas validate wd) r)"
    by (rule production.explained_decode) (auto simp: productionDecodeDependencies_def intro: assms)
  then show ?thesis
    by (simp only: explained_def)
qed

text \<open>What the validator answers when a required member is missing: a root wrapper with one leaf.\<close>

definition missingStatus :: validationError where
  "missingStatus = ValidationError ''urn:leamas:gate-summary:v2'' [] (Some KSchema) []
     [Some (ValidationError ''urn:leamas:gate-summary:v2'' [] (Some (KRequired [''overall_status''])) [] [])]"

definition refusingDependencies :: "nat decodeDependencies" where
  "refusingDependencies = productionDecodeDependencies (Inr \<lparr>cs_v1 = 1, cs_v2 = 2, cs_v3 = 3\<rparr>)
     (\<lambda>sch data. if sch = 2 then ValidationRejected (Some missingStatus) else ValidationPassed)
     \<lparr>wd_v1 = \<lambda>data. Inl ''e'', wd_v2 = \<lambda>data. Inl ''e'', wd_v3 = \<lambda>data. Inl ''e''\<rparr>"

text \<open>The document has version 2 and nothing else: the schema of version 2 is asked and refuses it.\<close>

lemma decode_fails_closed_witness:
  "case decodeWithDependencies (\<lambda>data. \<lparr>src_tokens = toks (JObject [(''schema_version'', JNumber ''2'')]), src_eof = True\<rparr>)
     (\<lambda>u. None) refusingDependencies (Some \<lparr>rd_bytes = ''{...}'', rd_err = None\<rparr>) of (res, trace) \<Rightarrow>
     tr_SchemaInvoked trace \<and> tr_SchemaSelected trace = Version2 \<and> \<not> tr_WireDecoded trace \<and> rs_Err res = None \<and>
     map dg_Code (rs_Diagnostics res) = [''GS_REQUIRED_FIELD_MISSING''] \<and> rs_Document res = zeroDocument"
  (is "case decodeWithDependencies ?tokenize ?url _ ?r of (res, trace) \<Rightarrow> _")
proof -
  let ?validate = "\<lambda>(sch :: nat) (data :: string). if sch = 2 then ValidationRejected (Some missingStatus) else ValidationPassed"
  let ?schemas = "Inr \<lparr>cs_v1 = 1 :: nat, cs_v2 = 2, cs_v3 = 3\<rparr>"
  let ?wd = "\<lparr>wd_v1 = \<lambda>data. Inl ''e'', wd_v2 = \<lambda>data. Inl ''e'', wd_v3 = \<lambda>data. Inl ''e''\<rparr>"
  obtain res trace where d: "decodeWithDependencies ?tokenize ?url refusingDependencies ?r = (res, trace)"
    by fastforce
  have loud: "?validate sch data = ValidationRejected ve \<Longrightarrow> namesProperties ve" for sch data ve
    by (auto simp: missingStatus_def split: if_splits)
  have "decodeWithDependencies ?tokenize ?url refusingDependencies ?r =
      decodeVersion ?url refusingDependencies ''{...}'' (versionProbe [(''schema_version'', JNumber ''2'')])
        (ds_addAll [] emptyDiagnostics) (resetTrace\<lparr>tr_Stage := StageDuplicateKeyScan\<rparr>)"
    by (rule decode_dispatch) (simp_all add: readBounded_Inr MaxDocumentBytes_def distinctNames_def)
  moreover have "versionProbe [(''schema_version'', JNumber ''2'')] = zeroEnvelope\<lparr>er_versionPresent := True, er_versionToken := TNumber ''2''\<rparr>"
    by (simp add: versionProbe_def firstToken_def)
  moreover have "classifyVersion (TNumber ''2'') = \<lparr>vd_version = Version2, vd_raw = ''2'', vd_code = ''''\<rparr>"
    by code_simp
  moreover have codes: "map dg_Code (translate ?url (Some missingStatus)) = [''GS_REQUIRED_FIELD_MISSING'']"
    by code_simp
  moreover have "\<not> diagnosticsContain (translate ?url (Some missingStatus)) ''GS_INTERNAL''"
  proof -
    have "''GS_INTERNAL'' \<notin> set (map dg_Code (translate ?url (Some missingStatus)))"
      unfolding codes by simp
    then show ?thesis
      by (auto simp: diagnosticsContain_def list_ex_iff image_iff)
  qed
  ultimately have "case decodeWithDependencies ?tokenize ?url refusingDependencies ?r of (res, trace) \<Rightarrow>
      tr_SchemaInvoked trace \<and> tr_SchemaSelected trace = Version2 \<and> rs_Err res = None \<and>
      tr_Stage trace = StageSchemaValidation \<and> map dg_Code (rs_Diagnostics res) = [''GS_REQUIRED_FIELD_MISSING'']"
    by (simp add: decodeVersion_def decodeSchema_def refusingDependencies_def productionDecodeDependencies_def selectSchema_def
        resetTrace_def zeroResult_def Let_def)
  with d have t: "tr_SchemaInvoked trace" "tr_SchemaSelected trace = Version2" "rs_Err res = None" "tr_Stage trace = StageSchemaValidation"
    "map dg_Code (rs_Diagnostics res) = [''GS_REQUIRED_FIELD_MISSING'']"
    by simp_all
  then have "\<not> resultSuccess res"
    by (auto simp: resultSuccess_def)
  with decode_fails_closed [of ?validate ?tokenize ?url ?schemas ?wd ?r, OF loud] d t show ?thesis
    by (simp add: refusingDependencies_def)
qed

end
