(* ===== verification/Closure_Diag.thy ===== *)
theory Closure_Diag
  imports Go_Path "HOL-Library.Sublist"
begin

text \<open>
  What the Closure Protocol v2 verifier and runner share: the string functions of the Go library
  they call, and their two families of diagnostics, \<open>V2VerifierDiagnostic\<close>
  (\<open>v2_verifier_diagnostic.go\<close>) and \<open>V2Diagnostic\<close>
  (\<open>closure_protocol_v2_diagnostic.go\<close>).

  A diagnostic code is a string constant of the source and is an abbreviation here.  The verb
  \<open>%q\<close> of package \<open>fmt\<close> depends on Unicode tables and is the argument \<open>quote\<close> of
  the definitions whose messages use it.
\<close>

section \<open>Strings\<close>

text \<open>
  The encodings of the characters that \<open>unicode.IsSpace\<close> accepts: the ASCII ones, then
  U+0085, U+00A0, U+1680, U+2000 to U+200A, U+2028, U+2029, U+202F, U+205F and U+3000.
\<close>

definition goSpaces :: "string list" where
  "goSpaces =
     map (\<lambda>n. [char_of (n :: nat)]) [9, 10, 11, 12, 13, 32]
     @ map (map (char_of :: nat \<Rightarrow> char))
         ([[0xC2, 0x85], [0xC2, 0xA0], [0xE1, 0x9A, 0x80]]
          @ map (\<lambda>n. [0xE2, 0x80, 0x80 + n]) [0..<11]
          @ [[0xE2, 0x80, 0xA8], [0xE2, 0x80, 0xA9], [0xE2, 0x80, 0xAF], [0xE2, 0x81, 0x9F], [0xE3, 0x80, 0x80]])"

lemma goSpaces_nonempty: "p \<in> set goSpaces \<Longrightarrow> p \<noteq> []"
  by (auto simp: goSpaces_def)

text \<open>Drops the given pieces from the front for as long as one of them is there.\<close>

function dropPieces :: "string list \<Rightarrow> string \<Rightarrow> string" where
  "dropPieces ps s =
     (case find (\<lambda>p. p \<noteq> [] \<and> prefix p s) ps of
        Some p \<Rightarrow> dropPieces ps (drop (length p) s)
      | None \<Rightarrow> s)"
  by pat_completeness auto
termination dropPieces
proof (relation "measure (\<lambda>(ps, s). length s)")
  fix ps s p
  assume "find (\<lambda>p. p \<noteq> [] \<and> prefix p s) ps = Some p"
  then have "p \<noteq> []" "prefix p s"
    by (auto simp: find_Some_iff)
  then show "((ps, drop (length p) s), ps, s) \<in> measure (\<lambda>(ps, s). length s)"
    by (cases p) (auto simp: prefix_def)
qed simp

declare dropPieces.simps [simp del]

text \<open>\<open>strings.TrimSpace\<close>.\<close>

definition trimSpace :: "string \<Rightarrow> string" where
  "trimSpace s = rev (dropPieces (map rev goSpaces) (rev (dropPieces goSpaces s)))"

lemma dropPieces_suffix: "suffix (dropPieces ps s) s"
proof (induction ps s rule: dropPieces.induct)
  case (1 ps s)
  show ?case
  proof (cases "find (\<lambda>p. p \<noteq> [] \<and> prefix p s) ps")
    case (Some p)
    then have "suffix (dropPieces ps (drop (length p) s)) (drop (length p) s)"
      by (rule 1)
    then show ?thesis
      using suffix_order.trans [OF _ suffix_drop] Some by (subst dropPieces.simps) simp
  qed (subst dropPieces.simps, simp)
qed

lemma trimSpace_Nil [simp]: "trimSpace [] = []"
  using dropPieces_suffix [of goSpaces "[]"] dropPieces_suffix [of "map rev goSpaces" "[]"]
  by (simp add: trimSpace_def)

lemma dropPieces_id: "(\<And>p. p \<in> set ps \<Longrightarrow> p \<noteq> [] \<Longrightarrow> \<not> prefix p s) \<Longrightarrow> dropPieces ps s = s"
  by (subst dropPieces.simps) (auto split: option.split simp: find_Some_iff in_set_conv_nth)

text \<open>A string whose first and last bytes are printable ASCII is not changed.\<close>

definition graphic :: "char \<Rightarrow> bool" where
  "graphic c \<longleftrightarrow> 0x21 \<le> (of_char c :: nat) \<and> (of_char c :: nat) \<le> 0x7E"

lemma goSpaces_not_graphic: "p \<in> set goSpaces \<Longrightarrow> \<not> graphic (hd p) \<and> \<not> graphic (last p)"
  by (auto simp: goSpaces_def graphic_def)

lemma trimSpace_id:
  assumes "s \<noteq> [] \<Longrightarrow> graphic (hd s)" and "s \<noteq> [] \<Longrightarrow> graphic (last s)"
  shows "trimSpace s = s"
proof -
  have "dropPieces goSpaces s = s"
    using assms(1) goSpaces_not_graphic by (intro dropPieces_id) (fastforce simp: prefix_def hd_append)
  moreover have "dropPieces (map rev goSpaces) (rev s) = rev s"
  proof (rule dropPieces_id)
    fix p assume "p \<in> set (map rev goSpaces)" "p \<noteq> []"
    then have ng: "\<not> graphic (hd p)"
      using goSpaces_not_graphic by (auto simp: hd_rev)
    show "\<not> prefix p (rev s)"
    proof
      assume p: "prefix p (rev s)"
      with \<open>p \<noteq> []\<close> have "s \<noteq> []" "hd p = hd (rev s)"
        by (auto simp: prefix_def hd_append)
      with assms(2) ng show False
        by (simp add: hd_rev)
    qed
  qed
  ultimately show ?thesis
    by (simp add: trimSpace_def)
qed

text \<open>\<open>strings.Contains\<close>, \<open>strings.Index\<close> of a byte, \<open>strings.ToLower\<close> on ASCII, \<open>strings.TrimRight\<close>.\<close>

fun containsStr :: "string \<Rightarrow> string \<Rightarrow> bool" where
  "containsStr sub [] = (sub = [])"
| "containsStr sub (c # s) = (prefix sub (c # s) \<or> containsStr sub s)"

lemma containsStr_iff: "containsStr sub s \<longleftrightarrow> sublist sub s"
  by (induction s) (auto simp: sublist_Cons_right)

definition trimRightChar :: "char \<Rightarrow> string \<Rightarrow> string" where
  "trimRightChar c s = rev (dropWhile (\<lambda>x. x = c) (rev s))"

definition dropPrefix :: "string \<Rightarrow> string \<Rightarrow> string" where
  "dropPrefix p s = (if prefix p s then drop (length p) s else s)"

definition nlChar :: char where
  "nlChar = char_of (10 :: nat)"

definition crChar :: char where
  "crChar = char_of (13 :: nat)"

definition nulChar :: char where
  "nulChar = char_of (0 :: nat)"

text \<open>\<open>firstNonEmpty\<close> and \<open>stringOrQuote\<close>.\<close>

definition firstNonEmpty :: "string \<Rightarrow> string \<Rightarrow> string" where
  "firstNonEmpty a b = (if a \<noteq> '''' then a else b)"

definition dquote :: string where
  "dquote = [char_of (34 :: nat)]"

definition stringOrQuote :: "string \<Rightarrow> string" where
  "stringOrQuote s =
     (if s = '''' then ''<empty>''
      else if list_ex (\<lambda>c. c \<in> {CHR '' '', char_of (9 :: nat), nlChar, char_of (34 :: nat)}) s
      then dquote @ s @ dquote else s)"

section \<open>Verifier diagnostics\<close>

type_synonym V2VerifierCode = string

abbreviation V2VerifierUnsupportedClosureProtocolVersion :: V2VerifierCode where
  "V2VerifierUnsupportedClosureProtocolVersion \<equiv> ''unsupported_closure_protocol_version''"

abbreviation V2VerifierUnsupportedPlanContractVersion :: V2VerifierCode where
  "V2VerifierUnsupportedPlanContractVersion \<equiv> ''unsupported_plan_contract_version''"

abbreviation V2VerifierInvalidVersionCombination :: V2VerifierCode where
  "V2VerifierInvalidVersionCombination \<equiv> ''invalid_version_combination''"

abbreviation V2VerifierRepositoryUnavailable :: V2VerifierCode where
  "V2VerifierRepositoryUnavailable \<equiv> ''repository_unavailable''"

abbreviation V2VerifierPlanPathInvalid :: V2VerifierCode where
  "V2VerifierPlanPathInvalid \<equiv> ''plan_path_invalid''"

abbreviation V2VerifierManifestPathInvalid :: V2VerifierCode where
  "V2VerifierManifestPathInvalid \<equiv> ''manifest_path_invalid''"

abbreviation V2VerifierSubjectUnresolved :: V2VerifierCode where
  "V2VerifierSubjectUnresolved \<equiv> ''subject_unresolved''"

abbreviation V2VerifierFreezeUnresolved :: V2VerifierCode where
  "V2VerifierFreezeUnresolved \<equiv> ''freeze_unresolved''"

abbreviation V2VerifierClosureUnresolved :: V2VerifierCode where
  "V2VerifierClosureUnresolved \<equiv> ''closure_unresolved''"

abbreviation V2VerifierSubjectFreezeEqual :: V2VerifierCode where
  "V2VerifierSubjectFreezeEqual \<equiv> ''subject_freeze_equal''"

abbreviation V2VerifierFreezeClosureEqual :: V2VerifierCode where
  "V2VerifierFreezeClosureEqual \<equiv> ''freeze_closure_equal''"

abbreviation V2VerifierSubjectClosureEqual :: V2VerifierCode where
  "V2VerifierSubjectClosureEqual \<equiv> ''subject_closure_equal''"

abbreviation V2VerifierSubjectNotAncestorFreeze :: V2VerifierCode where
  "V2VerifierSubjectNotAncestorFreeze \<equiv> ''subject_not_ancestor_of_freeze''"

abbreviation V2VerifierFreezeNotAncestorClosure :: V2VerifierCode where
  "V2VerifierFreezeNotAncestorClosure \<equiv> ''freeze_not_ancestor_of_closure''"

abbreviation V2VerifierSubjectFreezeUnrelated :: V2VerifierCode where
  "V2VerifierSubjectFreezeUnrelated \<equiv> ''subject_freeze_unrelated''"

abbreviation V2VerifierFreezeClosureUnrelated :: V2VerifierCode where
  "V2VerifierFreezeClosureUnrelated \<equiv> ''freeze_closure_unrelated''"

abbreviation V2VerifierReverseSubjectFreezeTopology :: V2VerifierCode where
  "V2VerifierReverseSubjectFreezeTopology \<equiv> ''reverse_subject_freeze_topology''"

abbreviation V2VerifierReverseFreezeClosureTopology :: V2VerifierCode where
  "V2VerifierReverseFreezeClosureTopology \<equiv> ''reverse_freeze_closure_topology''"

abbreviation V2VerifierTopologyObservationFailed :: V2VerifierCode where
  "V2VerifierTopologyObservationFailed \<equiv> ''topology_observation_failed''"

abbreviation V2VerifierFrozenPlanMissing :: V2VerifierCode where
  "V2VerifierFrozenPlanMissing \<equiv> ''frozen_plan_missing''"

abbreviation V2VerifierFrozenPlanNotBlob :: V2VerifierCode where
  "V2VerifierFrozenPlanNotBlob \<equiv> ''frozen_plan_not_blob''"

abbreviation V2VerifierFrozenPlanReadFailed :: V2VerifierCode where
  "V2VerifierFrozenPlanReadFailed \<equiv> ''frozen_plan_read_failed''"

abbreviation V2VerifierClosureManifestMissing :: V2VerifierCode where
  "V2VerifierClosureManifestMissing \<equiv> ''closure_manifest_missing''"

abbreviation V2VerifierClosureManifestNotBlob :: V2VerifierCode where
  "V2VerifierClosureManifestNotBlob \<equiv> ''closure_manifest_not_blob''"

abbreviation V2VerifierClosureManifestReadFailed :: V2VerifierCode where
  "V2VerifierClosureManifestReadFailed \<equiv> ''closure_manifest_read_failed''"

abbreviation V2VerifierClosureManifestInvalidJSON :: V2VerifierCode where
  "V2VerifierClosureManifestInvalidJSON \<equiv> ''closure_manifest_invalid_json''"

abbreviation V2VerifierClosureManifestContractInvalid :: V2VerifierCode where
  "V2VerifierClosureManifestContractInvalid \<equiv> ''closure_manifest_contract_invalid''"

abbreviation V2VerifierClosureManifestAssertionMismatch :: V2VerifierCode where
  "V2VerifierClosureManifestAssertionMismatch \<equiv> ''closure_manifest_assertion_mismatch''"

abbreviation V2VerifierObjectFormatUnavailable :: V2VerifierCode where
  "V2VerifierObjectFormatUnavailable \<equiv> ''object_format_unavailable''"

abbreviation V2VerifierUnsupportedObjectFormat :: V2VerifierCode where
  "V2VerifierUnsupportedObjectFormat \<equiv> ''unsupported_object_format''"

abbreviation V2VerifierManifestProtocolVersionMismatch :: V2VerifierCode where
  "V2VerifierManifestProtocolVersionMismatch \<equiv> ''manifest_protocol_version_mismatch''"

abbreviation V2VerifierManifestPlanContractVersionMismatch :: V2VerifierCode where
  "V2VerifierManifestPlanContractVersionMismatch \<equiv> ''manifest_plan_contract_version_mismatch''"

abbreviation V2VerifierManifestSubjectMismatch :: V2VerifierCode where
  "V2VerifierManifestSubjectMismatch \<equiv> ''manifest_subject_mismatch''"

abbreviation V2VerifierManifestSubjectTreeMismatch :: V2VerifierCode where
  "V2VerifierManifestSubjectTreeMismatch \<equiv> ''manifest_subject_tree_mismatch''"

abbreviation V2VerifierManifestFreezeMismatch :: V2VerifierCode where
  "V2VerifierManifestFreezeMismatch \<equiv> ''manifest_freeze_mismatch''"

abbreviation V2VerifierManifestFreezeTreeMismatch :: V2VerifierCode where
  "V2VerifierManifestFreezeTreeMismatch \<equiv> ''manifest_freeze_tree_mismatch''"

abbreviation V2VerifierManifestExecutionTreeMismatch :: V2VerifierCode where
  "V2VerifierManifestExecutionTreeMismatch \<equiv> ''manifest_execution_tree_mismatch''"

abbreviation V2VerifierManifestPlanPathMismatch :: V2VerifierCode where
  "V2VerifierManifestPlanPathMismatch \<equiv> ''manifest_plan_path_mismatch''"

abbreviation V2VerifierManifestPlanBlobMismatch :: V2VerifierCode where
  "V2VerifierManifestPlanBlobMismatch \<equiv> ''manifest_plan_blob_mismatch''"

abbreviation V2VerifierManifestPlanSHA256Mismatch :: V2VerifierCode where
  "V2VerifierManifestPlanSHA256Mismatch \<equiv> ''manifest_plan_sha256_mismatch''"

abbreviation V2VerifierManifestBinaryIdentityInvalid :: V2VerifierCode where
  "V2VerifierManifestBinaryIdentityInvalid \<equiv> ''manifest_binary_identity_invalid''"

abbreviation V2VerifierManifestCheckResultBijectionFailed :: V2VerifierCode where
  "V2VerifierManifestCheckResultBijectionFailed \<equiv> ''manifest_check_result_bijection_failed''"

abbreviation V2VerifierManifestUnsuccessfulRun :: V2VerifierCode where
  "V2VerifierManifestUnsuccessfulRun \<equiv> ''manifest_unsuccessful_run''"

abbreviation V2VerifierManifestCheckResultsInvalid :: V2VerifierCode where
  "V2VerifierManifestCheckResultsInvalid \<equiv> ''manifest_check_results_invalid''"

abbreviation V2VerifierFrozenPlanInvalid :: V2VerifierCode where
  "V2VerifierFrozenPlanInvalid \<equiv> ''frozen_plan_invalid''"

abbreviation V2VerifierManifestUnknownCheckID :: V2VerifierCode where
  "V2VerifierManifestUnknownCheckID \<equiv> ''manifest_unknown_check_id''"

abbreviation V2VerifierClosureTagMissing :: V2VerifierCode where
  "V2VerifierClosureTagMissing \<equiv> ''closure_tag_missing''"

abbreviation V2VerifierClosureTagLightweight :: V2VerifierCode where
  "V2VerifierClosureTagLightweight \<equiv> ''closure_tag_lightweight''"

abbreviation V2VerifierClosureTagTargetMismatch :: V2VerifierCode where
  "V2VerifierClosureTagTargetMismatch \<equiv> ''closure_tag_target_mismatch''"

abbreviation V2VerifierClosureTagUnreadable :: V2VerifierCode where
  "V2VerifierClosureTagUnreadable \<equiv> ''closure_tag_unreadable''"

abbreviation V2VerifierClosureTagMetadataMissing :: V2VerifierCode where
  "V2VerifierClosureTagMetadataMissing \<equiv> ''closure_tag_metadata_missing''"

abbreviation V2VerifierClosureTagMetadataDuplicate :: V2VerifierCode where
  "V2VerifierClosureTagMetadataDuplicate \<equiv> ''closure_tag_metadata_duplicate''"

abbreviation V2VerifierClosureTagMetadataUnknown :: V2VerifierCode where
  "V2VerifierClosureTagMetadataUnknown \<equiv> ''closure_tag_metadata_unknown''"

abbreviation V2VerifierClosureTagMetadataMalformed :: V2VerifierCode where
  "V2VerifierClosureTagMetadataMalformed \<equiv> ''closure_tag_metadata_malformed''"

abbreviation V2VerifierClosureTagMetadataMismatch :: V2VerifierCode where
  "V2VerifierClosureTagMetadataMismatch \<equiv> ''closure_tag_metadata_mismatch''"

abbreviation V2VerifierStateCaptureHeadFailed :: V2VerifierCode where
  "V2VerifierStateCaptureHeadFailed \<equiv> ''state_capture_head_failed''"

abbreviation V2VerifierStateCaptureStatusFailed :: V2VerifierCode where
  "V2VerifierStateCaptureStatusFailed \<equiv> ''state_capture_status_failed''"

abbreviation V2VerifierStateCaptureWorktreeFailed :: V2VerifierCode where
  "V2VerifierStateCaptureWorktreeFailed \<equiv> ''state_capture_worktree_failed''"

abbreviation V2VerifierStateCaptureRefsFailed :: V2VerifierCode where
  "V2VerifierStateCaptureRefsFailed \<equiv> ''state_capture_refs_failed''"

abbreviation V2VerifierStateMutationDetected :: V2VerifierCode where
  "V2VerifierStateMutationDetected \<equiv> ''state_mutation_detected''"

abbreviation V2VerifierOutputPathNotDetached :: V2VerifierCode where
  "V2VerifierOutputPathNotDetached \<equiv> ''verifier_output_path_not_detached''"

abbreviation V2VerifierDuplicateCLIFlag :: V2VerifierCode where
  "V2VerifierDuplicateCLIFlag \<equiv> ''duplicate_cli_flag''"

abbreviation V2VerifierOutputPublicationFailed :: V2VerifierCode where
  "V2VerifierOutputPublicationFailed \<equiv> ''verifier_output_publication_failed''"

abbreviation V2VerifierObserverClass :: V2VerifierCode where
  "V2VerifierObserverClass \<equiv> ''observer_class''"

abbreviation V2VerifierWorktreeInventoryUnavailable :: V2VerifierCode where
  "V2VerifierWorktreeInventoryUnavailable \<equiv> ''worktree_inventory_unavailable''"

record V2VerifierDiagnostic =
  vd_Code :: V2VerifierCode
  vd_Message :: string
  vd_PropertyName :: string
  vd_Expected :: string
  vd_Observed :: string
  vd_ObjectOID :: string
  vd_ObjectPath :: string
  vd_Detail :: string

type_synonym V2VerifierDiagnostics = "V2VerifierDiagnostic list"

definition NewV2VerifierDiagnostic :: "V2VerifierCode \<Rightarrow> string \<Rightarrow> V2VerifierDiagnostic" where
  "NewV2VerifierDiagnostic code message =
     \<lparr>vd_Code = code, vd_Message = message, vd_PropertyName = '''', vd_Expected = '''', vd_Observed = '''',
      vd_ObjectOID = '''', vd_ObjectPath = '''', vd_Detail = ''''\<rparr>"

definition withProperty :: "string \<Rightarrow> V2VerifierDiagnostic \<Rightarrow> V2VerifierDiagnostic" where
  "withProperty name d = d\<lparr>vd_PropertyName := name\<rparr>"

definition withExpected :: "string \<Rightarrow> V2VerifierDiagnostic \<Rightarrow> V2VerifierDiagnostic" where
  "withExpected value d = d\<lparr>vd_Expected := value\<rparr>"

definition withObserved :: "string \<Rightarrow> V2VerifierDiagnostic \<Rightarrow> V2VerifierDiagnostic" where
  "withObserved value d = d\<lparr>vd_Observed := value\<rparr>"

definition withObjectOID :: "string \<Rightarrow> V2VerifierDiagnostic \<Rightarrow> V2VerifierDiagnostic" where
  "withObjectOID oid d = d\<lparr>vd_ObjectOID := oid\<rparr>"

definition withObjectPath :: "string \<Rightarrow> V2VerifierDiagnostic \<Rightarrow> V2VerifierDiagnostic" where
  "withObjectPath path d = d\<lparr>vd_ObjectPath := path\<rparr>"

named_theorems diag_defs \<open>the constructors of diagnostics\<close>

lemmas [diag_defs] = NewV2VerifierDiagnostic_def withProperty_def withExpected_def withObserved_def
  withObjectOID_def withObjectPath_def

lemma vd_Code_builders [simp]:
  "vd_Code (NewV2VerifierDiagnostic c m) = c" "vd_Code (withProperty x d) = vd_Code d"
  "vd_Code (withExpected x d) = vd_Code d" "vd_Code (withObserved x d) = vd_Code d"
  "vd_Code (withObjectOID x d) = vd_Code d" "vd_Code (withObjectPath x d) = vd_Code d"
  by (simp_all add: diag_defs)

definition HasCode :: "V2VerifierDiagnostics \<Rightarrow> V2VerifierCode \<Rightarrow> bool" where
  "HasCode d code = list_ex (\<lambda>item. vd_Code item = code) d"

lemma HasCode_simps [simp]:
  "\<not> HasCode [] c" "HasCode (x # xs) c \<longleftrightarrow> vd_Code x = c \<or> HasCode xs c"
  "HasCode (xs @ ys) c \<longleftrightarrow> HasCode xs c \<or> HasCode ys c"
  by (auto simp: HasCode_def)

definition CodesOf :: "V2VerifierDiagnostics \<Rightarrow> V2VerifierCode list" where
  "CodesOf d = map vd_Code (dedup_by vd_Code [] d)"

lemma CodesOf_exact: "distinct (CodesOf d) \<and> (\<forall>c. c \<in> set (CodesOf d) \<longleftrightarrow> HasCode d c)"
proof -
  have "vd_Code ` set (dedup_by vd_Code [] d) = vd_Code ` set d"
    by (simp add: keys_dedup_by)
  then show ?thesis
    by (auto simp: CodesOf_def HasCode_def list_ex_iff distinct_dedup_by image_iff)
qed

text \<open>An error carries diagnostics and the text of its cause.\<close>

record V2VerifierError =
  ve_Diags :: V2VerifierDiagnostics
  ve_Cause :: "string option"

definition NewV2VerifierError :: "V2VerifierDiagnostic \<Rightarrow> V2VerifierError" where
  "NewV2VerifierError diag = \<lparr>ve_Diags = [diag], ve_Cause = None\<rparr>"

definition verifierErrorText :: "V2VerifierError \<Rightarrow> string" where
  "verifierErrorText e =
     (case ve_Diags e of
        [] \<Rightarrow> ''v2 closure verifier failure''
      | first # _ \<Rightarrow> if vd_Message first = '''' then vd_Code first else vd_Code first @ '': '' @ vd_Message first)"

text \<open>Every error the verifier meets is a \<open>V2VerifierError\<close> or the nil pointer.\<close>

definition collectV2VerifierDiags :: "V2VerifierError option \<Rightarrow> V2VerifierDiagnostics" where
  "collectV2VerifierDiags err = (case err of None \<Rightarrow> [] | Some v \<Rightarrow> ve_Diags v)"

text \<open>\<open>sortedDiagnostics\<close>: by code, property and message, stable.\<close>

definition diagLess :: "V2VerifierDiagnostic \<Rightarrow> V2VerifierDiagnostic \<Rightarrow> bool" where
  "diagLess a b =
     (if vd_Code a \<noteq> vd_Code b then vd_Code a < vd_Code b
      else if vd_PropertyName a \<noteq> vd_PropertyName b then vd_PropertyName a < vd_PropertyName b
      else vd_Message a < vd_Message b)"

definition sortedDiagnostics :: "V2VerifierDiagnostics \<Rightarrow> V2VerifierDiagnostics" where
  "sortedDiagnostics ds = sort_slice diagLess ds"

interpretation diag_order: keyed_less diagLess "\<lambda>d. (vd_Code d, vd_PropertyName d, vd_Message d)"
  by unfold_locales (auto simp: diagLess_def less_prod_def)

lemma sortedDiagnostics_simps [simp]:
  "sortedDiagnostics ds = [] \<longleftrightarrow> ds = []" "set (sortedDiagnostics ds) = set ds"
  "HasCode (sortedDiagnostics ds) c = HasCode ds c"
proof -
  show "sortedDiagnostics ds = [] \<longleftrightarrow> ds = []"
    by (metis sortedDiagnostics_def length_sort_slice length_0_conv)
qed (simp_all add: sortedDiagnostics_def HasCode_def list_ex_iff)

section \<open>Runner diagnostics\<close>

type_synonym V2DiagnosticCode = string

abbreviation V2CodeUnsupportedClosureProtocolVersion :: V2DiagnosticCode where
  "V2CodeUnsupportedClosureProtocolVersion \<equiv> ''unsupported_closure_protocol_version''"

abbreviation V2CodeUnsupportedPlanContractVersion :: V2DiagnosticCode where
  "V2CodeUnsupportedPlanContractVersion \<equiv> ''unsupported_plan_contract_version''"

abbreviation V2CodeUnsupportedPlanProtocolComb :: V2DiagnosticCode where
  "V2CodeUnsupportedPlanProtocolComb \<equiv> ''unsupported_plan_protocol_combination''"

abbreviation V2CodeSubjectCommitNotFound :: V2DiagnosticCode where
  "V2CodeSubjectCommitNotFound \<equiv> ''subject_commit_not_found''"

abbreviation V2CodeFreezeCommitNotFound :: V2DiagnosticCode where
  "V2CodeFreezeCommitNotFound \<equiv> ''freeze_commit_not_found''"

abbreviation V2CodeSubjectEqualsFreeze :: V2DiagnosticCode where
  "V2CodeSubjectEqualsFreeze \<equiv> ''subject_equals_freeze''"

abbreviation V2CodeSubjectNotAncestorOfFreeze :: V2DiagnosticCode where
  "V2CodeSubjectNotAncestorOfFreeze \<equiv> ''subject_not_ancestor_of_freeze''"

abbreviation V2CodeFreezeAncestorOfSubject :: V2DiagnosticCode where
  "V2CodeFreezeAncestorOfSubject \<equiv> ''freeze_ancestor_of_subject''"

abbreviation V2CodeSubjectFreezeUnrelated :: V2DiagnosticCode where
  "V2CodeSubjectFreezeUnrelated \<equiv> ''subject_freeze_unrelated''"

abbreviation V2CodeGitOperationFailed :: V2DiagnosticCode where
  "V2CodeGitOperationFailed \<equiv> ''git_operation_failed''"

abbreviation V2CodeCheckResultMappingInvalid :: V2DiagnosticCode where
  "V2CodeCheckResultMappingInvalid \<equiv> ''check_result_mapping_invalid''"

abbreviation V2CodeCallerHeadChanged :: V2DiagnosticCode where
  "V2CodeCallerHeadChanged \<equiv> ''caller_head_changed''"

abbreviation V2CodeCallerTreeChanged :: V2DiagnosticCode where
  "V2CodeCallerTreeChanged \<equiv> ''caller_tree_changed''"

abbreviation V2CodeCallerWorktreeDirtyAfter :: V2DiagnosticCode where
  "V2CodeCallerWorktreeDirtyAfter \<equiv> ''caller_worktree_dirty_after''"

abbreviation V2CodeWorktreeRegistrationLeaked :: V2DiagnosticCode where
  "V2CodeWorktreeRegistrationLeaked \<equiv> ''worktree_registration_leaked''"

abbreviation V2CodeCallerRefsChanged :: V2DiagnosticCode where
  "V2CodeCallerRefsChanged \<equiv> ''caller_refs_changed''"

abbreviation V2CodeGitTimeout :: V2DiagnosticCode where
  "V2CodeGitTimeout \<equiv> ''git_timeout''"

abbreviation V2CodeGitCancelled :: V2DiagnosticCode where
  "V2CodeGitCancelled \<equiv> ''git_cancelled''"

abbreviation V2CodeGitSpawnFailed :: V2DiagnosticCode where
  "V2CodeGitSpawnFailed \<equiv> ''git_spawn_failed''"

abbreviation V2CodeGitNotRepository :: V2DiagnosticCode where
  "V2CodeGitNotRepository \<equiv> ''git_not_repository''"

abbreviation V2CodeGitPermissionDenied :: V2DiagnosticCode where
  "V2CodeGitPermissionDenied \<equiv> ''git_permission_denied''"

abbreviation V2CodeGitMalformedRevision :: V2DiagnosticCode where
  "V2CodeGitMalformedRevision \<equiv> ''git_malformed_revision''"

abbreviation V2CodeCallerStateUnavailable :: V2DiagnosticCode where
  "V2CodeCallerStateUnavailable \<equiv> ''caller_state_unavailable''"

abbreviation V2CodeWorktreeInventoryUnavailable :: V2DiagnosticCode where
  "V2CodeWorktreeInventoryUnavailable \<equiv> ''worktree_inventory_unavailable''"

abbreviation V2CodeObjectFormatUnavailable :: V2DiagnosticCode where
  "V2CodeObjectFormatUnavailable \<equiv> ''object_format_unavailable''"

abbreviation V2CodeUnsupportedObjectFormat :: V2DiagnosticCode where
  "V2CodeUnsupportedObjectFormat \<equiv> ''unsupported_object_format''"

abbreviation V2CodeFrozenPlanPathMissing :: V2DiagnosticCode where
  "V2CodeFrozenPlanPathMissing \<equiv> ''frozen_plan_path_missing''"

abbreviation V2CodeFrozenPlanNotBlob :: V2DiagnosticCode where
  "V2CodeFrozenPlanNotBlob \<equiv> ''frozen_plan_not_blob''"

abbreviation V2CodeFrozenPlanInvalid :: V2DiagnosticCode where
  "V2CodeFrozenPlanInvalid \<equiv> ''frozen_plan_invalid''"

abbreviation V2CodeInvalidPlanPath :: V2DiagnosticCode where
  "V2CodeInvalidPlanPath \<equiv> ''invalid_plan_path''"

abbreviation V2CodeWorkingPlanMismatch :: V2DiagnosticCode where
  "V2CodeWorkingPlanMismatch \<equiv> ''working_plan_mismatch''"

abbreviation V2CodeEvidencePathNotDetached :: V2DiagnosticCode where
  "V2CodeEvidencePathNotDetached \<equiv> ''evidence_path_not_detached''"

abbreviation V2CodeManifestPathNotDetached :: V2DiagnosticCode where
  "V2CodeManifestPathNotDetached \<equiv> ''manifest_path_not_detached''"

abbreviation V2CodeWorkingPlanPathInvalid :: V2DiagnosticCode where
  "V2CodeWorkingPlanPathInvalid \<equiv> ''working_plan_path_invalid''"

abbreviation V2CodeCallerWorktreeDirty :: V2DiagnosticCode where
  "V2CodeCallerWorktreeDirty \<equiv> ''caller_worktree_dirty''"

abbreviation V2CodeExecutionTreeMismatch :: V2DiagnosticCode where
  "V2CodeExecutionTreeMismatch \<equiv> ''execution_tree_mismatch''"

abbreviation V2CodeExecutionFailed :: V2DiagnosticCode where
  "V2CodeExecutionFailed \<equiv> ''execution_failed''"

abbreviation V2CodeCleanupFailed :: V2DiagnosticCode where
  "V2CodeCleanupFailed \<equiv> ''cleanup_failed''"

abbreviation V2CodeManifestWriteFailed :: V2DiagnosticCode where
  "V2CodeManifestWriteFailed \<equiv> ''manifest_write_failed''"

abbreviation V2CodeRequestIncomplete :: V2DiagnosticCode where
  "V2CodeRequestIncomplete \<equiv> ''request_incomplete''"

abbreviation V2CodeBinaryIdentityInvalid :: V2DiagnosticCode where
  "V2CodeBinaryIdentityInvalid \<equiv> ''binary_identity_invalid''"

abbreviation V2CodeManifestIdentityInvalid :: V2DiagnosticCode where
  "V2CodeManifestIdentityInvalid \<equiv> ''manifest_identity_invalid''"

abbreviation V2CodeGitOutputOverflow :: V2DiagnosticCode where
  "V2CodeGitOutputOverflow \<equiv> ''git_output_overflow''"

abbreviation V2CodeSubjectObservationUnavailable :: V2DiagnosticCode where
  "V2CodeSubjectObservationUnavailable \<equiv> ''subject_observation_unavailable''"

abbreviation V2CodeSubjectRegistrationMismatch :: V2DiagnosticCode where
  "V2CodeSubjectRegistrationMismatch \<equiv> ''subject_registration_mismatch''"

abbreviation V2CodeBaselineCommitNotFound :: V2DiagnosticCode where
  "V2CodeBaselineCommitNotFound \<equiv> ''baseline_commit_not_found''"

abbreviation V2CodeBaselineTreeNotFound :: V2DiagnosticCode where
  "V2CodeBaselineTreeNotFound \<equiv> ''baseline_tree_not_found''"

abbreviation V2CodeBaselineTreeMismatch :: V2DiagnosticCode where
  "V2CodeBaselineTreeMismatch \<equiv> ''baseline_tree_mismatch''"

abbreviation V2CodeBaselineValidationFailed :: V2DiagnosticCode where
  "V2CodeBaselineValidationFailed \<equiv> ''baseline_validation_failed''"

abbreviation V2CodeR6BBinaryAuthorityInvalid :: V2DiagnosticCode where
  "V2CodeR6BBinaryAuthorityInvalid \<equiv> ''r6b_binary_authority_invalid''"

abbreviation V2CodeR6BGateObservationFailed :: V2DiagnosticCode where
  "V2CodeR6BGateObservationFailed \<equiv> ''r6b_gate_observation_failed''"

abbreviation V2CodeR6BGateClassificationFailed :: V2DiagnosticCode where
  "V2CodeR6BGateClassificationFailed \<equiv> ''r6b_gate_classification_failed''"

abbreviation V2CodeR6BGateClassificationUnavailable :: V2DiagnosticCode where
  "V2CodeR6BGateClassificationUnavailable \<equiv> ''r6b_gate_classification_unavailable''"

abbreviation V2CodeR6BSubjectCleanupFailed :: V2DiagnosticCode where
  "V2CodeR6BSubjectCleanupFailed \<equiv> ''r6b_subject_cleanup_failed''"

abbreviation V2CodeR6BSubjectCleanupUnavailable :: V2DiagnosticCode where
  "V2CodeR6BSubjectCleanupUnavailable \<equiv> ''r6b_subject_cleanup_unavailable''"

record V2Diagnostic =
  d2_Code :: V2DiagnosticCode
  d2_Message :: string
  d2_PropertyName :: string
  d2_Detail :: string

record V2Error =
  e2_Diags :: "V2Diagnostic list"
  e2_Cause :: "string option"

definition NewV2ErrorWith :: "V2DiagnosticCode \<Rightarrow> string \<Rightarrow> string \<Rightarrow> string \<Rightarrow> V2Error" where
  "NewV2ErrorWith code message property detail =
     \<lparr>e2_Diags = [\<lparr>d2_Code = code, d2_Message = message, d2_PropertyName = property, d2_Detail = detail\<rparr>],
      e2_Cause = None\<rparr>"

definition NewV2Error :: "V2DiagnosticCode \<Rightarrow> string \<Rightarrow> V2Error" where
  "NewV2Error code message = NewV2ErrorWith code message '''' ''''"

definition v2ErrorText :: "V2Error \<Rightarrow> string" where
  "v2ErrorText e =
     (case e2_Diags e of
        [] \<Rightarrow> ''closure protocol v2 failure''
      | first # _ \<Rightarrow> if d2_Message first = '''' then d2_Code first else d2_Code first @ '': '' @ d2_Message first)"

end
