(* ===== verification/Closure_Git.thy ===== *)
theory Closure_Git
  imports Closure_Diag Exec_Buffer Sha256
begin

text \<open>
  How the closure package observes a repository: the git client (\<open>git_identity.go\<close>), the
  repository-bound authority of the verifier (\<open>v2_verifier_authority.go\<close>,
  \<open>v2_verifier_format.go\<close>, \<open>object_format_resolver.go\<close>), the raw runner of the tag
  phase (\<open>v2_verifier_tag.go\<close>) and the classification of failed commands
  (\<open>v2_lifecycle_invariants.go\<close>).

  Git is a parameter: a client is a function from the directory and the arguments of a command to
  its result.  The production client runs the command with the bounded runner of package
  \<open>execution\<close> (\<open>RunGit\<close> of theory \<open>Exec_Buffer\<close>); what the process does is then the
  parameter.
\<close>

section \<open>The client\<close>

text \<open>An error of the runner comes with the text its \<open>Error\<close> method returns.\<close>

record gitCommandResult =
  gc_Stdout :: string
  gc_Stderr :: string
  gc_ExitCode :: int
  gc_Err :: "(gitError \<times> string) option"

type_synonym gitClient = "string \<Rightarrow> string list \<Rightarrow> gitCommandResult"

definition RealGit_Run ::
  "(gitError \<Rightarrow> string) \<Rightarrow> (string \<Rightarrow> string list \<Rightarrow> commandRun) \<Rightarrow> gitClient" where
  "RealGit_Run errText process directory args =
     (case RunGit False (process directory args) of (result, err) \<Rightarrow>
        \<lparr>gc_Stdout = gr_Stdout result, gc_Stderr = gr_Stderr result, gc_ExitCode = gr_ExitCode result,
         gc_Err = map_option (\<lambda>e. (e, errText e)) err\<rparr>)"

definition commandFailed :: "gitCommandResult \<Rightarrow> bool" where
  "commandFailed result \<longleftrightarrow> gc_Err result \<noteq> None \<or> gc_ExitCode result \<noteq> 0"

definition failureDetail :: "gitCommandResult \<Rightarrow> string" where
  "failureDetail result =
     (let detail = trimSpace (gc_Stderr result)
      in if detail = '''' then (case gc_Err result of Some (e, text) \<Rightarrow> text | None \<Rightarrow> detail) else detail)"

definition sanitizeDiagnostic :: "string \<Rightarrow> string" where
  "sanitizeDiagnostic value =
     take 240 (map (\<lambda>c. if c = crChar \<or> c = nlChar then CHR '' '' else c) value)"

definition runGitValue :: "gitClient \<Rightarrow> string \<Rightarrow> string list \<Rightarrow> string + string" where
  "runGitValue git directory args =
     (let result = git directory args
      in if commandFailed result
         then Inl (''git '' @ join '' '' args @ '' failed (exit '' @ itoa (gc_ExitCode result) @ ''): ''
                   @ sanitizeDiagnostic (failureDetail result))
         else Inr (trimSpace (gc_Stdout result)))"

text \<open>\<open>OIDPattern\<close>: \<open>^(?:[0-9a-f]{40}|[0-9a-f]{64})$\<close>; the other two patterns are of one length.\<close>

definition oidPattern :: "string \<Rightarrow> bool" where
  "oidPattern s \<longleftrightarrow> (length s = 40 \<or> length s = 64) \<and> list_all lower_hex s"

definition sha1Pattern :: "string \<Rightarrow> bool" where
  "sha1Pattern s \<longleftrightarrow> length s = 40 \<and> list_all lower_hex s"

definition sha256Pattern :: "string \<Rightarrow> bool" where
  "sha256Pattern s \<longleftrightarrow> length s = 64 \<and> list_all lower_hex s"

lemma oidPattern_nonempty: "oidPattern s \<Longrightarrow> s \<noteq> []"
  by (auto simp: oidPattern_def)

lemma lower_hex_graphic: "lower_hex c \<Longrightarrow> graphic c"
  by (auto simp: lower_hex_def graphic_def Let_def)

lemma oidPattern_trimSpace: "oidPattern s \<Longrightarrow> trimSpace s = s"
  by (rule trimSpace_id) (auto simp: oidPattern_def list_all_iff intro!: lower_hex_graphic)

lemma sha256_hex_pattern: "sha256Pattern (sha256_hex s)"
  by (simp add: sha256Pattern_def sha256_hex_length sha256_hex_lower)

section \<open>The authority of the verifier\<close>

record v2ClosureGitAuthority =
  ga_git :: gitClient
  ga_repoRoot :: string

text \<open>\<open>None\<close> is the nil pointer.\<close>

type_synonym gitAuthority = "v2ClosureGitAuthority option"

definition newV2ClosureGitAuthorityWithClient :: "gitClient \<Rightarrow> string \<Rightarrow> V2VerifierError + gitAuthority" where
  "newV2ClosureGitAuthorityWithClient git repoRoot =
     (if trimSpace repoRoot = '''' then
        Inl (NewV2VerifierError (NewV2VerifierDiagnostic V2VerifierRepositoryUnavailable ''repository_root is required''))
      else Inr (Some \<lparr>ga_git = git, ga_repoRoot = repoRoot\<rparr>))"

definition gitRun :: "v2ClosureGitAuthority \<Rightarrow> string list \<Rightarrow> gitCommandResult" where
  "gitRun a args = ga_git a (ga_repoRoot a) args"

definition verifierFail :: "V2VerifierCode \<Rightarrow> string \<Rightarrow> V2VerifierError + 'a" where
  "verifierFail code message = Inl (NewV2VerifierError (NewV2VerifierDiagnostic code message))"

definition verifierFailWith :: "V2VerifierDiagnostic \<Rightarrow> V2VerifierError + 'a" where
  "verifierFailWith diag = Inl (NewV2VerifierError diag)"

lemma verifierFail_neq [simp]:
  "verifierFail c m \<noteq> Inr x" "Inr x \<noteq> verifierFail c m" "verifierFailWith d \<noteq> Inr x" "Inr x \<noteq> verifierFailWith d"
  by (simp_all add: verifierFail_def verifierFailWith_def)

definition ObjectFormat :: "gitAuthority \<Rightarrow> V2VerifierError + string" where
  "ObjectFormat authority =
     (case authority of
        None \<Rightarrow> verifierFail V2VerifierObjectFormatUnavailable ''git authority is nil''
      | Some a \<Rightarrow>
          let result = gitRun a [''rev-parse'', ''--show-object-format'']
          in if commandFailed result
             then verifierFail V2VerifierObjectFormatUnavailable ''git rev-parse --show-object-format failed''
             else let format = trimSpace (gc_Stdout result)
             in if format = ''''
                then verifierFail V2VerifierObjectFormatUnavailable ''object format observation returned empty value''
                else Inr format)"

definition ResolveCommit :: "gitAuthority \<Rightarrow> string \<Rightarrow> V2VerifierError + string" where
  "ResolveCommit authority revision =
     (case authority of
        None \<Rightarrow> verifierFail V2VerifierSubjectUnresolved ''git authority is nil''
      | Some a \<Rightarrow>
          if trimSpace revision = '''' then verifierFail V2VerifierSubjectUnresolved ''revision is empty''
          else
          let result = gitRun a [''rev-parse'', ''--verify'', ''--end-of-options'', revision @ ''^{commit}'']
          in if commandFailed result
             then verifierFailWith (withObserved revision (NewV2VerifierDiagnostic V2VerifierSubjectUnresolved
                    (''git rev-parse --verify '' @ revision @ ''^{commit} failed'')))
             else let value = trimSpace (gc_Stdout result)
             in if \<not> oidPattern value
                then verifierFailWith (withObserved value (NewV2VerifierDiagnostic V2VerifierSubjectUnresolved
                       ''resolved revision is not a 40-char OID''))
                else Inr value)"

definition ResolveTree :: "gitAuthority \<Rightarrow> string \<Rightarrow> V2VerifierError + string" where
  "ResolveTree authority commit =
     (case authority of
        None \<Rightarrow> verifierFail V2VerifierTopologyObservationFailed ''git authority is nil''
      | Some a \<Rightarrow>
          if trimSpace commit = '''' then verifierFail V2VerifierTopologyObservationFailed ''commit is empty''
          else
          let result = gitRun a [''rev-parse'', ''--verify'', ''--end-of-options'', commit @ ''^{tree}'']
          in if commandFailed result
             then verifierFailWith (withObserved commit (NewV2VerifierDiagnostic V2VerifierTopologyObservationFailed
                    (''git rev-parse --verify '' @ commit @ ''^{tree} failed'')))
             else let value = trimSpace (gc_Stdout result)
             in if \<not> oidPattern value
                then verifierFailWith (withObserved value (NewV2VerifierDiagnostic V2VerifierTopologyObservationFailed
                       ''resolved tree is not a 40-char OID''))
                else Inr value)"

text \<open>\<open>IsAncestor\<close> looks at the exit code only, not at the error of the runner.\<close>

definition IsAncestor :: "gitAuthority \<Rightarrow> string \<Rightarrow> string \<Rightarrow> V2VerifierError + bool" where
  "IsAncestor authority ancestor descendant =
     (case authority of
        None \<Rightarrow> verifierFail V2VerifierTopologyObservationFailed ''git authority is nil''
      | Some a \<Rightarrow>
          if trimSpace ancestor = '''' then verifierFail V2VerifierTopologyObservationFailed ''ancestor is empty''
          else if trimSpace descendant = '''' then verifierFail V2VerifierTopologyObservationFailed ''descendant is empty''
          else
          let result = gitRun a [''merge-base'', ''--is-ancestor'', ancestor, descendant]
          in if gc_ExitCode result = 0 then Inr True
             else if gc_ExitCode result = 1 then Inr False
             else verifierFail V2VerifierTopologyObservationFailed ''git merge-base --is-ancestor observation failed'')"

definition ResolvePathObject :: "gitAuthority \<Rightarrow> string \<Rightarrow> string \<Rightarrow> V2VerifierError + string \<times> string" where
  "ResolvePathObject authority commit path =
     (case authority of
        None \<Rightarrow> verifierFail V2VerifierFrozenPlanMissing ''git authority is nil''
      | Some a \<Rightarrow>
          if trimSpace commit = '''' then verifierFail V2VerifierFrozenPlanMissing ''commit is empty''
          else if trimSpace path = '''' then verifierFail V2VerifierFrozenPlanMissing ''path is empty''
          else
          let spec = commit @ '':'' @ path;
              oidResult = gitRun a [''rev-parse'', ''--verify'', ''--end-of-options'', spec]
          in if commandFailed oidResult
             then verifierFailWith (withObjectPath path (NewV2VerifierDiagnostic V2VerifierFrozenPlanMissing
                    (''git rev-parse --verify '' @ spec @ '' failed'')))
             else let oid = trimSpace (gc_Stdout oidResult)
             in if \<not> oidPattern oid
                then verifierFailWith (withObserved oid (withObjectPath path (NewV2VerifierDiagnostic
                       V2VerifierFrozenPlanMissing ''resolved object is not a 40-char OID'')))
                else let typeResult = gitRun a [''cat-file'', ''-t'', oid]
                in if commandFailed typeResult
                   then verifierFailWith (withObjectOID oid (withObjectPath path (NewV2VerifierDiagnostic
                          V2VerifierFrozenPlanMissing (''git cat-file -t '' @ oid @ '' failed''))))
                   else Inr (oid, trimSpace (gc_Stdout typeResult)))"

definition ReadBlob :: "gitAuthority \<Rightarrow> string \<Rightarrow> V2VerifierError + string" where
  "ReadBlob authority oid =
     (case authority of
        None \<Rightarrow> verifierFail V2VerifierFrozenPlanReadFailed ''git authority is nil''
      | Some a \<Rightarrow>
          if trimSpace oid = '''' then verifierFail V2VerifierFrozenPlanReadFailed ''blob OID is empty''
          else
          let result = gitRun a [''cat-file'', ''blob'', oid]
          in if commandFailed result
             then verifierFailWith (withObjectOID oid (NewV2VerifierDiagnostic V2VerifierFrozenPlanReadFailed
                    ''git cat-file blob failed''))
             else Inr (gc_Stdout result))"



section \<open>Object format\<close>

definition EnforceSHA1ObjectFormat ::
  "(string \<Rightarrow> string) \<Rightarrow> gitAuthority \<Rightarrow> V2Error option" where
  "EnforceSHA1ObjectFormat quote authority =
     (case ObjectFormat authority of
        Inl err \<Rightarrow> Some (NewV2ErrorWith V2CodeObjectFormatUnavailable
                     (''object format observation failed: '' @ verifierErrorText err) ''object_format'' (verifierErrorText err))
      | Inr format \<Rightarrow>
          if format = '''' then Some (NewV2ErrorWith V2CodeObjectFormatUnavailable
                                        ''object format observation returned empty value'' ''object_format'' '''')
          else if format \<noteq> ''sha1'' then
            Some (NewV2ErrorWith V2CodeUnsupportedObjectFormat
                    (''unsupported object format '' @ quote format @ '': leamas supports sha1 only'') ''object_format'' format)
          else None)"

definition EnforceV2VerifierObjectFormatPolicy ::
  "(string \<Rightarrow> string) \<Rightarrow> gitAuthority \<Rightarrow> V2VerifierError option" where
  "EnforceV2VerifierObjectFormatPolicy quote authority =
     (if authority = None then
        Some (NewV2VerifierError (NewV2VerifierDiagnostic V2VerifierObjectFormatUnavailable
                ''git authority is required for object-format policy''))
      else case EnforceSHA1ObjectFormat quote authority of
        None \<Rightarrow> None
      | Some v2vErr \<Rightarrow>
          Some (NewV2VerifierError
            (case e2_Diags v2vErr of
               first # _ \<Rightarrow>
                 \<lparr>vd_Code = d2_Code first, vd_Message = d2_Message first, vd_PropertyName = d2_PropertyName first,
                  vd_Expected = '''', vd_Observed = '''', vd_ObjectOID = '''', vd_ObjectPath = '''',
                  vd_Detail = d2_Detail first\<rparr>
             | [] \<Rightarrow> NewV2VerifierDiagnostic V2VerifierObjectFormatUnavailable ''object format policy rejected'')))"

section \<open>The raw runner of the tag phase\<close>

text \<open>\<open>authorityRunGit\<close> does not pass the error of the runner on.\<close>

record authorityGitValue =
  av_stdout :: string
  av_stderr :: string
  av_exitCode :: int
  av_err :: "(gitError \<times> string) option"

definition authorityRunGit :: "gitAuthority \<Rightarrow> string \<Rightarrow> string list \<Rightarrow> authorityGitValue" where
  "authorityRunGit authority command args =
     (case authority of
        Some runner \<Rightarrow>
          let result = gitRun runner (command # args)
          in \<lparr>av_stdout = gc_Stdout result, av_stderr = gc_Stderr result, av_exitCode = gc_ExitCode result, av_err = None\<rparr>
      | None \<Rightarrow> \<lparr>av_stdout = '''', av_stderr = ''v2 verifier authority does not expose a git runner'',
                 av_exitCode = 1, av_err = None\<rparr>)"

definition authorityRunGitRevParse :: "gitAuthority \<Rightarrow> string list \<Rightarrow> authorityGitValue" where
  "authorityRunGitRevParse authority args = authorityRunGit authority ''rev-parse'' args"

definition authorityRunGitCatFileT :: "gitAuthority \<Rightarrow> string \<Rightarrow> authorityGitValue" where
  "authorityRunGitCatFileT authority oid = authorityRunGit authority ''cat-file'' [''-t'', oid]"

definition authorityRunGitCatFileTag :: "gitAuthority \<Rightarrow> string \<Rightarrow> string + string" where
  "authorityRunGitCatFileTag authority oid =
     (let result = authorityRunGit authority ''cat-file'' [''tag'', oid]
      in if av_exitCode result \<noteq> 0 \<or> av_err result \<noteq> None
         then Inl (''git cat-file tag '' @ oid @ '' failed'') else Inr (av_stdout result))"

definition trunc8ForDiag :: "string \<Rightarrow> string" where
  "trunc8ForDiag oid = (if length oid < 8 then oid else take 8 oid)"

section \<open>Failed commands\<close>

text \<open>
  \<open>errors.Is\<close> with the two context errors: the runner returns them as they are, or wrapped when
  \<open>cmd.Start\<close> already finds the context done.
\<close>

definition isDeadlineExceeded :: "gitError \<Rightarrow> bool" where
  "isDeadlineExceeded e \<longleftrightarrow> e = DeadlineExceeded \<or> e = StartFailed ''context deadline exceeded''"

definition isCanceled :: "gitError \<Rightarrow> bool" where
  "isCanceled e \<longleftrightarrow> e = Canceled \<or> e = StartFailed ''context canceled''"

definition isExitError :: "gitError \<Rightarrow> bool" where
  "isExitError e =
     (case e of WaitFailed w \<Rightarrow> (case w of WaitExit n \<Rightarrow> True | WaitExitNoStatus \<Rightarrow> True | _ \<Rightarrow> False) | _ \<Rightarrow> False)"

text \<open>
  \<open>errors.Is(result.Err, &exec.ExitError{})\<close> compares with a pointer just made and is false
  for every error.  \<open>toLower\<close> is \<open>strings.ToLower\<close>, an argument.
\<close>

definition classifyGitCommand ::
  "(string \<Rightarrow> string) \<Rightarrow> string list \<Rightarrow> gitCommandResult \<Rightarrow> (V2DiagnosticCode \<times> string) option" where
  "classifyGitCommand toLower args result =
     (if gc_Err result = None \<and> gc_ExitCode result = 0 then None
      else
        let detail = failureDetail result; lower = toLower detail; cmd = ''git '' @ join '' '' args;
            errIs = (\<lambda>P. case gc_Err result of Some (e, text) \<Rightarrow> P e | None \<Rightarrow> False)
        in Some
          (if errIs isDeadlineExceeded then (V2CodeGitTimeout, cmd @ '' timed out: '' @ detail)
           else if errIs isCanceled then (V2CodeGitCancelled, cmd @ '' cancelled: '' @ detail)
           else if errIs isExitError \<and> gc_ExitCode result < 0 then
             (V2CodeGitSpawnFailed, cmd @ '' spawn / signal failure: exit='' @ itoa (gc_ExitCode result) @ '' stderr='' @ detail)
           else if gc_Err result \<noteq> None \<and> detail = '''' then
             (V2CodeGitSpawnFailed, cmd @ '' spawn failure: '' @ (case gc_Err result of Some (e, text) \<Rightarrow> text | None \<Rightarrow> ''''))
           else if containsStr ''not a git repository'' lower then
             (V2CodeGitNotRepository, cmd @ '': not a repository: '' @ detail)
           else if containsStr ''permission denied'' lower then
             (V2CodeGitPermissionDenied, cmd @ '': permission denied: '' @ detail)
           else if containsStr ''fatal: ambiguous argument'' lower \<or> containsStr ''fatal: bad revision'' lower
                   \<or> containsStr ''fatal: bad object'' lower then
             (V2CodeGitMalformedRevision, cmd @ '': malformed revision: '' @ detail)
           else (V2CodeGitOperationFailed, cmd @ '' failed (exit '' @ itoa (gc_ExitCode result) @ ''): '' @ detail)))"

definition gitFailureDiagnostic ::
  "(string \<Rightarrow> string) \<Rightarrow> string \<Rightarrow> string list \<Rightarrow> gitCommandResult \<Rightarrow> V2Error option" where
  "gitFailureDiagnostic toLower property args result =
     (case classifyGitCommand toLower args result of
        None \<Rightarrow> None
      | Some (code, text) \<Rightarrow> Some (NewV2ErrorWith code text property (trimSpace (gc_Stderr result))))"

section \<open>What the observations return\<close>

lemma ResolveCommit_oid: "ResolveCommit a r = Inr c \<Longrightarrow> oidPattern c"
  by (auto simp: ResolveCommit_def Let_def split: option.splits if_splits)

lemma ResolveTree_oid: "ResolveTree a r = Inr c \<Longrightarrow> oidPattern c"
  by (auto simp: ResolveTree_def Let_def split: option.splits if_splits)

lemma ResolvePathObject_oid: "ResolvePathObject a c p = Inr (oid, t) \<Longrightarrow> oidPattern oid"
  by (auto simp: ResolvePathObject_def Let_def split: option.splits if_splits)

lemma observation_needs_authority:
  "ResolveCommit None r \<noteq> Inr c" "ResolveTree None r \<noteq> Inr c" "IsAncestor None x y \<noteq> Inr b"
  "ResolvePathObject None c' p \<noteq> Inr q" "ReadBlob None oid \<noteq> Inr raw"
  by (simp_all add: ResolveCommit_def ResolveTree_def IsAncestor_def ResolvePathObject_def ReadBlob_def)

text \<open>
  A command that cannot be started gives exit code 0 and an error.  The observations that look at
  the error refuse it; the ancestor probe takes the exit code for a yes.
\<close>

lemma RealGit_start_failure:
  "cr_startErr (process dir args) = Some e \<Longrightarrow>
   RealGit_Run errText process dir args =
     \<lparr>gc_Stdout = '''', gc_Stderr = '''', gc_ExitCode = 0, gc_Err = Some (StartFailed e, errText (StartFailed e))\<rparr>"
  by (simp add: RealGit_Run_def RunGit_def runCommandWithLimits_def Let_def)

lemma start_failure_is_ancestor:
  assumes "trimSpace x \<noteq> ''''" "trimSpace y \<noteq> ''''"
    and "cr_startErr (process root [''merge-base'', ''--is-ancestor'', x, y]) = Some e"
  shows "IsAncestor (Some \<lparr>ga_git = RealGit_Run errText process, ga_repoRoot = root\<rparr>) x y = Inr True"
  using assms by (simp add: IsAncestor_def gitRun_def RealGit_start_failure)

lemma start_failure_unresolved:
  assumes "cr_startErr (process root [''rev-parse'', ''--verify'', ''--end-of-options'', r @ ''^{commit}'']) = Some e"
  shows "ResolveCommit (Some \<lparr>ga_git = RealGit_Run errText process, ga_repoRoot = root\<rparr>) r \<noteq> Inr c"
  using assms by (simp add: ResolveCommit_def gitRun_def commandFailed_def Let_def RealGit_start_failure)

text \<open>
  A git binary that cannot be found is reported as a failed operation, not as a failed spawn: the
  text of the error is already in \<open>detail\<close>.
\<close>

lemma spawn_failure_misclassified:
  "classifyGitCommand (\<lambda>s. s) [''status'']
     \<lparr>gc_Stdout = '''', gc_Stderr = '''', gc_ExitCode = 0,
      gc_Err = Some (StartFailed ''executable file not found in $PATH'', ''start: executable file not found in $PATH'')\<rparr>
   = Some (V2CodeGitOperationFailed, ''git status failed (exit 0): start: executable file not found in $PATH'')"
  by code_simp

text \<open>No classification is the overflow code the comment of the function lists.\<close>

lemma overflow_code_never_returned:
  "classifyGitCommand toLower args result \<noteq> Some (''git_output_overflow'', text)"
  by (auto simp: classifyGitCommand_def Let_def split: if_splits)

end
