(* ===== verification/Closure_State.thy ===== *)
theory Closure_State
  imports Closure_Git Go_Path Sha256
begin

text \<open>
  The lifecycle invariants of the version 2 runner (\<open>v2_lifecycle_invariants.go\<close> and
  \<open>v2_caller_state_refs.go\<close>): what is observed of the repository of the caller before and after a
  run, and the comparison of the two observations.  The classification of failed git commands of
  the former file is in \<open>Closure_Git\<close>.
\<close>

section \<open>Worktree registrations\<close>

record v2WorktreeRegistration =
  wr_Path :: string
  wr_Hash :: string

type_synonym v2WorktreeRegistrationSet = "v2WorktreeRegistration list"

definition registrationsContain :: "v2WorktreeRegistrationSet \<Rightarrow> string \<Rightarrow> bool" where
  "registrationsContain s path \<longleftrightarrow> list_ex (\<lambda>r. wr_Path r = path) s"

definition registrationsDiff ::
  "v2WorktreeRegistrationSet \<Rightarrow> v2WorktreeRegistrationSet \<Rightarrow> v2WorktreeRegistrationSet" where
  "registrationsDiff s after = filter (\<lambda>r. \<not> registrationsContain s (wr_Path r)) after"

record v2WorktreeRegistrationSnapshot =
  ws_Registrations :: v2WorktreeRegistrationSet
  ws_Diagnostics :: "V2Diagnostic list"
  ws_Available :: bool

definition v2Diagnostic :: "V2DiagnosticCode \<Rightarrow> string \<Rightarrow> string \<Rightarrow> string \<Rightarrow> V2Diagnostic" where
  "v2Diagnostic code message property detail =
     \<lparr>d2_Code = code, d2_Message = message, d2_PropertyName = property, d2_Detail = detail\<rparr>"

text \<open>The scan over the lines of \<open>git worktree list --porcelain\<close>.\<close>

definition flushRegistration :: "v2WorktreeRegistrationSet \<Rightarrow> string \<Rightarrow> string \<Rightarrow> v2WorktreeRegistrationSet" where
  "flushRegistration out path hash = (if path \<noteq> '''' then out @ [\<lparr>wr_Path = path, wr_Hash = hash\<rparr>] else out)"

fun registrationLines ::
  "string list \<Rightarrow> v2WorktreeRegistrationSet \<Rightarrow> string \<Rightarrow> string \<Rightarrow> v2WorktreeRegistrationSet" where
  "registrationLines [] out path hash = flushRegistration out path hash"
| "registrationLines (raw # lines) out path hash =
     (let line = trimRightChar crChar raw in
      if prefix ''worktree '' line then
        registrationLines lines (flushRegistration out path hash) (trimSpace (drop 9 line)) ''''
      else if prefix ''HEAD '' line then registrationLines lines out path (trimSpace (drop 5 line))
      else if line = '''' then registrationLines lines (flushRegistration out path hash) '''' ''''
      else registrationLines lines out path hash)"

definition inventoryFailure :: "string \<Rightarrow> string \<Rightarrow> v2WorktreeRegistrationSnapshot" where
  "inventoryFailure message detail =
     \<lparr>ws_Registrations = [],
      ws_Diagnostics = [v2Diagnostic V2CodeWorktreeInventoryUnavailable message ''worktree_inventory'' detail],
      ws_Available = False\<rparr>"

definition snapshotWorktreeRegistrations ::
  "(string \<Rightarrow> string) \<Rightarrow> gitClient option \<Rightarrow> string \<Rightarrow> v2WorktreeRegistrationSnapshot" where
  "snapshotWorktreeRegistrations toLower git repoRoot =
     (case git of
        None \<Rightarrow> inventoryFailure ''worktree inventory observation failed: no Git client supplied'' ''''
      | Some run \<Rightarrow>
          if repoRoot = '''' then
            inventoryFailure ''worktree inventory observation failed: no Git client supplied'' ''''
          else
            let args = [''worktree'', ''list'', ''--porcelain''];
                result = run repoRoot args in
            if commandFailed result then
              inventoryFailure
                (case gitFailureDiagnostic toLower ''worktree_inventory'' args result of
                   None \<Rightarrow> ''worktree inventory observation failed''
                 | Some inner \<Rightarrow> ''worktree inventory observation failed: '' @ v2ErrorText inner)
                (trimSpace (gc_Stderr result))
            else
              \<lparr>ws_Registrations = registrationLines (splitOn nlChar (gc_Stdout result)) [] '''' '''',
               ws_Diagnostics = [], ws_Available = True\<rparr>)"

section \<open>References\<close>

record refRecord =
  rr_objectname :: string
  rr_refname :: string

definition isHexOID :: "string \<Rightarrow> bool" where
  "isHexOID s \<longleftrightarrow>
     length s = 40 \<and>
     list_all (\<lambda>ch. (CHR ''0'' \<le> ch \<and> ch \<le> CHR ''9'') \<or> (CHR ''a'' \<le> ch \<and> ch \<le> CHR ''f'') \<or>
       (CHR ''A'' \<le> ch \<and> ch \<le> CHR ''F'')) s"

definition refsFailure :: "string \<Rightarrow> V2Diagnostic list" where
  "refsFailure reason =
     [v2Diagnostic V2CodeCallerStateUnavailable (''caller refs observation failed: '' @ reason) ''caller_refs'' '''']"

text \<open>\<open>strings.Split\<close> at the pair of NUL and line feed.\<close>

definition recordEnd :: string where
  "recordEnd = [nulChar, nlChar]"

fun splitRecords :: "string \<Rightarrow> string list" where
  "splitRecords [] = [[]]"
| "splitRecords (c # s) =
     (if c = nulChar \<and> take 1 s = [nlChar] then [] # splitRecords (drop 1 s)
      else case splitRecords s of [] \<Rightarrow> [[c]] | p # ps \<Rightarrow> (c # p) # ps)"

fun parseChunks ::
  "(string \<Rightarrow> string) \<Rightarrow> string list \<Rightarrow> string list \<Rightarrow> refRecord list \<Rightarrow> V2Diagnostic list + refRecord list" where
  "parseChunks quote [] seen records = Inr records"
| "parseChunks quote (chunk # chunks) seen records =
     (if chunk = '''' then parseChunks quote chunks seen records
      else case splitOn nulChar chunk of
        [object, name] \<Rightarrow>
          if object = '''' \<or> name = '''' then Inl (refsFailure ''empty refname or objectname'')
          else if \<not> isHexOID object then
            Inl (refsFailure (''invalid OID '' @ quote object @ '' for ref '' @ quote name))
          else if name \<in> set seen then Inl (refsFailure (''duplicate ref '' @ quote name))
          else parseChunks quote chunks (name # seen) (records @ [\<lparr>rr_objectname = object, rr_refname = name\<rparr>])
      | _ \<Rightarrow> Inl (refsFailure ''malformed NUL framing (record boundary)''))"

definition parseNulFramedRefs :: "(string \<Rightarrow> string) \<Rightarrow> string \<Rightarrow> V2Diagnostic list + refRecord list" where
  "parseNulFramedRefs quote raw =
     (if raw = '''' then Inr []
      else if \<not> suffix recordEnd raw then
        Inl (refsFailure ''malformed NUL framing (missing terminal boundary)'')
      else parseChunks quote (splitRecords raw) [] [])"

definition renderRef :: "refRecord \<Rightarrow> string" where
  "renderRef r = rr_objectname r @ [nulChar] @ rr_refname r @ [nulChar, nlChar]"

definition renderRefs :: "refRecord list \<Rightarrow> string" where
  "renderRefs rs = concat (map renderRef rs)"

definition refLess :: "refRecord \<Rightarrow> refRecord \<Rightarrow> bool" where
  "refLess a b \<longleftrightarrow> rr_refname a < rr_refname b"

definition snapshotCallerRefsArgs :: "string list" where
  "snapshotCallerRefsArgs = [''for-each-ref'', ''--format=%(objectname)%00%(refname)%00'', ''--sort=refname'']"

text \<open>On the right the bytes and their hash; on the left the diagnostics of an observation that is not available.\<close>

definition snapshotCallerRefs ::
  "(string \<Rightarrow> string) \<Rightarrow> gitClient option \<Rightarrow> string \<Rightarrow> V2Diagnostic list + string \<times> string" where
  "snapshotCallerRefs quote git repoRoot =
     (case git of
        None \<Rightarrow> Inl (refsFailure ''no Git client supplied'')
      | Some run \<Rightarrow>
          if repoRoot = '''' then Inl (refsFailure ''no Git client supplied'')
          else
            let result = run repoRoot snapshotCallerRefsArgs in
            if commandFailed result then Inl (refsFailure (trimSpace (gc_Stderr result)))
            else bindE (parseNulFramedRefs quote (gc_Stdout result)) (\<lambda>records.
              let bytes = renderRefs (sort_slice refLess records) in Inr (bytes, sha256_hex bytes)))"

section \<open>The state of the caller\<close>

record v2CallerState =
  vs_HEADCommit :: string
  vs_HEADTree :: string
  vs_StatusPorcelain :: string
  vs_WorktreeRegistrations :: v2WorktreeRegistrationSet
  vs_RefsBytes :: string
  vs_RefsHash :: string

record v2CallerStateSnapshot =
  vn_State :: v2CallerState
  vn_Diagnostics :: "V2Diagnostic list"
  vn_Available :: bool

definition zeroCallerState :: v2CallerState where
  "zeroCallerState =
     \<lparr>vs_HEADCommit = '''', vs_HEADTree = '''', vs_StatusPorcelain = '''', vs_WorktreeRegistrations = [],
      vs_RefsBytes = '''', vs_RefsHash = ''''\<rparr>"

definition stateUnavailable :: "string \<Rightarrow> string \<Rightarrow> V2Diagnostic" where
  "stateUnavailable reason property =
     v2Diagnostic V2CodeCallerStateUnavailable (''caller state observation failed: '' @ reason) property ''''"

text \<open>One observation: the value and no diagnostic, or the zero value and a diagnostic.\<close>

definition observe :: "string + string \<Rightarrow> string \<Rightarrow> string \<Rightarrow> string \<times> V2Diagnostic list" where
  "observe value what property =
     (case value of
        Inl err \<Rightarrow> ('''', [stateUnavailable (what @ '': '' @ err) property])
      | Inr v \<Rightarrow> (v, []))"

definition snapshotCallerState ::
  "(string \<Rightarrow> string) \<Rightarrow> (string \<Rightarrow> string) \<Rightarrow> gitClient option \<Rightarrow> string \<Rightarrow> v2CallerStateSnapshot" where
  "snapshotCallerState toLower quote git repoRoot =
     (case git of
        None \<Rightarrow> \<lparr>vn_State = zeroCallerState,
          vn_Diagnostics = [stateUnavailable ''no Git client supplied'' ''caller_state''], vn_Available = False\<rparr>
      | Some run \<Rightarrow>
          if repoRoot = '''' then \<lparr>vn_State = zeroCallerState,
            vn_Diagnostics = [stateUnavailable ''no Git client supplied'' ''caller_state''], vn_Available = False\<rparr>
          else
            let (head, d1) = observe (runGitValue run repoRoot [''rev-parse'', ''HEAD^{commit}'']) ''HEAD lookup'' ''caller_head'';
                (tree, d2) = observe (runGitValue run repoRoot [''rev-parse'', ''HEAD^{tree}''])
                  ''HEAD^{tree} lookup'' ''caller_tree'';
                (status, d3) = observe (runGitValue run repoRoot [''status'', ''--porcelain=v2'', ''--untracked-files=all''])
                  ''status'' ''caller_status'';
                regSnap = snapshotWorktreeRegistrations toLower git repoRoot;
                (regs, d4) = (if ws_Available regSnap then (ws_Registrations regSnap, [])
                  else ([], ws_Diagnostics regSnap @ [stateUnavailable ''worktree inventory unavailable'' ''caller_state'']));
                ((refsBytes, refsHash), d5) = (case snapshotCallerRefs quote git repoRoot of
                    Inr refs \<Rightarrow> (refs, [])
                  | Inl refsDiags \<Rightarrow> (('''', ''''), refsDiags));
                diags = d1 @ d2 @ d3 @ d4 @ d5
            in \<lparr>vn_State = \<lparr>vs_HEADCommit = head, vs_HEADTree = tree, vs_StatusPorcelain = status,
                   vs_WorktreeRegistrations = regs, vs_RefsBytes = refsBytes, vs_RefsHash = refsHash\<rparr>,
                vn_Diagnostics = diags, vn_Available = (diags = [])\<rparr>)"

text \<open>\<open>v2CallerState.Diff\<close>.\<close>

definition callerStateDiff :: "(string \<Rightarrow> string) \<Rightarrow> v2CallerState \<Rightarrow> v2CallerState \<Rightarrow> V2Diagnostic list" where
  "callerStateDiff quote s after =
     (let leaked = registrationsDiff (vs_WorktreeRegistrations s) (vs_WorktreeRegistrations after);
          paths = map wr_Path leaked in
      (if vs_HEADCommit s \<noteq> '''' \<and> vs_HEADCommit after \<noteq> '''' \<and> vs_HEADCommit s \<noteq> vs_HEADCommit after then
         [v2Diagnostic V2CodeCallerHeadChanged
           (''caller HEAD changed: before='' @ vs_HEADCommit s @ '' after='' @ vs_HEADCommit after)
           ''caller_head'' (vs_HEADCommit after)] else []) @
      (if vs_HEADTree s \<noteq> '''' \<and> vs_HEADTree after \<noteq> '''' \<and> vs_HEADTree s \<noteq> vs_HEADTree after then
         [v2Diagnostic V2CodeCallerTreeChanged
           (''caller HEAD tree changed: before='' @ vs_HEADTree s @ '' after='' @ vs_HEADTree after)
           ''caller_tree'' (vs_HEADTree after)] else []) @
      (if vs_StatusPorcelain s \<noteq> vs_StatusPorcelain after then
         [v2Diagnostic V2CodeCallerWorktreeDirtyAfter
           (''caller worktree dirty after run: before='' @ quote (vs_StatusPorcelain s) @ '' after='' @
            quote (vs_StatusPorcelain after))
           ''caller_worktree'' (vs_StatusPorcelain after)] else []) @
      (if leaked \<noteq> [] then
         [v2Diagnostic V2CodeWorktreeRegistrationLeaked
           (''linked worktree registration leaked: '' @ join '', '' paths) ''worktree_registration'' (join '','' paths)]
       else []) @
      (if vs_RefsBytes s \<noteq> vs_RefsBytes after then
         [v2Diagnostic V2CodeCallerRefsChanged
           (''caller refs changed: before='' @ vs_RefsHash s @ '' after='' @ vs_RefsHash after)
           ''caller_refs'' (vs_RefsHash after)] else []))"

section \<open>Reading references\<close>

definition refBody :: "refRecord \<Rightarrow> string" where
  "refBody r = rr_objectname r @ nulChar # rr_refname r"

lemma renderRef_body: "renderRef r = refBody r @ recordEnd"
  by (simp add: renderRef_def refBody_def recordEnd_def)

definition refOK :: "refRecord \<Rightarrow> bool" where
  "refOK r \<longleftrightarrow> isHexOID (rr_objectname r) \<and> rr_refname r \<noteq> '''' \<and> nulChar \<notin> set (rr_refname r)"

text \<open>Names that git can give a reference contain no control character.\<close>

definition refsOK :: "refRecord list \<Rightarrow> bool" where
  "refsOK rs \<longleftrightarrow>
     list_all (\<lambda>r. refOK r \<and> nlChar \<notin> set (rr_refname r)) rs \<and> distinct (map rr_refname rs)"

lemma nul_not_nl [simp]: "nulChar \<noteq> nlChar" "nlChar \<noteq> nulChar"
  by (simp_all add: nulChar_def nlChar_def)

lemma hexOID_no_nul: "isHexOID s \<Longrightarrow> nulChar \<notin> set s \<and> s \<noteq> ''''"
  by (auto simp: isHexOID_def list_all_iff nulChar_def less_eq_char_def)

lemma splitRecords_nonempty [simp]: "splitRecords s \<noteq> []"
  by (induction s rule: splitRecords.induct) (auto split: list.splits)

lemma splitRecords_plain: "nulChar \<notin> set x \<Longrightarrow> splitRecords (x @ recordEnd @ s) = x # splitRecords s"
  by (induction x) (auto simp: recordEnd_def)

lemma splitRecords_body:
  assumes "nulChar \<notin> set x" and "nulChar \<notin> set y" and "y \<noteq> ''''" and "hd y \<noteq> nlChar"
  shows "splitRecords ((x @ nulChar # y) @ recordEnd @ s) = (x @ nulChar # y) # splitRecords s"
  using assms(1)
proof (induction x)
  case Nil
  have "take 1 (y @ recordEnd @ s) \<noteq> [nlChar]"
    using assms(3,4) by (cases y) auto
  then show ?case
    using splitRecords_plain [OF assms(2), of s] by (simp add: take_Cons')
qed auto

lemma splitRecords_render:
  "refsOK rs \<Longrightarrow> splitRecords (renderRefs rs) = map refBody rs @ [[]]"
proof (induction rs)
  case (Cons r rs)
  then have "nulChar \<notin> set (rr_objectname r)" "nulChar \<notin> set (rr_refname r)" "rr_refname r \<noteq> ''''"
    "hd (rr_refname r) \<noteq> nlChar" "refsOK rs"
    using hexOID_no_nul by (auto simp: refsOK_def refOK_def dest: hd_in_set)
  then show ?case
    using Cons.IH splitRecords_body [of "rr_objectname r" "rr_refname r" "renderRefs rs"]
    by (simp add: renderRefs_def renderRef_body refBody_def)
qed (simp add: renderRefs_def)

lemma splitOn_body:
  "nulChar \<notin> set x \<Longrightarrow> splitOn nulChar (x @ nulChar # y) = x # splitOn nulChar y"
  by (induction x) (auto split: list.splits)

lemma splitOn_plain: "c \<notin> set x \<Longrightarrow> splitOn c x = [x]"
  by (induction x) auto

lemma splitOn_some [simp]: "splitOn c x \<noteq> []"
  by (induction x) (auto split: list.splits)

lemma splitOn_two: "splitOn nulChar chunk = [x, y] \<longleftrightarrow> chunk = x @ nulChar # y \<and> nulChar \<notin> set x \<and> nulChar \<notin> set y"
proof
  show "splitOn nulChar chunk = [x, y] \<Longrightarrow> chunk = x @ nulChar # y \<and> nulChar \<notin> set x \<and> nulChar \<notin> set y"
  proof (induction chunk arbitrary: x)
    case (Cons a chunk)
    have one: "splitOn nulChar c = [z] \<Longrightarrow> c = z \<and> nulChar \<notin> set z" for c z
      by (induction c arbitrary: z) (auto split: if_splits list.splits)
    show ?case
      using Cons one by (auto split: if_splits list.splits)
  qed simp
qed (auto simp: splitOn_body splitOn_plain)

lemma parseChunks_exact:
  "parseChunks quote chunks seen acc = Inr records \<longleftrightarrow>
   (\<exists>rs. records = acc @ rs \<and> filter (\<lambda>c. c \<noteq> '''') chunks = map refBody rs \<and> list_all refOK rs \<and>
      distinct (map rr_refname rs) \<and> set (map rr_refname rs) \<inter> set seen = {})"
proof (induction chunks arbitrary: seen acc)
  case (Cons chunk chunks)
  show ?case
  proof (cases "chunk = ''''")
    case False
    show ?thesis (is "?l \<longleftrightarrow> ?r")
    proof
      assume ?l
      then obtain x y where xy: "splitOn nulChar chunk = [x, y]"
        using False by (auto split: list.splits)
      let ?r = "\<lparr>rr_objectname = x, rr_refname = y\<rparr>"
      from \<open>?l\<close> have y: "y \<noteq> ''''" "isHexOID x" "y \<notin> set seen"
        and "parseChunks quote chunks (y # seen) (acc @ [?r]) = Inr records"
        using False by (auto simp: xy split: if_splits)
      then obtain rs where rs: "records = (acc @ [?r]) @ rs" "filter (\<lambda>c. c \<noteq> '''') chunks = map refBody rs"
        "list_all refOK rs" "distinct (map rr_refname rs)" "set (map rr_refname rs) \<inter> set (y # seen) = {}"
        unfolding Cons.IH by blast
      show "\<exists>rs. records = acc @ rs \<and> filter (\<lambda>c. c \<noteq> '''') (chunk # chunks) = map refBody rs \<and> list_all refOK rs \<and>
          distinct (map rr_refname rs) \<and> set (map rr_refname rs) \<inter> set seen = {}"
        using rs xy y False by (intro exI [of _ "?r # rs"]) (auto simp: splitOn_two refBody_def refOK_def)
    next
      assume ?r
      then obtain r rs where rs: "records = acc @ r # rs" "chunk = refBody r"
        "filter (\<lambda>c. c \<noteq> '''') chunks = map refBody rs" "list_all refOK (r # rs)" "distinct (map rr_refname (r # rs))"
        "set (map rr_refname (r # rs)) \<inter> set seen = {}"
        using False by (auto simp: map_eq_Cons_conv Cons_eq_map_conv)
      have "splitOn nulChar chunk = [rr_objectname r, rr_refname r]"
        using rs(2,4) hexOID_no_nul by (auto simp: splitOn_two refBody_def refOK_def)
      moreover have "parseChunks quote chunks (rr_refname r # seen) (acc @ [r]) = Inr records"
        unfolding Cons.IH using rs by auto
      moreover obtain x y where "r = \<lparr>rr_objectname = x, rr_refname = y\<rparr>"
        by (cases r)
      ultimately show ?l
        using False rs(4,6) hexOID_no_nul by (auto simp: refOK_def)
    qed
  qed (simp add: Cons.IH)
qed auto

lemma parseNulFramedRefs_exact:
  "parseNulFramedRefs quote raw = Inr rs \<longleftrightarrow>
   (raw = '''' \<or> suffix recordEnd raw) \<and> filter (\<lambda>c. c \<noteq> '''') (splitRecords raw) = map refBody rs \<and>
   list_all refOK rs \<and> distinct (map rr_refname rs)"
  by (auto simp: parseNulFramedRefs_def parseChunks_exact)

lemma parse_renderRefs: "refsOK rs \<Longrightarrow> parseNulFramedRefs quote (renderRefs rs) = Inr rs"
proof -
  assume rs: "refsOK rs"
  have "renderRefs rs = '''' \<or> suffix recordEnd (renderRefs rs)"
    by (cases rs rule: rev_cases) (auto simp: renderRefs_def renderRef_body suffix_def)
  moreover have "filter (\<lambda>c. c \<noteq> '''') (map refBody rs) = map refBody rs"
    by (simp add: filter_id_conv refBody_def)
  ultimately show ?thesis
    using rs by (auto simp: parseNulFramedRefs_exact splitRecords_render refsOK_def list_all_iff)
qed

section \<open>Observing references\<close>

lemma refsOK_mset: "mset rs = mset rs' \<Longrightarrow> refsOK rs \<longleftrightarrow> refsOK rs'"
proof -
  assume m: "mset rs = mset rs'"
  then have "mset (map rr_refname rs) = mset (map rr_refname rs')"
    by simp
  then have "distinct (map rr_refname rs) \<longleftrightarrow> distinct (map rr_refname rs')"
    by (rule mset_eq_imp_distinct_iff)
  moreover have "set rs = set rs'"
    using m by (metis set_mset_mset)
  ultimately show ?thesis
    by (simp add: refsOK_def list_all_iff)
qed

interpretation ref_order: keyed_less refLess rr_refname
  by unfold_locales (auto simp: refLess_def)

lemma sorted_refs_identify:
  assumes "refsOK rs" and "refsOK rs'"
  shows "renderRefs (sort_slice refLess rs) = renderRefs (sort_slice refLess rs') \<longleftrightarrow> set rs = set rs'"
proof
  assume e: "renderRefs (sort_slice refLess rs) = renderRefs (sort_slice refLess rs')"
  have "refsOK (sort_slice refLess rs)" "refsOK (sort_slice refLess rs')"
    using assms refsOK_mset mset_sort_slice by blast+
  then have "sort_slice refLess rs = sort_slice refLess rs'"
    using e parse_renderRefs by (metis sum.inject(2))
  then show "set rs = set rs'"
    by (metis set_sort_slice)
next
  assume s: "set rs = set rs'"
  have "distinct rs" "distinct rs'"
    using assms by (auto simp: refsOK_def distinct_map)
  with s have "mset rs = mset rs'"
    by (simp add: set_eq_iff_mset_eq_distinct)
  have k: "sort_slice refLess xs = sort_key rr_refname xs" for xs
    by (rule ref_order.sort_slice_sort_key)
  have "inj_on rr_refname (set rs)"
    using assms(1) by (auto simp: refsOK_def distinct_map)
  with \<open>mset rs = mset rs'\<close> have "sort_key rr_refname rs = sort_key rr_refname rs'"
    by (intro sort_key_inj_key_eq) simp_all
  then show "renderRefs (sort_slice refLess rs) = renderRefs (sort_slice refLess rs')"
    by (simp add: k)
qed

lemma snapshotCallerRefs_bytes:
  assumes "refsOK rs" and "repoRoot \<noteq> ''''" and "\<not> commandFailed (run repoRoot snapshotCallerRefsArgs)"
    and "gc_Stdout (run repoRoot snapshotCallerRefsArgs) = renderRefs rs"
  shows "snapshotCallerRefs quote (Some run) repoRoot =
    Inr (renderRefs (sort_slice refLess rs), sha256_hex (renderRefs (sort_slice refLess rs)))"
  using assms by (simp add: snapshotCallerRefs_def parse_renderRefs Let_def)

lemma registrationsDiff_Nil:
  "registrationsDiff s after = [] \<longleftrightarrow> wr_Path ` set after \<subseteq> wr_Path ` set s"
  unfolding registrationsDiff_def registrationsContain_def filter_empty_conv list_ex_iff image_subset_iff image_iff
  by metis

lemma callerStateDiff_Nil:
  "callerStateDiff quote s after = [] \<longleftrightarrow>
   (vs_HEADCommit s = vs_HEADCommit after \<or> vs_HEADCommit s = '''' \<or> vs_HEADCommit after = '''') \<and>
   (vs_HEADTree s = vs_HEADTree after \<or> vs_HEADTree s = '''' \<or> vs_HEADTree after = '''') \<and>
   vs_StatusPorcelain s = vs_StatusPorcelain after \<and>
   wr_Path ` set (vs_WorktreeRegistrations after) \<subseteq> wr_Path ` set (vs_WorktreeRegistrations s) \<and>
   vs_RefsBytes s = vs_RefsBytes after"
  by (auto simp: callerStateDiff_def Let_def registrationsDiff_Nil)

section \<open>Observing the repository\<close>

text \<open>What a working git reports of a repository.\<close>

record repositoryView =
  rv_HEAD :: string
  rv_Tree :: string
  rv_Status :: string
  rv_Worktrees :: string
  rv_Refs :: "refRecord list"

definition gitAnswer :: "string \<Rightarrow> gitCommandResult" where
  "gitAnswer out = \<lparr>gc_Stdout = out, gc_Stderr = '''', gc_ExitCode = 0, gc_Err = None\<rparr>"

definition reports :: "gitClient \<Rightarrow> string \<Rightarrow> repositoryView \<Rightarrow> bool" where
  "reports run root v \<longleftrightarrow>
     run root [''rev-parse'', ''HEAD^{commit}''] = gitAnswer (rv_HEAD v) \<and>
     run root [''rev-parse'', ''HEAD^{tree}''] = gitAnswer (rv_Tree v) \<and>
     run root [''status'', ''--porcelain=v2'', ''--untracked-files=all''] = gitAnswer (rv_Status v) \<and>
     run root [''worktree'', ''list'', ''--porcelain''] = gitAnswer (rv_Worktrees v) \<and>
     run root snapshotCallerRefsArgs = gitAnswer (renderRefs (rv_Refs v))"

definition registeredPaths :: "repositoryView \<Rightarrow> string set" where
  "registeredPaths v = wr_Path ` set (registrationLines (splitOn nlChar (rv_Worktrees v)) [] '''' '''')"

lemma snapshot_of_view:
  assumes "reports run root v" and "refsOK (rv_Refs v)" and "root \<noteq> ''''"
  shows "snapshotCallerState toLower quote (Some run) root =
    \<lparr>vn_State = \<lparr>vs_HEADCommit = trimSpace (rv_HEAD v), vs_HEADTree = trimSpace (rv_Tree v),
       vs_StatusPorcelain = trimSpace (rv_Status v),
       vs_WorktreeRegistrations = registrationLines (splitOn nlChar (rv_Worktrees v)) [] '''' '''',
       vs_RefsBytes = renderRefs (sort_slice refLess (rv_Refs v)),
       vs_RefsHash = sha256_hex (renderRefs (sort_slice refLess (rv_Refs v)))\<rparr>,
     vn_Diagnostics = [], vn_Available = True\<rparr>"
proof -
  note r = assms(1) [unfolded reports_def]
  have "snapshotCallerRefs quote (Some run) root =
      Inr (renderRefs (sort_slice refLess (rv_Refs v)), sha256_hex (renderRefs (sort_slice refLess (rv_Refs v))))"
    using r assms(2,3) by (intro snapshotCallerRefs_bytes) (simp_all add: gitAnswer_def commandFailed_def)
  moreover have "snapshotWorktreeRegistrations toLower (Some run) root =
      \<lparr>ws_Registrations = registrationLines (splitOn nlChar (rv_Worktrees v)) [] '''' '''', ws_Diagnostics = [],
       ws_Available = True\<rparr>"
    using r assms(3) by (simp add: snapshotWorktreeRegistrations_def gitAnswer_def commandFailed_def Let_def)
  ultimately show ?thesis
    using r assms(3)
    by (simp add: snapshotCallerState_def runGitValue_def gitAnswer_def commandFailed_def observe_def Let_def)
qed

section \<open>Properties\<close>

text \<open>
  C11. The snapshot of the references is a faithful encoding.  The parser accepts exactly the
  empty output and NUL-framed output whose non-empty records have a 40-digit object name and a
  non-empty reference name, no name twice; it reads every list of references back from the
  bytes git writes; and for two repositories, whatever the order in which git lists them, the
  canonical bytes that the runner compares are equal exactly if the references are the same.
\<close>

theorem caller_refs_roundtrip:
  "(parseNulFramedRefs quote raw = Inr rs \<longleftrightarrow>
      (raw = [] \<or> suffix recordEnd raw) \<and> filter (\<lambda>c. c \<noteq> []) (splitRecords raw) = map refBody rs \<and>
      list_all refOK rs \<and> distinct (map rr_refname rs)) \<and>
   (refsOK rs \<longrightarrow> parseNulFramedRefs quote (renderRefs rs) = Inr rs) \<and>
   (refsOK rs \<longrightarrow> refsOK rs' \<longrightarrow>
      (renderRefs (sort_slice refLess rs) = renderRefs (sort_slice refLess rs') \<longleftrightarrow> set rs = set rs'))"
  by (intro conjI impI, rule parseNulFramedRefs_exact, erule parse_renderRefs, erule sorted_refs_identify, assumption)

definition sampleRefs :: "refRecord list" where
  "sampleRefs =
     [\<lparr>rr_objectname = replicate 40 (CHR ''a''), rr_refname = ''refs/tags/v1''\<rparr>,
      \<lparr>rr_objectname = replicate 40 (CHR ''b''), rr_refname = ''refs/heads/main''\<rparr>]"

lemma sampleRefs_ok: "refsOK sampleRefs" "refsOK (rev sampleRefs)"
  by code_simp+

lemma caller_refs_roundtrip_witness:
  "parseNulFramedRefs id (renderRefs sampleRefs) = Inr sampleRefs \<and>
   renderRefs (sort_slice refLess sampleRefs) = renderRefs (sort_slice refLess (rev sampleRefs))"
  using caller_refs_roundtrip [of id "renderRefs sampleRefs" sampleRefs "rev sampleRefs"] sampleRefs_ok by simp

text \<open>
  C10. Of two observations of a repository by a working git, the second has no drift exactly if
  HEAD and its tree are the same (unless one of them could not be named), the status is the
  same, every registered worktree was registered before, and the references are the same.
\<close>

theorem caller_drift_exact:
  assumes "reports run root v" and "reports run' root v'" and "refsOK (rv_Refs v)" and "refsOK (rv_Refs v')"
    and "root \<noteq> ''''"
  shows "let before = snapshotCallerState toLower quote (Some run) root;
      after = snapshotCallerState toLower quote (Some run') root
    in vn_Available before \<and> vn_Available after \<and>
    (callerStateDiff quote (vn_State before) (vn_State after) = [] \<longleftrightarrow>
     (trimSpace (rv_HEAD v) = trimSpace (rv_HEAD v') \<or> trimSpace (rv_HEAD v) = '''' \<or> trimSpace (rv_HEAD v') = '''') \<and>
     (trimSpace (rv_Tree v) = trimSpace (rv_Tree v') \<or> trimSpace (rv_Tree v) = '''' \<or> trimSpace (rv_Tree v') = '''') \<and>
     trimSpace (rv_Status v) = trimSpace (rv_Status v') \<and> registeredPaths v' \<subseteq> registeredPaths v \<and>
     set (rv_Refs v) = set (rv_Refs v'))"
  using snapshot_of_view [OF assms(1,3,5), of toLower quote] snapshot_of_view [OF assms(2,4,5), of toLower quote]
  by (simp add: callerStateDiff_Nil registeredPaths_def sorted_refs_identify [OF assms(3,4)])

definition sampleView :: repositoryView where
  "sampleView =
     \<lparr>rv_HEAD = ''c0ffee'', rv_Tree = ''7ee'', rv_Status = '''', rv_Worktrees = ''worktree /r'' @ [nlChar] @ ''HEAD c0ffee'',
      rv_Refs = sampleRefs\<rparr>"

definition answering :: "repositoryView \<Rightarrow> gitClient" where
  "answering v root args =
     (if args = [''rev-parse'', ''HEAD^{commit}''] then gitAnswer (rv_HEAD v)
      else if args = [''rev-parse'', ''HEAD^{tree}''] then gitAnswer (rv_Tree v)
      else if args = [''status'', ''--porcelain=v2'', ''--untracked-files=all''] then gitAnswer (rv_Status v)
      else if args = [''worktree'', ''list'', ''--porcelain''] then gitAnswer (rv_Worktrees v)
      else gitAnswer (renderRefs (rv_Refs v)))"

lemma answering_reports: "reports (answering v) root v"
  by (simp add: reports_def answering_def snapshotCallerRefsArgs_def)

lemma caller_drift_exact_witness:
  "vn_Available (snapshotCallerState id id (Some (answering sampleView)) ''/r'') \<and>
   callerStateDiff id (vn_State (snapshotCallerState id id (Some (answering sampleView)) ''/r''))
     (vn_State (snapshotCallerState id id (Some (answering (sampleView\<lparr>rv_Refs := rev sampleRefs\<rparr>))) ''/r'')) = []"
proof -
  let ?v' = "sampleView\<lparr>rv_Refs := rev sampleRefs\<rparr>"
  have "refsOK (rv_Refs sampleView)" "refsOK (rv_Refs ?v')"
    using sampleRefs_ok by (simp_all add: sampleView_def)
  note w = caller_drift_exact [OF answering_reports answering_reports this, of "''/r''" id id, unfolded Let_def]
  have "trimSpace (rv_HEAD sampleView) = trimSpace (rv_HEAD ?v')" "trimSpace (rv_Tree sampleView) = trimSpace (rv_Tree ?v')"
    "trimSpace (rv_Status sampleView) = trimSpace (rv_Status ?v')" "registeredPaths ?v' \<subseteq> registeredPaths sampleView"
    "set (rv_Refs sampleView) = set (rv_Refs ?v')"
    by (simp_all add: sampleView_def registeredPaths_def)
  with w show ?thesis
    by blast
qed

section \<open>Differences from the comments\<close>

text \<open>
  The state is documented to be compared bit for bit.  A worktree that was unregistered, or whose
  HEAD moved, is not reported.
\<close>

lemma unregistered_worktree_unnoticed:
  "callerStateDiff quote (s\<lparr>vs_WorktreeRegistrations := regs\<rparr>) (s\<lparr>vs_WorktreeRegistrations := []\<rparr>) = []"
  by (simp add: callerStateDiff_Nil)

lemma moved_worktree_unnoticed:
  "callerStateDiff quote (s\<lparr>vs_WorktreeRegistrations := [\<lparr>wr_Path = p, wr_Hash = h\<rparr>]\<rparr>)
     (s\<lparr>vs_WorktreeRegistrations := [\<lparr>wr_Path = p, wr_Hash = h'\<rparr>]\<rparr>) = []"
  by (simp add: callerStateDiff_Nil)

text \<open>One comment says that empty references before the run are unknown; they are compared.\<close>

lemma empty_refs_compared:
  "vs_RefsBytes s = '''' \<Longrightarrow> vs_RefsBytes after \<noteq> '''' \<Longrightarrow> callerStateDiff quote s after \<noteq> []"
  by (simp add: callerStateDiff_Nil)

text \<open>A record boundary alone is accepted as the empty list, although records must not be empty.\<close>

lemma bare_boundary_accepted: "parseNulFramedRefs quote recordEnd = Inr []"
  by (simp add: parseNulFramedRefs_exact recordEnd_def)

end
