(* ===== verification/Closure_Topology.thy ===== *)
theory Closure_Topology
  imports Closure_Git
begin

text \<open>
  The request of the verifier (\<open>v2_verifier_request.go\<close>) and the immutable topology between
  the subject S, the freeze F and the closure C (\<open>v2_verifier_topology.go\<close>): the classification
  of a triple, its resolution through the git authority, the byte authorities of the frozen plan
  and of the committed manifest, and the optional assertion on the manifest bytes.
\<close>

section \<open>Request\<close>

type_synonym ClosureProtocolVersion = string
type_synonym PlanContractVersion = int

record V2ClosureVerifyRequest =
  rq_ClosureProtocolVersion :: ClosureProtocolVersion
  rq_PlanContractVersion :: PlanContractVersion
  rq_RepositoryRoot :: string
  rq_SubjectCommit :: string
  rq_FreezeCommit :: string
  rq_ClosureCommit :: string
  rq_PlanPath :: string
  rq_ManifestPath :: string
  rq_OptionalManifestAssertion :: string
  rq_ExpectedTagName :: string

definition HasOptionalManifestAssertion :: "V2ClosureVerifyRequest \<Rightarrow> bool" where
  "HasOptionalManifestAssertion r \<longleftrightarrow> length (rq_OptionalManifestAssertion r) > 0"

definition HasExpectedTag :: "V2ClosureVerifyRequest \<Rightarrow> bool" where
  "HasExpectedTag r \<longleftrightarrow> trimSpace (rq_ExpectedTagName r) \<noteq> ''''"

section \<open>Classification\<close>

record V2ClosureTopology =
  ct_SubjectCommit :: string
  ct_SubjectTree :: string
  ct_FreezeCommit :: string
  ct_FreezeTree :: string
  ct_ClosureCommit :: string
  ct_ClosureTree :: string
  ct_SubjectAncestorFreeze :: bool
  ct_FreezeAncestorClosure :: bool

definition zeroTopology :: V2ClosureTopology where
  "zeroTopology =
     \<lparr>ct_SubjectCommit = '''', ct_SubjectTree = '''', ct_FreezeCommit = '''', ct_FreezeTree = '''',
      ct_ClosureCommit = '''', ct_ClosureTree = '''', ct_SubjectAncestorFreeze = False,
      ct_FreezeAncestorClosure = False\<rparr>"

text \<open>\<open>RelationUnset\<close> is the empty string, the value of the field before it is assigned.\<close>

datatype V2ClosureRelation =
    RelationUnset
  | SubjectBeforeFreezeBeforeClosure
  | SubjectFreezeEqual
  | FreezeClosureEqual
  | SubjectClosureEqual
  | FreezeBeforeSubject
  | ClosureBeforeFreeze
  | SubjectFreezeUnrelated
  | FreezeClosureUnrelated
  | SubjectUnresolved
  | FreezeUnresolved
  | ClosureUnresolved
  | GitFailure

definition IsAccepted :: "V2ClosureRelation \<Rightarrow> bool" where
  "IsAccepted r \<longleftrightarrow> r = SubjectBeforeFreezeBeforeClosure"

record topologyTriple = V2ClosureTopology +
  tt_FreezeAncestorSubject :: bool
  tt_ClosureAncestorFreeze :: bool

definition classifyTriple :: "topologyTriple \<Rightarrow> V2ClosureRelation" where
  "classifyTriple t =
     (if ct_SubjectCommit t = '''' then SubjectUnresolved
      else if ct_FreezeCommit t = '''' then FreezeUnresolved
      else if ct_ClosureCommit t = '''' then ClosureUnresolved
      else if ct_SubjectCommit t = ct_FreezeCommit t then SubjectFreezeEqual
      else if ct_FreezeCommit t = ct_ClosureCommit t then FreezeClosureEqual
      else if ct_SubjectCommit t = ct_ClosureCommit t then SubjectClosureEqual
      else if tt_FreezeAncestorSubject t then FreezeBeforeSubject
      else if tt_ClosureAncestorFreeze t then ClosureBeforeFreeze
      else if \<not> ct_SubjectAncestorFreeze t then SubjectFreezeUnrelated
      else if \<not> ct_FreezeAncestorClosure t then FreezeClosureUnrelated
      else SubjectBeforeFreezeBeforeClosure)"

definition relationDiagnostics ::
  "V2ClosureRelation \<Rightarrow> string \<Rightarrow> string \<Rightarrow> string \<Rightarrow> V2VerifierDiagnostics" where
  "relationDiagnostics relation subject freeze closure =
     (case relation of
        SubjectFreezeEqual \<Rightarrow>
          [withObserved (subject @ ''=='' @ freeze)
            (NewV2VerifierDiagnostic V2VerifierSubjectFreezeEqual ''subject and freeze commits are equal'')]
      | FreezeClosureEqual \<Rightarrow>
          [withObserved (freeze @ ''=='' @ closure)
            (NewV2VerifierDiagnostic V2VerifierFreezeClosureEqual ''freeze and closure commits are equal'')]
      | SubjectClosureEqual \<Rightarrow>
          [withObserved (subject @ ''=='' @ closure)
            (NewV2VerifierDiagnostic V2VerifierSubjectClosureEqual ''subject and closure commits are equal'')]
      | FreezeBeforeSubject \<Rightarrow>
          [withObserved (freeze @ ''>'' @ subject)
            (NewV2VerifierDiagnostic V2VerifierReverseSubjectFreezeTopology
               ''freeze is an ancestor of subject (reverse topology)'')]
      | ClosureBeforeFreeze \<Rightarrow>
          [withObserved (closure @ ''>'' @ freeze)
            (NewV2VerifierDiagnostic V2VerifierReverseFreezeClosureTopology
               ''closure is an ancestor of freeze (reverse topology)'')]
      | SubjectFreezeUnrelated \<Rightarrow>
          [withObserved (subject @ ''?'' @ freeze)
            (NewV2VerifierDiagnostic V2VerifierSubjectFreezeUnrelated ''subject and freeze are unrelated'')]
      | FreezeClosureUnrelated \<Rightarrow>
          [withObserved (freeze @ ''?'' @ closure)
            (NewV2VerifierDiagnostic V2VerifierFreezeClosureUnrelated ''freeze and closure are unrelated''),
           withObserved (freeze @ ''?'' @ closure)
            (NewV2VerifierDiagnostic V2VerifierFreezeNotAncestorClosure ''freeze is not an ancestor of closure'')]
      | SubjectUnresolved \<Rightarrow>
          [withObserved subject (NewV2VerifierDiagnostic V2VerifierSubjectUnresolved ''subject commit does not resolve'')]
      | FreezeUnresolved \<Rightarrow>
          [withObserved freeze (NewV2VerifierDiagnostic V2VerifierFreezeUnresolved ''freeze commit does not resolve'')]
      | ClosureUnresolved \<Rightarrow>
          [withObserved closure (NewV2VerifierDiagnostic V2VerifierClosureUnresolved ''closure commit does not resolve'')]
      | GitFailure \<Rightarrow>
          [NewV2VerifierDiagnostic V2VerifierTopologyObservationFailed ''topology observation failed'']
      | _ \<Rightarrow> [])"

section \<open>Resolution\<close>

record V2ClosureTopologyFacts =
  tf_Topology :: V2ClosureTopology
  tf_Relation :: V2ClosureRelation
  tf_Diagnostics :: V2VerifierDiagnostics

definition zeroTopologyFacts :: V2ClosureTopologyFacts where
  "zeroTopologyFacts = \<lparr>tf_Topology = zeroTopology, tf_Relation = RelationUnset, tf_Diagnostics = []\<rparr>"

definition observationFailure :: "string \<Rightarrow> string \<Rightarrow> V2ClosureTopology \<Rightarrow> V2ClosureTopologyFacts" where
  "observationFailure message observed topology =
     \<lparr>tf_Topology = topology, tf_Relation = GitFailure,
      tf_Diagnostics = [withObserved observed (NewV2VerifierDiagnostic V2VerifierTopologyObservationFailed message)]\<rparr>"

text \<open>
  The classification of three resolved commits after the four directed probes.
\<close>

definition probeTopology ::
  "gitAuthority \<Rightarrow> V2ClosureTopology \<Rightarrow> V2ClosureTopologyFacts" where
  "probeTopology authority base =
     (let s = ct_SubjectCommit base; f = ct_FreezeCommit base; c = ct_ClosureCommit base in
      case IsAncestor authority s f of
        Inl _ \<Rightarrow> observationFailure ''S->F ancestry observation failed'' (s @ ''>'' @ f) base
      | Inr subjectAncestorFreeze \<Rightarrow>
      (case IsAncestor authority f s of
        Inl _ \<Rightarrow> observationFailure ''F->S ancestry observation failed'' (f @ ''>'' @ s) base
      | Inr freezeAncestorSubject \<Rightarrow>
      (case IsAncestor authority f c of
        Inl _ \<Rightarrow> observationFailure ''F->C ancestry observation failed'' (f @ ''>'' @ c) base
      | Inr freezeAncestorClosure \<Rightarrow>
      (case IsAncestor authority c f of
        Inl _ \<Rightarrow> observationFailure ''C->F ancestry observation failed'' (c @ ''>'' @ f) base
      | Inr closureAncestorFreeze \<Rightarrow>
          let topology = base\<lparr>ct_SubjectAncestorFreeze := subjectAncestorFreeze,
                              ct_FreezeAncestorClosure := freezeAncestorClosure\<rparr>;
              triple = V2ClosureTopology.extend topology
                         (topologyTriple.fields freezeAncestorSubject closureAncestorFreeze);
              relation = classifyTriple triple
          in \<lparr>tf_Topology = topology, tf_Relation = relation,
              tf_Diagnostics = (if \<not> IsAccepted relation then relationDiagnostics relation s f c else [])\<rparr>))))"

definition ResolveTopology ::
  "gitAuthority \<Rightarrow> V2ClosureVerifyRequest \<Rightarrow> V2ClosureTopologyFacts \<times> V2VerifierError option" where
  "ResolveTopology authority request =
     (if authority = None then
        (zeroTopologyFacts, Some (NewV2VerifierError (NewV2VerifierDiagnostic
           V2VerifierTopologyObservationFailed ''git authority is required'')))
      else
      ((case ResolveCommit authority (rq_SubjectCommit request) of
        Inl _ \<Rightarrow> \<lparr>tf_Topology = zeroTopology, tf_Relation = SubjectUnresolved,
                  tf_Diagnostics = relationDiagnostics SubjectUnresolved (rq_SubjectCommit request)
                    (rq_FreezeCommit request) (rq_ClosureCommit request)\<rparr>
      | Inr subjectCommit \<Rightarrow>
      let t1 = zeroTopology\<lparr>ct_SubjectCommit := subjectCommit\<rparr> in
      (case ResolveTree authority subjectCommit of
        Inl _ \<Rightarrow> observationFailure ''subject tree resolution failed'' subjectCommit t1
      | Inr subjectTree \<Rightarrow>
      let t2 = t1\<lparr>ct_SubjectTree := subjectTree\<rparr> in
      (case ResolveCommit authority (rq_FreezeCommit request) of
        Inl _ \<Rightarrow> \<lparr>tf_Topology = t2, tf_Relation = FreezeUnresolved,
                  tf_Diagnostics = relationDiagnostics FreezeUnresolved subjectCommit
                    (rq_FreezeCommit request) (rq_ClosureCommit request)\<rparr>
      | Inr freezeCommit \<Rightarrow>
      let t3 = t2\<lparr>ct_FreezeCommit := freezeCommit\<rparr> in
      (case ResolveTree authority freezeCommit of
        Inl _ \<Rightarrow> observationFailure ''freeze tree resolution failed'' freezeCommit t3
      | Inr freezeTree \<Rightarrow>
      let t4 = t3\<lparr>ct_FreezeTree := freezeTree\<rparr> in
      (case ResolveCommit authority (rq_ClosureCommit request) of
        Inl _ \<Rightarrow> \<lparr>tf_Topology = t4, tf_Relation = ClosureUnresolved,
                  tf_Diagnostics = relationDiagnostics ClosureUnresolved subjectCommit freezeCommit
                    (rq_ClosureCommit request)\<rparr>
      | Inr closureCommit \<Rightarrow>
      let t5 = t4\<lparr>ct_ClosureCommit := closureCommit\<rparr> in
      (case ResolveTree authority closureCommit of
        Inl _ \<Rightarrow> observationFailure ''closure tree resolution failed'' closureCommit t5
      | Inr closureTree \<Rightarrow> probeTopology authority (t5\<lparr>ct_ClosureTree := closureTree\<rparr>))))))),
      None))"

section \<open>Byte authorities\<close>

text \<open>
  \<open>V2FrozenPlanAuthority\<close> and \<open>V2CommittedManifestAuthority\<close> have the same fields.  The
  errors of the git authority are all \<open>V2VerifierError\<close> with a diagnostic, so the branches for
  other errors are not reached.
\<close>

record byteAuthority =
  ba_Path :: string
  ba_BlobOID :: string
  ba_BlobSHA256 :: string
  ba_RawBytes :: string
  ba_Diagnostics :: V2VerifierDiagnostics

type_synonym V2FrozenPlanAuthority = byteAuthority
type_synonym V2CommittedManifestAuthority = byteAuthority

definition zeroAuthority :: byteAuthority where
  "zeroAuthority = \<lparr>ba_Path = '''', ba_BlobOID = '''', ba_BlobSHA256 = '''', ba_RawBytes = '''', ba_Diagnostics = []\<rparr>"

definition firstDiagnostic :: "V2VerifierError \<Rightarrow> V2VerifierDiagnostic" where
  "firstDiagnostic e = hd (ve_Diags e)"

definition ResolveV2FrozenPlanAuthority ::
  "gitAuthority \<Rightarrow> string \<Rightarrow> string \<Rightarrow> V2VerifierError + V2FrozenPlanAuthority" where
  "ResolveV2FrozenPlanAuthority authority freezeCommit planPath =
     (if authority = None then verifierFail V2VerifierFrozenPlanMissing ''git authority is required''
      else if trimSpace freezeCommit = '''' then verifierFail V2VerifierFrozenPlanMissing ''freeze commit is empty''
      else if trimSpace planPath = '''' then verifierFail V2VerifierFrozenPlanMissing ''plan path is empty''
      else Inr
      (case ResolvePathObject authority freezeCommit planPath of
        Inl verr \<Rightarrow> zeroAuthority\<lparr>ba_Path := planPath, ba_Diagnostics := [firstDiagnostic verr]\<rparr>
      | Inr (oid, objectType) \<Rightarrow>
          if objectType \<noteq> ''blob'' then
            zeroAuthority\<lparr>ba_Path := planPath, ba_BlobOID := oid, ba_Diagnostics :=
              [withObjectOID oid (withObjectPath planPath (NewV2VerifierDiagnostic V2VerifierFrozenPlanNotBlob
                 ''frozen plan path is not a blob at F''))]\<rparr>
          else (case ReadBlob authority oid of
            Inl verr \<Rightarrow> zeroAuthority\<lparr>ba_Path := planPath, ba_BlobOID := oid, ba_Diagnostics := [firstDiagnostic verr]\<rparr>
          | Inr raw \<Rightarrow>
              if raw = '''' then
                zeroAuthority\<lparr>ba_Path := planPath, ba_BlobOID := oid, ba_RawBytes := raw, ba_Diagnostics :=
                  [withObjectOID oid (withObjectPath planPath (NewV2VerifierDiagnostic V2VerifierFrozenPlanReadFailed
                     ''frozen plan blob is empty''))]\<rparr>
              else zeroAuthority\<lparr>ba_Path := planPath, ba_BlobOID := oid, ba_BlobSHA256 := sha256_hex raw,
                                 ba_RawBytes := raw\<rparr>)))"

definition ResolveV2CommittedManifestAuthority ::
  "gitAuthority \<Rightarrow> string \<Rightarrow> string \<Rightarrow> V2VerifierError + V2CommittedManifestAuthority" where
  "ResolveV2CommittedManifestAuthority authority closureCommit manifestPath =
     (if authority = None then verifierFail V2VerifierClosureManifestMissing ''git authority is required''
      else if trimSpace closureCommit = '''' then verifierFail V2VerifierClosureManifestMissing ''closure commit is empty''
      else if trimSpace manifestPath = '''' then verifierFail V2VerifierClosureManifestMissing ''manifest path is empty''
      else Inr
      (case ResolvePathObject authority closureCommit manifestPath of
        Inl verr \<Rightarrow>
          zeroAuthority\<lparr>ba_Path := manifestPath, ba_Diagnostics :=
            [\<lparr>vd_Code = V2VerifierClosureManifestMissing,
              vd_Message = ''committed manifest path does not resolve at C: '' @ vd_Message (firstDiagnostic verr),
              vd_PropertyName = vd_PropertyName (firstDiagnostic verr), vd_Expected = '''', vd_Observed = '''',
              vd_ObjectOID = vd_ObjectOID (firstDiagnostic verr), vd_ObjectPath = manifestPath,
              vd_Detail = vd_Detail (firstDiagnostic verr)\<rparr>]\<rparr>
      | Inr (oid, objectType) \<Rightarrow>
          if objectType \<noteq> ''blob'' then
            zeroAuthority\<lparr>ba_Path := manifestPath, ba_BlobOID := oid, ba_Diagnostics :=
              [withObjectOID oid (withObjectPath manifestPath (NewV2VerifierDiagnostic V2VerifierClosureManifestNotBlob
                 ''committed manifest path is not a blob at C''))]\<rparr>
          else (case ReadBlob authority oid of
            Inl verr \<Rightarrow> zeroAuthority\<lparr>ba_Path := manifestPath, ba_BlobOID := oid, ba_Diagnostics := [firstDiagnostic verr]\<rparr>
          | Inr raw \<Rightarrow>
              if raw = '''' then
                zeroAuthority\<lparr>ba_Path := manifestPath, ba_BlobOID := oid, ba_RawBytes := raw, ba_Diagnostics :=
                  [withObjectOID oid (withObjectPath manifestPath (NewV2VerifierDiagnostic V2VerifierClosureManifestReadFailed
                     ''committed manifest blob is empty''))]\<rparr>
              else zeroAuthority\<lparr>ba_Path := manifestPath, ba_BlobOID := oid, ba_BlobSHA256 := sha256_hex raw,
                                 ba_RawBytes := raw\<rparr>)))"

section \<open>Optional manifest assertion\<close>

record V2OptionalManifestAssertion =
  oa_Supplied :: bool
  oa_Matches :: bool
  oa_Diagnostics :: V2VerifierDiagnostics

text \<open>Two digests are equal exactly when their hexadecimal renderings are.\<close>

definition AssertV2OptionalManifestAssertion ::
  "V2CommittedManifestAuthority \<Rightarrow> string \<Rightarrow> V2OptionalManifestAssertion" where
  "AssertV2OptionalManifestAssertion authority supplied =
     (if supplied = '''' then \<lparr>oa_Supplied = False, oa_Matches = False, oa_Diagnostics = []\<rparr>
      else if ba_RawBytes authority = '''' then
        \<lparr>oa_Supplied = True, oa_Matches = False, oa_Diagnostics =
          [withObjectPath (ba_Path authority) (NewV2VerifierDiagnostic V2VerifierClosureManifestAssertionMismatch
             ''optional manifest assertion supplied but committed manifest authority is empty'')]\<rparr>
      else if sha256_hex supplied = sha256_hex (ba_RawBytes authority) then
        \<lparr>oa_Supplied = True, oa_Matches = True, oa_Diagnostics = []\<rparr>
      else
        \<lparr>oa_Supplied = True, oa_Matches = False, oa_Diagnostics =
          [withObserved (sha256_hex (ba_RawBytes authority)) (withExpected (sha256_hex supplied)
             (withObjectPath (ba_Path authority) (NewV2VerifierDiagnostic V2VerifierClosureManifestAssertionMismatch
                ''SHA-256 of optional manifest assertion differs from C:M bytes'')))]\<rparr>)"

section \<open>What is accepted\<close>

text \<open>The commits and trees that the three revisions of a request name.\<close>

definition resolvesTo :: "gitAuthority \<Rightarrow> V2ClosureVerifyRequest \<Rightarrow> V2ClosureTopology \<Rightarrow> bool" where
  "resolvesTo authority request t \<longleftrightarrow>
     ResolveCommit authority (rq_SubjectCommit request) = Inr (ct_SubjectCommit t) \<and>
     ResolveTree authority (ct_SubjectCommit t) = Inr (ct_SubjectTree t) \<and>
     ResolveCommit authority (rq_FreezeCommit request) = Inr (ct_FreezeCommit t) \<and>
     ResolveTree authority (ct_FreezeCommit t) = Inr (ct_FreezeTree t) \<and>
     ResolveCommit authority (rq_ClosureCommit request) = Inr (ct_ClosureCommit t) \<and>
     ResolveTree authority (ct_ClosureCommit t) = Inr (ct_ClosureTree t)"

lemma classifyTriple_accepts:
  "IsAccepted (classifyTriple t) \<longleftrightarrow>
     ct_SubjectCommit t \<noteq> '''' \<and> ct_FreezeCommit t \<noteq> '''' \<and> ct_ClosureCommit t \<noteq> '''' \<and>
     ct_SubjectCommit t \<noteq> ct_FreezeCommit t \<and> ct_FreezeCommit t \<noteq> ct_ClosureCommit t \<and>
     ct_SubjectCommit t \<noteq> ct_ClosureCommit t \<and> \<not> tt_FreezeAncestorSubject t \<and> \<not> tt_ClosureAncestorFreeze t \<and>
     ct_SubjectAncestorFreeze t \<and> ct_FreezeAncestorClosure t"
  by (auto simp: classifyTriple_def IsAccepted_def)

lemma classifyTriple_set: "classifyTriple t \<noteq> RelationUnset"
  by (simp add: classifyTriple_def)

lemma relationDiagnostics_nonempty:
  "relation \<noteq> RelationUnset \<Longrightarrow> \<not> IsAccepted relation \<Longrightarrow> relationDiagnostics relation s f c \<noteq> []"
  by (cases relation) (auto simp: relationDiagnostics_def IsAccepted_def)

lemma triple_fields [simp]:
  "ct_SubjectCommit (V2ClosureTopology.extend t m) = ct_SubjectCommit t"
  "ct_FreezeCommit (V2ClosureTopology.extend t m) = ct_FreezeCommit t"
  "ct_ClosureCommit (V2ClosureTopology.extend t m) = ct_ClosureCommit t"
  "ct_SubjectAncestorFreeze (V2ClosureTopology.extend t m) = ct_SubjectAncestorFreeze t"
  "ct_FreezeAncestorClosure (V2ClosureTopology.extend t m) = ct_FreezeAncestorClosure t"
  "tt_FreezeAncestorSubject (V2ClosureTopology.extend t (topologyTriple.fields a b)) = a"
  "tt_ClosureAncestorFreeze (V2ClosureTopology.extend t (topologyTriple.fields a b)) = b"
  by (simp_all add: V2ClosureTopology.extend_def topologyTriple.fields_def)

lemma probeTopology_diagnosed:
  "tf_Diagnostics (probeTopology a t) = [] \<longleftrightarrow> IsAccepted (tf_Relation (probeTopology a t))"
  by (auto simp: probeTopology_def observationFailure_def IsAccepted_def Let_def classifyTriple_set
      relationDiagnostics_nonempty [unfolded IsAccepted_def] split: sum.splits)

lemma probeTopology_accepts:
  "IsAccepted (tf_Relation (probeTopology a t)) \<longleftrightarrow>
     ct_SubjectCommit t \<noteq> '''' \<and> ct_FreezeCommit t \<noteq> '''' \<and> ct_ClosureCommit t \<noteq> '''' \<and>
     ct_SubjectCommit t \<noteq> ct_FreezeCommit t \<and> ct_FreezeCommit t \<noteq> ct_ClosureCommit t \<and>
     ct_SubjectCommit t \<noteq> ct_ClosureCommit t \<and>
     IsAncestor a (ct_SubjectCommit t) (ct_FreezeCommit t) = Inr True \<and>
     IsAncestor a (ct_FreezeCommit t) (ct_SubjectCommit t) = Inr False \<and>
     IsAncestor a (ct_FreezeCommit t) (ct_ClosureCommit t) = Inr True \<and>
     IsAncestor a (ct_ClosureCommit t) (ct_FreezeCommit t) = Inr False"
  by (auto simp: probeTopology_def observationFailure_def Let_def classifyTriple_accepts split: sum.splits)
     (simp_all add: IsAccepted_def)

definition topologyOf :: "string \<Rightarrow> string \<Rightarrow> string \<Rightarrow> string \<Rightarrow> string \<Rightarrow> string \<Rightarrow> V2ClosureTopology" where
  "topologyOf s st f ft c tr =
     \<lparr>ct_SubjectCommit = s, ct_SubjectTree = st, ct_FreezeCommit = f, ct_FreezeTree = ft, ct_ClosureCommit = c,
      ct_ClosureTree = tr, ct_SubjectAncestorFreeze = False, ct_FreezeAncestorClosure = False\<rparr>"

lemma ResolveTopology_resolved:
  assumes "a \<noteq> None" and "resolvesTo a request t"
  shows "ResolveTopology a request =
    (probeTopology a (topologyOf (ct_SubjectCommit t) (ct_SubjectTree t) (ct_FreezeCommit t) (ct_FreezeTree t)
       (ct_ClosureCommit t) (ct_ClosureTree t)), None)"
  using assms by (simp add: ResolveTopology_def resolvesTo_def topologyOf_def zeroTopology_def Let_def)

lemma ResolveTopology_unresolved:
  assumes "a \<noteq> None" and "\<nexists>t. resolvesTo a request t"
  shows "\<not> IsAccepted (tf_Relation (fst (ResolveTopology a request)))"
    and "tf_Diagnostics (fst (ResolveTopology a request)) \<noteq> []"
proof -
  from assms(1) obtain r where a: "a = Some r"
    by auto
  have "(\<not> IsAccepted (tf_Relation (fst (ResolveTopology a request))) \<and>
         tf_Diagnostics (fst (ResolveTopology a request)) \<noteq> []) \<or>
     (\<exists>s st f ft c tr. ResolveCommit a (rq_SubjectCommit request) = Inr s \<and> ResolveTree a s = Inr st \<and>
        ResolveCommit a (rq_FreezeCommit request) = Inr f \<and> ResolveTree a f = Inr ft \<and>
        ResolveCommit a (rq_ClosureCommit request) = Inr c \<and> ResolveTree a c = Inr tr)"
    unfolding a by (simp add: ResolveTopology_def observationFailure_def IsAccepted_def relationDiagnostics_def
        Let_def split: sum.split)
  moreover have "\<not> (\<exists>s st f ft c tr. ResolveCommit a (rq_SubjectCommit request) = Inr s \<and> ResolveTree a s = Inr st \<and>
        ResolveCommit a (rq_FreezeCommit request) = Inr f \<and> ResolveTree a f = Inr ft \<and>
        ResolveCommit a (rq_ClosureCommit request) = Inr c \<and> ResolveTree a c = Inr tr)"
  proof (intro notI, elim exE)
    fix s st f ft c tr
    assume "ResolveCommit a (rq_SubjectCommit request) = Inr s \<and> ResolveTree a s = Inr st \<and>
        ResolveCommit a (rq_FreezeCommit request) = Inr f \<and> ResolveTree a f = Inr ft \<and>
        ResolveCommit a (rq_ClosureCommit request) = Inr c \<and> ResolveTree a c = Inr tr"
    then have "resolvesTo a request (topologyOf s st f ft c tr)"
      by (simp add: resolvesTo_def topologyOf_def)
    with assms(2) show False
      by blast
  qed
  ultimately show "\<not> IsAccepted (tf_Relation (fst (ResolveTopology a request)))"
    and "tf_Diagnostics (fst (ResolveTopology a request)) \<noteq> []"
    by blast+
qed

lemma resolvesTo_oids:
  "resolvesTo a request t \<Longrightarrow>
   oidPattern (ct_SubjectCommit t) \<and> oidPattern (ct_FreezeCommit t) \<and> oidPattern (ct_ClosureCommit t) \<and>
   oidPattern (ct_SubjectTree t) \<and> oidPattern (ct_FreezeTree t) \<and> oidPattern (ct_ClosureTree t)"
  by (auto simp: resolvesTo_def dest: ResolveCommit_oid ResolveTree_oid)

lemma resolvesTo_unique:
  "resolvesTo a request t \<Longrightarrow> resolvesTo a request t' \<Longrightarrow>
   ct_SubjectCommit t = ct_SubjectCommit t' \<and> ct_FreezeCommit t = ct_FreezeCommit t' \<and>
   ct_ClosureCommit t = ct_ClosureCommit t'"
  by (auto simp: resolvesTo_def)

text \<open>
  The acceptance of a topology, and that a rejected one always carries a diagnostic.
\<close>

lemma ResolveTopology_accepts:
  assumes "a \<noteq> None"
  shows "IsAccepted (tf_Relation (fst (ResolveTopology a request))) \<longleftrightarrow>
     (\<exists>t. resolvesTo a request t \<and> ct_SubjectCommit t \<noteq> ct_FreezeCommit t \<and> ct_FreezeCommit t \<noteq> ct_ClosureCommit t \<and>
       ct_SubjectCommit t \<noteq> ct_ClosureCommit t \<and>
       IsAncestor a (ct_SubjectCommit t) (ct_FreezeCommit t) = Inr True \<and>
       IsAncestor a (ct_FreezeCommit t) (ct_SubjectCommit t) = Inr False \<and>
       IsAncestor a (ct_FreezeCommit t) (ct_ClosureCommit t) = Inr True \<and>
       IsAncestor a (ct_ClosureCommit t) (ct_FreezeCommit t) = Inr False)" (is "?acc \<longleftrightarrow> (\<exists>t. ?P t)")
proof (cases "\<exists>t. resolvesTo a request t")
  case True
  then obtain t where t: "resolvesTo a request t" ..
  have "?acc \<longleftrightarrow> ?P t"
    using t resolvesTo_oids [OF t] assms
    by (auto simp: ResolveTopology_resolved probeTopology_accepts topologyOf_def dest: oidPattern_nonempty)
  also have "?P t \<longleftrightarrow> (\<exists>t. ?P t)"
  proof
    assume "\<exists>t. ?P t"
    then obtain t' where t': "?P t'"
      by blast
    with t resolvesTo_unique [OF t, of t'] show "?P t"
      by simp
  qed blast
  finally show ?thesis .
qed (use ResolveTopology_unresolved [OF assms] in blast)

lemma ResolveTopology_diagnosed:
  assumes "a \<noteq> None"
  shows "tf_Diagnostics (fst (ResolveTopology a request)) = [] \<longleftrightarrow>
    IsAccepted (tf_Relation (fst (ResolveTopology a request)))"
proof (cases "\<exists>t. resolvesTo a request t")
  case True
  with assms show ?thesis
    by (auto simp: ResolveTopology_resolved probeTopology_diagnosed)
qed (use ResolveTopology_unresolved [OF assms] in blast)

text \<open>
  Documented behaviour of \<open>git merge-base --is-ancestor\<close> on two commits that git has resolved
  itself: exit code 0 if the first is reachable from the second through parent links, and exit
  code 1 if it is not.  Nothing is assumed about names that are not commits, for which git exits
  with another code.  \<open>parents\<close> relates a commit to its children.
\<close>

definition answersAncestry :: "gitAuthority \<Rightarrow> (string \<times> string) set \<Rightarrow> bool" where
  "answersAncestry a parents \<longleftrightarrow>
     (\<forall>p q x y. ResolveCommit a p = Inr x \<longrightarrow> ResolveCommit a q = Inr y \<longrightarrow> IsAncestor a x y = Inr ((x, y) \<in> parents\<^sup>*))"

lemma proper_ancestor_iff:
  assumes "acyclic parents"
  shows "x \<noteq> y \<and> (x, y) \<in> parents\<^sup>* \<and> (y, x) \<notin> parents\<^sup>* \<longleftrightarrow> (x, y) \<in> parents\<^sup>+"
  using assms unfolding acyclic_def by (metis rtrancl_eq_or_trancl rtrancl_trancl_trancl)

section \<open>Topology of a repository\<close>

text \<open>
  C6. If git answers the ancestry of the commits it resolves correctly, the verifier accepts the
  topology exactly when the three revisions resolve to commits with trees and S is a proper
  ancestor of F and F a proper ancestor of C.  A topology that is not accepted always has a
  diagnostic, an accepted one has none.
\<close>

theorem topology_accepted_iff_chain:
  assumes "a \<noteq> None" and "answersAncestry a parents" and "acyclic parents"
  shows "(IsAccepted (tf_Relation (fst (ResolveTopology a request))) \<longleftrightarrow>
      (\<exists>t. resolvesTo a request t \<and> (ct_SubjectCommit t, ct_FreezeCommit t) \<in> parents\<^sup>+ \<and>
           (ct_FreezeCommit t, ct_ClosureCommit t) \<in> parents\<^sup>+))
    \<and> (tf_Diagnostics (fst (ResolveTopology a request)) = [] \<longleftrightarrow>
      IsAccepted (tf_Relation (fst (ResolveTopology a request))))"
proof (intro conjI ResolveTopology_diagnosed [OF assms(1)])
  have chain: "(x \<noteq> y \<and> y \<noteq> z \<and> x \<noteq> z \<and> IsAncestor a x y = Inr True \<and> IsAncestor a y x = Inr False \<and>
          IsAncestor a y z = Inr True \<and> IsAncestor a z y = Inr False) \<longleftrightarrow>
        (x, y) \<in> parents\<^sup>+ \<and> (y, z) \<in> parents\<^sup>+"
    if resolved: "ResolveCommit a s = Inr x" "ResolveCommit a f = Inr y" "ResolveCommit a c = Inr z" for s f c x y z
  proof -
    have "x \<noteq> z" if "(x, y) \<in> parents\<^sup>+" "(y, z) \<in> parents\<^sup>+"
      using that assms(3) by (auto simp: acyclic_def dest: trancl_trans)
    moreover have "IsAncestor a x y = Inr ((x, y) \<in> parents\<^sup>*)" "IsAncestor a y x = Inr ((y, x) \<in> parents\<^sup>*)"
      "IsAncestor a y z = Inr ((y, z) \<in> parents\<^sup>*)" "IsAncestor a z y = Inr ((z, y) \<in> parents\<^sup>*)"
      using resolved assms(2) unfolding answersAncestry_def by blast+
    ultimately show ?thesis
      using proper_ancestor_iff [OF assms(3), of x y] proper_ancestor_iff [OF assms(3), of y z] by auto
  qed
  note link = chain [of "rq_SubjectCommit request" _ "rq_FreezeCommit request" _ "rq_ClosureCommit request"]
  show "IsAccepted (tf_Relation (fst (ResolveTopology a request))) \<longleftrightarrow>
      (\<exists>t. resolvesTo a request t \<and> (ct_SubjectCommit t, ct_FreezeCommit t) \<in> parents\<^sup>+ \<and>
           (ct_FreezeCommit t, ct_ClosureCommit t) \<in> parents\<^sup>+)"
    unfolding ResolveTopology_accepts [OF assms(1)] by (rule ex_cong1, rule conj_cong [OF refl], rule link) (simp_all add: resolvesTo_def)
qed

text \<open>A repository with one chain of three commits; git exits with 128 for any other name.\<close>

definition oid40 :: "char \<Rightarrow> string" where
  "oid40 c = replicate 40 c"

definition okResult :: "string \<Rightarrow> gitCommandResult" where
  "okResult out = \<lparr>gc_Stdout = out, gc_Stderr = '''', gc_ExitCode = 0, gc_Err = None\<rparr>"

definition exitResult :: "int \<Rightarrow> gitCommandResult" where
  "exitResult n = \<lparr>gc_Stdout = '''', gc_Stderr = '''', gc_ExitCode = n, gc_Err = Some (WaitFailed (WaitExit n), ''exit status'')\<rparr>"

definition chainParents :: "(string \<times> string) set" where
  "chainParents = {(oid40 (CHR ''1''), oid40 (CHR ''2'')), (oid40 (CHR ''2''), oid40 (CHR ''3''))}"

definition chainReach :: "(string \<times> string) set" where
  "chainReach = chainParents \<union> {(oid40 (CHR ''1''), oid40 (CHR ''3''))}"

definition chainCommits :: "string list" where
  "chainCommits = [oid40 (CHR ''1''), oid40 (CHR ''2''), oid40 (CHR ''3'')]"

definition chainGit :: gitClient where
  "chainGit directory args =
     (case args of
        [a, b, x, y] \<Rightarrow>
          if a = ''merge-base'' then
            (if x \<notin> set chainCommits \<or> y \<notin> set chainCommits then exitResult 128
             else exitResult (if x = y \<or> (x, y) \<in> chainReach then 0 else 1))
          else if take 40 y \<notin> set chainCommits then exitResult 128
          else okResult (take 40 y)
      | _ \<Rightarrow> exitResult 128)"

definition chainAuthority :: gitAuthority where
  "chainAuthority = Some \<lparr>ga_git = chainGit, ga_repoRoot = ''/repo''\<rparr>"

definition chainRequest :: V2ClosureVerifyRequest where
  "chainRequest =
     \<lparr>rq_ClosureProtocolVersion = ''2'', rq_PlanContractVersion = 1, rq_RepositoryRoot = ''/repo'',
      rq_SubjectCommit = oid40 (CHR ''1''), rq_FreezeCommit = oid40 (CHR ''2''), rq_ClosureCommit = oid40 (CHR ''3''),
      rq_PlanPath = ''plan.json'', rq_ManifestPath = ''manifest.json'', rq_OptionalManifestAssertion = '''',
      rq_ExpectedTagName = ''''\<rparr>"

lemma oid40_pattern: "lower_hex c \<Longrightarrow> oidPattern (oid40 c)"
  by (simp add: oid40_def oidPattern_def list_all_iff)

lemma oid40_simps [simp]: "oid40 c = oid40 d \<longleftrightarrow> c = d" "oid40 c \<noteq> []" "length (oid40 c) = 40"
  by (auto simp: oid40_def)

lemma chainParents_acyclic: "acyclic chainParents" and chainParents_rtrancl: "chainParents\<^sup>* = chainReach\<^sup>="
proof -
  have "trans chainReach"
    by (auto simp: trans_def chainReach_def chainParents_def)
  then have sub: "chainParents\<^sup>+ \<subseteq> chainReach"
    using trancl_mono [of _ chainParents chainReach] by (auto simp: chainReach_def)
  then show "acyclic chainParents"
    by (auto simp: acyclic_def chainReach_def chainParents_def)
  have "(oid40 (CHR ''1''), oid40 (CHR ''3'')) \<in> chainParents\<^sup>+"
    by (rule trancl_trans [OF r_into_trancl r_into_trancl]) (auto simp: chainParents_def)
  with sub have "chainParents\<^sup>+ = chainReach"
    by (auto simp: chainReach_def)
  then show "chainParents\<^sup>* = chainReach\<^sup>="
    by (simp add: rtrancl_trancl_reflcl)
qed

lemma chain_pattern: "x \<in> set chainCommits \<Longrightarrow> oidPattern x"
  by (auto simp: chainCommits_def lower_hex_def intro: oid40_pattern)

lemma chain_resolved:
  assumes "ResolveCommit chainAuthority p = Inr x"
  shows "x \<in> set chainCommits"
  using assms oidPattern_trimSpace [OF chain_pattern]
  by (auto simp: ResolveCommit_def chainAuthority_def gitRun_def chainGit_def okResult_def exitResult_def commandFailed_def
      Let_def split: if_splits)

lemma chain_answers: "answersAncestry chainAuthority chainParents"
  unfolding answersAncestry_def
proof (intro allI impI)
  fix p q x y assume "ResolveCommit chainAuthority p = Inr x" "ResolveCommit chainAuthority q = Inr y"
  then have c: "x \<in> set chainCommits" "y \<in> set chainCommits"
    by (blast dest: chain_resolved)+
  then have "trimSpace x \<noteq> ''''" "trimSpace y \<noteq> ''''"
    by (auto simp: oidPattern_trimSpace dest!: chain_pattern dest: oidPattern_nonempty)
  with c show "IsAncestor chainAuthority x y = Inr ((x, y) \<in> chainParents\<^sup>*)"
    by (auto simp: IsAncestor_def chainAuthority_def gitRun_def chainGit_def exitResult_def chainParents_rtrancl)
qed

lemma chain_resolves:
  "resolvesTo chainAuthority chainRequest
     (topologyOf (oid40 (CHR ''1'')) (oid40 (CHR ''1'')) (oid40 (CHR ''2'')) (oid40 (CHR ''2''))
        (oid40 (CHR ''3'')) (oid40 (CHR ''3'')))"
proof -
  have pat: "oidPattern (oid40 c)" if "c \<in> {CHR ''1'', CHR ''2'', CHR ''3''}" for c
    using that by (intro oid40_pattern) (auto simp: lower_hex_def)
  have "ResolveCommit chainAuthority (oid40 c) = Inr (oid40 c)" "ResolveTree chainAuthority (oid40 c) = Inr (oid40 c)"
    if "c \<in> {CHR ''1'', CHR ''2'', CHR ''3''}" for c
    using pat [OF that] oidPattern_trimSpace [OF pat [OF that]]
    using that by (auto simp: ResolveCommit_def ResolveTree_def chainAuthority_def gitRun_def chainGit_def chainCommits_def
        okResult_def commandFailed_def Let_def)
  then show ?thesis
    by (simp add: resolvesTo_def topologyOf_def chainRequest_def)
qed

theorem topology_accepted_iff_chain_witness:
  "IsAccepted (tf_Relation (fst (ResolveTopology chainAuthority chainRequest)))"
proof -
  have "chainAuthority \<noteq> None"
    by (simp add: chainAuthority_def)
  note iff = topology_accepted_iff_chain [OF this chain_answers chainParents_acyclic, of chainRequest]
  show ?thesis
    by (rule iff [THEN conjunct1, THEN iffD2], intro exI conjI, rule chain_resolves)
       (auto simp: topologyOf_def chainParents_def)
qed

definition NewV2ClosureGitAuthority ::
  "(gitError \<Rightarrow> string) \<Rightarrow> (string \<Rightarrow> string list \<Rightarrow> commandRun) \<Rightarrow> string \<Rightarrow> V2VerifierError + gitAuthority" where
  "NewV2ClosureGitAuthority errText process repoRoot =
     newV2ClosureGitAuthorityWithClient (RealGit_Run errText process) repoRoot"

text \<open>
  The ancestor probe reads the exit code and not the error of the runner, and the runner
  returns exit code 0 for a command it could not start.  So when the probes from S to F and from F
  to C cannot be started, and the reverse probes answer no, three distinct commits are accepted as
  a chain without a diagnostic, whatever their ancestry is.
\<close>

theorem unstartable_probe_accepts:
  assumes auth: "NewV2ClosureGitAuthority errText process root = Inr a"
    and res: "resolvesTo a request t"
    and distinct: "ct_SubjectCommit t \<noteq> ct_FreezeCommit t" "ct_FreezeCommit t \<noteq> ct_ClosureCommit t"
      "ct_SubjectCommit t \<noteq> ct_ClosureCommit t"
    and start: "cr_startErr (process root [''merge-base'', ''--is-ancestor'', ct_SubjectCommit t, ct_FreezeCommit t]) \<noteq> None"
      "cr_startErr (process root [''merge-base'', ''--is-ancestor'', ct_FreezeCommit t, ct_ClosureCommit t]) \<noteq> None"
    and reverse: "IsAncestor a (ct_FreezeCommit t) (ct_SubjectCommit t) = Inr False"
      "IsAncestor a (ct_ClosureCommit t) (ct_FreezeCommit t) = Inr False"
  shows "IsAccepted (tf_Relation (fst (ResolveTopology a request))) \<and>
    tf_Diagnostics (fst (ResolveTopology a request)) = []"
proof -
  have a: "a = Some \<lparr>ga_git = RealGit_Run errText process, ga_repoRoot = root\<rparr>"
    using auth by (auto simp: NewV2ClosureGitAuthority_def newV2ClosureGitAuthorityWithClient_def split: if_splits)
  have trim: "trimSpace x \<noteq> ''''" if "oidPattern x" for x
    using that by (auto simp: oidPattern_trimSpace dest: oidPattern_nonempty)
  have "IsAncestor a (ct_SubjectCommit t) (ct_FreezeCommit t) = Inr True"
    and "IsAncestor a (ct_FreezeCommit t) (ct_ClosureCommit t) = Inr True"
    using start resolvesTo_oids [OF res] start_failure_is_ancestor trim unfolding a by blast+
  with res distinct reverse have "IsAccepted (tf_Relation (fst (ResolveTopology a request)))"
    by (intro ResolveTopology_accepts [THEN iffD2] exI [of _ t] conjI) (simp_all add: a)
  then show ?thesis
    using ResolveTopology_diagnosed [of a request] by (simp add: a)
qed

text \<open>
  A process that resolves every revision to itself, cannot be started for the forward probes and
  answers no to the reverse ones.
\<close>

definition brokenProcess :: "string \<Rightarrow> string list \<Rightarrow> commandRun" where
  "brokenProcess directory args =
     (let run = \<lparr>cr_startErr = None, cr_stdout = [take 40 (last args)], cr_stderr = [], cr_wait = WaitOk, cr_ctx = CtxLive\<rparr>
      in if hd args \<noteq> ''merge-base'' then run
         else if args ! 2 < args ! 3 then run\<lparr>cr_startErr := Some ''resource temporarily unavailable''\<rparr>
         else run\<lparr>cr_wait := WaitExit 1\<rparr>)"

definition brokenAuthority :: gitAuthority where
  "brokenAuthority = Some \<lparr>ga_git = RealGit_Run (\<lambda>e. ''error'') brokenProcess, ga_repoRoot = ''/repo''\<rparr>"

lemma brokenProcess_run:
  "args \<noteq> [] \<Longrightarrow> hd args \<noteq> ''merge-base'' \<Longrightarrow>
   RealGit_Run errText brokenProcess dir args = okResult (take 40 (last args))"
  by (simp add: RealGit_Run_def RunGit_def runCommandWithLimits_def brokenProcess_def okResult_def drain_spec
      specWriter_def DefaultOutputLimit_def Let_def)

lemma oid40_less: "c < d \<Longrightarrow> oid40 c < oid40 d"
  by (simp add: oid40_def numeral_eq_Suc)

theorem unstartable_probe_accepts_witness:
  "IsAccepted (tf_Relation (fst (ResolveTopology brokenAuthority chainRequest)))"
proof -
  let ?t = "topologyOf (oid40 (CHR ''1'')) (oid40 (CHR ''1'')) (oid40 (CHR ''2'')) (oid40 (CHR ''2''))
        (oid40 (CHR ''3'')) (oid40 (CHR ''3''))"
  have pat: "oidPattern (oid40 c)" "trimSpace (oid40 c) = oid40 c" if "c \<in> {CHR ''1'', CHR ''2'', CHR ''3''}" for c
    using that by (auto intro!: oid40_pattern oidPattern_trimSpace simp: lower_hex_def)
  have "ResolveCommit brokenAuthority (oid40 c) = Inr (oid40 c)" "ResolveTree brokenAuthority (oid40 c) = Inr (oid40 c)"
    if "c \<in> {CHR ''1'', CHR ''2'', CHR ''3''}" for c
    using pat [OF that]
    by (simp_all add: ResolveCommit_def ResolveTree_def brokenAuthority_def gitRun_def brokenProcess_run okResult_def
        commandFailed_def Let_def)
  then have res: "resolvesTo brokenAuthority chainRequest ?t"
    by (simp add: resolvesTo_def topologyOf_def chainRequest_def)
  have less: "oid40 (CHR ''1'') < oid40 (CHR ''2'')" "oid40 (CHR ''2'') < oid40 (CHR ''3'')"
    by (auto intro!: oid40_less simp: less_char_def)
  have "IsAncestor brokenAuthority (oid40 (CHR ''2'')) (oid40 (CHR ''1'')) = Inr False"
    "IsAncestor brokenAuthority (oid40 (CHR ''3'')) (oid40 (CHR ''2'')) = Inr False"
    using less by (auto simp: IsAncestor_def brokenAuthority_def gitRun_def RealGit_Run_def RunGit_def pat
        runCommandWithLimits_def brokenProcess_def drain_spec specWriter_def DefaultOutputLimit_def Let_def)
  then show ?thesis
    using less by (intro conjunct1 [OF unstartable_probe_accepts [OF _ res, where process = brokenProcess and root = "''/repo''"
          and errText = "\<lambda>e. ''error''"]])
      (simp_all add: topologyOf_def brokenProcess_def NewV2ClosureGitAuthority_def newV2ClosureGitAuthorityWithClient_def
        brokenAuthority_def trimSpace_id graphic_def)
qed

end
