(* ===== verification/Closure_Manifest.thy ===== *)
theory Closure_Manifest
  imports Closure_Topology Gate_Summary
begin

text \<open>
  The committed manifest (\<open>v2_verifier_manifest.go\<close>): strict parse, identity against the
  topology and the frozen plan, binary identity, the bijection between the check results and the
  checks of the frozen plan, and the integrity of the run.  The results of the runner are mapped
  to manifest results in \<open>closure_protocol_v2_results.go\<close>.

  What \<open>encoding/json\<close> does is a parameter \<open>reader\<close>: \<open>mr_readObject\<close> decodes the first
  value of the bytes into \<open>map[string]json.RawMessage\<close> and returns its members in document
  order (repeated names included) with the bytes that are left; \<open>mr_strictDecode\<close> decodes the
  members of the map, written again in the order of their names, into \<open>parsedManifest\<close>.  The
  plan parser \<open>DecodePlan\<close> is the parameter \<open>decodePlan\<close> and returns the checks.
  \<open>quote\<close> is the verb \<open>%q\<close>.
\<close>

section \<open>Records\<close>

record parsedEvidence =
  pe_LogicalName :: string
  pe_MediaType :: string
  pe_SHA256 :: string
  pe_ByteCount :: string
  pe_Availability :: string

text \<open>A \<open>json.Number\<close> is its spelling, empty when the member is absent.\<close>

record parsedCheckResult =
  pr_ID :: string
  pr_Mode :: string
  pr_Outcome :: string
  pr_ExitCode :: "string option"
  pr_DurationMS :: string
  pr_ExecutionClassification :: string
  pr_CleanupStatus :: string
  pr_Evidence :: "parsedEvidence list"
  pr_Detail :: string

record parsedBinaryIdentity =
  pb_Path :: string
  pb_SHA256 :: string
  pb_VCSRevision :: string
  pb_VCSModified :: bool
  pb_LeamasVersion :: string

record parsedManifest =
  pm_ClosureProtocolVersion :: string
  pm_PlanContractVersion :: string
  pm_SubjectCommit :: string
  pm_SubjectTree :: string
  pm_FreezeCommit :: string
  pm_FreezeTree :: string
  pm_PlanPath :: string
  pm_PlanBlob :: string
  pm_PlanSHA256 :: string
  pm_ExecutionTree :: string
  pm_CheckResults :: "parsedCheckResult list"
  pm_LeamasBinaryIdentity :: parsedBinaryIdentity
  pm_CallerHead :: string
  pm_ClosureCommit :: string

record PlanCheck =
  pc_ID :: string
  pc_Mode :: string
  pc_Argv :: "string list"
  pc_WorkingDirectory :: string
  pc_TimeoutSeconds :: int
  pc_Environment :: "(string \<times> string) list"
  pc_Reason :: string

record V2EvidenceReference =
  er_LogicalName :: string
  er_MediaType :: string
  er_SHA256 :: string
  er_ByteCount :: int
  er_Availability :: string

record V2CheckResult =
  vr_ID :: string
  vr_Mode :: string
  vr_Outcome :: string
  vr_ExitCode :: "int option"
  vr_DurationMS :: int
  vr_ExecutionClassification :: string
  vr_CleanupStatus :: string
  vr_Evidence :: "V2EvidenceReference list"
  vr_Detail :: string

record V2ManifestIdentityFacts =
  mf_ManifestIdentityValid :: bool
  mf_BinaryIdentityValid :: bool
  mf_BijectionValid :: bool
  mf_SuccessValid :: bool
  mf_PlanChecks :: "PlanCheck list"
  mf_MappedResults :: "V2CheckResult list"
  mf_Diagnostics :: V2VerifierDiagnostics

definition zeroFacts :: V2ManifestIdentityFacts where
  "zeroFacts =
     \<lparr>mf_ManifestIdentityValid = False, mf_BinaryIdentityValid = False, mf_BijectionValid = False,
      mf_SuccessValid = False, mf_PlanChecks = [], mf_MappedResults = [], mf_Diagnostics = []\<rparr>"

abbreviation CheckModeRun :: string where "CheckModeRun \<equiv> ''run''"
abbreviation CheckModeExclude :: string where "CheckModeExclude \<equiv> ''exclude''"
abbreviation CheckStatusPass :: string where "CheckStatusPass \<equiv> ''pass''"
abbreviation CheckStatusFail :: string where "CheckStatusFail \<equiv> ''fail''"
abbreviation CheckStatusNotRun :: string where "CheckStatusNotRun \<equiv> ''not_run_due_to_prior_failure''"
abbreviation CleanupPass :: string where "CleanupPass \<equiv> ''pass''"
abbreviation CleanupFailed :: string where "CleanupFailed \<equiv> ''failed''"
abbreviation CleanupNotRequired :: string where "CleanupNotRequired \<equiv> ''not_required''"
abbreviation v2CheckOutcomeExcluded :: string where "v2CheckOutcomeExcluded \<equiv> ''excluded''"
abbreviation v2ExecutionCompleted :: string where "v2ExecutionCompleted \<equiv> ''completed''"
abbreviation v2ExecutionNonzeroExit :: string where "v2ExecutionNonzeroExit \<equiv> ''nonzero_exit''"
abbreviation v2ExecutionOutputTruncated :: string where "v2ExecutionOutputTruncated \<equiv> ''output_truncated''"
abbreviation v2ExecutionOutputIncomplete :: string where "v2ExecutionOutputIncomplete \<equiv> ''output_incomplete''"
abbreviation v2ExecutionCleanupFailed :: string where "v2ExecutionCleanupFailed \<equiv> ''cleanup_failed''"
abbreviation v2ExecutionExcludedByPlan :: string where "v2ExecutionExcludedByPlan \<equiv> ''excluded_by_plan''"
abbreviation v2ExecutionNotRunPriorFailure :: string where "v2ExecutionNotRunPriorFailure \<equiv> ''not_run_due_to_prior_failure''"
abbreviation v2ExecutionTimeout :: string where "v2ExecutionTimeout \<equiv> ''timeout''"
abbreviation v2ExecutionCancelled :: string where "v2ExecutionCancelled \<equiv> ''cancelled''"
abbreviation v2ExecutionOutputOverflow :: string where "v2ExecutionOutputOverflow \<equiv> ''output_overflow''"

text \<open>\<open>jsonNumberToInteger\<close> on a \<open>json.Number\<close>: exact, integral, in \<open>int64\<close>.\<close>

definition jsonNumberToInteger :: "string \<Rightarrow> int option" where
  "jsonNumberToInteger v =
     (if v = '''' then None
      else case exactBigInt v of None \<Rightarrow> None | Some n \<Rightarrow> if isInt64 n then Some n else None)"

section \<open>Strict parse\<close>

record manifestReader =
  mr_readObject :: "string \<Rightarrow> string + (string \<times> json) list \<times> string"
  mr_strictDecode :: "(string \<times> json) list \<Rightarrow> string + parsedManifest"

text \<open>The map keeps the last member of each name; it is written again in the order of the names.\<close>

definition rawObject :: "(string \<times> json) list \<Rightarrow> (string \<times> json) list" where
  "rawObject ms =
     map (\<lambda>k. (k, the (map_of (rev ms) k))) (sort_slice (<) (dedup_by (\<lambda>k. k) [] (map fst ms)))"

text \<open>\<open>dec.More\<close> after the first value: there is a next byte and it is not a closing bracket.\<close>

definition jsonSpace :: "char \<Rightarrow> bool" where
  "jsonSpace c \<longleftrightarrow> c \<in> {CHR '' '', char_of (9 :: nat), nlChar, crChar}"

definition decMore :: "string \<Rightarrow> bool" where
  "decMore rest =
     (case dropWhile jsonSpace rest of [] \<Rightarrow> False | c # _ \<Rightarrow> c \<noteq> CHR '']'' \<and> c \<noteq> CHR ''}'')"

definition v2ManifestTopLevelAllowed :: "string \<Rightarrow> bool" where
  "v2ManifestTopLevelAllowed key \<longleftrightarrow>
     key \<in> {''closure_protocol_version'', ''plan_contract_version'', ''subject_commit'', ''subject_tree'',
            ''freeze_commit'', ''freeze_tree'', ''plan_path'', ''plan_blob'', ''plan_sha256'', ''execution_tree'',
            ''check_results'', ''leamas_binary_identity'', ''caller_head'', ''closure_commit''}"

text \<open>
  The order of a \<open>range\<close> over the map is not fixed; here it is the order of the names, and the
  verdict sorts its diagnostics.  \<open>toLower\<close> is \<open>strings.ToLower\<close>.
\<close>

definition strictDecodeCode :: "(string \<Rightarrow> string) \<Rightarrow> string \<Rightarrow> V2VerifierCode" where
  "strictDecodeCode toLower msg =
     (let lower = toLower msg
      in if containsStr ''unknown field'' lower \<or> containsStr ''cannot unmarshal'' lower \<or> containsStr ''invalid'' lower
         then V2VerifierClosureManifestContractInvalid else V2VerifierClosureManifestInvalidJSON)"

definition parseV2StrictManifest ::
  "(string \<Rightarrow> string) \<Rightarrow> (string \<Rightarrow> string) \<Rightarrow> manifestReader \<Rightarrow> string \<Rightarrow> V2VerifierDiagnostics + parsedManifest" where
  "parseV2StrictManifest quote toLower reader raw =
     (let trimmed = trimSpace raw; invalid = (\<lambda>m. Inl [NewV2VerifierDiagnostic V2VerifierClosureManifestInvalidJSON m])
      in if trimmed = '''' then invalid ''committed manifest bytes are whitespace-only''
         else if hd trimmed \<noteq> CHR ''{'' then invalid ''committed manifest must be a JSON object''
         else case mr_readObject reader trimmed of
           Inl err \<Rightarrow> invalid (''invalid committed manifest JSON: '' @ err)
         | Inr (ms, rest) \<Rightarrow>
             if decMore rest then invalid ''trailing non-whitespace tokens after top-level manifest object''
             else case mr_strictDecode reader (rawObject ms) of
               Inl msg \<Rightarrow> Inl [NewV2VerifierDiagnostic (strictDecodeCode toLower msg) msg]
             | Inr parsed \<Rightarrow>
                 let unknown = map (\<lambda>key. withProperty key (NewV2VerifierDiagnostic V2VerifierClosureManifestContractInvalid
                                 (''unknown top-level manifest field '' @ quote key)))
                               (filter (\<lambda>key. \<not> v2ManifestTopLevelAllowed key) (map fst (rawObject ms)));
                     protocol = (if pm_ClosureProtocolVersion parsed \<noteq> ''2'' then
                         [withObserved (pm_ClosureProtocolVersion parsed) (withExpected ''2''
                           (withProperty ''closure_protocol_version'' (NewV2VerifierDiagnostic
                             V2VerifierManifestProtocolVersionMismatch
                             (''manifest.closure_protocol_version must be 2, got '' @ quote (pm_ClosureProtocolVersion parsed)))))]
                       else []);
                     contract = (if pm_PlanContractVersion parsed \<noteq> ''1'' then
                         [withObserved (pm_PlanContractVersion parsed) (withExpected ''1''
                           (withProperty ''plan_contract_version'' (NewV2VerifierDiagnostic
                             V2VerifierManifestPlanContractVersionMismatch
                             (''manifest.plan_contract_version must be 1, got '' @ quote (pm_PlanContractVersion parsed)))))]
                       else []);
                     diags = unknown @ protocol @ contract
                 in if diags \<noteq> [] then Inl diags else Inr parsed)"

section \<open>Identity\<close>

definition v2FieldMismatch ::
  "(string \<Rightarrow> string) \<Rightarrow> V2VerifierCode \<Rightarrow> string \<Rightarrow> string \<Rightarrow> string \<Rightarrow> V2VerifierDiagnostic" where
  "v2FieldMismatch quote code field expected observed =
     withObserved observed (withExpected expected (withProperty field (NewV2VerifierDiagnostic code
       (field @ ''='' @ quote observed @ '' does not match authority '' @ quote expected))))"

definition verifyV2ManifestIdentityWithAnchor ::
  "(string \<Rightarrow> string) \<Rightarrow> parsedManifest \<Rightarrow> V2ClosureTopology \<Rightarrow> V2FrozenPlanAuthority \<Rightarrow> V2VerifierDiagnostics" where
  "verifyV2ManifestIdentityWithAnchor quote parsed anchor frozenPlan =
     (let anchored = (\<lambda>code field expected observed.
            if expected \<noteq> '''' \<and> observed \<noteq> expected
            then [withObjectOID expected (v2FieldMismatch quote code field expected observed)] else [])
      in anchored V2VerifierManifestSubjectMismatch ''subject_commit'' (ct_SubjectCommit anchor) (pm_SubjectCommit parsed)
       @ anchored V2VerifierManifestSubjectTreeMismatch ''subject_tree'' (ct_SubjectTree anchor) (pm_SubjectTree parsed)
       @ anchored V2VerifierManifestFreezeMismatch ''freeze_commit'' (ct_FreezeCommit anchor) (pm_FreezeCommit parsed)
       @ anchored V2VerifierManifestFreezeTreeMismatch ''freeze_tree'' (ct_FreezeTree anchor) (pm_FreezeTree parsed)
       @ anchored V2VerifierManifestExecutionTreeMismatch ''execution_tree'' (ct_SubjectTree anchor) (pm_ExecutionTree parsed)
       @ (if pm_PlanPath parsed \<noteq> ba_Path frozenPlan
          then [v2FieldMismatch quote V2VerifierManifestPlanPathMismatch ''plan_path'' (ba_Path frozenPlan) (pm_PlanPath parsed)]
          else [])
       @ (if pm_PlanBlob parsed \<noteq> ba_BlobOID frozenPlan
          then [withObjectOID (ba_BlobOID frozenPlan) (v2FieldMismatch quote V2VerifierManifestPlanBlobMismatch ''plan_blob''
                 (ba_BlobOID frozenPlan) (pm_PlanBlob parsed))]
          else [])
       @ (if pm_PlanSHA256 parsed \<noteq> ba_BlobSHA256 frozenPlan
          then [withObjectOID (ba_BlobOID frozenPlan) (v2FieldMismatch quote V2VerifierManifestPlanSHA256Mismatch ''plan_sha256''
                 (ba_BlobSHA256 frozenPlan) (pm_PlanSHA256 parsed))]
          else []))"

definition verifyV2ManifestBinaryIdentity :: "parsedBinaryIdentity \<Rightarrow> V2VerifierDiagnostics" where
  "verifyV2ManifestBinaryIdentity ident =
     (let diag = (\<lambda>m prop. (NewV2VerifierDiagnostic V2VerifierManifestBinaryIdentityInvalid m)\<lparr>vd_PropertyName := prop\<rparr>)
      in (if trimSpace (pb_Path ident) = '''' then [diag ''binary path is empty'' ''leamas_binary_identity.path''] else [])
       @ (if \<not> sha256Pattern (pb_SHA256 ident)
          then [(diag ''binary SHA-256 must be 64 lowercase hexadecimal characters'' ''leamas_binary_identity.sha256'')
                  \<lparr>vd_Observed := pb_SHA256 ident\<rparr>] else [])
       @ (if \<not> sha1Pattern (pb_VCSRevision ident)
          then [(diag ''binary VCS revision must be a full 40-character lowercase Git OID'' ''leamas_binary_identity.vcs_revision'')
                  \<lparr>vd_Observed := pb_VCSRevision ident\<rparr>] else [])
       @ (if pb_VCSModified ident
          then [(diag ''binary VCS modified must be false for committed manifest assertions'' ''leamas_binary_identity.vcs_modified'')
                  \<lparr>vd_Observed := ''true''\<rparr>] else [])
       @ (if trimSpace (pb_LeamasVersion ident) = ''''
          then [diag ''binary Leamas version must be nonempty'' ''leamas_binary_identity.leamas_version''] else []))"

section \<open>Frozen plan inventory\<close>

definition planCheckLess :: "PlanCheck \<Rightarrow> PlanCheck \<Rightarrow> bool" where
  "planCheckLess a b = (pc_ID a < pc_ID b)"

interpretation plan_order: keyed_less planCheckLess pc_ID
  by unfold_locales (simp add: planCheckLess_def)

definition verifyV2FrozenPlanInventory ::
  "(string \<Rightarrow> string + PlanCheck list) \<Rightarrow> string \<Rightarrow> V2VerifierDiagnostics + PlanCheck list" where
  "verifyV2FrozenPlanInventory decodePlan rawPlan =
     (if rawPlan = '''' then Inl [NewV2VerifierDiagnostic V2VerifierFrozenPlanInvalid ''frozen plan bytes are empty'']
      else case decodePlan rawPlan of
        Inl err \<Rightarrow> Inl [(NewV2VerifierDiagnostic V2VerifierFrozenPlanInvalid
                     (''frozen plan did not parse via the production contract: '' @ err))
                     \<lparr>vd_ObjectPath := ''plan_bytes'', vd_Detail := err\<rparr>]
      | Inr checks \<Rightarrow> Inr (sort_slice planCheckLess checks))"

section \<open>Bijection\<close>

text \<open>Maps filled in a loop: the last entry of a key wins.\<close>

definition planByID :: "PlanCheck list \<Rightarrow> string \<Rightarrow> PlanCheck option" where
  "planByID checks = map_of (rev (map (\<lambda>p. (pc_ID p, p)) checks))"

definition planOrder :: "PlanCheck list \<Rightarrow> string \<Rightarrow> nat" where
  "planOrder checks k =
     (case map_of (rev (zip (map pc_ID checks) [0..<length checks])) k of Some i \<Rightarrow> i | None \<Rightarrow> 0)"

definition resultDiag :: "V2VerifierCode \<Rightarrow> string \<Rightarrow> string \<Rightarrow> V2VerifierDiagnostic" where
  "resultDiag code key message = (NewV2VerifierDiagnostic code message)\<lparr>vd_ObjectOID := key\<rparr>"

definition mapEvidence ::
  "(string \<Rightarrow> string) \<Rightarrow> string \<Rightarrow> parsedEvidence \<Rightarrow> V2VerifierDiagnostic + V2EvidenceReference" where
  "mapEvidence quote key e =
     (case jsonNumberToInteger (pe_ByteCount e) of
        None \<Rightarrow> Inl (resultDiag V2VerifierManifestCheckResultsInvalid key
                 (''manifest check_results['' @ quote key @ ''].evidence['' @ quote (pe_LogicalName e) @
                  ''].byte_count is not an integer''))
      | Some n \<Rightarrow> Inr \<lparr>er_LogicalName = pe_LogicalName e, er_MediaType = pe_MediaType e, er_SHA256 = pe_SHA256 e,
                       er_ByteCount = n, er_Availability = pe_Availability e\<rparr>)"

text \<open>The exclude-mode invariants: the first one that is broken.\<close>

definition excludeViolation ::
  "(string \<Rightarrow> string) \<Rightarrow> parsedCheckResult \<Rightarrow> int \<Rightarrow> V2VerifierDiagnostic option" where
  "excludeViolation quote r duration =
     (let key = pr_ID r; invalid = (\<lambda>m. Some (resultDiag V2VerifierManifestCheckResultsInvalid key m));
          at = ''exclude check_results['' @ quote key @ '']''
      in if pr_Outcome r \<noteq> v2CheckOutcomeExcluded
         then invalid (at @ ''.outcome='' @ quote (pr_Outcome r) @ '' must be '' @ quote v2CheckOutcomeExcluded)
         else if pr_ExitCode r \<noteq> None then invalid (at @ '' must not carry an exit_code'')
         else if duration \<noteq> 0 then invalid (at @ ''.duration_ms must be 0'')
         else if pr_ExecutionClassification r \<noteq> v2ExecutionExcludedByPlan
         then invalid (at @ ''.execution_classification='' @ quote (pr_ExecutionClassification r) @ '' must be '' @
                quote v2ExecutionExcludedByPlan)
         else if pr_CleanupStatus r \<noteq> CleanupNotRequired
         then invalid (at @ ''.cleanup_status='' @ quote (pr_CleanupStatus r) @ '' must be '' @ quote CleanupNotRequired)
         else None)"

text \<open>One round of the loop over the results, without the update of \<open>seen\<close>.\<close>

definition mapManifestResult ::
  "(string \<Rightarrow> string) \<Rightarrow> (string \<Rightarrow> PlanCheck option) \<Rightarrow> string list \<Rightarrow> parsedCheckResult \<Rightarrow>
   V2VerifierDiagnostic + V2CheckResult" where
  "mapManifestResult quote byID seen r =
     (let key = pr_ID r; at = ''manifest check_results['' @ quote key @ '']'';
          invalid = (\<lambda>m. resultDiag V2VerifierManifestCheckResultsInvalid key m);
          failed = (\<lambda>m. resultDiag V2VerifierManifestCheckResultBijectionFailed key m)
      in if key \<in> set seen then Inl (failed (''duplicate manifest check_results entry '' @ quote key))
      else case byID key of
        None \<Rightarrow> Inl (resultDiag V2VerifierManifestUnknownCheckID key
                 (''manifest check_results entry '' @ quote key @ '' is not in the frozen plan''))
      | Some plan \<Rightarrow>
        if pr_Mode r \<noteq> pc_Mode plan then
          Inl ((failed (at @ ''.mode='' @ quote (pr_Mode r) @ '' does not match plan mode '' @ quote (pc_Mode plan)))
                 \<lparr>vd_Expected := pc_Mode plan, vd_Observed := pr_Mode r\<rparr>)
        else if pr_Mode r \<noteq> CheckModeRun \<and> pr_Mode r \<noteq> CheckModeExclude then
          Inl (failed (at @ ''.mode='' @ quote (pr_Mode r) @ '' is not in {run,exclude}''))
        else if pr_Outcome r = '''' then Inl (invalid (at @ ''.outcome is empty''))
        else case jsonNumberToInteger (pr_DurationMS r) of
          None \<Rightarrow> Inl (invalid (at @ ''.duration_ms is not an integer''))
        | Some duration \<Rightarrow>
          if duration < 0 then Inl (invalid (at @ ''.duration_ms is negative''))
          else if pr_ExecutionClassification r = '''' then Inl (invalid (at @ ''.execution_classification is empty''))
          else if pr_CleanupStatus r = '''' then Inl (invalid (at @ ''.cleanup_status is empty''))
          else case (if pr_Mode r = CheckModeExclude then excludeViolation quote r duration else None) of
            Some diag \<Rightarrow> Inl diag
          | None \<Rightarrow>
              bindE (case pr_ExitCode r of
                       None \<Rightarrow> Inr None
                     | Some n \<Rightarrow> (case jsonNumberToInteger n of
                         None \<Rightarrow> Inl (invalid (at @ ''.exit_code is not an integer'')) | Some v \<Rightarrow> Inr (Some v)))
              (\<lambda>exitCode. bindE (traverse (mapEvidence quote key) (pr_Evidence r))
              (\<lambda>refs. Inr \<lparr>vr_ID = key, vr_Mode = pr_Mode r, vr_Outcome = pr_Outcome r, vr_ExitCode = exitCode,
                           vr_DurationMS = duration, vr_ExecutionClassification = pr_ExecutionClassification r,
                           vr_CleanupStatus = pr_CleanupStatus r, vr_Evidence = refs, vr_Detail = pr_Detail r\<rparr>)))"

fun bijectionLoop ::
  "(string \<Rightarrow> string) \<Rightarrow> (string \<Rightarrow> PlanCheck option) \<Rightarrow> string list \<Rightarrow> parsedCheckResult list \<Rightarrow>
   V2VerifierDiagnostic + V2CheckResult list" where
  "bijectionLoop quote byID seen [] = Inr []"
| "bijectionLoop quote byID seen (r # rs) =
     bindE (mapManifestResult quote byID seen r)
     (\<lambda>entry. bindE (bijectionLoop quote byID (pr_ID r # seen) rs) (\<lambda>entries. Inr (entry # entries)))"

definition mappedLess :: "PlanCheck list \<Rightarrow> V2CheckResult \<Rightarrow> V2CheckResult \<Rightarrow> bool" where
  "mappedLess checks a b = (planOrder checks (vr_ID a) < planOrder checks (vr_ID b))"

definition verifyV2ManifestCheckBijection ::
  "(string \<Rightarrow> string) \<Rightarrow> PlanCheck list \<Rightarrow> parsedCheckResult list \<Rightarrow> bool \<times> V2CheckResult list \<times> V2VerifierDiagnostics" where
  "verifyV2ManifestCheckBijection quote planChecks parsedResults =
     (if planChecks = [] then
        (False, [], [NewV2VerifierDiagnostic V2VerifierManifestCheckResultsInvalid ''frozen plan contains no checks''])
      else if length parsedResults \<noteq> length planChecks then
        (False, [], [NewV2VerifierDiagnostic V2VerifierManifestCheckResultBijectionFailed
           (''manifest check_results length '' @ itoa (int (length parsedResults)) @
            '' does not match plan checks length '' @ itoa (int (length planChecks)))])
      else case bijectionLoop quote (planByID planChecks) [] parsedResults of
        Inl diag \<Rightarrow> (False, [], [diag])
      | Inr mapped \<Rightarrow> (True, sort_slice (mappedLess planChecks) mapped, []))"

section \<open>Run success\<close>

definition planMode :: "PlanCheck list \<Rightarrow> string \<Rightarrow> string" where
  "planMode checks k = (case planByID checks k of Some p \<Rightarrow> pc_Mode p | None \<Rightarrow> '''')"

definition runModeDiags :: "(string \<Rightarrow> string) \<Rightarrow> V2CheckResult \<Rightarrow> V2VerifierDiagnostics" where
  "runModeDiags quote r =
     (let key = vr_ID r; check = ''run-mode check '' @ quote key;
          unsuccessful = (\<lambda>m. resultDiag V2VerifierManifestUnsuccessfulRun key m);
          invalid = (\<lambda>m. resultDiag V2VerifierManifestCheckResultsInvalid key m)
      in if vr_Outcome r = CheckStatusFail then [unsuccessful (check @ '' has outcome '' @ quote CheckStatusFail)]
         else if vr_Outcome r \<noteq> CheckStatusPass then [invalid (check @ '' has non-success outcome '' @ quote (vr_Outcome r))]
         else if vr_CleanupStatus r = CleanupFailed then [unsuccessful (check @ '' has cleanup_status='' @ quote CleanupFailed)]
         else if vr_CleanupStatus r \<noteq> CleanupPass then
           [invalid (check @ '' has unexpected cleanup_status='' @ quote (vr_CleanupStatus r))]
         else
           (if vr_ExecutionClassification r \<in> {v2ExecutionTimeout, v2ExecutionCancelled, v2ExecutionOutputOverflow,
                 v2ExecutionOutputTruncated, v2ExecutionOutputIncomplete}
            then [unsuccessful (check @ '' has execution_classification='' @ quote (vr_ExecutionClassification r) @
                    '' classified as success'')] else [])
           @ (case vr_ExitCode r of
                None \<Rightarrow> [invalid (check @ '' has no exit_code'')]
              | Some n \<Rightarrow> if n \<noteq> 0 then [unsuccessful (check @ '' has non-zero exit_code '' @ itoa n)] else []))"

definition successDiags :: "(string \<Rightarrow> string) \<Rightarrow> (string \<Rightarrow> string) \<Rightarrow> V2CheckResult \<Rightarrow> V2VerifierDiagnostics" where
  "successDiags quote modeOf r =
     (let key = vr_ID r; mode = modeOf key
      in if mode = CheckModeRun then runModeDiags quote r
         else if mode = CheckModeExclude then
           (if vr_Outcome r \<noteq> v2CheckOutcomeExcluded
            then [resultDiag V2VerifierManifestCheckResultsInvalid key
                   (''exclude-mode check '' @ quote key @ '' has non-excluded outcome '' @ quote (vr_Outcome r))]
            else [])
         else [resultDiag V2VerifierManifestCheckResultsInvalid key
                (''check '' @ quote key @ '' has unknown plan mode '' @ quote mode)])"

definition verifyV2ManifestRunSuccessIntegrity ::
  "(string \<Rightarrow> string) \<Rightarrow> PlanCheck list \<Rightarrow> V2CheckResult list \<Rightarrow> bool \<times> V2VerifierDiagnostics" where
  "verifyV2ManifestRunSuccessIntegrity quote planChecks mapped =
     (let diags = concat (map (successDiags quote (planMode planChecks)) mapped) in (diags = [], diags))"

section \<open>The pipeline\<close>

definition VerifyManifestIdentity ::
  "(string \<Rightarrow> string) \<Rightarrow> (string \<Rightarrow> string) \<Rightarrow> manifestReader \<Rightarrow> (string \<Rightarrow> string + PlanCheck list) \<Rightarrow>
   string \<Rightarrow> V2FrozenPlanAuthority \<Rightarrow> V2CommittedManifestAuthority \<Rightarrow> V2ClosureTopology \<Rightarrow>
   V2ManifestIdentityFacts \<times> V2VerifierError option" where
  "VerifyManifestIdentity quote toLower reader decodePlan rawManifest frozenPlan committedManifest topology =
     (if rawManifest = '''' then
        (zeroFacts\<lparr>mf_Diagnostics := [NewV2VerifierDiagnostic V2VerifierClosureManifestInvalidJSON
           ''committed manifest bytes are empty'']\<rparr>, None)
      else if ba_Diagnostics frozenPlan \<noteq> [] then (zeroFacts\<lparr>mf_Diagnostics := ba_Diagnostics frozenPlan\<rparr>, None)
      else if ba_Diagnostics committedManifest \<noteq> [] then (zeroFacts\<lparr>mf_Diagnostics := ba_Diagnostics committedManifest\<rparr>, None)
      else if ct_SubjectCommit topology = '''' \<or> ct_SubjectTree topology = '''' \<or> ct_FreezeCommit topology = '''' \<or>
              ct_FreezeTree topology = '''' then
        (zeroFacts, Some (NewV2VerifierError (NewV2VerifierDiagnostic V2VerifierClosureManifestContractInvalid
           ''topology anchor is required for manifest identity verification'')))
      else
      (case parseV2StrictManifest quote toLower reader rawManifest of
        Inl diags \<Rightarrow> zeroFacts\<lparr>mf_Diagnostics := diags\<rparr>
      | Inr parsed \<Rightarrow>
        let identityDiags = verifyV2ManifestIdentityWithAnchor quote parsed topology frozenPlan in
        if identityDiags \<noteq> [] then zeroFacts\<lparr>mf_Diagnostics := identityDiags\<rparr>
        else
        let binaryDiags = verifyV2ManifestBinaryIdentity (pm_LeamasBinaryIdentity parsed) in
        (case verifyV2FrozenPlanInventory decodePlan (ba_RawBytes frozenPlan) of
          Inl inventoryDiags \<Rightarrow>
            zeroFacts\<lparr>mf_BinaryIdentityValid := (binaryDiags = []), mf_Diagnostics := binaryDiags @ inventoryDiags\<rparr>
        | Inr planChecks \<Rightarrow>
            let (bijectionValid, mapped, bijectDiags) = verifyV2ManifestCheckBijection quote planChecks (pm_CheckResults parsed);
                (successValid, sDiags) = verifyV2ManifestRunSuccessIntegrity quote planChecks mapped
            in \<lparr>mf_ManifestIdentityValid = True, mf_BinaryIdentityValid = (binaryDiags = []), mf_BijectionValid = bijectionValid,
                mf_SuccessValid = successValid, mf_PlanChecks = planChecks, mf_MappedResults = mapped,
                mf_Diagnostics = binaryDiags @ bijectDiags @ sDiags\<rparr>),
       None))"

section \<open>What the bijection accepts\<close>

definition excludedCleanly :: "parsedCheckResult \<Rightarrow> bool" where
  "excludedCleanly r \<longleftrightarrow>
     pr_Outcome r = v2CheckOutcomeExcluded \<and> pr_ExitCode r = None \<and> jsonNumberToInteger (pr_DurationMS r) = Some 0 \<and>
     pr_ExecutionClassification r = v2ExecutionExcludedByPlan \<and> pr_CleanupStatus r = CleanupNotRequired"

definition resultWellFormed :: "(string \<Rightarrow> PlanCheck option) \<Rightarrow> parsedCheckResult \<Rightarrow> bool" where
  "resultWellFormed byID r \<longleftrightarrow>
     map_option pc_Mode (byID (pr_ID r)) = Some (pr_Mode r) \<and> pr_Mode r \<in> {CheckModeRun, CheckModeExclude} \<and>
     pr_Outcome r \<noteq> '''' \<and> (\<exists>d. jsonNumberToInteger (pr_DurationMS r) = Some d \<and> 0 \<le> d) \<and>
     pr_ExecutionClassification r \<noteq> '''' \<and> pr_CleanupStatus r \<noteq> '''' \<and>
     (pr_Mode r = CheckModeExclude \<longrightarrow> excludedCleanly r) \<and>
     (\<forall>n. pr_ExitCode r = Some n \<longrightarrow> jsonNumberToInteger n \<noteq> None) \<and>
     (\<forall>e\<in>set (pr_Evidence r). jsonNumberToInteger (pe_ByteCount e) \<noteq> None)"

definition mappedResult :: "parsedCheckResult \<Rightarrow> V2CheckResult" where
  "mappedResult r =
     \<lparr>vr_ID = pr_ID r, vr_Mode = pr_Mode r, vr_Outcome = pr_Outcome r,
      vr_ExitCode = map_option (\<lambda>n. the (jsonNumberToInteger n)) (pr_ExitCode r),
      vr_DurationMS = the (jsonNumberToInteger (pr_DurationMS r)),
      vr_ExecutionClassification = pr_ExecutionClassification r, vr_CleanupStatus = pr_CleanupStatus r,
      vr_Evidence = map (\<lambda>e. \<lparr>er_LogicalName = pe_LogicalName e, er_MediaType = pe_MediaType e, er_SHA256 = pe_SHA256 e,
         er_ByteCount = the (jsonNumberToInteger (pe_ByteCount e)), er_Availability = pe_Availability e\<rparr>) (pr_Evidence r),
      vr_Detail = pr_Detail r\<rparr>"

lemma mode_clash: "CheckModeRun = m \<Longrightarrow> CheckModeExclude = m \<Longrightarrow> P"
  by auto

lemma excludeViolation_None:
  "excludeViolation quote r d = None \<longleftrightarrow>
     pr_Outcome r = v2CheckOutcomeExcluded \<and> pr_ExitCode r = None \<and> d = 0 \<and>
     pr_ExecutionClassification r = v2ExecutionExcludedByPlan \<and> pr_CleanupStatus r = CleanupNotRequired"
  by (simp add: excludeViolation_def Let_def)

lemma excludeViolation_Some:
  "excludeViolation quote r d = Some x \<Longrightarrow>
     \<not> (pr_Outcome r = v2CheckOutcomeExcluded \<and> pr_ExitCode r = None \<and> d = 0 \<and>
     pr_ExecutionClassification r = v2ExecutionExcludedByPlan \<and> pr_CleanupStatus r = CleanupNotRequired)"
  using excludeViolation_None [of quote r d] by auto

lemma traverse_mapEvidence:
  "traverse (mapEvidence quote key) es =
     (if \<forall>e\<in>set es. jsonNumberToInteger (pe_ByteCount e) \<noteq> None
      then Inr (map (\<lambda>e. \<lparr>er_LogicalName = pe_LogicalName e, er_MediaType = pe_MediaType e, er_SHA256 = pe_SHA256 e,
         er_ByteCount = the (jsonNumberToInteger (pe_ByteCount e)), er_Availability = pe_Availability e\<rparr>) es)
      else traverse (mapEvidence quote key) es)"
  by (auto intro!: traverse_total simp: mapEvidence_def)

lemma mapManifestResult_Inr:
  "mapManifestResult quote byID seen r = Inr e \<longleftrightarrow>
     pr_ID r \<notin> set seen \<and> resultWellFormed byID r \<and> e = mappedResult r"
proof -
  have ev: "traverse (mapEvidence quote key) es = Inr refs \<longleftrightarrow>
     (\<forall>e\<in>set es. jsonNumberToInteger (pe_ByteCount e) \<noteq> None) \<and>
     refs = map (\<lambda>e. \<lparr>er_LogicalName = pe_LogicalName e, er_MediaType = pe_MediaType e, er_SHA256 = pe_SHA256 e,
         er_ByteCount = the (jsonNumberToInteger (pe_ByteCount e)), er_Availability = pe_Availability e\<rparr>) es" for key es refs
  proof (cases "\<forall>e\<in>set es. jsonNumberToInteger (pe_ByteCount e) \<noteq> None")
    case False
    then have "traverse (mapEvidence quote key) es \<noteq> Inr refs"
      using traverse_mem_input [of "mapEvidence quote key" es refs] by (fastforce simp: mapEvidence_def)
    with False show ?thesis
      by simp
  qed (auto simp: traverse_mapEvidence [of _ _ es])
  show ?thesis
    by (auto simp: mapManifestResult_def resultWellFormed_def mappedResult_def excludedCleanly_def Let_def bindE_eq_Inr
        ev excludeViolation_None split: option.splits if_splits)
       (auto dest!: excludeViolation_Some elim: mode_clash)
qed

lemma bijectionLoop_Inr:
  "bijectionLoop quote byID seen rs = Inr es \<longleftrightarrow>
     distinct (map pr_ID rs) \<and> set (map pr_ID rs) \<inter> set seen = {} \<and> list_all (resultWellFormed byID) rs \<and>
     es = map mappedResult rs"
  by (induction rs arbitrary: seen es) (auto simp: bindE_eq_Inr mapManifestResult_Inr)

text \<open>The lookups of a plan whose check names are distinct.\<close>

lemma planByID_distinct:
  "distinct (map pc_ID checks) \<Longrightarrow> planByID checks k = Some p \<longleftrightarrow> p \<in> set checks \<and> pc_ID p = k"
  by (auto simp: planByID_def map_of_eq_Some_iff rev_map [symmetric] o_def)

lemma planByID_dom: "planByID checks k \<noteq> None \<longleftrightarrow> k \<in> set (map pc_ID checks)"
  by (force simp: planByID_def map_of_eq_None_iff)

lemma planOrder_nth: "distinct (map pc_ID checks) \<Longrightarrow> i < length checks \<Longrightarrow> planOrder checks (pc_ID (checks ! i)) = i"
proof -
  assume d: "distinct (map pc_ID checks)" and i: "i < length checks"
  let ?zs = "zip (map pc_ID checks) [0..<length checks]"
  have "distinct (map fst (rev ?zs))"
    using d by (simp add: rev_map [symmetric])
  moreover have "(pc_ID (checks ! i), i) \<in> set (rev ?zs)"
    using i by (force simp: in_set_zip)
  ultimately have "map_of (rev ?zs) (pc_ID (checks ! i)) = Some i"
    by (rule map_of_is_SomeI)
  then show ?thesis
    by (simp add: planOrder_def)
qed

lemma planOrder_inj:
  assumes "distinct (map pc_ID checks)"
  shows "inj_on (planOrder checks) (pc_ID ` set checks)"
  using assms by (auto simp: inj_on_def in_set_conv_nth planOrder_nth)

lemma planOrder_sorted: "distinct (map pc_ID checks) \<Longrightarrow> map (planOrder checks) (map pc_ID checks) = [0..<length checks]"
  by (rule nth_equalityI) (simp_all add: planOrder_nth)

lemma mapped_order: "keyed_less (mappedLess checks) (\<lambda>r. planOrder checks (vr_ID r))"
  by unfold_locales (simp add: mappedLess_def)

text \<open>Sorted by plan order, results with exactly the names of the plan come in the order of the plan.\<close>

lemma mapped_in_plan_order:
  assumes "distinct (map pc_ID checks)" and "mset (map vr_ID mapped) = mset (map pc_ID checks)"
  shows "map vr_ID (sort_slice (mappedLess checks) mapped) = map pc_ID checks"
proof -
  let ?s = "sort_slice (mappedLess checks) mapped"
  have ms: "mset (map vr_ID ?s) = mset (map pc_ID checks)"
    using assms(2) by simp
  then have sets: "set (map vr_ID ?s) = set (map pc_ID checks)"
    by (metis set_mset_mset)
  have "sorted (map (planOrder checks) (map vr_ID ?s))"
    using keyed_less.sort_slice_keys_sorted [OF mapped_order, of checks mapped] by (simp add: o_def)
  moreover have "mset (map (planOrder checks) (map vr_ID ?s)) = mset (map (planOrder checks) (map pc_ID checks))"
    using ms by (simp only: mset_map)
  moreover have "sorted (map (planOrder checks) (map pc_ID checks))"
    by (subst planOrder_sorted [OF assms(1)]) simp
  ultimately have "map (planOrder checks) (map vr_ID ?s) = map (planOrder checks) (map pc_ID checks)"
    by (metis properties_for_sort)
  then show ?thesis
    by (rule map_inj_on) (use planOrder_inj [OF assms(1)] sets in \<open>simp add: inj_on_def\<close>)
qed

definition resultsBiject :: "PlanCheck list \<Rightarrow> parsedCheckResult list \<Rightarrow> bool" where
  "resultsBiject checks results \<longleftrightarrow>
     checks \<noteq> [] \<and> mset (map pr_ID results) = mset (map pc_ID checks) \<and>
     list_all (resultWellFormed (planByID checks)) results"

lemma bijection_iff:
  assumes "distinct (map pc_ID checks)"
  shows "fst (verifyV2ManifestCheckBijection quote checks results) \<longleftrightarrow> resultsBiject checks results"
proof -
  have "mset (map pr_ID results) = mset (map pc_ID checks)"
    if len: "length results = length checks" and d: "distinct (map pr_ID results)"
      and wf: "list_all (resultWellFormed (planByID checks)) results"
  proof -
    have "set (map pr_ID results) \<subseteq> set (map pc_ID checks)"
    proof (clarsimp)
      fix r assume "r \<in> set results"
      with wf have "planByID checks (pr_ID r) \<noteq> None"
        by (auto simp: list_all_iff resultWellFormed_def)
      then show "pr_ID r \<in> pc_ID ` set checks"
        using planByID_dom [of checks "pr_ID r"] by simp
    qed
    then have "set (map pr_ID results) = set (map pc_ID checks)"
      using len d assms by (metis List.finite_set card_subset_eq distinct_card length_map)
    then show ?thesis
      using d assms by (metis set_eq_iff_mset_eq_distinct)
  qed
  moreover have "distinct (map pr_ID results)" "length results = length checks"
    if "mset (map pr_ID results) = mset (map pc_ID checks)"
    using that assms by (metis mset_eq_imp_distinct_iff, metis length_map size_mset)
  ultimately show ?thesis
    by (auto simp: verifyV2ManifestCheckBijection_def resultsBiject_def bijectionLoop_Inr split: sum.splits)
       (metis bijectionLoop_Inr empty_set inf_bot_right sum.distinct(1))
qed

lemma bijection_failed:
  "\<not> fst (verifyV2ManifestCheckBijection quote checks results) \<Longrightarrow>
   snd (snd (verifyV2ManifestCheckBijection quote checks results)) \<noteq> []"
  by (auto simp: verifyV2ManifestCheckBijection_def split: sum.splits if_splits)

lemma bijection_mapped:
  assumes "distinct (map pc_ID checks)" and "fst (verifyV2ManifestCheckBijection quote checks results)"
  shows "verifyV2ManifestCheckBijection quote checks results =
      (True, sort_slice (mappedLess checks) (map mappedResult results), [])"
    and "map vr_ID (fst (snd (verifyV2ManifestCheckBijection quote checks results))) = map pc_ID checks"
proof -
  show eq: "verifyV2ManifestCheckBijection quote checks results =
      (True, sort_slice (mappedLess checks) (map mappedResult results), [])"
    using assms(2) bijectionLoop_Inr [of quote "planByID checks" "[]" results]
    by (auto simp: verifyV2ManifestCheckBijection_def split: sum.splits if_splits)
  have "mset (map pr_ID results) = mset (map pc_ID checks)"
    using assms bijection_iff resultsBiject_def by blast
  moreover have "map vr_ID (map mappedResult results) = map pr_ID results"
    by (simp add: mappedResult_def)
  ultimately have "mset (map vr_ID (map mappedResult results)) = mset (map pc_ID checks)"
    by (simp only:)
  from mapped_in_plan_order [OF assms(1) this]
  show "map vr_ID (fst (snd (verifyV2ManifestCheckBijection quote checks results))) = map pc_ID checks"
    by (simp add: eq)
qed

section \<open>What the verifier accepts\<close>

definition ranCleanly :: "V2CheckResult \<Rightarrow> bool" where
  "ranCleanly r \<longleftrightarrow>
     vr_Outcome r = CheckStatusPass \<and> vr_CleanupStatus r = CleanupPass \<and> vr_ExitCode r = Some 0 \<and>
     vr_ExecutionClassification r \<notin> {v2ExecutionTimeout, v2ExecutionCancelled, v2ExecutionOutputOverflow,
       v2ExecutionOutputTruncated, v2ExecutionOutputIncomplete}"

lemma runModeDiags_Nil: "runModeDiags quote r = [] \<longleftrightarrow> ranCleanly r"
  by (auto simp: runModeDiags_def ranCleanly_def Let_def split: option.splits)

lemma successDiags_Nil:
  "successDiags quote modeOf r = [] \<longleftrightarrow>
     (modeOf (vr_ID r) = CheckModeRun \<and> ranCleanly r) \<or>
     (modeOf (vr_ID r) = CheckModeExclude \<and> vr_Outcome r = v2CheckOutcomeExcluded)"
  by (simp add: successDiags_def Let_def runModeDiags_Nil)

definition runsSucceed :: "parsedCheckResult list \<Rightarrow> bool" where
  "runsSucceed results \<longleftrightarrow> list_all (\<lambda>r. pr_Mode r = CheckModeRun \<longrightarrow> ranCleanly (mappedResult r)) results"

lemma success_iff:
  assumes "list_all (resultWellFormed (planByID checks)) results"
  shows "snd (verifyV2ManifestRunSuccessIntegrity quote checks (sort_slice lt (map mappedResult results))) = [] \<longleftrightarrow>
    runsSucceed results"
proof -
  have "successDiags quote (planMode checks) (mappedResult r) = [] \<longleftrightarrow>
      (pr_Mode r = CheckModeRun \<longrightarrow> ranCleanly (mappedResult r))" if "r \<in> set results" for r
  proof -
    have wf: "resultWellFormed (planByID checks) r"
      using that assms by (simp add: list_all_iff)
    then have "planMode checks (vr_ID (mappedResult r)) = pr_Mode r"
      by (auto simp: resultWellFormed_def planMode_def mappedResult_def)
    then show ?thesis
      using wf by (auto simp: successDiags_Nil resultWellFormed_def excludedCleanly_def mappedResult_def)
  qed
  then show ?thesis
    by (auto simp: verifyV2ManifestRunSuccessIntegrity_def runsSucceed_def list_all_iff Let_def)
qed

definition binaryIdentified :: "parsedBinaryIdentity \<Rightarrow> bool" where
  "binaryIdentified b \<longleftrightarrow>
     trimSpace (pb_Path b) \<noteq> '''' \<and> sha256Pattern (pb_SHA256 b) \<and> sha1Pattern (pb_VCSRevision b) \<and>
     \<not> pb_VCSModified b \<and> trimSpace (pb_LeamasVersion b) \<noteq> ''''"

lemma binaryIdentity_Nil: "verifyV2ManifestBinaryIdentity b = [] \<longleftrightarrow> binaryIdentified b"
  by (simp add: verifyV2ManifestBinaryIdentity_def binaryIdentified_def Let_def)

definition identityBound :: "parsedManifest \<Rightarrow> V2ClosureTopology \<Rightarrow> V2FrozenPlanAuthority \<Rightarrow> bool" where
  "identityBound m t plan \<longleftrightarrow>
     pm_SubjectCommit m = ct_SubjectCommit t \<and> pm_SubjectTree m = ct_SubjectTree t \<and>
     pm_FreezeCommit m = ct_FreezeCommit t \<and> pm_FreezeTree m = ct_FreezeTree t \<and>
     pm_ExecutionTree m = ct_SubjectTree t \<and> pm_PlanPath m = ba_Path plan \<and>
     pm_PlanBlob m = ba_BlobOID plan \<and> pm_PlanSHA256 m = ba_BlobSHA256 plan"

definition anchored :: "V2ClosureTopology \<Rightarrow> bool" where
  "anchored t \<longleftrightarrow>
     ct_SubjectCommit t \<noteq> '''' \<and> ct_SubjectTree t \<noteq> '''' \<and> ct_FreezeCommit t \<noteq> '''' \<and> ct_FreezeTree t \<noteq> ''''"

lemma identity_Nil:
  "anchored t \<Longrightarrow> verifyV2ManifestIdentityWithAnchor quote m t plan = [] \<longleftrightarrow> identityBound m t plan"
  by (auto simp: verifyV2ManifestIdentityWithAnchor_def identityBound_def anchored_def Let_def)

definition factsValid :: "V2ManifestIdentityFacts \<Rightarrow> bool" where
  "factsValid f \<longleftrightarrow>
     mf_ManifestIdentityValid f \<and> mf_BinaryIdentityValid f \<and> mf_BijectionValid f \<and> mf_SuccessValid f \<and>
     mf_Diagnostics f = []"

lemma resultsBiject_sorted:
  assumes "distinct (map pc_ID checks)"
  shows "resultsBiject (sort_slice planCheckLess checks) results \<longleftrightarrow> resultsBiject checks results"
proof -
  have ms: "mset (map pc_ID (sort_slice planCheckLess checks)) = mset (map pc_ID checks)"
    by simp
  have "distinct (map pc_ID (sort_slice planCheckLess checks))"
    using assms ms mset_eq_imp_distinct_iff by blast
  then have "planByID (sort_slice planCheckLess checks) k = Some p \<longleftrightarrow> planByID checks k = Some p" for k p
    using assms by (simp add: planByID_distinct)
  then have "planByID (sort_slice planCheckLess checks) = planByID checks"
    by (intro ext) (metis not_Some_eq)
  moreover have "sort_slice planCheckLess checks = [] \<longleftrightarrow> checks = []"
    by (metis length_0_conv length_sort_slice)
  ultimately show ?thesis
    using ms by (simp only: resultsBiject_def)
qed

lemma VerifyManifestIdentity_verified:
  assumes "parseV2StrictManifest quote toLower reader raw = Inr m" and "identityBound m t plan" and "anchored t"
    and "raw \<noteq> ''''" "ba_Diagnostics plan = []" "ba_Diagnostics committed = []"
    and "verifyV2FrozenPlanInventory decodePlan (ba_RawBytes plan) = Inr checks"
    and "distinct (map pc_ID checks)"
  shows "factsValid (fst (VerifyManifestIdentity quote toLower reader decodePlan raw plan committed t)) \<longleftrightarrow>
    binaryIdentified (pm_LeamasBinaryIdentity m) \<and> resultsBiject checks (pm_CheckResults m) \<and> runsSucceed (pm_CheckResults m)"
    (is "factsValid (fst ?v) \<longleftrightarrow> _")
proof -
  let ?b = "verifyV2ManifestCheckBijection quote checks (pm_CheckResults m)"
  let ?s = "verifyV2ManifestRunSuccessIntegrity quote checks (fst (snd ?b))"
  have "fst ?v = \<lparr>mf_ManifestIdentityValid = True,
      mf_BinaryIdentityValid = (verifyV2ManifestBinaryIdentity (pm_LeamasBinaryIdentity m) = []),
      mf_BijectionValid = fst ?b, mf_SuccessValid = fst ?s, mf_PlanChecks = checks, mf_MappedResults = fst (snd ?b),
      mf_Diagnostics = verifyV2ManifestBinaryIdentity (pm_LeamasBinaryIdentity m) @ snd (snd ?b) @ snd ?s\<rparr>"
    using assms by (simp add: VerifyManifestIdentity_def Let_def identity_Nil anchored_def split: prod.split)
  then have "factsValid (fst ?v) \<longleftrightarrow> binaryIdentified (pm_LeamasBinaryIdentity m) \<and> fst ?b \<and> snd (snd ?b) = [] \<and> snd ?s = []"
    by (auto simp: factsValid_def binaryIdentity_Nil verifyV2ManifestRunSuccessIntegrity_def Let_def)
  also have "\<dots> \<longleftrightarrow> binaryIdentified (pm_LeamasBinaryIdentity m) \<and> fst ?b \<and> runsSucceed (pm_CheckResults m)"
  proof (cases "fst ?b")
    case True
    then have "list_all (resultWellFormed (planByID checks)) (pm_CheckResults m)"
      using bijection_iff [OF assms(8)] resultsBiject_def by blast
    with True show ?thesis
      by (simp add: bijection_mapped(1) [OF assms(8) True] success_iff)
  qed simp
  finally show ?thesis
    by (simp add: bijection_iff [OF assms(8)])
qed

lemma manifest_verified_iff:
  assumes "raw \<noteq> ''''" and "ba_Diagnostics plan = []" and "ba_Diagnostics committed = []" and "anchored t"
    and "\<And>checks. decodePlan (ba_RawBytes plan) = Inr checks \<Longrightarrow> distinct (map pc_ID checks)"
  shows "factsValid (fst (VerifyManifestIdentity quote toLower reader decodePlan raw plan committed t)) \<longleftrightarrow>
    (\<exists>m checks. parseV2StrictManifest quote toLower reader raw = Inr m \<and> identityBound m t plan \<and>
       binaryIdentified (pm_LeamasBinaryIdentity m) \<and> ba_RawBytes plan \<noteq> '''' \<and>
       decodePlan (ba_RawBytes plan) = Inr checks \<and> resultsBiject checks (pm_CheckResults m) \<and>
       runsSucceed (pm_CheckResults m))"
    (is "factsValid (fst ?v) \<longleftrightarrow> ?rhs")
proof (cases "\<exists>m checks. parseV2StrictManifest quote toLower reader raw = Inr m \<and> identityBound m t plan \<and>
    ba_RawBytes plan \<noteq> '''' \<and> decodePlan (ba_RawBytes plan) = Inr checks")
  case True
  then obtain m checks where m: "parseV2StrictManifest quote toLower reader raw = Inr m" "identityBound m t plan"
    and c: "ba_RawBytes plan \<noteq> ''''" "decodePlan (ba_RawBytes plan) = Inr checks"
    by blast
  have d: "distinct (map pc_ID checks)"
    using assms(5) c(2) by blast
  then have d': "distinct (map pc_ID (sort_slice planCheckLess checks))"
    using mset_eq_imp_distinct_iff [of "map pc_ID (sort_slice planCheckLess checks)" "map pc_ID checks"] by simp
  have "verifyV2FrozenPlanInventory decodePlan (ba_RawBytes plan) = Inr (sort_slice planCheckLess checks)"
    using c by (simp add: verifyV2FrozenPlanInventory_def)
  from VerifyManifestIdentity_verified [OF m assms(4,1-3) this d'] m c show ?thesis
    by (simp add: resultsBiject_sorted [OF d])
next
  case False
  then have "\<not> factsValid (fst ?v)"
    using assms by (auto simp: VerifyManifestIdentity_def factsValid_def zeroFacts_def anchored_def [symmetric]
        identity_Nil verifyV2FrozenPlanInventory_def Let_def split: sum.splits)
  with False show ?thesis
    by blast
qed

text \<open>Facts without a diagnostic are valid facts: no phase fails silently.\<close>

lemma parse_failed_diagnosed: "parseV2StrictManifest quote toLower reader raw = Inl ds \<Longrightarrow> ds \<noteq> []"
  by (auto simp: parseV2StrictManifest_def Let_def split: if_splits sum.splits)

lemma inventory_failed_diagnosed: "verifyV2FrozenPlanInventory decodePlan raw = Inl ds \<Longrightarrow> ds \<noteq> []"
  by (auto simp: verifyV2FrozenPlanInventory_def split: if_splits sum.splits)

lemma facts_undiagnosed_valid:
  assumes "anchored t"
  shows "mf_Diagnostics (fst (VerifyManifestIdentity quote toLower reader decodePlan raw plan committed t)) = [] \<longleftrightarrow>
    factsValid (fst (VerifyManifestIdentity quote toLower reader decodePlan raw plan committed t))"
proof
  assume "mf_Diagnostics (fst (VerifyManifestIdentity quote toLower reader decodePlan raw plan committed t)) = []"
  then show "factsValid (fst (VerifyManifestIdentity quote toLower reader decodePlan raw plan committed t))"
    using assms bijection_failed
    by (auto simp: VerifyManifestIdentity_def factsValid_def anchored_def zeroFacts_def Let_def verifyV2ManifestRunSuccessIntegrity_def
        dest: parse_failed_diagnosed inventory_failed_diagnosed split: if_splits sum.splits prod.splits) (metis fst_conv snd_conv)+
qed (simp add: factsValid_def)

text \<open>
  C5. The manifest facts are all valid and free of diagnostics exactly when the committed bytes
  parse under the closed contract, every identity field equals the value git and the frozen plan
  give, the binary identity is well formed and unmodified, the results are a bijection with the
  checks of the plan read from the frozen bytes, and every check in run mode passed with exit code
  0, a clean cleanup and an untruncated, uninterrupted execution.
\<close>

theorem manifest_verified_exactly:
  assumes "raw \<noteq> ''''" and "ba_Diagnostics plan = []" and "ba_Diagnostics committed = []" and "anchored t"
    and "\<And>checks. decodePlan (ba_RawBytes plan) = Inr checks \<Longrightarrow> distinct (map pc_ID checks)"
  shows "factsValid (fst (VerifyManifestIdentity quote toLower reader decodePlan raw plan committed t)) \<longleftrightarrow>
    (\<exists>m checks. parseV2StrictManifest quote toLower reader raw = Inr m \<and> identityBound m t plan \<and>
       binaryIdentified (pm_LeamasBinaryIdentity m) \<and> ba_RawBytes plan \<noteq> '''' \<and>
       decodePlan (ba_RawBytes plan) = Inr checks \<and> resultsBiject checks (pm_CheckResults m) \<and>
       runsSucceed (pm_CheckResults m))"
  using assms by (rule manifest_verified_iff)

text \<open>A manifest with one check that ran and one that is excluded.\<close>

definition sampleChecks :: "PlanCheck list" where
  "sampleChecks =
     [\<lparr>pc_ID = ''b'', pc_Mode = ''exclude'', pc_Argv = [], pc_WorkingDirectory = '''', pc_TimeoutSeconds = 0,
       pc_Environment = [], pc_Reason = ''later''\<rparr>,
      \<lparr>pc_ID = ''a'', pc_Mode = ''run'', pc_Argv = [''make''], pc_WorkingDirectory = ''.'', pc_TimeoutSeconds = 60,
       pc_Environment = [], pc_Reason = ''''\<rparr>]"

definition sampleManifest :: parsedManifest where
  "sampleManifest =
     \<lparr>pm_ClosureProtocolVersion = ''2'', pm_PlanContractVersion = ''1'', pm_SubjectCommit = ''s'', pm_SubjectTree = ''t'',
      pm_FreezeCommit = ''f'', pm_FreezeTree = ''g'', pm_PlanPath = ''plan.json'', pm_PlanBlob = ''b'', pm_PlanSHA256 = ''h'',
      pm_ExecutionTree = ''t'',
      pm_CheckResults =
        [\<lparr>pr_ID = ''a'', pr_Mode = ''run'', pr_Outcome = ''pass'', pr_ExitCode = Some ''0'', pr_DurationMS = ''12'',
          pr_ExecutionClassification = ''completed'', pr_CleanupStatus = ''pass'', pr_Evidence = [], pr_Detail = ''''\<rparr>,
         \<lparr>pr_ID = ''b'', pr_Mode = ''exclude'', pr_Outcome = ''excluded'', pr_ExitCode = None, pr_DurationMS = ''0'',
          pr_ExecutionClassification = ''excluded_by_plan'', pr_CleanupStatus = ''not_required'', pr_Evidence = [],
          pr_Detail = ''later''\<rparr>],
      pm_LeamasBinaryIdentity =
        \<lparr>pb_Path = ''leamas'', pb_SHA256 = replicate 64 (CHR ''0''), pb_VCSRevision = replicate 40 (CHR ''0''),
         pb_VCSModified = False, pb_LeamasVersion = ''1''\<rparr>,
      pm_CallerHead = '''', pm_ClosureCommit = ''''\<rparr>"

definition sampleReader :: manifestReader where
  "sampleReader = \<lparr>mr_readObject = (\<lambda>raw. Inr ([], '''')), mr_strictDecode = (\<lambda>ms. Inr sampleManifest)\<rparr>"

definition samplePlanAuthority :: V2FrozenPlanAuthority where
  "samplePlanAuthority = \<lparr>ba_Path = ''plan.json'', ba_BlobOID = ''b'', ba_BlobSHA256 = ''h'', ba_RawBytes = ''plan'', ba_Diagnostics = []\<rparr>"

lemma trimSpace_literals: "trimSpace ''{}'' = ''{}''" "trimSpace ''leamas'' = ''leamas''" "trimSpace ''1'' = ''1''"
  by (rule trimSpace_id; simp add: graphic_def)+

lemma sample_parses: "parseV2StrictManifest quote toLower sampleReader ''{}'' = Inr sampleManifest"
  by (simp add: parseV2StrictManifest_def sampleReader_def rawObject_def decMore_def sort_slice_def Let_def trimSpace_literals)
     (simp add: sampleManifest_def)

theorem manifest_verified_exactly_witness:
  "factsValid (fst (VerifyManifestIdentity (\<lambda>s. s) (\<lambda>s. s) sampleReader (\<lambda>raw. Inr sampleChecks) ''{}''
     samplePlanAuthority samplePlanAuthority (topologyOf ''s'' ''t'' ''f'' ''g'' ''c'' ''d'')))"
proof -
  have "distinct (map pc_ID sampleChecks)"
    by (simp add: sampleChecks_def)
  moreover have "jsonNumberToInteger ''0'' = Some 0" "jsonNumberToInteger ''12'' = Some 12"
    by code_simp+
  then have "resultsBiject sampleChecks (pm_CheckResults sampleManifest)" "runsSucceed (pm_CheckResults sampleManifest)"
    by (simp_all add: resultsBiject_def sampleManifest_def sampleChecks_def resultWellFormed_def planByID_def
        excludedCleanly_def runsSucceed_def ranCleanly_def mappedResult_def)
  moreover have "identityBound sampleManifest (topologyOf ''s'' ''t'' ''f'' ''g'' ''c'' ''d'') samplePlanAuthority"
    by (simp add: identityBound_def sampleManifest_def samplePlanAuthority_def topologyOf_def)
  moreover have "binaryIdentified (pm_LeamasBinaryIdentity sampleManifest)"
    by (simp add: binaryIdentified_def sampleManifest_def trimSpace_literals sha256Pattern_def sha1Pattern_def list_all_iff
        lower_hex_def)
  ultimately show ?thesis
    by (intro manifest_verified_exactly [THEN iffD2])
       (auto simp: sample_parses samplePlanAuthority_def anchored_def topologyOf_def)
qed

text \<open>
  Bytes after the manifest object that begin with a closing bracket are not seen by
  \<open>dec.More\<close> and are accepted, although the diagnostic speaks of any trailing token.
\<close>

lemma trailing_bracket_accepted:
  "\<not> decMore ''}'' \<and> \<not> decMore ''] garbage'' \<and> decMore ''x''"
  by code_simp

end
