(* ===== verification/Closure_Results.thy ===== *)
theory Closure_Results
  imports Closure_Manifest
begin

text \<open>
  How the runner turns its executions into manifest results
  (\<open>closure_protocol_v2_results.go\<close>), and that the verifier accepts what the runner writes.
\<close>

section \<open>Records\<close>

record CheckResult =
  cx_CheckID :: string
  cx_SubjectTreeOID :: string
  cx_Argv :: "string list"
  cx_WorkingDirectory :: string
  cx_OverriddenEnvironment :: "string list"
  cx_StartedAtUTC :: string
  cx_FinishedAtUTC :: string
  cx_DurationMS :: int
  cx_ExitCode :: "int option"
  cx_Status :: string
  cx_StdoutSHA256 :: string
  cx_StdoutByteCount :: int
  cx_StderrSHA256 :: string
  cx_StderrByteCount :: int
  cx_OutputTruncated :: bool
  cx_OutputIncomplete :: bool
  cx_OutputBytesObserved :: int
  cx_CleanupStatus :: string
  cx_ExecutionErrorCode :: string

text \<open>\<open>EvidenceRecord\<close> and \<open>V2EvidenceReference\<close> have the same fields and are converted.\<close>

type_synonym EvidenceRecord = V2EvidenceReference

section \<open>Mapping\<close>

text \<open>\<open>ItemIDPattern\<close>: \<open>^[a-z0-9][a-z0-9._-]{0,127}$\<close>.\<close>

definition itemIDHead :: "char \<Rightarrow> bool" where
  "itemIDHead c \<longleftrightarrow> (CHR ''a'' \<le> c \<and> c \<le> CHR ''z'') \<or> isDigit c"

definition itemIDPattern :: "string \<Rightarrow> bool" where
  "itemIDPattern s \<longleftrightarrow>
     s \<noteq> [] \<and> itemIDHead (hd s) \<and> length s \<le> 128 \<and>
     list_all (\<lambda>c. itemIDHead c \<or> c \<in> {CHR ''.'', CHR ''_'', CHR ''-''}) (tl s)"

definition invalidV2CheckMapping :: "string \<Rightarrow> string \<Rightarrow> V2Error" where
  "invalidV2CheckMapping property message = NewV2ErrorWith V2CodeCheckResultMappingInvalid message property ''''"

definition classifyV2Execution :: "CheckResult \<Rightarrow> string" where
  "classifyV2Execution result =
     (if cx_ExecutionErrorCode result \<noteq> '''' then cx_ExecutionErrorCode result
      else if cx_CleanupStatus result = CleanupFailed then v2ExecutionCleanupFailed
      else if cx_OutputIncomplete result then v2ExecutionOutputIncomplete
      else if cx_OutputTruncated result then v2ExecutionOutputTruncated
      else if cx_Status result = CheckStatusFail \<and> cx_ExitCode result \<noteq> None \<and> cx_ExitCode result \<noteq> Some 0
      then v2ExecutionNonzeroExit
      else v2ExecutionCompleted)"

definition bindEvidence ::
  "(string \<Rightarrow> string) \<Rightarrow> (string \<Rightarrow> EvidenceRecord option) \<Rightarrow> string \<times> string \<times> int \<Rightarrow> V2Error + V2EvidenceReference" where
  "bindEvidence quote evidence want =
     (case want of (name, sha, bytes) \<Rightarrow>
        case evidence name of
          Some record \<Rightarrow>
            if er_SHA256 record \<noteq> sha \<or> er_ByteCount record \<noteq> bytes
            then Inl (invalidV2CheckMapping ''evidence'' (''evidence '' @ quote name @ '' does not bind check result''))
            else Inr record
        | None \<Rightarrow> Inl (invalidV2CheckMapping ''evidence'' (''evidence '' @ quote name @ '' does not bind check result'')))"

text \<open>The result, without the mode that the caller sets, and the names of the evidence it uses.\<close>

definition mapV2RunResult ::
  "(string \<Rightarrow> string) \<Rightarrow> string \<Rightarrow> CheckResult \<Rightarrow> (string \<Rightarrow> EvidenceRecord option) \<Rightarrow> V2Error + V2CheckResult \<times> string list" where
  "mapV2RunResult quote subjectTree cin evidence =
     (let invalid = (\<lambda>m. Inl (invalidV2CheckMapping ''check_results'' m)); key = cx_CheckID cin;
          out = \<lparr>vr_ID = key, vr_Mode = '''', vr_Outcome = cx_Status cin, vr_ExitCode = cx_ExitCode cin,
                 vr_DurationMS = cx_DurationMS cin, vr_ExecutionClassification = '''',
                 vr_CleanupStatus = cx_CleanupStatus cin, vr_Evidence = [], vr_Detail = ''''\<rparr>
      in if cx_SubjectTreeOID cin \<noteq> subjectTree
         then invalid (''check '' @ quote key @ '' subject tree does not match execution tree'')
         else if cx_DurationMS cin < 0 then invalid (''check '' @ quote key @ '' has negative duration'')
         else if cx_Status cin = CheckStatusNotRun then
           (if cx_ExitCode cin \<noteq> None \<or> cx_DurationMS cin \<noteq> 0 \<or> cx_StdoutSHA256 cin \<noteq> '''' \<or> cx_StderrSHA256 cin \<noteq> ''''
            then invalid (''not-run check '' @ quote key @ '' carries execution evidence'')
            else if cx_CleanupStatus cin \<noteq> CleanupNotRequired
            then invalid (''not-run check '' @ quote key @ '' has invalid cleanup status'')
            else Inr (out\<lparr>vr_ExecutionClassification := v2ExecutionNotRunPriorFailure\<rparr>, []))
         else if cx_Status cin \<noteq> CheckStatusPass \<and> cx_Status cin \<noteq> CheckStatusFail
         then invalid (''check '' @ quote key @ '' has unknown outcome '' @ quote (cx_Status cin))
         else if cx_ExitCode cin = None then invalid (''executed check '' @ quote key @ '' has no exit code'')
         else
           let names = [key @ ''.stdout'', key @ ''.stderr'']
           in bindE (traverse (bindEvidence quote evidence)
                [(key @ ''.stdout'', cx_StdoutSHA256 cin, cx_StdoutByteCount cin),
                 (key @ ''.stderr'', cx_StderrSHA256 cin, cx_StderrByteCount cin)])
              (\<lambda>refs. Inr (out\<lparr>vr_Evidence := refs, vr_ExecutionClassification := classifyV2Execution cin\<rparr>, names)))"

text \<open>The three loops that fill the maps; the accumulator is the entries so far.\<close>

definition indexPlan ::
  "(string \<Rightarrow> string) \<Rightarrow> PlanCheck \<Rightarrow> (string \<times> PlanCheck) list \<Rightarrow> V2Error + (string \<times> PlanCheck) list" where
  "indexPlan quote plan m =
     (if \<not> itemIDPattern (pc_ID plan)
      then Inl (invalidV2CheckMapping ''checks'' (''invalid plan check ID '' @ quote (pc_ID plan)))
      else if map_of m (pc_ID plan) \<noteq> None
      then Inl (invalidV2CheckMapping ''checks'' (''duplicate plan check ID '' @ quote (pc_ID plan)))
      else if pc_Mode plan \<noteq> CheckModeRun \<and> pc_Mode plan \<noteq> CheckModeExclude
      then Inl (invalidV2CheckMapping ''checks'' (''unknown mode '' @ quote (pc_Mode plan) @ '' for plan check '' @ quote (pc_ID plan)))
      else Inr ((pc_ID plan, plan) # m))"

definition indexExecution ::
  "(string \<Rightarrow> string) \<Rightarrow> (string \<times> PlanCheck) list \<Rightarrow> CheckResult \<Rightarrow> (string \<times> CheckResult) list \<Rightarrow>
   V2Error + (string \<times> CheckResult) list" where
  "indexExecution quote plans result m =
     (case map_of plans (cx_CheckID result) of
        None \<Rightarrow> Inl (invalidV2CheckMapping ''check_results'' (''unknown execution result ID '' @ quote (cx_CheckID result)))
      | Some plan \<Rightarrow>
          if pc_Mode plan \<noteq> CheckModeRun
          then Inl (invalidV2CheckMapping ''check_results'' (''exclude check '' @ quote (cx_CheckID result) @ '' has an execution result''))
          else if map_of m (cx_CheckID result) \<noteq> None
          then Inl (invalidV2CheckMapping ''check_results'' (''duplicate execution result ID '' @ quote (cx_CheckID result)))
          else Inr ((cx_CheckID result, result) # m))"

definition indexEvidence ::
  "(string \<Rightarrow> string) \<Rightarrow> EvidenceRecord \<Rightarrow> (string \<times> EvidenceRecord) list \<Rightarrow> V2Error + (string \<times> EvidenceRecord) list" where
  "indexEvidence quote record m =
     (if er_LogicalName record = '''' then Inl (invalidV2CheckMapping ''evidence'' ''evidence logical name is empty'')
      else if map_of m (er_LogicalName record) \<noteq> None
      then Inl (invalidV2CheckMapping ''evidence'' (''duplicate evidence '' @ quote (er_LogicalName record)))
      else if er_MediaType record = '''' \<or> er_Availability record = '''' \<or> er_ByteCount record < 0 \<or>
              \<not> sha256Pattern (er_SHA256 record)
      then Inl (invalidV2CheckMapping ''evidence'' (''evidence '' @ quote (er_LogicalName record) @ '' is incomplete''))
      else Inr ((er_LogicalName record, record) # m))"

definition excludedResult :: "PlanCheck \<Rightarrow> V2CheckResult" where
  "excludedResult plan =
     \<lparr>vr_ID = pc_ID plan, vr_Mode = pc_Mode plan, vr_Outcome = v2CheckOutcomeExcluded, vr_ExitCode = None, vr_DurationMS = 0,
      vr_ExecutionClassification = v2ExecutionExcludedByPlan, vr_CleanupStatus = CleanupNotRequired, vr_Evidence = [],
      vr_Detail = pc_Reason plan\<rparr>"

definition mapPlanCheck ::
  "(string \<Rightarrow> string) \<Rightarrow> string \<Rightarrow> (string \<times> CheckResult) list \<Rightarrow> (string \<times> EvidenceRecord) list \<Rightarrow> PlanCheck \<Rightarrow>
   V2Error + V2CheckResult \<times> string list" where
  "mapPlanCheck quote subjectTree executions evidence plan =
     (if pc_Mode plan = CheckModeExclude then Inr (excludedResult plan, [])
      else case map_of executions (pc_ID plan) of
        None \<Rightarrow> Inl (invalidV2CheckMapping ''check_results'' (''missing execution result for run check '' @ quote (pc_ID plan)))
      | Some result \<Rightarrow>
          bindE (mapV2RunResult quote subjectTree result (map_of evidence))
            (\<lambda>(r, names). Inr (r\<lparr>vr_Mode := pc_Mode plan\<rparr>, names)))"

text \<open>
  The last loop of the source names some evidence record that no result uses; the order of the
  map does not matter for the error, which here names the last one indexed.
\<close>

definition buildV2ManifestCheckResults ::
  "(string \<Rightarrow> string) \<Rightarrow> string \<Rightarrow> PlanCheck list \<Rightarrow> CheckResult list \<Rightarrow> EvidenceRecord list \<Rightarrow> V2Error + V2CheckResult list" where
  "buildV2ManifestCheckResults quote subjectTree plans executions evidence =
     (if plans = [] then Inl (invalidV2CheckMapping ''checks'' ''plan has no checks'')
      else
      bindE (foldE (indexPlan quote) plans []) (\<lambda>planIndex.
      bindE (foldE (indexExecution quote planIndex) executions []) (\<lambda>executionIndex.
      bindE (foldE (indexEvidence quote) evidence []) (\<lambda>evidenceIndex.
      bindE (traverse (mapPlanCheck quote subjectTree executionIndex evidenceIndex) plans) (\<lambda>rows.
      let consumed = concat (map snd rows)
      in case filter (\<lambda>name. name \<notin> set consumed) (map fst evidenceIndex) of
           [] \<Rightarrow> Inr (map fst rows)
         | name # _ \<Rightarrow> Inl (invalidV2CheckMapping ''evidence'' (''unknown evidence reference '' @ quote name)))))))"

section \<open>Decimal spelling\<close>

lemma isDigit_char: "(m :: nat) < 10 \<Longrightarrow> isDigit (char_of (48 + m))"
  by (auto simp: isDigit_def less_eq_char_def)

lemma digits_of_isDigit: "list_all isDigit (digits_of n)"
proof (induction n rule: digits_of.induct)
  case (1 n)
  then show ?case
    using isDigit_char [of n] isDigit_char [of "n mod 10"] by (cases "n < 10") (simp_all add: digits_of.simps [of n])
qed

lemma digits_of_natural: "isNaturalSpelling (digits_of n)"
proof (induction n rule: digits_of.induct)
  case (1 n)
  show ?case
  proof (cases "n < 10")
    case True
    have zero: "digits_of 0 = ''0''"
      by code_simp
    from True show ?thesis
      by (cases "n = 0") (simp_all add: zero digits_of.simps [of n] isNaturalSpelling_def less_eq_char_def)
  next
    case False
    have "digits_of (n div 10) \<noteq> ''0''"
    proof
      assume "digits_of (n div 10) = ''0''"
      with digitsValue_digits_of [of "n div 10"] have "n div 10 = 0"
        by simp
      with False show False
        by simp
    qed
    with 1 False isDigit_char [of "n mod 10"] show ?thesis
      by (auto simp: digits_of.simps [of n] isNaturalSpelling_def)
  qed
qed

lemma jsonNumber_itoa: "jsonNumber (itoa n) = Some (n, 0)"
proof -
  have hd: "hd (digits_of k) \<noteq> CHR ''-''" "digits_of k \<noteq> []" for k
    using digits_of_natural [of k] by (auto simp: isNaturalSpelling_def less_eq_char_def)
  have take: "takeWhile isDigit (digits_of k) = digits_of k" "dropWhile isDigit (digits_of k) = []" for k
    using digits_of_isDigit [of k] by (auto simp: list_all_iff)
  show ?thesis
    using digits_of_isDigit by (cases "n < 0")
      (simp_all add: list_all_iff jsonNumber_def itoa_def hd take digits_of_natural digitsValue_digits_of exponentPart_def Let_def)
qed

lemma jsonNumberToInteger_itoa: "isInt64 n \<Longrightarrow> jsonNumberToInteger (itoa n) = Some n"
proof -
  have "itoa n \<noteq> []"
    using digits_of_natural [of "nat n"] by (auto simp: itoa_def isNaturalSpelling_def)
  moreover have "exactBigInt (itoa n) = Some n"
    by (simp add: exactBigInt_def jsonNumber_itoa)
  ultimately show "isInt64 n \<Longrightarrow> jsonNumberToInteger (itoa n) = Some n"
    by (simp add: jsonNumberToInteger_def)
qed

section \<open>The verifier accepts what the runner writes\<close>

text \<open>The entry that the manifest holds for a result.\<close>

definition writtenResult :: "V2CheckResult \<Rightarrow> parsedCheckResult" where
  "writtenResult r =
     \<lparr>pr_ID = vr_ID r, pr_Mode = vr_Mode r, pr_Outcome = vr_Outcome r, pr_ExitCode = map_option itoa (vr_ExitCode r),
      pr_DurationMS = itoa (vr_DurationMS r), pr_ExecutionClassification = vr_ExecutionClassification r,
      pr_CleanupStatus = vr_CleanupStatus r,
      pr_Evidence = map (\<lambda>e. \<lparr>pe_LogicalName = er_LogicalName e, pe_MediaType = er_MediaType e, pe_SHA256 = er_SHA256 e,
         pe_ByteCount = itoa (er_ByteCount e), pe_Availability = er_Availability e\<rparr>) (vr_Evidence r),
      pr_Detail = vr_Detail r\<rparr>"

definition int64Result :: "V2CheckResult \<Rightarrow> bool" where
  "int64Result r \<longleftrightarrow>
     isInt64 (vr_DurationMS r) \<and> (\<forall>n. vr_ExitCode r = Some n \<longrightarrow> isInt64 n) \<and>
     list_all (\<lambda>e. isInt64 (er_ByteCount e)) (vr_Evidence r)"

lemma mappedResult_writtenResult: "int64Result r \<Longrightarrow> mappedResult (writtenResult r) = r"
  by (auto simp: mappedResult_def writtenResult_def int64Result_def jsonNumberToInteger_itoa option.map_comp o_def
      list_all_iff map_idI intro!: V2CheckResult.equality map_option_idI map_idI V2EvidenceReference.equality)

text \<open>Each index holds the entries under their own names, once, and nothing else.\<close>

lemma indexPlan_fold:
  "foldE (indexPlan quote) plans m = Inr m' \<Longrightarrow>
   distinct (map pc_ID plans) \<and> pc_ID ` set plans \<inter> fst ` set m = {} \<and>
   list_all (\<lambda>p. pc_Mode p = CheckModeRun \<or> pc_Mode p = CheckModeExclude) plans \<and>
   set m' = set m \<union> (\<lambda>p. (pc_ID p, p)) ` set plans"
proof (induction plans arbitrary: m)
  case (Cons p plans)
  then obtain m1 where m1: "indexPlan quote p m = Inr m1" "foldE (indexPlan quote) plans m1 = Inr m'"
    by (auto simp: bindE_eq_Inr)
  then have "m1 = (pc_ID p, p) # m" "pc_ID p \<notin> fst ` set m" "pc_Mode p = CheckModeRun \<or> pc_Mode p = CheckModeExclude"
    by (auto simp: indexPlan_def map_of_eq_None_iff split: if_splits)
  with Cons.IH [OF m1(2)] show ?case
    by auto
qed simp

lemma indexExecution_fold:
  "foldE (indexExecution quote plans) executions m = Inr m' \<Longrightarrow> distinct (map fst m) \<Longrightarrow>
   distinct (map fst m') \<and> set m' = set m \<union> (\<lambda>r. (cx_CheckID r, r)) ` set executions \<and>
   list_all (\<lambda>r. \<exists>p. map_of plans (cx_CheckID r) = Some p \<and> pc_Mode p = CheckModeRun) executions"
proof (induction executions arbitrary: m)
  case (Cons r executions)
  then obtain m1 where m1: "indexExecution quote plans r m = Inr m1" "foldE (indexExecution quote plans) executions m1 = Inr m'"
    by (auto simp: bindE_eq_Inr)
  then have "m1 = (cx_CheckID r, r) # m" "cx_CheckID r \<notin> fst ` set m"
    "\<exists>p. map_of plans (cx_CheckID r) = Some p \<and> pc_Mode p = CheckModeRun"
    by (auto simp: indexExecution_def map_of_eq_None_iff split: option.splits if_splits)
  with Cons.IH [OF m1(2)] Cons.prems(2) show ?case
    by auto
qed simp

text \<open>The index of the executions answers for every plan check in run mode, and only with its own execution.\<close>

lemma execution_index:
  assumes "foldE (indexPlan quote) plans [] = Inr planIndex" and "foldE (indexExecution quote planIndex) executions [] = Inr m"
  shows "map_of m k = Some r \<longleftrightarrow> r \<in> set executions \<and> cx_CheckID r = k"
    and "r \<in> set executions \<Longrightarrow> \<exists>p \<in> set plans. pc_ID p = cx_CheckID r \<and> pc_Mode p = CheckModeRun"
proof -
  have m: "distinct (map fst m)" "set m = (\<lambda>r. (cx_CheckID r, r)) ` set executions"
    using indexExecution_fold [OF assms(2)] by simp_all
  then show "map_of m k = Some r \<longleftrightarrow> r \<in> set executions \<and> cx_CheckID r = k"
    by (auto simp: map_of_eq_Some_iff)
  assume "r \<in> set executions"
  then obtain p where "map_of planIndex (cx_CheckID r) = Some p" "pc_Mode p = CheckModeRun"
    using indexExecution_fold [OF assms(2)] by (auto simp: list_all_iff)
  moreover have "set planIndex = (\<lambda>p. (pc_ID p, p)) ` set plans"
    using indexPlan_fold [OF assms(1)] by simp
  ultimately show "\<exists>p \<in> set plans. pc_ID p = cx_CheckID r \<and> pc_Mode p = CheckModeRun"
    by (auto dest!: map_of_SomeD intro!: bexI)
qed

text \<open>
  An execution that succeeded: it passed with exit code 0, its cleanup passed, no output was lost,
  and no error code names a reason that the verifier refuses.
\<close>

definition executionSucceeded :: "CheckResult \<Rightarrow> bool" where
  "executionSucceeded r \<longleftrightarrow>
     cx_Status r = CheckStatusPass \<and> cx_ExitCode r = Some 0 \<and> cx_CleanupStatus r = CleanupPass \<and>
     (if cx_ExecutionErrorCode r = '''' then \<not> cx_OutputIncomplete r \<and> \<not> cx_OutputTruncated r
      else cx_ExecutionErrorCode r \<notin> {v2ExecutionTimeout, v2ExecutionCancelled, v2ExecutionOutputOverflow,
        v2ExecutionOutputTruncated, v2ExecutionOutputIncomplete})"

lemma mapV2RunResult_success:
  "mapV2RunResult quote tree cin evidence = Inr (r, names) \<Longrightarrow> ranCleanly (r\<lparr>vr_Mode := mode\<rparr>) \<longleftrightarrow> executionSucceeded cin"
  by (auto simp: mapV2RunResult_def Let_def bindE_eq_Inr ranCleanly_def executionSucceeded_def classifyV2Execution_def
      split: if_splits)

lemma classifyV2Execution_nonempty: "classifyV2Execution r \<noteq> ''''"
  by (simp add: classifyV2Execution_def)

lemma mapV2RunResult_shape:
  "mapV2RunResult quote tree cin evidence = Inr (r, names) \<Longrightarrow>
   vr_ID r = cx_CheckID cin \<and> vr_Outcome r = cx_Status cin \<and> cx_Status cin \<noteq> '''' \<and> 0 \<le> vr_DurationMS r \<and>
   vr_ExecutionClassification r \<noteq> '''' \<and> vr_CleanupStatus r = cx_CleanupStatus cin"
  by (auto simp: mapV2RunResult_def Let_def bindE_eq_Inr classifyV2Execution_nonempty split: if_splits)

lemma mapPlanCheck_shape:
  assumes "mapPlanCheck quote tree executions evidence plan = Inr row"
    and "\<And>k r. map_of executions k = Some r \<Longrightarrow> cx_CheckID r = k"
  shows "vr_ID (fst row) = pc_ID plan \<and> vr_Mode (fst row) = pc_Mode plan \<and> vr_Outcome (fst row) \<noteq> '''' \<and>
    0 \<le> vr_DurationMS (fst row) \<and> vr_ExecutionClassification (fst row) \<noteq> '''' \<and>
    (pc_Mode plan = CheckModeExclude \<longrightarrow> fst row = excludedResult plan) \<and>
    (pc_Mode plan \<noteq> CheckModeExclude \<longrightarrow>
       (\<exists>r. map_of executions (pc_ID plan) = Some r \<and> (ranCleanly (fst row) \<longleftrightarrow> executionSucceeded r)))"
proof (cases "pc_Mode plan = CheckModeExclude")
  case True
  with assms(1) show ?thesis
    by (auto simp: mapPlanCheck_def excludedResult_def)
next
  case False
  with assms(1) obtain result r names where "map_of executions (pc_ID plan) = Some result"
    and r: "mapV2RunResult quote tree result (map_of evidence) = Inr (r, names)" and row: "row = (r\<lparr>vr_Mode := pc_Mode plan\<rparr>, names)"
    by (auto simp: mapPlanCheck_def bindE_eq_Inr split: option.splits)
  moreover have "cx_CheckID result = pc_ID plan"
    using calculation(1) assms(2) by blast
  ultimately show ?thesis
    using False mapV2RunResult_shape [OF r] mapV2RunResult_success [OF r] by simp
qed

lemma list_all2_equiv: "list_all2 (\<lambda>x y. P x \<longleftrightarrow> Q y) xs ys \<Longrightarrow> list_all P xs \<longleftrightarrow> list_all Q ys"
  by (induction rule: list_all2_induct) auto

text \<open>The verifier counts the results as a success exactly if the executions behind them all succeeded.\<close>

lemma runs_succeed:
  assumes "distinct (map pc_ID plans)" and modes: "list_all (\<lambda>p. pc_Mode p = CheckModeRun \<or> pc_Mode p = CheckModeExclude) plans"
    and index: "\<And>k e. map_of m k = Some e \<longleftrightarrow> e \<in> set executions \<and> cx_CheckID e = k"
    and planned: "\<And>e. e \<in> set executions \<Longrightarrow> \<exists>p \<in> set plans. pc_ID p = cx_CheckID e \<and> pc_Mode p = CheckModeRun"
    and shape: "list_all2 (\<lambda>p r. vr_ID r = pc_ID p \<and> (pc_Mode p = CheckModeExclude \<longrightarrow> r = excludedResult p) \<and>
      (pc_Mode p \<noteq> CheckModeExclude \<longrightarrow> (\<exists>e. map_of m (pc_ID p) = Some e \<and> (ranCleanly r \<longleftrightarrow> executionSucceeded e)))) plans rs"
  shows "verifyV2ManifestRunSuccessIntegrity quote plans rs = (True, []) \<longleftrightarrow> list_all executionSucceeded executions"
proof -
  let ?ok = "\<lambda>p. pc_Mode p = CheckModeExclude \<or> (\<exists>e. map_of m (pc_ID p) = Some e \<and> executionSucceeded e)"
  have mode: "planMode plans (pc_ID p) = pc_Mode p" if "p \<in> set plans" for p
    using that planByID_distinct [OF assms(1), of "pc_ID p" p] by (simp add: planMode_def)
  have "list_all2 (\<lambda>p r. ?ok p \<longleftrightarrow> successDiags quote (planMode plans) r = []) plans rs"
    using shape
  proof (rule list.rel_mono_strong)
    fix p r
    assume p: "p \<in> set plans" and r: "vr_ID r = pc_ID p \<and> (pc_Mode p = CheckModeExclude \<longrightarrow> r = excludedResult p) \<and>
      (pc_Mode p \<noteq> CheckModeExclude \<longrightarrow> (\<exists>e. map_of m (pc_ID p) = Some e \<and> (ranCleanly r \<longleftrightarrow> executionSucceeded e)))"
    have "pc_Mode p = CheckModeRun \<or> pc_Mode p = CheckModeExclude"
      using p modes by (auto simp: list_all_iff)
    with r mode [OF p] show "?ok p \<longleftrightarrow> successDiags quote (planMode plans) r = []"
      unfolding successDiags_Nil by (auto simp: excludedResult_def)
  qed
  from list_all2_equiv [OF this]
  have diags: "verifyV2ManifestRunSuccessIntegrity quote plans rs = (True, []) \<longleftrightarrow> list_all ?ok plans"
    by (auto simp: verifyV2ManifestRunSuccessIntegrity_def Let_def list_all_iff)
  have all: "list_all ?ok plans \<longleftrightarrow> list_all executionSucceeded executions"
  proof
    assume ok: "list_all ?ok plans"
    have "executionSucceeded e" if e: "e \<in> set executions" for e
    proof -
      obtain p where p: "p \<in> set plans" "pc_ID p = cx_CheckID e" "pc_Mode p = CheckModeRun"
        using planned [OF e] by blast
      then obtain e' where "map_of m (pc_ID p) = Some e'" "executionSucceeded e'"
        using ok by (auto simp: list_all_iff)
      moreover have "map_of m (pc_ID p) = Some e"
        using index e p(2) by simp
      ultimately show ?thesis
        by simp
    qed
    then show "list_all executionSucceeded executions"
      by (simp add: list_all_iff)
  next
    assume ok: "list_all executionSucceeded executions"
    have "?ok p" if "p \<in> set plans" for p
    proof -
      have "pc_Mode p \<noteq> CheckModeExclude \<longrightarrow> (\<exists>e. map_of m (pc_ID p) = Some e)"
        using shape that by (auto simp: list_all2_conv_all_nth in_set_conv_nth)
      with ok index show ?thesis
        by (auto simp: list_all_iff)
    qed
    then show "list_all ?ok plans"
      by (simp add: list_all_iff)
  qed
  show ?thesis
    using diags all by simp
qed


definition sampleExecution :: CheckResult where
  "sampleExecution =
     \<lparr>cx_CheckID = ''a'', cx_SubjectTreeOID = ''t'', cx_Argv = [''make''], cx_WorkingDirectory = ''.'',
      cx_OverriddenEnvironment = [], cx_StartedAtUTC = '''', cx_FinishedAtUTC = '''', cx_DurationMS = 12,
      cx_ExitCode = Some 0, cx_Status = ''pass'', cx_StdoutSHA256 = replicate 64 (CHR ''0''), cx_StdoutByteCount = 3,
      cx_StderrSHA256 = replicate 64 (CHR ''1''), cx_StderrByteCount = 0, cx_OutputTruncated = False,
      cx_OutputIncomplete = False, cx_OutputBytesObserved = 3, cx_CleanupStatus = ''pass'', cx_ExecutionErrorCode = ''''\<rparr>"

definition sampleEvidence :: "EvidenceRecord list" where
  "sampleEvidence =
     [\<lparr>er_LogicalName = ''a.stdout'', er_MediaType = ''text/plain'', er_SHA256 = replicate 64 (CHR ''0''), er_ByteCount = 3,
       er_Availability = ''detached''\<rparr>,
      \<lparr>er_LogicalName = ''a.stderr'', er_MediaType = ''text/plain'', er_SHA256 = replicate 64 (CHR ''1''), er_ByteCount = 0,
       er_Availability = ''detached''\<rparr>]"

definition sampleResults :: "V2CheckResult list" where
  "sampleResults =
     [excludedResult (sampleChecks ! 0),
      \<lparr>vr_ID = ''a'', vr_Mode = ''run'', vr_Outcome = ''pass'', vr_ExitCode = Some 0, vr_DurationMS = 12,
       vr_ExecutionClassification = ''completed'', vr_CleanupStatus = ''pass'', vr_Evidence = sampleEvidence, vr_Detail = ''''\<rparr>]"


end
