(* ===== verification/Closure_Tag.thy ===== *)
theory Closure_Tag
  imports Closure_Results
begin

text \<open>
  The optional tag assertion of the verifier (\<open>v2_verifier_tag.go\<close>) and the metadata contract
  of annotated tags (\<open>v2_verifier_tag_metadata.go\<close>, \<open>v2_verifier_tag_metadata_parse.go\<close>,
  \<open>v2_verifier_tag_metadata_parse_trailers.go\<close>), with the tag the runner writes
  (\<open>run_v2_tag.go\<close>).
\<close>

section \<open>Tag assertion\<close>

record V2VerifierTagAssertion =
  ta_Expected :: bool
  ta_Found :: bool
  ta_Annotated :: bool
  ta_Target :: string
  ta_Diagnostics :: V2VerifierDiagnostics

definition noTagAssertion :: V2VerifierTagAssertion where
  "noTagAssertion = \<lparr>ta_Expected = False, ta_Found = False, ta_Annotated = False, ta_Target = '''', ta_Diagnostics = []\<rparr>"

definition tagDiag :: "V2VerifierCode \<Rightarrow> string \<Rightarrow> V2VerifierDiagnostic" where
  "tagDiag code message = withProperty ''expected_tag'' (NewV2VerifierDiagnostic code message)"

definition ResolveV2ClosureTagAssertion :: "gitAuthority \<Rightarrow> string \<Rightarrow> string \<Rightarrow> V2VerifierTagAssertion" where
  "ResolveV2ClosureTagAssertion authority expectedTag closureCommit =
     (let expected = noTagAssertion\<lparr>ta_Expected := True\<rparr>; found = expected\<lparr>ta_Found := True\<rparr>;
          annotated = found\<lparr>ta_Annotated := True\<rparr>
      in if trimSpace expectedTag = '''' then noTagAssertion
      else if authority = None then
        expected\<lparr>ta_Diagnostics := [tagDiag V2VerifierClosureTagUnreadable ''git authority is required for tag assertion'']\<rparr>
      else if trimSpace closureCommit = '''' then
        expected\<lparr>ta_Diagnostics := [tagDiag V2VerifierClosureTagTargetMismatch ''closure commit is empty'']\<rparr>
      else
      let oidResult = authorityRunGitRevParse authority [''--verify'', ''--end-of-options'', expectedTag]
      in if av_exitCode oidResult \<noteq> 0 then
        expected\<lparr>ta_Diagnostics := [tagDiag V2VerifierClosureTagMissing (''tag '' @ stringOrQuote expectedTag @ '' does not resolve'')]\<rparr>
      else
      let oid = trimSpace (av_stdout oidResult)
      in if \<not> oidPattern oid then
        expected\<lparr>ta_Diagnostics := [withObserved oid (tagDiag V2VerifierClosureTagUnreadable
          (''tag '' @ stringOrQuote expectedTag @ '' did not resolve to a 40-char OID''))]\<rparr>
      else
      let typeResult = authorityRunGitCatFileT authority oid; typeName = trimSpace (av_stdout typeResult)
      in if av_exitCode typeResult \<noteq> 0 \<or> typeName \<noteq> ''tag'' then
        found\<lparr>ta_Target := oid, ta_Diagnostics := [withObjectOID oid (tagDiag V2VerifierClosureTagLightweight
          (''tag '' @ stringOrQuote expectedTag @ '' is not an annotated tag object''))]\<rparr>
      else
      let targetResult = authorityRunGitRevParse authority [''--verify'', ''--end-of-options'', oid @ ''^{commit}'']
      in if av_exitCode targetResult \<noteq> 0 then
        annotated\<lparr>ta_Target := oid, ta_Diagnostics := [withObjectOID oid (tagDiag V2VerifierClosureTagUnreadable
          (''annotated tag '' @ stringOrQuote expectedTag @ '' does not dereference to a commit''))]\<rparr>
      else
      let target = trimSpace (av_stdout targetResult)
      in if target \<noteq> closureCommit then
        annotated\<lparr>ta_Target := target, ta_Diagnostics := [withObjectOID oid (withExpected closureCommit
          (tagDiag V2VerifierClosureTagTargetMismatch
            (''annotated tag '' @ stringOrQuote expectedTag @ '' targets '' @ trunc8ForDiag target @ '', expected '' @
             trunc8ForDiag closureCommit)))]\<rparr>
      else annotated\<lparr>ta_Target := target\<rparr>)"

section \<open>Metadata keys\<close>

abbreviation V2TagMetadataClosureProtocolVersion :: string where
  "V2TagMetadataClosureProtocolVersion \<equiv> ''Leamas-Closure-Protocol-Version''"

abbreviation V2TagMetadataPlanContractVersion :: string where
  "V2TagMetadataPlanContractVersion \<equiv> ''Leamas-Plan-Contract-Version''"

abbreviation V2TagMetadataSubjectCommit :: string where
  "V2TagMetadataSubjectCommit \<equiv> ''Leamas-Subject-Commit''"

abbreviation V2TagMetadataFreezeCommit :: string where
  "V2TagMetadataFreezeCommit \<equiv> ''Leamas-Freeze-Commit''"

abbreviation V2TagMetadataClosureCommit :: string where
  "V2TagMetadataClosureCommit \<equiv> ''Leamas-Closure-Commit''"

abbreviation V2TagMetadataPlanPath :: string where
  "V2TagMetadataPlanPath \<equiv> ''Leamas-Plan-Path''"

abbreviation V2TagMetadataManifestPath :: string where
  "V2TagMetadataManifestPath \<equiv> ''Leamas-Manifest-Path''"

definition V2TagMetadataAllKeys :: "string list" where
  "V2TagMetadataAllKeys =
     [V2TagMetadataClosureProtocolVersion, V2TagMetadataPlanContractVersion, V2TagMetadataSubjectCommit,
      V2TagMetadataFreezeCommit, V2TagMetadataClosureCommit, V2TagMetadataPlanPath, V2TagMetadataManifestPath]"

definition V2TagMetadataPropertyName :: "string \<Rightarrow> string" where
  "V2TagMetadataPropertyName key =
     (if key = V2TagMetadataClosureProtocolVersion then ''tag_metadata.closure_protocol_version''
      else if key = V2TagMetadataPlanContractVersion then ''tag_metadata.plan_contract_version''
      else if key = V2TagMetadataSubjectCommit then ''tag_metadata.subject_commit''
      else if key = V2TagMetadataFreezeCommit then ''tag_metadata.freeze_commit''
      else if key = V2TagMetadataClosureCommit then ''tag_metadata.closure_commit''
      else if key = V2TagMetadataPlanPath then ''tag_metadata.plan_path''
      else if key = V2TagMetadataManifestPath then ''tag_metadata.manifest_path''
      else ''tag_metadata'')"

record V2ClosureTagMetadata =
  tm_ClosureProtocolVersion :: ClosureProtocolVersion
  tm_PlanContractVersion :: PlanContractVersion
  tm_SubjectCommit :: string
  tm_FreezeCommit :: string
  tm_ClosureCommit :: string
  tm_PlanPath :: string
  tm_ManifestPath :: string

definition zeroTagMetadata :: V2ClosureTagMetadata where
  "zeroTagMetadata =
     \<lparr>tm_ClosureProtocolVersion = '''', tm_PlanContractVersion = 0, tm_SubjectCommit = '''', tm_FreezeCommit = '''',
      tm_ClosureCommit = '''', tm_PlanPath = '''', tm_ManifestPath = ''''\<rparr>"

record V2ClosureTagMetadataMismatch =
  mm_Key :: string
  mm_Expected :: string
  mm_Observed :: string

record V2ClosureTagMetadataObservation =
  mo_Read :: bool
  mo_Bound :: bool
  mo_Metadata :: V2ClosureTagMetadata
  mo_TagObjectOID :: string
  mo_TagName :: string
  mo_Diagnostics :: V2VerifierDiagnostics
  mo_Mismatches :: "V2ClosureTagMetadataMismatch list"

definition zeroObservation :: V2ClosureTagMetadataObservation where
  "zeroObservation =
     \<lparr>mo_Read = False, mo_Bound = False, mo_Metadata = zeroTagMetadata, mo_TagObjectOID = '''', mo_TagName = '''',
      mo_Diagnostics = [], mo_Mismatches = []\<rparr>"

section \<open>Tag objects\<close>

text \<open>\<open>utf8.Valid\<close>.\<close>

definition inRange :: "nat \<Rightarrow> nat \<Rightarrow> char \<Rightarrow> bool" where
  "inRange lo hi c \<longleftrightarrow> lo \<le> of_char c \<and> of_char c \<le> hi"

fun utf8Valid :: "string \<Rightarrow> bool" where
  "utf8Valid [] = True"
| "utf8Valid (a # s) =
     (if inRange 0 0x7F a then utf8Valid s
      else case s of
        [] \<Rightarrow> False
      | b # s2 \<Rightarrow>
        if inRange 0xC2 0xDF a then inRange 0x80 0xBF b \<and> utf8Valid s2
        else case s2 of
          [] \<Rightarrow> False
        | c # s3 \<Rightarrow>
          if inRange 0xE0 0xEF a then
            inRange (if a = char_of (0xE0 :: nat) then 0xA0 else 0x80) (if a = char_of (0xED :: nat) then 0x9F else 0xBF) b \<and>
            inRange 0x80 0xBF c \<and> utf8Valid s3
          else case s3 of
            [] \<Rightarrow> False
          | d # s4 \<Rightarrow>
              inRange 0xF0 0xF4 a \<and>
              inRange (if a = char_of (0xF0 :: nat) then 0x90 else 0x80) (if a = char_of (0xF4 :: nat) then 0x8F else 0xBF) b \<and>
              inRange 0x80 0xBF c \<and> inRange 0x80 0xBF d \<and> utf8Valid s4)"

record V2ClosureTagObjectHeaders =
  th_Object :: string
  th_Type :: string
  th_Tag :: string
  th_Tagger :: string

definition zeroHeaders :: V2ClosureTagObjectHeaders where
  "zeroHeaders = \<lparr>th_Object = '''', th_Type = '''', th_Tag = '''', th_Tagger = ''''\<rparr>"

definition v2ClosureTagObjectHeaderNames :: "string list" where
  "v2ClosureTagObjectHeaderNames = [''object'', ''type'', ''tag'', ''tagger'']"

definition v2ClosureTagKnownHeader :: "string \<Rightarrow> bool" where
  "v2ClosureTagKnownHeader key = list_ex (\<lambda>k. k = key) v2ClosureTagObjectHeaderNames"

text \<open>The split at the first empty line.\<close>

fun splitBlank :: "string \<Rightarrow> (string \<times> string) option" where
  "splitBlank (a # b # s) =
     (if a = nlChar \<and> b = nlChar then Some ([], s)
      else map_option (\<lambda>(h, t). (a # h, t)) (splitBlank (b # s)))"
| "splitBlank _ = None"

definition splitV2ClosureTagHeaderBody :: "string \<Rightarrow> (string \<times> string) option" where
  "splitV2ClosureTagHeaderBody raw =
     (if raw = '''' then None
      else if crChar \<in> set raw \<and> nlChar \<notin> set raw then None
      else splitBlank raw)"

text \<open>Lines without their terminator; a last empty line does not count.\<close>

definition splitV2ClosureTagLines :: "string \<Rightarrow> string list" where
  "splitV2ClosureTagLines raw =
     (let ls = splitOn nlChar raw in if last ls = [] then butlast ls else ls)"

definition malformedObject :: "string \<Rightarrow> V2VerifierDiagnostic" where
  "malformedObject message = withProperty ''tag_object'' (NewV2VerifierDiagnostic V2VerifierClosureTagMetadataMalformed message)"

definition setHeader :: "string \<Rightarrow> string \<Rightarrow> V2ClosureTagObjectHeaders \<Rightarrow> V2ClosureTagObjectHeaders" where
  "setHeader key val headers =
     (if key = ''object'' then headers\<lparr>th_Object := val\<rparr>
      else if key = ''type'' then headers\<lparr>th_Type := val\<rparr>
      else if key = ''tag'' then headers\<lparr>th_Tag := val\<rparr>
      else if key = ''tagger'' then headers\<lparr>th_Tagger := val\<rparr>
      else headers)"

fun headerLoop ::
  "(string \<Rightarrow> string) \<Rightarrow> string list \<Rightarrow> V2ClosureTagObjectHeaders \<Rightarrow> string list \<Rightarrow>
   V2VerifierDiagnostic + V2ClosureTagObjectHeaders" where
  "headerLoop quote seen headers [] = Inr headers"
| "headerLoop quote seen headers (line # ls) =
     (let key = takeWhile (\<lambda>c. c \<noteq> CHR '' '') line; val = drop (length key + 1) line
      in if CHR '' '' \<notin> set line \<or> key = '''' then Inl (malformedObject (''tag header line is malformed: '' @ quote line))
         else if \<not> v2ClosureTagKnownHeader key then Inl (malformedObject (''tag header key '' @ quote key @ '' is unknown''))
         else if key \<in> set seen then Inl (malformedObject (''tag header '' @ quote key @ '' is duplicated''))
         else headerLoop quote (key # seen) (setHeader key val headers) ls)"

definition ParseV2ClosureTagObjectHeaders ::
  "(string \<Rightarrow> string) \<Rightarrow> string \<Rightarrow> V2VerifierDiagnostic + V2ClosureTagObjectHeaders \<times> string" where
  "ParseV2ClosureTagObjectHeaders quote raw =
     (if raw = '''' then Inl (malformedObject ''tag object bytes are empty'')
      else if nulChar \<in> set raw then Inl (malformedObject ''tag object bytes contain NUL'')
      else case splitV2ClosureTagHeaderBody raw of
        None \<Rightarrow> Inl (malformedObject ''tag object missing blank header/body separator'')
      | Some (headerBytes, body) \<Rightarrow>
          bindE (headerLoop quote [] zeroHeaders (splitV2ClosureTagLines headerBytes)) (\<lambda>headers.
            if th_Object headers = '''' then Inl (malformedObject ''tag object header missing required field: object'')
            else if th_Type headers = '''' then Inl (malformedObject ''tag object header missing required field: type'')
            else if th_Type headers \<noteq> ''commit'' then
              Inl (malformedObject (''tag object type '' @ quote (th_Type headers) @ '' is not commit''))
            else if th_Tag headers = '''' then Inl (malformedObject ''tag object header missing required field: tag'')
            else Inr (headers, body)))"

section \<open>Trailers\<close>

definition SplitV2ClosureTagMessageBody :: "string \<Rightarrow> string option" where
  "SplitV2ClosureTagMessageBody raw =
     (if crChar \<in> set raw \<and> nlChar \<notin> set raw then None
      else if nulChar \<in> set raw then None
      else if \<not> utf8Valid raw then None
      else Some raw)"

definition parseV2ClosureTagTrailerLine :: "string \<Rightarrow> (string \<times> string) option" where
  "parseV2ClosureTagTrailerLine line =
     (let before = takeWhile (\<lambda>c. c \<noteq> CHR '':'') line; value0 = drop (length before + 1) line; value = drop 1 value0
      in if line = '''' \<or> CHR '':'' \<notin> set line \<or> before = '''' then None
         else if \<not> prefix '' '' value0 then None
         else if value \<noteq> trimRightChar (CHR '' '') value then None
         else if trimSpace value \<noteq> value then None
         else if value = '''' then None
         else Some (trimSpace before, value))"

definition v2ClosureTagKeyIsKnown :: "string \<Rightarrow> bool" where
  "v2ClosureTagKeyIsKnown key = list_ex (\<lambda>k. k = key) V2TagMetadataAllKeys"

text \<open>\<open>strconv.Atoi\<close> for base ten.\<close>

definition atoi :: "string \<Rightarrow> int option" where
  "atoi s =
     (let neg = (s \<noteq> [] \<and> hd s = CHR ''-''); ds = (if s \<noteq> [] \<and> (hd s = CHR ''-'' \<or> hd s = CHR ''+'') then tl s else s);
          v = int (digitsValue 0 ds); n = (if neg then - v else v)
      in if ds = [] \<or> \<not> list_all isDigit ds \<or> n < - (2 ^ 63) \<or> 2 ^ 63 \<le> n then None else Some n)"

definition assignV2ClosureTagMetadataOID ::
  "(string \<Rightarrow> string) \<Rightarrow> V2ClosureTagMetadata \<Rightarrow> string \<Rightarrow> string \<Rightarrow> string + V2ClosureTagMetadata" where
  "assignV2ClosureTagMetadataOID quote meta key value =
     (if length value \<noteq> 40 then
        Inl (''metadata '' @ quote key @ '' OID must be 40-char hex, got '' @ itoa (int (length value)) @ '' chars'')
      else if \<not> list_all lower_hex value then
        Inl (''metadata '' @ quote key @ '' OID '' @ quote value @ '' is not lowercase hex'')
      else Inr (if key = V2TagMetadataSubjectCommit then meta\<lparr>tm_SubjectCommit := value\<rparr>
                else if key = V2TagMetadataFreezeCommit then meta\<lparr>tm_FreezeCommit := value\<rparr>
                else if key = V2TagMetadataClosureCommit then meta\<lparr>tm_ClosureCommit := value\<rparr> else meta))"

definition assignV2ClosureTagMetadataPath ::
  "(string \<Rightarrow> string) \<Rightarrow> V2ClosureTagMetadata \<Rightarrow> string \<Rightarrow> string \<Rightarrow> string + V2ClosureTagMetadata" where
  "assignV2ClosureTagMetadataPath quote meta key value =
     (if value = '''' then Inl (''metadata '' @ quote key @ '' value is empty'')
      else if crChar \<in> set value \<or> nlChar \<in> set value then Inl (''metadata '' @ quote key @ '' value contains newline'')
      else Inr (if key = V2TagMetadataPlanPath then meta\<lparr>tm_PlanPath := value\<rparr>
                else if key = V2TagMetadataManifestPath then meta\<lparr>tm_ManifestPath := value\<rparr> else meta))"

definition assignV2ClosureTagMetadata ::
  "(string \<Rightarrow> string) \<Rightarrow> V2ClosureTagMetadata \<Rightarrow> string \<Rightarrow> string \<Rightarrow> string + V2ClosureTagMetadata" where
  "assignV2ClosureTagMetadata quote meta key value =
     (if key = V2TagMetadataClosureProtocolVersion then Inr (meta\<lparr>tm_ClosureProtocolVersion := value\<rparr>)
      else if key = V2TagMetadataPlanContractVersion then
        (case atoi value of
           None \<Rightarrow> Inl (''plan contract version '' @ quote value @ '' is not an integer'')
         | Some n \<Rightarrow> Inr (meta\<lparr>tm_PlanContractVersion := n\<rparr>))
      else if key \<in> {V2TagMetadataSubjectCommit, V2TagMetadataFreezeCommit, V2TagMetadataClosureCommit} then
        assignV2ClosureTagMetadataOID quote meta key value
      else if key \<in> {V2TagMetadataPlanPath, V2TagMetadataManifestPath} then
        assignV2ClosureTagMetadataPath quote meta key value
      else Inl (''unknown metadata key '' @ quote key))"

definition metadataDiag :: "V2VerifierCode \<Rightarrow> string \<Rightarrow> string \<Rightarrow> V2VerifierDiagnostic" where
  "metadataDiag code key message = withProperty (V2TagMetadataPropertyName key) (NewV2VerifierDiagnostic code message)"

text \<open>The trailers that count, in order: those whose key has the prefix.\<close>

definition leamasTrailers :: "string \<Rightarrow> (string \<times> string) list" where
  "leamasTrailers body =
     filter (\<lambda>(key, value). prefix ''Leamas-'' key)
       (concat (map (\<lambda>line. case parseV2ClosureTagTrailerLine line of Some kv \<Rightarrow> [kv] | None \<Rightarrow> []) (splitV2ClosureTagLines body)))"

fun collectTrailers ::
  "(string \<Rightarrow> string) \<Rightarrow> string list \<Rightarrow> (string \<times> string) list \<Rightarrow> (string \<times> string) list \<times> V2VerifierDiagnostics" where
  "collectTrailers quote seen [] = ([], [])"
| "collectTrailers quote seen ((key, value) # kvs) =
     (if key \<in> set seen then
        (let (ts, ds) = collectTrailers quote seen kvs
         in (ts, metadataDiag V2VerifierClosureTagMetadataDuplicate key (''tag metadata key '' @ quote key @ '' is duplicated'') # ds))
      else
        (let (ts, ds) = collectTrailers quote (key # seen) kvs in ((key, value) # ts, ds)))"

fun assignTrailers ::
  "(string \<Rightarrow> string) \<Rightarrow> V2ClosureTagMetadata \<Rightarrow> (string \<times> string) list \<Rightarrow> V2ClosureTagMetadata \<times> V2VerifierDiagnostics" where
  "assignTrailers quote meta [] = (meta, [])"
| "assignTrailers quote meta ((key, value) # kvs) =
     (if \<not> v2ClosureTagKeyIsKnown key then
        (let (m, ds) = assignTrailers quote meta kvs
         in (m, metadataDiag V2VerifierClosureTagMetadataUnknown key (''tag metadata key '' @ quote key @ '' is not recognised'') # ds))
      else case assignV2ClosureTagMetadata quote meta key value of
        Inl err \<Rightarrow> (let (m, ds) = assignTrailers quote meta kvs
                    in (m, metadataDiag V2VerifierClosureTagMetadataMalformed key err # ds))
      | Inr meta' \<Rightarrow> assignTrailers quote meta' kvs)"

definition ParseV2ClosureTagMetadataTrailers ::
  "(string \<Rightarrow> string) \<Rightarrow> string \<Rightarrow> V2ClosureTagMetadata \<times> V2VerifierDiagnostics" where
  "ParseV2ClosureTagMetadataTrailers quote raw =
     (case SplitV2ClosureTagMessageBody raw of
        None \<Rightarrow> (zeroTagMetadata, [withProperty ''tag_metadata'' (NewV2VerifierDiagnostic V2VerifierClosureTagMetadataMalformed
                   ''tag message body is not valid UTF-8 or has CR-only endings'')])
      | Some body \<Rightarrow>
          let (trailers, duplicates) = collectTrailers quote [] (leamasTrailers body);
              missing = map (\<lambda>key. metadataDiag V2VerifierClosureTagMetadataMissing key (''tag metadata key '' @ quote key @ '' is missing''))
                (filter (\<lambda>key. key \<notin> fst ` set trailers) V2TagMetadataAllKeys);
              (metadata, assignDiags) = assignTrailers quote zeroTagMetadata trailers
          in (metadata, duplicates @ missing @ assignDiags))"

section \<open>Binding\<close>

definition BindV2ClosureTagMetadata ::
  "(string \<Rightarrow> string) \<Rightarrow> V2ClosureTagMetadata \<Rightarrow> string \<Rightarrow> string \<Rightarrow> string \<Rightarrow> string \<Rightarrow> string \<Rightarrow> ClosureProtocolVersion \<Rightarrow>
   PlanContractVersion \<Rightarrow> V2VerifierDiagnostics" where
  "BindV2ClosureTagMetadata quote metadata subject freeze closure planPath manifestPath protocolVersion planContractVersion =
     concat (map (\<lambda>(key, observed, expected).
       if observed \<noteq> expected
       then [withObserved observed (withExpected expected (metadataDiag V2VerifierClosureTagMetadataMismatch key
              (''tag metadata '' @ quote key @ ''='' @ quote observed @ '', expected '' @ quote expected)))]
       else [])
     [(V2TagMetadataClosureProtocolVersion, tm_ClosureProtocolVersion metadata, protocolVersion),
      (V2TagMetadataPlanContractVersion, itoa (tm_PlanContractVersion metadata), itoa planContractVersion),
      (V2TagMetadataSubjectCommit, tm_SubjectCommit metadata, subject),
      (V2TagMetadataFreezeCommit, tm_FreezeCommit metadata, freeze),
      (V2TagMetadataClosureCommit, tm_ClosureCommit metadata, closure),
      (V2TagMetadataPlanPath, tm_PlanPath metadata, planPath),
      (V2TagMetadataManifestPath, tm_ManifestPath metadata, manifestPath)])"

definition v2ClosureTagMetadataMismatchesFromDiags :: "V2VerifierDiagnostics \<Rightarrow> V2ClosureTagMetadataMismatch list" where
  "v2ClosureTagMetadataMismatchesFromDiags diags =
     concat (map (\<lambda>d. case find (\<lambda>key. V2TagMetadataPropertyName key = vd_PropertyName d) V2TagMetadataAllKeys of
       Some key \<Rightarrow> [\<lparr>mm_Key = key, mm_Expected = vd_Expected d, mm_Observed = vd_Observed d\<rparr>] | None \<Rightarrow> []) diags)"

definition ResolveV2ClosureTagMetadataObservation ::
  "(string \<Rightarrow> string) \<Rightarrow> gitAuthority \<Rightarrow> string \<Rightarrow> string \<Rightarrow> string \<Rightarrow> string \<Rightarrow> string \<Rightarrow> string \<Rightarrow> string \<Rightarrow>
   ClosureProtocolVersion \<Rightarrow> PlanContractVersion \<Rightarrow> V2ClosureTagMetadataObservation" where
  "ResolveV2ClosureTagMetadataObservation quote authority tagOID tagName subject freeze closure planPath manifestPath
     protocolVersion planContractVersion =
     (let obs = zeroObservation\<lparr>mo_TagObjectOID := tagOID, mo_TagName := tagName\<rparr>
      in if tagOID = '''' then
        obs\<lparr>mo_Diagnostics := [tagDiag V2VerifierClosureTagUnreadable ''annotated tag object OID is empty'']\<rparr>
      else case authorityRunGitCatFileTag authority tagOID of
        Inl err \<Rightarrow>
          obs\<lparr>mo_Diagnostics := [withObjectOID tagOID (withProperty ''tag_object'' (NewV2VerifierDiagnostic
            V2VerifierClosureTagUnreadable (''annotated tag object '' @ tagOID @ '' unreadable: '' @ err)))]\<rparr>
      | Inr raw \<Rightarrow>
      (case ParseV2ClosureTagObjectHeaders quote raw of
        Inl diag \<Rightarrow> obs\<lparr>mo_Diagnostics := [diag]\<rparr>
      | Inr (headers, body) \<Rightarrow>
        if th_Object headers \<noteq> closure then
          obs\<lparr>mo_Diagnostics := [withObserved (th_Object headers) (withExpected closure (withProperty ''tag_target''
            (NewV2VerifierDiagnostic V2VerifierClosureTagMetadataMismatch
              (''annotated tag object points at '' @ th_Object headers @ '', expected '' @ closure))))]\<rparr>
        else
        let (metadata, trailerDiags) = ParseV2ClosureTagMetadataTrailers quote body in
        if trailerDiags \<noteq> [] then obs\<lparr>mo_Diagnostics := trailerDiags\<rparr>
        else
        let mismatchDiags = BindV2ClosureTagMetadata quote metadata subject freeze closure planPath manifestPath
              protocolVersion planContractVersion in
        if mismatchDiags \<noteq> [] then
          obs\<lparr>mo_Mismatches := v2ClosureTagMetadataMismatchesFromDiags mismatchDiags, mo_Diagnostics := mismatchDiags\<rparr>
        else obs\<lparr>mo_Metadata := metadata, mo_Read := True, mo_Bound := True\<rparr>))"

section \<open>What a bound tag declares\<close>

text \<open>The values the parser takes for a key, and the metadata a set of trailers describes.\<close>

definition trailerValueOk :: "string \<Rightarrow> string \<Rightarrow> bool" where
  "trailerValueOk key value \<longleftrightarrow>
     (key = V2TagMetadataPlanContractVersion \<longrightarrow> atoi value \<noteq> None) \<and>
     (key \<in> {V2TagMetadataSubjectCommit, V2TagMetadataFreezeCommit, V2TagMetadataClosureCommit} \<longrightarrow> sha1Pattern value) \<and>
     (key \<in> {V2TagMetadataPlanPath, V2TagMetadataManifestPath} \<longrightarrow> value \<noteq> '''' \<and> crChar \<notin> set value \<and> nlChar \<notin> set value)"

definition fieldOr :: "'a \<Rightarrow> (string \<Rightarrow> 'a) \<Rightarrow> (string \<rightharpoonup> string) \<Rightarrow> string \<Rightarrow> 'a" where
  "fieldOr old f M key = (case M key of None \<Rightarrow> old | Some v \<Rightarrow> f v)"

definition describedBy :: "V2ClosureTagMetadata \<Rightarrow> (string \<rightharpoonup> string) \<Rightarrow> V2ClosureTagMetadata" where
  "describedBy meta M =
     \<lparr>tm_ClosureProtocolVersion = fieldOr (tm_ClosureProtocolVersion meta) id M V2TagMetadataClosureProtocolVersion,
      tm_PlanContractVersion = fieldOr (tm_PlanContractVersion meta) (the \<circ> atoi) M V2TagMetadataPlanContractVersion,
      tm_SubjectCommit = fieldOr (tm_SubjectCommit meta) id M V2TagMetadataSubjectCommit,
      tm_FreezeCommit = fieldOr (tm_FreezeCommit meta) id M V2TagMetadataFreezeCommit,
      tm_ClosureCommit = fieldOr (tm_ClosureCommit meta) id M V2TagMetadataClosureCommit,
      tm_PlanPath = fieldOr (tm_PlanPath meta) id M V2TagMetadataPlanPath,
      tm_ManifestPath = fieldOr (tm_ManifestPath meta) id M V2TagMetadataManifestPath\<rparr>"

lemma describedBy_empty [simp]: "describedBy meta Map.empty = meta"
  by (simp add: describedBy_def fieldOr_def)

lemma known_key_iff: "v2ClosureTagKeyIsKnown key \<longleftrightarrow> key \<in> set V2TagMetadataAllKeys"
  by (auto simp: v2ClosureTagKeyIsKnown_def list_ex_iff)

lemma assign_known:
  assumes "key \<in> set V2TagMetadataAllKeys"
  shows "if trailerValueOk key value
         then assignV2ClosureTagMetadata quote meta key value = Inr (describedBy meta [key \<mapsto> value])
         else \<exists>err. assignV2ClosureTagMetadata quote meta key value = Inl err"
  using assms
  by (auto simp: V2TagMetadataAllKeys_def trailerValueOk_def assignV2ClosureTagMetadata_def sha1Pattern_def
        assignV2ClosureTagMetadataOID_def assignV2ClosureTagMetadataPath_def describedBy_def fieldOr_def split: option.split)

lemma fieldOr_step:
  "key \<notin> dom M \<Longrightarrow> fieldOr (fieldOr old f [key \<mapsto> v] K) f M K = fieldOr old f (M(key \<mapsto> v)) K"
  by (auto simp: fieldOr_def split: option.split)

lemma describedBy_step:
  "key \<notin> dom M \<Longrightarrow> describedBy (describedBy meta [key \<mapsto> value]) M = describedBy meta (M(key \<mapsto> value))"
  by (simp add: describedBy_def fieldOr_step del: fun_upd_apply)

lemma collectTrailers_kept: "snd (collectTrailers quote seen kvs) = [] \<Longrightarrow> fst (collectTrailers quote seen kvs) = kvs"
  by (induction quote seen kvs rule: collectTrailers.induct) (auto simp: split_def Let_def split: if_splits)

lemma collectTrailers_silent:
  "snd (collectTrailers quote seen kvs) = [] \<longleftrightarrow> distinct (map fst kvs) \<and> set (map fst kvs) \<inter> set seen = {}"
  by (induction quote seen kvs rule: collectTrailers.induct) (auto simp: split_def Let_def)

lemma assignTrailers_clean:
  "distinct (map fst kvs) \<Longrightarrow>
   assignTrailers quote meta kvs = (m, []) \<longleftrightarrow>
     list_all (\<lambda>(k, v). k \<in> set V2TagMetadataAllKeys \<and> trailerValueOk k v) kvs \<and> m = describedBy meta (map_of kvs)"
proof (induction kvs arbitrary: meta m)
  case Nil
  show ?case by auto
next
  case (Cons kv kvs)
  obtain k v where kv: "kv = (k, v)" by (cases kv)
  with Cons.prems have k: "k \<notin> dom (map_of kvs)" and d: "distinct (map fst kvs)"
    by (auto simp: dom_map_of_conv_image_fst)
  show ?case
  proof (cases "k \<in> set V2TagMetadataAllKeys")
    case False
    then show ?thesis by (auto simp: kv known_key_iff split: prod.split)
  next
    case True
    then show ?thesis
      using assign_known[OF True, of v quote meta] Cons.IH[OF d, of "describedBy meta [k \<mapsto> v]" m]
      by (simp add: kv known_key_iff describedBy_step[OF k] del: fun_upd_apply split: if_splits prod.split)
        (auto simp: Let_def split: prod.splits)
  qed
qed

definition declaresMetadata ::
  "string \<Rightarrow> string \<Rightarrow> string \<Rightarrow> string \<Rightarrow> string \<Rightarrow> string \<Rightarrow> ClosureProtocolVersion \<Rightarrow> PlanContractVersion \<Rightarrow> bool" where
  "declaresMetadata body S F C P M pv cv \<longleftrightarrow>
     (let ts = leamasTrailers body; declared = map_of ts in
      (nlChar \<in> set body \<or> crChar \<notin> set body) \<and> nulChar \<notin> set body \<and> utf8Valid body \<and>
      distinct (map fst ts) \<and> set (map fst ts) = set V2TagMetadataAllKeys \<and>
      declared V2TagMetadataClosureProtocolVersion = Some pv \<and>
      Option.bind (declared V2TagMetadataPlanContractVersion) atoi = Some cv \<and>
      declared V2TagMetadataSubjectCommit = Some S \<and> sha1Pattern S \<and>
      declared V2TagMetadataFreezeCommit = Some F \<and> sha1Pattern F \<and>
      declared V2TagMetadataClosureCommit = Some C \<and> sha1Pattern C \<and>
      declared V2TagMetadataPlanPath = Some P \<and> declared V2TagMetadataManifestPath = Some M \<and>
      list_all (\<lambda>p. p \<noteq> '''' \<and> crChar \<notin> set p \<and> nlChar \<notin> set p) [P, M])"

lemma trailers_clean_iff:
  "ParseV2ClosureTagMetadataTrailers quote raw = (m, []) \<longleftrightarrow>
   (let ts = leamasTrailers raw in
     (nlChar \<in> set raw \<or> crChar \<notin> set raw) \<and> nulChar \<notin> set raw \<and> utf8Valid raw \<and>
     distinct (map fst ts) \<and> set (map fst ts) = set V2TagMetadataAllKeys \<and>
     list_all (\<lambda>(k, v). trailerValueOk k v) ts \<and> m = describedBy zeroTagMetadata (map_of ts))"
proof -
  let ?ts = "leamasTrailers raw"
  let ?ok = "(nlChar \<in> set raw \<or> crChar \<notin> set raw) \<and> nulChar \<notin> set raw \<and> utf8Valid raw"
  have keysIn: "list_all (\<lambda>(k, v). k \<in> K \<and> trailerValueOk k v) ts \<longleftrightarrow>
    fst ` set ts \<subseteq> K \<and> list_all (\<lambda>(k, v). trailerValueOk k v) ts" for K ts
    by (induction ts) auto
  obtain cs ds where c: "collectTrailers quote [] ?ts = (cs, ds)" by fastforce
  obtain m' as where a: "assignTrailers quote zeroTagMetadata cs = (m', as)" by fastforce
  have dd: "ds = [] \<longleftrightarrow> distinct (map fst ?ts)" and cs: "ds = [] \<Longrightarrow> cs = ?ts"
    using collectTrailers_silent[of quote "[]" ?ts] collectTrailers_kept[of quote "[]" ?ts] c by auto
  have "ParseV2ClosureTagMetadataTrailers quote raw = (m, []) \<longleftrightarrow>
    ?ok \<and> m = m' \<and> ds = [] \<and> as = [] \<and> set V2TagMetadataAllKeys \<subseteq> fst ` set cs"
    by (auto simp: ParseV2ClosureTagMetadataTrailers_def SplitV2ClosureTagMessageBody_def c a filter_empty_conv)
  also have "\<dots> \<longleftrightarrow> ?ok \<and> distinct (map fst ?ts) \<and> assignTrailers quote zeroTagMetadata ?ts = (m, []) \<and>
    set V2TagMetadataAllKeys \<subseteq> fst ` set ?ts"
    using dd cs a by auto
  also have "\<dots> \<longleftrightarrow> (let ts = leamasTrailers raw in
     ?ok \<and> distinct (map fst ts) \<and> set (map fst ts) = set V2TagMetadataAllKeys \<and>
     list_all (\<lambda>(k, v). trailerValueOk k v) ts \<and> m = describedBy zeroTagMetadata (map_of ts))"
    using assignTrailers_clean[of ?ts quote zeroTagMetadata m] keysIn by (auto simp: Let_def)
  finally show ?thesis by (simp add: Let_def)
qed

lemma map_of_field:
  assumes "set (map fst ts) = set V2TagMetadataAllKeys" "list_all (\<lambda>(k, v). trailerValueOk k v) ts"
    "key \<in> set V2TagMetadataAllKeys"
  obtains v where "map_of ts key = Some v" "trailerValueOk key v"
proof -
  from assms(1,3) obtain v where v: "map_of ts key = Some v"
    by (metis list.set_map map_of_eq_None_iff not_Some_eq)
  with assms(2) show thesis by (intro that[OF v]) (auto simp: list_all_iff dest: map_of_SomeD)
qed

lemma trailerValueOk_fields:
  "trailerValueOk V2TagMetadataPlanContractVersion v \<longleftrightarrow> atoi v \<noteq> None"
  "trailerValueOk V2TagMetadataClosureProtocolVersion v"
  "trailerValueOk V2TagMetadataSubjectCommit v \<longleftrightarrow> sha1Pattern v"
  "trailerValueOk V2TagMetadataFreezeCommit v \<longleftrightarrow> sha1Pattern v"
  "trailerValueOk V2TagMetadataClosureCommit v \<longleftrightarrow> sha1Pattern v"
  "trailerValueOk V2TagMetadataPlanPath v \<longleftrightarrow> v \<noteq> '''' \<and> crChar \<notin> set v \<and> nlChar \<notin> set v"
  "trailerValueOk V2TagMetadataManifestPath v \<longleftrightarrow> v \<noteq> '''' \<and> crChar \<notin> set v \<and> nlChar \<notin> set v"
  by (simp_all add: trailerValueOk_def)

lemma all_values_ok:
  assumes "distinct (map fst ts)" "set (map fst ts) = set V2TagMetadataAllKeys"
  shows "list_all (\<lambda>(k, v). trailerValueOk k v) ts \<longleftrightarrow>
    list_all (\<lambda>k. \<exists>v. map_of ts k = Some v \<and> trailerValueOk k v) V2TagMetadataAllKeys"
  (is "?l = ?r")
proof
  assume l: ?l
  have "\<exists>v. map_of ts k = Some v \<and> trailerValueOk k v" if k: "k \<in> set V2TagMetadataAllKeys" for k
    by (rule map_of_field[OF assms(2) l k]) blast
  then show ?r by (simp add: list_all_iff)
next
  assume r: ?r
  have "trailerValueOk k v" if kv: "(k, v) \<in> set ts" for k v
  proof -
    have "k \<in> set V2TagMetadataAllKeys" using assms(2) kv by force
    with r obtain w where "map_of ts k = Some w" "trailerValueOk k w" by (auto simp: list_all_iff)
    with map_of_is_SomeI[OF assms(1) kv] show ?thesis by simp
  qed
  then show ?l by (auto simp: list_all_iff)
qed

lemma itoa_eq_iff [simp]: "itoa m = itoa n \<longleftrightarrow> m = n"
  by (metis jsonNumber_itoa option.inject prod.inject)

lemma bind_empty_iff:
  "BindV2ClosureTagMetadata quote m S F C P M pv cv = [] \<longleftrightarrow>
   m = \<lparr>tm_ClosureProtocolVersion = pv, tm_PlanContractVersion = cv, tm_SubjectCommit = S, tm_FreezeCommit = F,
        tm_ClosureCommit = C, tm_PlanPath = P, tm_ManifestPath = M\<rparr>"
  by (cases m) (auto simp: BindV2ClosureTagMetadata_def)

lemma fieldOr_iff: "declared k = Some x \<and> Q x \<longleftrightarrow> (\<exists>v. declared k = Some v \<and> Q v) \<and> fieldOr z id declared k = x"
  by (cases "declared k") (auto simp: fieldOr_def)

lemma fieldOr_atoi_iff:
  "Option.bind (declared k) atoi = Some n \<longleftrightarrow>
   (\<exists>v. declared k = Some v \<and> atoi v \<noteq> None) \<and> fieldOr z (the \<circ> atoi) declared k = n"
  by (cases "declared k") (auto simp: fieldOr_def)

abbreviation pathValue :: "string \<Rightarrow> bool" where
  "pathValue p \<equiv> p \<noteq> '''' \<and> crChar \<notin> set p \<and> nlChar \<notin> set p"

lemma described_fields:
  "(declared V2TagMetadataClosureProtocolVersion = Some pv \<and>
    Option.bind (declared V2TagMetadataPlanContractVersion) atoi = Some cv \<and>
    declared V2TagMetadataSubjectCommit = Some S \<and> sha1Pattern S \<and>
    declared V2TagMetadataFreezeCommit = Some F \<and> sha1Pattern F \<and>
    declared V2TagMetadataClosureCommit = Some C \<and> sha1Pattern C \<and>
    declared V2TagMetadataPlanPath = Some P \<and> declared V2TagMetadataManifestPath = Some M \<and>
    list_all pathValue [P, M]) \<longleftrightarrow>
   list_all (\<lambda>k. \<exists>v. declared k = Some v \<and> trailerValueOk k v) V2TagMetadataAllKeys \<and>
   describedBy zeroTagMetadata declared =
     \<lparr>tm_ClosureProtocolVersion = pv, tm_PlanContractVersion = cv, tm_SubjectCommit = S, tm_FreezeCommit = F,
      tm_ClosureCommit = C, tm_PlanPath = P, tm_ManifestPath = M\<rparr>"
proof -
  let ?z = zeroTagMetadata
  note iffs =
    fieldOr_iff[of declared V2TagMetadataClosureProtocolVersion pv "\<lambda>_. True" "tm_ClosureProtocolVersion ?z"]
    fieldOr_atoi_iff[of declared V2TagMetadataPlanContractVersion cv "tm_PlanContractVersion ?z"]
    fieldOr_iff[of declared V2TagMetadataSubjectCommit S sha1Pattern "tm_SubjectCommit ?z"]
    fieldOr_iff[of declared V2TagMetadataFreezeCommit F sha1Pattern "tm_FreezeCommit ?z"]
    fieldOr_iff[of declared V2TagMetadataClosureCommit C sha1Pattern "tm_ClosureCommit ?z"]
    fieldOr_iff[of declared V2TagMetadataPlanPath P pathValue "tm_PlanPath ?z"]
    fieldOr_iff[of declared V2TagMetadataManifestPath M pathValue "tm_ManifestPath ?z"]
  note t = trailerValueOk_fields(2)[THEN eqTrueI] list.pred_inject(1)[THEN eqTrueI]
  show ?thesis
    unfolding V2TagMetadataAllKeys_def list.pred_inject(2) trailerValueOk_fields(1,3-7) t describedBy_def
      V2ClosureTagMetadata.ext_inject
    using iffs by argo
qed

lemma declares_iff:
  "declaresMetadata body S F C P M pv cv \<longleftrightarrow>
   (\<exists>m. ParseV2ClosureTagMetadataTrailers quote body = (m, []) \<and> BindV2ClosureTagMetadata quote m S F C P M pv cv = [])"
proof -
  let ?ts = "leamasTrailers body"
  note all_values_ok[of ?ts]
  then show ?thesis
    unfolding trailers_clean_iff bind_empty_iff Let_def declaresMetadata_def described_fields simp_thms ex_simps
    by blast
qed

section \<open>Bound observations\<close>

lemma observation_bound:
  "mo_Bound (ResolveV2ClosureTagMetadataObservation quote authority tagOID tagName S F C P M pv cv) \<longleftrightarrow>
   tagOID \<noteq> '''' \<and>
   (case authorityRunGitCatFileTag authority tagOID of
      Inl err \<Rightarrow> False
    | Inr raw \<Rightarrow> (case ParseV2ClosureTagObjectHeaders quote raw of
        Inl diag \<Rightarrow> False
      | Inr (headers, body) \<Rightarrow> th_Object headers = C \<and> declaresMetadata body S F C P M pv cv))"
  unfolding ResolveV2ClosureTagMetadataObservation_def Let_def declares_iff[where quote = quote]
  by (auto simp: zeroObservation_def split: sum.split prod.split)

text \<open>
  C18. With \<open>--expected-tag\<close> the metadata phase binds a tag exactly when git returns the bytes of
  the tag object, its headers name the closure commit, and its message declares each of the seven
  keys once, with the values of the request, and no other key with the prefix.  There are no
  other ways to be bound, and a bound tag is always reported as read.
\<close>

theorem tag_metadata_bound_iff:
  "mo_Bound (ResolveV2ClosureTagMetadataObservation quote authority tagOID tagName S F C P M pv cv) \<longleftrightarrow>
   tagOID \<noteq> '''' \<and>
   (case authorityRunGitCatFileTag authority tagOID of
      Inl err \<Rightarrow> False
    | Inr raw \<Rightarrow> (case ParseV2ClosureTagObjectHeaders quote raw of
        Inl diag \<Rightarrow> False
      | Inr (headers, body) \<Rightarrow> th_Object headers = C \<and> declaresMetadata body S F C P M pv cv))"
  by (rule observation_bound)

lemma bound_needs_trailers:
  assumes "mo_Bound (ResolveV2ClosureTagMetadataObservation quote authority tagOID tagName S F C P M pv cv)"
    and "authorityRunGitCatFileTag authority tagOID = Inr raw"
  obtains h body where "splitBlank raw = Some (h, body)" "leamasTrailers body \<noteq> []"
proof -
  from assms obtain headers body where p: "ParseV2ClosureTagObjectHeaders quote raw = Inr (headers, body)"
    and m: "declaresMetadata body S F C P M pv cv"
    unfolding observation_bound by (auto split: sum.splits prod.splits)
  from p obtain h where "splitBlank raw = Some (h, body)"
    unfolding ParseV2ClosureTagObjectHeaders_def splitV2ClosureTagHeaderBody_def
    by (auto simp: bindE_eq_Inr split: if_splits option.splits)
  moreover have "leamasTrailers body \<noteq> []"
  proof -
    have "set (map fst (leamasTrailers body)) = set V2TagMetadataAllKeys"
      using m unfolding declaresMetadata_def Let_def by (elim conjE)
    moreover have "V2TagMetadataAllKeys \<noteq> []" by (simp add: V2TagMetadataAllKeys_def)
    ultimately show ?thesis by (metis list.map_disc_iff set_empty)
  qed
  ultimately show thesis by (rule that)
qed

section \<open>The tag the runner writes\<close>

record v2TagInput =
  ti_ActID :: string
  ti_TagName :: string
  ti_ClosureCommit :: string
  ti_ClosureTree :: string
  ti_FreezeCommit :: string
  ti_FreezeTree :: string
  ti_SubjectCommit :: string
  ti_SubjectTree :: string
  ti_PlanBlobOID :: string
  ti_PlanSHA256 :: string
  ti_ManifestBlobOID :: string
  ti_ManifestSHA256 :: string
  ti_ReportBlobOID :: string
  ti_ReportSHA256 :: string
  ti_EvidenceSHA256 :: string
  ti_RunnerRevision :: string
  ti_RunnerBinarySHA :: string

abbreviation v2ClosureName :: string where
  "v2ClosureName \<equiv> ''Leamas Closure''"

abbreviation v2ClosureEmail :: string where
  "v2ClosureEmail \<equiv> ''closure@leamas.local''"

definition v2TagLines :: "v2TagInput \<Rightarrow> int \<Rightarrow> string list" where
  "v2TagLines input epoch =
     [''object '' @ ti_ClosureCommit input,
      ''type commit'',
      ''tag '' @ ti_TagName input,
      ''tagger '' @ v2ClosureName @ '' <'' @ v2ClosureEmail @ ''> '' @ itoa epoch @ '' +0000'',
      '''',
      ''Closure Protocol v2: '' @ ti_ActID input,
      '''',
      ''F '' @ ti_FreezeCommit input, ''F_TREE '' @ ti_FreezeTree input,
      ''S '' @ ti_SubjectCommit input, ''S_TREE '' @ ti_SubjectTree input,
      ''C '' @ ti_ClosureCommit input, ''C_TREE '' @ ti_ClosureTree input,
      ''PLAN_BLOB '' @ ti_PlanBlobOID input, ''PLAN_SHA256 '' @ ti_PlanSHA256 input,
      ''MANIFEST_BLOB '' @ ti_ManifestBlobOID input, ''MANIFEST_SHA256 '' @ ti_ManifestSHA256 input,
      ''REPORT_BLOB '' @ ti_ReportBlobOID input, ''REPORT_SHA256 '' @ ti_ReportSHA256 input,
      ''EVIDENCE_INDEX_SHA256 '' @ ti_EvidenceSHA256 input,
      ''RUNNER_VCS_REVISION '' @ ti_RunnerRevision input, ''RUNNER_BINARY_SHA256 '' @ ti_RunnerBinarySHA input]"

definition renderV2TagBytes :: "v2TagInput \<Rightarrow> int \<Rightarrow> string" where
  "renderV2TagBytes input epoch = concat (map (\<lambda>l. l @ [nlChar]) (v2TagLines input epoch))"

definition tagInputStrings :: "v2TagInput \<Rightarrow> string list" where
  "tagInputStrings input =
     [ti_ActID input, ti_TagName input, ti_ClosureCommit input, ti_ClosureTree input, ti_FreezeCommit input,
      ti_FreezeTree input, ti_SubjectCommit input, ti_SubjectTree input, ti_PlanBlobOID input, ti_PlanSHA256 input,
      ti_ManifestBlobOID input, ti_ManifestSHA256 input, ti_ReportBlobOID input, ti_ReportSHA256 input,
      ti_EvidenceSHA256 input, ti_RunnerRevision input, ti_RunnerBinarySHA input]"

text \<open>A line that cannot hold a trailer of the contract.\<close>

definition plainLine :: "string \<Rightarrow> bool" where
  "plainLine l \<longleftrightarrow> l = [] \<or> graphic (hd l) \<and> hd l \<noteq> CHR ''L''"

lemma splitOn_nonempty: "splitOn c xs \<noteq> []"
  by (cases xs) (auto split: list.split)

lemma splitOn_append: "splitOn c (xs @ c # ys) = splitOn c xs @ splitOn c ys"
proof (induction xs)
  case (Cons x xs)
  then show ?case by (cases "splitOn c xs") (auto simp: splitOn_nonempty)
qed simp

lemma splitBlank_Some: "splitBlank raw = Some (h, b) \<Longrightarrow> raw = h @ nlChar # nlChar # b"
  by (induction raw arbitrary: h rule: splitBlank.induct) (auto split: if_splits)

lemma splitOn_concat:
  "list_all (\<lambda>l. nlChar \<notin> set l) ls \<Longrightarrow> splitOn nlChar (concat (map (\<lambda>l. l @ [nlChar]) ls)) = ls @ [[]]"
  by (induction ls) (simp_all add: splitOn_append splitOn_no_sep)

lemma trimSpace_hd: "c # s \<noteq> [] \<Longrightarrow> graphic c \<Longrightarrow> trimSpace (c # s) = [] \<or> hd (trimSpace (c # s)) = c"
proof -
  assume g: "graphic c"
  have "dropPieces goSpaces (c # s) = c # s"
    using g by (intro dropPieces_id) (auto simp: prefix_def Cons_eq_append_conv dest!: goSpaces_not_graphic)
  then have "suffix (rev (trimSpace (c # s))) (rev (c # s))"
    using dropPieces_suffix[of "map rev goSpaces" "rev (c # s)"] by (simp add: trimSpace_def)
  then have "prefix (trimSpace (c # s)) (c # s)" by (simp add: suffix_to_prefix)
  then show ?thesis by (cases "trimSpace (c # s)") auto
qed

lemma plainLine_no_trailer:
  assumes "plainLine line" "parseV2ClosureTagTrailerLine line = Some (key, value)"
  shows "\<not> prefix ''Leamas-'' key"
proof -
  from assms obtain c s where l: "line = c # s" and g: "graphic c" "c \<noteq> CHR ''L''" "c \<noteq> CHR '':''"
    and k: "key = trimSpace (takeWhile (\<lambda>c. c \<noteq> CHR '':'') line)"
    by (cases line) (auto simp: plainLine_def parseV2ClosureTagTrailerLine_def Let_def split: if_splits)
  then have "key = [] \<or> hd key = c"
    using trimSpace_hd[of c "takeWhile (\<lambda>c. c \<noteq> CHR '':'') s"] by simp
  with g show ?thesis by (auto simp: prefix_def)
qed

lemma plain_lines_no_trailers:
  assumes "list_all plainLine (splitOn nlChar body)"
  shows "leamasTrailers body = []"
proof -
  have "set (splitV2ClosureTagLines body) \<subseteq> set (splitOn nlChar body)"
    by (auto simp: splitV2ClosureTagLines_def Let_def dest: in_set_butlastD)
  with assms have "plainLine l" if "l \<in> set (splitV2ClosureTagLines body)" for l
    using that by (auto simp: list_all_iff)
  then have "\<not> prefix ''Leamas-'' k"
    if "l \<in> set (splitV2ClosureTagLines body)" "parseV2ClosureTagTrailerLine l = Some (k, v)" for l k v
    using that plainLine_no_trailer by blast
  then show ?thesis
    unfolding leamasTrailers_def filter_empty_conv by (auto split: option.splits) (metis)
qed

lemma runner_lines_plain: "list_all plainLine (v2TagLines input epoch)"
  by (simp add: v2TagLines_def plainLine_def graphic_def)

lemma nlChar_literal: "nlChar = CHR 0x0A"
  by code_simp

lemma digits_of_no_newline: "nlChar \<notin> set (digits_of n)"
  using digits_of_isDigit[of n] by (auto simp: list_all_iff isDigit_def less_eq_char_def nlChar_def)

lemma runner_lines_no_newline:
  "list_all (\<lambda>s. nlChar \<notin> set s) (tagInputStrings input) \<Longrightarrow> list_all (\<lambda>l. nlChar \<notin> set l) (v2TagLines input epoch)"
  by (simp add: v2TagLines_def tagInputStrings_def itoa_def) (simp add: nlChar_literal digits_of_no_newline[unfolded nlChar_literal])

lemma runner_body_no_trailers:
  assumes "list_all (\<lambda>s. nlChar \<notin> set s) (tagInputStrings input)" "splitBlank (renderV2TagBytes input epoch) = Some (h, body)"
  shows "leamasTrailers body = []"
proof (rule plain_lines_no_trailers)
  have "splitOn nlChar (renderV2TagBytes input epoch) = splitOn nlChar h @ splitOn nlChar (nlChar # body)"
    using splitBlank_Some[OF assms(2)] by (simp add: splitOn_append del: splitOn.simps)
  moreover have "list_all plainLine (splitOn nlChar (renderV2TagBytes input epoch))"
    using runner_lines_plain[of input epoch] runner_lines_no_newline[OF assms(1)]
    by (simp add: renderV2TagBytes_def splitOn_concat plainLine_def[of "[]"])
  ultimately show "list_all plainLine (splitOn nlChar body)" by simp
qed

text \<open>
  The tags the version 2 runner writes never satisfy the metadata phase of the version 2
  verifier: whatever the request is, an observation that reads the bytes \<open>renderV2TagBytes\<close>
  produced is not bound.  The runner writes lines like \<open>S <oid>\<close> and \<open>PLAN_BLOB <oid>\<close>, and
  none of them is one of the seven trailers the verifier requires.
\<close>

theorem runner_tag_not_bound:
  assumes "list_all (\<lambda>s. nlChar \<notin> set s) (tagInputStrings input)"
    and "authorityRunGitCatFileTag authority tagOID = Inr (renderV2TagBytes input epoch)"
  shows "\<not> mo_Bound (ResolveV2ClosureTagMetadataObservation quote authority tagOID tagName S F C P M pv cv)"
  using bound_needs_trailers[OF _ assms(2)] runner_body_no_trailers[OF assms(1)] by metis

definition exampleTagInput :: v2TagInput where
  "exampleTagInput =
     \<lparr>ti_ActID = ''ACT-1'', ti_TagName = ''act/act-1'', ti_ClosureCommit = replicate 40 (CHR ''c''),
      ti_ClosureTree = replicate 40 (CHR ''1''), ti_FreezeCommit = replicate 40 (CHR ''f''), ti_FreezeTree = replicate 40 (CHR ''2''),
      ti_SubjectCommit = replicate 40 (CHR ''a''), ti_SubjectTree = replicate 40 (CHR ''3''), ti_PlanBlobOID = replicate 40 (CHR ''4''),
      ti_PlanSHA256 = replicate 64 (CHR ''5''), ti_ManifestBlobOID = replicate 40 (CHR ''6''), ti_ManifestSHA256 = replicate 64 (CHR ''7''),
      ti_ReportBlobOID = replicate 40 (CHR ''8''), ti_ReportSHA256 = replicate 64 (CHR ''9''), ti_EvidenceSHA256 = replicate 64 (CHR ''0''),
      ti_RunnerRevision = replicate 40 (CHR ''b''), ti_RunnerBinarySHA = replicate 64 (CHR ''d'')\<rparr>"

definition exampleTagGit :: gitClient where
  "exampleTagGit directory args =
     \<lparr>gc_Stdout = renderV2TagBytes exampleTagInput 1700000000, gc_Stderr = '''', gc_ExitCode = 0, gc_Err = None\<rparr>"

theorem runner_tag_not_bound_witness:
  "\<not> mo_Bound (ResolveV2ClosureTagMetadataObservation id (Some \<lparr>ga_git = exampleTagGit, ga_repoRoot = ''/repo''\<rparr>)
     (replicate 40 (CHR ''e'')) ''act/act-1'' (replicate 40 (CHR ''a'')) (replicate 40 (CHR ''f'')) (replicate 40 (CHR ''c''))
     ''plan.json'' ''manifest.json'' ''2'' 1)"
  by (rule runner_tag_not_bound[where input = exampleTagInput and epoch = 1700000000])
    (simp_all add: exampleTagInput_def tagInputStrings_def authorityRunGitCatFileTag_def authorityRunGit_def gitRun_def
      exampleTagGit_def nlChar_literal)

end
