(* ===== verification/Closure_Verify.thy ===== *)
theory Closure_Verify
  imports Closure_Tag
begin

text \<open>
  The entry point of the Closure Protocol v2 verifier: the supported versions
  (\<open>closure_protocol_v2.go\<close>, \<open>closure_protocol_v2_compatibility.go\<close>), the validation of a
  request (\<open>v2_verifier_validate.go\<close>, \<open>plan_path_policy.go\<close>), the capture of the caller's
  state (\<open>v2_verifier_state.go\<close>), the result (\<open>v2_verifier_result.go\<close>) and the orchestrator
  (\<open>v2_verifier_orchestrator.go\<close>) with the production resolvers.

  A repository may change while the verifier runs.  The authority is therefore given three times:
  as it answers during the capture before, during the verification and during the capture after.
\<close>

section \<open>Versions\<close>

abbreviation ClosureProtocolV1 :: ClosureProtocolVersion where "ClosureProtocolV1 \<equiv> ''1''"
abbreviation ClosureProtocolV2 :: ClosureProtocolVersion where "ClosureProtocolV2 \<equiv> ''2''"
abbreviation PlanContractV1 :: PlanContractVersion where "PlanContractV1 \<equiv> 1"

definition SupportedClosureProtocolVersions :: "ClosureProtocolVersion list" where
  "SupportedClosureProtocolVersions = [ClosureProtocolV1, ClosureProtocolV2]"

definition protocolIsSupported :: "ClosureProtocolVersion \<Rightarrow> bool" where
  "protocolIsSupported v = list_ex (\<lambda>s. s = v) SupportedClosureProtocolVersions"

definition contractIsSupported :: "PlanContractVersion \<Rightarrow> bool" where
  "contractIsSupported v \<longleftrightarrow> v = PlanContractV1"

definition combinationIsSupported :: "PlanContractVersion \<Rightarrow> ClosureProtocolVersion \<Rightarrow> bool" where
  "combinationIsSupported plan closure \<longleftrightarrow>
     (if \<not> contractIsSupported plan then False
      else if \<not> protocolIsSupported closure then False
      else if plan = PlanContractV1 then closure = ClosureProtocolV1 \<or> closure = ClosureProtocolV2
      else False)"

definition ValidateV2VersionCombination ::
  "(string \<Rightarrow> string) \<Rightarrow> PlanContractVersion \<Rightarrow> ClosureProtocolVersion \<Rightarrow> V2Error option" where
  "ValidateV2VersionCombination quote plan closure =
     (if \<not> contractIsSupported plan then
        Some (NewV2ErrorWith V2CodeUnsupportedPlanContractVersion
          (''plan contract version '' @ itoa plan @ '' is not supported'') ''plan_contract_version'' '''')
      else if \<not> protocolIsSupported closure then
        Some (NewV2ErrorWith V2CodeUnsupportedClosureProtocolVersion
          (''closure protocol version '' @ quote closure @ '' is not supported'') ''closure_protocol_version'' '''')
      else if \<not> combinationIsSupported plan closure then
        Some (NewV2ErrorWith V2CodeUnsupportedPlanProtocolComb
          (''plan contract v'' @ itoa plan @ '' + closure protocol '' @ quote closure @ '' is not a supported combination'')
          ''plan_protocol_combination'' '''')
      else None)"

section \<open>Paths\<close>

text \<open>\<open>portablePathClean\<close>; the segments kept so far are a stack, and \<open>None\<close> is the early return of the input.\<close>

fun cleanSegments :: "string list \<Rightarrow> string list \<Rightarrow> string list option" where
  "cleanSegments cleaned [] = Some (rev cleaned)"
| "cleanSegments cleaned (seg # parts) =
     (if seg = '''' \<or> seg = ''.'' then cleanSegments cleaned parts
      else if seg = ''..'' then (if cleaned = [] then None else cleanSegments (tl cleaned) parts)
      else cleanSegments (seg # cleaned) parts)"

definition portablePathClean :: "string \<Rightarrow> string" where
  "portablePathClean p =
     (if p = '''' then ''.''
      else if p = ''/'' then ''/''
      else case cleanSegments [] (splitOn (CHR ''/'') p) of
        None \<Rightarrow> p
      | Some cleaned \<Rightarrow> if cleaned = [] then ''.'' else join ''/'' cleaned)"

definition isASCIILetterByte :: "char \<Rightarrow> bool" where
  "isASCIILetterByte b \<longleftrightarrow> (CHR ''A'' \<le> b \<and> b \<le> CHR ''Z'') \<or> (CHR ''a'' \<le> b \<and> b \<le> CHR ''z'')"

definition controlByte :: "char \<Rightarrow> bool" where
  "controlByte b \<longleftrightarrow> of_char b < (0x20 :: nat) \<or> of_char b = (0x7F :: nat)"

text \<open>
  The loop over the segments looks at three conditions of each before it goes to the next.  A
  rune below U+0080 is a byte, and a byte of another rune is at least 0x80.
\<close>

fun segmentViolation :: "string list \<Rightarrow> string option" where
  "segmentViolation [] = None"
| "segmentViolation (seg # parts) =
     (if seg = '''' then Some ''must not contain empty separators''
      else if seg = ''.'' then Some ''must not contain single-dot segments''
      else if seg = ''..'' then Some ''must not contain parent-traversal segments''
      else segmentViolation parts)"

definition validateV2VerifierRelativePath :: "string \<Rightarrow> string option" where
  "validateV2VerifierRelativePath path =
     (if path = '''' then Some ''must be a non-empty path''
      else if nulChar \<in> set path then Some ''must not contain a NUL byte''
      else if list_ex controlByte path then Some ''must not contain control characters''
      else if CHR 0x5C \<in> set path then Some ''must not contain a backslash''
      else if hd path = CHR ''/'' then Some ''must not be an absolute path''
      else if length path \<ge> 2 \<and> isASCIILetterByte (path ! 0) \<and> path ! 1 = CHR '':'' then
        Some ''must not carry a Windows-volume prefix''
      else case segmentViolation (splitOn (CHR ''/'') path) of
        Some msg \<Rightarrow> Some msg
      | None \<Rightarrow> if portablePathClean path \<noteq> path then Some ''must be lexically clean'' else None)"

section \<open>Request validation\<close>

definition pathDiags :: "V2VerifierCode \<Rightarrow> string \<Rightarrow> string \<Rightarrow> V2VerifierDiagnostics" where
  "pathDiags code field path =
     (if trimSpace path = '''' then [withProperty field (NewV2VerifierDiagnostic code (field @ '' is required''))]
      else case validateV2VerifierRelativePath path of
        Some msg \<Rightarrow> [withProperty field (NewV2VerifierDiagnostic code (field @ '' '' @ msg))]
      | None \<Rightarrow> [])"

definition requiredDiags :: "V2VerifierCode \<Rightarrow> string \<Rightarrow> string \<Rightarrow> V2VerifierDiagnostics" where
  "requiredDiags code field value =
     (if trimSpace value = '''' then [withProperty field (NewV2VerifierDiagnostic code (field @ '' is required''))] else [])"

definition ValidateV2ClosureVerifyRequest :: "V2ClosureVerifyRequest \<Rightarrow> V2VerifierDiagnostics" where
  "ValidateV2ClosureVerifyRequest req =
     (let protocol = rq_ClosureProtocolVersion req; contract = rq_PlanContractVersion req in
      (if \<not> protocolIsSupported protocol then
         [NewV2VerifierDiagnostic V2VerifierUnsupportedClosureProtocolVersion
            (''closure_protocol_version '' @ stringOrQuote protocol @ '' is not supported'')] else [])
      @ (if \<not> contractIsSupported contract then
         [NewV2VerifierDiagnostic V2VerifierUnsupportedPlanContractVersion
            (''plan_contract_version '' @ itoa contract @ '' is not supported'')] else [])
      @ (if protocolIsSupported protocol \<and> contractIsSupported contract \<and> \<not> combinationIsSupported contract protocol then
         [NewV2VerifierDiagnostic V2VerifierInvalidVersionCombination
            (''plan_contract_v'' @ itoa contract @ '' + closure_protocol '' @ stringOrQuote protocol @
             '' is not a supported combination'')] else [])
      @ requiredDiags V2VerifierRepositoryUnavailable ''repository_root'' (rq_RepositoryRoot req)
      @ requiredDiags V2VerifierSubjectUnresolved ''subject_commit'' (rq_SubjectCommit req)
      @ requiredDiags V2VerifierFreezeUnresolved ''freeze_commit'' (rq_FreezeCommit req)
      @ requiredDiags V2VerifierClosureUnresolved ''closure_commit'' (rq_ClosureCommit req)
      @ pathDiags V2VerifierPlanPathInvalid ''plan_path'' (rq_PlanPath req)
      @ pathDiags V2VerifierManifestPathInvalid ''manifest_path'' (rq_ManifestPath req))"

section \<open>Caller state\<close>

record V2CallerStateSnapshot =
  cs_RepositoryRoot :: string
  cs_HeadCommit :: string
  cs_HeadTree :: string
  cs_Status :: string
  cs_Worktrees :: string
  cs_Refs :: string
  cs_Diagnostics :: V2VerifierDiagnostics

definition zeroSnapshot :: V2CallerStateSnapshot where
  "zeroSnapshot =
     \<lparr>cs_RepositoryRoot = '''', cs_HeadCommit = '''', cs_HeadTree = '''', cs_Status = '''', cs_Worktrees = '''',
      cs_Refs = '''', cs_Diagnostics = []\<rparr>"

definition refPair :: "string \<Rightarrow> string list" where
  "refPair line0 =
     (let line = trimRightChar crChar line0;
          ref = takeWhile (\<lambda>c. c \<noteq> nulChar) line; oid = trimSpace (drop (length ref + 1) line)
      in if line = '''' then []
         else if nulChar \<notin> set line then [line]
         else if ref = '''' \<or> oid = '''' then []
         else [ref @ [nulChar] @ oid])"

definition canonicalizeRefsOutput :: "string \<Rightarrow> string" where
  "canonicalizeRefsOutput raw =
     (if raw = '''' then ''''
      else join [nlChar] (sort_slice (<) (concat (map refPair (splitOn nlChar raw)))))"

definition captureOr :: "authorityGitValue \<Rightarrow> (string \<Rightarrow> string) \<Rightarrow> V2VerifierCode \<Rightarrow> string \<Rightarrow> string \<times> V2VerifierDiagnostics" where
  "captureOr value f code message =
     (if av_exitCode value = 0 then (f (av_stdout value), []) else ('''', [NewV2VerifierDiagnostic code message]))"

definition CaptureV2CallerState :: "gitAuthority \<Rightarrow> V2CallerStateSnapshot" where
  "CaptureV2CallerState authority =
     (let rootValue = authorityRunGit authority ''rev-parse'' [''--show-toplevel''];
          root = (if av_exitCode rootValue = 0 then trimSpace (av_stdout rootValue) else '''');
          (headCommit, d1) = captureOr
            (authorityRunGit authority ''rev-parse'' [''--verify'', ''--end-of-options'', ''HEAD^{commit}'']) trimSpace
            V2VerifierStateCaptureHeadFailed ''git rev-parse --verify HEAD^{commit} failed during state capture'';
          (headTree, d2) = captureOr
            (authorityRunGit authority ''rev-parse'' [''--verify'', ''--end-of-options'', ''HEAD^{tree}'']) trimSpace
            V2VerifierStateCaptureHeadFailed ''git rev-parse --verify HEAD^{tree} failed during state capture'';
          (status, d3) = captureOr
            (authorityRunGit authority ''status'' [''--porcelain=v2'', ''--untracked-files=normal'']) (\<lambda>s. s)
            V2VerifierStateCaptureStatusFailed ''git status --porcelain=v2 failed during state capture'';
          (worktrees, d4) = captureOr
            (authorityRunGit authority ''worktree'' [''list'', ''--porcelain'']) (\<lambda>s. s)
            V2VerifierStateCaptureWorktreeFailed ''git worktree list --porcelain failed during state capture'';
          (refs, d5) = captureOr
            (authorityRunGit authority ''for-each-ref'' [''--format=%(HEAD)%(refname)%00%(objectname)'']) canonicalizeRefsOutput
            V2VerifierStateCaptureRefsFailed ''git for-each-ref failed during state capture''
      in \<lparr>cs_RepositoryRoot = root, cs_HeadCommit = headCommit, cs_HeadTree = headTree, cs_Status = status,
          cs_Worktrees = worktrees, cs_Refs = refs, cs_Diagnostics = d1 @ d2 @ d3 @ d4 @ d5\<rparr>)"

definition snapshotHash :: "V2CallerStateSnapshot \<Rightarrow> string" where
  "snapshotHash s =
     sha256_hex (join [nulChar, nulChar, nulChar]
       [cs_RepositoryRoot s, cs_HeadCommit s, cs_HeadTree s, cs_Status s, cs_Worktrees s, cs_Refs s])"

definition mutated :: "string \<Rightarrow> string \<Rightarrow> V2VerifierDiagnostic" where
  "mutated property message = withProperty property (NewV2VerifierDiagnostic V2VerifierStateMutationDetected message)"

definition CheckReadOnly :: "V2CallerStateSnapshot \<Rightarrow> V2CallerStateSnapshot \<Rightarrow> V2VerifierDiagnostics" where
  "CheckReadOnly before after =
     (if cs_RepositoryRoot before \<noteq> cs_RepositoryRoot after then
        [withObserved (cs_RepositoryRoot after) (withExpected (cs_RepositoryRoot before)
           (mutated ''repository_root'' ''repository_root changed during verification''))] else [])
     @ (if cs_HeadCommit before \<noteq> cs_HeadCommit after then
        [withObserved (cs_HeadCommit after) (withExpected (cs_HeadCommit before)
           (mutated ''head_commit'' ''HEAD commit changed during verification''))] else [])
     @ (if cs_HeadTree before \<noteq> cs_HeadTree after then
        [withObserved (cs_HeadTree after) (withExpected (cs_HeadTree before)
           (mutated ''head_tree'' ''HEAD tree changed during verification''))] else [])
     @ (if cs_Status before \<noteq> cs_Status after then
        [mutated ''status'' ''porcelain-v2 status changed during verification''] else [])
     @ (if cs_Worktrees before \<noteq> cs_Worktrees after then
        [mutated ''worktrees'' ''worktree list changed during verification''] else [])
     @ (if cs_Refs before \<noteq> cs_Refs after then
        [mutated ''refs'' ''refs snapshot changed during verification''] else [])"

section \<open>Result\<close>

record V2VerificationBuild =
  vb_ClosureProtocolVersion :: ClosureProtocolVersion
  vb_PlanContractVersion :: PlanContractVersion
  vb_RepositoryRoot :: string
  vb_SubjectCommit :: string
  vb_SubjectTree :: string
  vb_FreezeCommit :: string
  vb_FreezeTree :: string
  vb_ClosureCommit :: string
  vb_ClosureTree :: string
  vb_PlanPath :: string
  vb_PlanBlob :: string
  vb_PlanSHA256 :: string
  vb_ManifestPath :: string
  vb_ManifestBlob :: string
  vb_ManifestSHA256 :: string
  vb_TopologyValid :: bool
  vb_ManifestValid :: bool
  vb_ResultSetValid :: bool
  vb_Diagnostics :: V2VerifierDiagnostics

text \<open>The result has the fields of the build and the verdict.\<close>

record V2ClosureVerification = V2VerificationBuild +
  vc_Valid :: bool

definition NewV2ClosureVerification :: "V2VerificationBuild \<Rightarrow> V2ClosureVerification" where
  "NewV2ClosureVerification b =
     (let sorted = sortedDiagnostics (vb_Diagnostics b);
          required = list_all (\<lambda>s. s \<noteq> '''')
            [vb_SubjectCommit b, vb_SubjectTree b, vb_FreezeCommit b, vb_FreezeTree b, vb_ClosureCommit b, vb_ClosureTree b,
             vb_PlanPath b, vb_PlanBlob b, vb_PlanSHA256 b, vb_ManifestPath b, vb_ManifestBlob b, vb_ManifestSHA256 b];
          valid = (required \<and> vb_TopologyValid b \<and> vb_ManifestValid b \<and> vb_ResultSetValid b \<and> length sorted = 0)
      in V2VerificationBuild.extend (b\<lparr>vb_Diagnostics := sorted\<rparr>) (V2ClosureVerification.fields valid))"

section \<open>Orchestrator\<close>

record V2RunRequest =
  rr_Request :: V2ClosureVerifyRequest
  rr_CaptureCallerState :: bool

record V2RunResult =
  rs_Verification :: V2ClosureVerification
  rs_StateBefore :: V2CallerStateSnapshot
  rs_StateAfter :: V2CallerStateSnapshot
  rs_StateDiags :: V2VerifierDiagnostics

definition captureAfterIfNeeded ::
  "gitAuthority \<Rightarrow> bool \<Rightarrow> V2CallerStateSnapshot \<Rightarrow> V2CallerStateSnapshot \<times> V2VerifierDiagnostics" where
  "captureAfterIfNeeded authority capture before =
     (if \<not> capture \<or> authority = None then (zeroSnapshot, [])
      else let after = CaptureV2CallerState authority in (after, CheckReadOnly before after))"

definition combineDiagnostics ::
  "V2ClosureTopologyFacts \<Rightarrow> V2FrozenPlanAuthority \<Rightarrow> V2CommittedManifestAuthority \<Rightarrow> V2OptionalManifestAssertion \<Rightarrow>
   V2VerifierTagAssertion \<Rightarrow> V2ManifestIdentityFacts \<Rightarrow> V2ClosureTagMetadataObservation \<Rightarrow> V2VerifierDiagnostics" where
  "combineDiagnostics topology frozenPlan committedManifest optionalAssertion tagAssertion manifestFacts tagMetadata =
     tf_Diagnostics topology @ ba_Diagnostics frozenPlan @ ba_Diagnostics committedManifest
     @ (if oa_Supplied optionalAssertion then oa_Diagnostics optionalAssertion else [])
     @ (if ta_Expected tagAssertion then ta_Diagnostics tagAssertion @ mo_Diagnostics tagMetadata else [])
     @ mf_Diagnostics manifestFacts"

definition topologyAccepted :: "V2ClosureTopologyFacts \<Rightarrow> bool" where
  "topologyAccepted facts \<longleftrightarrow>
     (if tf_Diagnostics facts \<noteq> [] then False
      else if tf_Relation facts = RelationUnset then False
      else IsAccepted (tf_Relation facts))"

definition buildInvalidResultForRequest :: "V2ClosureVerifyRequest \<Rightarrow> V2VerifierDiagnostics \<Rightarrow> V2ClosureVerification" where
  "buildInvalidResultForRequest req requestDiags =
     NewV2ClosureVerification
       \<lparr>vb_ClosureProtocolVersion = rq_ClosureProtocolVersion req, vb_PlanContractVersion = rq_PlanContractVersion req,
        vb_RepositoryRoot = rq_RepositoryRoot req, vb_SubjectCommit = rq_SubjectCommit req, vb_SubjectTree = '''',
        vb_FreezeCommit = rq_FreezeCommit req, vb_FreezeTree = '''', vb_ClosureCommit = rq_ClosureCommit req,
        vb_ClosureTree = '''', vb_PlanPath = rq_PlanPath req, vb_PlanBlob = '''', vb_PlanSHA256 = '''',
        vb_ManifestPath = rq_ManifestPath req, vb_ManifestBlob = '''', vb_ManifestSHA256 = '''',
        vb_TopologyValid = False, vb_ManifestValid = False, vb_ResultSetValid = False, vb_Diagnostics = requestDiags\<rparr>"

definition assembleVerification ::
  "V2ClosureVerifyRequest \<Rightarrow> V2ClosureTopologyFacts \<Rightarrow> V2FrozenPlanAuthority \<Rightarrow> V2CommittedManifestAuthority \<Rightarrow>
   V2OptionalManifestAssertion \<Rightarrow> V2VerifierTagAssertion \<Rightarrow> V2ManifestIdentityFacts \<Rightarrow> V2VerifierDiagnostics \<Rightarrow>
   V2ClosureVerification" where
  "assembleVerification req topology frozenPlan committedManifest optionalAssertion tagAssertion manifestFacts combinedDiags =
     (let t = tf_Topology topology;
          tagValid = (if ta_Expected tagAssertion then
            ta_Found tagAssertion \<and> ta_Annotated tagAssertion \<and> ta_Target tagAssertion = ct_ClosureCommit t \<and>
            length (ta_Diagnostics tagAssertion) = 0 \<and> \<not> HasCode combinedDiags V2VerifierClosureTagMetadataMismatch
            else True);
          topologyValid = (topologyAccepted topology \<and> length (ba_Diagnostics frozenPlan) = 0);
          manifestValid = (mf_ManifestIdentityValid manifestFacts \<and> mf_BinaryIdentityValid manifestFacts \<and>
            length (ba_Diagnostics committedManifest) = 0 \<and> tagValid);
          resultSetValid = (mf_BijectionValid manifestFacts \<and> mf_SuccessValid manifestFacts)
      in NewV2ClosureVerification
       \<lparr>vb_ClosureProtocolVersion = rq_ClosureProtocolVersion req, vb_PlanContractVersion = rq_PlanContractVersion req,
        vb_RepositoryRoot = rq_RepositoryRoot req,
        vb_SubjectCommit = firstNonEmpty (ct_SubjectCommit t) (rq_SubjectCommit req), vb_SubjectTree = ct_SubjectTree t,
        vb_FreezeCommit = firstNonEmpty (ct_FreezeCommit t) (rq_FreezeCommit req), vb_FreezeTree = ct_FreezeTree t,
        vb_ClosureCommit = firstNonEmpty (ct_ClosureCommit t) (rq_ClosureCommit req), vb_ClosureTree = ct_ClosureTree t,
        vb_PlanPath = firstNonEmpty (ba_Path frozenPlan) (rq_PlanPath req), vb_PlanBlob = ba_BlobOID frozenPlan,
        vb_PlanSHA256 = ba_BlobSHA256 frozenPlan,
        vb_ManifestPath = firstNonEmpty (ba_Path committedManifest) (rq_ManifestPath req),
        vb_ManifestBlob = ba_BlobOID committedManifest, vb_ManifestSHA256 = ba_BlobSHA256 committedManifest,
        vb_TopologyValid = topologyValid, vb_ManifestValid = manifestValid, vb_ResultSetValid = resultSetValid,
        vb_Diagnostics = combinedDiags\<rparr>)"

definition noAssertion :: V2OptionalManifestAssertion where
  "noAssertion = \<lparr>oa_Supplied = False, oa_Matches = False, oa_Diagnostics = []\<rparr>"

text \<open>
  The phases up to the assembled verdict; the flag is true when the run reaches the last phase,
  the only one that appends the diagnostics of the state capture.
\<close>

definition verifyPhases ::
  "(string \<Rightarrow> string) \<Rightarrow> (string \<Rightarrow> string) \<Rightarrow> manifestReader \<Rightarrow> (string \<Rightarrow> string + PlanCheck list) \<Rightarrow>
   gitAuthority \<Rightarrow> V2ClosureVerifyRequest \<Rightarrow> V2ClosureVerification \<times> bool" where
  "verifyPhases quote toLower reader decodePlan authority req =
     (let requestDiags = ValidateV2ClosureVerifyRequest req in
      if length requestDiags > 0 then (buildInvalidResultForRequest req requestDiags, False)
      else if authority = None then
        (buildInvalidResultForRequest req [NewV2VerifierDiagnostic V2VerifierRepositoryUnavailable ''git authority is nil''], False)
      else case EnforceV2VerifierObjectFormatPolicy quote authority of
        Some err \<Rightarrow> (buildInvalidResultForRequest req (collectV2VerifierDiags (Some err)), False)
      | None \<Rightarrow>
      let topologyFacts = fst (ResolveTopology authority req) in
      (case ResolveV2FrozenPlanAuthority authority (rq_FreezeCommit req) (rq_PlanPath req) of
        Inl err \<Rightarrow> (assembleVerification req topologyFacts zeroAuthority zeroAuthority noAssertion noTagAssertion zeroFacts
                      (collectV2VerifierDiags (Some err)), False)
      | Inr frozenPlan \<Rightarrow>
      if \<not> IsAccepted (tf_Relation topologyFacts) then
        (assembleVerification req topologyFacts frozenPlan zeroAuthority noAssertion noTagAssertion zeroFacts
           (if tf_Diagnostics topologyFacts = [] then ba_Diagnostics frozenPlan else tf_Diagnostics topologyFacts), False)
      else
      (case ResolveV2CommittedManifestAuthority authority (rq_ClosureCommit req) (rq_ManifestPath req) of
        Inl err \<Rightarrow> (assembleVerification req topologyFacts frozenPlan zeroAuthority noAssertion noTagAssertion zeroFacts
                      (collectV2VerifierDiags (Some err)), False)
      | Inr committedManifest \<Rightarrow>
      if length (ba_Diagnostics committedManifest) > 0 then
        (assembleVerification req topologyFacts frozenPlan committedManifest noAssertion noTagAssertion zeroFacts
           (ba_Diagnostics committedManifest), False)
      else if length (ba_Diagnostics frozenPlan) > 0 then
        (assembleVerification req topologyFacts frozenPlan committedManifest noAssertion noTagAssertion zeroFacts
           (ba_Diagnostics frozenPlan), False)
      else
      let optionalAssertion = AssertV2OptionalManifestAssertion committedManifest (rq_OptionalManifestAssertion req);
          manifestFacts = fst (VerifyManifestIdentity quote toLower reader decodePlan (ba_RawBytes committedManifest)
            frozenPlan committedManifest (tf_Topology topologyFacts));
          tagAssertion = (if HasExpectedTag req
            then ResolveV2ClosureTagAssertion authority (rq_ExpectedTagName req) (ct_ClosureCommit (tf_Topology topologyFacts))
            else noTagAssertion);
          tagMetadataObs = (if HasExpectedTag req \<and> ta_Annotated tagAssertion \<and> ta_Found tagAssertion
            then ResolveV2ClosureTagMetadataObservation quote authority (ta_Target tagAssertion) (rq_ExpectedTagName req)
              (rq_SubjectCommit req) (rq_FreezeCommit req) (rq_ClosureCommit req) (rq_PlanPath req) (rq_ManifestPath req)
              (rq_ClosureProtocolVersion req) (rq_PlanContractVersion req)
            else zeroObservation);
          combinedDiags = combineDiagnostics topologyFacts frozenPlan committedManifest optionalAssertion tagAssertion
            manifestFacts tagMetadataObs
      in (assembleVerification req topologyFacts frozenPlan committedManifest optionalAssertion tagAssertion manifestFacts
            combinedDiags, True))))"

definition orchestratorRun ::
  "(string \<Rightarrow> string) \<Rightarrow> (string \<Rightarrow> string) \<Rightarrow> manifestReader \<Rightarrow> (string \<Rightarrow> string + PlanCheck list) \<Rightarrow>
   gitAuthority \<Rightarrow> gitAuthority \<Rightarrow> gitAuthority \<Rightarrow> V2RunRequest \<Rightarrow> V2RunResult" where
  "orchestratorRun quote toLower reader decodePlan atStart authority atEnd runReq =
     (let stateBefore = (if rr_CaptureCallerState runReq \<and> atStart \<noteq> None then CaptureV2CallerState atStart else zeroSnapshot);
          (verification, complete) = verifyPhases quote toLower reader decodePlan authority (rr_Request runReq);
          (stateAfter, stateDiags) = captureAfterIfNeeded atEnd (rr_CaptureCallerState runReq) stateBefore
      in \<lparr>rs_Verification =
            (if complete \<and> length stateDiags > 0
             then verification\<lparr>vb_Diagnostics := vb_Diagnostics verification @ stateDiags\<rparr> else verification),
          rs_StateBefore = stateBefore, rs_StateAfter = stateAfter, rs_StateDiags = stateDiags\<rparr>)"

section \<open>Paths that are accepted\<close>

definition plainSegment :: "string \<Rightarrow> bool" where
  "plainSegment seg \<longleftrightarrow> seg \<noteq> '''' \<and> seg \<noteq> ''.'' \<and> seg \<noteq> ''..''"

lemma segmentViolation_None: "segmentViolation parts = None \<longleftrightarrow> list_all plainSegment parts"
  by (induction parts) (auto simp: plainSegment_def)

lemma cleanSegments_plain: "list_all plainSegment parts \<Longrightarrow> cleanSegments acc parts = Some (rev acc @ parts)"
  by (induction parts arbitrary: acc) (auto simp: plainSegment_def)

lemma cleanElems_plain: "list_all plainSegment parts \<Longrightarrow> cleanElems rooted acc parts = rev acc @ parts"
  by (induction parts arbitrary: acc) (auto simp: plainSegment_def)

lemma join_splitOn: "join [c] (splitOn c p) = p"
proof (induction p)
  case (Cons x p)
  then show ?case
    by (cases "splitOn c p"; cases "tl (splitOn c p)") (auto simp: join_Cons splitOn_nonempty)
qed simp

lemma plain_path_clean:
  assumes "list_all plainSegment (splitOn (CHR ''/'') p)" "p \<noteq> ''''"
  shows "portablePathClean p = p" "hd p \<noteq> CHR ''/'' \<Longrightarrow> cleanPath p = p" "hd p \<noteq> CHR ''/'' \<Longrightarrow> isLocal p"
proof -
  have nn: "splitOn (CHR ''/'') p \<noteq> []" by (rule splitOn_nonempty)
  have j: "join ''/'' (splitOn (CHR ''/'') p) = p" using join_splitOn by simp
  show "portablePathClean p = p"
    using assms by (simp add: portablePathClean_def cleanSegments_plain nn j)
  assume h: "hd p \<noteq> CHR ''/''"
  then have na: "\<not> isAbs p" using assms(2) by (cases p) (auto simp: isAbs_def)
  then show c: "cleanPath p = p"
    using assms by (simp add: cleanPath_def Let_def cleanElems_plain j)
  have "\<not> list_ex (\<lambda>e. e = ''.'' \<or> e = ''..'') (splitOn (CHR ''/'') p)"
    using assms(1) by (auto simp: list_all_iff list_ex_iff plainSegment_def)
  moreover have "p \<noteq> ''..''" "take 3 p \<noteq> ''../''"
  proof -
    show "take 3 p \<noteq> ''../''"
    proof
      assume t: "take 3 p = ''../''"
      obtain a b c q where "p = a # b # c # q"
        using t by (cases p; cases "tl p"; cases "tl (tl p)") auto
      with t have "p = ''..'' @ CHR ''/'' # q" by simp
      then have "splitOn (CHR ''/'') p = ''..'' # splitOn (CHR ''/'') q"
        by (simp add: splitOn_append_sep del: append_Cons append.simps)
      then show False using assms(1) by (simp add: plainSegment_def)
    qed
    show "p \<noteq> ''..''" using assms(1) by (auto simp: plainSegment_def)
  qed
  ultimately show "isLocal p" using na assms(2) by (simp add: isLocal_def Let_def)
qed

definition portableBytes :: "string \<Rightarrow> bool" where
  "portableBytes path \<longleftrightarrow>
     list_all (\<lambda>c. \<not> controlByte c \<and> c \<noteq> CHR 0x5C) path \<and>
     \<not> (length path \<ge> 2 \<and> isASCIILetterByte (path ! 0) \<and> path ! 1 = CHR '':'')"

lemma relativePath_iff:
  "validateV2VerifierRelativePath path = None \<longleftrightarrow>
     path \<noteq> '''' \<and> portableBytes path \<and> list_all plainSegment (splitOn (CHR ''/'') path)"
  (is "?l \<longleftrightarrow> ?r")
proof
  assume ?l
  then have "path \<noteq> ''''" "\<not> list_ex controlByte path" "CHR 0x5C \<notin> set path"
    "\<not> (length path \<ge> 2 \<and> isASCIILetterByte (path ! 0) \<and> path ! 1 = CHR '':'')"
    "segmentViolation (splitOn (CHR ''/'') path) = None"
    by (simp_all add: validateV2VerifierRelativePath_def split: if_splits option.splits)
  then show ?r
    by (auto simp: segmentViolation_None portableBytes_def list_all_iff list_ex_iff)
next
  assume r: ?r
  have "controlByte nulChar" by code_simp
  moreover have "\<not> list_ex controlByte path" "CHR 0x5C \<notin> set path"
    using r by (auto simp: portableBytes_def list_all_iff list_ex_iff)
  moreover have "hd path \<noteq> CHR ''/''"
    using r by (cases path) (auto simp: plainSegment_def)
  moreover have "portablePathClean path = path" using r plain_path_clean(1) by blast
  ultimately show ?l
    using r by (auto simp: validateV2VerifierRelativePath_def segmentViolation_None[symmetric] portableBytes_def list_ex_iff)
qed

text \<open>
  The path policy of the verifier accepts exactly the non-empty paths without control
  characters, backslashes and drive prefix whose segments are all ordinary names.  Every accepted
  path is local and already clean in the sense of \<open>filepath.Clean\<close>, so an accepted plan or
  manifest path names an object inside the repository, and the last test of the function is
  never the one that rejects.
\<close>

theorem accepted_paths_local:
  "(validateV2VerifierRelativePath path = None \<longleftrightarrow>
     path \<noteq> '''' \<and> portableBytes path \<and> list_all plainSegment (splitOn (CHR ''/'') path)) \<and>
   (validateV2VerifierRelativePath path = None \<longrightarrow> isLocal path \<and> cleanPath path = path) \<and>
   validateV2VerifierRelativePath path \<noteq> Some ''must be lexically clean''"
proof (intro conjI impI)
  show i: "validateV2VerifierRelativePath path = None \<longleftrightarrow>
     path \<noteq> '''' \<and> portableBytes path \<and> list_all plainSegment (splitOn (CHR ''/'') path)"
    by (rule relativePath_iff)
  have h: "hd path \<noteq> CHR ''/''" if "path \<noteq> ''''" "list_all plainSegment (splitOn (CHR ''/'') path)"
    using that by (cases path) (auto simp: plainSegment_def)
  show "isLocal path" "cleanPath path = path" if "validateV2VerifierRelativePath path = None"
    using that i h plain_path_clean(2,3) by blast+
  have seg: "segmentViolation parts \<noteq> Some ''must be lexically clean''" for parts
    by (induction parts) auto
  show "validateV2VerifierRelativePath path \<noteq> Some ''must be lexically clean''"
  proof (cases "segmentViolation (splitOn (CHR ''/'') path)")
    case None
    then have "path = '''' \<or> portablePathClean path = path"
      using plain_path_clean(1) by (auto simp: segmentViolation_None)
    with None show ?thesis by (auto simp: validateV2VerifierRelativePath_def)
  next
    case (Some msg)
    with seg have "msg \<noteq> ''must be lexically clean''" by metis
    with Some show ?thesis by (simp add: validateV2VerifierRelativePath_def)
  qed
qed

theorem accepted_paths_local_witness:
  "validateV2VerifierRelativePath ''docs/plan.json'' = None \<and> isLocal ''docs/plan.json'' \<and>
   cleanPath ''docs/plan.json'' = ''docs/plan.json''"
proof -
  have "validateV2VerifierRelativePath ''docs/plan.json'' = None" by code_simp
  with accepted_paths_local[of "''docs/plan.json''"] show ?thesis by blast
qed
section \<open>Verdicts\<close>

lemma NewV2ClosureVerification_valid:
  "vc_Valid (NewV2ClosureVerification b) \<longleftrightarrow>
     list_all (\<lambda>s. s \<noteq> '''')
       [vb_SubjectCommit b, vb_SubjectTree b, vb_FreezeCommit b, vb_FreezeTree b, vb_ClosureCommit b, vb_ClosureTree b,
        vb_PlanPath b, vb_PlanBlob b, vb_PlanSHA256 b, vb_ManifestPath b, vb_ManifestBlob b, vb_ManifestSHA256 b] \<and>
     vb_TopologyValid b \<and> vb_ManifestValid b \<and> vb_ResultSetValid b \<and> vb_Diagnostics b = []"
  "vb_Diagnostics (NewV2ClosureVerification b) = sortedDiagnostics (vb_Diagnostics b)"
  by (simp_all add: NewV2ClosureVerification_def Let_def V2VerificationBuild.defs V2ClosureVerification.defs)

lemma buildInvalid_rejects:
  "\<not> vc_Valid (buildInvalidResultForRequest req ds)"
  "vb_Diagnostics (buildInvalidResultForRequest req ds) = sortedDiagnostics ds"
  by (simp_all add: buildInvalidResultForRequest_def NewV2ClosureVerification_valid)

lemma assemble_diagnostics:
  "vb_Diagnostics (assembleVerification req topology plan manifest oa ta mf ds) = sortedDiagnostics ds"
  by (simp add: assembleVerification_def Let_def NewV2ClosureVerification_valid)

lemma assemble_incomplete:
  "\<not> vc_Valid (assembleVerification req topology plan manifest oa ta zeroFacts ds)"
  by (simp add: assembleVerification_def Let_def NewV2ClosureVerification_valid zeroFacts_def)

text \<open>The object git names by a commit and a path, and its bytes.\<close>

definition readsBlob :: "gitAuthority \<Rightarrow> string \<Rightarrow> string \<Rightarrow> string \<Rightarrow> string \<Rightarrow> bool" where
  "readsBlob authority commit path oid raw \<longleftrightarrow>
     ResolvePathObject authority commit path = Inr (oid, ''blob'') \<and> ReadBlob authority oid = Inr raw \<and> raw \<noteq> ''''"

definition bytesAt :: "string \<Rightarrow> string \<Rightarrow> string \<Rightarrow> byteAuthority" where
  "bytesAt path oid raw =
     \<lparr>ba_Path = path, ba_BlobOID = oid, ba_BlobSHA256 = sha256_hex raw, ba_RawBytes = raw, ba_Diagnostics = []\<rparr>"

lemma bytesAt_simps [simp]:
  "ba_Path (bytesAt p oid raw) = p" "ba_BlobOID (bytesAt p oid raw) = oid" "ba_BlobSHA256 (bytesAt p oid raw) = sha256_hex raw"
  "ba_RawBytes (bytesAt p oid raw) = raw" "ba_Diagnostics (bytesAt p oid raw) = []"
  by (simp_all add: bytesAt_def)

text \<open>
  The contract of a byte authority: for a non-empty commit and path it always returns a record, the
  record has no diagnostic exactly when the path names a non-empty blob, and then it holds the
  path, the object and its bytes with their digest.  Both resolvers of the code keep it.
\<close>

locale blob_authority =
  fixes resolve :: "gitAuthority \<Rightarrow> string \<Rightarrow> string \<Rightarrow> V2VerifierError + byteAuthority"
  assumes resolves: "authority \<noteq> None \<Longrightarrow> trimSpace commit \<noteq> '''' \<Longrightarrow> trimSpace path \<noteq> '''' \<Longrightarrow>
      \<exists>a. resolve authority commit path = Inr a \<and>
        (ba_Diagnostics a = [] \<longleftrightarrow> (\<exists>oid raw. readsBlob authority commit path oid raw \<and> a = bytesAt path oid raw))"
    and reads: "authority \<noteq> None \<Longrightarrow> trimSpace commit \<noteq> '''' \<Longrightarrow> trimSpace path \<noteq> '''' \<Longrightarrow>
      readsBlob authority commit path oid raw \<Longrightarrow> resolve authority commit path = Inr (bytesAt path oid raw)"
begin

lemma clean_iff:
  assumes "authority \<noteq> None" "trimSpace commit \<noteq> ''''" "trimSpace path \<noteq> ''''"
  obtains a where "resolve authority commit path = Inr a"
    "ba_Diagnostics a = [] \<longleftrightarrow> (\<exists>oid raw. readsBlob authority commit path oid raw \<and> a = bytesAt path oid raw)"
  using resolves[OF assms] by blast

end

interpretation frozen_plan: blob_authority ResolveV2FrozenPlanAuthority
proof unfold_locales
  fix authority :: gitAuthority and commit path oid raw :: string
  assume a: "authority \<noteq> None" "trimSpace commit \<noteq> ''''" "trimSpace path \<noteq> ''''"
  then obtain r where r: "ResolveV2FrozenPlanAuthority authority commit path = Inr r"
    by (simp add: ResolveV2FrozenPlanAuthority_def)
  then have "ba_Diagnostics r = [] \<longleftrightarrow> (\<exists>oid raw. readsBlob authority commit path oid raw \<and> r = bytesAt path oid raw)"
    using a by (auto simp: ResolveV2FrozenPlanAuthority_def readsBlob_def bytesAt_def zeroAuthority_def
        split: sum.splits if_splits)
  with r show "\<exists>r. ResolveV2FrozenPlanAuthority authority commit path = Inr r \<and>
      (ba_Diagnostics r = [] \<longleftrightarrow> (\<exists>oid raw. readsBlob authority commit path oid raw \<and> r = bytesAt path oid raw))"
    by blast
  show "readsBlob authority commit path oid raw \<Longrightarrow> ResolveV2FrozenPlanAuthority authority commit path = Inr (bytesAt path oid raw)"
    using a by (simp add: ResolveV2FrozenPlanAuthority_def readsBlob_def bytesAt_def zeroAuthority_def)
qed

interpretation committed_manifest: blob_authority ResolveV2CommittedManifestAuthority
proof unfold_locales
  fix authority :: gitAuthority and commit path oid raw :: string
  assume a: "authority \<noteq> None" "trimSpace commit \<noteq> ''''" "trimSpace path \<noteq> ''''"
  then obtain r where r: "ResolveV2CommittedManifestAuthority authority commit path = Inr r"
    by (simp add: ResolveV2CommittedManifestAuthority_def)
  then have "ba_Diagnostics r = [] \<longleftrightarrow> (\<exists>oid raw. readsBlob authority commit path oid raw \<and> r = bytesAt path oid raw)"
    using a by (auto simp: ResolveV2CommittedManifestAuthority_def readsBlob_def bytesAt_def zeroAuthority_def
        split: sum.splits if_splits)
  with r show "\<exists>r. ResolveV2CommittedManifestAuthority authority commit path = Inr r \<and>
      (ba_Diagnostics r = [] \<longleftrightarrow> (\<exists>oid raw. readsBlob authority commit path oid raw \<and> r = bytesAt path oid raw))"
    by blast
  show "readsBlob authority commit path oid raw \<Longrightarrow>
      ResolveV2CommittedManifestAuthority authority commit path = Inr (bytesAt path oid raw)"
    using a by (simp add: ResolveV2CommittedManifestAuthority_def readsBlob_def bytesAt_def zeroAuthority_def)
qed

lemma objectFormat_policy:
  "EnforceV2VerifierObjectFormatPolicy quote authority = None \<longleftrightarrow> ObjectFormat authority = Inr ''sha1''"
  by (auto simp: EnforceV2VerifierObjectFormatPolicy_def EnforceSHA1ObjectFormat_def ObjectFormat_def split: sum.splits option.splits)

lemma objectFormat_diagnosed: "EnforceV2VerifierObjectFormatPolicy quote authority = Some err \<Longrightarrow> collectV2VerifierDiags (Some err) \<noteq> []"
  by (auto simp: EnforceV2VerifierObjectFormatPolicy_def collectV2VerifierDiags_def NewV2VerifierError_def split: if_splits option.splits)

lemma request_fields:
  assumes "ValidateV2ClosureVerifyRequest req = []"
  shows "trimSpace (rq_SubjectCommit req) \<noteq> ''''" "trimSpace (rq_FreezeCommit req) \<noteq> ''''"
    "trimSpace (rq_ClosureCommit req) \<noteq> ''''" "trimSpace (rq_PlanPath req) \<noteq> ''''" "trimSpace (rq_ManifestPath req) \<noteq> ''''"
    "rq_PlanPath req \<noteq> ''''" "rq_ManifestPath req \<noteq> ''''"
  using assms by (auto simp: ValidateV2ClosureVerifyRequest_def requiredDiags_def pathDiags_def Let_def split: if_splits)

text \<open>The topology an accepted request is bound to.\<close>

lemma accepted_topology:
  assumes "authority \<noteq> None" "IsAccepted (tf_Relation (fst (ResolveTopology authority req)))"
  obtains t where "resolvesTo authority req (tf_Topology (fst (ResolveTopology authority req)))"
proof -
  from assms obtain t where t: "resolvesTo authority req t"
    using ResolveTopology_accepts by blast
  let ?b = "topologyOf (ct_SubjectCommit t) (ct_SubjectTree t) (ct_FreezeCommit t) (ct_FreezeTree t) (ct_ClosureCommit t) (ct_ClosureTree t)"
  have p: "fst (ResolveTopology authority req) = probeTopology authority ?b"
    using ResolveTopology_resolved[OF assms(1) t] by simp
  have "ct_SubjectCommit (tf_Topology (probeTopology authority ?b)) = ct_SubjectCommit t \<and>
    ct_SubjectTree (tf_Topology (probeTopology authority ?b)) = ct_SubjectTree t \<and>
    ct_FreezeCommit (tf_Topology (probeTopology authority ?b)) = ct_FreezeCommit t \<and>
    ct_FreezeTree (tf_Topology (probeTopology authority ?b)) = ct_FreezeTree t \<and>
    ct_ClosureCommit (tf_Topology (probeTopology authority ?b)) = ct_ClosureCommit t \<and>
    ct_ClosureTree (tf_Topology (probeTopology authority ?b)) = ct_ClosureTree t"
    by (simp add: probeTopology_def observationFailure_def topologyOf_def Let_def split: sum.split)
  with t show thesis by (intro that) (simp add: p resolvesTo_def)
qed
text \<open>
  The inputs of the last phase: they exist exactly when no earlier phase stops the run, and a run
  that is stopped is rejected with a diagnostic.
\<close>

definition reachesVerdict :: "gitAuthority \<Rightarrow> V2ClosureVerifyRequest \<Rightarrow> byteAuthority \<Rightarrow> byteAuthority \<Rightarrow> bool" where
  "reachesVerdict authority req plan manifest \<longleftrightarrow>
     ValidateV2ClosureVerifyRequest req = [] \<and> ObjectFormat authority = Inr ''sha1'' \<and>
     IsAccepted (tf_Relation (fst (ResolveTopology authority req))) \<and>
     (\<exists>oid raw. readsBlob authority (rq_FreezeCommit req) (rq_PlanPath req) oid raw \<and> plan = bytesAt (rq_PlanPath req) oid raw) \<and>
     (\<exists>oid raw. readsBlob authority (rq_ClosureCommit req) (rq_ManifestPath req) oid raw \<and>
        manifest = bytesAt (rq_ManifestPath req) oid raw)"

definition tagPhase :: "gitAuthority \<Rightarrow> V2ClosureVerifyRequest \<Rightarrow> V2VerifierTagAssertion" where
  "tagPhase authority req =
     (if HasExpectedTag req
      then ResolveV2ClosureTagAssertion authority (rq_ExpectedTagName req)
        (ct_ClosureCommit (tf_Topology (fst (ResolveTopology authority req))))
      else noTagAssertion)"

definition metadataPhase :: "(string \<Rightarrow> string) \<Rightarrow> gitAuthority \<Rightarrow> V2ClosureVerifyRequest \<Rightarrow> V2ClosureTagMetadataObservation" where
  "metadataPhase quote authority req =
     (let tagAssertion = tagPhase authority req in
      if HasExpectedTag req \<and> ta_Annotated tagAssertion \<and> ta_Found tagAssertion
      then ResolveV2ClosureTagMetadataObservation quote authority (ta_Target tagAssertion) (rq_ExpectedTagName req)
        (rq_SubjectCommit req) (rq_FreezeCommit req) (rq_ClosureCommit req) (rq_PlanPath req) (rq_ManifestPath req)
        (rq_ClosureProtocolVersion req) (rq_PlanContractVersion req)
      else zeroObservation)"

definition manifestPhase ::
  "(string \<Rightarrow> string) \<Rightarrow> (string \<Rightarrow> string) \<Rightarrow> manifestReader \<Rightarrow> (string \<Rightarrow> string + PlanCheck list) \<Rightarrow> gitAuthority \<Rightarrow>
   V2ClosureVerifyRequest \<Rightarrow> byteAuthority \<Rightarrow> byteAuthority \<Rightarrow> V2ManifestIdentityFacts" where
  "manifestPhase quote toLower reader decodePlan authority req plan manifest =
     fst (VerifyManifestIdentity quote toLower reader decodePlan (ba_RawBytes manifest) plan manifest
       (tf_Topology (fst (ResolveTopology authority req))))"

definition allDiagnostics ::
  "(string \<Rightarrow> string) \<Rightarrow> (string \<Rightarrow> string) \<Rightarrow> manifestReader \<Rightarrow> (string \<Rightarrow> string + PlanCheck list) \<Rightarrow> gitAuthority \<Rightarrow>
   V2ClosureVerifyRequest \<Rightarrow> byteAuthority \<Rightarrow> byteAuthority \<Rightarrow> V2VerifierDiagnostics" where
  "allDiagnostics quote toLower reader decodePlan authority req plan manifest =
     combineDiagnostics (fst (ResolveTopology authority req)) plan manifest
       (AssertV2OptionalManifestAssertion manifest (rq_OptionalManifestAssertion req)) (tagPhase authority req)
       (manifestPhase quote toLower reader decodePlan authority req plan manifest) (metadataPhase quote authority req)"

lemma format_needs_authority: "ObjectFormat authority = Inr f \<Longrightarrow> authority \<noteq> None"
  by (cases authority) (simp_all add: ObjectFormat_def)

lemma reached:
  assumes "reachesVerdict authority req plan manifest"
  shows "verifyPhases quote toLower reader decodePlan authority req =
    (assembleVerification req (fst (ResolveTopology authority req)) plan manifest
       (AssertV2OptionalManifestAssertion manifest (rq_OptionalManifestAssertion req)) (tagPhase authority req)
       (manifestPhase quote toLower reader decodePlan authority req plan manifest)
       (allDiagnostics quote toLower reader decodePlan authority req plan manifest), True)"
proof -
  have v: "ValidateV2ClosureVerifyRequest req = []" and f: "ObjectFormat authority = Inr ''sha1''"
    and acc: "IsAccepted (tf_Relation (fst (ResolveTopology authority req)))"
    and p: "\<exists>oid raw. readsBlob authority (rq_FreezeCommit req) (rq_PlanPath req) oid raw \<and> plan = bytesAt (rq_PlanPath req) oid raw"
    and m: "\<exists>oid raw. readsBlob authority (rq_ClosureCommit req) (rq_ManifestPath req) oid raw \<and>
        manifest = bytesAt (rq_ManifestPath req) oid raw"
    using assms by (auto simp: reachesVerdict_def)
  note req = request_fields[OF v]
  have a: "authority \<noteq> None" using f by (rule format_needs_authority)
  have pa: "ResolveV2FrozenPlanAuthority authority (rq_FreezeCommit req) (rq_PlanPath req) = Inr plan" "ba_Diagnostics plan = []"
    using p frozen_plan.reads[OF a req(2,4)] by auto
  have ma: "ResolveV2CommittedManifestAuthority authority (rq_ClosureCommit req) (rq_ManifestPath req) = Inr manifest"
    "ba_Diagnostics manifest = []"
    using m committed_manifest.reads[OF a req(3,5)] by auto
  show ?thesis
    using a acc pa ma v f
    unfolding verifyPhases_def Let_def objectFormat_policy[of quote authority, symmetric]
    by (simp add: allDiagnostics_def tagPhase_def manifestPhase_def metadataPhase_def Let_def)
qed

lemma stopped_early:
  assumes "\<nexists>plan manifest. reachesVerdict authority req plan manifest"
  shows "\<not> vc_Valid (fst (verifyPhases quote toLower reader decodePlan authority req)) \<and>
    vb_Diagnostics (fst (verifyPhases quote toLower reader decodePlan authority req)) \<noteq> [] \<and>
    \<not> snd (verifyPhases quote toLower reader decodePlan authority req)"
proof -
  consider (request) "ValidateV2ClosureVerifyRequest req \<noteq> []"
    | (nil) "ValidateV2ClosureVerifyRequest req = []" "authority = None"
    | (format) err where "ValidateV2ClosureVerifyRequest req = []" "authority \<noteq> None"
        "EnforceV2VerifierObjectFormatPolicy quote authority = Some err"
    | (rest) "ValidateV2ClosureVerifyRequest req = []" "authority \<noteq> None" "EnforceV2VerifierObjectFormatPolicy quote authority = None"
    by (cases "EnforceV2VerifierObjectFormatPolicy quote authority") auto
  then show ?thesis
  proof cases
    case request
    then show ?thesis by (simp add: verifyPhases_def buildInvalid_rejects)
  next
    case nil
    then show ?thesis by (simp add: verifyPhases_def buildInvalid_rejects)
  next
    case format
    then show ?thesis using objectFormat_diagnosed by (simp add: verifyPhases_def buildInvalid_rejects)
  next
    case rest
    note req = request_fields[OF rest(1)]
    let ?t = "fst (ResolveTopology authority req)"
    obtain plan where p: "ResolveV2FrozenPlanAuthority authority (rq_FreezeCommit req) (rq_PlanPath req) = Inr plan"
      and pc: "ba_Diagnostics plan = [] \<longleftrightarrow> (\<exists>oid raw. readsBlob authority (rq_FreezeCommit req) (rq_PlanPath req) oid raw \<and>
        plan = bytesAt (rq_PlanPath req) oid raw)"
      using frozen_plan.clean_iff[OF rest(2) req(2,4)] .
    obtain manifest where m: "ResolveV2CommittedManifestAuthority authority (rq_ClosureCommit req) (rq_ManifestPath req) = Inr manifest"
      and mc: "ba_Diagnostics manifest = [] \<longleftrightarrow> (\<exists>oid raw. readsBlob authority (rq_ClosureCommit req) (rq_ManifestPath req) oid raw \<and>
        manifest = bytesAt (rq_ManifestPath req) oid raw)"
      using committed_manifest.clean_iff[OF rest(2) req(3,5)] .
    have "\<not> IsAccepted (tf_Relation ?t) \<or> ba_Diagnostics plan \<noteq> [] \<or> ba_Diagnostics manifest \<noteq> []"
      using assms rest objectFormat_policy[of quote authority] pc mc by (auto simp: reachesVerdict_def)
    moreover have "tf_Diagnostics ?t \<noteq> []" if "\<not> IsAccepted (tf_Relation ?t)"
      using ResolveTopology_diagnosed[OF rest(2)] that by blast
    ultimately show ?thesis
      using rest p m by (auto simp: verifyPhases_def Let_def assemble_incomplete assemble_diagnostics)
  qed
qed

lemma tagAssertion_expected: "trimSpace tag \<noteq> '''' \<Longrightarrow> ta_Expected (ResolveV2ClosureTagAssertion authority tag commit)"
  by (simp add: ResolveV2ClosureTagAssertion_def noTagAssertion_def Let_def)

definition peeledTag :: "gitAuthority \<Rightarrow> string \<Rightarrow> authorityGitValue" where
  "peeledTag authority tag =
     authorityRunGitRevParse authority [''--verify'', ''--end-of-options'',
       trimSpace (av_stdout (authorityRunGitRevParse authority [''--verify'', ''--end-of-options'', tag])) @ ''^{commit}'']"

lemma tagAssertion_silent:
  assumes "trimSpace tag \<noteq> ''''" "ta_Diagnostics (ResolveV2ClosureTagAssertion authority tag commit) = []"
  shows "ta_Found (ResolveV2ClosureTagAssertion authority tag commit) \<and>
      ta_Annotated (ResolveV2ClosureTagAssertion authority tag commit) \<and>
      ta_Target (ResolveV2ClosureTagAssertion authority tag commit) = commit"
    and "av_exitCode (peeledTag authority tag) = 0 \<and> commit = trimSpace (av_stdout (peeledTag authority tag))"
proof -
  have "ta_Diagnostics (ResolveV2ClosureTagAssertion authority tag commit) = [] \<longrightarrow>
      ta_Found (ResolveV2ClosureTagAssertion authority tag commit) \<and>
      ta_Annotated (ResolveV2ClosureTagAssertion authority tag commit) \<and>
      ta_Target (ResolveV2ClosureTagAssertion authority tag commit) = commit"
    using assms(1) by (simp add: ResolveV2ClosureTagAssertion_def noTagAssertion_def Let_def)
  with assms(2) show "ta_Found (ResolveV2ClosureTagAssertion authority tag commit) \<and>
      ta_Annotated (ResolveV2ClosureTagAssertion authority tag commit) \<and>
      ta_Target (ResolveV2ClosureTagAssertion authority tag commit) = commit" by blast
  have "ta_Diagnostics (ResolveV2ClosureTagAssertion authority tag commit) = [] \<longrightarrow>
      av_exitCode (peeledTag authority tag) = 0 \<and> commit = trimSpace (av_stdout (peeledTag authority tag))"
    using assms(1) by (simp add: ResolveV2ClosureTagAssertion_def noTagAssertion_def peeledTag_def Let_def)
  with assms(2) show "av_exitCode (peeledTag authority tag) = 0 \<and> commit = trimSpace (av_stdout (peeledTag authority tag))"
    by blast
qed

lemma tagPhase_expected: "ta_Expected (tagPhase authority req) \<longleftrightarrow> HasExpectedTag req"
  using tagAssertion_expected by (auto simp: tagPhase_def HasExpectedTag_def noTagAssertion_def)

lemma tagPhase_silent:
  assumes "HasExpectedTag req" "ta_Diagnostics (tagPhase authority req) = []"
  shows "ta_Found (tagPhase authority req) \<and> ta_Annotated (tagPhase authority req) \<and>
     ta_Target (tagPhase authority req) = ct_ClosureCommit (tf_Topology (fst (ResolveTopology authority req)))"
proof -
  have "trimSpace (rq_ExpectedTagName req) \<noteq> ''''"
    "ta_Diagnostics (ResolveV2ClosureTagAssertion authority (rq_ExpectedTagName req)
       (ct_ClosureCommit (tf_Topology (fst (ResolveTopology authority req))))) = []"
    using assms by (simp_all add: tagPhase_def HasExpectedTag_def)
  from tagAssertion_silent(1)[OF this] show ?thesis using assms(1) by (simp add: tagPhase_def)
qed

lemma assertion_silent:
  "AssertV2OptionalManifestAssertion manifest supplied = r \<Longrightarrow>
   (if oa_Supplied r then oa_Diagnostics r else []) = [] \<longleftrightarrow>
     supplied = '''' \<or> (ba_RawBytes manifest \<noteq> '''' \<and> sha256_hex supplied = sha256_hex (ba_RawBytes manifest))"
  by (auto simp: AssertV2OptionalManifestAssertion_def split: if_splits)

lemma readsBlob_oid: "readsBlob authority commit path oid raw \<Longrightarrow> oid \<noteq> '''' \<and> raw \<noteq> ''''"
  by (auto simp: readsBlob_def dest!: ResolvePathObject_oid oidPattern_nonempty)

lemma reached_topology:
  assumes "reachesVerdict authority req plan manifest"
  shows "resolvesTo authority req (tf_Topology (fst (ResolveTopology authority req)))"
    "anchored (tf_Topology (fst (ResolveTopology authority req)))"
    "topologyAccepted (fst (ResolveTopology authority req))" "tf_Diagnostics (fst (ResolveTopology authority req)) = []"
proof -
  have a: "authority \<noteq> None" and acc: "IsAccepted (tf_Relation (fst (ResolveTopology authority req)))"
    using assms format_needs_authority by (auto simp: reachesVerdict_def)
  show r: "resolvesTo authority req (tf_Topology (fst (ResolveTopology authority req)))"
    using accepted_topology[OF a acc] .
  show "anchored (tf_Topology (fst (ResolveTopology authority req)))"
    using resolvesTo_oids[OF r] by (auto simp: anchored_def dest: oidPattern_nonempty)
  show d: "tf_Diagnostics (fst (ResolveTopology authority req)) = []"
    using ResolveTopology_diagnosed[OF a] acc by simp
  show "topologyAccepted (fst (ResolveTopology authority req))"
    using d acc by (simp add: topologyAccepted_def IsAccepted_def)
qed

text \<open>At the last phase the verdict is valid exactly when no diagnostic was collected.\<close>

lemma verdict_iff_silent:
  assumes "reachesVerdict authority req plan manifest"
  shows "vc_Valid (fst (verifyPhases quote toLower reader decodePlan authority req)) \<longleftrightarrow>
    allDiagnostics quote toLower reader decodePlan authority req plan manifest = []"
proof
  let ?t = "fst (ResolveTopology authority req)"
  let ?ds = "allDiagnostics quote toLower reader decodePlan authority req plan manifest"
  show "vc_Valid (fst (verifyPhases quote toLower reader decodePlan authority req)) \<Longrightarrow> ?ds = []"
    by (simp add: reached[OF assms] assembleVerification_def Let_def NewV2ClosureVerification_valid)
  assume ds: "?ds = []"
  note t = reached_topology[OF assms]
  have m: "factsValid (manifestPhase quote toLower reader decodePlan authority req plan manifest)"
    using ds facts_undiagnosed_valid[OF t(2)] by (simp add: allDiagnostics_def combineDiagnostics_def manifestPhase_def)
  have tag: "ta_Found (tagPhase authority req) \<and> ta_Annotated (tagPhase authority req) \<and>
     ta_Target (tagPhase authority req) = ct_ClosureCommit (tf_Topology ?t) \<and> ta_Diagnostics (tagPhase authority req) = []"
    if "ta_Expected (tagPhase authority req)"
    using ds that tagPhase_silent tagPhase_expected by (auto simp: allDiagnostics_def combineDiagnostics_def)
  obtain p praw q mraw where pm: "plan = bytesAt (rq_PlanPath req) p praw" "manifest = bytesAt (rq_ManifestPath req) q mraw"
    "p \<noteq> ''''" "q \<noteq> ''''" "rq_PlanPath req \<noteq> ''''" "rq_ManifestPath req \<noteq> ''''"
    using assms readsBlob_oid request_fields(6,7) by (fastforce simp: reachesVerdict_def)
  have oids: "ct_SubjectCommit (tf_Topology ?t) \<noteq> ''''" "ct_SubjectTree (tf_Topology ?t) \<noteq> ''''"
    "ct_FreezeCommit (tf_Topology ?t) \<noteq> ''''" "ct_FreezeTree (tf_Topology ?t) \<noteq> ''''"
    "ct_ClosureCommit (tf_Topology ?t) \<noteq> ''''" "ct_ClosureTree (tf_Topology ?t) \<noteq> ''''"
    using resolvesTo_oids[OF t(1)] by (auto dest: oidPattern_nonempty)
  show "vc_Valid (fst (verifyPhases quote toLower reader decodePlan authority req))"
    using m tag pm oids t(3) ds
    by (simp add: reached[OF assms] assembleVerification_def Let_def NewV2ClosureVerification_valid firstNonEmpty_def
        factsValid_def HasCode_def)
qed

lemma phases_verdict:
  "vc_Valid (fst (verifyPhases quote toLower reader decodePlan authority req)) \<longleftrightarrow>
   vb_Diagnostics (fst (verifyPhases quote toLower reader decodePlan authority req)) = []"
proof (cases "\<exists>plan manifest. reachesVerdict authority req plan manifest")
  case True
  then obtain plan manifest where r: "reachesVerdict authority req plan manifest" by blast
  show ?thesis
    unfolding verdict_iff_silent[OF r] by (simp add: reached[OF r] assemble_diagnostics)
qed (use stopped_early in blast)

lemma run_verification:
  "vc_Valid (rs_Verification (orchestratorRun quote toLower reader decodePlan atStart authority atEnd runReq)) =
     vc_Valid (fst (verifyPhases quote toLower reader decodePlan authority (rr_Request runReq)))"
  by (simp add: orchestratorRun_def Let_def split: prod.split)

section \<open>The verifier\<close>

text \<open>The chain of the topology: three distinct commits, each a proper ancestor of the next.\<close>

definition properChain :: "gitAuthority \<Rightarrow> V2ClosureTopology \<Rightarrow> bool" where
  "properChain a t \<longleftrightarrow>
     ct_SubjectCommit t \<noteq> ct_FreezeCommit t \<and> ct_FreezeCommit t \<noteq> ct_ClosureCommit t \<and>
     ct_SubjectCommit t \<noteq> ct_ClosureCommit t \<and>
     IsAncestor a (ct_SubjectCommit t) (ct_FreezeCommit t) = Inr True \<and>
     IsAncestor a (ct_FreezeCommit t) (ct_SubjectCommit t) = Inr False \<and>
     IsAncestor a (ct_FreezeCommit t) (ct_ClosureCommit t) = Inr True \<and>
     IsAncestor a (ct_ClosureCommit t) (ct_FreezeCommit t) = Inr False"

lemma accepted_at_topology:
  assumes "a \<noteq> None"
  shows "IsAccepted (tf_Relation (fst (ResolveTopology a req))) \<longleftrightarrow> (\<exists>t. resolvesTo a req t \<and> properChain a t)"
  using ResolveTopology_accepts[OF assms] by (simp add: properChain_def)

lemma identityBound_cong:
  "resolvesTo a req t \<Longrightarrow> resolvesTo a req t' \<Longrightarrow> identityBound m t plan \<longleftrightarrow> identityBound m t' plan"
  by (auto simp: resolvesTo_def identityBound_def)

lemma manifestPhase_valid_iff:
  assumes "reachesVerdict a req (bytesAt P p praw) (bytesAt M q mraw)" "resolvesTo a req t" "praw \<noteq> ''''" "mraw \<noteq> ''''"
    "\<And>raw checks. decodePlan raw = Inr checks \<Longrightarrow> distinct (map pc_ID checks)"
  shows "mf_Diagnostics (manifestPhase quote toLower reader decodePlan a req (bytesAt P p praw) (bytesAt M q mraw)) = [] \<longleftrightarrow>
    (\<exists>m checks. parseV2StrictManifest quote toLower reader mraw = Inr m \<and> identityBound m t (bytesAt P p praw) \<and>
       binaryIdentified (pm_LeamasBinaryIdentity m) \<and> decodePlan praw = Inr checks \<and>
       resultsBiject checks (pm_CheckResults m) \<and> runsSucceed (pm_CheckResults m))"
proof -
  note rt = reached_topology[OF assms(1)]
  show ?thesis
    unfolding manifestPhase_def bytesAt_simps facts_undiagnosed_valid[OF rt(2)]
    using manifest_verified_iff[where raw = mraw and plan = "bytesAt P p praw" and committed = "bytesAt M q mraw"
        and decodePlan = decodePlan and quote = quote and toLower = toLower and reader = reader, OF _ _ _ rt(2)]
      assms(3-5) identityBound_cong[OF rt(1) assms(2)] by simp
qed

definition closureHolds ::
  "(string \<Rightarrow> string) \<Rightarrow> (string \<Rightarrow> string) \<Rightarrow> manifestReader \<Rightarrow> (string \<Rightarrow> string + PlanCheck list) \<Rightarrow> gitAuthority \<Rightarrow>
   V2ClosureVerifyRequest \<Rightarrow> V2ClosureTopology \<Rightarrow> string \<Rightarrow> string \<Rightarrow> string \<Rightarrow> string \<Rightarrow> bool" where
  "closureHolds quote toLower reader decodePlan a req t p praw q mraw \<longleftrightarrow>
     resolvesTo a req t \<and> properChain a t \<and>
     readsBlob a (rq_FreezeCommit req) (rq_PlanPath req) p praw \<and>
     readsBlob a (rq_ClosureCommit req) (rq_ManifestPath req) q mraw \<and>
     (rq_OptionalManifestAssertion req = '''' \<or> sha256_hex (rq_OptionalManifestAssertion req) = sha256_hex mraw) \<and>
     (\<exists>m checks. parseV2StrictManifest quote toLower reader mraw = Inr m \<and> identityBound m t (bytesAt (rq_PlanPath req) p praw) \<and>
       binaryIdentified (pm_LeamasBinaryIdentity m) \<and> decodePlan praw = Inr checks \<and>
       resultsBiject checks (pm_CheckResults m) \<and> runsSucceed (pm_CheckResults m))"

lemma silent_without_tag:
  assumes "\<not> HasExpectedTag req" "reachesVerdict a req plan manifest"
  shows "allDiagnostics quote toLower reader decodePlan a req plan manifest = [] \<longleftrightarrow>
    (rq_OptionalManifestAssertion req = '''' \<or> ba_RawBytes manifest \<noteq> '''' \<and>
       sha256_hex (rq_OptionalManifestAssertion req) = sha256_hex (ba_RawBytes manifest)) \<and>
    mf_Diagnostics (manifestPhase quote toLower reader decodePlan a req plan manifest) = []"
proof -
  have "ba_Diagnostics plan = []" "ba_Diagnostics manifest = []"
    using assms(2) by (auto simp: reachesVerdict_def)
  moreover have "\<not> ta_Expected (tagPhase a req)" using assms(1) tagPhase_expected by blast
  ultimately show ?thesis
    using reached_topology(4)[OF assms(2)] assertion_silent[OF refl, of manifest "rq_OptionalManifestAssertion req"]
    by (simp add: allDiagnostics_def combineDiagnostics_def)
qed

text \<open>
  C3. Without an expected tag, the verifier reports a closure as valid exactly when the request
  is well formed, the repository uses SHA-1, the three revisions resolve to a proper chain
  S < F < C, the plan is a non-empty blob at F and the manifest one at C, an optional assertion has
  the digest of that manifest, and the manifest states the identities of S, F and the plan, a
  clean binary, and one successful result for every check of the plan read at F.  What the
  repository answers during the captures of the caller's state has no part in it.
\<close>

theorem closure_verified_exactly:
  assumes "\<not> HasExpectedTag (rr_Request runReq)"
    and "\<And>raw checks. decodePlan raw = Inr checks \<Longrightarrow> distinct (map pc_ID checks)"
  shows "vc_Valid (rs_Verification (orchestratorRun quote toLower reader decodePlan atStart a atEnd runReq)) \<longleftrightarrow>
    ValidateV2ClosureVerifyRequest (rr_Request runReq) = [] \<and> ObjectFormat a = Inr ''sha1'' \<and>
    (\<exists>t p praw q mraw. closureHolds quote toLower reader decodePlan a (rr_Request runReq) t p praw q mraw)"
    (is "?valid \<longleftrightarrow> ?v \<and> ?f \<and> ?c")
proof
  let ?req = "rr_Request runReq"
  assume ?valid
  then have valid: "vc_Valid (fst (verifyPhases quote toLower reader decodePlan a ?req))" by (simp only: run_verification)
  then obtain plan manifest where r: "reachesVerdict a ?req plan manifest"
    using stopped_early by blast
  have f: ?v ?f using r by (simp_all add: reachesVerdict_def)
  obtain p praw q mraw where b: "readsBlob a (rq_FreezeCommit ?req) (rq_PlanPath ?req) p praw" "plan = bytesAt (rq_PlanPath ?req) p praw"
    "readsBlob a (rq_ClosureCommit ?req) (rq_ManifestPath ?req) q mraw" "manifest = bytesAt (rq_ManifestPath ?req) q mraw"
    using r by (auto simp: reachesVerdict_def)
  obtain t where t: "resolvesTo a ?req t" "properChain a t"
    using r accepted_at_topology[OF format_needs_authority[OF f(2)]] by (auto simp: reachesVerdict_def)
  have "closureHolds quote toLower reader decodePlan a ?req t p praw q mraw"
    using valid manifestPhase_valid_iff[OF r[unfolded b(2,4)] t(1) _ _ assms(2)] t b readsBlob_oid
    unfolding verdict_iff_silent[OF r] silent_without_tag[OF assms(1) r] closureHolds_def by auto
  with f show "?v \<and> ?f \<and> ?c" by blast
next
  let ?req = "rr_Request runReq"
  assume h: "?v \<and> ?f \<and> ?c"
  then obtain t p praw q mraw where c: "closureHolds quote toLower reader decodePlan a ?req t p praw q mraw" by blast
  have r: "reachesVerdict a ?req (bytesAt (rq_PlanPath ?req) p praw) (bytesAt (rq_ManifestPath ?req) q mraw)"
    using h c accepted_at_topology[of a ?req] format_needs_authority[of a] by (auto simp: reachesVerdict_def closureHolds_def)
  have "praw \<noteq> ''''" "mraw \<noteq> ''''" using c by (auto simp: closureHolds_def readsBlob_def)
  then show ?valid
    using c manifestPhase_valid_iff[OF r _ _ _ assms(2), of t]
    unfolding run_verification verdict_iff_silent[OF r] silent_without_tag[OF assms(1) r] closureHolds_def by auto
qed

text \<open>A repository with the plan and the manifest in its chain of three commits.\<close>

definition closureGit :: gitClient where
  "closureGit directory args =
     (case args of
        [a, b] \<Rightarrow> if b = ''--show-object-format'' then okResult ''sha1'' else exitResult 128
      | [a, b, oid] \<Rightarrow>
          if a \<noteq> ''cat-file'' then exitResult 128
          else if b = ''-t'' then okResult ''blob''
          else if b = ''blob'' then okResult (if oid = oid40 (CHR ''2'') then ''plan'' else ''{}'')
          else exitResult 128
      | _ \<Rightarrow> chainGit directory args)"

definition closureAuthority :: gitAuthority where
  "closureAuthority = Some \<lparr>ga_git = closureGit, ga_repoRoot = ''/repo''\<rparr>"

definition closureManifest :: parsedManifest where
  "closureManifest = sampleManifest
     \<lparr>pm_SubjectCommit := oid40 (CHR ''1''), pm_SubjectTree := oid40 (CHR ''1''), pm_FreezeCommit := oid40 (CHR ''2''),
      pm_FreezeTree := oid40 (CHR ''2''), pm_ExecutionTree := oid40 (CHR ''1''), pm_PlanBlob := oid40 (CHR ''2''),
      pm_PlanSHA256 := sha256_hex ''plan''\<rparr>"

definition closureReader :: manifestReader where
  "closureReader = \<lparr>mr_readObject = (\<lambda>raw. Inr ([], '''')), mr_strictDecode = (\<lambda>ms. Inr closureManifest)\<rparr>"

abbreviation chainTopology :: V2ClosureTopology where
  "chainTopology \<equiv> topologyOf (oid40 (CHR ''1'')) (oid40 (CHR ''1'')) (oid40 (CHR ''2'')) (oid40 (CHR ''2''))
     (oid40 (CHR ''3'')) (oid40 (CHR ''3''))"

lemma closure_parses: "parseV2StrictManifest quote toLower closureReader ''{}'' = Inr closureManifest"
  by (simp add: parseV2StrictManifest_def closureReader_def rawObject_def decMore_def sort_slice_def Let_def trimSpace_literals)
     (simp add: closureManifest_def sampleManifest_def)

lemma sample_results_ok:
  "resultsBiject sampleChecks (pm_CheckResults sampleManifest)" "runsSucceed (pm_CheckResults sampleManifest)"
proof -
  have "jsonNumberToInteger ''0'' = Some 0" "jsonNumberToInteger ''12'' = Some 12" by code_simp+
  then show "resultsBiject sampleChecks (pm_CheckResults sampleManifest)" "runsSucceed (pm_CheckResults sampleManifest)"
    by (simp_all add: resultsBiject_def sampleManifest_def sampleChecks_def resultWellFormed_def planByID_def
        excludedCleanly_def runsSucceed_def ranCleanly_def mappedResult_def)
qed

lemma sample_binary_ok: "binaryIdentified (pm_LeamasBinaryIdentity sampleManifest)"
  by (simp add: binaryIdentified_def sampleManifest_def trimSpace_literals sha256Pattern_def sha1Pattern_def list_all_iff
      lower_hex_def)

lemma chain_oid_facts:
  assumes "c \<in> {CHR ''1'', CHR ''2'', CHR ''3''}"
  shows "oidPattern (oid40 c)" "trimSpace (oid40 c) = oid40 c"
proof -
  show "oidPattern (oid40 c)" using assms by (intro oid40_pattern) (auto simp: lower_hex_def)
  then show "trimSpace (oid40 c) = oid40 c" by (rule oidPattern_trimSpace)
qed

lemma trimSpace_words:
  "trimSpace ''sha1'' = ''sha1''" "trimSpace ''blob'' = ''blob''" "trimSpace ''plan.json'' = ''plan.json''"
  "trimSpace ''manifest.json'' = ''manifest.json''" "trimSpace ''/repo'' = ''/repo''" "trimSpace ''v1'' = ''v1''"
  by (rule trimSpace_id; simp add: graphic_def)+

lemmas closureGit_defs = closureAuthority_def gitRun_def closureGit_def chainGit_def chainCommits_def okResult_def exitResult_def
  commandFailed_def Let_def trimSpace_words chain_oid_facts

lemma closure_resolves: "resolvesTo closureAuthority chainRequest chainTopology"
  by (simp add: resolvesTo_def topologyOf_def chainRequest_def ResolveCommit_def ResolveTree_def closureGit_defs)

lemma closure_chain: "properChain closureAuthority chainTopology"
  by (simp add: properChain_def topologyOf_def IsAncestor_def closureGit_defs chainReach_def chainParents_def)

lemma closure_blobs:
  "readsBlob closureAuthority (rq_FreezeCommit chainRequest) (rq_PlanPath chainRequest) (oid40 (CHR ''2'')) ''plan''"
  "readsBlob closureAuthority (rq_ClosureCommit chainRequest) (rq_ManifestPath chainRequest) (oid40 (CHR ''3'')) ''{}''"
  by (simp_all add: readsBlob_def chainRequest_def ResolvePathObject_def ReadBlob_def closureGit_defs)

lemma chainRequest_valid: "ValidateV2ClosureVerifyRequest chainRequest = []"
proof -
  have "validateV2VerifierRelativePath ''plan.json'' = None" "validateV2VerifierRelativePath ''manifest.json'' = None"
    by code_simp+
  then show ?thesis
    by (simp add: ValidateV2ClosureVerifyRequest_def chainRequest_def requiredDiags_def pathDiags_def protocolIsSupported_def
        SupportedClosureProtocolVersions_def contractIsSupported_def combinationIsSupported_def trimSpace_words chain_oid_facts)
qed

lemma closure_format: "ObjectFormat closureAuthority = Inr ''sha1''"
  by (simp add: ObjectFormat_def closureGit_defs)

theorem closure_verified_exactly_witness:
  "vc_Valid (rs_Verification (orchestratorRun id id closureReader (\<lambda>raw. Inr sampleChecks) None closureAuthority None
     \<lparr>rr_Request = chainRequest, rr_CaptureCallerState = False\<rparr>))"
proof -
  have "closureHolds id id closureReader (\<lambda>raw. Inr sampleChecks) closureAuthority chainRequest chainTopology
    (oid40 (CHR ''2'')) ''plan'' (oid40 (CHR ''3'')) ''{}''"
    unfolding closureHolds_def
    using closure_resolves closure_chain closure_blobs sample_results_ok sample_binary_ok
    by (simp add: closure_parses) (simp add: closureManifest_def identityBound_def topologyOf_def chainRequest_def sampleManifest_def)
  moreover have "distinct (map pc_ID sampleChecks)" by (simp add: sampleChecks_def)
  moreover have "\<not> HasExpectedTag chainRequest" by (simp add: HasExpectedTag_def chainRequest_def)
  ultimately show ?thesis
    by (intro closure_verified_exactly[THEN iffD2]) (simp_all add: chainRequest_valid closure_format, blast)
qed

text \<open>
  C4. The verdict and the diagnostics of the phases always agree: a run is valid exactly when no
  phase has a diagnostic, so every rejection is explained.  The diagnostics of the state capture
  come after them, only on a run that reached the last phase, and they never change the
  verdict: a run during which the repository changed can be valid and yet publish diagnostics.
\<close>

theorem verdict_matches_diagnostics:
  "let run = orchestratorRun quote toLower reader decodePlan atStart authority atEnd runReq;
       phases = verifyPhases quote toLower reader decodePlan authority (rr_Request runReq)
   in (vc_Valid (rs_Verification run) \<longleftrightarrow> vb_Diagnostics (fst phases) = []) \<and>
      vb_Diagnostics (rs_Verification run) = vb_Diagnostics (fst phases) @ (if snd phases then rs_StateDiags run else [])"
  unfolding Let_def run_verification phases_verdict
  by (simp add: orchestratorRun_def Let_def split: prod.split)

text \<open>
  C19. A request with an expected tag is never reported as valid.  The metadata phase is given
  the commit the tag was peeled to in place of the tag object, and \<open>git cat-file tag\<close> fails for
  a commit, as git documents.
\<close>

theorem expected_tag_never_valid:
  assumes "HasExpectedTag (rr_Request runReq)"
    and "\<And>x. gc_ExitCode (gitRun a [''rev-parse'', ''--verify'', ''--end-of-options'', x @ ''^{commit}'']) = 0 \<Longrightarrow>
      gc_ExitCode (gitRun a [''cat-file'', ''tag'',
        trimSpace (gc_Stdout (gitRun a [''rev-parse'', ''--verify'', ''--end-of-options'', x @ ''^{commit}'']))]) \<noteq> 0"
  shows "\<not> vc_Valid (rs_Verification (orchestratorRun quote toLower reader decodePlan atStart (Some a) atEnd runReq))"
proof
  let ?req = "rr_Request runReq" and ?tag = "rq_ExpectedTagName (rr_Request runReq)"
  let ?commit = "ct_ClosureCommit (tf_Topology (fst (ResolveTopology (Some a) ?req)))"
  assume "vc_Valid (rs_Verification (orchestratorRun quote toLower reader decodePlan atStart (Some a) atEnd runReq))"
  then have valid: "vc_Valid (fst (verifyPhases quote toLower reader decodePlan (Some a) ?req))" by (simp only: run_verification)
  then obtain plan manifest where r: "reachesVerdict (Some a) ?req plan manifest" using stopped_early by blast
  have silent: "ta_Diagnostics (tagPhase (Some a) ?req) = []" "mo_Diagnostics (metadataPhase quote (Some a) ?req) = []"
    using valid assms(1) tagPhase_expected[of "Some a" ?req]
    unfolding verdict_iff_silent[OF r] by (auto simp: allDiagnostics_def combineDiagnostics_def)
  have "ta_Diagnostics (ResolveV2ClosureTagAssertion (Some a) ?tag ?commit) = []" and tag: "trimSpace ?tag \<noteq> ''''"
    using silent(1) assms(1) by (simp_all add: tagPhase_def HasExpectedTag_def)
  then have peel: "av_exitCode (peeledTag (Some a) ?tag) = 0" "?commit = trimSpace (av_stdout (peeledTag (Some a) ?tag))"
    using tagAssertion_silent(2) by blast+
  then have "av_exitCode (authorityRunGit (Some a) ''cat-file'' [''tag'', ?commit]) \<noteq> 0"
    using assms(2) by (simp add: peeledTag_def authorityRunGitRevParse_def authorityRunGit_def Let_def)
  then have "mo_Diagnostics (metadataPhase quote (Some a) ?req) \<noteq> []"
    using tagPhase_silent[OF assms(1) silent(1)] assms(1)
    by (simp add: metadataPhase_def ResolveV2ClosureTagMetadataObservation_def authorityRunGitCatFileTag_def Let_def)
  with silent(2) show False by simp
qed

theorem expected_tag_never_valid_witness:
  "\<not> vc_Valid (rs_Verification (orchestratorRun id id closureReader (\<lambda>raw. Inr sampleChecks) None closureAuthority None
     \<lparr>rr_Request = chainRequest\<lparr>rq_ExpectedTagName := ''v1''\<rparr>, rr_CaptureCallerState = False\<rparr>))"
  unfolding closureAuthority_def
  by (rule expected_tag_never_valid) (simp_all add: HasExpectedTag_def closureGit_defs)

end
