(* ===== verification/Closure_Dispatch.thy ===== *)
theory Closure_Dispatch
  imports Closure_Verify
begin

text \<open>
  The topology of the version 2 runner (\<open>closure_protocol_v2_topology.go\<close>) and the dispatch of a
  lifecycle version on it (\<open>closure_protocol_v2_dispatch.go\<close>, with the older dispatch of
  \<open>closure_protocol_v2.go\<close>).  The verb \<open>%q\<close> is the argument \<open>quote\<close>, the git client an
  argument as before.
\<close>

section \<open>Facts and their classification\<close>

record V2TopologyFacts =
  tp_SubjectResolved :: bool
  tp_FreezeResolved :: bool
  tp_Equal :: bool
  tp_SubjectAncestorFreeze :: bool
  tp_FreezeAncestorSubject :: bool
  tp_SubjectCommit :: string
  tp_FreezeCommit :: string

definition noTopologyFacts :: V2TopologyFacts where
  "noTopologyFacts =
     \<lparr>tp_SubjectResolved = False, tp_FreezeResolved = False, tp_Equal = False, tp_SubjectAncestorFreeze = False,
      tp_FreezeAncestorSubject = False, tp_SubjectCommit = '''', tp_FreezeCommit = ''''\<rparr>"

text \<open>\<open>V2RelationUnset\<close> is the empty string, the value of the field when it is not assigned.\<close>

datatype V2Relation =
    V2RelationUnset
  | V2RelationMissingSubject
  | V2RelationMissingFreeze
  | V2RelationEqual
  | V2RelationSubjectBeforeFreeze
  | V2RelationFreezeBeforeSubject
  | V2RelationSubjectFreezeUnrelated
  | V2RelationGitFailure

fun relationText :: "V2Relation \<Rightarrow> string" where
  "relationText V2RelationUnset = ''''"
| "relationText V2RelationMissingSubject = ''missing_subject''"
| "relationText V2RelationMissingFreeze = ''missing_freeze''"
| "relationText V2RelationEqual = ''equal''"
| "relationText V2RelationSubjectBeforeFreeze = ''subject_before_freeze''"
| "relationText V2RelationFreezeBeforeSubject = ''freeze_before_subject''"
| "relationText V2RelationSubjectFreezeUnrelated = ''subject_freeze_unrelated''"
| "relationText V2RelationGitFailure = ''git_failure''"

definition Classify :: "V2TopologyFacts \<Rightarrow> V2Relation" where
  "Classify f =
     (if \<not> tp_SubjectResolved f then V2RelationMissingSubject
      else if \<not> tp_FreezeResolved f then V2RelationMissingFreeze
      else if tp_Equal f then V2RelationEqual
      else if tp_SubjectAncestorFreeze f \<and> \<not> tp_FreezeAncestorSubject f then V2RelationSubjectBeforeFreeze
      else if tp_FreezeAncestorSubject f \<and> \<not> tp_SubjectAncestorFreeze f then V2RelationFreezeBeforeSubject
      else if \<not> tp_SubjectAncestorFreeze f \<and> \<not> tp_FreezeAncestorSubject f then V2RelationSubjectFreezeUnrelated
      else V2RelationGitFailure)"

section \<open>Resolution\<close>

definition resolveTopologyCommit ::
  "(string \<Rightarrow> string) \<Rightarrow> gitClient \<Rightarrow> string \<Rightarrow> string \<Rightarrow> string + string" where
  "resolveTopologyCommit quote git repoRoot revision =
     (case runGitValue git repoRoot [''rev-parse'', ''--verify'', ''--end-of-options'', revision @ ''^{commit}''] of
        Inl err \<Rightarrow> Inl err
      | Inr value \<Rightarrow>
          if \<not> oidPattern value then Inl (''resolved '' @ quote value @ '' is not a valid commit OID'') else Inr value)"

definition gitIsAncestor ::
  "(string \<Rightarrow> string) \<Rightarrow> gitClient \<Rightarrow> string \<Rightarrow> string \<Rightarrow> string \<Rightarrow> string + bool" where
  "gitIsAncestor quote git repoRoot ancestor descendant =
     (let result = git repoRoot [''merge-base'', ''--is-ancestor'', ancestor, descendant] in
      if gc_ExitCode result = 0 then Inr True
      else if gc_ExitCode result = 1 then Inr False
      else Inl (''git merge-base --is-ancestor '' @ ancestor @ '' '' @ descendant @ '' exit='' @ itoa (gc_ExitCode result)
             @ '' stderr='' @ quote (failureDetail result)))"

definition ancestryFailed :: "string \<Rightarrow> string \<Rightarrow> string \<Rightarrow> string \<Rightarrow> V2Error + 'a" where
  "ancestryFailed x y property err =
     Inl (NewV2ErrorWith V2CodeGitOperationFailed (''git merge-base --is-ancestor '' @ x @ '' '' @ y @ '' failed'') property err)"

text \<open>\<open>GitV2TopologyResolver.ResolveTopology\<close>; the verifier has a function of the same name.\<close>

definition runnerTopology ::
  "(string \<Rightarrow> string) \<Rightarrow> gitClient \<Rightarrow> string \<Rightarrow> string \<Rightarrow> string \<Rightarrow> V2Error + V2TopologyFacts" where
  "runnerTopology quote git repoRoot subject freeze =
     (if trimSpace repoRoot = '''' then Inl (NewV2Error V2CodeGitOperationFailed ''repository root is empty'')
      else if trimSpace subject = '''' then
        Inl (NewV2ErrorWith V2CodeSubjectCommitNotFound ''subject commit is empty'' ''subject_commit'' '''')
      else if trimSpace freeze = '''' then
        Inl (NewV2ErrorWith V2CodeFreezeCommitNotFound ''freeze commit is empty'' ''freeze_commit'' '''')
      else case resolveTopologyCommit quote git repoRoot subject of
        Inl _ \<Rightarrow> Inr noTopologyFacts
      | Inr s \<Rightarrow>
        (case resolveTopologyCommit quote git repoRoot freeze of
           Inl _ \<Rightarrow> Inr (noTopologyFacts\<lparr>tp_SubjectResolved := True, tp_SubjectCommit := s\<rparr>)
         | Inr f \<Rightarrow>
           let facts = noTopologyFacts\<lparr>tp_SubjectResolved := True, tp_SubjectCommit := s,
                 tp_FreezeResolved := True, tp_FreezeCommit := f\<rparr> in
           if s = f then Inr (facts\<lparr>tp_Equal := True\<rparr>)
           else case gitIsAncestor quote git repoRoot s f of
             Inl err \<Rightarrow> ancestryFailed s f ''subject_commit'' err
           | Inr forward \<Rightarrow>
             (case gitIsAncestor quote git repoRoot f s of
                Inl err \<Rightarrow> ancestryFailed f s ''freeze_commit'' err
              | Inr backward \<Rightarrow>
                  Inr (facts\<lparr>tp_SubjectAncestorFreeze := forward, tp_FreezeAncestorSubject := backward\<rparr>))))"

section \<open>Dispatch\<close>

datatype executionTopology = executionTopologyDefault | executionTopologyFreezeBeforeSubject

record V2DispatchOutcome =
  do_Version :: ClosureProtocolVersion
  do_Accepted :: bool
  do_Code :: V2DiagnosticCode
  do_Message :: string
  do_Relation :: V2Relation
  do_HasSubject :: bool
  do_HasFreeze :: bool

definition outcomeRejected :: "ClosureProtocolVersion \<Rightarrow> V2Relation \<Rightarrow> V2DiagnosticCode \<Rightarrow> string \<Rightarrow> V2DispatchOutcome" where
  "outcomeRejected version relation code message =
     \<lparr>do_Version = version, do_Accepted = False, do_Code = code, do_Message = message, do_Relation = relation,
      do_HasSubject = False, do_HasFreeze = False\<rparr>"

definition outcomeAccepted :: "ClosureProtocolVersion \<Rightarrow> V2Relation \<Rightarrow> V2DispatchOutcome" where
  "outcomeAccepted version relation =
     \<lparr>do_Version = version, do_Accepted = True, do_Code = '''', do_Message = '''', do_Relation = relation,
      do_HasSubject = True, do_HasFreeze = True\<rparr>"

definition dispatchFreezeFirst :: "ClosureProtocolVersion \<Rightarrow> string \<Rightarrow> V2Relation \<Rightarrow> V2DispatchOutcome option" where
  "dispatchFreezeFirst version name relation =
     (if relation = V2RelationFreezeBeforeSubject then Some (outcomeAccepted version relation)
      else if relation = V2RelationSubjectBeforeFreeze then
        Some (outcomeRejected version relation V2CodeSubjectNotAncestorOfFreeze
          (name @ '' requires freeze as ancestor of subject; observed the reverse''))
      else if relation = V2RelationSubjectFreezeUnrelated then
        Some (outcomeRejected version relation V2CodeSubjectFreezeUnrelated
          (name @ '' requires freeze as ancestor of subject; observed unrelated commits''))
      else None)"

definition dispatchSubjectFirst :: "ClosureProtocolVersion \<Rightarrow> V2Relation \<Rightarrow> V2DispatchOutcome option" where
  "dispatchSubjectFirst version relation =
     (if relation = V2RelationSubjectBeforeFreeze then Some (outcomeAccepted version relation)
      else if relation = V2RelationFreezeBeforeSubject then
        Some (outcomeRejected version relation V2CodeFreezeAncestorOfSubject
          ''v2 requires subject as ancestor of freeze; observed the reverse'')
      else if relation = V2RelationSubjectFreezeUnrelated then
        Some (outcomeRejected version relation V2CodeSubjectFreezeUnrelated
          ''v2 requires subject as ancestor of freeze; observed unrelated commits'')
      else None)"

text \<open>
  The blocks of the source that return nothing for a relation fall through to the next one.
\<close>

definition dispatchClosureTopology ::
  "(string \<Rightarrow> string) \<Rightarrow> ClosureProtocolVersion \<Rightarrow> executionTopology \<Rightarrow> V2TopologyFacts \<Rightarrow> V2DispatchOutcome" where
  "dispatchClosureTopology quote version execTopology facts =
     (if \<not> protocolIsSupported version then
        outcomeRejected version V2RelationUnset V2CodeUnsupportedClosureProtocolVersion
          (''closure protocol version '' @ quote version @ '' is not supported'')
      else
      let relation = Classify facts;
          unhandled = outcomeRejected version relation V2CodeGitOperationFailed
            (''unhandled topology relation '' @ quote (relationText relation));
          byVersion =
            (if version = ClosureProtocolV1 then
               (case dispatchFreezeFirst version ''v1'' relation of Some out \<Rightarrow> out | None \<Rightarrow> unhandled)
             else if version = ClosureProtocolV2 then
               (case dispatchSubjectFirst version relation of Some out \<Rightarrow> out | None \<Rightarrow> unhandled)
             else unhandled) in
      case relation of
        V2RelationMissingSubject \<Rightarrow>
          outcomeRejected version relation V2CodeSubjectCommitNotFound ''subject commit did not resolve in repository''
      | V2RelationMissingFreeze \<Rightarrow>
          outcomeRejected version relation V2CodeFreezeCommitNotFound ''freeze commit did not resolve in repository''
      | V2RelationEqual \<Rightarrow>
          outcomeRejected version relation V2CodeSubjectEqualsFreeze ''subject and freeze resolve to the same commit''
      | _ \<Rightarrow>
          if version = ClosureProtocolV2 \<and> execTopology = executionTopologyFreezeBeforeSubject then
            (case dispatchFreezeFirst version ''v2 (freeze_before_subject)'' relation of
               Some out \<Rightarrow> out
             | None \<Rightarrow> byVersion)
          else byVersion)"

definition DispatchClosureTopology ::
  "(string \<Rightarrow> string) \<Rightarrow> ClosureProtocolVersion \<Rightarrow> V2TopologyFacts \<Rightarrow> V2DispatchOutcome" where
  "DispatchClosureTopology quote version facts = dispatchClosureTopology quote version executionTopologyDefault facts"

section \<open>The older dispatch on booleans\<close>

record V2DispatchResult =
  dr_Version :: ClosureProtocolVersion
  dr_Accepted :: bool
  dr_Reason :: string
  dr_SubjectOK :: bool
  dr_FreezeOK :: bool

definition dispatchResult :: "ClosureProtocolVersion \<Rightarrow> bool \<Rightarrow> string \<Rightarrow> bool \<Rightarrow> bool \<Rightarrow> V2DispatchResult" where
  "dispatchResult v ok reason subjectOK freezeOK =
     \<lparr>dr_Version = v, dr_Accepted = ok, dr_Reason = reason, dr_SubjectOK = subjectOK, dr_FreezeOK = freezeOK\<rparr>"

definition V2DispatchTopology :: "ClosureProtocolVersion \<Rightarrow> bool \<Rightarrow> bool \<Rightarrow> V2DispatchResult" where
  "V2DispatchTopology v isAncestor equal =
     (if \<not> protocolIsSupported v then dispatchResult v False ''unsupported_closure_protocol_version'' False False
      else if equal then dispatchResult v False ''subject_equals_freeze'' False False
      else if v = ClosureProtocolV1 then
        (if \<not> isAncestor then dispatchResult v False ''freeze_not_ancestor_of_subject'' False True
         else dispatchResult v True '''' True True)
      else if v = ClosureProtocolV2 then
        (if \<not> isAncestor then dispatchResult v False ''subject_not_ancestor_of_freeze'' True False
         else dispatchResult v True '''' True True)
      else dispatchResult v False ''unsupported_closure_protocol_version'' False False)"


section \<open>Lemmas\<close>

definition authorityAt :: "gitClient \<Rightarrow> string \<Rightarrow> gitAuthority" where
  "authorityAt git root = Some \<lparr>ga_git = git, ga_repoRoot = root\<rparr>"

text \<open>The runner and the verifier ask git the same questions and read the same answers.\<close>

lemma resolve_same:
  "trimSpace revision \<noteq> '''' \<Longrightarrow>
   resolveTopologyCommit quote git root revision = Inr v \<longleftrightarrow> ResolveCommit (authorityAt git root) revision = Inr v"
  by (auto simp: resolveTopologyCommit_def runGitValue_def ResolveCommit_def authorityAt_def gitRun_def Let_def)

lemma resolve_oid: "resolveTopologyCommit quote git root revision = Inr v \<Longrightarrow> oidPattern v"
  by (auto simp: resolveTopologyCommit_def split: sum.splits if_splits)

lemma oid_not_blank: "oidPattern v \<Longrightarrow> trimSpace v \<noteq> ''''"
  using oidPattern_trimSpace oidPattern_nonempty by fastforce

lemma ancestor_same:
  "trimSpace x \<noteq> '''' \<Longrightarrow> trimSpace y \<noteq> '''' \<Longrightarrow>
   gitIsAncestor quote git root x y = Inr b \<longleftrightarrow> IsAncestor (authorityAt git root) x y = Inr b"
  by (auto simp: gitIsAncestor_def IsAncestor_def authorityAt_def gitRun_def Let_def)

lemma ancestor_answered:
  assumes "answersAncestry (authorityAt git root) parents"
    and "ResolveCommit (authorityAt git root) p = Inr x" and "ResolveCommit (authorityAt git root) q = Inr y"
  shows "gitIsAncestor quote git root x y = Inr ((x, y) \<in> parents\<^sup>*)"
  using assms ResolveCommit_oid [OF assms(2)] ResolveCommit_oid [OF assms(3)]
  by (auto simp: ancestor_same oid_not_blank answersAncestry_def)

lemma dispatchFreezeFirst_cases:
  "dispatchFreezeFirst v name r = None \<longleftrightarrow>
     r \<noteq> V2RelationFreezeBeforeSubject \<and> r \<noteq> V2RelationSubjectBeforeFreeze \<and> r \<noteq> V2RelationSubjectFreezeUnrelated"
  "dispatchFreezeFirst v name r = Some d \<Longrightarrow> do_Accepted d \<longleftrightarrow> r = V2RelationFreezeBeforeSubject"
  "dispatchFreezeFirst v name r = Some d \<Longrightarrow> do_Accepted d \<longleftrightarrow> do_Code d = ''''"
  by (auto simp: dispatchFreezeFirst_def outcomeAccepted_def outcomeRejected_def split: if_splits)

lemma dispatchSubjectFirst_cases:
  "dispatchSubjectFirst v r = None \<longleftrightarrow>
     r \<noteq> V2RelationFreezeBeforeSubject \<and> r \<noteq> V2RelationSubjectBeforeFreeze \<and> r \<noteq> V2RelationSubjectFreezeUnrelated"
  "dispatchSubjectFirst v r = Some d \<Longrightarrow> do_Accepted d \<longleftrightarrow> r = V2RelationSubjectBeforeFreeze"
  "dispatchSubjectFirst v r = Some d \<Longrightarrow> do_Accepted d \<longleftrightarrow> do_Code d = ''''"
  by (auto simp: dispatchSubjectFirst_def outcomeAccepted_def outcomeRejected_def split: if_splits)

lemma protocolIsSupported_iff: "protocolIsSupported v \<longleftrightarrow> v = ClosureProtocolV1 \<or> v = ClosureProtocolV2"
  by (auto simp: protocolIsSupported_def SupportedClosureProtocolVersions_def)

definition expectedRelation :: "ClosureProtocolVersion \<Rightarrow> executionTopology \<Rightarrow> V2Relation" where
  "expectedRelation version mode =
     (if version = ClosureProtocolV2 \<and> mode = executionTopologyDefault then V2RelationSubjectBeforeFreeze
      else V2RelationFreezeBeforeSubject)"

lemma dispatch_accepts:
  "do_Accepted (dispatchClosureTopology quote version mode facts) \<longleftrightarrow>
   protocolIsSupported version \<and> Classify facts = expectedRelation version mode"
  by (cases mode; cases "Classify facts")
    (auto simp: dispatchClosureTopology_def protocolIsSupported_iff expectedRelation_def dispatchFreezeFirst_def
      dispatchSubjectFirst_def outcomeAccepted_def outcomeRejected_def)

lemma dispatch_code:
  "do_Accepted (dispatchClosureTopology quote version mode facts) \<longleftrightarrow>
   do_Code (dispatchClosureTopology quote version mode facts) = ''''"
  by (cases mode; cases "Classify facts")
    (auto simp: dispatchClosureTopology_def protocolIsSupported_iff dispatchFreezeFirst_def
      dispatchSubjectFirst_def outcomeAccepted_def outcomeRejected_def)

lemma dispatch_same_verdict:
  "do_Accepted (dispatchClosureTopology quote version mode facts) \<longleftrightarrow>
   do_HasSubject (dispatchClosureTopology quote version mode facts) \<and>
   do_HasFreeze (dispatchClosureTopology quote version mode facts)"
  by (cases mode; cases "Classify facts")
    (auto simp: dispatchClosureTopology_def protocolIsSupported_iff dispatchFreezeFirst_def
      dispatchSubjectFirst_def outcomeAccepted_def outcomeRejected_def)

lemma probeTopology_commits:
  "ct_SubjectCommit (tf_Topology (probeTopology a t)) = ct_SubjectCommit t"
  "ct_FreezeCommit (tf_Topology (probeTopology a t)) = ct_FreezeCommit t"
  by (simp_all add: probeTopology_def observationFailure_def Let_def split: sum.splits)

text \<open>The older dispatch agrees with the default mode once its booleans are the observed ones.\<close>

lemma older_dispatch_agrees:
  assumes "tp_SubjectResolved facts" and "tp_FreezeResolved facts"
    and "tp_SubjectAncestorFreeze facts \<longrightarrow> \<not> tp_FreezeAncestorSubject facts"
  shows "dr_Accepted (V2DispatchTopology version
      (if version = ClosureProtocolV1 then tp_FreezeAncestorSubject facts else tp_SubjectAncestorFreeze facts) (tp_Equal facts))
    \<longleftrightarrow> do_Accepted (DispatchClosureTopology quote version facts)"
  using assms unfolding DispatchClosureTopology_def dispatch_accepts
  by (auto simp: V2DispatchTopology_def dispatchResult_def protocolIsSupported_iff expectedRelation_def Classify_def)

text \<open>What the resolver returns if git answers the ancestry of the commits it resolves correctly.\<close>

lemma runnerTopology_answered:
  assumes "answersAncestry (authorityAt git root) parents" and "trimSpace root \<noteq> ''''"
    and "trimSpace subject \<noteq> ''''" and "trimSpace freeze \<noteq> ''''"
  shows "\<exists>facts. runnerTopology quote git root subject freeze = Inr facts \<and>
    (Classify facts = V2RelationSubjectBeforeFreeze \<longleftrightarrow>
      (\<exists>s f. ResolveCommit (authorityAt git root) subject = Inr s \<and> ResolveCommit (authorityAt git root) freeze = Inr f \<and>
        s \<noteq> f \<and> (s, f) \<in> parents\<^sup>* \<and> (f, s) \<notin> parents\<^sup>*)) \<and>
    (Classify facts = V2RelationFreezeBeforeSubject \<longleftrightarrow>
      (\<exists>s f. ResolveCommit (authorityAt git root) subject = Inr s \<and> ResolveCommit (authorityAt git root) freeze = Inr f \<and>
        f \<noteq> s \<and> (f, s) \<in> parents\<^sup>* \<and> (s, f) \<notin> parents\<^sup>*)) \<and>
    (Classify facts \<in> {V2RelationSubjectBeforeFreeze, V2RelationFreezeBeforeSubject} \<longrightarrow>
      ResolveCommit (authorityAt git root) subject = Inr (tp_SubjectCommit facts) \<and>
      ResolveCommit (authorityAt git root) freeze = Inr (tp_FreezeCommit facts))"
proof (cases "resolveTopologyCommit quote git root subject")
  case (Inl e)
  then have "ResolveCommit (authorityAt git root) subject \<noteq> Inr s" for s
    using resolve_same [OF assms(3), of quote git root s] by auto
  with Inl assms show ?thesis
    by (simp add: runnerTopology_def noTopologyFacts_def Classify_def)
next
  case (Inr s)
  then have s: "ResolveCommit (authorityAt git root) subject = Inr s" "oidPattern s"
    using resolve_same [OF assms(3)] resolve_oid by blast+
  show ?thesis
  proof (cases "resolveTopologyCommit quote git root freeze")
    case (Inl e)
    then have "ResolveCommit (authorityAt git root) freeze \<noteq> Inr f" for f
      using resolve_same [OF assms(4), of quote git root f] by auto
    with Inl Inr assms show ?thesis
      by (simp add: runnerTopology_def noTopologyFacts_def Classify_def)
  next
    case (Inr f)
    then have f: "ResolveCommit (authorityAt git root) freeze = Inr f" "oidPattern f"
      using resolve_same [OF assms(4)] resolve_oid by blast+
    have "gitIsAncestor quote git root s f = Inr ((s, f) \<in> parents\<^sup>*)" "gitIsAncestor quote git root f s = Inr ((f, s) \<in> parents\<^sup>*)"
      using ancestor_answered [OF assms(1) s(1) f(1)] ancestor_answered [OF assms(1) f(1) s(1)] by blast+
    then show ?thesis
      using s f Inr \<open>resolveTopologyCommit quote git root subject = Inr s\<close> assms(2-4)
      by (auto simp: runnerTopology_def noTopologyFacts_def Classify_def Let_def)
  qed
qed

text \<open>
  The comment of the resolver promises an error for a git that does not work; every failure of
  \<open>rev-parse\<close> is reported as a missing subject instead, without an error.
\<close>

lemma failing_git_is_missing_subject:
  assumes "\<And>args. commandFailed (git root args)"
    and "trimSpace root \<noteq> ''''" and "trimSpace subject \<noteq> ''''" and "trimSpace freeze \<noteq> ''''"
  shows "runnerTopology quote git root subject freeze = Inr noTopologyFacts \<and>
    do_Code (dispatchClosureTopology quote ClosureProtocolV2 mode noTopologyFacts) = V2CodeSubjectCommitNotFound"
  using assms
  by (simp add: runnerTopology_def resolveTopologyCommit_def runGitValue_def dispatchClosureTopology_def protocolIsSupported_iff
      noTopologyFacts_def Classify_def outcomeRejected_def Let_def)

section \<open>Properties\<close>

text \<open>
  C12. If git answers the ancestry of the commits it resolves correctly, the runner never fails to
  observe the topology, and every version and mode is accepted exactly for its own direction: version 2 in
  the default mode when both revisions are commits and the subject is a proper ancestor of the
  freeze, version 1 and the freeze-first mode when the freeze is a proper ancestor of the
  subject, any other version never.  A refusal always carries a code and an acceptance none.
\<close>

theorem runner_topology_exact:
  assumes "answersAncestry (authorityAt git root) parents" and "acyclic parents"
    and "trimSpace root \<noteq> ''''" and "trimSpace subject \<noteq> ''''" and "trimSpace freeze \<noteq> ''''"
  shows "\<exists>facts. runnerTopology quote git root subject freeze = Inr facts \<and>
    (let d = dispatchClosureTopology quote version mode facts in
     (do_Accepted d \<longleftrightarrow> protocolIsSupported version \<and>
        (\<exists>s f. ResolveCommit (authorityAt git root) subject = Inr s \<and> ResolveCommit (authorityAt git root) freeze = Inr f \<and>
          (if version = ClosureProtocolV2 \<and> mode = executionTopologyDefault
           then (s, f) \<in> parents\<^sup>+ else (f, s) \<in> parents\<^sup>+))) \<and>
     (do_Accepted d \<longleftrightarrow> do_Code d = ''''))"
  using runnerTopology_answered [OF assms(1,3-5), of quote]
  unfolding Let_def dispatch_accepts dispatch_code [symmetric] proper_ancestor_iff [OF assms(2)] expectedRelation_def
  by auto

text \<open>
  C13. The runner and the verifier agree on the direction, if git answers the ancestry of the
  commits it resolves correctly: whenever the verifier accepts the topology
  of a request, then the runner in its default mode accepts its subject and freeze, for the same
  commits, and the runner in the freeze-first mode refuses them.  So nothing that was run in the
  freeze-first mode can be verified as it was run.
\<close>

theorem verified_topology_was_runnable:
  assumes "answersAncestry (authorityAt git root) parents" and "acyclic parents" and "trimSpace root \<noteq> ''''"
    and "IsAccepted (tf_Relation (fst (ResolveTopology (authorityAt git root) request)))"
  shows "\<exists>facts. runnerTopology quote git root (rq_SubjectCommit request) (rq_FreezeCommit request) = Inr facts \<and>
    do_Accepted (DispatchClosureTopology quote ClosureProtocolV2 facts) \<and>
    \<not> do_Accepted (dispatchClosureTopology quote ClosureProtocolV2 executionTopologyFreezeBeforeSubject facts) \<and>
    tp_SubjectCommit facts = ct_SubjectCommit (tf_Topology (fst (ResolveTopology (authorityAt git root) request))) \<and>
    tp_FreezeCommit facts = ct_FreezeCommit (tf_Topology (fst (ResolveTopology (authorityAt git root) request)))"
proof -
  let ?a = "authorityAt git root"
  have a: "?a \<noteq> None"
    by (simp add: authorityAt_def)
  obtain t where t: "resolvesTo ?a request t" and same:
    "IsAncestor ?a (ct_SubjectCommit t) (ct_FreezeCommit t) = Inr True"
    "IsAncestor ?a (ct_FreezeCommit t) (ct_SubjectCommit t) = Inr False" "ct_SubjectCommit t \<noteq> ct_FreezeCommit t"
    using assms(4) unfolding ResolveTopology_accepts [OF a] by blast
  have commits: "ResolveCommit ?a (rq_SubjectCommit request) = Inr (ct_SubjectCommit t)"
    "ResolveCommit ?a (rq_FreezeCommit request) = Inr (ct_FreezeCommit t)"
    using t by (simp_all add: resolvesTo_def)
  have named: "trimSpace (rq_SubjectCommit request) \<noteq> []" "trimSpace (rq_FreezeCommit request) \<noteq> []"
    using commits by (auto simp: ResolveCommit_def authorityAt_def)
  have order: "(ct_SubjectCommit t, ct_FreezeCommit t) \<in> parents\<^sup>*" "(ct_FreezeCommit t, ct_SubjectCommit t) \<notin> parents\<^sup>*"
    using same(1,2) assms(1) commits unfolding answersAncestry_def by (metis sum.inject(2))+
  obtain facts where facts: "runnerTopology quote git root (rq_SubjectCommit request) (rq_FreezeCommit request) = Inr facts"
    and relation: "Classify facts = V2RelationSubjectBeforeFreeze \<longleftrightarrow>
      (\<exists>s f. ResolveCommit ?a (rq_SubjectCommit request) = Inr s \<and> ResolveCommit ?a (rq_FreezeCommit request) = Inr f \<and>
        s \<noteq> f \<and> (s, f) \<in> parents\<^sup>* \<and> (f, s) \<notin> parents\<^sup>*)"
    and known: "Classify facts \<in> {V2RelationSubjectBeforeFreeze, V2RelationFreezeBeforeSubject} \<longrightarrow>
      ResolveCommit ?a (rq_SubjectCommit request) = Inr (tp_SubjectCommit facts) \<and>
      ResolveCommit ?a (rq_FreezeCommit request) = Inr (tp_FreezeCommit facts)"
    using runnerTopology_answered [OF assms(1,3) named, of quote] by blast
  have forward: "Classify facts = V2RelationSubjectBeforeFreeze"
    unfolding relation using commits order same(3) by blast
  with known commits have resolved: "tp_SubjectCommit facts = ct_SubjectCommit t" "tp_FreezeCommit facts = ct_FreezeCommit t"
    by simp_all
  have "tf_Topology (fst (ResolveTopology ?a request)) =
      tf_Topology (probeTopology ?a (topologyOf (ct_SubjectCommit t) (ct_SubjectTree t) (ct_FreezeCommit t)
        (ct_FreezeTree t) (ct_ClosureCommit t) (ct_ClosureTree t)))"
    using ResolveTopology_resolved [OF a t] by simp
  then have "ct_SubjectCommit (tf_Topology (fst (ResolveTopology ?a request))) = ct_SubjectCommit t"
    "ct_FreezeCommit (tf_Topology (fst (ResolveTopology ?a request))) = ct_FreezeCommit t"
    by (simp_all add: probeTopology_commits topologyOf_def)
  with facts forward resolved show ?thesis
    by (intro exI [of _ facts])
      (simp add: DispatchClosureTopology_def dispatch_accepts expectedRelation_def protocolIsSupported_iff)
qed

lemma chain_authority: "authorityAt chainGit ''/repo'' = chainAuthority"
  by (simp add: authorityAt_def chainAuthority_def)

lemma chain_commits:
  assumes "c \<in> {CHR ''1'', CHR ''2'', CHR ''3''}"
  shows "ResolveCommit chainAuthority (oid40 c) = Inr (oid40 c) \<and> trimSpace (oid40 c) \<noteq> []"
proof -
  have "oidPattern (oid40 c)"
    using assms by (intro oid40_pattern) (auto simp: lower_hex_def)
  then show ?thesis
    using oidPattern_trimSpace assms
    by (auto simp: ResolveCommit_def chainAuthority_def gitRun_def chainGit_def chainCommits_def okResult_def commandFailed_def Let_def)
qed

lemma slash_repo: "trimSpace ''/repo'' \<noteq> []"
  by code_simp

lemma runner_topology_exact_witness:
  "\<exists>facts. runnerTopology id chainGit ''/repo'' (oid40 (CHR ''1'')) (oid40 (CHR ''2'')) = Inr facts \<and>
    do_Accepted (dispatchClosureTopology id ClosureProtocolV2 executionTopologyDefault facts)"
proof -
  have "(oid40 (CHR ''1''), oid40 (CHR ''2'')) \<in> chainParents\<^sup>+"
    by (rule r_into_trancl) (simp add: chainParents_def)
  then show ?thesis
    using runner_topology_exact [of chainGit "''/repo''" chainParents "oid40 (CHR ''1'')" "oid40 (CHR ''2'')" id
        ClosureProtocolV2 executionTopologyDefault] chain_commits [of "CHR ''1''"] chain_commits [of "CHR ''2''"]
    by (auto simp: chain_authority chain_answers chainParents_acyclic slash_repo protocolIsSupported_iff Let_def)
qed

lemma verified_topology_was_runnable_witness:
  "\<exists>facts. runnerTopology id chainGit ''/repo'' (oid40 (CHR ''1'')) (oid40 (CHR ''2'')) = Inr facts \<and>
    do_Accepted (DispatchClosureTopology id ClosureProtocolV2 facts)"
proof -
  have a: "authorityAt chainGit ''/repo'' \<noteq> None"
    by (simp add: authorityAt_def)
  let ?t = "topologyOf (oid40 (CHR ''1'')) (oid40 (CHR ''1'')) (oid40 (CHR ''2'')) (oid40 (CHR ''2''))
     (oid40 (CHR ''3'')) (oid40 (CHR ''3''))"
  have reach: "IsAncestor chainAuthority (oid40 c) (oid40 d) = Inr (c = d \<or> (oid40 c, oid40 d) \<in> chainReach)"
    if "c \<in> {CHR ''1'', CHR ''2'', CHR ''3''}" "d \<in> {CHR ''1'', CHR ''2'', CHR ''3''}" for c d
  proof -
    have "IsAncestor chainAuthority (oid40 c) (oid40 d) = Inr ((oid40 c, oid40 d) \<in> chainParents\<^sup>*)"
      using chain_answers chain_commits [OF that(1)] chain_commits [OF that(2)] unfolding answersAncestry_def by blast
    then show ?thesis
      by (simp add: chainParents_rtrancl disj_commute)
  qed
  have "IsAccepted (tf_Relation (fst (ResolveTopology (authorityAt chainGit ''/repo'') chainRequest)))"
    unfolding ResolveTopology_accepts [OF a]
    by (rule exI [of _ ?t]) (simp add: chain_authority chain_resolves [unfolded topologyOf_def] reach topologyOf_def chainReach_def chainParents_def)
  then show ?thesis
    using verified_topology_was_runnable [of chainGit "''/repo''" chainParents chainRequest id]
    by (auto simp: chain_authority chain_answers chainParents_acyclic slash_repo chainRequest_def)
qed

end
