(* ===== verification/Closure_Paths.thy ===== *)
theory Closure_Paths
  imports Closure_Dispatch
begin

text \<open>
  The path authority of the version 2 runner (\<open>v2_path_authority.go\<close>): the resolver for paths
  whose end need not exist yet, the forbidden roots, and the rule that every output of a run lies
  outside the repository (\<open>EnforceDetachedV2Outputs\<close> of \<open>closure_protocol_v2_runner.go\<close>).

  The file system is a parameter: a record of what the calls of packages \<open>os\<close> and
  \<open>path/filepath\<close> return.  Errors are given by their text.
\<close>

section \<open>The file system\<close>

datatype lstatAnswer = LstatPresent | LstatNotExist | LstatError string

record fileInfo =
  fi_IsRegular :: bool
  fi_Perm :: "32 word"

record fileSystem =
  fs_Getwd :: "string + string"
  fs_Lstat :: "string \<Rightarrow> lstatAnswer"
  fs_Stat :: "string \<Rightarrow> string + fileInfo"
  fs_EvalSymlinks :: "string \<Rightarrow> string + string"
  fs_ReadFile :: "string \<Rightarrow> string + string"
  fs_MkdirAll :: "string \<Rightarrow> string option"

text \<open>\<open>filepath.Abs\<close>, \<open>filepath.Dir\<close> and \<open>filepath.Base\<close>.\<close>

definition absPath :: "fileSystem \<Rightarrow> string \<Rightarrow> string + string" where
  "absPath fs p =
     (if isAbs p then Inr (cleanPath p)
      else case fs_Getwd fs of Inl err \<Rightarrow> Inl err | Inr wd \<Rightarrow> Inr (joinPath wd p))"

definition uptoSlash :: "string \<Rightarrow> string" where
  "uptoSlash p = rev (dropWhile (\<lambda>c. c \<noteq> CHR ''/'') (rev p))"

definition dirPath :: "string \<Rightarrow> string" where
  "dirPath p = cleanPath (uptoSlash p)"

definition basePath :: "string \<Rightarrow> string" where
  "basePath p =
     (if p = '''' then ''.''
      else let q = rev (dropWhile (\<lambda>c. c = CHR ''/'') (rev p))
      in if q = '''' then ''/'' else rev (takeWhile (\<lambda>c. c \<noteq> CHR ''/'') (rev q)))"

section \<open>Cleaning does not lengthen a path\<close>

definition elemCost :: "string list \<Rightarrow> nat" where
  "elemCost es = sum_list (map (\<lambda>e. length e + 1) es)"

lemma elemCost_simps [simp]:
  "elemCost [] = 0" "elemCost (e # es) = length e + 1 + elemCost es" "elemCost (es @ fs) = elemCost es + elemCost fs"
  "elemCost (rev es) = elemCost es"
  by (simp_all add: elemCost_def rev_map [symmetric])

lemma length_join: "length (join ''/'' es) = elemCost es - 1"
proof (induction es)
  case (Cons e es)
  then show ?case
    by (cases es) (auto simp: join_Cons)
qed simp

lemma splitOn_cost: "elemCost (splitOn c p) = length p + 1"
  by (induction p) (auto split: list.splits)

lemma cleanElems_cost:
  "elemCost (cleanElems rooted acc es) \<le> elemCost acc + elemCost (filter (\<lambda>e. e \<noteq> []) es)"
proof (induction rooted acc es rule: cleanElems.induct)
  case (2 rooted acc e es)
  then show ?case
    by (cases acc) auto
qed simp

lemma filter_cost:
  "elemCost (filter (\<lambda>e. e \<noteq> []) es) + length (filter (\<lambda>e. e = []) es) = elemCost es"
  by (induction es) auto

lemma uptoSlash_cases:
  obtains "uptoSlash p = []" | q where "uptoSlash p = q @ ''/''" "prefix (q @ ''/'') p"
proof -
  have p: "p = uptoSlash p @ rev (takeWhile (\<lambda>c. c \<noteq> CHR ''/'') (rev p))"
    by (simp add: uptoSlash_def rev_append [symmetric] del: rev_append)
  show ?thesis
  proof (cases "dropWhile (\<lambda>c. c \<noteq> CHR ''/'') (rev p)")
    case Nil
    then show ?thesis
      using that(1) by (simp add: uptoSlash_def)
  next
    case (Cons x xs)
    then have "x = CHR ''/''"
      using hd_dropWhile [of "\<lambda>c. c \<noteq> CHR ''/''" "rev p"] by auto
    with Cons have u: "uptoSlash p = rev xs @ ''/''"
      by (simp add: uptoSlash_def)
    with p show ?thesis
      using that(2) [of "rev xs"] by (metis prefixI)
  qed
qed

lemma cleanPath_slash_shorter:
  assumes "cleanPath (q @ ''/'') \<noteq> ''.''" and "q \<noteq> []"
  shows "length (cleanPath (q @ ''/'')) \<le> length q"
proof -
  let ?es = "splitOn (CHR ''/'') (q @ ''/'')"
  let ?r = "cleanElems (isAbs (q @ ''/'')) [] ?es"
  have es: "?es = splitOn (CHR ''/'') q @ [[]]"
    using splitOn_append [of "CHR ''/''" q "[]"] by simp
  have le: "elemCost ?r \<le> elemCost (filter (\<lambda>e. e \<noteq> []) ?es)"
    using cleanElems_cost [of "isAbs (q @ ''/'')" "[]" ?es] by simp
  have total: "elemCost ?es = length q + 2"
    by (simp add: splitOn_cost)
  show ?thesis
  proof (cases "isAbs q")
    case True
    then obtain q' where q: "q = CHR ''/'' # q'"
      by (cases q) (auto simp: isAbs_def)
    then have "?es = [] # splitOn (CHR ''/'') q' @ [[]]"
      using splitOn_append [of "CHR ''/''" q' "[]"] by simp
    then have "length (filter (\<lambda>e. e = []) ?es) \<ge> 2"
      by simp
    with le total filter_cost [of ?es] have "elemCost ?r \<le> length q"
      by linarith
    then show ?thesis
      using True q by (simp add: cleanPath_def Let_def length_join isAbs_def)
  next
    case False
    have "length (filter (\<lambda>e. e = []) ?es) \<ge> 1"
      by (simp add: es)
    with le total filter_cost [of ?es] have "elemCost ?r \<le> length q + 1"
      by linarith
    moreover have "\<not> isAbs (q @ ''/'')"
      using False assms(2) by (cases q) (auto simp: isAbs_def)
    ultimately show ?thesis
      using assms by (auto simp: cleanPath_def Let_def length_join split: if_splits)
  qed
qed

lemma dirPath_shorter:
  assumes "dirPath p \<noteq> p" and "dirPath p \<noteq> ''.''"
  shows "length (dirPath p) < length p"
proof (cases p rule: uptoSlash_cases)
  case 1
  then show ?thesis
    using assms(2) by (simp add: dirPath_def cleanPath_def)
next
  case (2 q)
  then have le: "length q + 1 \<le> length p"
    using prefix_length_le [of "q @ ''/''" p] by simp
  show ?thesis
  proof (cases "q = []")
    case True
    with 2 have d: "dirPath p = ''/''"
      by (simp add: dirPath_def) code_simp
    with 2 True assms(1) show ?thesis
      by (cases p; cases "tl p") (auto simp: prefix_def)
  next
    case False
    with 2 assms(2) le show ?thesis
      using cleanPath_slash_shorter [of q] by (simp add: dirPath_def)
  qed
qed

lemma dirPath_dot: "dirPath ''.'' = ''.''"
  by code_simp

section \<open>The resolver\<close>

text \<open>
  The loop that looks for the deepest existing ancestor: \<open>Inr None\<close> is the root reached
  without finding one, otherwise the result is the ancestor with the rest of the path.
\<close>

function deepestAncestor :: "fileSystem \<Rightarrow> string \<Rightarrow> string \<Rightarrow> string + (string \<times> string) option" where
  "deepestAncestor fs ancestor rest =
     (case fs_Lstat fs ancestor of
        LstatPresent \<Rightarrow> Inr (Some (ancestor, rest))
      | LstatError err \<Rightarrow> Inl (''lstat '' @ ancestor @ '': '' @ err)
      | LstatNotExist \<Rightarrow>
          let parent = dirPath ancestor in
          if parent = ancestor then Inr None
          else deepestAncestor fs parent (joinPath (basePath ancestor) rest))"
  by pat_completeness auto

termination deepestAncestor
proof (relation "measure (\<lambda>(fs, p, rest). if p = ''.'' then 0 else length p + 1)", goal_cases)
  case (2 fs ancestor rest parent)
  then show ?case
    using dirPath_shorter [of ancestor] dirPath_dot by auto
qed simp

declare deepestAncestor.simps [simp del]

definition canonicalisePathDetached :: "(string \<Rightarrow> string) \<Rightarrow> fileSystem \<Rightarrow> string \<Rightarrow> string + string" where
  "canonicalisePathDetached quote fs p =
     (if p = '''' then Inl ''empty path''
      else if nulChar \<in> set p then Inl (''path '' @ quote p @ '' contains NUL byte'')
      else case absPath fs p of
        Inl err \<Rightarrow> Inl (''make absolute: '' @ err)
      | Inr full \<Rightarrow>
        (case deepestAncestor fs full '''' of
           Inl err \<Rightarrow> Inl err
         | Inr None \<Rightarrow> Inr (cleanPath full)
         | Inr (Some (ancestor, rest)) \<Rightarrow>
           (case fs_EvalSymlinks fs ancestor of
              Inl err \<Rightarrow> Inl (''resolve symlinks for '' @ ancestor @ '': '' @ err)
            | Inr resolved \<Rightarrow>
                if rest = '''' then Inr (cleanPath resolved) else Inr (cleanPath (joinPath resolved rest)))))"

section \<open>Forbidden roots\<close>

record forbiddenRoots =
  fr_targetRepoWorktree :: string
  fr_gitDir :: string
  fr_gitCommonDir :: string
  fr_subjectWorktree :: string

definition noRoots :: forbiddenRoots where
  "noRoots = \<lparr>fr_targetRepoWorktree = '''', fr_gitDir = '''', fr_gitCommonDir = '''', fr_subjectWorktree = ''''\<rparr>"

definition canonicalOrEmpty :: "(string \<Rightarrow> string) \<Rightarrow> fileSystem \<Rightarrow> string \<Rightarrow> string" where
  "canonicalOrEmpty quote fs p = (case canonicalisePathDetached quote fs p of Inl _ \<Rightarrow> '''' | Inr c \<Rightarrow> c)"

text \<open>
  \<open>resolveForbiddenRoots\<close>: the git directory git prints is joined with the repository root even
  if it is absolute, the common directory is made absolute on its own.
\<close>

definition resolveForbiddenRoots ::
  "(string \<Rightarrow> string) \<Rightarrow> fileSystem \<Rightarrow> gitClient option \<Rightarrow> string \<Rightarrow> string \<Rightarrow> string + forbiddenRoots" where
  "resolveForbiddenRoots quote fs git repoRoot subjectWorktree =
     (if repoRoot = '''' then Inr noRoots
      else case canonicalisePathDetached quote fs repoRoot of
        Inl err \<Rightarrow> Inl (''canonicalise repository_root: '' @ err)
      | Inr canonRepo \<Rightarrow>
        (case git of
           None \<Rightarrow> Inr (noRoots\<lparr>fr_targetRepoWorktree := canonRepo\<rparr>)
         | Some run \<Rightarrow>
           let gitDir =
                 (case runGitValue run canonRepo [''rev-parse'', ''--git-dir''] of
                    Inl _ \<Rightarrow> ''''
                  | Inr out \<Rightarrow> (case absPath fs (joinPath canonRepo out) of Inl _ \<Rightarrow> '''' | Inr a \<Rightarrow> canonicalOrEmpty quote fs a));
               common =
                 (case runGitValue run canonRepo [''rev-parse'', ''--git-common-dir''] of
                    Inl _ \<Rightarrow> ''''
                  | Inr out \<Rightarrow> (case absPath fs out of Inl _ \<Rightarrow> '''' | Inr a \<Rightarrow> canonicalOrEmpty quote fs a))
           in Inr \<lparr>fr_targetRepoWorktree = canonRepo, fr_gitDir = gitDir,
                  fr_gitCommonDir = (if common = gitDir then '''' else common),
                  fr_subjectWorktree = (if subjectWorktree \<noteq> '''' then canonicalOrEmpty quote fs subjectWorktree else '''')\<rparr>))"

definition pathIsUnder :: "string \<Rightarrow> string \<Rightarrow> bool" where
  "pathIsUnder candidate root \<longleftrightarrow>
     (if root = '''' \<or> candidate = '''' then False
      else if candidate = root then True
      else case filepathRel root candidate of
        None \<Rightarrow> False
      | Some rel \<Rightarrow> \<not> (rel = ''..'' \<or> prefix ''../'' rel) \<and> \<not> isAbs rel)"

definition detachedCode :: "string \<Rightarrow> V2DiagnosticCode" where
  "detachedCode property =
     (if property = ''evidence_directory'' then V2CodeEvidencePathNotDetached
      else if property = ''manifest_output'' then V2CodeManifestPathNotDetached
      else if property = ''working_plan_assertion'' then V2CodeWorkingPlanPathInvalid
      else V2CodeInvalidPlanPath)"

definition newDetachedError :: "(string \<Rightarrow> string) \<Rightarrow> string \<Rightarrow> string \<Rightarrow> string \<Rightarrow> string \<Rightarrow> V2Error" where
  "newDetachedError quote property rootKind target canonTarget =
     NewV2ErrorWith (detachedCode property)
       (property @ '' '' @ quote target @ '' resolves inside '' @ rootKind @ '' ('' @ canonTarget @ '')'') property canonTarget"

definition ensureDetachedFromAny ::
  "(string \<Rightarrow> string) \<Rightarrow> fileSystem \<Rightarrow> string \<Rightarrow> string \<Rightarrow> forbiddenRoots \<Rightarrow> V2Error option" where
  "ensureDetachedFromAny quote fs property target roots =
     (case canonicalisePathDetached quote fs target of
        Inl err \<Rightarrow> Some (NewV2ErrorWith (detachedCode property) (property @ '' canonicalise: '' @ err) property target)
      | Inr canon \<Rightarrow>
          if pathIsUnder canon (fr_targetRepoWorktree roots) then
            Some (newDetachedError quote property ''repository_root'' target canon)
          else if pathIsUnder canon (fr_gitDir roots) then Some (newDetachedError quote property ''git_dir'' target canon)
          else if pathIsUnder canon (fr_gitCommonDir roots) then
            Some (newDetachedError quote property ''git_common_dir'' target canon)
          else if pathIsUnder canon (fr_subjectWorktree roots) then
            Some (newDetachedError quote property ''subject_worktree'' target canon)
          else None)"

section \<open>The outputs of a run\<close>

record V2Request =
  vq_ClosureProtocolVersion :: ClosureProtocolVersion
  vq_PlanContractVersion :: PlanContractVersion
  vq_RepositoryRoot :: string
  vq_SubjectCommit :: string
  vq_FreezeCommit :: string
  vq_PlanPath :: string
  vq_OptionalWorkingPlanAssertion :: string
  vq_EvidenceDirectory :: string
  vq_ManifestOutput :: string

definition detachedIfSet ::
  "(string \<Rightarrow> string) \<Rightarrow> fileSystem \<Rightarrow> forbiddenRoots \<Rightarrow> string \<times> string \<Rightarrow> V2Error option" where
  "detachedIfSet quote fs roots output =
     (case output of (property, target) \<Rightarrow>
        if target \<noteq> '''' then ensureDetachedFromAny quote fs property target roots else None)"

fun firstFailure :: "('a \<Rightarrow> 'e option) \<Rightarrow> 'a list \<Rightarrow> 'e option" where
  "firstFailure f [] = None"
| "firstFailure f (x # xs) = (case f x of None \<Rightarrow> firstFailure f xs | Some e \<Rightarrow> Some e)"

definition EnforceDetachedV2Outputs :: "(string \<Rightarrow> string) \<Rightarrow> fileSystem \<Rightarrow> V2Request \<Rightarrow> V2Error option" where
  "EnforceDetachedV2Outputs quote fs req =
     (if vq_RepositoryRoot req = '''' then None
      else if \<not> isAbs (vq_RepositoryRoot req) then
        Some (NewV2ErrorWith V2CodeInvalidPlanPath ''repository_root must be absolute'' ''repository_root'' (vq_RepositoryRoot req))
      else case canonicalisePathDetached quote fs (vq_RepositoryRoot req) of
        Inl err \<Rightarrow> Some (NewV2ErrorWith V2CodeInvalidPlanPath (''canonicalise repository_root: '' @ err)
                     ''repository_root'' (vq_RepositoryRoot req))
      | Inr canonRepo \<Rightarrow>
          firstFailure (detachedIfSet quote fs (noRoots\<lparr>fr_targetRepoWorktree := canonRepo\<rparr>))
            [(''evidence_directory'', vq_EvidenceDirectory req), (''manifest_output'', vq_ManifestOutput req),
             (''working_plan_assertion'', vq_OptionalWorkingPlanAssertion req)])"

section \<open>Canonical paths\<close>

text \<open>A clean absolute path is a slash followed by ordinary names.\<close>

definition ordinaryName :: "string \<Rightarrow> bool" where
  "ordinaryName e \<longleftrightarrow> plainSegment e \<and> CHR ''/'' \<notin> set e"

definition rooted :: "string list \<Rightarrow> string" where
  "rooted es = ''/'' @ join ''/'' es"

lemma splitOn_no_slash: "e \<in> set (splitOn c p) \<Longrightarrow> c \<notin> set e"
  by (induction p arbitrary: e) (auto split: if_splits list.splits)

lemma cleanElems_rooted:
  "list_all ordinaryName acc \<Longrightarrow> list_all (\<lambda>e. CHR ''/'' \<notin> set e) es \<Longrightarrow> list_all ordinaryName (cleanElems True acc es)"
proof (induction True acc es rule: cleanElems.induct)
  case (2 acc e es)
  then show ?case
    by (cases acc) (auto simp: ordinaryName_def plainSegment_def)
qed (simp add: list_all_iff)

lemma cleanPath_rooted:
  assumes "isAbs p"
  obtains es where "cleanPath p = rooted es" and "list_all ordinaryName es"
proof
  have "p \<noteq> []"
    using assms by (auto simp: isAbs_def)
  with assms show "cleanPath p = rooted (cleanElems True [] (splitOn (CHR ''/'') p))"
    by (simp add: cleanPath_def rooted_def Let_def)
  show "list_all ordinaryName (cleanElems True [] (splitOn (CHR ''/'') p))"
    by (rule cleanElems_rooted) (auto simp: list_all_iff dest: splitOn_no_slash)
qed

lemma splitOn_join:
  "es \<noteq> [] \<Longrightarrow> list_all (\<lambda>e. c \<notin> set e) es \<Longrightarrow> splitOn c (join [c] es) = es"
proof (induction es)
  case (Cons e es)
  then show ?case
    by (cases "es = []") (simp_all add: join_Cons splitOn_no_sep splitOn_append_sep)
qed simp

lemma splitOn_rooted:
  assumes "list_all ordinaryName es"
  shows "splitOn (CHR ''/'') (rooted es) = (if es = [] then [[], []] else [] # es)"
proof -
  have "list_all (\<lambda>e. CHR ''/'' \<notin> set e) es"
    using assms by (auto simp: list_all_iff ordinaryName_def)
  then show ?thesis
    using splitOn_join [of es "CHR ''/''"] by (simp add: rooted_def)
qed

lemma pathElems_rooted: "list_all ordinaryName es \<Longrightarrow> pathElems (rooted es) = es"
  by (auto simp: pathElems_def splitOn_rooted list_all_iff ordinaryName_def plainSegment_def intro: filter_True)

lemma isAbs_rooted [simp]: "isAbs (rooted es)" "rooted es \<noteq> []" "rooted es \<noteq> ''.''"
  by (simp_all add: isAbs_def rooted_def)

lemma cleanPath_rooted_id: "list_all ordinaryName es \<Longrightarrow> cleanPath (rooted es) = rooted es"
  using cleanElems_plain [of es True "[]"]
  by (auto simp: cleanPath_def splitOn_rooted Let_def list_all_iff ordinaryName_def) (auto simp: rooted_def)

lemma rooted_inject: "list_all ordinaryName es \<Longrightarrow> list_all ordinaryName fs \<Longrightarrow> rooted es = rooted fs \<longleftrightarrow> es = fs"
  by (metis pathElems_rooted)

lemma dropCommon_prefix: "fst (dropCommon bs ts) = [] \<longleftrightarrow> prefix bs ts"
  by (induction bs ts rule: dropCommon.induct) auto

lemma dropCommon_same: "prefix bs ts \<Longrightarrow> ts = bs @ snd (dropCommon bs ts)"
  by (induction bs ts rule: dropCommon.induct) auto

lemma set_dropCommon: "set (fst (dropCommon bs ts)) \<subseteq> set bs \<and> set (snd (dropCommon bs ts)) \<subseteq> set ts"
  by (induction bs ts rule: dropCommon.induct) auto

lemma dotdot_join: "join ''/'' (''..'' # es) = ''..'' \<or> prefix ''../'' (join ''/'' (''..'' # es))"
  by (cases es) auto

lemma ordinary_join:
  assumes "list_all ordinaryName es" and "es \<noteq> []"
  shows "join ''/'' es \<noteq> ''..'' \<and> \<not> prefix ''../'' (join ''/'' es) \<and> \<not> isAbs (join ''/'' es)"
proof -
  obtain e rest where es: "es = e # rest" "ordinaryName e"
    using assms by (cases es) auto
  have s: "splitOn (CHR ''/'') (join ''/'' es) = es"
    using assms by (intro splitOn_join) (auto simp: list_all_iff ordinaryName_def)
  have "join ''/'' es \<noteq> ''..''"
  proof
    assume "join ''/'' es = ''..''"
    with s es show False
      by (simp add: ordinaryName_def plainSegment_def)
  qed
  moreover have "\<not> prefix ''../'' (join ''/'' es)"
  proof
    assume "prefix ''../'' (join ''/'' es)"
    then obtain q where "join ''/'' es = ''..'' @ CHR ''/'' # q"
      by (auto simp: prefix_def)
    then have "splitOn (CHR ''/'') (join ''/'' es) = ''..'' # splitOn (CHR ''/'') q"
      by (simp add: splitOn_append_sep del: append_Cons append.simps)
    with s es show False
      by (simp add: ordinaryName_def plainSegment_def)
  qed
  moreover have "\<not> isAbs (join ''/'' es)"
  proof
    assume "isAbs (join ''/'' es)"
    then obtain q where "join ''/'' es = CHR ''/'' # q"
      by (cases "join ''/'' es") (auto simp: isAbs_def)
    with s es show False
      by (simp add: ordinaryName_def plainSegment_def)
  qed
  ultimately show ?thesis
    by blast
qed

text \<open>On canonical paths \<open>pathIsUnder\<close> is the prefix relation on their names.\<close>

lemma pathIsUnder_rooted:
  assumes "list_all ordinaryName cs" and "list_all ordinaryName rs"
  shows "pathIsUnder (rooted cs) (rooted rs) \<longleftrightarrow> prefix rs cs"
proof (cases "cs = rs")
  case False
  obtain bs ts where d: "dropCommon rs cs = (bs, ts)"
    by (cases "dropCommon rs cs")
  have rel: "filepathRel (rooted rs) (rooted cs) =
      (if bs \<noteq> [] \<and> hd bs = ''..'' then None else Some (join ''/'' (replicate (length bs) ''..'' @ ts)))"
    using assms False d rooted_inject [OF assms]
    by (auto simp: filepathRel_def Let_def cleanPath_rooted_id pathElems_rooted)
  show ?thesis
  proof (cases bs)
    case Nil
    then have p: "prefix rs cs"
      using d dropCommon_prefix [of rs cs] by simp
    then have "ts \<noteq> []"
      using False d dropCommon_same [of rs cs] by auto
    moreover have "list_all ordinaryName ts"
      using assms(1) set_dropCommon [of rs cs] d by (auto simp: list_all_iff)
    ultimately show ?thesis
      using ordinary_join [of ts] p Nil rel rooted_inject [OF assms] False by (simp add: pathIsUnder_def)
  next
    case (Cons b bs')
    then have "\<not> prefix rs cs"
      using d dropCommon_prefix [of rs cs] by simp
    moreover have "ordinaryName b"
      using assms(2) set_dropCommon [of rs cs] d Cons by (auto simp: list_all_iff)
    moreover have "join ''/'' (replicate (length bs) ''..'' @ ts) = join ''/'' (''..'' # replicate (length bs') ''..'' @ ts)"
      by (simp add: Cons)
    ultimately show ?thesis
      using rel Cons rooted_inject [OF assms] False dotdot_join [of "replicate (length bs') ''..'' @ ts"]
      by (auto simp: pathIsUnder_def ordinaryName_def plainSegment_def)
  qed
qed (simp add: pathIsUnder_def)

section \<open>What the resolver returns\<close>

text \<open>
  Documented behaviour of the file system calls: the working directory is absolute, and resolving
  the links of an absolute path gives an absolute path.
\<close>

definition resolvesAbsolute :: "fileSystem \<Rightarrow> bool" where
  "resolvesAbsolute fs \<longleftrightarrow>
     (\<forall>wd. fs_Getwd fs = Inr wd \<longrightarrow> isAbs wd) \<and> (\<forall>p r. isAbs p \<longrightarrow> fs_EvalSymlinks fs p = Inr r \<longrightarrow> isAbs r)"

lemma isAbs_cleanPath: "isAbs p \<Longrightarrow> isAbs (cleanPath p)"
  by (erule cleanPath_rooted) simp

lemma isAbs_append: "isAbs p \<Longrightarrow> isAbs (p @ q)"
  by (cases p) (auto simp: isAbs_def)

lemma isAbs_joinPath: "isAbs p \<Longrightarrow> isAbs (joinPath p q)"
  using isAbs_cleanPath [OF isAbs_append] by (auto simp: joinPath_def isAbs_def)

lemma isAbs_dirPath: "isAbs p \<Longrightarrow> isAbs (dirPath p)"
proof -
  assume p: "isAbs p"
  have "isAbs (uptoSlash p)"
  proof (cases p rule: uptoSlash_cases)
    case 1
    then have "CHR ''/'' \<notin> set p"
      by (auto simp: uptoSlash_def dropWhile_eq_Nil_conv)
    with p show ?thesis
      by (cases p) (auto simp: isAbs_def)
  next
    case (2 q)
    with p show ?thesis
      by (cases q) (auto simp: isAbs_def prefix_def)
  qed
  then show ?thesis
    by (simp add: dirPath_def isAbs_cleanPath)
qed

lemma deepestAncestor_abs:
  "deepestAncestor fs p rest = Inr (Some (q, rest')) \<Longrightarrow> isAbs p \<Longrightarrow> isAbs q"
proof (induction fs p rest rule: deepestAncestor.induct)
  case (1 fs p rest)
  from 1(2) show ?case
    unfolding deepestAncestor.simps [of fs p rest]
    using 1(1) [OF _ refl] 1(3) isAbs_dirPath by (auto simp: Let_def split: lstatAnswer.splits if_splits)
qed

lemma canonical_rooted:
  assumes "resolvesAbsolute fs" and "canonicalisePathDetached quote fs p = Inr c"
  obtains es where "c = rooted es" and "list_all ordinaryName es"
proof -
  obtain full where full: "absPath fs p = Inr full"
    using assms(2) by (auto simp: canonicalisePathDetached_def split: if_splits sum.splits)
  then have "isAbs full"
    using assms(1) isAbs_cleanPath isAbs_joinPath by (auto simp: absPath_def resolvesAbsolute_def split: if_splits sum.splits)
  have "\<exists>q. isAbs q \<and> c = cleanPath q"
  proof (cases "deepestAncestor fs full []")
    case (Inr found)
    show ?thesis
    proof (cases found)
      case None
      with Inr full assms(2) \<open>isAbs full\<close> show ?thesis
        by (auto simp: canonicalisePathDetached_def split: if_splits)
    next
      case (Some walk)
      obtain q rest where walk: "walk = (q, rest)"
        by (cases walk)
      then have "isAbs q"
        using Inr Some deepestAncestor_abs \<open>isAbs full\<close> by blast
      then have "isAbs r" if "fs_EvalSymlinks fs q = Inr r" for r
        using that assms(1) by (auto simp: resolvesAbsolute_def)
      then show ?thesis
        using Inr Some walk full assms(2) isAbs_joinPath
        by (auto simp: canonicalisePathDetached_def split: if_splits sum.splits)
    qed
  qed (use full assms(2) in \<open>auto simp: canonicalisePathDetached_def split: if_splits\<close>)
  then show ?thesis
    using cleanPath_rooted that by metis
qed

text \<open>One step of the walk upwards on a canonical path.\<close>

lemma join_snoc: "es \<noteq> [] \<Longrightarrow> join sep (es @ [e]) = join sep es @ sep @ e"
proof (induction es)
  case (Cons x es)
  then show ?case
    by (cases "es = []") (simp_all add: join_Cons)
qed simp

lemma rooted_snoc: "rooted (es @ [e]) = (if es = [] then ''/'' @ e else rooted es @ ''/'' @ e)"
  by (simp add: rooted_def join_snoc)

lemma uptoSlash_snoc: "CHR ''/'' \<notin> set e \<Longrightarrow> uptoSlash (p @ CHR ''/'' # e) = p @ ''/''"
proof -
  assume "CHR ''/'' \<notin> set e"
  then have "dropWhile (\<lambda>c. c \<noteq> CHR ''/'') (rev e @ CHR ''/'' # rev p) = CHR ''/'' # rev p"
    by (subst dropWhile_append2) auto
  then show ?thesis
    by (simp add: uptoSlash_def)
qed

lemma cleanPath_trailing:
  assumes "list_all ordinaryName es"
  shows "cleanPath (rooted es @ ''/'') = rooted es"
proof -
  have "splitOn (CHR ''/'') (rooted es @ ''/'') = splitOn (CHR ''/'') (rooted es) @ [[]]"
    using splitOn_append [of "CHR ''/''" "rooted es" "[]"] by simp
  moreover have "cleanElems True acc (fs @ [[]]) = cleanElems True acc fs" for acc fs
    by (induction True acc fs rule: cleanElems.induct) (auto split: list.splits)
  ultimately show ?thesis
    using cleanPath_rooted_id [OF assms] by (simp add: cleanPath_def Let_def isAbs_append)
qed

lemma walk_step:
  assumes "list_all ordinaryName es" and "ordinaryName e"
  shows "dirPath (rooted (es @ [e])) = rooted es" and "basePath (rooted (es @ [e])) = e"
    and "rooted es \<noteq> rooted (es @ [e])"
proof -
  have e: "CHR ''/'' \<notin> set e" "e \<noteq> []"
    using assms(2) by (auto simp: ordinaryName_def plainSegment_def)
  have r: "rooted (es @ [e]) = (if es = [] then [] else rooted es) @ CHR ''/'' # e"
    by (simp add: rooted_snoc)
  show "dirPath (rooted (es @ [e])) = rooted es"
    unfolding dirPath_def r uptoSlash_snoc [OF e(1)]
    using cleanPath_trailing [OF assms(1)] cleanPath_rooted_id [of "[]"] by (auto simp: rooted_def)
  obtain x e' where x: "rev e = x # e'"
    using e(2) by (cases "rev e") auto
  then have "x \<noteq> CHR ''/''"
    using e(1) by (metis list.set_intros(1) set_rev)
  moreover have "rev (rooted (es @ [e])) = x # e' @ CHR ''/'' # rev (if es = [] then [] else rooted es)"
    unfolding r by (simp add: x)
  ultimately have "rev (dropWhile (\<lambda>c. c = CHR ''/'') (rev (rooted (es @ [e])))) = rev (rev (rooted (es @ [e])))"
    by simp
  moreover have "takeWhile (\<lambda>c. c \<noteq> CHR ''/'') (rev (rooted (es @ [e]))) = rev e"
    using e(1) by (simp add: r) (subst takeWhile_append2; auto)+
  ultimately show "basePath (rooted (es @ [e])) = e"
    by (simp add: basePath_def)
  show "rooted es \<noteq> rooted (es @ [e])"
    using assms rooted_inject [of es "es @ [e]"] by simp
qed

lemma joinPath_names:
  assumes "list_all ordinaryName (e # es)"
  shows "joinPath e (join ''/'' es) = join ''/'' (e # es)"
proof -
  have "e \<noteq> []" "CHR ''/'' \<notin> set e"
    using assms by (auto simp: ordinaryName_def plainSegment_def)
  have clean: "cleanPath (join ''/'' fs) = join ''/'' fs" if "list_all ordinaryName fs" "fs \<noteq> []" for fs
  proof -
    have "splitOn (CHR ''/'') (join ''/'' fs) = fs"
      using that by (intro splitOn_join) (auto simp: list_all_iff ordinaryName_def)
    moreover have "join ''/'' fs \<noteq> []"
      using that by (cases fs; cases "tl fs") (auto simp: ordinaryName_def plainSegment_def)
    ultimately show ?thesis
      using cleanElems_plain [of fs False "[]"] ordinary_join [OF that] that
      by (auto simp: cleanPath_def Let_def list_all_iff ordinaryName_def)
  qed
  have trailing: "cleanPath (e @ ''/'') = e"
  proof -
    have "splitOn (CHR ''/'') (e @ ''/'') = [e, []]"
      using \<open>CHR ''/'' \<notin> set e\<close> splitOn_append_sep [of "CHR ''/''" e "[]"] by simp
    then show ?thesis
      using assms \<open>e \<noteq> []\<close> \<open>CHR ''/'' \<notin> set e\<close>
      by (cases e) (auto simp: cleanPath_def Let_def isAbs_def ordinaryName_def plainSegment_def)
  qed
  show ?thesis
    using clean [of "e # es"] assms trailing \<open>e \<noteq> []\<close> by (cases es) (simp_all add: joinPath_def)
qed

lemma deepestAncestor_walk:
  assumes "list_all ordinaryName (es @ fs)"
    and "\<And>gs. prefix gs fs \<Longrightarrow> gs \<noteq> [] \<Longrightarrow> fs_Lstat sys (rooted (es @ gs)) = LstatNotExist"
    and "fs_Lstat sys (rooted es) = LstatPresent"
    and "list_all ordinaryName hs"
  shows "deepestAncestor sys (rooted (es @ fs)) (join ''/'' hs) = Inr (Some (rooted es, join ''/'' (fs @ hs)))"
  using assms
proof (induction fs arbitrary: hs rule: rev_induct)
  case Nil
  then show ?case
    by (simp add: deepestAncestor.simps [of sys "rooted es"])
next
  case (snoc f fs)
  have ord: "list_all ordinaryName (es @ fs)" "ordinaryName f"
    using snoc.prems(1) by auto
  have "deepestAncestor sys (rooted (es @ fs)) (join ''/'' (f # hs)) = Inr (Some (rooted es, join ''/'' (fs @ f # hs)))"
    using snoc.prems by (intro snoc.IH) auto
  moreover have "fs_Lstat sys (rooted (es @ fs @ [f])) = LstatNotExist"
    using snoc.prems(2) [of "fs @ [f]"] by simp
  moreover have "joinPath f (join ''/'' hs) = join ''/'' (f # hs)"
    using joinPath_names [of f hs] ord(2) snoc.prems(4) by simp
  ultimately show ?case
    using walk_step [OF ord] by (simp add: deepestAncestor.simps [of sys "rooted (es @ fs @ [f])"] Let_def)
qed

lemma names_rooted:
  assumes "isAbs p"
  obtains es where "absPath fs p = Inr (rooted es)" and "list_all ordinaryName es"
  using cleanPath_rooted [OF assms] assms by (auto simp: absPath_def)

text \<open>
  A path whose deepest existing ancestor is \<open>es\<close> is resolved to the place the links of \<open>es\<close> lead
  to, followed by the names that do not exist.
\<close>

lemma canonical_resolves:
  assumes "cleanPath p = rooted (es @ fs)" and "isAbs p" and "nulChar \<notin> set p" and "list_all ordinaryName (es @ fs)"
    and "\<And>gs. prefix gs fs \<Longrightarrow> gs \<noteq> [] \<Longrightarrow> fs_Lstat sys (rooted (es @ gs)) = LstatNotExist"
    and "fs_Lstat sys (rooted es) = LstatPresent"
    and "fs_EvalSymlinks sys (rooted es) = Inr (rooted rs)" and "list_all ordinaryName rs"
  shows "canonicalisePathDetached quote sys p = Inr (rooted (rs @ fs))"
proof -
  have "p \<noteq> []"
    using assms(2) by (auto simp: isAbs_def)
  have "deepestAncestor sys (rooted (es @ fs)) [] = Inr (Some (rooted es, join ''/'' fs))"
    using deepestAncestor_walk [OF assms(4-6), of "[]"] by simp
  moreover have "join ''/'' fs = [] \<longleftrightarrow> fs = []"
    using assms(4) by (cases fs; cases "tl fs") (auto simp: ordinaryName_def plainSegment_def)
  moreover have "cleanPath (joinPath (rooted rs) (join ''/'' fs)) = rooted (rs @ fs)" if "fs \<noteq> []"
  proof -
    have plain: "list_all ordinaryName (rs @ fs)"
      using assms(4,8) by simp
    have "splitOn (CHR ''/'') (rooted rs @ ''/'' @ join ''/'' fs) = splitOn (CHR ''/'') (rooted rs) @ fs"
      using splitOn_append [of "CHR ''/''" "rooted rs" "join ''/'' fs"] splitOn_join [of fs "CHR ''/''"] that assms(4)
      by (simp add: list_all_iff ordinaryName_def)
    moreover have "cleanElems True [] (splitOn (CHR ''/'') (rooted rs) @ fs) = rs @ fs"
      using cleanElems_plain [of "rs @ fs" True "[]"] plain
      by (auto simp: splitOn_rooted [OF assms(8)] list_all_iff ordinaryName_def)
    ultimately have "joinPath (rooted rs) (join ''/'' fs) = rooted (rs @ fs)"
      by (simp add: joinPath_def cleanPath_def Let_def isAbs_append) (simp add: rooted_def)
    then show ?thesis
      using cleanPath_rooted_id [OF plain] by simp
  qed
  ultimately show ?thesis
    using assms \<open>p \<noteq> []\<close> cleanPath_rooted_id [of rs]
    by (auto simp: canonicalisePathDetached_def absPath_def)
qed

section \<open>Properties\<close>

definition outputsOf :: "V2Request \<Rightarrow> string list" where
  "outputsOf req =
     filter (\<lambda>t. t \<noteq> []) [vq_EvidenceDirectory req, vq_ManifestOutput req, vq_OptionalWorkingPlanAssertion req]"

lemma ensureDetached_worktree:
  assumes "resolvesAbsolute fs" and "list_all ordinaryName repo"
  shows "ensureDetachedFromAny quote fs property target (noRoots\<lparr>fr_targetRepoWorktree := rooted repo\<rparr>) = None \<longleftrightarrow>
    (\<exists>es. canonicalisePathDetached quote fs target = Inr (rooted es) \<and> list_all ordinaryName es \<and> \<not> prefix repo es)"
proof (cases "canonicalisePathDetached quote fs target")
  case (Inr c)
  then obtain es where es: "c = rooted es" "list_all ordinaryName es"
    using canonical_rooted [OF assms(1)] by blast
  with Inr assms(2) show ?thesis
    using pathIsUnder_rooted [OF es(2) assms(2)] rooted_inject [OF es(2)]
    by (auto simp: ensureDetachedFromAny_def noRoots_def pathIsUnder_def)
qed (simp add: ensureDetachedFromAny_def)

lemma filter_ball: "(\<forall>x\<in>set (filter P xs). Q x) \<longleftrightarrow> list_all (\<lambda>x. P x \<longrightarrow> Q x) xs"
  by (auto simp: list_all_iff)

lemma firstFailure_None: "firstFailure f xs = None \<longleftrightarrow> list_all (\<lambda>x. f x = None) xs"
  by (induction xs) (auto split: option.split)

lemma detachedIfSet_None:
  assumes "resolvesAbsolute fs" and "list_all ordinaryName repo"
  shows "detachedIfSet quote fs (noRoots\<lparr>fr_targetRepoWorktree := rooted repo\<rparr>) (property, target) = None \<longleftrightarrow>
    (target \<noteq> [] \<longrightarrow>
      (\<exists>es. canonicalisePathDetached quote fs target = Inr (rooted es) \<and> list_all ordinaryName es \<and> \<not> prefix repo es))"
  using ensureDetached_worktree [OF assms] by (simp add: detachedIfSet_def)

text \<open>
  C14. The outputs of a run are accepted exactly if the repository root and every output that is
  set can be resolved, and no output resolves to the repository root or to a place below it.
  Resolving follows the links of the deepest ancestor that exists, so an output below a link that
  leads into the repository is refused although it does not exist yet.
\<close>

theorem detached_outputs_exact:
  assumes "resolvesAbsolute fs" and "isAbs (vq_RepositoryRoot req)"
  shows "EnforceDetachedV2Outputs quote fs req = None \<longleftrightarrow>
    (\<exists>repo. canonicalisePathDetached quote fs (vq_RepositoryRoot req) = Inr (rooted repo) \<and> list_all ordinaryName repo \<and>
      (\<forall>target\<in>set (outputsOf req). \<exists>es. canonicalisePathDetached quote fs target = Inr (rooted es) \<and>
         list_all ordinaryName es \<and> \<not> prefix repo es))"
proof (cases "canonicalisePathDetached quote fs (vq_RepositoryRoot req)")
  case (Inl err)
  with assms(2) show ?thesis
    by (auto simp: EnforceDetachedV2Outputs_def isAbs_def)
next
  case (Inr c)
  then obtain repo where repo: "c = rooted repo" "list_all ordinaryName repo"
    using canonical_rooted [OF assms(1)] by blast
  have "EnforceDetachedV2Outputs quote fs req = None \<longleftrightarrow>
    (\<forall>target\<in>set (outputsOf req). \<exists>es. canonicalisePathDetached quote fs target = Inr (rooted es) \<and>
       list_all ordinaryName es \<and> \<not> prefix repo es)"
  proof -
    have e: "EnforceDetachedV2Outputs quote fs req =
        firstFailure (detachedIfSet quote fs (noRoots\<lparr>fr_targetRepoWorktree := rooted repo\<rparr>))
          [(''evidence_directory'', vq_EvidenceDirectory req), (''manifest_output'', vq_ManifestOutput req),
           (''working_plan_assertion'', vq_OptionalWorkingPlanAssertion req)]"
      using assms(2) Inr repo by (auto simp: EnforceDetachedV2Outputs_def isAbs_def)
    show ?thesis
      unfolding e firstFailure_None outputsOf_def filter_ball
      by (simp only: list.pred_inject detachedIfSet_None [OF assms(1) repo(2)])
  qed
  moreover have "repo' = repo" if "c = rooted repo'" "list_all ordinaryName repo'" for repo'
    using that repo rooted_inject by blast
  ultimately show ?thesis
    unfolding Inr sum.inject repo(1) using repo by blast
qed

text \<open>
  A repository in \<open>/w\<close>, a link \<open>/out\<close> that leads into it and a directory \<open>/tmp\<close>; everything else
  does not exist.
\<close>

definition linkedFiles :: fileSystem where
  "linkedFiles =
     \<lparr>fs_Getwd = Inr ''/w'',
      fs_Lstat = (\<lambda>p. if p \<in> {''/'', ''/w'', ''/out'', ''/tmp''} then LstatPresent else LstatNotExist),
      fs_Stat = (\<lambda>p. Inl ''no such file''),
      fs_EvalSymlinks = (\<lambda>p. if p = ''/out'' then Inr ''/w'' else if isAbs p then Inr p else Inl ''no such file''),
      fs_ReadFile = (\<lambda>p. Inl ''no such file''), fs_MkdirAll = (\<lambda>p. None)\<rparr>"

definition linkedRequest :: "string \<Rightarrow> V2Request" where
  "linkedRequest manifest =
     \<lparr>vq_ClosureProtocolVersion = ''2'', vq_PlanContractVersion = 1, vq_RepositoryRoot = ''/w'', vq_SubjectCommit = ''s'',
      vq_FreezeCommit = ''f'', vq_PlanPath = ''p'', vq_OptionalWorkingPlanAssertion = '''', vq_EvidenceDirectory = ''/tmp/e'',
      vq_ManifestOutput = manifest\<rparr>"

lemma linkedFiles_absolute: "resolvesAbsolute linkedFiles"
  by (auto simp: resolvesAbsolute_def linkedFiles_def isAbs_def split: if_splits)

lemma detached_outputs_exact_witness:
  "EnforceDetachedV2Outputs id linkedFiles (linkedRequest ''/tmp/m'') = None \<and>
   EnforceDetachedV2Outputs id linkedFiles (linkedRequest ''/out/m'') \<noteq> None"
proof -
  have c: "canonicalisePathDetached id linkedFiles ''/w'' = Inr (rooted [''w''])"
    "canonicalisePathDetached id linkedFiles ''/tmp/e'' = Inr (rooted [''tmp'', ''e''])"
    "canonicalisePathDetached id linkedFiles ''/tmp/m'' = Inr (rooted [''tmp'', ''m''])"
    "canonicalisePathDetached id linkedFiles ''/out/m'' = Inr (rooted [''w'', ''m''])"
    by code_simp+
  have o: "list_all ordinaryName [''w'']" "list_all ordinaryName [''tmp'', ''e'']" "list_all ordinaryName [''tmp'', ''m'']"
    "list_all ordinaryName [''w'', ''m'']" "isAbs ''/w''"
    by code_simp+
  note exact = detached_outputs_exact [OF linkedFiles_absolute, of "linkedRequest m" id for m]
  have req: "vq_RepositoryRoot (linkedRequest m) = ''/w''" "outputsOf (linkedRequest m) = ''/tmp/e'' # (if m = [] then [] else [m])" for m
    by (simp_all add: linkedRequest_def outputsOf_def)
  have "EnforceDetachedV2Outputs id linkedFiles (linkedRequest ''/tmp/m'') = None"
  proof (rule exact [THEN iffD2], unfold req, rule o(5), rule exI [of _ "[''w'']"], intro conjI ballI)
    fix target assume "target \<in> set (''/tmp/e'' # (if ''/tmp/m'' = [] then [] else [''/tmp/m'']))"
    then consider "target = ''/tmp/e''" | "target = ''/tmp/m''"
      by auto
    then show "\<exists>es. canonicalisePathDetached id linkedFiles target = Inr (rooted es) \<and> list_all ordinaryName es \<and> \<not> prefix [''w''] es"
    proof cases
      case 1
      then show ?thesis
        using c(2) o(2) by (intro exI [of _ "[''tmp'', ''e'']"]) simp
    next
      case 2
      then show ?thesis
        using c(3) o(3) by (intro exI [of _ "[''tmp'', ''m'']"]) simp
    qed
  qed (use c(1) o(1) in simp_all)
  moreover have "EnforceDetachedV2Outputs id linkedFiles (linkedRequest ''/out/m'') \<noteq> None"
  proof
    assume "EnforceDetachedV2Outputs id linkedFiles (linkedRequest ''/out/m'') = None"
    then obtain repo es where "rooted [''w''] = rooted repo" "list_all ordinaryName repo"
      "rooted [''w'', ''m''] = rooted es" "list_all ordinaryName es" "\<not> prefix repo es"
      using exact [of "''/out/m''"] c o(5) by (auto simp: req)
    then show False
      using rooted_inject o(1,4) by (metis Cons_prefix_Cons Nil_prefix)
  qed
  ultimately show ?thesis ..
qed

section \<open>Differences from the comments\<close>

text \<open>
  The comment of \<open>EnforceDetachedV2Outputs\<close> says each output is detached from every forbidden
  root.  Only the worktree is looked at: an output in a git directory that lies elsewhere, as
  that of a linked worktree does, is accepted.  \<open>resolveForbiddenRoots\<close> would not find that
  directory either, because it joins the absolute path git prints with the repository root.
\<close>

definition externalGitDir :: gitClient where
  "externalGitDir directory args = \<lparr>gc_Stdout = ''/tmp'', gc_Stderr = [], gc_ExitCode = 0, gc_Err = None\<rparr>"

lemma external_git_dir_accepted:
  "runGitValue externalGitDir ''/w'' [''rev-parse'', ''--git-dir''] = Inr ''/tmp'' \<and>
   EnforceDetachedV2Outputs id linkedFiles (linkedRequest ''/tmp/m'') = None \<and>
   resolveForbiddenRoots id linkedFiles (Some externalGitDir) ''/w'' [] =
     Inr \<lparr>fr_targetRepoWorktree = ''/w'', fr_gitDir = ''/w/tmp'', fr_gitCommonDir = ''/tmp'', fr_subjectWorktree = []\<rparr>"
proof (intro conjI)
  have c: "canonicalisePathDetached id linkedFiles ''/w'' = Inr ''/w''" "canonicalisePathDetached id linkedFiles ''/tmp'' = Inr ''/tmp''"
    "canonicalisePathDetached id linkedFiles ''/w/tmp'' = Inr ''/w/tmp''"
    by code_simp+
  have t: "trimSpace ''/tmp'' = ''/tmp''"
    by (rule trimSpace_id) (simp_all add: graphic_def)
  have a: "absPath linkedFiles (joinPath ''/w'' ''/tmp'') = Inr ''/w/tmp''" "absPath linkedFiles ''/tmp'' = Inr ''/tmp''"
    by code_simp+
  have git: "runGitValue externalGitDir ''/w'' args = Inr ''/tmp''" for args
    by (simp add: runGitValue_def externalGitDir_def commandFailed_def t)
  then show "runGitValue externalGitDir ''/w'' [''rev-parse'', ''--git-dir''] = Inr ''/tmp''" .
  show "resolveForbiddenRoots id linkedFiles (Some externalGitDir) ''/w'' [] =
     Inr \<lparr>fr_targetRepoWorktree = ''/w'', fr_gitDir = ''/w/tmp'', fr_gitCommonDir = ''/tmp'', fr_subjectWorktree = []\<rparr>"
    by (simp add: resolveForbiddenRoots_def c a git canonicalOrEmpty_def noRoots_def Let_def)
  have e: "canonicalisePathDetached id linkedFiles ''/tmp/e'' = Inr ''/tmp/e''"
    "canonicalisePathDetached id linkedFiles ''/tmp/m'' = Inr ''/tmp/m''"
    "\<not> pathIsUnder ''/tmp/e'' ''/w''" "\<not> pathIsUnder ''/tmp/m'' ''/w''" "isAbs ''/w''"
    by code_simp+
  then show "EnforceDetachedV2Outputs id linkedFiles (linkedRequest ''/tmp/m'') = None"
    by (simp add: EnforceDetachedV2Outputs_def linkedRequest_def c(1) detachedIfSet_def ensureDetachedFromAny_def noRoots_def
        pathIsUnder_def [of _ "[]"])
qed

end
