(* ===== verification/Closure_Loader.thy ===== *)
theory Closure_Loader
  imports Closure_Paths
begin

text \<open>
  The frozen plan of the version 2 runner (\<open>closure_protocol_v2_loader.go\<close>): its bytes are read
  from the object database at the freeze commit, and an optional assertion on a working copy is
  compared with them (\<open>enforceWorkingPlanAssertion\<close> of \<open>v2_path_authority.go\<close>).
\<close>

section \<open>Inputs\<close>

record V2FrozenPlanBytes =
  fp_Path :: string
  fp_Bytes :: string
  fp_BlobOID :: string
  fp_SHA256 :: string
  fp_ByteCount :: nat
  fp_FreezeCommit :: string

definition containsControl :: "string \<Rightarrow> bool" where
  "containsControl s = list_ex controlByte s"

definition invalidPlanPath :: "(string \<Rightarrow> string) \<Rightarrow> string \<Rightarrow> string \<Rightarrow> V2Error" where
  "invalidPlanPath quote path why =
     NewV2ErrorWith V2CodeInvalidPlanPath (''plan path '' @ quote path @ why) ''plan_path'' path"

definition containsUp :: "string \<Rightarrow> bool" where
  "containsUp p = sublist ''/../'' p"

definition validateLoaderInputs :: "(string \<Rightarrow> string) \<Rightarrow> string \<Rightarrow> string \<Rightarrow> string \<Rightarrow> V2Error option" where
  "validateLoaderInputs quote repoRoot freezeCommit path =
     (let cleaned = cleanPath path in
      if trimSpace repoRoot = '''' then
        Some (NewV2ErrorWith V2CodeInvalidPlanPath ''repository root is empty'' ''repository_root'' '''')
      else if trimSpace freezeCommit = '''' then
        Some (NewV2ErrorWith V2CodeFreezeCommitNotFound ''freeze commit is empty'' ''freeze_commit'' '''')
      else if trimSpace path = '''' then Some (NewV2ErrorWith V2CodeInvalidPlanPath ''plan path is empty'' ''plan_path'' '''')
      else if isAbs path then Some (invalidPlanPath quote path '' must be repository-relative'')
      else if prefix ''../'' cleaned \<or> cleaned = ''..'' \<or> containsUp cleaned then
        Some (invalidPlanPath quote path '' escapes the repository'')
      else if CHR 0x5C \<in> set path then Some (invalidPlanPath quote path '' contains backslash'')
      else if containsControl path then Some (invalidPlanPath quote path '' contains control character'')
      else if prefix ''-'' path then Some (invalidPlanPath quote path ('' must not start with '' @ [CHR 0x27, CHR ''-'', CHR 0x27]))
      else None)"

section \<open>Loading\<close>

definition trimDotSlash :: "string \<Rightarrow> string" where
  "trimDotSlash p = (if prefix ''./'' p then drop 2 p else p)"

definition revParse :: "gitClient \<Rightarrow> string \<Rightarrow> string \<Rightarrow> string + string" where
  "revParse git repoRoot spec = runGitValue git repoRoot [''rev-parse'', ''--verify'', ''--end-of-options'', spec]"

definition LoadFrozenPlan ::
  "(string \<Rightarrow> string) \<Rightarrow> gitClient \<Rightarrow> string \<Rightarrow> string \<Rightarrow> string \<Rightarrow> V2Error + V2FrozenPlanBytes" where
  "LoadFrozenPlan quote git repoRoot freezeCommit path =
     (case validateLoaderInputs quote repoRoot freezeCommit path of
        Some err \<Rightarrow> Inl err
      | None \<Rightarrow>
        let canonical = trimDotSlash (cleanPath path) in
        if canonical = '''' \<or> canonical = ''.'' then
          Inl (NewV2ErrorWith V2CodeInvalidPlanPath ''plan path is empty after normalisation'' ''plan_path'' path)
        else case revParse git repoRoot (freezeCommit @ ''^{commit}'') of
          Inl err \<Rightarrow> Inl (NewV2ErrorWith V2CodeFreezeCommitNotFound
            (''freeze commit '' @ quote freezeCommit @ '' did not resolve: '' @ err) ''freeze_commit'' err)
        | Inr commit \<Rightarrow>
          (case revParse git repoRoot (commit @ '':'' @ canonical) of
             Inl err \<Rightarrow> Inl (NewV2ErrorWith V2CodeFrozenPlanPathMissing
               (''plan path '' @ quote canonical @ '' missing at freeze '' @ commit @ '': '' @ err) ''plan_path'' err)
           | Inr oid \<Rightarrow>
             (case runGitValue git repoRoot [''cat-file'', ''-t'', oid] of
                Inl err \<Rightarrow> Inl (NewV2ErrorWith V2CodeGitOperationFailed
                  (''git cat-file -t '' @ oid @ '' failed: '' @ err) ''plan_path'' err)
              | Inr objectType \<Rightarrow>
                if trimSpace objectType \<noteq> ''blob'' then
                  Inl (NewV2ErrorWith V2CodeFrozenPlanNotBlob
                    (''plan path '' @ quote canonical @ '' resolved to object type '' @ quote objectType @ '', expected blob'')
                    ''plan_path'' objectType)
                else
                let catResult = git repoRoot [''cat-file'', ''blob'', oid] in
                if commandFailed catResult then
                  Inl (NewV2ErrorWith V2CodeGitOperationFailed
                    (''git cat-file blob '' @ oid @ '' failed: '' @ failureDetail catResult) ''plan_path'' (failureDetail catResult))
                else Inr \<lparr>fp_Path = canonical, fp_Bytes = gc_Stdout catResult, fp_BlobOID = oid,
                       fp_SHA256 = sha256_hex (gc_Stdout catResult), fp_ByteCount = length (gc_Stdout catResult),
                       fp_FreezeCommit = commit\<rparr>)))"

section \<open>The working copy\<close>

definition CompareToWorkingPlan :: "V2FrozenPlanBytes \<Rightarrow> string \<Rightarrow> V2Error option" where
  "CompareToWorkingPlan frozen working =
     (if length working = 0 then None
      else if length working \<noteq> fp_ByteCount frozen then
        Some (NewV2ErrorWith V2CodeWorkingPlanMismatch
          (''working plan byte count '' @ itoa (int (length working)) @ '' does not match frozen plan byte count '' @
           itoa (int (fp_ByteCount frozen))) ''plan_path'' '''')
      else if sha256_hex working \<noteq> fp_SHA256 frozen then
        Some (NewV2ErrorWith V2CodeWorkingPlanMismatch
          (''working plan SHA256 '' @ sha256_hex working @ '' does not match frozen plan SHA256 '' @ fp_SHA256 frozen)
          ''plan_path'' '''')
      else None)"

text \<open>\<open>Inr None\<close> is the comparison that is disabled.\<close>

definition ReadOptionalWorkingPlan ::
  "(string \<Rightarrow> string) \<Rightarrow> fileSystem \<Rightarrow> string \<Rightarrow> string + string option" where
  "ReadOptionalWorkingPlan quote fs path =
     (if trimSpace path = '''' then Inr None
      else if \<not> isAbs path then Inl (''working plan path must be absolute: '' @ quote path)
      else case fs_ReadFile fs (cleanPath path) of
        Inl err \<Rightarrow> Inl (''read working plan '' @ cleanPath path @ '': '' @ err)
      | Inr contents \<Rightarrow> Inr (Some contents))"

definition enforceWorkingPlanAssertion ::
  "(string \<Rightarrow> string) \<Rightarrow> fileSystem \<Rightarrow> string \<Rightarrow> V2FrozenPlanBytes \<Rightarrow> V2Error option" where
  "enforceWorkingPlanAssertion quote fs path frozen =
     (case canonicalisePathDetached quote fs path of
        Inl err \<Rightarrow> Some (NewV2ErrorWith V2CodeWorkingPlanPathInvalid (''working_plan_assertion canonicalise: '' @ err)
                     ''working_plan_assertion'' path)
      | Inr canon \<Rightarrow>
        (case fs_ReadFile fs canon of
           Inl err \<Rightarrow> Some (NewV2ErrorWith V2CodeWorkingPlanPathInvalid (''read working_plan_assertion: '' @ err)
                        ''working_plan_assertion'' canon)
         | Inr contents \<Rightarrow> CompareToWorkingPlan frozen contents))"

section \<open>Lemmas\<close>

lemma revParse_commit:
  "oidPattern v \<Longrightarrow> trimSpace x \<noteq> [] \<Longrightarrow>
   revParse git root (x @ ''^{commit}'') = Inr v \<longleftrightarrow> ResolveCommit (authorityAt git root) x = Inr v"
  by (auto simp: revParse_def runGitValue_def ResolveCommit_def authorityAt_def gitRun_def Let_def)

text \<open>What the loader returns, for whatever git answers.\<close>

lemma LoadFrozenPlan_iff:
  "LoadFrozenPlan quote git root f path = Inr fp \<longleftrightarrow>
     validateLoaderInputs quote root f path = None \<and> fp_Path fp = trimDotSlash (cleanPath path) \<and>
     fp_Path fp \<noteq> [] \<and> fp_Path fp \<noteq> ''.'' \<and>
     revParse git root (f @ ''^{commit}'') = Inr (fp_FreezeCommit fp) \<and>
     revParse git root (fp_FreezeCommit fp @ '':'' @ fp_Path fp) = Inr (fp_BlobOID fp) \<and>
     (\<exists>objectType. runGitValue git root [''cat-file'', ''-t'', fp_BlobOID fp] = Inr objectType \<and> trimSpace objectType = ''blob'') \<and>
     \<not> commandFailed (git root [''cat-file'', ''blob'', fp_BlobOID fp]) \<and>
     fp_Bytes fp = gc_Stdout (git root [''cat-file'', ''blob'', fp_BlobOID fp]) \<and>
     fp_SHA256 fp = sha256_hex (fp_Bytes fp) \<and> fp_ByteCount fp = length (fp_Bytes fp)"
  (is "?l \<longleftrightarrow> ?r")
proof
  assume ?l
  then show ?r
    by (auto simp: LoadFrozenPlan_def Let_def split: option.splits if_splits sum.splits)
next
  assume ?r
  then show ?l
    by (cases fp) (auto simp: LoadFrozenPlan_def Let_def)
qed

lemma dropPieces_done: "p \<in> set ps \<Longrightarrow> p \<noteq> [] \<Longrightarrow> \<not> prefix p (dropPieces ps s)"
proof (induction ps s rule: dropPieces.induct)
  case (1 ps s)
  show ?case
  proof (cases "find (\<lambda>p. p \<noteq> [] \<and> prefix p s) ps")
    case None
    then have "dropPieces ps s = s"
      by (simp add: dropPieces.simps [of ps s])
    with None 1(2,3) show ?thesis
      by (auto simp: find_None_iff)
  next
    case (Some q)
    then show ?thesis
      using 1 dropPieces.simps [of ps s] by simp
  qed
qed

lemma trimSpace_idem [simp]: "trimSpace (trimSpace s) = trimSpace s"
proof -
  define u where "u = dropPieces goSpaces s"
  define v where "v = dropPieces (map rev goSpaces) (rev u)"
  have "prefix (rev v) u"
    using dropPieces_suffix [of "map rev goSpaces" "rev u"] by (simp add: v_def suffix_to_prefix)
  then have "dropPieces goSpaces (rev v) = rev v"
    using dropPieces_done [of _ goSpaces s] prefix_order.trans by (intro dropPieces_id) (auto simp: u_def)
  moreover have "dropPieces (map rev goSpaces) v = v"
    using dropPieces_done [of _ "map rev goSpaces" "rev u"] by (intro dropPieces_id) (auto simp: v_def)
  ultimately show ?thesis
    by (simp add: trimSpace_def u_def [symmetric] v_def [symmetric])
qed

text \<open>A clean relative path that does not start with two dots has only ordinary names.\<close>

definition upsThenPlain :: "string list \<Rightarrow> bool" where
  "upsThenPlain es \<longleftrightarrow> (\<exists>n ps. es = replicate n ''..'' @ ps \<and> list_all plainSegment ps)"

lemma upsThenPlain_snoc:
  assumes "upsThenPlain (rev acc)"
  shows "plainSegment e \<Longrightarrow> upsThenPlain (rev (e # acc))"
    and "acc = a # acc' \<Longrightarrow> a \<noteq> ''..'' \<Longrightarrow> upsThenPlain (rev acc')"
    and "acc = [] \<or> hd acc = ''..'' \<Longrightarrow> upsThenPlain (rev (''..'' # acc))"
proof -
  obtain n ps where acc: "rev acc = replicate n ''..'' @ ps" "list_all plainSegment ps"
    using assms by (auto simp: upsThenPlain_def)
  show "plainSegment e \<Longrightarrow> upsThenPlain (rev (e # acc))"
    using acc unfolding upsThenPlain_def by (intro exI [of _ n] exI [of _ "ps @ [e]"]) simp
  have last: "ps = [] \<or> (\<exists>qs q. ps = qs @ [q] \<and> plainSegment q \<and> list_all plainSegment qs)"
    using acc(2) by (cases ps rule: rev_cases) auto
  show "upsThenPlain (rev acc')" if "acc = a # acc'" "a \<noteq> ''..''"
  proof -
    have "ps \<noteq> []"
      using that acc(1) by (cases n) (auto simp: replicate_append_same [symmetric])
    with last that acc(1) show ?thesis
      unfolding upsThenPlain_def by (auto simp: append_assoc [symmetric] simp del: append_assoc)
  qed
  show "upsThenPlain (rev (''..'' # acc))" if "acc = [] \<or> hd acc = ''..''"
  proof -
    have "ps = []"
      using last that acc(1) by (cases acc) (auto simp: plainSegment_def append_assoc [symmetric] simp del: append_assoc)
    with acc(1) show ?thesis
      unfolding upsThenPlain_def by (intro exI [of _ "Suc n"] exI [of _ "[]"]) (simp add: replicate_append_same)
  qed
qed

lemma cleanElems_relative: "upsThenPlain (rev acc) \<Longrightarrow> upsThenPlain (cleanElems False acc es)"
proof (induction False acc es rule: cleanElems.induct)
  case (2 acc e es)
  note acc = \<open>upsThenPlain (rev acc)\<close>
  show ?case
  proof (cases "e = [] \<or> e = ''.'' \<or> e = ''..''")
    case True
    with 2 show ?thesis
      using upsThenPlain_snoc(2,3) [OF acc] by (cases acc) auto
  next
    case False
    with 2 show ?thesis
      using upsThenPlain_snoc(1) [OF acc, of e] by (simp add: plainSegment_def)
  qed
qed simp

lemma relative_clean_plain:
  assumes "\<not> isAbs p" and "p \<noteq> []" and "cleanPath p \<noteq> ''..''" and "\<not> prefix ''../'' (cleanPath p)" and "cleanPath p \<noteq> ''.''"
  shows "list_all plainSegment (splitOn (CHR ''/'') (cleanPath p))" and "hd (cleanPath p) \<noteq> CHR ''/''"
    and "isLocal (cleanPath p)" and "cleanPath p \<noteq> []" and "\<not> prefix ''./'' (cleanPath p)"
proof -
  define es where "es = cleanElems False [] (splitOn (CHR ''/'') p)"
  have p: "cleanPath p = join ''/'' es" "es \<noteq> []"
    using assms by (auto simp: cleanPath_def es_def Let_def split: if_splits)
  have "upsThenPlain es"
    unfolding es_def by (rule cleanElems_relative) (auto simp: upsThenPlain_def)
  moreover have "es \<noteq> ''..'' # rest" for rest
    using assms(3,4) dotdot_join [of rest] by (auto simp: p(1))
  ultimately have plain: "list_all plainSegment es"
    unfolding upsThenPlain_def by (metis append_Nil append_Cons replicate_Suc not0_implies_Suc replicate_0)
  have noslash: "list_all (\<lambda>e. CHR ''/'' \<notin> set e) (cleanElems r acc fs)"
    if "list_all (\<lambda>e. CHR ''/'' \<notin> set e) acc" "list_all (\<lambda>e. CHR ''/'' \<notin> set e) fs" for r acc fs
    using that by (induction r acc fs rule: cleanElems.induct) (auto split: list.splits)
  have "list_all (\<lambda>e. CHR ''/'' \<notin> set e) (splitOn (CHR ''/'') p)"
    by (auto simp: list_all_iff dest: splitOn_no_slash)
  then have ord: "list_all (\<lambda>e. CHR ''/'' \<notin> set e) es"
    unfolding es_def by (intro noslash) simp_all
  then have s: "splitOn (CHR ''/'') (cleanPath p) = es"
    using splitOn_join [of es "CHR ''/''"] p by simp
  with plain show segs: "list_all plainSegment (splitOn (CHR ''/'') (cleanPath p))"
    by simp
  have names: "list_all ordinaryName es"
    using plain ord by (auto simp: list_all_iff ordinaryName_def)
  show ne: "cleanPath p \<noteq> []"
    using s p(2) segs by (auto simp: plainSegment_def)
  show h: "hd (cleanPath p) \<noteq> CHR ''/''"
    using ordinary_join [OF names p(2)] ne by (cases "cleanPath p") (auto simp: isAbs_def p(1))
  show "isLocal (cleanPath p)"
    by (rule plain_path_clean(3) [OF segs ne h])
  show "\<not> prefix ''./'' (cleanPath p)"
  proof
    assume "prefix ''./'' (cleanPath p)"
    then obtain q where "cleanPath p = ''.'' @ CHR ''/'' # q"
      by (auto simp: prefix_def)
    then have "splitOn (CHR ''/'') (cleanPath p) = ''.'' # splitOn (CHR ''/'') q"
      by (simp add: splitOn_append_sep del: append_Cons append.simps)
    with segs show False
      by (simp add: plainSegment_def)
  qed
qed

lemma loaderInputs_clean:
  assumes "validateLoaderInputs quote root f path = None" and "trimDotSlash (cleanPath path) \<noteq> ''.''"
    and "trimDotSlash (cleanPath path) \<noteq> []"
  shows "trimDotSlash (cleanPath path) = cleanPath path" and "isLocal (cleanPath path)"
    and "list_all plainSegment (splitOn (CHR ''/'') (cleanPath path))"
proof -
  have i: "\<not> isAbs path" "path \<noteq> []" "cleanPath path \<noteq> ''..''" "\<not> prefix ''../'' (cleanPath path)"
    using assms(1) by (auto simp: validateLoaderInputs_def Let_def split: if_splits)
  moreover have "cleanPath path \<noteq> ''.''"
    using assms(2) by (auto simp: trimDotSlash_def)
  ultimately show "trimDotSlash (cleanPath path) = cleanPath path" "isLocal (cleanPath path)"
    "list_all plainSegment (splitOn (CHR ''/'') (cleanPath path))"
    using relative_clean_plain [of path] by (simp_all add: trimDotSlash_def)
qed

lemma plain_inputs:
  assumes "validateV2VerifierRelativePath path = None" and "\<not> prefix ''-'' path" and "trimSpace path \<noteq> []"
    and "trimSpace root \<noteq> []" and "trimSpace f \<noteq> []"
  shows "validateLoaderInputs quote root f path = None" and "trimDotSlash (cleanPath path) = path"
    and "path \<noteq> []" and "path \<noteq> ''.''"
proof -
  have r: "path \<noteq> []" "portableBytes path" "list_all plainSegment (splitOn (CHR ''/'') path)"
    using assms(1) unfolding relativePath_iff by auto
  have h: "hd path \<noteq> CHR ''/''"
    using r by (cases path) (auto simp: plainSegment_def)
  have c: "cleanPath path = path" "\<not> isAbs path"
    using plain_path_clean(2) [OF r(3,1) h] h r(1) by (cases path; auto simp: isAbs_def)+
  have seg: "e \<notin> set (splitOn (CHR ''/'') path)" if "e = ''..'' \<or> e = ''.''" for e
    using r(3) that by (auto simp: list_all_iff plainSegment_def)
  have start: "\<not> prefix (e @ ''/'') path" "path \<noteq> e" if "e = ''..'' \<or> e = ''.''" for e
  proof -
    have "splitOn (CHR ''/'') (e @ CHR ''/'' # q) = e # splitOn (CHR ''/'') q" for q
      using that by (intro splitOn_append_sep) auto
    then show "\<not> prefix (e @ ''/'') path"
      using seg [OF that] by (auto simp: prefix_def)
    show "path \<noteq> e"
      using seg [OF that] that by auto
  qed
  have "\<not> containsUp path"
  proof
    assume "containsUp path"
    then obtain a b where "path = a @ CHR ''/'' # ''..'' @ CHR ''/'' # b"
      by (auto simp: containsUp_def sublist_def)
    then have "''..'' \<in> set (splitOn (CHR ''/'') path)"
      using splitOn_append [of "CHR ''/''" a "''..'' @ CHR ''/'' # b"] by simp
    with seg show False
      by blast
  qed
  then show "validateLoaderInputs quote root f path = None"
    using assms r c start [of "''..''"]
    by (auto simp: validateLoaderInputs_def containsControl_def portableBytes_def list_all_iff list_ex_iff)
  show "trimDotSlash (cleanPath path) = path" "path \<noteq> []" "path \<noteq> ''.''"
    using c r start [of "''.''"] by (auto simp: trimDotSlash_def)
qed

lemma loaderInputs_plain:
  "validateLoaderInputs quote root f path = None \<Longrightarrow> trimSpace root \<noteq> [] \<and> trimSpace path \<noteq> [] \<and> \<not> prefix ''-'' path"
  by (auto simp: validateLoaderInputs_def Let_def split: if_splits)

lemma authority_reads:
  "ResolveV2FrozenPlanAuthority (authorityAt git root) commit path = Inr pa \<and> ba_Diagnostics pa = [] \<longleftrightarrow>
   trimSpace commit \<noteq> [] \<and> trimSpace path \<noteq> [] \<and> ba_Path pa = path \<and> ba_Diagnostics pa = [] \<and>
   readsBlob (authorityAt git root) commit path (ba_BlobOID pa) (ba_RawBytes pa) \<and> ba_BlobSHA256 pa = sha256_hex (ba_RawBytes pa)"
  (is "?l \<longleftrightarrow> ?r")
proof
  assume ?l
  then show ?r
    by (auto simp: ResolveV2FrozenPlanAuthority_def readsBlob_def zeroAuthority_def authorityAt_def split: if_splits sum.splits)
next
  assume ?r
  then show ?l
    by (cases pa) (auto simp: ResolveV2FrozenPlanAuthority_def readsBlob_def zeroAuthority_def authorityAt_def)
qed

lemma readsBlob_commands:
  "trimSpace commit \<noteq> [] \<Longrightarrow> trimSpace path \<noteq> [] \<Longrightarrow>
   readsBlob (authorityAt git root) commit path oid raw \<longleftrightarrow>
     oidPattern oid \<and> raw \<noteq> [] \<and> revParse git root (commit @ '':'' @ path) = Inr oid \<and>
     runGitValue git root [''cat-file'', ''-t'', oid] = Inr ''blob'' \<and>
     \<not> commandFailed (git root [''cat-file'', ''blob'', oid]) \<and> raw = gc_Stdout (git root [''cat-file'', ''blob'', oid])"
  by (auto simp: readsBlob_def ResolvePathObject_def ReadBlob_def authorityAt_def gitRun_def revParse_def runGitValue_def
      Let_def oid_not_blank split: if_splits dest: oidPattern_nonempty)

section \<open>Properties\<close>

text \<open>
  C15. What the loader returns never comes from the working tree and never from outside the
  repository: the path is the cleaned path of the request and is local with ordinary names only,
  the bytes are what git prints for the blob it names at that path in the resolved commit, and
  the digest and the count are those of the bytes.
\<close>

theorem frozen_plan_from_commit:
  assumes "LoadFrozenPlan quote git root f path = Inr fp"
  shows "fp_Path fp = cleanPath path \<and> isLocal (fp_Path fp) \<and> list_all plainSegment (splitOn (CHR ''/'') (fp_Path fp)) \<and>
    runGitValue git root [''rev-parse'', ''--verify'', ''--end-of-options'', f @ ''^{commit}''] = Inr (fp_FreezeCommit fp) \<and>
    runGitValue git root [''rev-parse'', ''--verify'', ''--end-of-options'', fp_FreezeCommit fp @ '':'' @ fp_Path fp] =
      Inr (fp_BlobOID fp) \<and>
    runGitValue git root [''cat-file'', ''-t'', fp_BlobOID fp] = Inr ''blob'' \<and>
    fp_Bytes fp = gc_Stdout (git root [''cat-file'', ''blob'', fp_BlobOID fp]) \<and>
    fp_SHA256 fp = sha256_hex (fp_Bytes fp) \<and> fp_ByteCount fp = length (fp_Bytes fp)"
proof -
  have "objectType = ''blob''" if "runGitValue git root args = Inr objectType" "trimSpace objectType = ''blob''" for args objectType
    using that by (auto simp: runGitValue_def Let_def split: if_splits)
  then show ?thesis
    using assms loaderInputs_clean [of quote root f path] unfolding LoadFrozenPlan_iff revParse_def by auto
qed

text \<open>
  C16. The runner and the verifier read the same plan, up to the two checks that only one of them
  has on each side.  For a path that passes the verifier's path check and a freeze that resolves
  to a commit: the loader returns a plan and this plan passes what only the authority demands (its
  object has a well-formed name and its bytes are not empty) exactly if what only the loader
  demands holds (the repository root is not blank and the path does not start with a dash) and
  the byte authority of the verifier finds the plan without a diagnostic; and then path, object,
  bytes and digest are the same.
\<close>

theorem runner_reads_verified_plan:
  assumes "ResolveCommit (authorityAt git root) f = Inr commit" and "validateV2VerifierRelativePath path = None"
  shows "LoadFrozenPlan quote git root f path = Inr fp \<and> oidPattern (fp_BlobOID fp) \<and> fp_Bytes fp \<noteq> [] \<longleftrightarrow>
    trimSpace root \<noteq> [] \<and> \<not> prefix ''-'' path \<and>
    (\<exists>pa. ResolveV2FrozenPlanAuthority (authorityAt git root) commit path = Inr pa \<and> ba_Diagnostics pa = [] \<and>
       fp = \<lparr>fp_Path = ba_Path pa, fp_Bytes = ba_RawBytes pa, fp_BlobOID = ba_BlobOID pa, fp_SHA256 = ba_BlobSHA256 pa,
             fp_ByteCount = length (ba_RawBytes pa), fp_FreezeCommit = commit\<rparr>)"
proof (cases "trimSpace path \<noteq> [] \<and> trimSpace root \<noteq> [] \<and> \<not> prefix ''-'' path")
  case False
  then show ?thesis
    using authority_reads [of git root commit path] loaderInputs_plain [of quote root f path]
    unfolding LoadFrozenPlan_iff by blast
next
  case True
  then have path: "\<not> prefix ''-'' path" "trimSpace path \<noteq> []" and root: "trimSpace root \<noteq> []"
    by simp_all
  have f: "trimSpace f \<noteq> []"
    using assms(1) by (auto simp: ResolveCommit_def authorityAt_def)
  have oid: "oidPattern commit"
    using assms(1) ResolveCommit_oid by blast
  note commit = revParse_commit [OF oid f, of git root, THEN iffD2, OF assms(1)]
  note inputs = plain_inputs(1) [OF assms(2) path root f, of quote] plain_inputs(2-4) [OF assms(2) path root f]
  note blank = oid_not_blank [OF oid]
  have blob: "trimSpace ''blob'' = ''blob''"
    by (rule trimSpace_words)
  have typed: "(\<exists>t. runGitValue git root args = Inr t \<and> trimSpace t = ''blob'') \<longleftrightarrow> runGitValue git root args = Inr ''blob''" for args
    by (auto simp: runGitValue_def Let_def blob)
  have "LoadFrozenPlan quote git root f path = Inr fp \<and> oidPattern (fp_BlobOID fp) \<and> fp_Bytes fp \<noteq> [] \<longleftrightarrow>
    fp_Path fp = path \<and> fp_FreezeCommit fp = commit \<and> fp_SHA256 fp = sha256_hex (fp_Bytes fp) \<and>
    fp_ByteCount fp = length (fp_Bytes fp) \<and> readsBlob (authorityAt git root) commit path (fp_BlobOID fp) (fp_Bytes fp)"
    unfolding LoadFrozenPlan_iff typed readsBlob_commands [OF blank path(2)] using inputs commit by auto
  also have "\<dots> \<longleftrightarrow> (\<exists>pa. ResolveV2FrozenPlanAuthority (authorityAt git root) commit path = Inr pa \<and> ba_Diagnostics pa = [] \<and>
       fp = \<lparr>fp_Path = ba_Path pa, fp_Bytes = ba_RawBytes pa, fp_BlobOID = ba_BlobOID pa, fp_SHA256 = ba_BlobSHA256 pa,
             fp_ByteCount = length (ba_RawBytes pa), fp_FreezeCommit = commit\<rparr>)" (is "?l \<longleftrightarrow> ?r")
  proof
    assume l: ?l
    define pa where "pa = \<lparr>ba_Path = path, ba_BlobOID = fp_BlobOID fp, ba_BlobSHA256 = fp_SHA256 fp, ba_RawBytes = fp_Bytes fp,
      ba_Diagnostics = []\<rparr>"
    have "ResolveV2FrozenPlanAuthority (authorityAt git root) commit path = Inr pa \<and> ba_Diagnostics pa = []"
      unfolding authority_reads using l blank path(2) by (simp add: pa_def)
    then show ?r
      using l by (intro exI [of _ pa]) (simp add: pa_def)
  next
    assume ?r
    then obtain pa where pa: "ResolveV2FrozenPlanAuthority (authorityAt git root) commit path = Inr pa \<and> ba_Diagnostics pa = []"
      and fp: "fp = \<lparr>fp_Path = ba_Path pa, fp_Bytes = ba_RawBytes pa, fp_BlobOID = ba_BlobOID pa, fp_SHA256 = ba_BlobSHA256 pa,
             fp_ByteCount = length (ba_RawBytes pa), fp_FreezeCommit = commit\<rparr>"
      by blast
    from pa show ?l
      unfolding authority_reads fp by simp
  qed
  finally show ?thesis
    using path(1) root by simp
qed

lemma closure_authority: "authorityAt closureGit ''/repo'' = closureAuthority"
  by (simp add: authorityAt_def closureAuthority_def)

definition closurePlan :: V2FrozenPlanBytes where
  "closurePlan = \<lparr>fp_Path = ''plan.json'', fp_Bytes = ''plan'', fp_BlobOID = oid40 (CHR ''2''), fp_SHA256 = sha256_hex ''plan'',
     fp_ByteCount = 4, fp_FreezeCommit = oid40 (CHR ''2'')\<rparr>"

lemma closure_loads: "LoadFrozenPlan id closureGit ''/repo'' (oid40 (CHR ''2'')) ''plan.json'' = Inr closurePlan"
proof -
  have "validateV2VerifierRelativePath ''plan.json'' = None"
    by code_simp
  then have i: "validateLoaderInputs id ''/repo'' (oid40 (CHR ''2'')) ''plan.json'' = None"
    "trimDotSlash (cleanPath ''plan.json'') = ''plan.json''"
    using plain_inputs [of "''plan.json''" "''/repo''" "oid40 (CHR ''2'')"] by (simp_all add: trimSpace_words chain_oid_facts)
  show ?thesis
    unfolding LoadFrozenPlan_iff revParse_def runGitValue_def
    using i by (simp add: closurePlan_def closureGit_defs)
qed

lemma frozen_plan_from_commit_witness: "isLocal (fp_Path closurePlan) \<and> fp_Bytes closurePlan = gc_Stdout (closureGit ''/repo'' [''cat-file'', ''blob'', oid40 (CHR ''2'')])"
  using frozen_plan_from_commit [OF closure_loads] by (simp add: closurePlan_def)

lemma runner_reads_verified_plan_witness:
  "\<exists>pa. ResolveV2FrozenPlanAuthority closureAuthority (oid40 (CHR ''2'')) ''plan.json'' = Inr pa \<and> ba_Diagnostics pa = [] \<and>
     ba_RawBytes pa = ''plan''"
proof -
  have "ResolveCommit (authorityAt closureGit ''/repo'') (oid40 (CHR ''2'')) = Inr (oid40 (CHR ''2''))"
    by (simp add: closure_authority ResolveCommit_def closureGit_defs)
  moreover have "validateV2VerifierRelativePath ''plan.json'' = None"
    by code_simp
  ultimately show ?thesis
    using runner_reads_verified_plan [of closureGit "''/repo''" "oid40 (CHR ''2'')" "oid40 (CHR ''2'')" "''plan.json''" id closurePlan]
      closure_loads chain_oid_facts(1) [of "CHR ''2''"]
    by (auto simp: trimSpace_words closurePlan_def closure_authority)
qed

section \<open>Differences from the comments\<close>

text \<open>
  The comment of \<open>enforceWorkingPlanAssertion\<close> says the comparison is byte-exact and the length is
  compared exactly.  An empty working copy is accepted whatever the frozen plan is, because the
  comparison takes it for an assertion that was not given.
\<close>

lemma empty_working_plan_matches:
  assumes "canonicalisePathDetached quote fs path = Inr canon" and "fs_ReadFile fs canon = Inr []"
  shows "enforceWorkingPlanAssertion quote fs path frozen = None"
  using assms by (simp add: enforceWorkingPlanAssertion_def CompareToWorkingPlan_def)

lemma working_plan_compared:
  assumes "w \<noteq> []" and "fp_SHA256 frozen = sha256_hex (fp_Bytes frozen)" and "fp_ByteCount frozen = length (fp_Bytes frozen)"
  shows "CompareToWorkingPlan frozen w = None \<longleftrightarrow> length w = length (fp_Bytes frozen) \<and> sha256_hex w = sha256_hex (fp_Bytes frozen)"
  using assms by (simp add: CompareToWorkingPlan_def)

end
