(* ===== verification/Closure_Execute.thy ===== *)
theory Closure_Execute
  imports Closure_Results Exec_Executor
begin

text \<open>
  How the runner executes the checks of a plan (\<open>execution.go\<close>): one after the other, each under
  the bounded executor, its output written to files of the evidence directory that must not exist
  before.  Everything the code asks of its surroundings is in \<open>runWorld\<close>: the readings of the
  clock as they are printed, the answers of the executor with the durations it measures, the
  changes a command makes to files, and the faults of writing a file.
\<close>

section \<open>Surroundings\<close>

text \<open>Where writing a file fails, if it does; a failed write may leave a part of the bytes.\<close>

datatype writeFault = OpenFails string | WriteFails nat string | SyncFails string | CloseFails string

record runWorld =
  rw_Now :: "nat \<Rightarrow> string"
  rw_Ticks :: nat
  rw_Answer :: "nat \<Rightarrow> Request \<Rightarrow> Result \<times> errorStore \<times> int"
  rw_Touch :: "nat \<Rightarrow> (string \<rightharpoonup> string) \<Rightarrow> (string \<rightharpoonup> string)"
  rw_Commands :: "Request list"
  rw_Fault :: "string \<Rightarrow> writeFault option"
  rw_Files :: "string \<rightharpoonup> string"

text \<open>\<open>request.Now\<close>, with \<open>Format\<close> applied to what it returns.\<close>

definition readClock :: "runWorld \<Rightarrow> string \<times> runWorld" where
  "readClock w = (rw_Now w (rw_Ticks w), w\<lparr>rw_Ticks := Suc (rw_Ticks w)\<rparr>)"

text \<open>\<open>executor.Execute\<close>: the result, the errors it may point to, and its duration in milliseconds.\<close>

definition runCommand :: "Request \<Rightarrow> runWorld \<Rightarrow> (Result \<times> errorStore \<times> int) \<times> runWorld" where
  "runCommand req w =
     (let n = length (rw_Commands w) in
      (rw_Answer w n req, w\<lparr>rw_Commands := rw_Commands w @ [req], rw_Files := rw_Touch w n (rw_Files w)\<rparr>))"

text \<open>
  The executor of the runner: one start and one call at a time, within the timeout of the request.
  \<open>None\<close> is a call that never returns.
\<close>

definition boundedExecute ::
  "execEnv \<Rightarrow> int \<Rightarrow> Request \<Rightarrow> errorStore \<Rightarrow> (Result \<times> errorStore) option" where
  "boundedExecute env now req store =
     (let budget = WithMaxStarts (WithMaxConcurrent (WithTimeout now (DefaultBudget now) (rq_Timeout req)) 1) 1 in
      case NewExecutor (Some budget) None now of
        Inl err \<Rightarrow> Some (NewErrorResult (Allocated (ErrInvalidRequest (''create bounded executor: '' @ err))), store)
      | Inr e \<Rightarrow>
          (case Execute env req e store of
             (None, _, _) \<Rightarrow> None
           | (Some r, _, store') \<Rightarrow> Some (r, store')))"

section \<open>Evidence\<close>

definition evidenceError :: "string \<Rightarrow> string \<Rightarrow> string \<Rightarrow> string" where
  "evidenceError step name err = step @ '' detached evidence '' @ name @ '': '' @ err"

definition writeDetachedBytes ::
  "string \<Rightarrow> string \<Rightarrow> string \<Rightarrow> string \<Rightarrow> runWorld \<Rightarrow> (string + EvidenceRecord) \<times> runWorld" where
  "writeDetachedBytes directory logicalName mediaType data w =
     (let path = joinPath directory logicalName;
          written = w\<lparr>rw_Files := (rw_Files w)(path \<mapsto> data)\<rparr> in
      if rw_Files w path \<noteq> None then (Inl (evidenceError ''create'' logicalName (''open '' @ path @ '': file exists'')), w)
      else case rw_Fault w path of
        Some (OpenFails err) \<Rightarrow> (Inl (evidenceError ''create'' logicalName err), w)
      | Some (WriteFails n err) \<Rightarrow>
          (Inl (evidenceError ''write'' logicalName err), w\<lparr>rw_Files := (rw_Files w)(path \<mapsto> take n data)\<rparr>)
      | Some (SyncFails err) \<Rightarrow> (Inl (evidenceError ''sync'' logicalName err), written)
      | Some (CloseFails err) \<Rightarrow> (Inl (evidenceError ''close'' logicalName err), written)
      | None \<Rightarrow>
          (Inr \<lparr>er_LogicalName = logicalName, er_MediaType = mediaType, er_SHA256 = sha256_hex data,
                er_ByteCount = int (length data), er_Availability = ''detached''\<rparr>, written))"

definition writeDetachedOutput ::
  "string \<Rightarrow> string \<Rightarrow> string \<Rightarrow> runWorld \<Rightarrow> (string + EvidenceRecord) \<times> runWorld" where
  "writeDetachedOutput directory logicalName data w =
     writeDetachedBytes directory logicalName ''text/plain; charset=utf-8'' data w"

section \<open>One check\<close>

record checkExecutionRequest =
  ce_RepositoryRoot :: string
  ce_EvidenceDirectory :: string
  ce_SubjectTreeOID :: string
  ce_Checks :: "PlanCheck list"

definition sortedEnvironmentNames :: "(string \<times> string) list \<Rightarrow> string list" where
  "sortedEnvironmentNames environment = sort (map fst environment)"

definition commandEnvironment :: "(string \<times> string) list \<Rightarrow> string list" where
  "commandEnvironment overrides =
     map (\<lambda>name. name @ ''='' @ the (map_of overrides name)) (sortedEnvironmentNames overrides)
     @ [EnvRootID @ ''='', EnvParentPID @ ''='', EnvGeneration @ ''='']"

text \<open>\<open>time.Duration(n) * time.Second\<close> in 64 bits.\<close>

definition secondsDuration :: "int \<Rightarrow> int" where
  "secondsDuration n = sint (word_of_int n * word_of_int nsSecond :: 64 word)"

definition DefaultMaxOutputBytes :: int where
  "DefaultMaxOutputBytes = 8 * 1024 * 1024"

definition checkRequest :: "checkExecutionRequest \<Rightarrow> PlanCheck \<Rightarrow> Request" where
  "checkRequest request check =
     \<lparr>rq_Name = ''closure check '' @ pc_ID check, rq_Args = pc_Argv check,
      rq_Dir = joinPath (ce_RepositoryRoot request) (pc_WorkingDirectory check),
      rq_Env = commandEnvironment (pc_Environment check), rq_Timeout = secondsDuration (pc_TimeoutSeconds check),
      rq_OutputCap = DefaultMaxOutputBytes, rq_Fingerprint = '''', rq_TaskDepth = 0\<rparr>"

definition CodeExecutionProcessTreeCleanupFailed :: string where
  "CodeExecutionProcessTreeCleanupFailed = ''execution_process_tree_cleanup_failed''"

definition checkResultOf ::
  "checkExecutionRequest \<Rightarrow> PlanCheck \<Rightarrow> string \<Rightarrow> string \<Rightarrow> Result \<Rightarrow> errorStore \<Rightarrow> int \<Rightarrow> EvidenceRecord \<Rightarrow> EvidenceRecord \<Rightarrow> CheckResult" where
  "checkResultOf request check started finished r store duration stdout stderr =
     (let errorCode = (case rs_Error r of None \<Rightarrow> '''' | Some ref \<Rightarrow> ee_Code (deref store ref)) in
      \<lparr>cx_CheckID = pc_ID check, cx_SubjectTreeOID = ce_SubjectTreeOID request, cx_Argv = pc_Argv check,
       cx_WorkingDirectory = pc_WorkingDirectory check,
       cx_OverriddenEnvironment = sortedEnvironmentNames (pc_Environment check),
       cx_StartedAtUTC = started, cx_FinishedAtUTC = finished, cx_DurationMS = duration,
       cx_ExitCode = Some (rs_ExitCode r),
       cx_Status = (if Result_Failed r \<or> rs_OutputTruncated r \<or> rs_OutputIncomplete r then CheckStatusFail else CheckStatusPass),
       cx_StdoutSHA256 = er_SHA256 stdout, cx_StdoutByteCount = er_ByteCount stdout,
       cx_StderrSHA256 = er_SHA256 stderr, cx_StderrByteCount = er_ByteCount stderr,
       cx_OutputTruncated = rs_OutputTruncated r, cx_OutputIncomplete = rs_OutputIncomplete r,
       cx_OutputBytesObserved = rs_OutputBytesObserved r,
       cx_CleanupStatus = (if errorCode = CodeExecutionProcessTreeCleanupFailed then CleanupFailed else CleanupPass),
       cx_ExecutionErrorCode = errorCode\<rparr>)"

definition executeOneCheck ::
  "checkExecutionRequest \<Rightarrow> PlanCheck \<Rightarrow> runWorld \<Rightarrow> (string + CheckResult \<times> EvidenceRecord list) \<times> runWorld" where
  "executeOneCheck request check w0 =
     (let (started, w1) = readClock w0;
          ((r, store, duration), w2) = runCommand (checkRequest request check) w1;
          (finished, w3) = readClock w2
      in case writeDetachedOutput (ce_EvidenceDirectory request) (pc_ID check @ ''.stdout'') (rs_Stdout r) w3 of
           (Inl err, w4) \<Rightarrow> (Inl err, w4)
         | (Inr stdout, w4) \<Rightarrow>
           (case writeDetachedOutput (ce_EvidenceDirectory request) (pc_ID check @ ''.stderr'') (rs_Stderr r) w4 of
              (Inl err, w5) \<Rightarrow> (Inl err, w5)
            | (Inr stderr, w5) \<Rightarrow>
                (Inr (checkResultOf request check started finished r store duration stdout stderr, [stdout, stderr]), w5)))"

section \<open>The checks of a plan\<close>

definition blankResult :: "PlanCheck \<Rightarrow> string \<Rightarrow> CheckResult" where
  "blankResult check subjectTree =
     \<lparr>cx_CheckID = pc_ID check, cx_SubjectTreeOID = subjectTree, cx_Argv = pc_Argv check,
      cx_WorkingDirectory = pc_WorkingDirectory check, cx_OverriddenEnvironment = [], cx_StartedAtUTC = '''',
      cx_FinishedAtUTC = '''', cx_DurationMS = 0, cx_ExitCode = None, cx_Status = '''', cx_StdoutSHA256 = '''',
      cx_StdoutByteCount = 0, cx_StderrSHA256 = '''', cx_StderrByteCount = 0, cx_OutputTruncated = False,
      cx_OutputIncomplete = False, cx_OutputBytesObserved = 0, cx_CleanupStatus = '''', cx_ExecutionErrorCode = ''''\<rparr>"

definition notRunResult :: "PlanCheck \<Rightarrow> string \<Rightarrow> CheckResult" where
  "notRunResult check subjectTree =
     (blankResult check subjectTree)\<lparr>cx_OverriddenEnvironment := sortedEnvironmentNames (pc_Environment check),
       cx_Status := CheckStatusNotRun, cx_CleanupStatus := CleanupNotRequired\<rparr>"

text \<open>\<open>excludedResult\<close> of \<open>execution.go\<close>; the manifest builder has an entry of its own for such a check.\<close>

definition excludedExecution :: "PlanCheck \<Rightarrow> string \<Rightarrow> CheckResult" where
  "excludedExecution check subjectTree =
     (blankResult check subjectTree)\<lparr>cx_ExitCode := Some 0, cx_Status := ''excluded''\<rparr>"

fun executeLoop ::
  "checkExecutionRequest \<Rightarrow> PlanCheck list \<Rightarrow> bool \<Rightarrow> runWorld \<Rightarrow>
   (string + CheckResult list \<times> EvidenceRecord list) \<times> runWorld" where
  "executeLoop request [] priorFailure w = (Inr ([], []), w)"
| "executeLoop request (check # checks) priorFailure w =
     (if pc_Mode check = CheckModeExclude then
        (case executeLoop request checks priorFailure w of
           (Inl err, w') \<Rightarrow> (Inl err, w')
         | (Inr (rs, es), w') \<Rightarrow> (Inr (excludedExecution check (ce_SubjectTreeOID request) # rs, es), w'))
      else if pc_Mode check \<noteq> CheckModeRun then executeLoop request checks priorFailure w
      else if priorFailure then
        (case executeLoop request checks priorFailure w of
           (Inl err, w') \<Rightarrow> (Inl err, w')
         | (Inr (rs, es), w') \<Rightarrow> (Inr (notRunResult check (ce_SubjectTreeOID request) # rs, es), w'))
      else case executeOneCheck request check w of
        (Inl err, w1) \<Rightarrow> (Inl err, w1)
      | (Inr (result, records), w1) \<Rightarrow>
          (case executeLoop request checks (cx_Status result = CheckStatusFail) w1 of
             (Inl err, w') \<Rightarrow> (Inl err, w')
           | (Inr (rs, es), w') \<Rightarrow> (Inr (result # rs, records @ es), w')))"

definition executeChecks ::
  "checkExecutionRequest \<Rightarrow> runWorld \<Rightarrow> (string + CheckResult list \<times> EvidenceRecord list) \<times> runWorld" where
  "executeChecks request w = executeLoop request (ce_Checks request) False w"

section \<open>Serial execution\<close>

definition chosen :: "PlanCheck list \<Rightarrow> PlanCheck list" where
  "chosen checks = filter (\<lambda>c. pc_Mode c = CheckModeRun \<or> pc_Mode c = CheckModeExclude) checks"

definition runnable :: "PlanCheck list \<Rightarrow> PlanCheck list" where
  "runnable checks = filter (\<lambda>c. pc_Mode c = CheckModeRun) checks"

definition attempted :: "CheckResult list \<Rightarrow> CheckResult list" where
  "attempted rs = filter (\<lambda>r. cx_Status r \<noteq> ''excluded'') rs"

definition started :: "CheckResult list \<Rightarrow> CheckResult list" where
  "started rs = filter (\<lambda>r. cx_Status r = CheckStatusPass \<or> cx_Status r = CheckStatusFail) rs"

text \<open>Passing results, then at most one failure, then checks that were not run.\<close>

fun failFast :: "string list \<Rightarrow> bool" where
  "failFast [] \<longleftrightarrow> True"
| "failFast (s # ss) \<longleftrightarrow> s = CheckStatusPass \<and> failFast ss \<or> s = CheckStatusFail \<and> list_all (\<lambda>t. t = CheckStatusNotRun) ss"

definition skippedResult :: "string \<Rightarrow> PlanCheck \<Rightarrow> CheckResult" where
  "skippedResult tree c = (if pc_Mode c = CheckModeExclude then excludedExecution c tree else notRunResult c tree)"

lemma executeLoop_prior:
  "executeLoop request checks True w = (Inr (map (skippedResult (ce_SubjectTreeOID request)) (chosen checks), []), w)"
  by (induction checks) (auto simp: chosen_def skippedResult_def)

lemma blank_fields [simp]:
  "cx_CheckID (notRunResult c t) = pc_ID c" "cx_CheckID (excludedExecution c t) = pc_ID c"
  "cx_Status (notRunResult c t) = CheckStatusNotRun" "cx_Status (excludedExecution c t) = ''excluded''"
  "cx_SubjectTreeOID (notRunResult c t) = t" "cx_SubjectTreeOID (excludedExecution c t) = t"
  by (simp_all add: notRunResult_def excludedExecution_def blankResult_def)

lemma status_distinct [simp]:
  "CheckStatusNotRun \<noteq> ''excluded''" "CheckStatusPass \<noteq> ''excluded''" "CheckStatusFail \<noteq> ''excluded''"
  "CheckStatusNotRun \<noteq> CheckStatusPass" "CheckStatusNotRun \<noteq> CheckStatusFail" "CheckStatusFail \<noteq> CheckStatusPass"
  "CheckStatusPass \<noteq> CheckStatusFail" "CheckModeRun \<noteq> CheckModeExclude" "CheckModeExclude \<noteq> CheckModeRun"
  by simp_all

lemma skipped_lists:
  "map cx_CheckID (map (skippedResult t) (chosen checks)) = map pc_ID (chosen checks)"
  "map cx_CheckID (attempted (map (skippedResult t) (chosen checks))) = map pc_ID (runnable checks)"
  "list_all (\<lambda>s. s = CheckStatusNotRun) (map cx_Status (attempted (map (skippedResult t) (chosen checks))))"
  "started (map (skippedResult t) (chosen checks)) = []"
  by (induction checks) (auto simp: chosen_def runnable_def attempted_def started_def skippedResult_def)

lemma writeDetachedBytes_frame:
  "writeDetachedBytes d n m data w = (res, w') \<Longrightarrow>
   rw_Commands w' = rw_Commands w \<and> rw_Answer w' = rw_Answer w \<and> rw_Touch w' = rw_Touch w \<and>
   (\<forall>p x. rw_Files w p = Some x \<longrightarrow> rw_Files w' p = Some x)"
  by (auto simp: writeDetachedBytes_def Let_def split: if_splits option.splits writeFault.splits)

definition textEvidence :: "string \<Rightarrow> string \<Rightarrow> EvidenceRecord" where
  "textEvidence name data =
     \<lparr>er_LogicalName = name, er_MediaType = ''text/plain; charset=utf-8'', er_SHA256 = sha256_hex data,
      er_ByteCount = int (length data), er_Availability = ''detached''\<rparr>"

lemma writeDetachedOutput_frame:
  "writeDetachedOutput d n data w = (res, w') \<Longrightarrow>
   rw_Commands w' = rw_Commands w \<and> rw_Answer w' = rw_Answer w \<and> rw_Touch w' = rw_Touch w \<and> rw_Files w \<subseteq>\<^sub>m rw_Files w'"
  unfolding writeDetachedOutput_def map_le_def using writeDetachedBytes_frame by fastforce

lemma writeDetachedOutput_record:
  "writeDetachedOutput d n data w = (Inr e, w') \<Longrightarrow>
   e = textEvidence n data \<and> rw_Files w (joinPath d n) = None \<and> rw_Files w' (joinPath d n) = Some data"
  by (auto simp: writeDetachedOutput_def writeDetachedBytes_def textEvidence_def Let_def
      split: if_splits option.splits writeFault.splits)

lemma executeOneCheck_success:
  assumes "executeOneCheck request check w = (Inr (r, records), w')"
  shows "\<exists>started finished result store duration.
    rw_Answer w (length (rw_Commands w)) (checkRequest request check) = (result, store, duration) \<and>
    records = [textEvidence (pc_ID check @ ''.stdout'') (rs_Stdout result), textEvidence (pc_ID check @ ''.stderr'') (rs_Stderr result)] \<and>
    r = checkResultOf request check started finished result store duration (records ! 0) (records ! 1) \<and>
    rw_Commands w' = rw_Commands w @ [checkRequest request check] \<and> rw_Answer w' = rw_Answer w \<and> rw_Touch w' = rw_Touch w \<and>
    rw_Touch w (length (rw_Commands w)) (rw_Files w) \<subseteq>\<^sub>m rw_Files w' \<and>
    rw_Touch w (length (rw_Commands w)) (rw_Files w) (joinPath (ce_EvidenceDirectory request) (pc_ID check @ ''.stdout'')) = None \<and>
    rw_Touch w (length (rw_Commands w)) (rw_Files w) (joinPath (ce_EvidenceDirectory request) (pc_ID check @ ''.stderr'')) = None \<and>
    rw_Files w' (joinPath (ce_EvidenceDirectory request) (pc_ID check @ ''.stdout'')) = Some (rs_Stdout result) \<and>
    rw_Files w' (joinPath (ce_EvidenceDirectory request) (pc_ID check @ ''.stderr'')) = Some (rs_Stderr result)"
proof -
  define w1 where "w1 = snd (readClock w)"
  define w3 where "w3 = snd (readClock (snd (runCommand (checkRequest request check) w1)))"
  obtain result store duration where answer:
    "rw_Answer w (length (rw_Commands w)) (checkRequest request check) = (result, store, duration)"
    by (cases "rw_Answer w (length (rw_Commands w)) (checkRequest request check)") auto
  have run: "fst (runCommand (checkRequest request check) w1) = (result, store, duration)"
    using answer by (simp add: runCommand_def w1_def readClock_def Let_def)
  have w3: "rw_Commands w3 = rw_Commands w @ [checkRequest request check]" "rw_Answer w3 = rw_Answer w" "rw_Touch w3 = rw_Touch w"
    "rw_Files w3 = rw_Touch w (length (rw_Commands w)) (rw_Files w)"
    by (simp_all add: w3_def w1_def runCommand_def readClock_def Let_def)
  obtain stdout w4 where out: "writeDetachedOutput (ce_EvidenceDirectory request) (pc_ID check @ ''.stdout'') (rs_Stdout result) w3 = (Inr stdout, w4)"
    and rest: "(case writeDetachedOutput (ce_EvidenceDirectory request) (pc_ID check @ ''.stderr'') (rs_Stderr result) w4 of
              (Inl err, w5) \<Rightarrow> (Inl err, w5)
            | (Inr stderr, w5) \<Rightarrow>
                (Inr (checkResultOf request check (fst (readClock w)) (fst (readClock (snd (runCommand (checkRequest request check) w1))))
                   result store duration stdout stderr, [stdout, stderr]), w5)) = (Inr (r, records), w')"
    using assms run unfolding executeOneCheck_def w3_def w1_def
    by (auto simp: Let_def case_prod_beta prod_eq_iff split: sum.splits)
  from rest obtain stderr where err: "writeDetachedOutput (ce_EvidenceDirectory request) (pc_ID check @ ''.stderr'') (rs_Stderr result) w4 = (Inr stderr, w')"
    and r: "r = checkResultOf request check (fst (readClock w)) (fst (readClock (snd (runCommand (checkRequest request check) w1))))
                   result store duration stdout stderr" "records = [stdout, stderr]"
    by (auto split: prod.splits sum.splits)
  have "rw_Files w3 (joinPath (ce_EvidenceDirectory request) (pc_ID check @ ''.stderr'')) = None"
    using writeDetachedOutput_record [OF err] writeDetachedOutput_frame [OF out]
    by (metis domIff map_le_implies_dom_le subsetD)
  with out err writeDetachedOutput_frame [OF out] writeDetachedOutput_frame [OF err]
    writeDetachedOutput_record [OF out] writeDetachedOutput_record [OF err] w3 answer r show ?thesis
    by (intro exI [of _ "fst (readClock w)"] exI [of _ "fst (readClock (snd (runCommand (checkRequest request check) w1)))"]
        exI [of _ result] exI [of _ store] exI [of _ duration])
      (auto intro: map_le_trans simp: map_le_def dom_def)
qed

lemma checkResultOf_fields [simp]:
  "cx_CheckID (checkResultOf request c s f r st d o1 o2) = pc_ID c"
  "cx_SubjectTreeOID (checkResultOf request c s f r st d o1 o2) = ce_SubjectTreeOID request"
  "cx_DurationMS (checkResultOf request c s f r st d o1 o2) = d"
  "cx_ExitCode (checkResultOf request c s f r st d o1 o2) = Some (rs_ExitCode r)"
  "cx_Status (checkResultOf request c s f r st d o1 o2) = CheckStatusPass \<or> cx_Status (checkResultOf request c s f r st d o1 o2) = CheckStatusFail"
  by (simp_all add: checkResultOf_def Let_def)

lemma executeLoop_serial:
  assumes "executeLoop request checks False w = (Inr (rs, es), w')"
  shows "map cx_CheckID rs = map pc_ID (chosen checks) \<and> map cx_CheckID (attempted rs) = map pc_ID (runnable checks) \<and>
    failFast (map cx_Status (attempted rs)) \<and>
    rw_Commands w' = rw_Commands w @ map (checkRequest request) (take (length (started rs)) (runnable checks))"
  using assms
proof (induction checks arbitrary: w rs es w')
  case Nil
  then show ?case
    by (simp add: chosen_def runnable_def attempted_def started_def)
next
  case (Cons c checks)
  consider (exclude) "pc_Mode c = CheckModeExclude" | (run) "pc_Mode c = CheckModeRun"
    | (other) "pc_Mode c \<noteq> CheckModeExclude" "pc_Mode c \<noteq> CheckModeRun" by blast
  then show ?case
  proof cases
    case exclude
    with Cons.prems obtain rs0 where rs0: "executeLoop request checks False w = (Inr (rs0, es), w')"
      "rs = excludedExecution c (ce_SubjectTreeOID request) # rs0"
      by (auto split: prod.splits sum.splits)
    from Cons.IH [OF rs0(1)] rs0(2) exclude show ?thesis
      by (simp add: chosen_def runnable_def attempted_def started_def)
  next
    case other
    with Cons.prems have "executeLoop request checks False w = (Inr (rs, es), w')"
      by simp
    from Cons.IH [OF this] other show ?thesis
      by (simp add: chosen_def runnable_def)
  next
    case run
    obtain r records w1 rs0 es0 where one: "executeOneCheck request c w = (Inr (r, records), w1)"
      and rest: "executeLoop request checks (cx_Status r = CheckStatusFail) w1 = (Inr (rs0, es0), w')"
      and rs: "rs = r # rs0"
      using Cons.prems run by (auto split: prod.splits sum.splits)
    have r: "cx_CheckID r = pc_ID c" "cx_Status r = CheckStatusPass \<or> cx_Status r = CheckStatusFail"
      "rw_Commands w1 = rw_Commands w @ [checkRequest request c]"
      using executeOneCheck_success [OF one] by (elim exE conjE; simp)+
    show ?thesis
    proof (cases "cx_Status r = CheckStatusFail")
      case True
      with rest have "rs0 = map (skippedResult (ce_SubjectTreeOID request)) (chosen checks)" "w' = w1"
        by (simp_all add: executeLoop_prior)
      with True r run rs skipped_lists [of "ce_SubjectTreeOID request" checks] show ?thesis
        by (simp add: chosen_def runnable_def attempted_def started_def)
    next
      case False
      with rest have "executeLoop request checks False w1 = (Inr (rs0, es0), w')"
        by simp
      from Cons.IH [OF this] False r run rs show ?thesis
        by (auto simp: chosen_def runnable_def attempted_def started_def)
    qed
  qed
qed

text \<open>
  The checks run one after the other in the order of the plan, and the first failure ends the run: there is a
  result for every check in run or exclude mode, in that order; among the run checks some pass, at
  most one fails, and all after it are not run; and the commands started are exactly those of the
  checks that passed or failed.
\<close>

theorem checks_serial_fail_fast:
  assumes "executeChecks request w = (Inr (rs, es), w')"
  shows "map cx_CheckID rs = map pc_ID (chosen (ce_Checks request)) \<and>
    map cx_CheckID (attempted rs) = map pc_ID (runnable (ce_Checks request)) \<and> failFast (map cx_Status (attempted rs)) \<and>
    rw_Commands w' = rw_Commands w @ map (checkRequest request) (take (length (started rs)) (runnable (ce_Checks request)))"
  using executeLoop_serial assms unfolding executeChecks_def by blast

section \<open>Evidence files\<close>

definition evidencePaths :: "checkExecutionRequest \<Rightarrow> string set" where
  "evidencePaths request =
     (\<lambda>(c, ext). joinPath (ce_EvidenceDirectory request) (pc_ID c @ ext)) ` (set (ce_Checks request) \<times> {''.stdout'', ''.stderr''})"

definition keptOn :: "string set \<Rightarrow> (string \<rightharpoonup> string) \<Rightarrow> (string \<rightharpoonup> string) \<Rightarrow> bool" where
  "keptOn P f g \<longleftrightarrow> (\<forall>p\<in>P. f p \<noteq> None \<longrightarrow> g p = f p)"

lemma keptOn_trans: "keptOn P f g \<Longrightarrow> keptOn P g h \<Longrightarrow> keptOn P f h"
  by (fastforce simp: keptOn_def)

lemma keptOn_map_le: "f \<subseteq>\<^sub>m g \<Longrightarrow> keptOn P f g"
  by (force simp: keptOn_def map_le_def dom_def)

text \<open>No command touches the evidence files of the run.\<close>

definition evidenceUntouched :: "checkExecutionRequest \<Rightarrow> runWorld \<Rightarrow> bool" where
  "evidenceUntouched request w \<longleftrightarrow> (\<forall>n f. \<forall>p\<in>evidencePaths request. rw_Touch w n f p = f p)"

lemma untouched_kept: "evidenceUntouched request w \<Longrightarrow> keptOn (evidencePaths request) f (rw_Touch w n f)"
  by (simp add: evidenceUntouched_def keptOn_def)

lemma executeOneCheck_frame:
  assumes "executeOneCheck request check w = (res, w')" and "evidenceUntouched request w"
  shows "keptOn (evidencePaths request) (rw_Files w) (rw_Files w') \<and> rw_Touch w' = rw_Touch w"
proof -
  define w1 where "w1 = snd (readClock w)"
  define w3 where "w3 = snd (readClock (snd (runCommand (checkRequest request check) w1)))"
  have w3: "rw_Touch w3 = rw_Touch w" "rw_Files w3 = rw_Touch w (length (rw_Commands w)) (rw_Files w)"
    by (simp_all add: w3_def w1_def runCommand_def readClock_def Let_def)
  obtain result where "rs_Stdout (fst (fst (runCommand (checkRequest request check) w1))) = result"
    by blast
  have step: "keptOn (evidencePaths request) (rw_Files w) (rw_Files w3)"
    unfolding w3(2) by (rule untouched_kept [OF assms(2)])
  obtain stdoutRes w4 where out: "writeDetachedOutput (ce_EvidenceDirectory request) (pc_ID check @ ''.stdout'')
      (rs_Stdout (fst (fst (runCommand (checkRequest request check) w1)))) w3 = (stdoutRes, w4)"
    by fastforce
  obtain stderrRes w5 where err: "writeDetachedOutput (ce_EvidenceDirectory request) (pc_ID check @ ''.stderr'')
      (rs_Stderr (fst (fst (runCommand (checkRequest request check) w1)))) w4 = (stderrRes, w5)"
    by fastforce
  have "w' = w4 \<or> w' = w5"
    using assms(1) out err unfolding executeOneCheck_def w3_def w1_def
    by (auto simp: Let_def case_prod_beta split: sum.splits)
  moreover have "keptOn (evidencePaths request) (rw_Files w3) (rw_Files w4) \<and> rw_Touch w4 = rw_Touch w3"
    using writeDetachedOutput_frame [OF out] keptOn_map_le by blast
  moreover have "keptOn (evidencePaths request) (rw_Files w4) (rw_Files w5) \<and> rw_Touch w5 = rw_Touch w4"
    using writeDetachedOutput_frame [OF err] keptOn_map_le by blast
  ultimately show ?thesis
    using step w3(1) keptOn_trans by metis
qed

text \<open>A record names the file that holds the bytes it was made from, and the file is new.\<close>

definition boundTo :: "checkExecutionRequest \<Rightarrow> (string \<rightharpoonup> string) \<Rightarrow> (string \<rightharpoonup> string) \<Rightarrow> EvidenceRecord \<Rightarrow> bool" where
  "boundTo request before after e \<longleftrightarrow>
     (let path = joinPath (ce_EvidenceDirectory request) (er_LogicalName e) in
      path \<in> evidencePaths request \<and> before path = None \<and>
      (\<exists>data. after path = Some data \<and> e = textEvidence (er_LogicalName e) data))"

lemma boundTo_mono: "boundTo request f g e \<Longrightarrow> keptOn (evidencePaths request) g h \<Longrightarrow> boundTo request f h e"
  by (auto simp: boundTo_def Let_def keptOn_def)

lemma boundTo_before: "boundTo request g h e \<Longrightarrow> keptOn (evidencePaths request) f g \<Longrightarrow> boundTo request f h e"
  by (fastforce simp: boundTo_def Let_def keptOn_def)

lemma evidencePaths_mem:
  "c \<in> set (ce_Checks request) \<Longrightarrow> joinPath (ce_EvidenceDirectory request) (pc_ID c @ ''.stdout'') \<in> evidencePaths request"
  "c \<in> set (ce_Checks request) \<Longrightarrow> joinPath (ce_EvidenceDirectory request) (pc_ID c @ ''.stderr'') \<in> evidencePaths request"
  by (force simp: evidencePaths_def)+

lemma executeOneCheck_bound:
  assumes "executeOneCheck request check w = (Inr (r, records), w')" and "evidenceUntouched request w" and "check \<in> set (ce_Checks request)"
  shows "list_all (boundTo request (rw_Files w) (rw_Files w')) records"
proof -
  have "rw_Touch w n f p = f p" if "p \<in> evidencePaths request" for n f p
    using assms(2) that by (simp add: evidenceUntouched_def)
  note same = this [OF evidencePaths_mem(1) [OF assms(3)]] this [OF evidencePaths_mem(2) [OF assms(3)]]
  from executeOneCheck_success [OF assms(1)] show ?thesis
    unfolding same
    by (elim exE conjE) (use evidencePaths_mem [OF assms(3)] in \<open>simp add: boundTo_def textEvidence_def\<close>)
qed

lemma executeLoop_evidence:
  assumes "executeLoop request checks prior w = (res, w')" and "evidenceUntouched request w" and "set checks \<subseteq> set (ce_Checks request)"
  shows "keptOn (evidencePaths request) (rw_Files w) (rw_Files w') \<and>
    (\<forall>rs es. res = Inr (rs, es) \<longrightarrow> list_all (boundTo request (rw_Files w) (rw_Files w')) es)"
  using assms
proof (induction checks arbitrary: prior w res w')
  case Nil
  then show ?case
    by (auto simp: keptOn_def)
next
  case (Cons c checks)
  show ?case
  proof (cases "pc_Mode c = CheckModeRun \<and> \<not> prior")
    case False
    then obtain res0 where loop: "executeLoop request checks prior w = (res0, w')"
      and res: "\<And>rs es. res = Inr (rs, es) \<Longrightarrow> \<exists>rs0. res0 = Inr (rs0, es)"
      using Cons.prems(1) by (fastforce split: if_splits prod.splits sum.splits)
    show ?thesis
      using Cons.IH [OF loop Cons.prems(2)] Cons.prems(3) res by fastforce
  next
    case True
    obtain one w1 where one: "executeOneCheck request c w = (one, w1)"
      by fastforce
    note frame = executeOneCheck_frame [OF one Cons.prems(2)]
    show ?thesis
    proof (cases one)
      case (Inl err)
      with Cons.prems(1) True one frame show ?thesis
        by auto
    next
      case (Inr result)
      then obtain r records where records: "executeOneCheck request c w = (Inr (r, records), w1)"
        using one by (cases result) simp
      obtain res0 where loop: "executeLoop request checks (cx_Status r = CheckStatusFail) w1 = (res0, w')"
        and res: "\<And>rs es. res = Inr (rs, es) \<Longrightarrow> \<exists>rs0 es0. res0 = Inr (rs0, es0) \<and> es = records @ es0"
        using Cons.prems(1) True records by (fastforce split: prod.splits sum.splits)
      have w1: "evidenceUntouched request w1"
        using Cons.prems(2) frame by (simp add: evidenceUntouched_def)
      from Cons.IH [OF loop w1] Cons.prems(3)
      have rest: "keptOn (evidencePaths request) (rw_Files w1) (rw_Files w')"
        "\<And>rs es. res0 = Inr (rs, es) \<Longrightarrow> list_all (boundTo request (rw_Files w1) (rw_Files w')) es"
        by auto
      have "list_all (boundTo request (rw_Files w) (rw_Files w')) records"
        using executeOneCheck_bound [OF records Cons.prems(2)] Cons.prems(3) boundTo_mono [OF _ rest(1)]
        by (auto simp: list_all_iff)
      moreover have "list_all (boundTo request (rw_Files w) (rw_Files w')) es0" if "res0 = Inr (rs0, es0)" for rs0 es0
        using rest(2) [OF that] boundTo_before frame by (auto simp: list_all_iff)
      ultimately show ?thesis
        using keptOn_trans rest(1) frame res by fastforce
    qed
  qed
qed

text \<open>
  Every record of the evidence names a file that did not exist before the run and holds, after it,
  the bytes whose digest and length the record gives, provided that no command of the run touches
  the evidence files.
\<close>

theorem evidence_bound_to_files:
  assumes "executeChecks request w = (Inr (rs, es), w')" and "evidenceUntouched request w"
  shows "list_all (boundTo request (rw_Files w) (rw_Files w')) es"
  using executeLoop_evidence [OF assms(1) [unfolded executeChecks_def] assms(2)] by simp

section \<open>Excluded checks\<close>

text \<open>
  \<open>executeChecks\<close> records a result for an excluded check, and the manifest builder refuses any result
  of one: from a plan with an excluded check no manifest can be built of what was executed.
\<close>

theorem excluded_check_never_published:
  assumes "executeChecks request w = (Inr (rs, es), w')" and "c \<in> set (ce_Checks request)" and "pc_Mode c = CheckModeExclude"
  shows "buildV2ManifestCheckResults quote tree (ce_Checks request) rs es \<noteq> Inr out"
proof
  assume "buildV2ManifestCheckResults quote tree (ce_Checks request) rs es = Inr out"
  then obtain planIndex m where plan: "foldE (indexPlan quote) (ce_Checks request) [] = Inr planIndex"
    and executed: "foldE (indexExecution quote planIndex) rs [] = Inr m"
    by (auto simp: buildV2ManifestCheckResults_def bindE_eq_Inr split: if_splits)
  have "map cx_CheckID rs = map pc_ID (chosen (ce_Checks request))"
    using executeLoop_serial assms(1) unfolding executeChecks_def by blast
  moreover have "pc_ID c \<in> set (map pc_ID (chosen (ce_Checks request)))"
    using assms(2,3) by (auto simp: chosen_def)
  ultimately have "pc_ID c \<in> cx_CheckID ` set rs"
    by (metis set_map)
  then obtain r where r: "r \<in> set rs" "cx_CheckID r = pc_ID c"
    by auto
  from execution_index(2) [OF plan executed r(1)] obtain p where
    p: "p \<in> set (ce_Checks request)" "pc_ID p = pc_ID c" "pc_Mode p = CheckModeRun"
    unfolding r(2) by blast
  have "inj_on pc_ID (set (ce_Checks request))"
    using indexPlan_fold [OF plan] by (simp add: distinct_map)
  then have "p = c"
    using p(2,1) assms(2) by (rule inj_onD)
  with p(3) assms(3) show False
    by simp
qed

end
