(* ===== verification/Plan_Scan.thy ===== *)
theory Plan_Scan
  imports Gate_Summary Closure_Diag
begin

text \<open>
  The reader of Plan Contract documents (\<open>internal/factory/closure/plancontract/plancontract.go\<close>):
  the strict single-document scanner, the scan for repeated member names, and the minimal
  projection with its validation.

  A document enters as the tokens of \<open>json.Decoder\<close>, as in \<open>Gate_Json\<close>, together with what
  else the code can observe of the library: the number of bytes, the text of the error of
  \<open>Token\<close> after the last token, the answer of \<open>More\<close> there, and the text of the error of the
  final \<open>Decode\<close>.  The value \<open>any\<close> of the decoder is the tree \<open>json\<close>; a Go map is the list of
  its members in the order of insertion, with distinct names.
\<close>

section \<open>Documents and errors\<close>

record planSource = tokenSource +
  ps_length :: int
  ps_more :: bool
  ps_tokenErr :: string
  ps_decodeErr :: string

record DecodeError =
  de_Code :: string
  de_Field :: string
  de_InstancePath :: string
  de_Message :: string

record MinimalPlanCheck =
  pk_ID :: string
  pk_Mode :: string

record DecodeResult =
  dr_ContractVersion :: int
  dr_Checks :: "MinimalPlanCheck list"

definition decodeErrorText :: "DecodeError \<Rightarrow> string" where
  "decodeErrorText e =
     (if de_Field e = '''' then ''plancontract: '' @ de_Code e @ '': '' @ de_Message e
      else ''plancontract: '' @ de_Code e @ '' at '' @ de_Field e @ '': '' @ de_Message e)"

text \<open>A \<open>DecodeError\<close> with only the members \<open>Code\<close> and \<open>Message\<close> set.\<close>

definition bareError :: "string \<Rightarrow> string \<Rightarrow> DecodeError" where
  "bareError code message =
     \<lparr>de_Code = code, de_Field = '''', de_InstancePath = '''', de_Message = message\<rparr>"

definition MaxPlanBytes :: int where
  "MaxPlanBytes = 2 ^ 20"

definition ContractVersionV1 :: int where
  "ContractVersionV1 = 1"

section \<open>The strict scanner\<close>

definition moreAt :: "planSource \<Rightarrow> jsonToken list \<Rightarrow> bool" where
  "moreAt S ts =
     (case ts of [] \<Rightarrow> ps_more S | t # _ \<Rightarrow> t \<noteq> TDelim ObjClose \<and> t \<noteq> TDelim ArrClose)"

definition delimText :: "Delim \<Rightarrow> string" where
  "delimText d = (case d of ObjOpen \<Rightarrow> ''{'' | ObjClose \<Rightarrow> ''}'' | ArrOpen \<Rightarrow> ''['' | ArrClose \<Rightarrow> '']'')"

text \<open>\<open>scalarFromToken\<close>; a delimiter does not reach it.\<close>

definition scalarFromToken :: "jsonToken \<Rightarrow> json" where
  "scalarFromToken tok =
     (case tok of
        TNumber v \<Rightarrow> JNumber v
      | TString v \<Rightarrow> JString v
      | TBool v \<Rightarrow> JBool v
      | TNull \<Rightarrow> JNull
      | TDelim v \<Rightarrow> JString (delimText v))"

text \<open>
  The three scanners.  The argument \<open>path\<close> of the source is handed down but never read and is
  left out; \<open>quote\<close> is the verb \<open>%q\<close>.
\<close>

function scanStrictValue ::
    "(string \<Rightarrow> string) \<Rightarrow> planSource \<Rightarrow> jsonToken \<Rightarrow> jsonToken list \<Rightarrow> string + json \<times> jsonToken list"
  and scanStrictObject ::
    "(string \<Rightarrow> string) \<Rightarrow> planSource \<Rightarrow> string list \<Rightarrow> (string \<times> json) list \<Rightarrow> jsonToken list \<Rightarrow>
     string + json \<times> jsonToken list"
  and scanStrictArray ::
    "(string \<Rightarrow> string) \<Rightarrow> planSource \<Rightarrow> json list \<Rightarrow> jsonToken list \<Rightarrow> string + json \<times> jsonToken list" where
  "scanStrictValue quote S tok ts =
     (case tok of
        TDelim delim \<Rightarrow>
          (case delim of
             ObjOpen \<Rightarrow> scanStrictObject quote S [] [] ts
           | ArrOpen \<Rightarrow> scanStrictArray quote S [] ts
           | _ \<Rightarrow> Inl (''unexpected delimiter '' @ quote (delimText delim)))
      | _ \<Rightarrow> Inr (scalarFromToken tok, ts))"
| "scanStrictObject quote S seen out ts =
     (if \<not> moreAt S ts then
        (case ts of
           [] \<Rightarrow> Inl (''decode object close: '' @ ps_tokenErr S)
         | _ # ts \<Rightarrow> Inr (JObject out, ts))
      else case ts of
        [] \<Rightarrow> Inl (''decode object key: '' @ ps_tokenErr S)
      | keyTok # ts \<Rightarrow>
          (case keyTok of
             TString key \<Rightarrow>
               if key \<in> set seen then Inl (''duplicate JSON key '' @ quote key)
               else (case ts of
                  [] \<Rightarrow> Inl (''decode value for key '' @ quote key @ '': '' @ ps_tokenErr S)
                | valueTok # ts \<Rightarrow>
                    (case scanStrictValue quote S valueTok ts of
                       Inl err \<Rightarrow> Inl err
                     | Inr (child, ts) \<Rightarrow> scanStrictObject quote S (key # seen) (out @ [(key, child)]) ts))
           | _ \<Rightarrow> Inl ''object key is not a string''))"
| "scanStrictArray quote S out ts =
     (if \<not> moreAt S ts then
        (case ts of
           [] \<Rightarrow> Inl (''decode array close: '' @ ps_tokenErr S)
         | _ # ts \<Rightarrow> Inr (JArray out, ts))
      else case ts of
        [] \<Rightarrow> Inl (''decode array value: '' @ ps_tokenErr S)
      | tok # ts \<Rightarrow>
          (case scanStrictValue quote S tok ts of
             Inl err \<Rightarrow> Inl err
           | Inr (child, ts) \<Rightarrow> scanStrictArray quote S (out @ [child]) ts))"
  by pat_completeness auto

text \<open>A scan never hands back more tokens than it was given, which bounds the recursion.\<close>

lemma scanStrict_shrinks:
  "scanStrictValue_scanStrictObject_scanStrictArray_dom (Inl (quote, S, tok, ts)) \<Longrightarrow>
     scanStrictValue quote S tok ts = Inr (v, rest) \<Longrightarrow> length rest \<le> length ts"
  "scanStrictValue_scanStrictObject_scanStrictArray_dom (Inr (Inl (quote, S, seen, members, ts))) \<Longrightarrow>
     scanStrictObject quote S seen members ts = Inr (v, rest) \<Longrightarrow> length rest \<le> length ts"
  "scanStrictValue_scanStrictObject_scanStrictArray_dom (Inr (Inr (quote, S, elems, ts))) \<Longrightarrow>
     scanStrictArray quote S elems ts = Inr (v, rest) \<Longrightarrow> length rest \<le> length ts"
proof (induction arbitrary: v rest and v rest and v rest rule: scanStrictValue_scanStrictObject_scanStrictArray.pinduct)
  case (1 quote S tok ts)
  then show ?case
    by (auto simp: scanStrictValue.psimps split: jsonToken.splits Delim.splits)
next
  case (2 quote S seen out ts)
  from "2.prems" "2.hyps" consider (close) t where "ts = t # rest"
    | (member) key vt ts' child ts'' where "moreAt S ts" "ts = TString key # vt # ts'" "key \<notin> set seen"
        "scanStrictValue quote S vt ts' = Inr (child, ts'')"
        "scanStrictObject quote S (key # seen) (out @ [(key, child)]) ts'' = Inr (v, rest)"
    by (auto simp: scanStrictObject.psimps split: list.splits jsonToken.splits if_splits sum.splits)
  then show ?case
  proof cases
    case member
    then have "length ts'' \<le> length ts'"
      using "2.IH"(1) by simp
    moreover have "length rest \<le> length ts''"
      using "2.IH"(2) member by simp
    ultimately show ?thesis
      using member by simp
  qed simp
next
  case (3 quote S out ts)
  from "3.prems" "3.hyps" consider (close) t where "ts = t # rest"
    | (elem) t ts' child ts'' where "moreAt S ts" "ts = t # ts'"
        "scanStrictValue quote S t ts' = Inr (child, ts'')"
        "scanStrictArray quote S (out @ [child]) ts'' = Inr (v, rest)"
    by (auto simp: scanStrictArray.psimps split: list.splits if_splits sum.splits)
  then show ?case
  proof cases
    case elem
    then have "length ts'' \<le> length ts'"
      using "3.IH"(1) by simp
    moreover have "length rest \<le> length ts''"
      using "3.IH"(2) elem by simp
    ultimately show ?thesis
      using elem by simp
  qed simp
qed

termination scanStrictValue
  by (relation "measure (case_sum (\<lambda>(_, _, _, ts). 2 * length ts + 1)
       (case_sum (\<lambda>(_, _, _, _, ts). 2 * length ts) (\<lambda>(_, _, _, ts). 2 * length ts)))")
    (auto dest: scanStrict_shrinks)

declare scanStrictValue.simps [simp del] scanStrictObject.simps [simp del] scanStrictArray.simps [simp del]

lemma scanStrictObject_cases:
  assumes "scanStrictObject quote S seen out ts = Inr (v, rest)"
  obtains (close) t where "\<not> moreAt S ts" "ts = t # rest" "v = JObject out"
  | (member) key vt ts' child ts'' where "moreAt S ts" "ts = TString key # vt # ts'" "key \<notin> set seen"
      "scanStrictValue quote S vt ts' = Inr (child, ts'')"
      "scanStrictObject quote S (key # seen) (out @ [(key, child)]) ts'' = Inr (v, rest)"
  using assms by (auto simp: scanStrictObject.simps [of quote S seen out ts]
      split: list.splits jsonToken.splits if_splits sum.splits)

lemma scanStrictArray_cases:
  assumes "scanStrictArray quote S out ts = Inr (v, rest)"
  obtains (close) t where "\<not> moreAt S ts" "ts = t # rest" "v = JArray out"
  | (elem) t ts' child ts'' where "moreAt S ts" "ts = t # ts'"
      "scanStrictValue quote S t ts' = Inr (child, ts'')"
      "scanStrictArray quote S (out @ [child]) ts'' = Inr (v, rest)"
  using assms by (auto simp: scanStrictArray.simps [of quote S out ts] split: list.splits if_splits sum.splits)

definition scanStrictDocument ::
  "(string \<Rightarrow> string) \<Rightarrow> planSource \<Rightarrow> string + json \<times> jsonToken list" where
  "scanStrictDocument quote S =
     (case src_tokens S of
        [] \<Rightarrow> Inl (ps_tokenErr S)
      | tok # ts \<Rightarrow> scanStrictValue quote S tok ts)"

text \<open>
  \<open>requireEOF\<close>: the second \<open>Decode\<close> reads one more value.  After the last token it reports
  \<open>io.EOF\<close> or the error of the library.
\<close>

definition planRequireEOF :: "planSource \<Rightarrow> jsonToken list \<Rightarrow> DecodeError option" where
  "planRequireEOF S ts =
     (if ts = [] \<and> src_eof S then None
      else if consumeValue ts = None then Some (bareError ''invalid_json'' (ps_decodeErr S))
      else Some (bareError ''trailing_value'' ''trailing JSON value after root document''))"

definition DecodeBytes :: "(string \<Rightarrow> string) \<Rightarrow> planSource \<Rightarrow> DecodeError + json" where
  "DecodeBytes quote S =
     (if ps_length S = 0 then Inl (bareError ''invalid_json'' ''document is empty; expected JSON object'')
      else if ps_length S > MaxPlanBytes then
        Inl (bareError ''invalid_json'' (''plan exceeds '' @ itoa MaxPlanBytes @ ''-byte size limit''))
      else case scanStrictDocument quote S of
        Inl err \<Rightarrow> Inl (bareError ''invalid_json'' err)
      | Inr (root, ts) \<Rightarrow> (case planRequireEOF S ts of Some err \<Rightarrow> Inl err | None \<Rightarrow> Inr root))"

section \<open>Repeated names\<close>

definition planJoinPath :: "string \<Rightarrow> string \<Rightarrow> string" where
  "planJoinPath parent child = (if parent = '''' then ''/'' @ child else parent @ ''/'' @ child)"

function walkArrayDupes ::
    "(string \<Rightarrow> string) \<Rightarrow> planSource \<Rightarrow> string \<Rightarrow> jsonToken list \<Rightarrow> string + jsonToken list"
  and walkObjectDupes ::
    "(string \<Rightarrow> string) \<Rightarrow> planSource \<Rightarrow> string \<Rightarrow> string list \<Rightarrow> jsonToken list \<Rightarrow> string + jsonToken list" where
  "walkArrayDupes quote S path ts =
     (if \<not> moreAt S ts then Inr (tl ts)
      else case ts of
        [] \<Rightarrow> Inl (ps_tokenErr S)
      | tok # ts \<Rightarrow>
          if tok = TDelim ObjOpen then
            (case walkObjectDupes quote S path [] ts of
               Inl err \<Rightarrow> Inl err
             | Inr ts \<Rightarrow> walkArrayDupes quote S path ts)
          else if tok = TDelim ArrOpen then
            (case walkArrayDupes quote S path ts of
               Inl err \<Rightarrow> Inl err
             | Inr ts \<Rightarrow> walkArrayDupes quote S path ts)
          else walkArrayDupes quote S path ts)"
| "walkObjectDupes quote S path seen ts =
     (if \<not> moreAt S ts then Inr (tl ts)
      else case ts of
        [] \<Rightarrow> Inl (ps_tokenErr S)
      | keyTok # ts \<Rightarrow>
          (case keyTok of
             TString key \<Rightarrow>
               if key \<in> set seen then Inl (''duplicate JSON key '' @ quote (planJoinPath path key))
               else (case ts of
                  [] \<Rightarrow> Inl (ps_tokenErr S)
                | valTok # ts \<Rightarrow>
                    if valTok = TDelim ObjOpen then
                      (case walkObjectDupes quote S (planJoinPath path key) [] ts of
                         Inl err \<Rightarrow> Inl err
                       | Inr ts \<Rightarrow> walkObjectDupes quote S path (key # seen) ts)
                    else if valTok = TDelim ArrOpen then
                      (case walkArrayDupes quote S (planJoinPath path key) ts of
                         Inl err \<Rightarrow> Inl err
                       | Inr ts \<Rightarrow> walkObjectDupes quote S path (key # seen) ts)
                    else walkObjectDupes quote S path (key # seen) ts)
           | _ \<Rightarrow> Inr ts))"
  by pat_completeness auto

lemma walkDupes_shrinks:
  "walkArrayDupes_walkObjectDupes_dom (Inl (quote, S, path, ts)) \<Longrightarrow>
     walkArrayDupes quote S path ts = Inr rest \<Longrightarrow> length rest \<le> length ts"
  "walkArrayDupes_walkObjectDupes_dom (Inr (quote, S, path, seen, ts)) \<Longrightarrow>
     walkObjectDupes quote S path seen ts = Inr rest \<Longrightarrow> length rest \<le> length ts"
proof (induction arbitrary: rest and rest rule: walkArrayDupes_walkObjectDupes.pinduct)
  case (1 quote S path ts)
  from "1.prems" "1.hyps" consider (close) "rest = tl ts"
    | (obj) ts' ts'' where "moreAt S ts" "ts = TDelim ObjOpen # ts'"
        "walkObjectDupes quote S path [] ts' = Inr ts''" "walkArrayDupes quote S path ts'' = Inr rest"
    | (arr) ts' ts'' where "moreAt S ts" "ts = TDelim ArrOpen # ts'"
        "walkArrayDupes quote S path ts' = Inr ts''" "walkArrayDupes quote S path ts'' = Inr rest"
    | (scalar) t ts' where "moreAt S ts" "ts = t # ts'" "t \<noteq> TDelim ObjOpen" "t \<noteq> TDelim ArrOpen"
        "walkArrayDupes quote S path ts' = Inr rest"
    by (auto simp: walkArrayDupes.psimps split: list.splits if_splits sum.splits)
  then show ?case
  proof cases
    case obj
    then have "length ts'' \<le> length ts'" "length rest \<le> length ts''"
      using "1.IH"(1,2) by simp_all
    with obj show ?thesis by simp
  next
    case arr
    then have "length ts'' \<le> length ts'" "length rest \<le> length ts''"
      using "1.IH"(3,4) by simp_all
    with arr show ?thesis by simp
  next
    case scalar
    then show ?thesis
      using "1.IH"(5) by fastforce
  qed simp
next
  case (2 quote S path seen ts)
  from "2.prems" "2.hyps" consider (close) "rest = tl ts"
    | (obj) key ts' ts'' where "moreAt S ts" "ts = TString key # TDelim ObjOpen # ts'" "key \<notin> set seen"
        "walkObjectDupes quote S (planJoinPath path key) [] ts' = Inr ts''"
        "walkObjectDupes quote S path (key # seen) ts'' = Inr rest"
    | (arr) key ts' ts'' where "moreAt S ts" "ts = TString key # TDelim ArrOpen # ts'" "key \<notin> set seen"
        "walkArrayDupes quote S (planJoinPath path key) ts' = Inr ts''"
        "walkObjectDupes quote S path (key # seen) ts'' = Inr rest"
    | (scalar) key t ts' where "moreAt S ts" "ts = TString key # t # ts'" "key \<notin> set seen"
        "t \<noteq> TDelim ObjOpen" "t \<noteq> TDelim ArrOpen" "walkObjectDupes quote S path (key # seen) ts' = Inr rest"
    by (auto simp: walkObjectDupes.psimps split: list.splits jsonToken.splits if_splits sum.splits)
  then show ?case
  proof cases
    case obj
    then have "length ts'' \<le> length ts'" "length rest \<le> length ts''"
      using "2.IH"(1,2) by simp_all
    with obj show ?thesis by simp
  next
    case arr
    then have "length ts'' \<le> length ts'" "length rest \<le> length ts''"
      using "2.IH"(3,4) by simp_all
    with arr show ?thesis by simp
  next
    case scalar
    then show ?thesis
      using "2.IH"(5) by fastforce
  qed simp
qed

termination walkArrayDupes
  by (relation "measure (case_sum (\<lambda>(_, _, _, ts). length ts) (\<lambda>(_, _, _, _, ts). length ts))")
    (auto simp: le_imp_less_Suc less_Suc_eq_le dest: walkDupes_shrinks)

declare walkArrayDupes.simps [simp del] walkObjectDupes.simps [simp del]

definition scanDuplicates :: "(string \<Rightarrow> string) \<Rightarrow> planSource \<Rightarrow> string option" where
  "scanDuplicates quote S =
     (case src_tokens S of
        [] \<Rightarrow> None
      | tok # ts \<Rightarrow>
          if tok = TDelim ObjOpen then
            (case walkObjectDupes quote S '''' [] ts of Inl err \<Rightarrow> Some err | Inr _ \<Rightarrow> None)
          else if tok = TDelim ArrOpen then
            (case walkArrayDupes quote S '''' ts of Inl err \<Rightarrow> Some err | Inr _ \<Rightarrow> None)
          else None)"

text \<open>
  \<open>StrictDecode\<close>: the typed \<open>Decode\<close> of the library into the target, with unknown members
  disallowed, is the argument \<open>decodeTarget\<close>: its error text, or the tokens that follow the
  value it read.
\<close>

datatype strictDecodeError = StrictFailed string | StrictDecodeError DecodeError

definition StrictDecode ::
  "(string \<Rightarrow> string) \<Rightarrow> (planSource \<Rightarrow> string + jsonToken list) \<Rightarrow> planSource \<Rightarrow> strictDecodeError option" where
  "StrictDecode quote decodeTarget S =
     (if ps_length S = 0 then
        Some (StrictDecodeError (bareError ''invalid_json'' ''document is empty; expected JSON object''))
      else case decodeTarget S of
        Inl err \<Rightarrow> Some (StrictFailed (''plancontract: strict decode failed: '' @ err))
      | Inr ts \<Rightarrow>
          (case scanDuplicates quote S of
             Some err \<Rightarrow> Some (StrictFailed (''plancontract: strict decode failed: '' @ err))
           | None \<Rightarrow>
               (if ts = [] \<and> src_eof S then None
                else if consumeValue ts = None then
                  Some (StrictFailed (''plancontract: strict decode failed: '' @ ps_decodeErr S))
                else Some (StrictDecodeError
                  (bareError ''trailing_value'' ''trailing JSON value after root document'')))))"

section \<open>The minimal projection\<close>

text \<open>\<open>strconv.ParseInt(s, 10, 64)\<close>, the method \<open>Int64\<close> of \<open>json.Number\<close>.\<close>

definition numberInt64 :: "string \<Rightarrow> int option" where
  "numberInt64 s =
     (let signed = (s \<noteq> [] \<and> (hd s = CHR ''-'' \<or> hd s = CHR ''+''));
          t = (if signed then tl s else s);
          v = int (digitsValue 0 t);
          n = (if signed \<and> hd s = CHR ''-'' then - v else v)
      in if t \<noteq> [] \<and> list_all isDigit t \<and> isInt64 n then Some n else None)"

text \<open>The type assertions of the code on a member of a map.\<close>

definition strMember :: "(string \<times> json) list \<Rightarrow> string \<Rightarrow> string option" where
  "strMember obj k = (case map_of obj k of Some (JString s) \<Rightarrow> Some s | _ \<Rightarrow> None)"

definition objMember :: "(string \<times> json) list \<Rightarrow> string \<Rightarrow> (string \<times> json) list option" where
  "objMember obj k = (case map_of obj k of Some (JObject ms) \<Rightarrow> Some ms | _ \<Rightarrow> None)"

definition intMember :: "(string \<times> json) list \<Rightarrow> string \<Rightarrow> int" where
  "intMember obj k =
     (case map_of obj k of
        Some (JNumber n) \<Rightarrow> (case numberInt64 n of Some iv \<Rightarrow> iv | None \<Rightarrow> 0)
      | _ \<Rightarrow> 0)"

definition stringFromMap :: "(string \<times> json) list \<Rightarrow> string \<Rightarrow> string" where
  "stringFromMap obj k = (case strMember obj k of Some s \<Rightarrow> s | None \<Rightarrow> '''')"

fun projectChecks :: "nat \<Rightarrow> json list \<Rightarrow> DecodeError + MinimalPlanCheck list" where
  "projectChecks i [] = Inr []"
| "projectChecks i (item # items) =
     (case item of
        JObject entry \<Rightarrow>
          bindE (projectChecks (Suc i) items) (\<lambda>checks.
            Inr (\<lparr>pk_ID = stringFromMap entry ''id'', pk_Mode = stringFromMap entry ''mode''\<rparr> # checks))
      | _ \<Rightarrow> Inl (bareError ''invalid_type'' (''checks['' @ itoa (int i) @ ''] is not a JSON object'')))"

definition projectToResult :: "json \<Rightarrow> DecodeError + DecodeResult" where
  "projectToResult root =
     (case root of
        JObject obj \<Rightarrow>
          (case map_of obj ''checks'' of
             None \<Rightarrow> Inl (bareError ''missing_field'' ''checks is required'')
           | Some (JArray checks) \<Rightarrow>
               bindE (projectChecks 0 checks) (\<lambda>cs.
                 Inr \<lparr>dr_ContractVersion = intMember obj ''contract_version'', dr_Checks = cs\<rparr>)
           | Some _ \<Rightarrow> Inl (bareError ''invalid_type'' ''checks is not an array''))
      | _ \<Rightarrow> Inl (bareError ''invalid_json'' ''root is not a JSON object''))"

definition DecodeBytesToResult :: "(string \<Rightarrow> string) \<Rightarrow> planSource \<Rightarrow> DecodeError + DecodeResult" where
  "DecodeBytesToResult quote S = bindE (DecodeBytes quote S) projectToResult"

fun validateResultChecks :: "(string \<Rightarrow> string) \<Rightarrow> nat \<Rightarrow> MinimalPlanCheck list \<Rightarrow> DecodeError option" where
  "validateResultChecks quote i [] = None"
| "validateResultChecks quote i (c # cs) =
     (if pk_ID c = '''' then Some (bareError ''missing_field'' (''checks['' @ itoa (int i) @ ''].id is required''))
      else if pk_Mode c \<noteq> ''run'' \<and> pk_Mode c \<noteq> ''exclude'' then
        Some (bareError ''invalid_mode''
          (''checks['' @ itoa (int i) @ ''].mode is '' @ quote (pk_Mode c) @ '' (expected run|exclude)''))
      else validateResultChecks quote (Suc i) cs)"

definition ValidateResult :: "(string \<Rightarrow> string) \<Rightarrow> DecodeResult \<Rightarrow> DecodeError option" where
  "ValidateResult quote result =
     (if dr_ContractVersion result \<noteq> ContractVersionV1 then
        Some (bareError ''unsupported_version''
          (''contract_version '' @ itoa (dr_ContractVersion result) @ '' is not supported (only '' @
           itoa ContractVersionV1 @ '' is)''))
      else if dr_Checks result = [] then
        Some (bareError ''missing_field'' ''checks is required and must be non-empty'')
      else validateResultChecks quote 0 (dr_Checks result))"

definition DecodeAndValidate :: "(string \<Rightarrow> string) \<Rightarrow> planSource \<Rightarrow> DecodeError + DecodeResult" where
  "DecodeAndValidate quote S =
     bindE (DecodeBytesToResult quote S) (\<lambda>result.
       case ValidateResult quote result of Some err \<Rightarrow> Inl err | None \<Rightarrow> Inr result)"

section \<open>Exactness of the scanner\<close>

fun distinctTree :: "json \<Rightarrow> bool" where
  "distinctTree (JObject ms) \<longleftrightarrow> distinct (map fst ms) \<and> list_all (\<lambda>(k, v). distinctTree v) ms"
| "distinctTree (JArray vs) \<longleftrightarrow> list_all distinctTree vs"
| "distinctTree _ \<longleftrightarrow> True"

lemma moreAt_simps [simp]:
  "\<not> moreAt S (TDelim ObjClose # ts)" "\<not> moreAt S (TDelim ArrClose # ts)" "moreAt S (TString s # ts)"
  "moreAt S (toks v @ ts)"
  by (auto simp: moreAt_def) (cases v; simp)+

text \<open>A result is the given value if the condition holds, and an error otherwise.\<close>

definition decides :: "bool \<Rightarrow> 'e + 'a \<Rightarrow> 'a \<Rightarrow> bool" where
  "decides ok r x \<longleftrightarrow> (if ok then r = Inr x else isl r)"

definition scansAll :: "(string \<Rightarrow> string) \<Rightarrow> planSource \<Rightarrow> json \<Rightarrow> bool" where
  "scansAll quote S v \<longleftrightarrow>
     (\<forall>rest. decides (distinctTree v) (scanStrictValue quote S (hd (toks v)) (tl (toks v) @ rest)) (v, rest))"

lemma scansAll_token:
  "scansAll quote S v \<Longrightarrow> toks v = t # ts \<Longrightarrow>
   decides (distinctTree v) (scanStrictValue quote S t (ts @ rest)) (v, rest)"
  by (simp add: scansAll_def)

text \<open>The members of an object, and the elements of an array, one after the other.\<close>

lemma strict_scan_members:
  assumes "\<forall>(k, v)\<in>set ms. scansAll quote S v"
  shows "decides (distinct (map fst ms) \<and> set (map fst ms) \<inter> set seen = {} \<and> list_all (\<lambda>(k, v). distinctTree v) ms)
    (scanStrictObject quote S seen out (memberToks ms @ TDelim ObjClose # rest)) (JObject (out @ ms), rest)"
  using assms
proof (induction ms arbitrary: seen out)
  case Nil
  then show ?case
    by (simp add: decides_def scanStrictObject.simps)
next
  case (Cons m ms)
  obtain k v where m: "m = (k, v)"
    by fastforce
  obtain t ts where t: "toks v = t # ts"
    by (cases "toks v") auto
  have v: "decides (distinctTree v) (scanStrictValue quote S t (ts @ r)) (v, r)" for r
    using Cons.prems m t by (auto intro: scansAll_token)
  show ?case
    using v [of "memberToks ms @ TDelim ObjClose # rest"] Cons.IH [of "k # seen" "out @ [(k, v)]"] Cons.prems
    by (cases "scanStrictValue quote S t (ts @ memberToks ms @ TDelim ObjClose # rest)")
      (auto simp: decides_def m t scanStrictObject.simps [of quote S seen] split: if_splits)
qed

lemma strict_scan_elements:
  assumes "\<forall>v\<in>set vs. scansAll quote S v"
  shows "decides (list_all distinctTree vs)
    (scanStrictArray quote S out (concat (map toks vs) @ TDelim ArrClose # rest)) (JArray (out @ vs), rest)"
  using assms
proof (induction vs arbitrary: out)
  case Nil
  then show ?case
    by (simp add: decides_def scanStrictArray.simps)
next
  case (Cons v vs)
  obtain t ts where t: "toks v = t # ts"
    by (cases "toks v") auto
  have v: "decides (distinctTree v) (scanStrictValue quote S t (ts @ r)) (v, r)" for r
    using Cons.prems t by (auto intro: scansAll_token)
  have m: "moreAt S (t # r)" for r
    using moreAt_simps(4) [of S v "[]"] by (simp add: t moreAt_def)
  show ?case
    using v [of "concat (map toks vs) @ TDelim ArrClose # rest"] Cons.IH [of "out @ [v]"] Cons.prems
    by (cases "scanStrictValue quote S t (ts @ concat (map toks vs) @ TDelim ArrClose # rest)")
      (auto simp: decides_def t m scanStrictArray.simps [of quote S out] split: if_splits)
qed

lemma strict_scan_value: "scansAll quote S v"
proof (induction v)
  case (JObject ms)
  then have "\<forall>(k, v)\<in>set ms. scansAll quote S v"
    by (force simp: snds.simps)
  from strict_scan_members [OF this, of "[]" "[]"] show ?case
    by (simp add: scansAll_def scanStrictValue.simps [of _ _ "TDelim ObjOpen"])
next
  case (JArray vs)
  then have "\<forall>v\<in>set vs. scansAll quote S v"
    by simp
  from strict_scan_elements [OF this, of "[]"] show ?case
    by (simp add: scansAll_def scanStrictValue.simps [of _ _ "TDelim ArrOpen"])
qed (simp_all add: scansAll_def decides_def scanStrictValue.simps scalarFromToken_def)

text \<open>What a scan accepts it accepts with any tokens after it.\<close>

lemma moreAt_append: "ts \<noteq> [] \<Longrightarrow> moreAt S (ts @ xs) \<longleftrightarrow> moreAt S ts"
  by (cases ts) (auto simp: moreAt_def)

lemma scanStrict_mono:
  "scanStrictValue quote S tok ts = Inr (v, rest) \<Longrightarrow> scanStrictValue quote S tok (ts @ xs) = Inr (v, rest @ xs)"
  "scanStrictObject quote S seen members ts = Inr (v, rest) \<Longrightarrow>
     scanStrictObject quote S seen members (ts @ xs) = Inr (v, rest @ xs)"
  "scanStrictArray quote S elems ts = Inr (v, rest) \<Longrightarrow>
     scanStrictArray quote S elems (ts @ xs) = Inr (v, rest @ xs)"
proof (induction quote S tok ts and quote S seen members ts and quote S elems ts arbitrary: v rest and v rest and v rest
    rule: scanStrictValue_scanStrictObject_scanStrictArray.induct)
  case (1 quote S tok ts)
  then show ?case
    by (auto simp: scanStrictValue.simps split: jsonToken.splits Delim.splits)
next
  case (2 quote S seen out ts)
  from "2.prems" show ?case
  proof (cases rule: scanStrictObject_cases)
    case (close t)
    then show ?thesis
      by (simp add: scanStrictObject.simps [of _ _ _ _ "_ # _"] moreAt_def)
  next
    case (member key vt ts' child ts'')
    then have "scanStrictValue quote S vt (ts' @ xs) = Inr (child, ts'' @ xs)"
      "scanStrictObject quote S (key # seen) (out @ [(key, child)]) (ts'' @ xs) = Inr (v, rest @ xs)"
      using "2.IH" by simp_all
    with member show ?thesis
      by (simp add: scanStrictObject.simps [of _ _ _ _ "_ # _"])
  qed
next
  case (3 quote S out ts)
  from "3.prems" show ?case
  proof (cases rule: scanStrictArray_cases)
    case (close t)
    then show ?thesis
      by (simp add: scanStrictArray.simps [of _ _ _ "_ # _"] moreAt_def)
  next
    case (elem t ts' child ts'')
    then have "scanStrictValue quote S t (ts' @ xs) = Inr (child, ts'' @ xs)"
      "scanStrictArray quote S (out @ [child]) (ts'' @ xs) = Inr (v, rest @ xs)"
      using "3.IH" by simp_all
    with elem show ?thesis
      using moreAt_append [of ts S xs] by (simp add: scanStrictArray.simps [of _ _ _ "_ # _"])
  qed
qed

definition planStream :: "planSource \<Rightarrow> bool" where
  "planStream S \<longleftrightarrow> decoderStream (tokenSource.truncate S)"

lemma planStream_prefix: "planStream S \<longleftrightarrow> (\<exists>vs. prefix (src_tokens S) (concat (map toks vs)))"
  by (simp add: planStream_def decoderStream_def tokenSource.truncate_def)

lemma scanStrictDocument_sound:
  assumes "planStream S" and "scanStrictDocument quote S = Inr (v, rest)"
  shows "src_tokens S = toks v @ rest \<and> distinctTree v"
proof -
  obtain t ts where ts: "src_tokens S = t # ts" and sc: "scanStrictValue quote S t ts = Inr (v, rest)"
    using assms(2) by (auto simp: scanStrictDocument_def split: list.splits)
  obtain vs xs where "concat (map toks vs) = (t # ts) @ xs"
    using assms(1) ts by (auto simp: planStream_prefix prefix_def)
  then obtain w ws where w: "toks w @ concat (map toks ws) = (t # ts) @ xs"
    by (cases vs) auto
  then obtain u where u: "toks w = t # u" and rest: "u @ concat (map toks ws) = ts @ xs"
    by (cases "toks w") auto
  have "decides (distinctTree w) (scanStrictValue quote S t (u @ concat (map toks ws))) (w, concat (map toks ws))"
    using strict_scan_value u by (rule scansAll_token)
  moreover have "scanStrictValue quote S t (ts @ xs) = Inr (v, rest @ xs)"
    using sc by (rule scanStrict_mono)
  ultimately have "distinctTree w" "w = v" "concat (map toks ws) = rest @ xs"
    using rest by (auto simp: decides_def split: if_splits)
  then show ?thesis
    using u rest ts by auto
qed

lemma scanStrictDocument_complete:
  "src_tokens S = toks v @ rest \<Longrightarrow> distinctTree v \<Longrightarrow> scanStrictDocument quote S = Inr (v, rest)"
  using scansAll_token [OF strict_scan_value] by (cases "toks v") (fastforce simp: scanStrictDocument_def decides_def)+

lemma DecodeBytes_iff:
  assumes "planStream S"
  shows "DecodeBytes quote S = Inr v \<longleftrightarrow>
    ps_length S \<noteq> 0 \<and> ps_length S \<le> MaxPlanBytes \<and> src_tokens S = toks v \<and> src_eof S \<and> distinctTree v"
proof -
  have "DecodeBytes quote S = Inr v \<longleftrightarrow> ps_length S \<noteq> 0 \<and> ps_length S \<le> MaxPlanBytes \<and> src_eof S \<and>
      scanStrictDocument quote S = Inr (v, [])"
    by (auto simp: DecodeBytes_def planRequireEOF_def split: sum.splits if_splits)
  then show ?thesis
    using scanStrictDocument_sound [OF assms, of quote v "[]"] scanStrictDocument_complete [of S v "[]" quote] by auto
qed

section \<open>Agreement of the scans for repeated names\<close>

lemma distinctTree_objectsAt:
  "(\<forall>(l, names)\<in>set (objectsAt loc v). distinct names) \<longleftrightarrow> distinctTree v"
  "(\<forall>(l, names)\<in>set (objectsIn loc i vs). distinct names) \<longleftrightarrow> list_all distinctTree vs"
proof (induction loc v and loc i vs rule: objectsAt_objectsIn.induct)
  case (1 loc ms)
  then show ?case
    by (fastforce simp: list_all_iff)
qed (auto simp: ball_Un)

lemma distinctTree_iff: "distinctTree v \<longleftrightarrow> distinctNames v"
  by (simp add: distinctNames_def distinctTree_objectsAt)

definition walksAll :: "(string \<Rightarrow> string) \<Rightarrow> planSource \<Rightarrow> json \<Rightarrow> bool" where
  "walksAll quote S v \<longleftrightarrow>
     (\<forall>path rest. case v of
        JObject _ \<Rightarrow> decides (distinctTree v) (walkObjectDupes quote S path [] (tl (toks v) @ rest)) rest
      | JArray _ \<Rightarrow> decides (distinctTree v) (walkArrayDupes quote S path (tl (toks v) @ rest)) rest
      | _ \<Rightarrow> True)"

lemma walk_members:
  assumes "\<forall>(k, v)\<in>set ms. walksAll quote S v"
  shows "decides (distinct (map fst ms) \<and> set (map fst ms) \<inter> set seen = {} \<and> list_all (\<lambda>(k, v). distinctTree v) ms)
    (walkObjectDupes quote S path seen (memberToks ms @ TDelim ObjClose # rest)) rest"
  using assms
proof (induction ms arbitrary: seen)
  case Nil
  then show ?case
    by (simp add: decides_def walkObjectDupes.simps)
next
  case (Cons m ms)
  obtain k v where m: "m = (k, v)"
    by fastforce
  have ih: "decides (distinct (map fst ms) \<and> set (map fst ms) \<inter> set (k # seen) = {} \<and> list_all (\<lambda>(k, v). distinctTree v) ms)
      (walkObjectDupes quote S path (k # seen) (memberToks ms @ TDelim ObjClose # rest)) rest"
    using Cons.prems by (intro Cons.IH) simp
  have v: "walksAll quote S v"
    using Cons.prems m by simp
  note unfold = walkObjectDupes.simps [of quote S path seen "TString k # l" for l]
  show ?case
  proof (cases v)
    case (JObject os)
    then show ?thesis
      using v [unfolded walksAll_def, rule_format, of "planJoinPath path k" "memberToks ms @ TDelim ObjClose # rest"] ih
      by (auto simp: decides_def m unfold split: if_splits sum.splits)
  next
    case (JArray vs)
    then show ?thesis
      using v [unfolded walksAll_def, rule_format, of "planJoinPath path k" "memberToks ms @ TDelim ObjClose # rest"] ih
      by (auto simp: decides_def m unfold split: if_splits sum.splits)
  qed (use ih in \<open>auto simp: decides_def m unfold split: if_splits\<close>)
qed

lemma walk_elements:
  assumes "\<forall>v\<in>set vs. walksAll quote S v"
  shows "decides (list_all distinctTree vs)
    (walkArrayDupes quote S path (concat (map toks vs) @ TDelim ArrClose # rest)) rest"
  using assms
proof (induction vs)
  case Nil
  then show ?case
    by (simp add: decides_def walkArrayDupes.simps)
next
  case (Cons v vs)
  then have ih: "decides (list_all distinctTree vs)
      (walkArrayDupes quote S path (concat (map toks vs) @ TDelim ArrClose # rest)) rest"
    and v: "walksAll quote S v"
    by simp_all
  note unfold = walkArrayDupes.simps [of quote S path "t # l" for t l]
  show ?case
  proof (cases v)
    case (JObject os)
    then show ?thesis
      using v [unfolded walksAll_def, rule_format, of path "concat (map toks vs) @ TDelim ArrClose # rest"] ih
      by (auto simp: decides_def moreAt_def unfold split: if_splits sum.splits)
  next
    case (JArray ws)
    then show ?thesis
      using v [unfolded walksAll_def, rule_format, of path "concat (map toks vs) @ TDelim ArrClose # rest"] ih
      by (auto simp: decides_def moreAt_def unfold split: if_splits sum.splits)
  qed (use ih in \<open>auto simp: decides_def moreAt_def unfold split: if_splits\<close>)
qed

lemma walk_value: "walksAll quote S v"
proof (induction v)
  case (JObject ms)
  then have "\<forall>(k, v)\<in>set ms. walksAll quote S v"
    by (force simp: snds.simps)
  from walk_members [OF this, of "[]"] show ?case
    by (simp add: walksAll_def)
next
  case (JArray vs)
  then have "\<forall>v\<in>set vs. walksAll quote S v"
    by simp
  from walk_elements [OF this] show ?case
    by (simp add: walksAll_def)
qed (simp_all add: walksAll_def)

lemma scanDuplicates_iff: "src_tokens S = toks v @ rest \<Longrightarrow> scanDuplicates quote S = None \<longleftrightarrow> distinctTree v"
  using walk_value [of quote S v, unfolded walksAll_def, rule_format, of "[]" rest]
  by (cases v) (auto simp: scanDuplicates_def decides_def split: if_splits sum.splits)

section \<open>Properties\<close>

definition tinySource :: planSource where
  "tinySource =
     \<lparr>src_tokens = toks (JObject [(''a'', JArray [JNull]), (''b'', JObject [(''a'', JBool True)])]), src_eof = True,
      ps_length = 27, ps_more = False, ps_tokenErr = ''EOF'', ps_decodeErr = ''EOF''\<rparr>"

text \<open>
  C32. On whatever tokens a decoder can deliver, cut short or not, \<open>DecodeBytes\<close> succeeds exactly
  on a non-empty document of at most one mebibyte that is one complete JSON value with nothing
  after it and without repeated member names at any depth, and the value it returns is that
  document.  Every refusal has the code \<open>invalid_json\<close> or \<open>trailing_value\<close>.
\<close>

theorem plan_document_read_exactly:
  assumes "planStream S"
  shows "(DecodeBytes quote S = Inr v \<longleftrightarrow>
      ps_length S \<noteq> 0 \<and> ps_length S \<le> 2 ^ 20 \<and> src_tokens S = toks v \<and> src_eof S \<and> distinctNames v) \<and>
    (\<forall>e. DecodeBytes quote S = Inl e \<longrightarrow> de_Code e \<in> {''invalid_json'', ''trailing_value''})"
  using DecodeBytes_iff [OF assms, of quote v]
  by (auto simp: MaxPlanBytes_def distinctTree_iff DecodeBytes_def planRequireEOF_def bareError_def
      split: sum.splits if_splits)

lemma plan_document_read_exactly_witness:
  "DecodeBytes id tinySource = Inr (JObject [(''a'', JArray [JNull]), (''b'', JObject [(''a'', JBool True)])])"
proof -
  have "planStream tinySource"
    unfolding planStream_prefix
    by (rule exI [of _ "[JObject [(''a'', JArray [JNull]), (''b'', JObject [(''a'', JBool True)])]]"])
      (simp add: tinySource_def)
  from plan_document_read_exactly [OF this, of id "JObject [(''a'', JArray [JNull]), (''b'', JObject [(''a'', JBool True)])]"]
  show ?thesis
    unfolding distinctTree_iff [symmetric] by (simp add: tinySource_def)
qed

text \<open>
  The three programs that look for repeated member names agree on every document: the
  scanner of the plan reader accepts exactly when the second pass of \<open>StrictDecode\<close> finds no
  repetition, and exactly when the frame-stack scanner of the gate-summary reader reports none.
\<close>

theorem repeated_names_agree:
  assumes "src_tokens S = toks v @ rest"
  shows "(isl (scanStrictDocument quote S) \<longleftrightarrow> scanDuplicates quote S \<noteq> None) \<and>
    (scanDuplicates quote S = None \<longleftrightarrow> detectDuplicateKeys \<lparr>src_tokens = src_tokens S, src_eof = e\<rparr> = [])"
proof -
  obtain t ts where t: "toks v = t # ts"
    by (cases "toks v") auto
  then have "decides (distinctTree v) (scanStrictDocument quote S) (v, rest)"
    using scansAll_token [OF strict_scan_value t, of quote S rest] assms by (simp add: scanStrictDocument_def)
  then have "isl (scanStrictDocument quote S) \<longleftrightarrow> \<not> distinctTree v"
    by (auto simp: decides_def split: if_splits)
  moreover have "detectDuplicateKeys \<lparr>src_tokens = src_tokens S, src_eof = e\<rparr> = [] \<longleftrightarrow> distinctTree v"
    unfolding assms detectDuplicateKeys_exact distinctTree_iff duplicateSpec_Nil_iff [symmetric]
    by (simp add: sortedDuplicateHits_def)
  ultimately show ?thesis
    using scanDuplicates_iff [OF assms, of quote] by simp
qed

lemma repeated_names_agree_witness:
  "\<not> isl (scanStrictDocument id tinySource) \<and> scanDuplicates id tinySource = None \<and>
   detectDuplicateKeys \<lparr>src_tokens = src_tokens tinySource, src_eof = True\<rparr> = []"
proof -
  have t: "src_tokens tinySource = toks (JObject [(''a'', JArray [JNull]), (''b'', JObject [(''a'', JBool True)])]) @ []"
    by (simp add: tinySource_def)
  then have "scanDuplicates id tinySource = None"
    by (simp add: scanDuplicates_iff [OF t])
  with repeated_names_agree [OF t, of id True] show ?thesis
    by simp
qed

text \<open>\<open>DecodeBytes\<close> is documented to require an object; it returns any value.\<close>

lemma scalar_document_decoded:
  "DecodeBytes quote \<lparr>src_tokens = [TNumber n], src_eof = True, ps_length = int (length n) + 1, ps_more = False,
     ps_tokenErr = ''EOF'', ps_decodeErr = ''EOF''\<rparr> = Inr (JNumber n)" if "length n \<le> 100"
  using that
  by (simp add: DecodeBytes_def scanStrictDocument_def scanStrictValue.simps scalarFromToken_def planRequireEOF_def
      MaxPlanBytes_def)

end
