(* ===== verification/Plan_Validate.thy ===== *)
theory Plan_Validate
  imports Plan_Scan Go_Path
begin

text \<open>
  The semantic rules of Plan Contract documents
  (\<open>internal/factory/closure/plancontract/plancontract_full*.go\<close>): limits, patterns, the
  detection of placeholders, and one validator per section of the document.

  A validator returns the first error it meets; \<open>None\<close> is \<open>nil\<close>.  The order in which Go
  visits the members of a map is the argument \<open>iter\<close>.
\<close>

section \<open>Limits and patterns\<close>

definition MaxChecks :: int where
  "MaxChecks = 4096"

definition MaxArtifacts :: int where
  "MaxArtifacts = 4096"

definition MaxArgvElements :: int where
  "MaxArgvElements = 16"

definition MaxEnvironmentEntries :: int where
  "MaxEnvironmentEntries = 32"

definition MaxCheckTimeoutSeconds :: int where
  "MaxCheckTimeoutSeconds = 600"

definition isUpperLetter :: "char \<Rightarrow> bool" where
  "isUpperLetter c \<longleftrightarrow> CHR ''A'' \<le> c \<and> c \<le> CHR ''Z''"

definition isLowerLetter :: "char \<Rightarrow> bool" where
  "isLowerLetter c \<longleftrightarrow> CHR ''a'' \<le> c \<and> c \<le> CHR ''z''"

definition isLowerHexDigit :: "char \<Rightarrow> bool" where
  "isLowerHexDigit c \<longleftrightarrow> isDigit c \<or> CHR ''a'' \<le> c \<and> c \<le> CHR ''f''"

text \<open>The regular expressions, which are anchored at both ends.\<close>

definition ActIDPattern :: "string \<Rightarrow> bool" where
  "ActIDPattern s \<longleftrightarrow>
     prefix ''ACT-'' s \<and>
     (let r = drop 4 s in
        3 \<le> length r \<and> length r \<le> 200 \<and> (isUpperLetter (hd r) \<or> isDigit (hd r)) \<and>
        list_all (\<lambda>c. isUpperLetter c \<or> isDigit c \<or> c = CHR ''-'') (tl r))"

definition ItemIDPattern :: "string \<Rightarrow> bool" where
  "ItemIDPattern s \<longleftrightarrow>
     1 \<le> length s \<and> length s \<le> 128 \<and> (isLowerLetter (hd s) \<or> isDigit (hd s)) \<and>
     list_all (\<lambda>c. isLowerLetter c \<or> isDigit c \<or> c = CHR ''.'' \<or> c = CHR ''_'' \<or> c = CHR ''-'') (tl s)"

definition OIDPattern :: "string \<Rightarrow> bool" where
  "OIDPattern s \<longleftrightarrow> (length s = 40 \<or> length s = 64) \<and> list_all isLowerHexDigit s"

definition lowercaseHex64Pattern :: "string \<Rightarrow> bool" where
  "lowercaseHex64Pattern s \<longleftrightarrow> length s = 64 \<and> list_all isLowerHexDigit s"

definition EnvironmentNamePattern :: "string \<Rightarrow> bool" where
  "EnvironmentNamePattern s \<longleftrightarrow>
     s \<noteq> [] \<and> (isUpperLetter (hd s) \<or> isLowerLetter (hd s) \<or> hd s = CHR ''_'') \<and>
     list_all (\<lambda>c. isUpperLetter c \<or> isLowerLetter c \<or> isDigit c \<or> c = CHR ''_'') (tl s)"

section \<open>Placeholders\<close>

text \<open>
  \<open>strings.ToUpper\<close> and \<open>strings.ToLower\<close> as far as a comparison with ASCII text can see them.
  Besides the ASCII letters, the characters with an ASCII upper case are U+0131 and U+017F, those
  with an ASCII lower case U+0130 and U+212A.  The bytes of all other characters, whose upper
  and lower case is not ASCII, are kept.
\<close>

definition asciiUpper :: "char \<Rightarrow> char" where
  "asciiUpper c = (if isLowerLetter c then char_of ((of_char c :: nat) - 32) else c)"

definition asciiLower :: "char \<Rightarrow> char" where
  "asciiLower c = (if isUpperLetter c then char_of ((of_char c :: nat) + 32) else c)"

fun upperText :: "string \<Rightarrow> string" where
  "upperText [] = []"
| "upperText [c] = [asciiUpper c]"
| "upperText (c # d # s) =
     (if c = char_of (0xC4 :: nat) \<and> d = char_of (0xB1 :: nat) then CHR ''I'' # upperText s
      else if c = char_of (0xC5 :: nat) \<and> d = char_of (0xBF :: nat) then CHR ''S'' # upperText s
      else asciiUpper c # upperText (d # s))"

fun lowerText :: "string \<Rightarrow> string" where
  "lowerText [] = []"
| "lowerText (c # s) =
     (if c = char_of (0xC4 :: nat) \<and> take 1 s = [char_of (0xB0 :: nat)] then CHR ''i'' # lowerText (drop 1 s)
      else if c = char_of (0xE2 :: nat) \<and> take 2 s = [char_of (0x84 :: nat), char_of (0xAA :: nat)]
      then CHR ''k'' # lowerText (drop 2 s)
      else asciiLower c # lowerText s)"

definition exactClosurePlaceholders :: "string list" where
  "exactClosurePlaceholders = [''TBD'', ''TODO'', ''UNKNOWN'', ''RUNNING'', ''TO BE RECORDED'']"

definition embeddedClosurePlaceholders :: "string list" where
  "embeddedClosurePlaceholders = [''(SEE GIT REV-PARSE)'', ''<COMMIT>'', ''<TREE>'', ''<HASH>'']"

definition containsClosurePlaceholder :: "string \<Rightarrow> bool" where
  "containsClosurePlaceholder value =
     (let normalized = upperText (trimSpace value) in
        normalized \<in> set exactClosurePlaceholders \<or>
        list_ex (\<lambda>marker. containsStr marker normalized) embeddedClosurePlaceholders)"

definition trimSpaceLower :: "string \<Rightarrow> string" where
  "trimSpaceLower s = lowerText (trimSpace s)"

section \<open>Errors\<close>

definition fieldError :: "string \<Rightarrow> string \<Rightarrow> string \<Rightarrow> string \<Rightarrow> DecodeError" where
  "fieldError code field pointer message =
     \<lparr>de_Code = code, de_Field = field, de_InstancePath = pointer, de_Message = message\<rparr>"

text \<open>The sequence \<open>if err := a; err != nil { return err }; return b\<close>, and a loop of such calls.\<close>

definition orErr :: "'e option \<Rightarrow> 'e option \<Rightarrow> 'e option" where
  "orErr a b = (case a of Some e \<Rightarrow> Some e | None \<Rightarrow> b)"

fun firstErr :: "('a \<Rightarrow> 'e option) \<Rightarrow> 'a list \<Rightarrow> 'e option" where
  "firstErr f [] = None"
| "firstErr f (x # xs) = orErr (f x) (firstErr f xs)"

named_theorems accepted_iff

lemma orErr_None [accepted_iff]: "orErr a b = None \<longleftrightarrow> a = None \<and> b = None"
  by (cases a) (auto simp: orErr_def)

lemma firstErr_None [accepted_iff]: "firstErr f xs = None \<longleftrightarrow> (\<forall>x\<in>set xs. f x = None)"
  by (induction xs) (auto simp: orErr_None)

section \<open>Paths and texts\<close>

definition containsNulByte :: "string \<Rightarrow> bool" where
  "containsNulByte s \<longleftrightarrow> nulChar \<in> set s"

definition errInvalidRepoPath :: "string \<Rightarrow> DecodeError" where
  "errInvalidRepoPath msg = bareError ''invalid_repo_path'' msg"

definition validateRepositoryRelativePath :: "string \<Rightarrow> bool \<Rightarrow> bool \<Rightarrow> DecodeError option" where
  "validateRepositoryRelativePath path allowDot allowAbs =
     (if path = '''' \<or> containsNulByte path \<or> containsClosurePlaceholder path then
        Some (errInvalidRepoPath ''must be a non-empty repository-relative path'')
      else if isAbs path then
        Some (errInvalidRepoPath ''must be a non-empty repository-relative path'')
      else let clean = cleanPath path in
        if clean = ''.'' \<and> allowDot then None
        else if clean = ''.'' \<or> clean = ''..'' \<or> prefix ''../'' clean then
          Some (errInvalidRepoPath ''must not escape the repository'')
        else if clean \<noteq> path then Some (errInvalidRepoPath ''must be lexically clean'')
        else None)"

definition isValidExcludeReason :: "string \<Rightarrow> bool" where
  "isValidExcludeReason reason =
     (if trimSpace reason = '''' then False
      else if crChar \<in> set reason \<or> nlChar \<in> set reason then False
      else if length reason > 240 then False
      else if containsClosurePlaceholder reason then False
      else True)"

section \<open>The root fields\<close>

definition validateContractVersion :: "(string \<Rightarrow> string) \<Rightarrow> (string \<times> json) list \<Rightarrow> DecodeError option" where
  "validateContractVersion quote obj =
     (let err = (\<lambda>code message. Some (fieldError code ''contract_version'' ''/contract_version'' message)) in
      case map_of obj ''contract_version'' of
        None \<Rightarrow> err ''missing_field'' ''contract_version is required''
      | Some (JNumber n) \<Rightarrow>
          (case numberInt64 n of
             None \<Rightarrow> err ''invalid_type'' (''contract_version '' @ quote n @ '' is not an integer'')
           | Some iv \<Rightarrow>
               if iv \<noteq> ContractVersionV1 then
                 err ''unsupported_version'' (''contract_version '' @ itoa iv @ '' is not supported (only '' @
                   itoa ContractVersionV1 @ '' is)'')
               else None)
      | Some _ \<Rightarrow> err ''invalid_type'' ''contract_version must be a JSON number'')"

definition validateActIDMap :: "(string \<Rightarrow> string) \<Rightarrow> (string \<times> json) list \<Rightarrow> DecodeError option" where
  "validateActIDMap quote obj =
     (case strMember obj ''act_id'' of
        None \<Rightarrow> Some (fieldError ''missing_field'' ''act_id'' ''/act_id'' ''act_id is required'')
      | Some actID \<Rightarrow>
          if \<not> ActIDPattern actID \<or> containsClosurePlaceholder actID then
            Some (fieldError ''invalid_act_id'' ''act_id'' ''/act_id'' (''act_id '' @ quote actID @ '' is invalid''))
          else None)"

definition validateBaselineField ::
  "(string \<Rightarrow> string) \<Rightarrow> (string \<times> json) list \<Rightarrow> string \<Rightarrow> DecodeError option" where
  "validateBaselineField quote baseline field =
     (let err = (\<lambda>code message. Some (fieldError code (''baseline.'' @ field) (''/baseline/'' @ field) message)) in
      case strMember baseline field of
        None \<Rightarrow> err ''missing_field'' (''baseline.'' @ field @ '' is required'')
      | Some v \<Rightarrow>
          if containsClosurePlaceholder v then
            err ''baseline_oid_placeholder'' (''baseline.'' @ field @ '' '' @ quote v @ '' contains a closure placeholder'')
          else if \<not> OIDPattern v then
            err ''invalid_baseline_oid''
              (''baseline.'' @ field @ '' '' @ quote v @ '' is not a valid 40- or 64-character hex OID'')
          else None)"

definition validateBaselineMap :: "(string \<Rightarrow> string) \<Rightarrow> (string \<times> json) list \<Rightarrow> DecodeError option" where
  "validateBaselineMap quote baseline = firstErr (validateBaselineField quote baseline) [''commit_oid'', ''tree_oid'']"

definition validateBaselineRequired :: "(string \<Rightarrow> string) \<Rightarrow> (string \<times> json) list \<Rightarrow> DecodeError option" where
  "validateBaselineRequired quote obj =
     (case objMember obj ''baseline'' of
        None \<Rightarrow> Some (fieldError ''missing_field'' ''baseline'' ''/baseline'' ''baseline is required'')
      | Some baseline \<Rightarrow> validateBaselineMap quote baseline)"

definition validateExecutionMap :: "(string \<Rightarrow> string) \<Rightarrow> (string \<times> json) list \<Rightarrow> DecodeError option" where
  "validateExecutionMap quote execution =
     (let err = (\<lambda>code message. Some (fieldError code ''execution.mode'' ''/execution/mode'' message));
          rawMode = map_of execution ''mode'' in
      if rawMode = None \<or> rawMode = Some JNull then err ''missing_field'' ''execution.mode is required''
      else case strMember execution ''mode'' of
        None \<Rightarrow> err ''invalid_type'' ''execution.mode is not a string''
      | Some mode \<Rightarrow>
          let trimmed = trimSpaceLower mode in
          if trimmed = '''' then err ''invalid_mode'' ''execution.mode is empty or whitespace''
          else if trimmed \<noteq> ''serial_fail_fast'' then
            err ''invalid_mode'' (''execution.mode '' @ quote trimmed @
              '' is not in the closed enum (only serial_fail_fast)'')
          else None)"

definition validateExecutionRequired :: "(string \<Rightarrow> string) \<Rightarrow> (string \<times> json) list \<Rightarrow> DecodeError option" where
  "validateExecutionRequired quote obj =
     (case objMember obj ''execution'' of
        None \<Rightarrow> Some (fieldError ''missing_field'' ''execution'' ''/execution'' ''execution is required'')
      | Some execution \<Rightarrow> validateExecutionMap quote execution)"

section \<open>Checks\<close>

text \<open>\<open>checks[i].name\<close> and \<open>/checks/i/name\<close>.\<close>

definition itemField :: "string \<Rightarrow> nat \<Rightarrow> string \<Rightarrow> string" where
  "itemField section i name = section @ ''['' @ itoa (int i) @ ''].'' @ name"

definition itemPointer :: "string \<Rightarrow> nat \<Rightarrow> string \<Rightarrow> string" where
  "itemPointer section i name = ''/'' @ section @ ''/'' @ itoa (int i) @ ''/'' @ name"

definition itemError :: "string \<Rightarrow> string \<Rightarrow> nat \<Rightarrow> string \<Rightarrow> string \<Rightarrow> DecodeError" where
  "itemError code section i name message =
     fieldError code (itemField section i name) (itemPointer section i name) message"

text \<open>The loop over \<open>argv\<close>.\<close>

fun validateArgv :: "(string \<Rightarrow> string) \<Rightarrow> nat \<Rightarrow> nat \<Rightarrow> json list \<Rightarrow> DecodeError option" where
  "validateArgv quote index argIndex [] = None"
| "validateArgv quote index argIndex (raw # argv) =
     (let field = itemField ''checks'' index ''argv'' @ ''['' @ itoa (int argIndex) @ '']'';
          pointer = itemPointer ''checks'' index ''argv'' @ ''/'' @ itoa (int argIndex) in
      case raw of
        JString arg \<Rightarrow>
          if arg = '''' \<or> containsNulByte arg \<or> containsClosurePlaceholder arg then
            Some (fieldError ''invalid_argv_element'' field pointer (field @ '' '' @ quote arg @ '' is invalid''))
          else validateArgv quote index (Suc argIndex) argv
      | _ \<Rightarrow> Some (fieldError ''invalid_type'' field pointer (field @ '' is not a string'')))"

text \<open>The body of the loop over \<open>environment\<close>.\<close>

definition validateEnvEntry :: "(string \<Rightarrow> string) \<Rightarrow> nat \<Rightarrow> string \<times> json \<Rightarrow> DecodeError option" where
  "validateEnvEntry quote index entry =
     (case entry of (name, rawValue) \<Rightarrow>
        let field = itemField ''checks'' index ''environment'' @ ''.'' @ name;
            pointer = itemPointer ''checks'' index ''environment'' @ ''/'' @ name in
        if \<not> EnvironmentNamePattern name then
          Some (fieldError ''invalid_env_name'' field pointer
            (itemField ''checks'' index ''environment'' @ '' key '' @ quote name @ '' is invalid''))
        else case rawValue of
          JString value \<Rightarrow>
            if containsNulByte value then
              Some (fieldError ''invalid_env_value'' field pointer
                (itemField ''checks'' index ''environment'' @ ''['' @ quote name @ ''] is invalid''))
            else None
        | _ \<Rightarrow> Some (fieldError ''invalid_env_value'' field pointer
              (itemField ''checks'' index ''environment'' @ ''['' @ quote name @ ''] is invalid'')))"

text \<open>The successive parts of \<open>validateRunnableCheckMap\<close>, one per member of the check.\<close>

definition runnableArgv :: "(string \<Rightarrow> string) \<Rightarrow> nat \<Rightarrow> (string \<times> json) list \<Rightarrow> DecodeError option" where
  "runnableArgv quote index check =
     (let err = (\<lambda>code message. Some (itemError code ''checks'' index ''argv''
            (itemField ''checks'' index ''argv'' @ message))) in
      case map_of check ''argv'' of
        None \<Rightarrow> err ''missing_field'' '' is required''
      | Some (JArray argv) \<Rightarrow>
          if argv = [] then err ''missing_field'' '' is empty''
          else if int (length argv) > MaxArgvElements then
            err ''invalid_argv_count'' ('' count '' @ itoa (int (length argv)) @ '' exceeds '' @ itoa MaxArgvElements)
          else validateArgv quote index 0 argv
      | Some _ \<Rightarrow> err ''invalid_type'' '' is not an array'')"

definition runnableDirectory :: "(string \<Rightarrow> string) \<Rightarrow> nat \<Rightarrow> (string \<times> json) list \<Rightarrow> DecodeError option" where
  "runnableDirectory quote index check =
     (let err = (\<lambda>code message. Some (itemError code ''checks'' index ''working_directory''
            (itemField ''checks'' index ''working_directory'' @ message))) in
      case strMember check ''working_directory'' of
        None \<Rightarrow> err ''missing_field'' '' is required''
      | Some wd \<Rightarrow>
          (case validateRepositoryRelativePath wd True False of
             Some e \<Rightarrow> err ''invalid_working_directory'' ('' '' @ quote wd @ '' is invalid: '' @ decodeErrorText e)
           | None \<Rightarrow> None))"

definition runnableTimeout :: "nat \<Rightarrow> (string \<times> json) list \<Rightarrow> DecodeError option" where
  "runnableTimeout index check =
     (let err = (\<lambda>code message. Some (itemError code ''checks'' index ''timeout_seconds''
            (itemField ''checks'' index ''timeout_seconds'' @ message))) in
      case map_of check ''timeout_seconds'' of
        None \<Rightarrow> err ''missing_field'' '' is required''
      | Some (JNumber timeoutN) \<Rightarrow>
          (case numberInt64 timeoutN of
             None \<Rightarrow> err ''invalid_type'' '' is not an integer''
           | Some timeout \<Rightarrow>
               if timeout < 1 \<or> timeout > MaxCheckTimeoutSeconds then
                 err ''invalid_timeout'' ('' '' @ itoa timeout @ '' is not in [1, '' @ itoa MaxCheckTimeoutSeconds @ '']'')
               else None)
      | Some _ \<Rightarrow> err ''invalid_type'' '' is not a number'')"

definition runnableEnvironment ::
  "(string \<Rightarrow> string) \<Rightarrow> ((string \<times> json) list \<Rightarrow> (string \<times> json) list) \<Rightarrow> nat \<Rightarrow> (string \<times> json) list \<Rightarrow>
   DecodeError option" where
  "runnableEnvironment quote iter index check =
     (let err = (\<lambda>code message. Some (itemError code ''checks'' index ''environment''
            (itemField ''checks'' index ''environment'' @ message))) in
      case map_of check ''environment'' of
        None \<Rightarrow> err ''missing_field'' '' is required''
      | Some (JObject env) \<Rightarrow>
          if int (length env) > MaxEnvironmentEntries then
            err ''too_many_env_entries''
              ('' count '' @ itoa (int (length env)) @ '' exceeds '' @ itoa MaxEnvironmentEntries)
          else firstErr (validateEnvEntry quote index) (iter env)
      | Some _ \<Rightarrow> err ''invalid_type'' '' is not an object'')"

definition runnableReason :: "nat \<Rightarrow> (string \<times> json) list \<Rightarrow> DecodeError option" where
  "runnableReason index check =
     (if stringFromMap check ''reason'' \<noteq> '''' then
        Some (itemError ''runnable_check_with_reason'' ''checks'' index ''reason''
          (''checks['' @ itoa (int index) @ ''] is run-mode but carries a reason''))
      else None)"

definition validateRunnableCheckMap ::
  "(string \<Rightarrow> string) \<Rightarrow> ((string \<times> json) list \<Rightarrow> (string \<times> json) list) \<Rightarrow> nat \<Rightarrow> (string \<times> json) list \<Rightarrow>
   DecodeError option" where
  "validateRunnableCheckMap quote iter index check =
     orErr (runnableArgv quote index check)
      (orErr (runnableDirectory quote index check)
        (orErr (runnableTimeout index check)
          (orErr (runnableEnvironment quote iter index check)
            (runnableReason index check))))"

definition validateExcludeCheckMap ::
  "(string \<Rightarrow> string) \<Rightarrow> nat \<Rightarrow> (string \<times> json) list \<Rightarrow> DecodeError option" where
  "validateExcludeCheckMap quote index check =
     (let runOnly = (\<lambda>name. Some (itemError ''exclude_with_run_only_field'' ''checks'' index name
            (''checks['' @ itoa (int index) @ ''] is exclude-mode but carries '' @ name))) in
      case strMember check ''reason'' of
        None \<Rightarrow> Some (itemError ''missing_field'' ''checks'' index ''reason''
          (itemField ''checks'' index ''reason'' @ '' is required for exclude mode''))
      | Some reason \<Rightarrow>
          if \<not> isValidExcludeReason reason then
            Some (itemError ''invalid_reason'' ''checks'' index ''reason''
              (itemField ''checks'' index ''reason'' @ '' '' @ quote reason @ '' is invalid''))
          else if (case map_of check ''argv'' of Some (JArray arr) \<Rightarrow> arr \<noteq> [] | _ \<Rightarrow> False) then runOnly ''argv''
          else if stringFromMap check ''working_directory'' \<noteq> '''' then runOnly ''working_directory''
          else if intMember check ''timeout_seconds'' \<noteq> 0 then runOnly ''timeout_seconds''
          else if (case map_of check ''environment'' of Some (JObject env) \<Rightarrow> env \<noteq> [] | _ \<Rightarrow> False)
          then runOnly ''environment''
          else None)"

text \<open>
  \<open>validateCheckMap\<close> extends the set of names seen before it looks at the mode; the set is used
  again only after success, so the result carries it on the right.
\<close>

definition validateCheckMap ::
  "(string \<Rightarrow> string) \<Rightarrow> ((string \<times> json) list \<Rightarrow> (string \<times> json) list) \<Rightarrow> nat \<Rightarrow> json \<Rightarrow> string list \<Rightarrow>
   DecodeError + string list" where
  "validateCheckMap quote iter index raw seenIDs =
     (case raw of
        JObject check \<Rightarrow>
          let id = stringFromMap check ''id'';
              done = (\<lambda>r. case r of Some e \<Rightarrow> Inl e | None \<Rightarrow> Inr (id # seenIDs)) in
          if id = '''' then
            Inl (itemError ''missing_field'' ''checks'' index ''id'' (itemField ''checks'' index ''id'' @ '' is required''))
          else if \<not> ItemIDPattern id \<or> containsClosurePlaceholder id then
            Inl (itemError ''invalid_check_id'' ''checks'' index ''id''
              (itemField ''checks'' index ''id'' @ '' '' @ quote id @ '' is invalid''))
          else if id \<in> set seenIDs then
            Inl (itemError ''duplicate_check_id'' ''checks'' index ''id''
              (''duplicate check id '' @ quote id @ '' at checks['' @ itoa (int index) @ '']''))
          else
            let mode = stringFromMap check ''mode'' in
            if mode = ''run'' then done (validateRunnableCheckMap quote iter index check)
            else if mode = ''exclude'' then done (validateExcludeCheckMap quote index check)
            else Inl (itemError ''invalid_mode'' ''checks'' index ''mode''
              (itemField ''checks'' index ''mode'' @ '' '' @ quote mode @ '' is not run|exclude''))
      | _ \<Rightarrow> Inl (fieldError ''invalid_type'' (''checks['' @ itoa (int index) @ '']'') (''/checks/'' @ itoa (int index))
            (''checks['' @ itoa (int index) @ ''] is not an object'')))"

fun validateCheckMaps ::
  "(string \<Rightarrow> string) \<Rightarrow> ((string \<times> json) list \<Rightarrow> (string \<times> json) list) \<Rightarrow> nat \<Rightarrow> json list \<Rightarrow> string list \<Rightarrow>
   DecodeError option" where
  "validateCheckMaps quote iter i [] seenIDs = None"
| "validateCheckMaps quote iter i (raw # checks) seenIDs =
     (case validateCheckMap quote iter i raw seenIDs of
        Inl e \<Rightarrow> Some e
      | Inr seenIDs \<Rightarrow> validateCheckMaps quote iter (Suc i) checks seenIDs)"

definition validateChecksRequired ::
  "(string \<Rightarrow> string) \<Rightarrow> ((string \<times> json) list \<Rightarrow> (string \<times> json) list) \<Rightarrow> (string \<times> json) list \<Rightarrow>
   DecodeError option" where
  "validateChecksRequired quote iter obj =
     (let err = (\<lambda>code message. Some (fieldError code ''checks'' ''/checks'' message)) in
      case map_of obj ''checks'' of
        None \<Rightarrow> err ''missing_field'' ''checks is required''
      | Some (JArray checks) \<Rightarrow>
          if checks = [] then err ''missing_field'' ''checks must be non-empty''
          else if int (length checks) > MaxChecks then
            err ''too_many_checks'' (''checks count '' @ itoa (int (length checks)) @ '' exceeds '' @ itoa MaxChecks)
          else validateCheckMaps quote iter 0 checks []
      | Some _ \<Rightarrow> err ''invalid_type'' ''checks is not an array'')"

section \<open>Artifacts\<close>

definition artifactPath :: "(string \<Rightarrow> string) \<Rightarrow> nat \<Rightarrow> (string \<times> json) list \<Rightarrow> DecodeError option" where
  "artifactPath quote index artifact =
     (let err = (\<lambda>code message. Some (itemError code ''artifacts'' index ''path''
            (itemField ''artifacts'' index ''path'' @ message))) in
      case strMember artifact ''path'' of
        None \<Rightarrow> err ''missing_field'' '' is required''
      | Some path \<Rightarrow>
          (case validateRepositoryRelativePath path False False of
             Some e \<Rightarrow> err ''invalid_artifact_path'' ('' '' @ quote path @ '' is invalid: '' @ decodeErrorText e)
           | None \<Rightarrow> None))"

definition artifactRequired :: "nat \<Rightarrow> (string \<times> json) list \<Rightarrow> DecodeError option" where
  "artifactRequired index artifact =
     (let err = (\<lambda>code message. Some (itemError code ''artifacts'' index ''required''
            (itemField ''artifacts'' index ''required'' @ message))) in
      case map_of artifact ''required'' of
        None \<Rightarrow> err ''missing_field'' '' is required''
      | Some (JBool b) \<Rightarrow> None
      | Some _ \<Rightarrow> err ''invalid_type'' '' must be a boolean'')"

definition artifactMaxBytes :: "nat \<Rightarrow> (string \<times> json) list \<Rightarrow> DecodeError option" where
  "artifactMaxBytes index artifact =
     (let err = (\<lambda>code message. Some (itemError code ''artifacts'' index ''max_bytes''
            (itemField ''artifacts'' index ''max_bytes'' @ message))) in
      case map_of artifact ''max_bytes'' of
        None \<Rightarrow> err ''missing_field'' '' is required''
      | Some (JNumber maxN) \<Rightarrow>
          if (case numberInt64 maxN of None \<Rightarrow> True | Some maxIv \<Rightarrow> maxIv \<le> 0) then
            err ''invalid_max_bytes'' ('' '' @ maxN @ '' is not a positive integer'')
          else None
      | Some _ \<Rightarrow> err ''invalid_type'' '' is not a number'')"

definition artifactMediaType :: "nat \<Rightarrow> (string \<times> json) list \<Rightarrow> DecodeError option" where
  "artifactMediaType index artifact =
     (if (case strMember artifact ''media_type'' of
            None \<Rightarrow> True
          | Some mediaType \<Rightarrow> trimSpace mediaType = '''' \<or> containsClosurePlaceholder mediaType)
      then Some (itemError ''invalid_media_type'' ''artifacts'' index ''media_type''
        (itemField ''artifacts'' index ''media_type'' @ '' is invalid''))
      else None)"

definition validateArtifactMap ::
  "(string \<Rightarrow> string) \<Rightarrow> nat \<Rightarrow> json \<Rightarrow> string list \<Rightarrow> DecodeError + string list" where
  "validateArtifactMap quote index raw seenIDs =
     (case raw of
        JObject artifact \<Rightarrow>
          let id = stringFromMap artifact ''id'' in
          if id = '''' then
            Inl (itemError ''missing_field'' ''artifacts'' index ''id''
              (itemField ''artifacts'' index ''id'' @ '' is required''))
          else if \<not> ItemIDPattern id \<or> containsClosurePlaceholder id then
            Inl (itemError ''invalid_artifact_id'' ''artifacts'' index ''id''
              (itemField ''artifacts'' index ''id'' @ '' '' @ quote id @ '' is invalid''))
          else if id \<in> set seenIDs then
            Inl (itemError ''duplicate_artifact_id'' ''artifacts'' index ''id''
              (''duplicate artifact id '' @ quote id @ '' at artifacts['' @ itoa (int index) @ '']''))
          else
            (case orErr (artifactPath quote index artifact)
               (orErr (artifactRequired index artifact)
                 (orErr (artifactMaxBytes index artifact) (artifactMediaType index artifact))) of
               Some e \<Rightarrow> Inl e
             | None \<Rightarrow> Inr (id # seenIDs))
      | _ \<Rightarrow> Inl (fieldError ''invalid_type'' (''artifacts['' @ itoa (int index) @ '']'')
            (''/artifacts/'' @ itoa (int index)) (''artifacts['' @ itoa (int index) @ ''] is not an object'')))"

fun validateArtifactMaps :: "(string \<Rightarrow> string) \<Rightarrow> nat \<Rightarrow> json list \<Rightarrow> string list \<Rightarrow> DecodeError option" where
  "validateArtifactMaps quote i [] seenIDs = None"
| "validateArtifactMaps quote i (raw # artifacts) seenIDs =
     (case validateArtifactMap quote i raw seenIDs of
        Inl e \<Rightarrow> Some e
      | Inr seenIDs \<Rightarrow> validateArtifactMaps quote (Suc i) artifacts seenIDs)"

definition validateArtifactsOptional :: "(string \<Rightarrow> string) \<Rightarrow> (string \<times> json) list \<Rightarrow> DecodeError option" where
  "validateArtifactsOptional quote obj =
     (let err = (\<lambda>code message. Some (fieldError code ''artifacts'' ''/artifacts'' message)) in
      case map_of obj ''artifacts'' of
        None \<Rightarrow> None
      | Some JNull \<Rightarrow> None
      | Some (JArray artifacts) \<Rightarrow>
          if int (length artifacts) > MaxArtifacts then
            err ''too_many_artifacts''
              (''artifacts count '' @ itoa (int (length artifacts)) @ '' exceeds '' @ itoa MaxArtifacts)
          else validateArtifactMaps quote 0 artifacts []
      | Some _ \<Rightarrow> err ''invalid_type'' ''artifacts is not an array'')"

section \<open>Policy\<close>

definition policyRequiredFields :: "string list" where
  "policyRequiredFields =
     [''require_clean_before'', ''require_clean_after'', ''forbid_tracked_full_digests'', ''require_diff_check'']"

definition policyError :: "string \<Rightarrow> string \<Rightarrow> string \<Rightarrow> DecodeError" where
  "policyError code key message =
     fieldError code (''policy.'' @ key) (''/policy/'' @ key) (''policy.'' @ key @ message)"

definition validatePolicyField :: "(string \<times> json) list \<Rightarrow> string \<Rightarrow> DecodeError option" where
  "validatePolicyField policy key =
     (case map_of policy key of
        None \<Rightarrow> Some (policyError ''missing_field'' key '' is required'')
      | Some (JBool b) \<Rightarrow> if \<not> b then Some (policyError ''policy_required_true'' key '' must be true'') else None
      | Some _ \<Rightarrow> Some (policyError ''invalid_policy_constraint'' key '' must be a boolean''))"

definition validatePolicyMap ::
  "((string \<times> json) list \<Rightarrow> (string \<times> json) list) \<Rightarrow> (string \<times> json) list \<Rightarrow> DecodeError option" where
  "validatePolicyMap iter policy =
     orErr (firstErr (validatePolicyField policy) policyRequiredFields)
       (firstErr (\<lambda>(key, v).
          if key \<notin> set policyRequiredFields
          then Some (policyError ''invalid_policy_field'' key '' is not a known policy field'') else None)
        (iter policy))"

definition validatePolicyRequired ::
  "((string \<times> json) list \<Rightarrow> (string \<times> json) list) \<Rightarrow> (string \<times> json) list \<Rightarrow> DecodeError option" where
  "validatePolicyRequired iter obj =
     (case map_of obj ''policy'' of
        None \<Rightarrow> Some (fieldError ''missing_field'' ''policy'' ''/policy'' ''policy is required'')
      | Some JNull \<Rightarrow> Some (fieldError ''missing_field'' ''policy'' ''/policy'' ''policy is required'')
      | Some (JObject policy) \<Rightarrow> validatePolicyMap iter policy
      | Some _ \<Rightarrow> Some (fieldError ''invalid_type'' ''policy'' ''/policy'' ''policy is not an object''))"

section \<open>Runner authority\<close>

definition toolError :: "string \<Rightarrow> string \<Rightarrow> string \<Rightarrow> DecodeError" where
  "toolError code name message =
     fieldError code (''runner_authority.tool.'' @ name) (''/runner_authority/tool/'' @ name)
       (''runner_authority.tool.'' @ name @ message)"

definition toolRevision :: "(string \<times> json) list \<Rightarrow> DecodeError option" where
  "toolRevision tool =
     (let revision = stringFromMap tool ''revision'' in
      if revision = '''' then Some (toolError ''missing_field'' ''revision'' '' is required'')
      else if \<not> OIDPattern revision \<or> containsClosurePlaceholder revision then
        Some (toolError ''invalid_tool_revision'' ''revision'' '' is not a valid 40- or 64-character lowercase hex OID'')
      else None)"

definition toolSHA256 :: "(string \<times> json) list \<Rightarrow> DecodeError option" where
  "toolSHA256 tool =
     (let sha = stringFromMap tool ''binary_sha256'' in
      if sha = '''' then Some (toolError ''missing_field'' ''binary_sha256'' '' is required'')
      else if \<not> lowercaseHex64Pattern sha then
        Some (toolError ''invalid_tool_sha256'' ''binary_sha256''
          '' is not a 64-character lowercase hexadecimal string'')
      else None)"

text \<open>The optional identities, and the optional texts.\<close>

definition toolOptionalOID :: "(string \<times> json) list \<Rightarrow> string \<Rightarrow> string \<Rightarrow> DecodeError option" where
  "toolOptionalOID tool code name =
     (if (case map_of tool name of
            None \<Rightarrow> False
          | Some (JString s) \<Rightarrow> s \<noteq> '''' \<and> \<not> OIDPattern s
          | Some _ \<Rightarrow> True)
      then Some (toolError code name '' must be a 40- or 64-character lowercase hexadecimal string'')
      else None)"

definition toolOptionalText :: "(string \<times> json) list \<Rightarrow> string \<Rightarrow> string \<Rightarrow> DecodeError option" where
  "toolOptionalText tool code name =
     (case map_of tool name of
        None \<Rightarrow> None
      | Some (JString s) \<Rightarrow> None
      | Some _ \<Rightarrow> Some (toolError code name '' must be a JSON string''))"

definition validateToolBlock :: "(string \<times> json) list \<Rightarrow> DecodeError option" where
  "validateToolBlock tool =
     orErr (toolRevision tool)
      (orErr (toolSHA256 tool)
        (orErr (toolOptionalOID tool ''invalid_tool_tree_oid'' ''tree_oid'')
          (orErr (toolOptionalOID tool ''invalid_tool_tag_object_oid'' ''tag_object_oid'')
            (orErr (toolOptionalText tool ''invalid_tool_version_type'' ''version'')
              (toolOptionalText tool ''invalid_tool_tag_name_type'' ''tag_name'')))))"

text \<open>\<open>hasToolBlock\<close> and \<open>toolBlock\<close>.\<close>

definition toolBlock :: "(string \<times> json) list \<Rightarrow> (string \<times> json) list option" where
  "toolBlock ra = objMember ra ''tool''"

definition hasToolBlock :: "(string \<times> json) list \<Rightarrow> bool" where
  "hasToolBlock ra \<longleftrightarrow> toolBlock ra \<noteq> None"

definition validateRunnerAuthorityMap :: "(string \<Rightarrow> string) \<Rightarrow> (string \<times> json) list \<Rightarrow> DecodeError option" where
  "validateRunnerAuthorityMap quote ra =
     (case strMember ra ''mode'' of
        None \<Rightarrow> Some (fieldError ''missing_field'' ''runner_authority.mode'' ''/runner_authority/mode''
          ''runner_authority.mode is required'')
      | Some mode \<Rightarrow>
          if mode = ''subject_exact'' then
            (if hasToolBlock ra then
               Some (fieldError ''subject_exact_with_tool'' ''runner_authority.tool'' ''/runner_authority/tool''
                 ''runner_authority.subject_exact must not carry a tool block'')
             else None)
          else if mode = ''tool_release_exact'' then
            (case toolBlock ra of
               None \<Rightarrow> Some (fieldError ''missing_field'' ''runner_authority.tool'' ''/runner_authority/tool''
                 ''runner_authority.tool_release_exact requires a tool block'')
             | Some tool \<Rightarrow> validateToolBlock tool)
          else Some (fieldError ''invalid_runner_authority_mode'' ''runner_authority.mode'' ''/runner_authority/mode''
            (''runner_authority.mode '' @ quote mode @ '' is not subject_exact|tool_release_exact'')))"

definition validateRunnerAuthorityOptional ::
  "(string \<Rightarrow> string) \<Rightarrow> (string \<times> json) list \<Rightarrow> DecodeError option" where
  "validateRunnerAuthorityOptional quote obj =
     (case map_of obj ''runner_authority'' of
        None \<Rightarrow> None
      | Some JNull \<Rightarrow> None
      | Some (JObject ra) \<Rightarrow> validateRunnerAuthorityMap quote ra
      | Some _ \<Rightarrow> Some (fieldError ''invalid_type'' ''runner_authority'' ''/runner_authority''
          ''runner_authority is not an object''))"

definition rootNotObject :: DecodeError where
  "rootNotObject = bareError ''invalid_json'' ''root is not a JSON object''"

definition ValidateRunnerAuthorityBytes :: "(string \<Rightarrow> string) \<Rightarrow> planSource \<Rightarrow> DecodeError option" where
  "ValidateRunnerAuthorityBytes quote S =
     (case DecodeBytes quote S of
        Inl err \<Rightarrow> Some err
      | Inr (JObject obj) \<Rightarrow> validateRunnerAuthorityOptional quote obj
      | Inr _ \<Rightarrow> Some rootNotObject)"

section \<open>The whole document\<close>

definition ValidateFullMap ::
  "(string \<Rightarrow> string) \<Rightarrow> ((string \<times> json) list \<Rightarrow> (string \<times> json) list) \<Rightarrow> (string \<times> json) list \<Rightarrow>
   DecodeError option" where
  "ValidateFullMap quote iter obj =
     orErr (validateContractVersion quote obj)
      (orErr (validateActIDMap quote obj)
        (orErr (validateBaselineRequired quote obj)
          (orErr (validateExecutionRequired quote obj)
            (orErr (validateChecksRequired quote iter obj)
              (orErr (validateArtifactsOptional quote obj)
                (orErr (validatePolicyRequired iter obj)
                  (validateRunnerAuthorityOptional quote obj)))))))"

text \<open>\<open>ValidatePolicyBytes\<close>; the result of \<open>json.Unmarshal\<close> is an argument.\<close>

definition ValidatePolicyBytes ::
  "((string \<times> json) list \<Rightarrow> (string \<times> json) list) \<Rightarrow> string + (string \<times> json) list \<Rightarrow> DecodeError option" where
  "ValidatePolicyBytes iter unmarshalled =
     (case unmarshalled of
        Inl err \<Rightarrow> Some (bareError ''invalid_json'' err)
      | Inr policy \<Rightarrow> validatePolicyMap iter policy)"

end
