(* ===== verification/Plan_Project.thy ===== *)
theory Plan_Project
  imports Plan_Validate Closure_Results
begin

text \<open>
  The typed projection of an accepted plan (\<open>plancontract_validated.go\<close>) and the entry points of
  \<open>plancontract_full.go\<close>.  The specification is a well-formedness condition on typed plans and an
  encoding of typed plans as documents: the reader accepts only documents that project to a
  well-formed plan, and it reads every well-formed plan back from its encoding.
\<close>

section \<open>Typed plans\<close>

record PlanBaseline =
  bl_CommitOID :: string
  bl_TreeOID :: string

record PlanContractCheck =
  kc_ID :: string
  kc_Mode :: string
  kc_Argv :: "string list"
  kc_WorkingDirectory :: string
  kc_TimeoutSeconds :: int
  kc_Environment :: "(string \<times> string) list"
  kc_Reason :: string

record PlanArtifact =
  af_ID :: string
  af_Path :: string
  af_Required :: "bool option"
  af_MaxBytes :: int
  af_MediaType :: string

record PlanPolicy =
  po_RequireCleanBefore :: "bool option"
  po_RequireCleanAfter :: "bool option"
  po_ForbidTrackedFullDigests :: "bool option"
  po_RequireDiffCheck :: "bool option"

record ToolAuthority =
  ta_Revision :: string
  ta_TreeOID :: string
  ta_BinarySHA256 :: string
  ta_Version :: string
  ta_TagName :: string
  ta_TagObjectOID :: string

record RunnerAuthority =
  ra_Mode :: string
  ra_Tool :: "ToolAuthority option"

record ValidatedPlan =
  vp_ContractVersion :: int
  vp_ActID :: string
  vp_Baseline :: PlanBaseline
  vp_ExecutionMode :: string
  vp_Checks :: "PlanContractCheck list"
  vp_Artifacts :: "PlanArtifact list"
  vp_Policy :: PlanPolicy
  vp_RunnerAuthority :: "RunnerAuthority option"

section \<open>Projection\<close>

text \<open>The members of a list that have the asserted type; the others are skipped.\<close>

fun stringsOf :: "json list \<Rightarrow> string list" where
  "stringsOf [] = []"
| "stringsOf (JString s # vs) = s # stringsOf vs"
| "stringsOf (_ # vs) = stringsOf vs"

fun objectsOf :: "json list \<Rightarrow> (string \<times> json) list list" where
  "objectsOf [] = []"
| "objectsOf (JObject ms # vs) = ms # objectsOf vs"
| "objectsOf (_ # vs) = objectsOf vs"

fun stringPairs :: "(string \<times> json) list \<Rightarrow> (string \<times> string) list" where
  "stringPairs [] = []"
| "stringPairs ((k, JString s) # ms) = (k, s) # stringPairs ms"
| "stringPairs (_ # ms) = stringPairs ms"

definition arrMember :: "(string \<times> json) list \<Rightarrow> string \<Rightarrow> json list" where
  "arrMember obj k = (case map_of obj k of Some (JArray vs) \<Rightarrow> vs | _ \<Rightarrow> [])"

definition boolMember :: "(string \<times> json) list \<Rightarrow> string \<Rightarrow> bool option" where
  "boolMember obj k = (case map_of obj k of Some (JBool b) \<Rightarrow> Some b | _ \<Rightarrow> None)"

definition projectCheck :: "(string \<times> json) list \<Rightarrow> PlanContractCheck" where
  "projectCheck entry =
     \<lparr>kc_ID = stringFromMap entry ''id'', kc_Mode = stringFromMap entry ''mode'',
      kc_Argv = stringsOf (arrMember entry ''argv''),
      kc_WorkingDirectory = stringFromMap entry ''working_directory'',
      kc_TimeoutSeconds = intMember entry ''timeout_seconds'',
      kc_Environment = (case objMember entry ''environment'' of Some env \<Rightarrow> stringPairs env | None \<Rightarrow> []),
      kc_Reason = stringFromMap entry ''reason''\<rparr>"

definition projectArtifact :: "(string \<times> json) list \<Rightarrow> PlanArtifact" where
  "projectArtifact entry =
     \<lparr>af_ID = stringFromMap entry ''id'', af_Path = stringFromMap entry ''path'',
      af_Required = boolMember entry ''required'', af_MaxBytes = intMember entry ''max_bytes'',
      af_MediaType = stringFromMap entry ''media_type''\<rparr>"

definition projectPolicyMap :: "(string \<times> json) list \<Rightarrow> PlanPolicy" where
  "projectPolicyMap obj =
     \<lparr>po_RequireCleanBefore = boolMember obj ''require_clean_before'',
      po_RequireCleanAfter = boolMember obj ''require_clean_after'',
      po_ForbidTrackedFullDigests = boolMember obj ''forbid_tracked_full_digests'',
      po_RequireDiffCheck = boolMember obj ''require_diff_check''\<rparr>"

definition projectTool :: "(string \<times> json) list \<Rightarrow> ToolAuthority" where
  "projectTool tm =
     \<lparr>ta_Revision = stringFromMap tm ''revision'', ta_TreeOID = stringFromMap tm ''tree_oid'',
      ta_BinarySHA256 = stringFromMap tm ''binary_sha256'', ta_Version = stringFromMap tm ''version'',
      ta_TagName = stringFromMap tm ''tag_name'', ta_TagObjectOID = stringFromMap tm ''tag_object_oid''\<rparr>"

definition projectAuthority :: "(string \<times> json) list \<Rightarrow> RunnerAuthority" where
  "projectAuthority ram =
     \<lparr>ra_Mode = stringFromMap ram ''mode'', ra_Tool = map_option projectTool (objMember ram ''tool'')\<rparr>"

definition zeroPolicy :: PlanPolicy where
  "zeroPolicy = \<lparr>po_RequireCleanBefore = None, po_RequireCleanAfter = None,
     po_ForbidTrackedFullDigests = None, po_RequireDiffCheck = None\<rparr>"

definition projectToValidatedPlan :: "(string \<times> json) list \<Rightarrow> ValidatedPlan" where
  "projectToValidatedPlan obj =
     \<lparr>vp_ContractVersion = intMember obj ''contract_version'',
      vp_ActID = stringFromMap obj ''act_id'',
      vp_Baseline = (case objMember obj ''baseline'' of
          Some baseline \<Rightarrow> \<lparr>bl_CommitOID = stringFromMap baseline ''commit_oid'',
                           bl_TreeOID = stringFromMap baseline ''tree_oid''\<rparr>
        | None \<Rightarrow> \<lparr>bl_CommitOID = '''', bl_TreeOID = ''''\<rparr>),
      vp_ExecutionMode = (case objMember obj ''execution'' of
          Some execution \<Rightarrow> (case strMember execution ''mode'' of Some v \<Rightarrow> trimSpaceLower v | None \<Rightarrow> '''')
        | None \<Rightarrow> ''''),
      vp_Checks = map projectCheck (objectsOf (arrMember obj ''checks'')),
      vp_Artifacts = map projectArtifact (objectsOf (arrMember obj ''artifacts'')),
      vp_Policy = (case objMember obj ''policy'' of Some policy \<Rightarrow> projectPolicyMap policy | None \<Rightarrow> zeroPolicy),
      vp_RunnerAuthority = map_option projectAuthority (objMember obj ''runner_authority'')\<rparr>"

definition DecodeAndValidateFull ::
  "(string \<Rightarrow> string) \<Rightarrow> ((string \<times> json) list \<Rightarrow> (string \<times> json) list) \<Rightarrow> planSource \<Rightarrow> DecodeError + ValidatedPlan" where
  "DecodeAndValidateFull quote iter S =
     (case DecodeBytes quote S of
        Inl err \<Rightarrow> Inl err
      | Inr (JObject obj) \<Rightarrow>
          (case ValidateFullMap quote iter obj of
             Some err \<Rightarrow> Inl err
           | None \<Rightarrow> Inr (projectToValidatedPlan obj))
      | Inr _ \<Rightarrow> Inl rootNotObject)"

definition ValidateFull ::
  "(string \<Rightarrow> string) \<Rightarrow> ((string \<times> json) list \<Rightarrow> (string \<times> json) list) \<Rightarrow> planSource \<Rightarrow> DecodeError option" where
  "ValidateFull quote iter S =
     (case DecodeAndValidateFull quote iter S of Inl err \<Rightarrow> Some err | Inr _ \<Rightarrow> None)"

definition ValidateFullAndProject ::
  "(string \<Rightarrow> string) \<Rightarrow> ((string \<times> json) list \<Rightarrow> (string \<times> json) list) \<Rightarrow> planSource \<Rightarrow> DecodeError + DecodeResult" where
  "ValidateFullAndProject quote iter S =
     (case DecodeBytes quote S of
        Inl err \<Rightarrow> Inl err
      | Inr (JObject obj) \<Rightarrow>
          (case ValidateFullMap quote iter obj of
             Some err \<Rightarrow> Inl err
           | None \<Rightarrow> projectToResult (JObject obj))
      | Inr _ \<Rightarrow> Inl rootNotObject)"

section \<open>Well-formed plans\<close>

definition planName :: "string \<Rightarrow> bool" where
  "planName s \<longleftrightarrow> ItemIDPattern s \<and> \<not> containsClosurePlaceholder s"

definition planOID :: "string \<Rightarrow> bool" where
  "planOID s \<longleftrightarrow> OIDPattern s \<and> \<not> containsClosurePlaceholder s"

definition planPath :: "bool \<Rightarrow> string \<Rightarrow> bool" where
  "planPath allowDot p \<longleftrightarrow>
     p \<noteq> '''' \<and> \<not> containsNulByte p \<and> \<not> containsClosurePlaceholder p \<and> \<not> isAbs p \<and>
     (allowDot \<and> cleanPath p = ''.'' \<or>
      cleanPath p = p \<and> p \<noteq> ''.'' \<and> p \<noteq> ''..'' \<and> \<not> prefix ''../'' p)"

definition planArg :: "string \<Rightarrow> bool" where
  "planArg a \<longleftrightarrow> a \<noteq> '''' \<and> \<not> containsNulByte a \<and> \<not> containsClosurePlaceholder a"

definition runCheckOK :: "PlanContractCheck \<Rightarrow> bool" where
  "runCheckOK c \<longleftrightarrow>
     kc_Mode c = ''run'' \<and> kc_Reason c = '''' \<and>
     kc_Argv c \<noteq> [] \<and> length (kc_Argv c) \<le> 16 \<and> list_all planArg (kc_Argv c) \<and>
     planPath True (kc_WorkingDirectory c) \<and> 1 \<le> kc_TimeoutSeconds c \<and> kc_TimeoutSeconds c \<le> 600 \<and>
     length (kc_Environment c) \<le> 32 \<and> distinct (map fst (kc_Environment c)) \<and>
     list_all (\<lambda>(k, v). EnvironmentNamePattern k \<and> \<not> containsNulByte v) (kc_Environment c)"

definition excludedCheckOK :: "PlanContractCheck \<Rightarrow> bool" where
  "excludedCheckOK c \<longleftrightarrow>
     kc_Mode c = ''exclude'' \<and> isValidExcludeReason (kc_Reason c) \<and> kc_Argv c = [] \<and>
     kc_WorkingDirectory c = '''' \<and> kc_TimeoutSeconds c = 0 \<and> kc_Environment c = []"

definition checkOK :: "PlanContractCheck \<Rightarrow> bool" where
  "checkOK c \<longleftrightarrow> planName (kc_ID c) \<and> (runCheckOK c \<or> excludedCheckOK c)"

definition artifactOK :: "PlanArtifact \<Rightarrow> bool" where
  "artifactOK a \<longleftrightarrow>
     planName (af_ID a) \<and> planPath False (af_Path a) \<and> af_Required a \<noteq> None \<and>
     0 < af_MaxBytes a \<and> af_MaxBytes a < 2 ^ 63 \<and>
     trimSpace (af_MediaType a) \<noteq> '''' \<and> \<not> containsClosurePlaceholder (af_MediaType a)"

definition toolOK :: "ToolAuthority \<Rightarrow> bool" where
  "toolOK t \<longleftrightarrow>
     planOID (ta_Revision t) \<and> lowercaseHex64Pattern (ta_BinarySHA256 t) \<and>
     (ta_TreeOID t = '''' \<or> OIDPattern (ta_TreeOID t)) \<and>
     (ta_TagObjectOID t = '''' \<or> OIDPattern (ta_TagObjectOID t))"

definition authorityOK :: "RunnerAuthority \<Rightarrow> bool" where
  "authorityOK a \<longleftrightarrow>
     ra_Mode a = ''subject_exact'' \<and> ra_Tool a = None \<or>
     ra_Mode a = ''tool_release_exact'' \<and> (\<exists>t. ra_Tool a = Some t \<and> toolOK t)"

lemma authorityOK_code [code]:
  "authorityOK a \<longleftrightarrow>
     (case ra_Tool a of
        None \<Rightarrow> ra_Mode a = ''subject_exact''
      | Some t \<Rightarrow> ra_Mode a = ''tool_release_exact'' \<and> toolOK t)"
  by (auto simp: authorityOK_def split: option.splits)

definition planOK :: "ValidatedPlan \<Rightarrow> bool" where
  "planOK p \<longleftrightarrow>
     vp_ContractVersion p = 1 \<and> ActIDPattern (vp_ActID p) \<and> \<not> containsClosurePlaceholder (vp_ActID p) \<and>
     planOID (bl_CommitOID (vp_Baseline p)) \<and> planOID (bl_TreeOID (vp_Baseline p)) \<and>
     vp_ExecutionMode p = ''serial_fail_fast'' \<and>
     vp_Checks p \<noteq> [] \<and> length (vp_Checks p) \<le> 4096 \<and> list_all checkOK (vp_Checks p) \<and>
     distinct (map kc_ID (vp_Checks p)) \<and>
     length (vp_Artifacts p) \<le> 4096 \<and> list_all artifactOK (vp_Artifacts p) \<and>
     distinct (map af_ID (vp_Artifacts p)) \<and>
     vp_Policy p = \<lparr>po_RequireCleanBefore = Some True, po_RequireCleanAfter = Some True,
       po_ForbidTrackedFullDigests = Some True, po_RequireDiffCheck = Some True\<rparr> \<and>
     (\<forall>a\<in>set_option (vp_RunnerAuthority p). authorityOK a)"

section \<open>What the validators accept\<close>

text \<open>A \<open>range\<close> over a map visits every member once, in some order.\<close>

definition rangeOrder :: "((string \<times> json) list \<Rightarrow> (string \<times> json) list) \<Rightarrow> bool" where
  "rangeOrder iter \<longleftrightarrow> (\<forall>ms. mset (iter ms) = mset ms)"

lemma rangeOrder_set: "rangeOrder iter \<Longrightarrow> set (iter ms) = set ms"
  unfolding rangeOrder_def by (metis set_mset_mset)

lemma strMember_Some: "strMember obj k = Some s \<longleftrightarrow> map_of obj k = Some (JString s)"
  by (auto simp: strMember_def split: option.splits json.splits)

lemma objMember_Some: "objMember obj k = Some ms \<longleftrightarrow> map_of obj k = Some (JObject ms)"
  by (auto simp: objMember_def split: option.splits json.splits)

lemma stringFromMap_eq: "s \<noteq> '''' \<Longrightarrow> stringFromMap obj k = s \<longleftrightarrow> map_of obj k = Some (JString s)"
  by (auto simp: stringFromMap_def strMember_def split: option.splits json.splits)

lemma member_values:
  "map_of obj k = Some (JString s) \<Longrightarrow> stringFromMap obj k = s"
  "map_of obj k = Some (JNumber n) \<Longrightarrow> numberInt64 n = Some i \<Longrightarrow> intMember obj k = i"
  "map_of obj k = Some (JBool b) \<Longrightarrow> boolMember obj k = Some b"
  "map_of obj k = Some (JArray vs) \<Longrightarrow> arrMember obj k = vs"
  "map_of obj k = Some (JObject ms) \<Longrightarrow> objMember obj k = Some ms"
  by (simp_all add: stringFromMap_def strMember_def intMember_def boolMember_def arrMember_def objMember_def)

lemma validateContractVersion_None [accepted_iff]:
  "validateContractVersion quote obj = None \<longleftrightarrow>
   (\<exists>n. map_of obj ''contract_version'' = Some (JNumber n) \<and> numberInt64 n = Some 1)"
  by (auto simp: validateContractVersion_def ContractVersionV1_def Let_def split: option.splits json.splits if_splits)

lemma validateActIDMap_None [accepted_iff]:
  "validateActIDMap quote obj = None \<longleftrightarrow>
   (\<exists>s. map_of obj ''act_id'' = Some (JString s) \<and> ActIDPattern s \<and> \<not> containsClosurePlaceholder s)"
  by (auto simp: validateActIDMap_def strMember_def split: option.splits json.splits)

lemma validateBaselineField_None [accepted_iff]:
  "validateBaselineField quote baseline f = None \<longleftrightarrow> (\<exists>s. map_of baseline f = Some (JString s) \<and> planOID s)"
  by (auto simp: validateBaselineField_def strMember_def planOID_def Let_def split: option.splits json.splits)

lemma validateBaselineRequired_None [accepted_iff]:
  "validateBaselineRequired quote obj = None \<longleftrightarrow>
   (\<exists>ms c t. map_of obj ''baseline'' = Some (JObject ms) \<and> map_of ms ''commit_oid'' = Some (JString c) \<and> planOID c \<and>
      map_of ms ''tree_oid'' = Some (JString t) \<and> planOID t)"
  by (auto simp: validateBaselineRequired_def validateBaselineMap_def objMember_def accepted_iff
      split: option.splits json.splits)

lemma validateExecutionRequired_None [accepted_iff]:
  "validateExecutionRequired quote obj = None \<longleftrightarrow>
   (\<exists>ms m. map_of obj ''execution'' = Some (JObject ms) \<and> map_of ms ''mode'' = Some (JString m) \<and>
      trimSpaceLower m = ''serial_fail_fast'')"
  by (auto simp: validateExecutionRequired_def validateExecutionMap_def objMember_def strMember_def Let_def
      split: option.splits json.splits if_splits)

lemma validateRepositoryRelativePath_None [accepted_iff]:
  "validateRepositoryRelativePath p allowDot allowAbs = None \<longleftrightarrow> planPath allowDot p"
  by (auto simp: validateRepositoryRelativePath_def planPath_def Let_def)

lemma validateArgv_None [accepted_iff]:
  "validateArgv quote index i vs = None \<longleftrightarrow> vs = map JString (stringsOf vs) \<and> list_all planArg (stringsOf vs)"
  by (induction quote index i vs rule: validateArgv.induct)
    (auto simp: planArg_def Let_def split: json.splits)

lemma validateEnvEntry_None [accepted_iff]:
  "validateEnvEntry quote index e = None \<longleftrightarrow>
   (\<exists>k s. e = (k, JString s) \<and> EnvironmentNamePattern k \<and> \<not> containsNulByte s)"
  by (auto simp: validateEnvEntry_def Let_def split: prod.splits json.splits)

lemma env_entries:
  "(\<forall>e\<in>set ms. \<exists>k s. e = (k, JString s) \<and> EnvironmentNamePattern k \<and> \<not> containsNulByte s) \<longleftrightarrow>
   ms = map (map_prod id JString) (stringPairs ms) \<and>
   list_all (\<lambda>(k, v). EnvironmentNamePattern k \<and> \<not> containsNulByte v) (stringPairs ms)"
  by (induction ms rule: stringPairs.induct) auto

lemma length_stringPairs: "ms = map (map_prod id JString) (stringPairs ms) \<Longrightarrow> length (stringPairs ms) = length ms"
  by (metis length_map)

lemma fst_stringPairs: "ms = map (map_prod id JString) (stringPairs ms) \<Longrightarrow> map fst (stringPairs ms) = map fst ms"
  by (metis (no_types, lifting) fst_map_prod id_apply length_map map_equality_iff nth_map)

lemma length_stringsOf: "vs = map JString (stringsOf vs) \<Longrightarrow> length (stringsOf vs) = length vs"
  by (metis length_map)

lemma runnableArgv_None [accepted_iff]:
  "runnableArgv quote index check = None \<longleftrightarrow>
   (\<exists>vs. map_of check ''argv'' = Some (JArray vs) \<and> vs \<noteq> [] \<and> length vs \<le> 16 \<and>
      vs = map JString (stringsOf vs) \<and> list_all planArg (stringsOf vs))"
  by (auto simp: runnableArgv_def MaxArgvElements_def Let_def accepted_iff split: option.splits json.splits if_splits)

lemma runnableDirectory_None [accepted_iff]:
  "runnableDirectory quote index check = None \<longleftrightarrow>
   (\<exists>wd. map_of check ''working_directory'' = Some (JString wd) \<and> planPath True wd)"
  unfolding validateRepositoryRelativePath_None [of _ True False, symmetric]
  by (auto simp: runnableDirectory_def strMember_def Let_def split: option.splits json.splits)

lemma runnableTimeout_None [accepted_iff]:
  "runnableTimeout index check = None \<longleftrightarrow>
   (\<exists>n t. map_of check ''timeout_seconds'' = Some (JNumber n) \<and> numberInt64 n = Some t \<and> 1 \<le> t \<and> t \<le> 600)"
  by (auto simp: runnableTimeout_def MaxCheckTimeoutSeconds_def Let_def split: option.splits json.splits if_splits)

lemma runnableEnvironment_None:
  "rangeOrder iter \<Longrightarrow> runnableEnvironment quote iter index check = None \<longleftrightarrow>
   (\<exists>ms. map_of check ''environment'' = Some (JObject ms) \<and> length ms \<le> 32 \<and>
      ms = map (map_prod id JString) (stringPairs ms) \<and>
      list_all (\<lambda>(k, v). EnvironmentNamePattern k \<and> \<not> containsNulByte v) (stringPairs ms))"
  by (auto simp: runnableEnvironment_def MaxEnvironmentEntries_def Let_def accepted_iff rangeOrder_set env_entries
      split: option.splits json.splits if_splits)

lemma runnableReason_None [accepted_iff]: "runnableReason index check = None \<longleftrightarrow> stringFromMap check ''reason'' = ''''"
  by (simp add: runnableReason_def)

lemma distinctTree_member:
  "distinctTree (JObject obj) \<Longrightarrow> map_of obj k = Some v \<Longrightarrow> distinctTree v"
  by (auto simp: list_all_iff dest!: map_of_SomeD)

lemma validateRunnableCheckMap_sound:
  assumes "rangeOrder iter" and "distinctTree (JObject check)" and "stringFromMap check ''mode'' = ''run''"
    and "validateRunnableCheckMap quote iter index check = None"
  shows "runCheckOK (projectCheck check)"
proof -
  obtain vs wd n t ms where "map_of check ''argv'' = Some (JArray vs)" "vs \<noteq> []" "length vs \<le> 16"
      "vs = map JString (stringsOf vs)" "list_all planArg (stringsOf vs)"
      "map_of check ''working_directory'' = Some (JString wd)" "planPath True wd"
      "map_of check ''timeout_seconds'' = Some (JNumber n)" "numberInt64 n = Some t" "1 \<le> t" "t \<le> 600"
      and ms: "map_of check ''environment'' = Some (JObject ms)" "length ms \<le> 32"
      "ms = map (map_prod id JString) (stringPairs ms)"
      "list_all (\<lambda>(k, v). EnvironmentNamePattern k \<and> \<not> containsNulByte v) (stringPairs ms)"
      and "stringFromMap check ''reason'' = ''''"
    using assms(4) unfolding validateRunnableCheckMap_def
    by (auto simp: accepted_iff runnableEnvironment_None [OF assms(1)])
  moreover have "distinct (map fst ms)"
    using distinctTree_member [OF assms(2) ms(1)] by simp
  ultimately show ?thesis
    using assms(3) length_stringsOf [of vs] length_stringPairs [of ms] fst_stringPairs [of ms]
    by (simp add: runCheckOK_def projectCheck_def member_values) (metis length_0_conv)
qed

lemma validateExcludeCheckMap_sound:
  assumes "stringFromMap check ''mode'' = ''exclude''" and "validateExcludeCheckMap quote index check = None"
  shows "excludedCheckOK (projectCheck check)"
proof -
  obtain reason where "strMember check ''reason'' = Some reason" "isValidExcludeReason reason"
    and "\<not> (case map_of check ''argv'' of Some (JArray arr) \<Rightarrow> arr \<noteq> [] | _ \<Rightarrow> False)"
    and "stringFromMap check ''working_directory'' = ''''" "intMember check ''timeout_seconds'' = 0"
    and "\<not> (case map_of check ''environment'' of Some (JObject env) \<Rightarrow> env \<noteq> [] | _ \<Rightarrow> False)"
    using assms(2) unfolding validateExcludeCheckMap_def Let_def by (auto split: option.splits if_splits)
  then show ?thesis
    using assms(1)
    by (auto simp: excludedCheckOK_def projectCheck_def arrMember_def objMember_def stringFromMap_def
        split: option.splits json.splits)
qed

lemma validateCheckMap_sound:
  assumes "rangeOrder iter" and "distinctTree raw" and "validateCheckMap quote iter index raw seen = Inr seen'"
  obtains check where "raw = JObject check" "checkOK (projectCheck check)"
    "seen' = kc_ID (projectCheck check) # seen" "kc_ID (projectCheck check) \<notin> set seen"
proof -
  obtain check where raw: "raw = JObject check"
    using assms(3) by (auto simp: validateCheckMap_def split: json.splits)
  have "stringFromMap check ''id'' \<notin> set seen \<and> seen' = stringFromMap check ''id'' # seen \<and>
      planName (stringFromMap check ''id'') \<and>
      (stringFromMap check ''mode'' = ''run'' \<and> validateRunnableCheckMap quote iter index check = None \<or>
       stringFromMap check ''mode'' = ''exclude'' \<and> validateExcludeCheckMap quote index check = None)"
    using assms(3) unfolding raw validateCheckMap_def Let_def planName_def
    by (simp split: if_splits option.splits)
  then show thesis
    using that [OF raw] assms(1,2) validateRunnableCheckMap_sound validateExcludeCheckMap_sound raw
    by (auto simp: checkOK_def projectCheck_def)
qed

lemma validateCheckMaps_sound:
  assumes "rangeOrder iter" and "validateCheckMaps quote iter i raws seen = None" and "list_all distinctTree raws"
  shows "raws = map JObject (objectsOf raws) \<and> list_all checkOK (map projectCheck (objectsOf raws)) \<and>
    distinct (map kc_ID (map projectCheck (objectsOf raws))) \<and>
    set (map kc_ID (map projectCheck (objectsOf raws))) \<inter> set seen = {}"
  using assms(2,3)
proof (induction raws arbitrary: i seen)
  case (Cons raw raws)
  obtain seen' where v: "validateCheckMap quote iter i raw seen = Inr seen'"
    and r: "validateCheckMaps quote iter (Suc i) raws seen' = None"
    using Cons.prems(1) by (auto split: sum.splits)
  have d: "distinctTree raw"
    using Cons.prems(2) by simp
  from assms(1) d v obtain check where "raw = JObject check" "checkOK (projectCheck check)"
    "seen' = kc_ID (projectCheck check) # seen" "kc_ID (projectCheck check) \<notin> set seen"
    by (rule validateCheckMap_sound)
  then show ?case
    using Cons.IH [OF r] Cons.prems(2) by auto
qed simp

lemma artifactPath_None [accepted_iff]:
  "artifactPath quote index a = None \<longleftrightarrow> (\<exists>p. map_of a ''path'' = Some (JString p) \<and> planPath False p)"
  unfolding validateRepositoryRelativePath_None [of _ False False, symmetric]
  by (auto simp: artifactPath_def strMember_def Let_def split: option.splits json.splits)

lemma artifactRequired_None [accepted_iff]:
  "artifactRequired index a = None \<longleftrightarrow> (\<exists>b. map_of a ''required'' = Some (JBool b))"
  by (auto simp: artifactRequired_def Let_def split: option.splits json.splits)

lemma artifactMaxBytes_None [accepted_iff]:
  "artifactMaxBytes index a = None \<longleftrightarrow>
   (\<exists>n i. map_of a ''max_bytes'' = Some (JNumber n) \<and> numberInt64 n = Some i \<and> 0 < i)"
  by (auto simp: artifactMaxBytes_def Let_def split: option.splits json.splits)

lemma artifactMediaType_None [accepted_iff]:
  "artifactMediaType index a = None \<longleftrightarrow>
   (\<exists>m. map_of a ''media_type'' = Some (JString m) \<and> trimSpace m \<noteq> '''' \<and> \<not> containsClosurePlaceholder m)"
  by (auto simp: artifactMediaType_def strMember_def split: option.splits json.splits)

lemma numberInt64_bound: "numberInt64 n = Some i \<Longrightarrow> isInt64 i"
  by (auto simp: numberInt64_def Let_def split: if_splits)

lemma validateArtifactMap_sound:
  assumes "validateArtifactMap quote index raw seen = Inr seen'"
  obtains a where "raw = JObject a" "artifactOK (projectArtifact a)"
    "seen' = af_ID (projectArtifact a) # seen" "af_ID (projectArtifact a) \<notin> set seen"
proof -
  obtain a where raw: "raw = JObject a"
    using assms by (auto simp: validateArtifactMap_def split: json.splits)
  have id: "stringFromMap a ''id'' \<notin> set seen" "seen' = stringFromMap a ''id'' # seen" "planName (stringFromMap a ''id'')"
    and "artifactPath quote index a = None" "artifactRequired index a = None" "artifactMaxBytes index a = None"
      "artifactMediaType index a = None"
    using assms unfolding raw validateArtifactMap_def Let_def planName_def
    by (simp_all add: orErr_None split: if_splits option.splits)
  then obtain p b n i m where "map_of a ''path'' = Some (JString p)" "planPath False p"
      "map_of a ''required'' = Some (JBool b)" "map_of a ''max_bytes'' = Some (JNumber n)" "numberInt64 n = Some i" "0 < i"
      "map_of a ''media_type'' = Some (JString m)" "trimSpace m \<noteq> ''''" "\<not> containsClosurePlaceholder m"
    by (auto simp: accepted_iff)
  then have "artifactOK (projectArtifact a)"
    using id numberInt64_bound [of n i]
    by (simp add: artifactOK_def projectArtifact_def member_values isInt64_def)
  then show thesis
    using that [OF raw] id by (simp add: projectArtifact_def)
qed

lemma validateArtifactMaps_sound:
  assumes "validateArtifactMaps quote i raws seen = None"
  shows "raws = map JObject (objectsOf raws) \<and> list_all artifactOK (map projectArtifact (objectsOf raws)) \<and>
    distinct (map af_ID (map projectArtifact (objectsOf raws))) \<and>
    set (map af_ID (map projectArtifact (objectsOf raws))) \<inter> set seen = {}"
  using assms
proof (induction raws arbitrary: i seen)
  case (Cons raw raws)
  obtain seen' where v: "validateArtifactMap quote i raw seen = Inr seen'"
    and r: "validateArtifactMaps quote (Suc i) raws seen' = None"
    using Cons.prems by (auto split: sum.splits)
  from v obtain a where "raw = JObject a" "artifactOK (projectArtifact a)"
    "seen' = af_ID (projectArtifact a) # seen" "af_ID (projectArtifact a) \<notin> set seen"
    by (rule validateArtifactMap_sound)
  then show ?case
    using Cons.IH [OF r] by auto
qed simp

lemma validateArtifactsOptional_sound:
  assumes "validateArtifactsOptional quote obj = None"
  defines "as \<equiv> objectsOf (arrMember obj ''artifacts'')"
  shows "length as \<le> 4096 \<and> list_all artifactOK (map projectArtifact as) \<and> distinct (map af_ID (map projectArtifact as))"
proof (cases "\<exists>raws. map_of obj ''artifacts'' = Some (JArray raws)")
  case True
  then obtain raws where raws: "map_of obj ''artifacts'' = Some (JArray raws)"
    by blast
  then have "length raws \<le> 4096" "validateArtifactMaps quote 0 raws [] = None"
    using assms(1) by (simp_all add: validateArtifactsOptional_def MaxArtifacts_def Let_def split: if_splits)
  moreover from validateArtifactMaps_sound [OF this(2)] have "length (objectsOf raws) = length raws"
    by (metis length_map)
  ultimately show ?thesis
    using validateArtifactMaps_sound [of quote 0 raws "[]"] by (simp add: as_def member_values raws)
next
  case False
  then have "arrMember obj ''artifacts'' = []"
    by (auto simp: arrMember_def split: option.splits json.splits)
  then show ?thesis
    by (simp add: as_def)
qed

lemma validatePolicyField_None [accepted_iff]:
  "validatePolicyField policy key = None \<longleftrightarrow> map_of policy key = Some (JBool True)"
  by (auto simp: validatePolicyField_def split: option.splits json.splits)

lemma validatePolicyRequired_None:
  "rangeOrder iter \<Longrightarrow> validatePolicyRequired iter obj = None \<longleftrightarrow>
   (\<exists>ms. map_of obj ''policy'' = Some (JObject ms) \<and> fst ` set ms = set policyRequiredFields \<and>
      (\<forall>key\<in>set policyRequiredFields. map_of ms key = Some (JBool True)))"
  by (auto simp: validatePolicyRequired_def validatePolicyMap_def accepted_iff rangeOrder_set
      split: option.splits json.splits if_splits) (force dest: map_of_SomeD)+

lemma toolBlock_projection:
  assumes "validateToolBlock tool = None"
  shows "toolOK (projectTool tool)"
proof -
  have o: "stringFromMap tool name = '''' \<or> OIDPattern (stringFromMap tool name)"
    if "toolOptionalOID tool code name = None" for code name
    using that by (auto simp: toolOptionalOID_def stringFromMap_def strMember_def split: option.splits json.splits if_splits)
  have "toolRevision tool = None" "toolSHA256 tool = None"
    "toolOptionalOID tool ''invalid_tool_tree_oid'' ''tree_oid'' = None"
    "toolOptionalOID tool ''invalid_tool_tag_object_oid'' ''tag_object_oid'' = None"
    using assms by (simp_all add: validateToolBlock_def orErr_None)
  then show ?thesis
    using o by (auto simp: toolOK_def projectTool_def planOID_def toolRevision_def toolSHA256_def Let_def split: if_splits)
qed

lemma validateRunnerAuthorityOptional_sound:
  assumes "validateRunnerAuthorityOptional quote obj = None" and "objMember obj ''runner_authority'' = Some ra"
  shows "authorityOK (projectAuthority ra)"
proof -
  have "validateRunnerAuthorityMap quote ra = None"
    using assms by (auto simp: validateRunnerAuthorityOptional_def objMember_def split: option.splits json.splits)
  then show ?thesis
    by (auto simp: validateRunnerAuthorityMap_def authorityOK_def projectAuthority_def hasToolBlock_def toolBlock_def
        stringFromMap_def toolBlock_projection split: option.splits if_splits)
qed

lemma ValidateFullMap_sound:
  assumes "rangeOrder iter" and "distinctTree (JObject obj)" and "ValidateFullMap quote iter obj = None"
  shows "planOK (projectToValidatedPlan obj)"
proof -
  note v = assms(3) [unfolded ValidateFullMap_def orErr_None]
  obtain n a base c t exec m where
    "map_of obj ''contract_version'' = Some (JNumber n)" "numberInt64 n = Some 1"
    "map_of obj ''act_id'' = Some (JString a)" "ActIDPattern a" "\<not> containsClosurePlaceholder a"
    "map_of obj ''baseline'' = Some (JObject base)" "map_of base ''commit_oid'' = Some (JString c)" "planOID c"
    "map_of base ''tree_oid'' = Some (JString t)" "planOID t"
    "map_of obj ''execution'' = Some (JObject exec)" "map_of exec ''mode'' = Some (JString m)"
    "trimSpaceLower m = ''serial_fail_fast''"
    using v by (auto simp: accepted_iff)
  moreover obtain checks where checks: "map_of obj ''checks'' = Some (JArray checks)" "checks \<noteq> []" "length checks \<le> 4096"
    "validateCheckMaps quote iter 0 checks [] = None"
    using v by (auto simp: validateChecksRequired_def MaxChecks_def Let_def split: option.splits json.splits if_splits)
  moreover have "list_all distinctTree checks"
    using distinctTree_member [OF assms(2) checks(1)] by simp
  note cs = validateCheckMaps_sound [OF assms(1) checks(4) this]
  moreover have "length (objectsOf checks) = length checks"
    using cs by (metis length_map)
  moreover obtain pol where "map_of obj ''policy'' = Some (JObject pol)"
    "\<forall>key\<in>set policyRequiredFields. map_of pol key = Some (JBool True)"
    using v by (auto simp: validatePolicyRequired_None [OF assms(1)])
  moreover have "length (objectsOf (arrMember obj ''artifacts'')) \<le> 4096 \<and>
      list_all artifactOK (map projectArtifact (objectsOf (arrMember obj ''artifacts''))) \<and>
      distinct (map af_ID (map projectArtifact (objectsOf (arrMember obj ''artifacts''))))"
    using v by (intro validateArtifactsOptional_sound [of quote]) simp
  moreover have "\<forall>ra. objMember obj ''runner_authority'' = Some ra \<longrightarrow> authorityOK (projectAuthority ra)"
    using v validateRunnerAuthorityOptional_sound by blast
  ultimately show ?thesis
    by (auto simp: planOK_def projectToValidatedPlan_def member_values strMember_def projectPolicyMap_def
        policyRequiredFields_def)
qed

section \<open>Encoding of typed plans\<close>

definition encodeRunCheck :: "PlanContractCheck \<Rightarrow> json" where
  "encodeRunCheck c = JObject
     [(''id'', JString (kc_ID c)), (''mode'', JString (kc_Mode c)), (''argv'', JArray (map JString (kc_Argv c))),
      (''working_directory'', JString (kc_WorkingDirectory c)),
      (''timeout_seconds'', JNumber (itoa (kc_TimeoutSeconds c))),
      (''environment'', JObject (map (map_prod id JString) (kc_Environment c)))]"

definition encodeExcludedCheck :: "PlanContractCheck \<Rightarrow> json" where
  "encodeExcludedCheck c = JObject
     [(''id'', JString (kc_ID c)), (''mode'', JString (kc_Mode c)), (''reason'', JString (kc_Reason c))]"

definition encodeCheck :: "PlanContractCheck \<Rightarrow> json" where
  "encodeCheck c = (if kc_Mode c = ''run'' then encodeRunCheck c else encodeExcludedCheck c)"

definition encodeArtifact :: "PlanArtifact \<Rightarrow> json" where
  "encodeArtifact a = JObject
     [(''id'', JString (af_ID a)), (''path'', JString (af_Path a)), (''required'', JBool (af_Required a = Some True)),
      (''max_bytes'', JNumber (itoa (af_MaxBytes a))), (''media_type'', JString (af_MediaType a))]"

definition encodeTool :: "ToolAuthority \<Rightarrow> json" where
  "encodeTool t = JObject
     [(''revision'', JString (ta_Revision t)), (''tree_oid'', JString (ta_TreeOID t)),
      (''binary_sha256'', JString (ta_BinarySHA256 t)), (''version'', JString (ta_Version t)),
      (''tag_name'', JString (ta_TagName t)), (''tag_object_oid'', JString (ta_TagObjectOID t))]"

definition encodeAuthority :: "RunnerAuthority \<Rightarrow> json" where
  "encodeAuthority a = JObject
     ((''mode'', JString (ra_Mode a)) # (case ra_Tool a of None \<Rightarrow> [] | Some t \<Rightarrow> [(''tool'', encodeTool t)]))"

definition encodePlanMembers :: "ValidatedPlan \<Rightarrow> (string \<times> json) list" where
  "encodePlanMembers p =
     [(''contract_version'', JNumber (itoa (vp_ContractVersion p))),
      (''act_id'', JString (vp_ActID p)),
      (''baseline'', JObject [(''commit_oid'', JString (bl_CommitOID (vp_Baseline p))),
                              (''tree_oid'', JString (bl_TreeOID (vp_Baseline p)))]),
      (''execution'', JObject [(''mode'', JString (vp_ExecutionMode p))]),
      (''checks'', JArray (map encodeCheck (vp_Checks p))),
      (''artifacts'', JArray (map encodeArtifact (vp_Artifacts p))),
      (''policy'', JObject (map (\<lambda>k. (k, JBool True)) policyRequiredFields))] @
     (case vp_RunnerAuthority p of None \<Rightarrow> [] | Some a \<Rightarrow> [(''runner_authority'', encodeAuthority a)])"

lemma digits_of_nonempty: "digits_of n \<noteq> []"
  by (subst digits_of.simps) simp

lemma numberInt64_itoa: "isInt64 n \<Longrightarrow> numberInt64 (itoa n) = Some n"
proof -
  have d: "hd (digits_of k) \<noteq> CHR ''-'' \<and> hd (digits_of k) \<noteq> CHR ''+''" for k
    using digits_of_isDigit [of k] digits_of_nonempty [of k] by (cases "digits_of k") (auto simp: isDigit_def)
  show "isInt64 n \<Longrightarrow> numberInt64 (itoa n) = Some n"
    using d digits_of_isDigit digits_of_nonempty
    by (auto simp: numberInt64_def itoa_def digitsValue_digits_of Let_def)
qed

lemma stringsOf_map [simp]: "stringsOf (map JString xs) = xs"
  by (induction xs) auto

lemma stringPairs_map [simp]: "stringPairs (map (map_prod id JString) xs) = xs"
  by (induction xs) auto

lemma projectCheck_encodeCheck:
  assumes "checkOK c"
  shows "\<exists>ms. encodeCheck c = JObject ms \<and> projectCheck ms = c"
proof -
  have "isInt64 (kc_TimeoutSeconds c)"
    using assms by (auto simp: checkOK_def runCheckOK_def excludedCheckOK_def isInt64_def)
  then show ?thesis
    using assms
    by (auto simp: checkOK_def runCheckOK_def excludedCheckOK_def encodeCheck_def encodeRunCheck_def
        encodeExcludedCheck_def projectCheck_def stringFromMap_def strMember_def arrMember_def objMember_def
        intMember_def numberInt64_itoa intro!: PlanContractCheck.equality)
qed

lemma planName_nonempty: "planName s \<Longrightarrow> s \<noteq> ''''"
  by (auto simp: planName_def ItemIDPattern_def)

lemma encodeRunCheck_accepted:
  assumes "rangeOrder iter" and "runCheckOK c"
  shows "\<exists>ms. encodeRunCheck c = JObject ms \<and> validateRunnableCheckMap quote iter index ms = None"
proof -
  have "isInt64 (kc_TimeoutSeconds c)"
    using assms(2) by (auto simp: runCheckOK_def isInt64_def)
  then show ?thesis
    using assms(2)
    by (simp add: encodeRunCheck_def validateRunnableCheckMap_def accepted_iff runnableEnvironment_None [OF assms(1)]
        runCheckOK_def numberInt64_itoa stringFromMap_def strMember_def)
qed

lemma encodeCheck_accepted:
  assumes "rangeOrder iter" and "checkOK c" and "kc_ID c \<notin> set seen"
  shows "validateCheckMap quote iter i (encodeCheck c) seen = Inr (kc_ID c # seen)"
proof -
  have id: "planName (kc_ID c)" "kc_ID c \<noteq> ''''"
    using assms(2) planName_nonempty by (auto simp: checkOK_def)
  show ?thesis
  proof (cases "runCheckOK c")
    case True
    then obtain ms where ms: "encodeRunCheck c = JObject ms" "validateRunnableCheckMap quote iter i ms = None"
      using encodeRunCheck_accepted [OF assms(1)] by blast
    moreover have "stringFromMap ms ''id'' = kc_ID c" "stringFromMap ms ''mode'' = ''run''" "kc_Mode c = ''run''"
      using ms(1) True by (auto simp: encodeRunCheck_def stringFromMap_def strMember_def runCheckOK_def)
    ultimately show ?thesis
      using id assms(3) by (simp add: validateCheckMap_def encodeCheck_def planName_def Let_def)
  next
    case False
    then have "excludedCheckOK c"
      using assms(2) by (simp add: checkOK_def)
    then show ?thesis
      using id assms(3)
      by (simp add: validateCheckMap_def encodeCheck_def encodeExcludedCheck_def planName_def Let_def excludedCheckOK_def
          stringFromMap_def strMember_def validateExcludeCheckMap_def intMember_def)
  qed
qed

lemma encodeChecks_accepted:
  assumes "rangeOrder iter" and "list_all checkOK cs" and "distinct (map kc_ID cs)"
    and "set (map kc_ID cs) \<inter> set seen = {}"
  shows "validateCheckMaps quote iter i (map encodeCheck cs) seen = None"
  using assms(2-4)
  by (induction cs arbitrary: i seen) (auto simp: encodeCheck_accepted [OF assms(1)])

lemma project_encodeChecks: "list_all checkOK cs \<Longrightarrow> map projectCheck (objectsOf (map encodeCheck cs)) = cs"
  by (induction cs) (auto dest!: projectCheck_encodeCheck)

lemma encodeArtifact_accepted:
  assumes "artifactOK a" and "af_ID a \<notin> set seen"
  shows "validateArtifactMap quote i (encodeArtifact a) seen = Inr (af_ID a # seen)"
proof -
  have "isInt64 (af_MaxBytes a)" "af_ID a \<noteq> ''''"
    using assms(1) planName_nonempty by (auto simp: artifactOK_def isInt64_def)
  then show ?thesis
    using assms
    by (simp add: validateArtifactMap_def encodeArtifact_def artifactOK_def planName_def stringFromMap_def strMember_def
        accepted_iff numberInt64_itoa Let_def split: option.splits)
qed

lemma encodeArtifacts_accepted:
  assumes "list_all artifactOK as" and "distinct (map af_ID as)" and "set (map af_ID as) \<inter> set seen = {}"
  shows "validateArtifactMaps quote i (map encodeArtifact as) seen = None"
  using assms by (induction as arbitrary: i seen) (auto simp: encodeArtifact_accepted)

lemma project_encodeArtifacts: "list_all artifactOK as \<Longrightarrow> map projectArtifact (objectsOf (map encodeArtifact as)) = as"
  by (induction as)
    (auto simp: encodeArtifact_def projectArtifact_def artifactOK_def isInt64_def stringFromMap_def strMember_def
      boolMember_def intMember_def numberInt64_itoa intro!: PlanArtifact.equality)

lemma pattern_nonempty: "OIDPattern s \<Longrightarrow> s \<noteq> []" "lowercaseHex64Pattern s \<Longrightarrow> s \<noteq> []"
  by (auto simp: OIDPattern_def lowercaseHex64Pattern_def)

lemma encodeTool_projects: "encodeTool t = JObject ms \<Longrightarrow> projectTool ms = t"
  by (auto simp: encodeTool_def projectTool_def stringFromMap_def strMember_def)

lemma encodeTool_accepted:
  assumes "toolOK t" and "encodeTool t = JObject ms"
  shows "validateToolBlock ms = None"
proof -
  have ms: "map_of ms ''revision'' = Some (JString (ta_Revision t))"
    "map_of ms ''binary_sha256'' = Some (JString (ta_BinarySHA256 t))"
    "map_of ms ''tree_oid'' = Some (JString (ta_TreeOID t))"
    "map_of ms ''tag_object_oid'' = Some (JString (ta_TagObjectOID t))"
    "map_of ms ''version'' = Some (JString (ta_Version t))" "map_of ms ''tag_name'' = Some (JString (ta_TagName t))"
    using assms(2) by (auto simp: encodeTool_def)
  have "toolRevision ms = None" "toolSHA256 ms = None"
    using assms(1) pattern_nonempty
    by (auto simp: toolRevision_def toolSHA256_def member_values ms toolOK_def planOID_def)
  moreover have "toolOptionalOID ms code ''tree_oid'' = None" "toolOptionalOID ms code ''tag_object_oid'' = None"
    "toolOptionalText ms code ''version'' = None" "toolOptionalText ms code ''tag_name'' = None" for code
    using assms(1) by (auto simp: toolOptionalOID_def toolOptionalText_def ms toolOK_def)
  ultimately show ?thesis
    by (simp add: validateToolBlock_def orErr_None)
qed

lemma encodeAuthority_accepted:
  assumes "authorityOK a"
  shows "\<exists>ms. encodeAuthority a = JObject ms \<and> validateRunnerAuthorityMap quote ms = None \<and> projectAuthority ms = a"
proof -
  have "validateToolBlock ms = None \<and> projectTool ms = t" if "toolOK t" "encodeTool t = JObject ms" for t ms
    using encodeTool_accepted [OF that] encodeTool_projects [OF that(2)] by simp
  then show ?thesis
    using assms
    by (auto simp: authorityOK_def encodeAuthority_def validateRunnerAuthorityMap_def strMember_def hasToolBlock_def
        toolBlock_def objMember_def projectAuthority_def stringFromMap_def encodeTool_def intro!: RunnerAuthority.equality)
qed

lemma encodeCheck_distinct: "checkOK c \<Longrightarrow> distinctTree (encodeCheck c)"
  by (auto simp: checkOK_def runCheckOK_def excludedCheckOK_def encodeCheck_def encodeRunCheck_def
      encodeExcludedCheck_def list_all_iff)

lemma encodePlan_distinct:
  assumes "planOK p"
  shows "distinctTree (JObject (encodePlanMembers p))"
proof -
  have "list_all distinctTree (map encodeCheck (vp_Checks p))"
    using assms encodeCheck_distinct by (auto simp: planOK_def list_all_iff)
  moreover have "list_all distinctTree (map encodeArtifact (vp_Artifacts p))"
    by (simp add: list_all_iff encodeArtifact_def)
  moreover have "distinctTree (encodeAuthority a)" for a
    by (simp add: encodeAuthority_def encodeTool_def split: option.split)
  ultimately show ?thesis
    by (simp add: encodePlanMembers_def policyRequiredFields_def split: option.split)
qed

lemma trimSpaceLower_mode: "trimSpaceLower ''serial_fail_fast'' = ''serial_fail_fast''"
proof -
  have "trimSpace ''serial_fail_fast'' = ''serial_fail_fast''"
    by (rule trimSpace_id) (simp_all add: graphic_def)
  moreover have "lowerText ''serial_fail_fast'' = ''serial_fail_fast''"
    by code_simp
  ultimately show ?thesis
    by (simp add: trimSpaceLower_def)
qed

lemma encodePlan_accepted:
  assumes "rangeOrder iter" and "planOK p"
  shows "ValidateFullMap quote iter (encodePlanMembers p) = None"
proof -
  have p: "vp_ContractVersion p = 1" "ActIDPattern (vp_ActID p)" "\<not> containsClosurePlaceholder (vp_ActID p)"
    "planOID (bl_CommitOID (vp_Baseline p))" "planOID (bl_TreeOID (vp_Baseline p))"
    "vp_ExecutionMode p = ''serial_fail_fast''" "vp_Checks p \<noteq> []" "length (vp_Checks p) \<le> 4096"
    "length (vp_Artifacts p) \<le> 4096"
    and c: "list_all checkOK (vp_Checks p)" "distinct (map kc_ID (vp_Checks p))"
    and a: "list_all artifactOK (vp_Artifacts p)" "distinct (map af_ID (vp_Artifacts p))"
    and ra: "\<And>x. vp_RunnerAuthority p = Some x \<Longrightarrow> authorityOK x"
    using assms(2) by (auto simp: planOK_def)
  have "validateContractVersion quote (encodePlanMembers p) = None" "validateActIDMap quote (encodePlanMembers p) = None"
    "validateBaselineRequired quote (encodePlanMembers p) = None"
    "validateExecutionRequired quote (encodePlanMembers p) = None"
    using p numberInt64_itoa [of 1] by (simp_all add: accepted_iff encodePlanMembers_def isInt64_def trimSpaceLower_mode)
  moreover have "validateChecksRequired quote iter (encodePlanMembers p) = None"
    using p encodeChecks_accepted [OF assms(1) c, of "[]"]
    by (simp add: validateChecksRequired_def encodePlanMembers_def MaxChecks_def Let_def)
  moreover have "validateArtifactsOptional quote (encodePlanMembers p) = None"
    using p encodeArtifacts_accepted [OF a, of "[]"]
    by (simp add: validateArtifactsOptional_def encodePlanMembers_def MaxArtifacts_def Let_def)
  moreover have "validatePolicyRequired iter (encodePlanMembers p) = None"
    by (simp add: validatePolicyRequired_None [OF assms(1)] encodePlanMembers_def policyRequiredFields_def)
  moreover have "validateRunnerAuthorityOptional quote (encodePlanMembers p) = None"
    using encodeAuthority_accepted [OF ra]
    by (cases "vp_RunnerAuthority p") (fastforce simp: validateRunnerAuthorityOptional_def encodePlanMembers_def)+
  ultimately show ?thesis
    by (simp add: ValidateFullMap_def orErr_None)
qed

lemma project_encodePlan:
  assumes "planOK p"
  shows "projectToValidatedPlan (encodePlanMembers p) = p"
proof -
  note p = assms [unfolded planOK_def]
  have "map projectCheck (objectsOf (map encodeCheck (vp_Checks p))) = vp_Checks p"
    "map projectArtifact (objectsOf (map encodeArtifact (vp_Artifacts p))) = vp_Artifacts p"
    using p by (simp_all add: project_encodeChecks project_encodeArtifacts)
  moreover have "map_option projectAuthority (objMember (encodePlanMembers p) ''runner_authority'') = vp_RunnerAuthority p"
    using p encodeAuthority_accepted
    by (cases "vp_RunnerAuthority p") (fastforce simp: encodePlanMembers_def objMember_def)+
  ultimately show ?thesis
    using p numberInt64_itoa [of 1]
    by (intro ValidatedPlan.equality)
      (auto simp: projectToValidatedPlan_def encodePlanMembers_def intMember_def stringFromMap_def strMember_def
        objMember_def arrMember_def isInt64_def trimSpaceLower_mode projectPolicyMap_def boolMember_def policyRequiredFields_def)
qed

section \<open>Paths stay in the repository\<close>

lemma prefix_dotdot_elem: "prefix ''../'' p \<Longrightarrow> ''..'' \<in> set (splitOn (CHR ''/'') p)"
  by (auto simp: prefix_def split: list.splits)

lemma planPath_local: "planPath allowDot p \<Longrightarrow> isLocal p"
proof -
  assume p: "planPath allowDot p"
  have "prefix xs q \<longleftrightarrow> take (length xs) q = xs" for xs q :: string
    by (metis append_eq_conv_conj prefix_def take_is_prefix)
  from this [of "''../''"] have t: "take 3 q = ''../'' \<longleftrightarrow> prefix ''../'' q" for q
    by (simp add: numeral_3_eq_3)
  show "isLocal p"
  proof (cases "list_ex (\<lambda>e. e = ''.'' \<or> e = ''..'') (splitOn (CHR ''/'') p)")
    case True
    then show ?thesis
      using p by (auto simp: isLocal_def planPath_def t)
  next
    case False
    have "\<not> prefix ''../'' p"
      using prefix_dotdot_elem [of p] False unfolding list_ex_iff by blast
    moreover have "p \<noteq> ''..''"
      using False by (cases "p = ''..''") simp_all
    ultimately show ?thesis
      using p False by (simp add: isLocal_def planPath_def t)
  qed
qed

section \<open>The order of a range does not matter\<close>

lemma validateRunnableCheckMap_order:
  "rangeOrder iter \<Longrightarrow> rangeOrder iter' \<Longrightarrow>
   validateRunnableCheckMap quote iter i check = None \<longleftrightarrow> validateRunnableCheckMap quote iter' i check = None"
  by (simp add: validateRunnableCheckMap_def orErr_None runnableEnvironment_None)

lemma validateCheckMap_order:
  assumes "rangeOrder iter" and "rangeOrder iter'"
  shows "validateCheckMap quote iter i raw seen = Inr s \<longleftrightarrow> validateCheckMap quote iter' i raw seen = Inr s"
proof (cases raw)
  case (JObject check)
  then show ?thesis
    using validateRunnableCheckMap_order [OF assms, of quote i check]
    by (cases "validateRunnableCheckMap quote iter i check"; cases "validateRunnableCheckMap quote iter' i check")
      (simp_all add: validateCheckMap_def Let_def)
qed (simp_all add: validateCheckMap_def)

lemma validateCheckMaps_order:
  assumes "rangeOrder iter" and "rangeOrder iter'"
  shows "validateCheckMaps quote iter i raws seen = None \<longleftrightarrow> validateCheckMaps quote iter' i raws seen = None"
proof (induction raws arbitrary: i seen)
  case (Cons raw raws)
  note order = validateCheckMap_order [OF assms, of quote i raw seen]
  show ?case
  proof (cases "validateCheckMap quote iter i raw seen")
    case (Inl e)
    then obtain e' where "validateCheckMap quote iter' i raw seen = Inl e'"
      using order by (cases "validateCheckMap quote iter' i raw seen") auto
    with Inl show ?thesis
      by simp
  next
    case (Inr s)
    then have "validateCheckMap quote iter' i raw seen = Inr s"
      using order by blast
    with Inr show ?thesis
      by (simp add: Cons.IH)
  qed
qed simp

lemma ValidateFullMap_order:
  assumes "rangeOrder iter" and "rangeOrder iter'"
  shows "ValidateFullMap quote iter obj = None \<longleftrightarrow> ValidateFullMap quote iter' obj = None"
proof -
  have "validateChecksRequired quote iter obj = None \<longleftrightarrow> validateChecksRequired quote iter' obj = None"
    using validateCheckMaps_order [OF assms]
    by (simp add: validateChecksRequired_def Let_def split: option.splits json.splits)
  then show ?thesis
    by (simp add: ValidateFullMap_def orErr_None validatePolicyRequired_None assms)
qed

text \<open>The minimal projection of the evidence package is that of the typed plan.\<close>

definition minimalOf :: "ValidatedPlan \<Rightarrow> DecodeResult" where
  "minimalOf p =
     \<lparr>dr_ContractVersion = vp_ContractVersion p,
      dr_Checks = map (\<lambda>c. \<lparr>pk_ID = kc_ID c, pk_Mode = kc_Mode c\<rparr>) (vp_Checks p)\<rparr>"

lemma projectChecks_objects:
  "projectChecks i (map JObject ms) = Inr (map (\<lambda>c. \<lparr>pk_ID = kc_ID c, pk_Mode = kc_Mode c\<rparr>) (map projectCheck ms))"
  by (induction ms arbitrary: i) (auto simp: projectCheck_def)

lemma projectToResult_minimal:
  assumes "rangeOrder iter" and "distinctTree (JObject obj)" and "ValidateFullMap quote iter obj = None"
  shows "projectToResult (JObject obj) = Inr (minimalOf (projectToValidatedPlan obj))"
proof -
  obtain checks where checks: "map_of obj ''checks'' = Some (JArray checks)"
    and v: "validateCheckMaps quote iter 0 checks [] = None"
    using assms(3) by (auto simp: ValidateFullMap_def orErr_None validateChecksRequired_def Let_def
        split: option.splits json.splits if_splits)
  have "list_all distinctTree checks"
    using distinctTree_member [OF assms(2) checks] by simp
  then have "checks = map JObject (objectsOf checks)"
    using validateCheckMaps_sound [OF assms(1) v] by blast
  then have "projectChecks 0 checks =
      Inr (map (\<lambda>c. \<lparr>pk_ID = kc_ID c, pk_Mode = kc_Mode c\<rparr>) (map projectCheck (objectsOf checks)))"
    by (metis projectChecks_objects)
  then show ?thesis
    by (simp add: projectToResult_def minimalOf_def projectToValidatedPlan_def checks member_values)
qed

lemma validateResultChecks_minimal:
  "list_all checkOK cs \<Longrightarrow> validateResultChecks quote i (map (\<lambda>c. \<lparr>pk_ID = kc_ID c, pk_Mode = kc_Mode c\<rparr>) cs) = None"
  using planName_nonempty
  by (induction cs arbitrary: i) (auto simp: checkOK_def runCheckOK_def excludedCheckOK_def)

lemma ValidateResult_minimal: "planOK p \<Longrightarrow> ValidateResult quote (minimalOf p) = None"
  by (auto simp: ValidateResult_def minimalOf_def planOK_def ContractVersionV1_def validateResultChecks_minimal)

section \<open>A plan\<close>

definition sampleRunCheck :: PlanContractCheck where
  "sampleRunCheck =
     \<lparr>kc_ID = ''unit'', kc_Mode = ''run'', kc_Argv = [''go'', ''test'', ''./...''], kc_WorkingDirectory = ''.'',
      kc_TimeoutSeconds = 300, kc_Environment = [(''CI'', ''1'')], kc_Reason = ''''\<rparr>"

definition sampleExcludedCheck :: PlanContractCheck where
  "sampleExcludedCheck =
     \<lparr>kc_ID = ''lint'', kc_Mode = ''exclude'', kc_Argv = [], kc_WorkingDirectory = '''',
      kc_TimeoutSeconds = 0, kc_Environment = [], kc_Reason = ''covered by unit''\<rparr>"

definition samplePlan :: ValidatedPlan where
  "samplePlan =
     \<lparr>vp_ContractVersion = 1, vp_ActID = ''ACT-CLOSE01'',
      vp_Baseline = \<lparr>bl_CommitOID = replicate 40 (CHR ''a''), bl_TreeOID = replicate 40 (CHR ''b'')\<rparr>,
      vp_ExecutionMode = ''serial_fail_fast'', vp_Checks = [sampleRunCheck, sampleExcludedCheck],
      vp_Artifacts = [\<lparr>af_ID = ''log'', af_Path = ''out/log.txt'', af_Required = Some True,
        af_MaxBytes = 4096, af_MediaType = ''text/plain''\<rparr>],
      vp_Policy = \<lparr>po_RequireCleanBefore = Some True, po_RequireCleanAfter = Some True,
        po_ForbidTrackedFullDigests = Some True, po_RequireDiffCheck = Some True\<rparr>,
      vp_RunnerAuthority = Some \<lparr>ra_Mode = ''subject_exact'', ra_Tool = None\<rparr>\<rparr>"

definition sampleSource :: planSource where
  "sampleSource =
     \<lparr>src_tokens = toks (JObject (encodePlanMembers samplePlan)), src_eof = True, ps_length = 1000, ps_more = False,
      ps_tokenErr = ''EOF'', ps_decodeErr = ''EOF''\<rparr>"

text \<open>ASCII texts without surrounding space.\<close>

definition asciiText :: "string \<Rightarrow> bool" where
  "asciiText s \<longleftrightarrow> s \<noteq> [] \<and> graphic (hd s) \<and> graphic (last s) \<and> list_all (\<lambda>c. (of_char c :: nat) < 128) s"

lemma upperText_ascii: "list_all (\<lambda>c. (of_char c :: nat) < 128) s \<Longrightarrow> upperText s = map asciiUpper s"
  by (induction s rule: upperText.induct) auto

lemma asciiText_trim: "asciiText s \<Longrightarrow> trimSpace s = s"
  by (rule trimSpace_id) (simp_all add: asciiText_def)

definition placeholderText :: "string \<Rightarrow> bool" where
  "placeholderText normalized \<longleftrightarrow>
     normalized \<in> set exactClosurePlaceholders \<or>
     list_ex (\<lambda>marker. containsStr marker normalized) embeddedClosurePlaceholders"

lemma placeholder_ascii: "asciiText s \<Longrightarrow> containsClosurePlaceholder s \<longleftrightarrow> placeholderText (map asciiUpper s)"
  by (simp add: containsClosurePlaceholder_def placeholderText_def asciiText_trim)
    (simp add: asciiText_def upperText_ascii Let_def)

text \<open>An object identifier is never a placeholder, so the test for it never decides.\<close>

lemma hexDigit_facts: "isLowerHexDigit c \<Longrightarrow> graphic c \<and> (of_char c :: nat) < 128"
  by (auto simp: isLowerHexDigit_def isDigit_def graphic_def less_eq_char_def)

lemma hexDigit_upper: "isLowerHexDigit c \<Longrightarrow> asciiUpper c \<notin> {CHR ''T'', CHR ''O'', CHR ''N'', CHR ''('', CHR ''<''}"
proof -
  assume "isLowerHexDigit c"
  then have u: "48 \<le> (of_char (asciiUpper c) :: nat) \<and> (of_char (asciiUpper c) :: nat) \<le> 57 \<or>
      65 \<le> (of_char (asciiUpper c) :: nat) \<and> (of_char (asciiUpper c) :: nat) \<le> 70"
    by (auto simp: isLowerHexDigit_def isDigit_def asciiUpper_def isLowerLetter_def less_eq_char_def)
  show ?thesis
  proof
    assume "asciiUpper c \<in> {CHR ''T'', CHR ''O'', CHR ''N'', CHR ''('', CHR ''<''}"
    then have "(of_char (asciiUpper c) :: nat) \<in> {84, 79, 78, 40, 60}"
      by (elim insertE) simp_all
    with u show False
      by auto
  qed
qed

lemma hex_no_placeholder:
  assumes "s \<noteq> []" and "list_all isLowerHexDigit s"
  shows "\<not> containsClosurePlaceholder s"
proof -
  have "asciiText s"
    using assms hexDigit_facts by (auto simp: asciiText_def list_all_iff)
  moreover have "set (map asciiUpper s) \<inter> {CHR ''T'', CHR ''O'', CHR ''N'', CHR ''('', CHR ''<''} = {}"
    using assms(2) by (fastforce simp: list_all_iff dest: hexDigit_upper)
  then have "\<not> placeholderText (map asciiUpper s)"
    by (auto simp: placeholderText_def exactClosurePlaceholders_def embeddedClosurePlaceholders_def containsStr_iff
        dest!: set_mono_sublist)
  ultimately show ?thesis
    by (simp add: placeholder_ascii)
qed

lemma planOID_iff: "planOID s \<longleftrightarrow> OIDPattern s"
  using hex_no_placeholder [OF pattern_nonempty(1), of s] by (auto simp: planOID_def) (simp add: OIDPattern_def)

definition sampleTexts :: "string list" where
  "sampleTexts = [''unit'', ''go'', ''test'', ''./...'', ''.'', ''lint'', ''covered by unit'', ''ACT-CLOSE01'',
     ''log'', ''out/log.txt'', ''text/plain'']"

lemma sampleTexts_ascii: "list_all asciiText sampleTexts"
  by code_simp

lemma sampleTexts_plain: "list_all (\<lambda>s. \<not> placeholderText (map asciiUpper s)) sampleTexts"
  by code_simp

lemma sampleText_facts:
  "s \<in> set sampleTexts \<Longrightarrow> \<not> containsClosurePlaceholder s \<and> trimSpace s = s"
  using sampleTexts_ascii sampleTexts_plain by (auto simp: list_all_iff placeholder_ascii asciiText_trim)

lemma sample_patterns:
  "ItemIDPattern ''unit''" "ItemIDPattern ''lint''" "ItemIDPattern ''log''" "ActIDPattern ''ACT-CLOSE01''"
  "EnvironmentNamePattern ''CI''" "OIDPattern (replicate 40 (CHR ''a''))" "OIDPattern (replicate 40 (CHR ''b''))"
  by code_simp+

lemma sample_paths:
  "cleanPath ''.'' = ''.''" "cleanPath ''out/log.txt'' = ''out/log.txt''"
  by code_simp+

lemma sample_bytes: "list_all (\<lambda>s. \<not> containsNulByte s \<and> crChar \<notin> set s \<and> nlChar \<notin> set s) ([CHR ''1''] # sampleTexts)"
  by code_simp

lemma samplePlan_ok: "planOK samplePlan"
proof -
  have "checkOK sampleRunCheck"
    using sample_patterns(1,5) sample_paths sampleText_facts sample_bytes
    by (simp add: checkOK_def planName_def runCheckOK_def sampleRunCheck_def planPath_def planArg_def isAbs_def sampleTexts_def)
  moreover have "checkOK sampleExcludedCheck"
    using sample_patterns(2) sampleText_facts sample_bytes
    by (simp add: checkOK_def planName_def excludedCheckOK_def sampleExcludedCheck_def isValidExcludeReason_def
        sampleTexts_def)
  ultimately show ?thesis
    using sample_patterns sample_paths sampleText_facts sample_bytes
    by (simp add: planOK_def samplePlan_def planOID_iff artifactOK_def planName_def planPath_def isAbs_def authorityOK_def sampleTexts_def)
      (simp add: sampleRunCheck_def sampleExcludedCheck_def)
qed

lemma sampleSource_stream: "planStream sampleSource"
  unfolding planStream_prefix
  by (rule exI [of _ "[JObject (encodePlanMembers samplePlan)]"]) (simp add: sampleSource_def)

lemma sampleSource_facts:
  "ps_length sampleSource \<noteq> 0" "ps_length sampleSource \<le> MaxPlanBytes" "src_eof sampleSource"
  "src_tokens sampleSource = toks (JObject (encodePlanMembers samplePlan))"
  by (simp_all add: sampleSource_def MaxPlanBytes_def)

lemma rangeOrder_id: "rangeOrder (\<lambda>ms. ms)" and rangeOrder_rev: "rangeOrder rev"
  by (simp_all add: rangeOrder_def)

lemma DecodeBytes_distinct: "planStream S \<Longrightarrow> DecodeBytes quote S = Inr v \<Longrightarrow> distinctTree v"
  by (simp add: DecodeBytes_iff)

lemma DecodeAndValidateFull_iff:
  assumes "planStream S"
  shows "DecodeAndValidateFull quote iter S = Inr p \<longleftrightarrow>
    (\<exists>obj. DecodeBytes quote S = Inr (JObject obj) \<and> distinctTree (JObject obj) \<and>
       ValidateFullMap quote iter obj = None \<and> p = projectToValidatedPlan obj)"
  using DecodeBytes_distinct [OF assms]
  by (auto simp: DecodeAndValidateFull_def simp del: distinctTree.simps split: sum.splits json.splits option.splits)

lemma encoded_reads_back:
  assumes "rangeOrder iter" and "planOK p" and "src_tokens S = toks (JObject (encodePlanMembers p))"
    and "src_eof S" and "ps_length S \<noteq> 0" and "ps_length S \<le> MaxPlanBytes"
  shows "DecodeAndValidateFull quote iter S = Inr p"
proof -
  have "planStream S"
    using assms(3) by (auto simp: planStream_prefix intro: exI [of _ "[JObject (encodePlanMembers p)]"])
  then have "DecodeBytes quote S = Inr (JObject (encodePlanMembers p))"
    using assms(3-6) encodePlan_distinct [OF assms(2)] by (simp add: DecodeBytes_iff)
  then show ?thesis
    using encodePlan_accepted [OF assms(1,2)] project_encodePlan [OF assms(2)] by (simp add: DecodeAndValidateFull_def)
qed

section \<open>Properties\<close>

text \<open>
  C7. Whatever document the plan reader accepts, in whatever order the maps are visited: the
  typed plan is well formed.  Its version is 1, its identities are object identifiers, no text
  is a placeholder, there are 1 to 4096 checks with distinct names, every runnable check has 1
  to 16 arguments, a timeout of 1 to 600 seconds and at most 32 variables with distinct names,
  every excluded check has a reason and nothing to run, all artifacts have distinct names and a
  positive size that fits 64 bits, all four policies are true, and the tool of the runner is
  stated exactly when the runner is not the subject.  Every directory a check runs in and every
  artifact lies in the repository.
\<close>

theorem accepted_plan_well_formed:
  assumes "rangeOrder iter" and "planStream S" and "DecodeAndValidateFull quote iter S = Inr p"
  shows "planOK p \<and>
    (\<forall>c\<in>set (vp_Checks p). kc_Mode c = ''run'' \<longrightarrow> isLocal (kc_WorkingDirectory c)) \<and>
    (\<forall>a\<in>set (vp_Artifacts p). isLocal (af_Path a))"
proof -
  obtain obj where "distinctTree (JObject obj)" "ValidateFullMap quote iter obj = None" "p = projectToValidatedPlan obj"
    using assms(2,3) by (auto simp: DecodeAndValidateFull_iff)
  then have p: "planOK p"
    using ValidateFullMap_sound [OF assms(1)] by blast
  have "isLocal (kc_WorkingDirectory c)" if "c \<in> set (vp_Checks p)" "kc_Mode c = ''run''" for c
  proof -
    have "runCheckOK c"
      using p that by (auto simp: planOK_def list_all_iff checkOK_def excludedCheckOK_def)
    then show ?thesis
      by (auto simp: runCheckOK_def intro: planPath_local)
  qed
  moreover have "isLocal (af_Path a)" if "a \<in> set (vp_Artifacts p)" for a
    using p that by (auto simp: planOK_def list_all_iff artifactOK_def intro: planPath_local)
  ultimately show ?thesis
    using p by blast
qed

lemma accepted_plan_well_formed_witness:
  "planOK samplePlan \<and> isLocal (kc_WorkingDirectory sampleRunCheck)"
proof -
  have "DecodeAndValidateFull id rev sampleSource = Inr samplePlan"
    using rangeOrder_rev samplePlan_ok sampleSource_facts by (intro encoded_reads_back)
  from accepted_plan_well_formed [OF rangeOrder_rev sampleSource_stream this] show ?thesis
    by (auto simp: samplePlan_def sampleRunCheck_def)
qed



text \<open>
  C9. The evidence package and the runner cannot disagree on a plan.  The entry points that
  validate in full agree: \<open>ValidateFullAndProject\<close> fails with the error of
  \<open>DecodeAndValidateFull\<close> and otherwise returns the version and the names and modes of the
  checks of its plan, \<open>ValidateFull\<close> returns the same error, and what is accepted does not depend
  on the order in which maps are visited.  \<open>DecodeAndValidate\<close> validates less: it accepts what they
  accept with the same result, and may accept more.
\<close>

theorem plan_projections_agree:
  assumes "rangeOrder iter" and "rangeOrder iter'" and "planStream S"
  shows "ValidateFullAndProject quote iter S = map_sum (\<lambda>e. e) minimalOf (DecodeAndValidateFull quote iter S) \<and>
    (ValidateFull quote iter S = Some e \<longleftrightarrow> ValidateFullAndProject quote iter S = Inl e) \<and>
    (DecodeAndValidateFull quote iter S = Inr p \<longleftrightarrow> DecodeAndValidateFull quote iter' S = Inr p) \<and>
    (DecodeAndValidateFull quote iter S = Inr p \<longrightarrow> DecodeAndValidate quote S = Inr (minimalOf p))"
proof (intro conjI impI)
  show same: "ValidateFullAndProject quote iter S = map_sum (\<lambda>e. e) minimalOf (DecodeAndValidateFull quote iter S)"
    using DecodeBytes_distinct [OF assms(3)] projectToResult_minimal [OF assms(1)]
    by (auto simp: ValidateFullAndProject_def DecodeAndValidateFull_def simp del: distinctTree.simps
        split: sum.splits json.splits option.splits)
  show "ValidateFull quote iter S = Some e \<longleftrightarrow> ValidateFullAndProject quote iter S = Inl e"
    unfolding same ValidateFull_def by (cases "DecodeAndValidateFull quote iter S") simp_all
  show "DecodeAndValidateFull quote iter S = Inr p \<longleftrightarrow> DecodeAndValidateFull quote iter' S = Inr p"
    unfolding DecodeAndValidateFull_iff [OF assms(3)] using ValidateFullMap_order [OF assms(1,2)] by blast
  show "DecodeAndValidate quote S = Inr (minimalOf p)" if d: "DecodeAndValidateFull quote iter S = Inr p"
  proof -
    obtain obj where obj: "DecodeBytes quote S = Inr (JObject obj)" "distinctTree (JObject obj)"
      "ValidateFullMap quote iter obj = None" "p = projectToValidatedPlan obj"
      using d by (auto simp: DecodeAndValidateFull_iff [OF assms(3)])
    then have "planOK p"
      using ValidateFullMap_sound [OF assms(1)] by blast
    with obj show ?thesis
      using projectToResult_minimal [OF assms(1) obj(2,3)] ValidateResult_minimal [of p]
      by (simp add: DecodeAndValidate_def DecodeBytesToResult_def)
  qed
qed

lemma plan_projections_agree_witness:
  "ValidateFullAndProject id rev sampleSource = Inr (minimalOf samplePlan) \<and>
   DecodeAndValidateFull id (\<lambda>ms. ms) sampleSource = Inr samplePlan \<and>
   DecodeAndValidate id sampleSource = Inr (minimalOf samplePlan)"
  using plan_projections_agree [OF rangeOrder_rev rangeOrder_id sampleSource_stream, of id _ samplePlan]
    encoded_reads_back [OF rangeOrder_rev samplePlan_ok sampleSource_facts(4,3,1,2), of id]
  by simp

section \<open>Differences from the comments\<close>

text \<open>
  \<open>DecodeAndValidateFull\<close> is documented to reject unknown members of the root.  It does not:
  such members do not change the result.
\<close>

definition knownRootNames :: "string list" where
  "knownRootNames = [''contract_version'', ''act_id'', ''baseline'', ''execution'', ''checks'', ''artifacts'',
     ''policy'', ''runner_authority'']"

lemma unknown_root_members_ignored:
  assumes "k \<notin> set knownRootNames"
  shows "ValidateFullMap quote iter ((k, v) # obj) = ValidateFullMap quote iter obj"
    and "projectToValidatedPlan ((k, v) # obj) = projectToValidatedPlan obj"
proof -
  have "map_of ((k, v) # obj) n = map_of obj n" if "n \<in> set knownRootNames" for n
    using assms that by auto
  then have m:
    "map_of ((k, v) # obj) ''contract_version'' = map_of obj ''contract_version''"
    "map_of ((k, v) # obj) ''act_id'' = map_of obj ''act_id''"
    "map_of ((k, v) # obj) ''baseline'' = map_of obj ''baseline''"
    "map_of ((k, v) # obj) ''execution'' = map_of obj ''execution''"
    "map_of ((k, v) # obj) ''checks'' = map_of obj ''checks''"
    "map_of ((k, v) # obj) ''artifacts'' = map_of obj ''artifacts''"
    "map_of ((k, v) # obj) ''policy'' = map_of obj ''policy''"
    "map_of ((k, v) # obj) ''runner_authority'' = map_of obj ''runner_authority''"
    unfolding knownRootNames_def by (meson list.set_intros)+
  show "ValidateFullMap quote iter ((k, v) # obj) = ValidateFullMap quote iter obj"
    unfolding ValidateFullMap_def validateContractVersion_def validateActIDMap_def strMember_def
      validateBaselineRequired_def objMember_def validateExecutionRequired_def validateChecksRequired_def
      validateArtifactsOptional_def validatePolicyRequired_def validateRunnerAuthorityOptional_def m ..
  show "projectToValidatedPlan ((k, v) # obj) = projectToValidatedPlan obj"
    unfolding projectToValidatedPlan_def intMember_def stringFromMap_def strMember_def objMember_def arrMember_def m ..
qed

text \<open>A reason with surrounding space is accepted.\<close>

lemma excluded_reason_with_space: "isValidExcludeReason '' x''"
proof -
  have t: "trimSpace '' x'' = ''x''" and "\<not> placeholderText (upperText ''x'')" "crChar \<notin> set '' x''" "nlChar \<notin> set '' x''"
    by code_simp+
  then show ?thesis
    by (simp add: isValidExcludeReason_def containsClosurePlaceholder_def placeholderText_def t)
qed

end
