(* ===== verification/Spec2Isabelle.thy ===== *)
theory Spec2Isabelle
  imports Dup_Baseline Exec_Concurrency Gate_Decode Gate_Project Closure_State Closure_Loader Closure_Execute Plan_Project
begin

text \<open>
  A verification development for \<open>leamas\<close>, a command line tool that runs the quality gates of
  a Go repository and records them as evidence.  All paths below are relative to \<open>src/\<close>.

  \<^bold>\<open>The program.\<close>  Four subsystems carry its own logic.

  \<^item> \<open>internal/execution\<close> is the only way the tool starts processes: an executor with a budget
    (starts, concurrency, depth, output, time), re-entry and cycle guards, bounded capture of
    output, and termination of process groups; a bounded runner for git.
  \<^item> \<open>internal/factory/dupcode\<close> finds duplicated code: files are analysed into tokens and
    executable regions, common windows of tokens become chains, chains become occurrences and
    connected components with an exact content identity, and the findings are compared with a
    committed baseline.
  \<^item> \<open>internal/gatesummary\<close> decodes the summary document of a gate run in three versions,
    validates it against a schema, and normalizes it with semantic checks.
  \<^item> \<open>internal/factory/closure\<close> closes a unit of work: a subject commit S, a freeze commit F with
    the plan, and a closure commit C with the manifest of the run.  The leaf package
    \<open>plancontract\<close> reads and validates the plan, the runner executes it on the subject and
    guards the repository of its caller, and the version 2 verifier decides from git objects alone
    whether a closure is valid.

  They interact: the closure verifier observes the repository through the git runner of the
  execution package, and the gate summary and closure readers share the treatment of JSON numbers.

  \<^bold>\<open>Theories and sources.\<close>

  \<^item> \<open>Prelude\<close>: results as sums (\<open>bindE\<close>, \<open>traverse\<close>, \<open>foldE\<close>), \<open>strconv.Itoa\<close>,
    the stable and unstable sorts of package \<open>sort\<close> with the locale \<open>keyed_less\<close>, maps with
    insertion order.  \<open>Sha256\<close>: SHA-256 on 32-bit words.  \<open>Go_Path\<close>: the lexical part of
    \<open>path/filepath\<close>.
  \<^item> \<open>Dup_Types\<close>, \<open>Dup_Regions\<close> (\<open>v4_regions.go\<close>, \<open>v4_analysis.go\<close>),
    \<open>Dup_Content\<close> (\<open>v3_core.go\<close>, \<open>v4_content_identity.go\<close>), \<open>Dup_Windows\<close>
    (\<open>v4_legacy_helpers.go\<close>), \<open>Dup_Chains\<close> (\<open>v4_chain_*.go\<close>), \<open>Dup_Shadow\<close>
    (\<open>v4_shadow_*.go\<close>), \<open>Dup_Occurrences\<close> (\<open>v4_occurrences.go\<close>,
    \<open>v4_merge_checked.go\<close>), \<open>Dup_Components\<close> and \<open>Dup_CompShadow\<close>
    (\<open>v4_component_merge.go\<close>), \<open>Dup_Pipeline\<close> (\<open>v4_internal_pipeline.go\<close>,
    \<open>CheckRepo\<close> of \<open>check.go\<close>), \<open>Dup_Baseline\<close> (\<open>baseline*.go\<close>).
  \<^item> \<open>Exec_Base\<close> (\<open>errors.go\<close>, \<open>command.go\<close>, \<open>budget.go\<close>), \<open>Exec_Buffer\<close>
    (\<open>output_buffer.go\<close>, \<open>git.go\<close>), \<open>Exec_Guard\<close> (\<open>cycle.go\<close>, \<open>semaphore.go\<close>,
    \<open>reentry.go\<close>, \<open>executor_utils.go\<close>), \<open>Exec_Process\<close> (\<open>process_unix.go\<close>),
    \<open>Exec_Executor\<close> (\<open>executor.go\<close>, \<open>executor_helpers.go\<close>,
    \<open>executor_lifecycle.go\<close>), \<open>Exec_Concurrency\<close> (interleavings of calls).
  \<^item> \<open>Gate_Diag\<close> (\<open>diagnostic.go\<close>), \<open>Gate_Json\<close> (\<open>duplicate_keys.go\<close>,
    \<open>envelope.go\<close>, \<open>version.go\<close>), \<open>Gate_Summary\<close> (\<open>wire_*.go\<close>,
    \<open>normalized_*.go\<close>, \<open>document.go\<close>), \<open>Gate_Semantics\<close> (\<open>semantic_*.go\<close>,
    \<open>normalize.go\<close>), \<open>Gate_Project\<close> (\<open>normalize_v1.go\<close> to \<open>normalize_v3.go\<close>),
    \<open>Gate_Schema\<close> (\<open>schema_error_*.go\<close>), \<open>Gate_Decode\<close> (\<open>reader.go\<close>,
    \<open>decoder.go\<close>, \<open>strict_decode.go\<close>).
  \<^item> \<open>Closure_Diag\<close> (\<open>v2_verifier_diagnostic.go\<close>,
    \<open>closure_protocol_v2_diagnostic.go\<close>), \<open>Closure_Git\<close> (\<open>v2_verifier_authority.go\<close>,
    \<open>git_identity.go\<close>, \<open>v2_verifier_format.go\<close>), \<open>Closure_Topology\<close>
    (\<open>v2_verifier_request.go\<close>, \<open>v2_verifier_topology.go\<close>), \<open>Closure_Manifest\<close>
    (\<open>v2_verifier_manifest.go\<close>), \<open>Closure_Results\<close>
    (\<open>closure_protocol_v2_results.go\<close>), \<open>Closure_Tag\<close> (\<open>v2_verifier_tag*.go\<close>, the tag of
    \<open>run_v2_tag.go\<close>), \<open>Closure_Verify\<close> (\<open>v2_verifier_validate.go\<close>,
    \<open>v2_verifier_state.go\<close>, \<open>v2_verifier_result.go\<close>, \<open>v2_verifier_orchestrator.go\<close>).
  \<^item> \<open>Plan_Scan\<close> (\<open>plancontract/plancontract.go\<close>), \<open>Plan_Validate\<close>
    (\<open>plancontract/plancontract_full_*.go\<close>), \<open>Plan_Project\<close>
    (\<open>plancontract/plancontract_full.go\<close>, \<open>plancontract/plancontract_validated.go\<close>).
  \<^item> \<open>Closure_Dispatch\<close> (\<open>closure_protocol_v2_topology.go\<close>,
    \<open>closure_protocol_v2_dispatch.go\<close>), \<open>Closure_Paths\<close> (\<open>v2_path_authority.go\<close>),
    \<open>Closure_Loader\<close> (\<open>closure_protocol_v2_loader.go\<close>), \<open>Closure_Execute\<close>
    (\<open>execution.go\<close>), \<open>Closure_State\<close> (\<open>v2_lifecycle_invariants.go\<close>,
    \<open>v2_caller_state_refs.go\<close>).

  Structs are records (datatypes with a \<open>linorder\<close> instance where the code uses them as map
  keys), methods are functions of the receiver, errors and panics are the left side of a sum, a nil
  pointer is \<open>None\<close>.  Go strings are lists of bytes.  Unsigned counters of the executor are words,
  positions and lengths are integers.

  \<^bold>\<open>What is shown.\<close>

  \<^item> Duplicate code: the pipeline publishes exactly read-off occurrences under one content key and
    none twice, materialisation computes connected components (a refinement of the graph
    specification of the locale \<open>symmetric_graph\<close>), shadow suppression loses nothing that is not
    covered, no scan panics, comparisons with a baseline report exactly what changed, and baselines
    verify exactly.
  \<^item> Execution: an invariant of all interleavings of concurrent calls bounds starts, slots and
    active fingerprints, calls can always drain, a success is genuine, every call returns and
    restores the guards, output capture refines a log cut at its capacity, termination and the git
    runner fail closed.
  \<^item> Gate summaries: the decoder succeeds exactly on documents all its stages accept and fails
    closed (locale \<open>decoder_contract\<close>, interpreted by the production dependencies), iterative
    scanners equal their recursive reading, and normalization of versions 2 and 3 is characterised
    exactly.
  \<^item> Closure: the verdict of the verifier is characterised exactly, from the validation of the
    request to the success of every check of the frozen plan; the verdict and the diagnostics
    agree; the topology is accepted exactly for a chain of proper ancestors; results the runner
    publishes verify; tag metadata binds exactly when the seven trailers match; accepted paths are
    local.  Both byte authorities keep the contract of the locale \<open>blob_authority\<close>.
  \<^item> Plan contract: the reader accepts exactly the encodings of one value with distinct names, every
    accepted plan is well formed, every well-formed plan is accepted and read back unchanged, and
    the entry points agree.
  \<^item> Runner: its topology is accepted exactly in the direction of its mode and agrees with the
    verifier; outputs are accepted exactly outside the repository after links are resolved; the
    frozen plan is the blob the verifier reads; the checks run serially up to the first failure and
    their evidence is bound to new files; drift of the caller's repository is reported exactly,
    and its references are framed without loss.

  Some theorems show that the code does not do what its comments or documents say, among them that
  a process that could not be started counts as a positive ancestry answer, that a request with an
  expected tag can never be verified, that the runner writes tags the verifier does not accept,
  that a plan with an excluded check can never be published, that a report with two findings of
  one fingerprint differs from the baseline written from it, and that schema version 3, documented
  as unsupported, is dispatched.

  \<^bold>\<open>Parameters and bounds.\<close>  What lies outside the sources is an argument: the Go scanner and
  parser (per file), \<open>encoding/json\<close> (tokens, or the decoded value of a document), the JSON schema
  validator (its error tree), git (a function from arguments to results), the kernel, the clock and
  the scheduler (sequences of answers), the file system of the runner (answers of \<open>Lstat\<close>,
  \<open>EvalSymlinks\<close> and \<open>ReadFile\<close>), the verb \<open>%q\<close> and \<open>strings.ToLower\<close>.  The plan parser
  \<open>DecodePlan\<close> of the closure package is an argument of the verifier too.  Loops are total
  functions with termination proofs; only the polling loops of \<open>Exec_Process\<close> may run forever and
  are \<open>partial_function (option)\<close>, with theorems that they return when the pause between two polls
  takes its ten milliseconds (\<open>sleeps\<close>).  No fuel is used.

  The theorems about the topology assume that git answers the ancestry of commits it has resolved
  itself (\<open>answersAncestry\<close>); nothing is assumed of other names, for which
  \<open>git merge-base --is-ancestor\<close> fails.  The decoder is shown to explain its refusals if the schema
  validator names the properties it complains of (\<open>namesProperties\<close>).

  \<^bold>\<open>Not modelled.\<close>  The second plan parser of package \<open>closure\<close>, its worktree executor, evidence
  and publication, the digest, gate, doctrine and repository checks under
  \<open>internal/factory\<close>, the witness and hulk packages, and \<open>cmd/leamas\<close>: they walk directories,
  run tools and print, and have little state of their own.  Of the
  duplicate-code package the legacy V3 coalescing and the printing of reports are left out.
\<close>

end
